(* ===== verification/Qcold_Prelude.thy ===== *)
theory Qcold_Prelude
  imports Main "HOL-Library.Char_ord" "HOL-Library.List_Lexorder"
    "HOL-Library.Product_Lexorder" "HOL-Library.Word"
begin

text \<open>
  Shared vocabulary of the development: Rust integers with their saturating operations, the
  string functions of the Rust standard library the sources call, the error type, and the
  state-and-error monad in which the SQLite-backed operations are written.

  A \<open>char\<close> stands for one Unicode scalar value below 256. The whitespace and control classes
  are those of Rust's \<open>char::is_whitespace\<close> and \<open>char::is_control\<close> on that range. A \<open>u64\<close> or
  \<open>usize\<close> is a \<open>nat\<close> with its saturation written out, an \<open>i64\<close> an \<open>int\<close> with its saturation
  written out; where the code wraps or narrows (a hash, a port number) a word type is used.
\<close>

named_theorems store_simps "equations that run one statement of a store program"
named_theorems keeps_intro "composition rules for store programs that keep an invariant"

section \<open>Rust integers\<close>

definition u64_max :: nat where
  "u64_max = 18446744073709551615"

definition i64_max :: int where
  "i64_max = 9223372036854775807"

definition i64_min :: int where
  "i64_min = - 9223372036854775808"

definition sat_add_u64 :: "nat \<Rightarrow> nat \<Rightarrow> nat" where
  "sat_add_u64 a b = min (a + b) u64_max"

definition sat_mul_u64 :: "nat \<Rightarrow> nat \<Rightarrow> nat" where
  "sat_mul_u64 a b = min (a * b) u64_max"

definition sat_sub_u64 :: "nat \<Rightarrow> nat \<Rightarrow> nat" where
  "sat_sub_u64 a b = a - b"

definition sat_add_i64 :: "int \<Rightarrow> int \<Rightarrow> int" where
  "sat_add_i64 a b = max i64_min (min (a + b) i64_max)"

lemma sat_add_u64_le: "sat_add_u64 a b \<le> a + b"
  by (simp add: sat_add_u64_def)

lemma sat_add_u64_ge: "a \<le> u64_max \<Longrightarrow> a \<le> sat_add_u64 a b"
  by (simp add: sat_add_u64_def)

lemma sat_add_u64_exact: "a + b \<le> u64_max \<Longrightarrow> sat_add_u64 a b = a + b"
  by (simp add: sat_add_u64_def)

lemma sat_add_u64_mono: "a \<le> a' \<Longrightarrow> sat_add_u64 a b \<le> sat_add_u64 a' b"
  by (simp add: sat_add_u64_def min_def)

lemma sat_add_i64_1: "i64_min \<le> a \<Longrightarrow> a < i64_max \<Longrightarrow> sat_add_i64 a 1 = a + 1"
  by (simp add: sat_add_i64_def i64_min_def i64_max_def)

lemma sat_add_i64_1_ge: "i64_min \<le> a \<Longrightarrow> a \<le> i64_max \<Longrightarrow> a \<le> sat_add_i64 a 1"
  by (simp add: sat_add_i64_def i64_min_def i64_max_def)

section \<open>Characters and strings\<close>

definition is_whitespace :: "char \<Rightarrow> bool" where
  "is_whitespace c =
     (let n = of_char c :: nat in (9 \<le> n \<and> n \<le> 13) \<or> n = 32 \<or> n = 133 \<or> n = 160)"

definition is_control :: "char \<Rightarrow> bool" where
  "is_control c = (let n = of_char c :: nat in n \<le> 31 \<or> (127 \<le> n \<and> n \<le> 159))"

definition is_ascii_digit :: "char \<Rightarrow> bool" where
  "is_ascii_digit c = (let n = of_char c :: nat in 48 \<le> n \<and> n \<le> 57)"

definition is_ascii_alphanumeric :: "char \<Rightarrow> bool" where
  "is_ascii_alphanumeric c =
     (let n = of_char c :: nat in
        is_ascii_digit c \<or> (65 \<le> n \<and> n \<le> 90) \<or> (97 \<le> n \<and> n \<le> 122))"

definition trim_matches :: "(char \<Rightarrow> bool) \<Rightarrow> string \<Rightarrow> string" where
  "trim_matches p s = rev (dropWhile p (rev (dropWhile p s)))"

definition trim :: "string \<Rightarrow> string" where
  "trim s = trim_matches is_whitespace s"

lemma trim_matches_Nil_iff: "trim_matches p s = [] \<longleftrightarrow> (\<forall>c \<in> set s. p c)"
  by (auto simp: trim_matches_def dropWhile_eq_Nil_conv dest: set_dropWhileD)
     (metis dropWhile_eq_Nil_conv set_rev takeWhile_dropWhile_id set_takeWhileD Un_iff set_append)

lemma trim_Nil [simp]: "trim [] = []"
  by (simp add: trim_def trim_matches_def)

lemma trim_matches_subset: "set (trim_matches p s) \<subseteq> set s"
  by (auto simp: trim_matches_def dest!: set_dropWhileD)

fun strip_prefix :: "string \<Rightarrow> string \<Rightarrow> string option" where
  "strip_prefix [] s = Some s"
| "strip_prefix (p # ps) [] = None"
| "strip_prefix (p # ps) (c # cs) = (if p = c then strip_prefix ps cs else None)"

definition starts_with :: "string \<Rightarrow> string \<Rightarrow> bool" where
  "starts_with p s = (strip_prefix p s \<noteq> None)"

lemma strip_prefix_iff: "strip_prefix p s = Some r \<longleftrightarrow> s = p @ r"
  by (induction p s rule: strip_prefix.induct) auto

lemma starts_with_iff: "starts_with p s \<longleftrightarrow> (\<exists>r. s = p @ r)"
  by (auto simp: starts_with_def strip_prefix_iff)

fun str_contains :: "string \<Rightarrow> string \<Rightarrow> bool" where
  "str_contains needle [] = (needle = [])"
| "str_contains needle (c # cs) = (starts_with needle (c # cs) \<or> str_contains needle cs)"

fun split_when :: "(char \<Rightarrow> bool) \<Rightarrow> string \<Rightarrow> string list" where
  "split_when p [] = [[]]"
| "split_when p (c # cs) =
     (if p c then [] # split_when p cs
      else (case split_when p cs of [] \<Rightarrow> [[c]] | w # ws \<Rightarrow> (c # w) # ws))"

fun join_with :: "string \<Rightarrow> string list \<Rightarrow> string" where
  "join_with sep [] = []"
| "join_with sep [w] = w"
| "join_with sep (w # v # ws) = w @ sep @ join_with sep (v # ws)"

lemma split_when_not_Nil [simp]: "split_when p s \<noteq> []"
  by (induction s) (auto split: list.splits)

lemma join_split:
  assumes "\<And>c. p c \<Longrightarrow> c = d"
  shows "join_with [d] (split_when p s) = s"
proof (induction s)
  case Nil
  show ?case by simp
next
  case (Cons c cs)
  obtain w ws where ws: "split_when p cs = w # ws"
    by (cases "split_when p cs") auto
  then show ?case
    using Cons assms [of c] by (cases ws) auto
qed

text \<open>The last occurrence of a separator: \<open>str::rsplit_once\<close> with a character pattern.\<close>

fun rsplit_once :: "char \<Rightarrow> string \<Rightarrow> (string \<times> string) option" where
  "rsplit_once d [] = None"
| "rsplit_once d (c # cs) =
     (case rsplit_once d cs of
        Some (a, b) \<Rightarrow> Some (c # a, b)
      | None \<Rightarrow> (if c = d then Some ([], cs) else None))"

lemma rsplit_once_None: "rsplit_once d s = None \<longleftrightarrow> d \<notin> set s"
  by (induction s) (auto split: option.splits)

lemma rsplit_once_Some: "rsplit_once d s = Some (a, b) \<longleftrightarrow> s = a @ d # b \<and> d \<notin> set b"
proof (induction s arbitrary: a b)
  case Nil
  show ?case by simp
next
  case (Cons c cs)
  show ?case
  proof (cases "rsplit_once d cs")
    case None
    then have "d \<notin> set cs" by (simp add: rsplit_once_None)
    with None show ?thesis by (cases a) auto
  next
    case (Some ab)
    then obtain a' b' where ab: "ab = (a', b')" by (cases ab)
    with Some Cons.IH [of a' b'] have cs: "cs = a' @ d # b'" "d \<notin> set b'" by auto
    have iff: "c # cs = a @ d # b \<and> d \<notin> set b \<longleftrightarrow> a = c # a' \<and> b = b'"
    proof
      assume l: "c # cs = a @ d # b \<and> d \<notin> set b"
      then have "a \<noteq> []" using cs by auto
      then obtain a2 where a: "a = c # a2" using l by (cases a) auto
      with l have "cs = a2 @ d # b" "d \<notin> set b" by auto
      then have "rsplit_once d cs = Some (a2, b)" using Cons.IH by blast
      with Some ab a show "a = c # a' \<and> b = b'" by simp
    qed (use cs in auto)
    show ?thesis using Some ab iff by auto
  qed
qed

text \<open>The first occurrence (\<open>str::split_once\<close>) and the lines of a text (\<open>str::lines\<close>).\<close>

fun split_once :: "char \<Rightarrow> string \<Rightarrow> (string \<times> string) option" where
  "split_once d [] = None"
| "split_once d (c # cs) =
     (if c = d then Some ([], cs)
      else (case split_once d cs of None \<Rightarrow> None | Some (a, b) \<Rightarrow> Some (c # a, b)))"

lemma split_once_at: "d \<notin> set a \<Longrightarrow> split_once d (a @ d # b) = Some (a, b)"
  by (induction a) auto

definition strip_cr :: "string \<Rightarrow> string" where
  "strip_cr w = (if w \<noteq> [] \<and> last w = CHR 0x0D then butlast w else w)"

definition str_lines :: "string \<Rightarrow> string list" where
  "str_lines s =
     (let ps = split_when (\<lambda>c. c = CHR 0x0A) s
      in map strip_cr (butlast ps) @ (if last ps = [] then [] else [last ps]))"

lemma split_when_clean: "\<forall>c \<in> set a. \<not> p c \<Longrightarrow> split_when p a = [a]"
  by (induction a) auto

lemma split_when_at: "\<forall>c \<in> set a. \<not> p c \<Longrightarrow> p d \<Longrightarrow> split_when p (a @ d # b) = a # split_when p b"
  by (induction a) auto

lemma str_lines_Cons:
  "CHR 0x0A \<notin> set a \<Longrightarrow> str_lines (a @ CHR 0x0A # b) = strip_cr a # str_lines b"
  by (subst str_lines_def, subst split_when_at) (auto simp: str_lines_def Let_def)

lemma str_lines_Nil [simp]: "str_lines [] = []"
  by (simp add: str_lines_def)

text \<open>Decimal rendering of the formatting macros.\<close>

definition digit_char :: "nat \<Rightarrow> char" where
  "digit_char d = char_of (48 + d)"

fun show_nat :: "nat \<Rightarrow> string" where
  "show_nat n = (if n < 10 then [digit_char n] else show_nat (n div 10) @ [digit_char (n mod 10)])"

declare show_nat.simps [simp del]

definition show_int :: "int \<Rightarrow> string" where
  "show_int i = (if i < 0 then CHR ''-'' # show_nat (nat (- i)) else show_nat (nat i))"

lemma show_nat_not_Nil [simp]: "show_nat n \<noteq> []"
  by (subst show_nat.simps) simp

fun digits_value :: "string \<Rightarrow> nat" where
  "digits_value [] = 0"
| "digits_value (c # cs) = (of_char c - 48) * 10 ^ length cs + digits_value cs"

lemma digits_value_append:
  "digits_value (a @ b) = digits_value a * 10 ^ length b + digits_value b"
  by (induction a) (auto simp: algebra_simps power_add)

lemma of_digit_char [simp]: "d < 10 \<Longrightarrow> (of_char (digit_char d) :: nat) = 48 + d"
  by (simp add: digit_char_def)

lemma digits_value_show_nat [simp]: "digits_value (show_nat n) = n"
proof (induction n rule: show_nat.induct)
  case (1 n)
  show ?case
  proof (cases "n < 10")
    case True
    then show ?thesis by (subst show_nat.simps) simp
  next
    case False
    then show ?thesis
      using 1 by (subst show_nat.simps) (simp add: digits_value_append)
  qed
qed

lemma show_nat_inj: "show_nat a = show_nat b \<longleftrightarrow> a = b"
  by (metis digits_value_show_nat)

lemma show_nat_digits: "c \<in> set (show_nat n) \<Longrightarrow> is_ascii_digit c"
proof (induction n rule: show_nat.induct)
  case (1 n)
  have digit: "is_ascii_digit (digit_char d)" if "d < 10" for d
    using that by (simp add: is_ascii_digit_def)
  show ?case
  proof (cases "n < 10")
    case True
    with "1.prems" digit show ?thesis by (subst (asm) show_nat.simps) auto
  next
    case False
    with 1 digit [of "n mod 10"] show ?thesis by (subst (asm) show_nat.simps) auto
  qed
qed

section \<open>Errors and the store monad\<close>

text \<open>
  An \<open>anyhow::Error\<close> is either a message of the code (\<open>bail!\<close>, \<open>with_context\<close>) or a constraint
  violation reported by SQLite, named by the context the statement attaches to it. A panic leaves
  a program the same way but is not an error value: the code that inspects errors never sees it.
\<close>

datatype qerror = Bail string | Constraint string | Panic string

text \<open>The message of an error as \<open>format!("{err:#}")\<close> prints it.\<close>

fun error_text :: "qerror \<Rightarrow> string" where
  "error_text (Bail m) = m"
| "error_text (Constraint m) = m"
| "error_text (Panic m) = m"

text \<open>
  A store program maps the state to a result and a state. A failing program still yields a
  state: statements that ran outside a transaction stay executed. \<open>transaction\<close> rolls back.
\<close>

type_synonym ('s, 'a) prog = "'s \<Rightarrow> (qerror + 'a) \<times> 's"

definition ret :: "'a \<Rightarrow> ('s, 'a) prog" where
  "ret x = (\<lambda>s. (Inr x, s))"

definition throw :: "qerror \<Rightarrow> ('s, 'a) prog" where
  "throw e = (\<lambda>s. (Inl e, s))"

definition bnd :: "('s, 'a) prog \<Rightarrow> ('a \<Rightarrow> ('s, 'b) prog) \<Rightarrow> ('s, 'b) prog" where
  "bnd m k = (\<lambda>s. case m s of (Inl e, t) \<Rightarrow> (Inl e, t) | (Inr x, t) \<Rightarrow> k x t)"

definition query :: "('s \<Rightarrow> 'a) \<Rightarrow> ('s, 'a) prog" where
  "query f = (\<lambda>s. (Inr (f s), s))"

definition modify :: "('s \<Rightarrow> 's) \<Rightarrow> ('s, unit) prog" where
  "modify f = (\<lambda>s. (Inr (), f s))"

definition transaction :: "('s, 'a) prog \<Rightarrow> ('s, 'a) prog" where
  "transaction m = (\<lambda>s. case m s of (Inl e, t) \<Rightarrow> (Inl e, s) | (Inr x, t) \<Rightarrow> (Inr x, t))"

abbreviation seq :: "('s, 'a) prog \<Rightarrow> ('s, 'b) prog \<Rightarrow> ('s, 'b) prog" where
  "seq m k \<equiv> bnd m (\<lambda>_. k)"

fun for_each :: "('a \<Rightarrow> ('s, unit) prog) \<Rightarrow> 'a list \<Rightarrow> ('s, unit) prog" where
  "for_each f [] = ret ()"
| "for_each f (x # xs) = seq (f x) (for_each f xs)"

lemma run_ret [simp, store_simps]: "ret x s = (Inr x, s)"
  by (simp add: ret_def)

lemma run_throw [simp, store_simps]: "throw e s = (Inl e, s)"
  by (simp add: throw_def)

lemma run_query [simp, store_simps]: "query f s = (Inr (f s), s)"
  by (simp add: query_def)

lemma run_modify [simp, store_simps]: "modify f s = (Inr (), f s)"
  by (simp add: modify_def)

lemma run_bnd [store_simps]:
  "bnd m k s = (case m s of (Inl e, t) \<Rightarrow> (Inl e, t) | (Inr x, t) \<Rightarrow> k x t)"
  by (simp add: bnd_def)

lemma run_transaction [store_simps]:
  "transaction m s = (case m s of (Inl e, t) \<Rightarrow> (Inl e, s) | (Inr x, t) \<Rightarrow> (Inr x, t))"
  by (simp add: transaction_def)

lemma bnd_query [simp]: "bnd (query f) k s = k (f s) s"
  by (simp add: bnd_def query_def)

lemma bnd_ret [simp]: "bnd (ret x) k = k x"
  by (simp add: bnd_def ret_def)

lemma bnd_throw [simp]: "bnd (throw e) k = throw e"
  by (simp add: bnd_def throw_def)

lemma bnd_assoc: "bnd (bnd m k) h = bnd m (\<lambda>x. bnd (k x) h)"
  by (auto simp: bnd_def fun_eq_iff split: prod.splits sum.splits)

lemma bnd_Inr: "m s = (Inr x, t) \<Longrightarrow> bnd m k s = k x t"
  by (simp add: bnd_def)

lemma bnd_Inl: "m s = (Inl e, t) \<Longrightarrow> bnd m k s = (Inl e, t)"
  by (simp add: bnd_def)

lemma bnd_InrE:
  assumes "bnd m k s = (Inr y, t)"
  obtains x u where "m s = (Inr x, u)" "k x u = (Inr y, t)"
  using assms by (auto simp: bnd_def split: prod.splits sum.splits)

lemma transaction_InrD: "transaction m s = (Inr x, t) \<Longrightarrow> m s = (Inr x, t)"
  by (auto simp: transaction_def split: prod.splits sum.splits)

lemma transaction_Inl: "transaction m s = (Inl e, t) \<Longrightarrow> t = s"
  by (auto simp: transaction_def split: prod.splits sum.splits)

text \<open>A failed transaction leaves the state as it was.\<close>

definition atomic :: "('s, 'a) prog \<Rightarrow> bool" where
  "atomic m \<longleftrightarrow> (\<forall>s e t. m s = (Inl e, t) \<longrightarrow> t = s)"

lemma atomic_transaction: "atomic (transaction m)"
  by (auto simp: atomic_def dest: transaction_Inl)

text \<open>Programs that keep an invariant, on success and on failure alike.\<close>

definition keeps :: "('s \<Rightarrow> bool) \<Rightarrow> ('s, 'a) prog \<Rightarrow> bool" where
  "keeps I m \<longleftrightarrow> (\<forall>s. I s \<longrightarrow> I (snd (m s)))"

lemma keepsD: "keeps I m \<Longrightarrow> I s \<Longrightarrow> m s = (r, t) \<Longrightarrow> I t"
  by (metis keeps_def snd_conv)

lemma keeps_ret [keeps_intro]: "keeps I (ret x)"
  by (simp add: keeps_def)

lemma keeps_throw [keeps_intro]: "keeps I (throw e)"
  by (simp add: keeps_def)

lemma keeps_query [keeps_intro]: "keeps I (query f)"
  by (simp add: keeps_def)

lemma keeps_bnd [keeps_intro]:
  assumes "keeps I m" and "\<And>x. keeps I (k x)"
  shows "keeps I (bnd m k)"
  unfolding keeps_def
proof (intro allI impI)
  fix s assume "I s"
  obtain r t where m: "m s = (r, t)" by (cases "m s")
  with assms(1) \<open>I s\<close> have "I t" by (metis keeps_def snd_conv)
  with m assms(2) show "I (snd (bnd m k s))"
    by (cases r) (auto simp: bnd_def keeps_def)
qed

lemma keeps_transaction [keeps_intro]:
  assumes "keeps I m"
  shows "keeps I (transaction m)"
  unfolding keeps_def
proof (intro allI impI)
  fix s assume "I s"
  obtain r t where m: "m s = (r, t)" by (cases "m s")
  with assms \<open>I s\<close> have "I t" by (metis keeps_def snd_conv)
  with m \<open>I s\<close> show "I (snd (transaction m s))"
    by (cases r) (auto simp: transaction_def)
qed

lemma keeps_modify: "(\<And>s. I s \<Longrightarrow> I (f s)) \<Longrightarrow> keeps I (modify f)"
  by (simp add: keeps_def)

lemma keeps_if [keeps_intro]: "keeps I m \<Longrightarrow> keeps I n \<Longrightarrow> keeps I (if b then m else n)"
  by simp

lemma keeps_case_option [keeps_intro]:
  "keeps I m \<Longrightarrow> (\<And>x. keeps I (k x)) \<Longrightarrow> keeps I (case y of None \<Rightarrow> m | Some x \<Rightarrow> k x)"
  by (cases y) auto

lemma keeps_case_sum [keeps_intro]:
  "(\<And>x. keeps I (h x)) \<Longrightarrow> (\<And>x. keeps I (k x)) \<Longrightarrow>
   keeps I (case y of Inl x \<Rightarrow> h x | Inr x \<Rightarrow> k x)"
  by (cases y) auto

lemma keeps_case_prod [keeps_intro]:
  "(\<And>x y. keeps I (k x y)) \<Longrightarrow> keeps I (case p of (x, y) \<Rightarrow> k x y)"
  by (cases p) auto

lemma keeps_let [keeps_intro]: "(\<And>x. keeps I (k x)) \<Longrightarrow> keeps I (let x = y in k x)"
  by simp

lemma keeps_for_each [keeps_intro]:
  "(\<And>x. x \<in> set xs \<Longrightarrow> keeps I (f x)) \<Longrightarrow> keeps I (for_each f xs)"
  by (induction xs) (auto intro!: keeps_intro)

section \<open>Iterator extrema\<close>

text \<open>
  \<open>Iterator::max_by_key\<close> keeps the last of several maxima, \<open>Iterator::min_by_key\<close> the first of
  several minima.
\<close>

definition max_by_key :: "('a \<Rightarrow> 'k::linorder) \<Rightarrow> 'a list \<Rightarrow> 'a option" where
  "max_by_key f xs =
     foldl (\<lambda>best x. case best of None \<Rightarrow> Some x | Some b \<Rightarrow> if f x < f b then Some b else Some x) None xs"

definition min_by_key :: "('a \<Rightarrow> 'k::linorder) \<Rightarrow> 'a list \<Rightarrow> 'a option" where
  "min_by_key f xs =
     foldl (\<lambda>best x. case best of None \<Rightarrow> Some x | Some b \<Rightarrow> if f x < f b then Some x else Some b) None xs"

lemma max_by_key_snoc:
  "max_by_key f (xs @ [x]) =
     (case max_by_key f xs of None \<Rightarrow> Some x | Some b \<Rightarrow> if f x < f b then Some b else Some x)"
  by (simp add: max_by_key_def)

lemma min_by_key_snoc:
  "min_by_key f (xs @ [x]) =
     (case min_by_key f xs of None \<Rightarrow> Some x | Some b \<Rightarrow> if f x < f b then Some x else Some b)"
  by (simp add: min_by_key_def)

lemma max_by_key_Nil [simp]: "max_by_key f [] = None"
  by (simp add: max_by_key_def)

lemma min_by_key_Nil [simp]: "min_by_key f [] = None"
  by (simp add: min_by_key_def)

lemma max_by_key_None: "max_by_key f xs = None \<longleftrightarrow> xs = []"
  by (induction xs rule: rev_induct) (auto simp: max_by_key_snoc split: option.splits)

lemma min_by_key_None: "min_by_key f xs = None \<longleftrightarrow> xs = []"
  by (induction xs rule: rev_induct) (auto simp: min_by_key_snoc split: option.splits)

lemma max_by_key_Some: "max_by_key f xs = Some b \<Longrightarrow> b \<in> set xs \<and> (\<forall>x \<in> set xs. f x \<le> f b)"
proof (induction xs arbitrary: b rule: rev_induct)
  case (snoc x xs)
  then show ?case
    by (auto simp: max_by_key_snoc max_by_key_None split: option.splits if_splits)
qed simp

lemma min_by_key_Some: "min_by_key f xs = Some b \<Longrightarrow> b \<in> set xs \<and> (\<forall>x \<in> set xs. f b \<le> f x)"
proof (induction xs arbitrary: b rule: rev_induct)
  case (snoc x xs)
  then show ?case
    by (auto simp: min_by_key_snoc min_by_key_None split: option.splits if_splits)
qed simp

section \<open>Tables\<close>

text \<open>
  A table is the list of its rows. \<open>update_where\<close> and \<open>delete_where\<close> are the SQL statements
  \<open>update .. set .. where ..\<close> and \<open>delete from .. where ..\<close>; \<open>count_where\<close> is the number of rows
  a statement touches, as \<open>Connection::execute\<close> returns it.
\<close>

definition update_where :: "('r \<Rightarrow> bool) \<Rightarrow> ('r \<Rightarrow> 'r) \<Rightarrow> 'r list \<Rightarrow> 'r list" where
  "update_where p f rows = map (\<lambda>r. if p r then f r else r) rows"

definition delete_where :: "('r \<Rightarrow> bool) \<Rightarrow> 'r list \<Rightarrow> 'r list" where
  "delete_where p rows = filter (\<lambda>r. \<not> p r) rows"

definition count_where :: "('r \<Rightarrow> bool) \<Rightarrow> 'r list \<Rightarrow> nat" where
  "count_where p rows = length (filter p rows)"

definition exists_where :: "('r \<Rightarrow> bool) \<Rightarrow> 'r list \<Rightarrow> bool" where
  "exists_where p rows = list_ex p rows"

lemma exists_where_iff [simp]: "exists_where p rows \<longleftrightarrow> (\<exists>r \<in> set rows. p r)"
  by (simp add: exists_where_def list_ex_iff)

lemma count_where_0: "count_where p rows = 0 \<longleftrightarrow> (\<forall>r \<in> set rows. \<not> p r)"
  by (simp add: count_where_def filter_empty_conv)

lemma count_where_pos: "0 < count_where p rows \<longleftrightarrow> (\<exists>r \<in> set rows. p r)"
  using count_where_0 [of p rows] by auto

lemma set_update_where: "set (update_where p f rows) = (\<lambda>r. if p r then f r else r) ` set rows"
  by (simp add: update_where_def)

lemma set_delete_where [simp]: "set (delete_where p rows) = {r \<in> set rows. \<not> p r}"
  by (auto simp: delete_where_def)

lemma length_update_where [simp]: "length (update_where p f rows) = length rows"
  by (simp add: update_where_def)

lemma map_update_where:
  "(\<And>r. p r \<Longrightarrow> k (f r) = k r) \<Longrightarrow> map k (update_where p f rows) = map k rows"
  by (simp add: update_where_def)

lemma image_update_where:
  assumes "\<And>r. p r \<Longrightarrow> k (f r) = k r"
  shows "k ` set (update_where p f rows) = k ` set rows"
proof -
  have "map k (update_where p f rows) = map k rows"
    using assms by (rule map_update_where)
  then have "set (map k (update_where p f rows)) = set (map k rows)" by simp
  then show ?thesis by simp
qed

lemma distinct_delete_where: "distinct (map k rows) \<Longrightarrow> distinct (map k (delete_where p rows))"
  by (simp add: delete_where_def distinct_map_filter)

lemma find_Some_set: "find p xs = Some x \<Longrightarrow> x \<in> set xs \<and> p x"
  by (auto simp: find_Some_iff)

lemma find_key_unique:
  assumes "distinct (map k xs)" and "x \<in> set xs" and "k x = a"
  shows "find (\<lambda>r. k r = a) xs = Some x"
  using assms by (induction xs) (auto simp: rev_image_eqI)

lemma find_key_update:
  assumes "\<And>r. p r \<Longrightarrow> k (f r) = k r"
  shows "find (\<lambda>r. k r = a) (update_where p f rows) =
     map_option (\<lambda>r. if p r then f r else r) (find (\<lambda>r. k r = a) rows)"
  using assms by (induction rows) (auto simp: update_where_def)

lemma find_key_delete:
  "find (\<lambda>r. k r = a) (delete_where (\<lambda>r. k r = b) rows) =
     (if a = b then None else find (\<lambda>r. k r = a) rows)"
  by (induction rows) (auto simp: delete_where_def)

text \<open>
  The interface of a keyed table, as the clients of the store use it: rows are found by their
  key, an update that keeps keys changes exactly the rows it selects, a deletion removes them.
\<close>

locale keyed_table =
  fixes key :: "'r \<Rightarrow> 'k"
    and lookup :: "'k \<Rightarrow> 'r list \<Rightarrow> 'r option"
    and valid :: "'r list \<Rightarrow> bool"
  assumes lookup_key: "lookup a rows = Some r \<Longrightarrow> key r = a"
    and lookup_in: "lookup a rows = Some r \<Longrightarrow> r \<in> set rows"
    and lookup_unique: "valid rows \<Longrightarrow> r \<in> set rows \<Longrightarrow> lookup (key r) rows = Some r"
    and lookup_complete: "lookup a rows = None \<Longrightarrow> a \<notin> key ` set rows"
    and valid_distinct: "valid rows \<longleftrightarrow> distinct (map key rows)"
begin

lemma lookup_iff: "valid rows \<Longrightarrow> lookup a rows = Some r \<longleftrightarrow> r \<in> set rows \<and> key r = a"
  using lookup_key lookup_in lookup_unique by blast

lemma lookup_None_iff: "lookup a rows = None \<longleftrightarrow> a \<notin> key ` set rows"
  using lookup_complete lookup_key lookup_in
  by (metis image_iff not_Some_eq lookup_complete)

lemma valid_update:
  "valid rows \<Longrightarrow> (\<And>r. p r \<Longrightarrow> key (f r) = key r) \<Longrightarrow> valid (update_where p f rows)"
  by (simp add: valid_distinct map_update_where)

lemma valid_delete: "valid rows \<Longrightarrow> valid (delete_where p rows)"
  by (simp add: valid_distinct distinct_delete_where)

lemma valid_insert: "valid rows \<Longrightarrow> lookup (key r) rows = None \<Longrightarrow> valid (rows @ [r])"
  by (auto simp: valid_distinct lookup_None_iff)

lemma lookup_insert:
  "valid (rows @ [r]) \<Longrightarrow> lookup a (rows @ [r]) = (if a = key r then Some r else lookup a rows)"
proof -
  assume v: "valid (rows @ [r])"
  then have v': "valid rows" by (simp add: valid_distinct)
  show ?thesis
  proof (cases "a = key r")
    case True
    then show ?thesis using lookup_unique [OF v, of r] by simp
  next
    case False
    show ?thesis
    proof (cases "lookup a rows")
      case None
      then have "a \<notin> key ` set (rows @ [r])" using False lookup_None_iff [of a rows] by auto
      then show ?thesis using None False lookup_None_iff [of a "rows @ [r]"] by simp
    next
      case (Some r')
      then have "r' \<in> set (rows @ [r])" "key r' = a" using lookup_iff [OF v'] by auto
      then have "lookup a (rows @ [r]) = Some r'" using lookup_iff [OF v] by blast
      then show ?thesis using Some False by simp
    qed
  qed
qed

lemma lookup_update:
  assumes "valid rows" and "\<And>r. p r \<Longrightarrow> key (f r) = key r"
  shows "lookup a (update_where p f rows) = map_option (\<lambda>r. if p r then f r else r) (lookup a rows)"
proof (cases "lookup a rows")
  case None
  then have "a \<notin> key ` set (update_where p f rows)"
    using image_update_where [of p key f rows] assms(2) by (simp add: lookup_None_iff)
  then show ?thesis using None lookup_None_iff [of a "update_where p f rows"] by simp
next
  case (Some r)
  then have "r \<in> set rows" "key r = a" using assms(1) by (auto simp: lookup_iff)
  then have "(if p r then f r else r) \<in> set (update_where p f rows)"
    "key (if p r then f r else r) = a"
    using assms(2) by (auto simp: set_update_where)
  then have "lookup a (update_where p f rows) = Some (if p r then f r else r)"
    using lookup_iff [OF valid_update [OF assms]] by blast
  then show ?thesis using Some by simp
qed

lemma lookup_delete:
  assumes "valid rows"
  shows "lookup a (delete_where p rows) =
    (case lookup a rows of None \<Rightarrow> None | Some r \<Rightarrow> if p r then None else Some r)"
proof (cases "lookup a rows")
  case None
  then have "a \<notin> key ` set (delete_where p rows)" by (auto simp: lookup_None_iff)
  then show ?thesis using None lookup_None_iff [of a "delete_where p rows"] by simp
next
  case (Some r)
  then have r: "r \<in> set rows" "key r = a" using assms by (auto simp: lookup_iff)
  show ?thesis
  proof (cases "p r")
    case True
    have "r' = r" if "r' \<in> set rows" "key r' = a" for r'
      using that Some assms by (metis lookup_iff option.inject)
    then show ?thesis using Some True by (auto simp: lookup_None_iff)
  next
    case False
    then have "lookup a (delete_where p rows) = Some r"
      using r assms by (simp add: lookup_iff valid_delete)
    then show ?thesis using Some False by simp
  qed
qed

end

lemma find_keyed_table: "keyed_table k (\<lambda>a. find (\<lambda>r. k r = a)) (\<lambda>rows. distinct (map k rows))"
proof
  fix a and rows and r
  assume "find (\<lambda>r. k r = a) rows = Some r"
  then show "k r = a" "r \<in> set rows" by (auto dest: find_Some_set)
next
  fix rows r
  assume "distinct (map k rows)" "r \<in> set rows"
  then show "find (\<lambda>r'. k r' = k r) rows = Some r" by (simp add: find_key_unique)
next
  fix a rows
  assume "find (\<lambda>r. k r = a) rows = None"
  then show "a \<notin> k ` set rows" by (auto simp: find_None_iff)
qed simp

end
