(* ===== verification/Queue_Types.thy ===== *)
theory Queue_Types
  imports Qcold_Prelude
begin

text \<open>
  The enumerations of \<open>src/src/state/queue_types.rs\<close> and their text encoding. A run status, item
  status, execution mode or execution host is stored as text; \<open>from_db_value\<close> reads it back, an
  unknown text staying visible as \<open>Unknown\<close>. Constructor names carry the enum as a prefix
  (\<open>RunRunning\<close> is \<open>QueueRunStatus::Running\<close>), since the Rust enums share constructor names.

  The codec contract is a locale: \<open>db_codec\<close> for an encoding whose decoding is a normalisation
  (the task class, where any other text means \<open>mid\<close>) and \<open>lossless_codec\<close> for one that keeps
  every text. The SQL statements compare the stored text with literals, the Rust code and this
  model compare constructors; \<open>text_test\<close> is the lemma that these tests agree.
\<close>

section \<open>Run status\<close>

datatype queue_run_status =
    RunRunning | RunWaiting | RunStarting | RunStopping | RunStopped | RunFailed | RunSuccess
  | RunUnknown string

definition run_status_from_db_value :: "string \<Rightarrow> queue_run_status" where
  "run_status_from_db_value v =
     (if v = ''running'' then RunRunning
      else if v = ''waiting'' then RunWaiting
      else if v = ''starting'' then RunStarting
      else if v = ''stopping'' then RunStopping
      else if v = ''stopped'' then RunStopped
      else if v = ''failed'' then RunFailed
      else if v = ''success'' then RunSuccess
      else RunUnknown v)"

fun run_status_as_str :: "queue_run_status \<Rightarrow> string" where
  "run_status_as_str RunRunning = ''running''"
| "run_status_as_str RunWaiting = ''waiting''"
| "run_status_as_str RunStarting = ''starting''"
| "run_status_as_str RunStopping = ''stopping''"
| "run_status_as_str RunStopped = ''stopped''"
| "run_status_as_str RunFailed = ''failed''"
| "run_status_as_str RunSuccess = ''success''"
| "run_status_as_str (RunUnknown v) = v"

definition run_is_active :: "queue_run_status \<Rightarrow> bool" where
  "run_is_active s = (s \<in> {RunRunning, RunWaiting, RunStarting, RunStopping})"

definition run_is_appendable :: "queue_run_status \<Rightarrow> bool" where
  "run_is_appendable s = (s \<in> {RunRunning, RunWaiting, RunStarting, RunStopped})"

definition run_is_editable :: "queue_run_status \<Rightarrow> bool" where
  "run_is_editable s = run_is_appendable s"

definition run_is_terminal :: "queue_run_status \<Rightarrow> bool" where
  "run_is_terminal s = (s \<in> {RunSuccess, RunFailed})"

definition run_is_success :: "queue_run_status \<Rightarrow> bool" where
  "run_is_success s = (s = RunSuccess)"

definition run_is_failed :: "queue_run_status \<Rightarrow> bool" where
  "run_is_failed s = (run_is_terminal s \<and> s = RunFailed)"

section \<open>Item status\<close>

datatype queue_item_status =
    ItemPending | ItemWaiting | ItemStarting | ItemRunning | ItemStopping | ItemStopped
  | ItemPaused | ItemSuccess | ItemFailed | ItemBlocked | ItemUnknown string

definition item_status_from_db_value :: "string \<Rightarrow> queue_item_status" where
  "item_status_from_db_value v =
     (if v = ''pending'' then ItemPending
      else if v = ''waiting'' then ItemWaiting
      else if v = ''starting'' then ItemStarting
      else if v = ''running'' then ItemRunning
      else if v = ''stopping'' then ItemStopping
      else if v = ''stopped'' then ItemStopped
      else if v = ''paused'' then ItemPaused
      else if v = ''success'' then ItemSuccess
      else if v = ''failed'' then ItemFailed
      else if v = ''blocked'' then ItemBlocked
      else ItemUnknown v)"

fun item_status_as_str :: "queue_item_status \<Rightarrow> string" where
  "item_status_as_str ItemPending = ''pending''"
| "item_status_as_str ItemWaiting = ''waiting''"
| "item_status_as_str ItemStarting = ''starting''"
| "item_status_as_str ItemRunning = ''running''"
| "item_status_as_str ItemStopping = ''stopping''"
| "item_status_as_str ItemStopped = ''stopped''"
| "item_status_as_str ItemPaused = ''paused''"
| "item_status_as_str ItemSuccess = ''success''"
| "item_status_as_str ItemFailed = ''failed''"
| "item_status_as_str ItemBlocked = ''blocked''"
| "item_status_as_str (ItemUnknown v) = v"

definition item_is_terminal :: "queue_item_status \<Rightarrow> bool" where
  "item_is_terminal s = (s \<in> {ItemSuccess, ItemFailed, ItemBlocked})"

definition item_is_active :: "queue_item_status \<Rightarrow> bool" where
  "item_is_active s = (s \<in> {ItemStarting, ItemRunning, ItemWaiting, ItemStopping})"

definition item_is_starting_or_running :: "queue_item_status \<Rightarrow> bool" where
  "item_is_starting_or_running s = (s \<in> {ItemStarting, ItemRunning})"

definition item_has_executor_session :: "queue_item_status \<Rightarrow> bool" where
  "item_has_executor_session s = (s \<in> {ItemStarting, ItemRunning, ItemStopping})"

definition item_is_pending_or_waiting :: "queue_item_status \<Rightarrow> bool" where
  "item_is_pending_or_waiting s = (s \<in> {ItemPending, ItemWaiting})"

definition item_is_stopped_or_paused :: "queue_item_status \<Rightarrow> bool" where
  "item_is_stopped_or_paused s = (s \<in> {ItemStopped, ItemPaused})"

definition item_is_failed_or_blocked :: "queue_item_status \<Rightarrow> bool" where
  "item_is_failed_or_blocked s = (s \<in> {ItemFailed, ItemBlocked})"

section \<open>Execution mode, execution host and task class\<close>

datatype queue_execution_mode = ModeSequence | ModeGraph | ModeUnknown string

definition mode_from_db_value :: "string \<Rightarrow> queue_execution_mode" where
  "mode_from_db_value v =
     (if v = ''sequence'' then ModeSequence
      else if v = ''graph'' then ModeGraph
      else ModeUnknown v)"

fun mode_as_str :: "queue_execution_mode \<Rightarrow> string" where
  "mode_as_str ModeSequence = ''sequence''"
| "mode_as_str ModeGraph = ''graph''"
| "mode_as_str (ModeUnknown v) = v"

datatype queue_execution_host = HostLocal | HostRemoteNative | HostUnknown string

definition host_from_db_value :: "string \<Rightarrow> queue_execution_host" where
  "host_from_db_value v =
     (if v = ''local'' then HostLocal
      else if v = ''remote-native'' then HostRemoteNative
      else HostUnknown v)"

definition host_from_setting :: "string \<Rightarrow> queue_execution_host" where
  "host_from_setting v =
     (let t = trim v in
      if t = ''local'' then HostLocal
      else if t = ''remote'' \<or> t = ''remote-native'' \<or> t = ''remote_native'' then HostRemoteNative
      else HostUnknown t)"

fun host_as_str :: "queue_execution_host \<Rightarrow> string" where
  "host_as_str HostLocal = ''local''"
| "host_as_str HostRemoteNative = ''remote-native''"
| "host_as_str (HostUnknown v) = v"

definition host_is_known :: "queue_execution_host \<Rightarrow> bool" where
  "host_is_known h = (h \<in> {HostLocal, HostRemoteNative})"

datatype queue_task_class = ClassCheap | ClassMid | ClassHeavy

definition class_from_db_value :: "string \<Rightarrow> queue_task_class" where
  "class_from_db_value v =
     (let t = trim v in
      if t = ''cheap'' then ClassCheap
      else if t = ''heavy'' then ClassHeavy
      else ClassMid)"

definition class_from_setting :: "string option \<Rightarrow> queue_task_class" where
  "class_from_setting v = (case v of None \<Rightarrow> ClassMid | Some t \<Rightarrow> class_from_db_value t)"

fun class_as_str :: "queue_task_class \<Rightarrow> string" where
  "class_as_str ClassCheap = ''cheap''"
| "class_as_str ClassMid = ''mid''"
| "class_as_str ClassHeavy = ''heavy''"

section \<open>The codec contract\<close>

text \<open>
  \<open>canonical\<close> marks the values that decoding produces. An \<open>Unknown\<close> that carries one of the known
  texts is not canonical: it would come back as the known constructor.
\<close>

locale db_codec =
  fixes decode :: "string \<Rightarrow> 'a"
    and encode :: "'a \<Rightarrow> string"
    and canonical :: "'a \<Rightarrow> bool"
  assumes decode_encode: "canonical x \<Longrightarrow> decode (encode x) = x"
    and decode_canonical: "canonical (decode v)"
begin

lemma stable: "decode (encode (decode v)) = decode v"
  by (simp add: decode_encode decode_canonical)

lemma encode_inj: "canonical x \<Longrightarrow> canonical y \<Longrightarrow> encode x = encode y \<longleftrightarrow> x = y"
  by (metis decode_encode)

lemma decode_surj: "canonical x \<Longrightarrow> \<exists>v. decode v = x"
  using decode_encode by blast

end

locale lossless_codec = db_codec +
  assumes encode_decode: "encode (decode v) = v"
begin

lemma decode_inj: "decode v = decode w \<longleftrightarrow> v = w"
  by (metis encode_decode)

lemma text_test: "canonical x \<Longrightarrow> encode x = v \<longleftrightarrow> x = decode v"
  by (metis decode_encode encode_decode)

lemma text_test_in: "canonical x \<Longrightarrow> encode x \<in> set vs \<longleftrightarrow> x \<in> decode ` set vs"
  using text_test by (metis encode_decode image_iff)

end

definition run_status_canonical :: "queue_run_status \<Rightarrow> bool" where
  "run_status_canonical s = (run_status_from_db_value (run_status_as_str s) = s)"

definition item_status_canonical :: "queue_item_status \<Rightarrow> bool" where
  "item_status_canonical s = (item_status_from_db_value (item_status_as_str s) = s)"

definition mode_canonical :: "queue_execution_mode \<Rightarrow> bool" where
  "mode_canonical s = (mode_from_db_value (mode_as_str s) = s)"

definition host_canonical :: "queue_execution_host \<Rightarrow> bool" where
  "host_canonical s = (host_from_db_value (host_as_str s) = s)"

lemma run_status_as_str_from_db: "run_status_as_str (run_status_from_db_value v) = v"
  by (simp add: run_status_from_db_value_def)

lemma item_status_as_str_from_db: "item_status_as_str (item_status_from_db_value v) = v"
  by (simp add: item_status_from_db_value_def)

lemma mode_as_str_from_db: "mode_as_str (mode_from_db_value v) = v"
  by (simp add: mode_from_db_value_def)

lemma host_as_str_from_db: "host_as_str (host_from_db_value v) = v"
  by (simp add: host_from_db_value_def)

interpretation run_codec: lossless_codec run_status_from_db_value run_status_as_str run_status_canonical
  by unfold_locales (simp_all add: run_status_canonical_def run_status_as_str_from_db)

interpretation item_codec: lossless_codec item_status_from_db_value item_status_as_str item_status_canonical
  by unfold_locales (simp_all add: item_status_canonical_def item_status_as_str_from_db)

interpretation mode_codec: lossless_codec mode_from_db_value mode_as_str mode_canonical
  by unfold_locales (simp_all add: mode_canonical_def mode_as_str_from_db)

interpretation host_codec: lossless_codec host_from_db_value host_as_str host_canonical
  by unfold_locales (simp_all add: host_canonical_def host_as_str_from_db)

interpretation class_codec: db_codec class_from_db_value class_as_str "\<lambda>_. True"
proof unfold_locales
  fix x :: queue_task_class
  show "class_from_db_value (class_as_str x) = x"
    by (cases x) (simp_all add: class_from_db_value_def trim_def trim_matches_def is_whitespace_def)
qed simp

text \<open>What a write followed by a read of a status or host column yields.\<close>

definition stored_run_status :: "queue_run_status \<Rightarrow> queue_run_status" where
  "stored_run_status s = run_status_from_db_value (run_status_as_str s)"

definition stored_item_status :: "queue_item_status \<Rightarrow> queue_item_status" where
  "stored_item_status s = item_status_from_db_value (item_status_as_str s)"

definition stored_mode :: "queue_execution_mode \<Rightarrow> queue_execution_mode" where
  "stored_mode m = mode_from_db_value (mode_as_str m)"

definition stored_host :: "queue_execution_host \<Rightarrow> queue_execution_host" where
  "stored_host h = host_from_db_value (host_as_str h)"

lemma stored_run_status_known [simp]:
  "stored_run_status RunRunning = RunRunning" "stored_run_status RunWaiting = RunWaiting"
  "stored_run_status RunStarting = RunStarting" "stored_run_status RunStopping = RunStopping"
  "stored_run_status RunStopped = RunStopped" "stored_run_status RunFailed = RunFailed"
  "stored_run_status RunSuccess = RunSuccess"
  by (simp_all add: stored_run_status_def run_status_from_db_value_def)

lemma stored_item_status_known [simp]:
  "stored_item_status ItemPending = ItemPending" "stored_item_status ItemWaiting = ItemWaiting"
  "stored_item_status ItemStarting = ItemStarting" "stored_item_status ItemRunning = ItemRunning"
  "stored_item_status ItemStopping = ItemStopping" "stored_item_status ItemStopped = ItemStopped"
  "stored_item_status ItemPaused = ItemPaused" "stored_item_status ItemSuccess = ItemSuccess"
  "stored_item_status ItemFailed = ItemFailed" "stored_item_status ItemBlocked = ItemBlocked"
  by (simp_all add: stored_item_status_def item_status_from_db_value_def)

lemma stored_host_known [simp]:
  "stored_host HostLocal = HostLocal" "stored_host HostRemoteNative = HostRemoteNative"
  by (simp_all add: stored_host_def host_from_db_value_def)

lemma stored_mode_known [simp]:
  "stored_mode ModeSequence = ModeSequence" "stored_mode ModeGraph = ModeGraph"
  by (simp_all add: stored_mode_def mode_from_db_value_def)

lemma stored_run_status_canonical [simp]: "run_status_canonical (stored_run_status s)"
  by (simp add: stored_run_status_def run_codec.decode_canonical)

lemma stored_item_status_canonical [simp]: "item_status_canonical (stored_item_status s)"
  by (simp add: stored_item_status_def item_codec.decode_canonical)

lemma item_unknown_not_terminal: "\<not> item_is_terminal (ItemUnknown v)"
  by (simp add: item_is_terminal_def)

lemma item_terminal_not_active: "item_is_terminal s \<Longrightarrow> \<not> item_is_active s"
  by (auto simp: item_is_terminal_def item_is_active_def)

section \<open>Properties\<close>

text \<open>
  The text columns of the queue round-trip. For the run status, the item status, the execution
  mode and the execution host, what \<open>as_str\<close> writes for the value \<open>from_db_value\<close> has read is the
  text that was read, so no stored text is lost, legacy and unknown ones included; the task class
  keeps its three values under write and read. A status read from the database equals a literal of
  an SQL \<open>where\<close> clause exactly when the stored texts are equal, so the constructor tests of the
  Rust code and the text tests of the SQL statements select the same rows. Two different known
  statuses never share a text.
\<close>

theorem status_text_roundtrip:
  "run_status_as_str (run_status_from_db_value v) = v \<and>
   item_status_as_str (item_status_from_db_value v) = v \<and>
   mode_as_str (mode_from_db_value v) = v \<and>
   host_as_str (host_from_db_value v) = v \<and>
   class_from_db_value (class_as_str c) = c \<and>
   (item_status_as_str (stored_item_status s) = v \<longleftrightarrow>
      stored_item_status s = item_status_from_db_value v) \<and>
   (run_status_as_str (stored_run_status r) = v \<longleftrightarrow>
      stored_run_status r = run_status_from_db_value v) \<and>
   (item_is_terminal (item_status_from_db_value v) \<longleftrightarrow>
      v \<in> set [''success'', ''failed'', ''blocked'']) \<and>
   (run_is_appendable (run_status_from_db_value v) \<longleftrightarrow>
      v \<in> set [''running'', ''waiting'', ''starting'', ''stopped''])"
proof -
  have "item_is_terminal (item_status_from_db_value v) \<longleftrightarrow>
      v \<in> set [''success'', ''failed'', ''blocked'']"
    by (simp add: item_is_terminal_def item_status_from_db_value_def)
  moreover have "run_is_appendable (run_status_from_db_value v) \<longleftrightarrow>
      v \<in> set [''running'', ''waiting'', ''starting'', ''stopped'']"
    by (simp add: run_is_appendable_def run_status_from_db_value_def)
  ultimately show ?thesis
    by (simp add: run_codec.encode_decode item_codec.encode_decode mode_codec.encode_decode
        host_codec.encode_decode class_codec.decode_encode item_codec.text_test
        run_codec.text_test)
qed

end
