(* ===== verification/Queue_Db.thy ===== *)
theory Queue_Db
  imports Queue_Types
begin

text \<open>
  The SQLite database of \<open>src/src/state.rs\<close> and \<open>src/src/state/db.rs\<close>: one record per row type, one
  row list per table, and the schema's constraints as the executable predicate \<open>schema_ok\<close>. A
  statement is run by \<open>sql_exec\<close>: it yields the number of rows it touched when the resulting
  tables satisfy the constraints and a constraint error, with the tables unchanged, otherwise.
  Deletions cascade along the foreign keys as the schema declares (\<open>on delete cascade\<close> and
  \<open>on delete set null\<close>; \<open>pragma foreign_keys\<close> is switched on by \<open>open_db\<close>).

  Status and host columns hold decoded values (see \<open>Queue_Types\<close>); the JSON text of a dependency
  list is held as the list itself. Unix times are natural numbers, counters integers. The tables
  of the Telegram topics, of events and of history are not part of the record.
\<close>

section \<open>Rows\<close>

record queue_run_row =
  qr_id :: string
  qr_status :: queue_run_status
  qr_execution_mode :: queue_execution_mode
  qr_execution_host :: queue_execution_host
  qr_selected_agent_command :: string
  qr_remote_launcher :: "string option"
  qr_local_proxy :: "string option"
  qr_remote_proxy :: "string option"
  qr_selected_repo_root :: "string option"
  qr_selected_repo_name :: "string option"
  qr_track :: string
  qr_current_index :: int
  qr_stop_requested :: bool
  qr_message :: string
  qr_created_at :: nat
  qr_updated_at :: nat

record queue_tab_row =
  qt_id :: string
  qt_label :: string
  qt_run_id :: "string option"
  qt_is_default :: bool
  qt_active :: bool
  qt_created_at :: nat
  qt_updated_at :: nat

record queue_item_row =
  qi_id :: string
  qi_run_id :: string
  qi_position :: int
  qi_depends_on :: "string list"
  qi_prompt :: string
  qi_slug :: string
  qi_repo_root :: "string option"
  qi_repo_name :: "string option"
  qi_execution_host :: queue_execution_host
  qi_agent_command :: string
  qi_task_class :: queue_task_class
  qi_remote_launcher :: "string option"
  qi_local_proxy :: "string option"
  qi_remote_proxy :: "string option"
  qi_agent_id :: "string option"
  qi_status :: queue_item_status
  qi_message :: string
  qi_attempts :: int
  qi_recovery_attempts :: int
  qi_next_attempt_at :: "nat option"
  qi_started_at :: nat
  qi_updated_at :: nat

record queue_sample_row =
  qs_sampled_at :: nat
  qs_logical_cpus :: "int option"
  qs_load_one_milli :: "int option"
  qs_memory_total :: "int option"
  qs_memory_available :: "int option"
  qs_reserved_tasks :: int
  qs_reserved_heavy_tasks :: int

record queue_attempt_row =
  qa_run_id :: string
  qa_item_id :: string
  qa_semantic_iteration :: int
  qa_agent_command :: string
  qa_agent_id :: "string option"
  qa_task_record_id :: "string option"
  qa_terminal_target :: "string option"
  qa_stdout_log_path :: "string option"
  qa_stderr_log_path :: "string option"
  qa_bundle_path :: "string option"
  qa_status :: string
  qa_failure_message :: "string option"
  qa_started_at :: nat
  qa_finished_at :: "nat option"
  qa_updated_at :: nat

record queue_lease_row =
  ql_item_id :: string
  ql_run_id :: string
  ql_owner_id :: "string option"
  ql_lease_epoch :: int
  ql_acquired_at :: "nat option"
  ql_heartbeat_at :: "nat option"
  ql_expires_at :: "nat option"
  ql_released_at :: "nat option"
  ql_recovery_count :: int
  ql_updated_at :: nat

record agent_row =
  ag_id :: string
  ag_track :: string
  ag_pid :: nat
  ag_started_at :: nat
  ag_command :: "string list"
  ag_cwd :: "string option"
  ag_stdout_log_path :: "string option"
  ag_stderr_log_path :: "string option"

record task_record_row =
  tk_id :: string
  tk_source :: string
  tk_sequence :: "nat option"
  tk_title :: string
  tk_description :: string
  tk_status :: string
  tk_created_at :: nat
  tk_updated_at :: nat
  tk_repo_root :: "string option"
  tk_cwd :: "string option"
  tk_agent_id :: "string option"
  tk_metadata_json :: "string option"

record qdb =
  db_runs :: "queue_run_row list"
  db_tabs :: "queue_tab_row list"
  db_items :: "queue_item_row list"
  db_attempts :: "queue_attempt_row list"
  db_leases :: "queue_lease_row list"
  db_samples :: "queue_sample_row list"
  db_agents :: "agent_row list"
  db_tasks :: "task_record_row list"
  db_counters :: "(string \<times> int) list"

section \<open>Constraints\<close>

definition item_keys :: "queue_item_row \<Rightarrow> string \<times> string \<times> int \<times> string" where
  "item_keys i = (qi_id i, qi_run_id i, qi_position i, qi_slug i)"

definition attempt_key :: "queue_attempt_row \<Rightarrow> string \<times> string \<times> int" where
  "attempt_key a = (qa_run_id a, qa_item_id a, qa_semantic_iteration a)"

definition lease_keys :: "queue_lease_row \<Rightarrow> string \<times> string" where
  "lease_keys l = (ql_item_id l, ql_run_id l)"

definition tab_keys :: "queue_tab_row \<Rightarrow> string \<times> string option \<times> bool \<times> bool" where
  "tab_keys t = (qt_id t, qt_run_id t, qt_is_default t, qt_active t)"

definition runs_ok :: "qdb \<Rightarrow> bool" where
  "runs_ok db = distinct (map qr_id (db_runs db))"

definition items_ok :: "qdb \<Rightarrow> bool" where
  "items_ok db =
     (distinct (map qi_id (db_items db)) \<and>
      distinct (map (\<lambda>i. (qi_run_id i, qi_position i)) (db_items db)) \<and>
      distinct (map (\<lambda>i. (qi_run_id i, qi_slug i)) (db_items db)) \<and>
      list_all (\<lambda>i. qi_run_id i \<in> set (map qr_id (db_runs db))) (db_items db))"

definition tab_run_ok :: "queue_run_row list \<Rightarrow> string option \<Rightarrow> bool" where
  "tab_run_ok runs r = (case r of None \<Rightarrow> True | Some run \<Rightarrow> run \<in> set (map qr_id runs))"

definition tabs_ok :: "qdb \<Rightarrow> bool" where
  "tabs_ok db =
     (distinct (map qt_id (db_tabs db)) \<and>
      length (filter qt_is_default (db_tabs db)) \<le> 1 \<and>
      length (filter qt_active (db_tabs db)) \<le> 1 \<and>
      list_all (\<lambda>t. tab_run_ok (db_runs db) (qt_run_id t)) (db_tabs db))"

definition attempts_ok :: "qdb \<Rightarrow> bool" where
  "attempts_ok db =
     (distinct (map attempt_key (db_attempts db)) \<and>
      list_all (\<lambda>a. qa_item_id a \<in> set (map qi_id (db_items db))) (db_attempts db))"

definition leases_ok :: "qdb \<Rightarrow> bool" where
  "leases_ok db =
     (distinct (map ql_item_id (db_leases db)) \<and>
      list_all (\<lambda>l. ql_item_id l \<in> set (map qi_id (db_items db)) \<and>
                    ql_run_id l \<in> set (map qr_id (db_runs db))) (db_leases db))"

definition task_sequence_key :: "task_record_row \<Rightarrow> (string \<times> nat) option" where
  "task_sequence_key t =
     (case (tk_repo_root t, tk_sequence t) of (Some r, Some n) \<Rightarrow> Some (r, n) | _ \<Rightarrow> None)"

definition tasks_ok :: "qdb \<Rightarrow> bool" where
  "tasks_ok db =
     (distinct (map tk_id (db_tasks db)) \<and>
      distinct (filter (\<lambda>k. k \<noteq> None) (map task_sequence_key (db_tasks db))) \<and>
      distinct (map fst (db_counters db)))"

definition schema_ok :: "qdb \<Rightarrow> bool" where
  "schema_ok db =
     (runs_ok db \<and> items_ok db \<and> tabs_ok db \<and> attempts_ok db \<and> leases_ok db \<and>
      distinct (map qs_sampled_at (db_samples db)) \<and> distinct (map ag_id (db_agents db)) \<and>
      tasks_ok db)"

definition empty_db :: qdb where
  "empty_db = \<lparr> db_runs = [], db_tabs = [], db_items = [], db_attempts = [], db_leases = [],
     db_samples = [], db_agents = [], db_tasks = [], db_counters = [] \<rparr>"

lemma schema_ok_empty_db: "schema_ok empty_db"
  by (simp add: schema_ok_def empty_db_def runs_ok_def items_ok_def tabs_ok_def attempts_ok_def
      leases_ok_def tasks_ok_def)

section \<open>Row lookup\<close>

definition find_run :: "string \<Rightarrow> qdb \<Rightarrow> queue_run_row option" where
  "find_run run_id db = find (\<lambda>r. qr_id r = run_id) (db_runs db)"

definition find_item :: "string \<Rightarrow> string \<Rightarrow> qdb \<Rightarrow> queue_item_row option" where
  "find_item run_id item_id db = find (\<lambda>i. qi_run_id i = run_id \<and> qi_id i = item_id) (db_items db)"

definition find_tab :: "string \<Rightarrow> qdb \<Rightarrow> queue_tab_row option" where
  "find_tab tab_id db = find (\<lambda>t. qt_id t = tab_id) (db_tabs db)"

definition find_lease :: "string \<Rightarrow> string \<Rightarrow> qdb \<Rightarrow> queue_lease_row option" where
  "find_lease run_id item_id db =
     find (\<lambda>l. ql_run_id l = run_id \<and> ql_item_id l = item_id) (db_leases db)"

definition find_agent :: "string \<Rightarrow> qdb \<Rightarrow> agent_row option" where
  "find_agent agent_id db = find (\<lambda>a. ag_id a = agent_id) (db_agents db)"

definition find_task :: "string \<Rightarrow> qdb \<Rightarrow> task_record_row option" where
  "find_task task_id db = find (\<lambda>t. tk_id t = task_id) (db_tasks db)"

interpretation run_table: keyed_table qr_id "\<lambda>a. find (\<lambda>r. qr_id r = a)"
  "\<lambda>rows. distinct (map qr_id rows)"
  by (rule find_keyed_table)

interpretation item_table: keyed_table qi_id "\<lambda>a. find (\<lambda>r. qi_id r = a)"
  "\<lambda>rows. distinct (map qi_id rows)"
  by (rule find_keyed_table)

interpretation tab_table: keyed_table qt_id "\<lambda>a. find (\<lambda>r. qt_id r = a)"
  "\<lambda>rows. distinct (map qt_id rows)"
  by (rule find_keyed_table)

interpretation lease_table: keyed_table ql_item_id "\<lambda>a. find (\<lambda>r. ql_item_id r = a)"
  "\<lambda>rows. distinct (map ql_item_id rows)"
  by (rule find_keyed_table)

interpretation attempt_table: keyed_table attempt_key "\<lambda>a. find (\<lambda>r. attempt_key r = a)"
  "\<lambda>rows. distinct (map attempt_key rows)"
  by (rule find_keyed_table)

interpretation task_table: keyed_table tk_id "\<lambda>a. find (\<lambda>r. tk_id r = a)"
  "\<lambda>rows. distinct (map tk_id rows)"
  by (rule find_keyed_table)

section \<open>Statements\<close>

definition sql_exec :: "string \<Rightarrow> (qdb \<Rightarrow> nat) \<Rightarrow> (qdb \<Rightarrow> qdb) \<Rightarrow> (qdb, nat) prog" where
  "sql_exec ctx n f =
     (\<lambda>db. if schema_ok (f db) then (Inr (n db), f db) else (Inl (Constraint ctx), db))"

definition update_runs ::
  "string \<Rightarrow> (queue_run_row \<Rightarrow> bool) \<Rightarrow> (queue_run_row \<Rightarrow> queue_run_row) \<Rightarrow> (qdb, nat) prog" where
  "update_runs ctx p f =
     sql_exec ctx (\<lambda>db. count_where p (db_runs db))
       (\<lambda>db. db\<lparr>db_runs := update_where p f (db_runs db)\<rparr>)"

definition update_items ::
  "string \<Rightarrow> (queue_item_row \<Rightarrow> bool) \<Rightarrow> (queue_item_row \<Rightarrow> queue_item_row) \<Rightarrow> (qdb, nat) prog" where
  "update_items ctx p f =
     sql_exec ctx (\<lambda>db. count_where p (db_items db))
       (\<lambda>db. db\<lparr>db_items := update_where p f (db_items db)\<rparr>)"

definition update_tabs ::
  "string \<Rightarrow> (queue_tab_row \<Rightarrow> bool) \<Rightarrow> (queue_tab_row \<Rightarrow> queue_tab_row) \<Rightarrow> (qdb, nat) prog" where
  "update_tabs ctx p f =
     sql_exec ctx (\<lambda>db. count_where p (db_tabs db))
       (\<lambda>db. db\<lparr>db_tabs := update_where p f (db_tabs db)\<rparr>)"

definition update_attempts ::
  "string \<Rightarrow> (queue_attempt_row \<Rightarrow> bool) \<Rightarrow> (queue_attempt_row \<Rightarrow> queue_attempt_row) \<Rightarrow> (qdb, nat) prog" where
  "update_attempts ctx p f =
     sql_exec ctx (\<lambda>db. count_where p (db_attempts db))
       (\<lambda>db. db\<lparr>db_attempts := update_where p f (db_attempts db)\<rparr>)"

definition update_leases ::
  "string \<Rightarrow> (queue_lease_row \<Rightarrow> bool) \<Rightarrow> (queue_lease_row \<Rightarrow> queue_lease_row) \<Rightarrow> (qdb, nat) prog" where
  "update_leases ctx p f =
     sql_exec ctx (\<lambda>db. count_where p (db_leases db))
       (\<lambda>db. db\<lparr>db_leases := update_where p f (db_leases db)\<rparr>)"

definition insert_item :: "string \<Rightarrow> queue_item_row \<Rightarrow> (qdb, nat) prog" where
  "insert_item ctx i =
     sql_exec ctx (\<lambda>_. 1)
       (\<lambda>db. db\<lparr>db_items := db_items db @
          [i\<lparr>qi_status := stored_item_status (qi_status i),
             qi_execution_host := stored_host (qi_execution_host i)\<rparr>]\<rparr>)"

definition insert_tab :: "string \<Rightarrow> queue_tab_row \<Rightarrow> (qdb, nat) prog" where
  "insert_tab ctx t = sql_exec ctx (\<lambda>_. 1) (\<lambda>db. db\<lparr>db_tabs := db_tabs db @ [t]\<rparr>)"

text \<open>\<open>insert .. on conflict(key) do update\<close>: the first row with the key is merged, else inserted.\<close>

definition upsert_by :: "('r \<Rightarrow> 'k) \<Rightarrow> ('r \<Rightarrow> 'r \<Rightarrow> 'r) \<Rightarrow> 'r \<Rightarrow> 'r list \<Rightarrow> 'r list" where
  "upsert_by key merge row rows =
     (if key row \<in> set (map key rows)
      then update_where (\<lambda>r. key r = key row) (\<lambda>r. merge r row) rows
      else rows @ [row])"

text \<open>Deletions, with the cascades of the foreign keys.\<close>

definition delete_items_db :: "(queue_item_row \<Rightarrow> bool) \<Rightarrow> qdb \<Rightarrow> qdb" where
  "delete_items_db p db =
     (let gone = map qi_id (filter p (db_items db)) in
      db\<lparr>db_items := delete_where p (db_items db),
         db_attempts := delete_where (\<lambda>a. qa_item_id a \<in> set gone) (db_attempts db),
         db_leases := delete_where (\<lambda>l. ql_item_id l \<in> set gone) (db_leases db)\<rparr>)"

definition delete_runs_db :: "(queue_run_row \<Rightarrow> bool) \<Rightarrow> qdb \<Rightarrow> qdb" where
  "delete_runs_db p db =
     (let gone = map qr_id (filter p (db_runs db));
          db' = delete_items_db (\<lambda>i. qi_run_id i \<in> set gone) db in
      db'\<lparr>db_runs := delete_where p (db_runs db'),
          db_leases := delete_where (\<lambda>l. ql_run_id l \<in> set gone) (db_leases db'),
          db_tabs := update_where (\<lambda>t. qt_run_id t \<in> Some ` set gone)
                       (\<lambda>t. t\<lparr>qt_run_id := None\<rparr>) (db_tabs db')\<rparr>)"

definition delete_items :: "string \<Rightarrow> (queue_item_row \<Rightarrow> bool) \<Rightarrow> (qdb, nat) prog" where
  "delete_items ctx p = sql_exec ctx (\<lambda>db. count_where p (db_items db)) (delete_items_db p)"

definition delete_runs :: "string \<Rightarrow> (queue_run_row \<Rightarrow> bool) \<Rightarrow> (qdb, nat) prog" where
  "delete_runs ctx p = sql_exec ctx (\<lambda>db. count_where p (db_runs db)) (delete_runs_db p)"

definition delete_tabs :: "string \<Rightarrow> (queue_tab_row \<Rightarrow> bool) \<Rightarrow> (qdb, nat) prog" where
  "delete_tabs ctx p =
     sql_exec ctx (\<lambda>db. count_where p (db_tabs db))
       (\<lambda>db. db\<lparr>db_tabs := delete_where p (db_tabs db)\<rparr>)"

section \<open>Statements and the constraints\<close>

lemma run_sql_exec [store_simps]:
  "sql_exec ctx n f db = (if schema_ok (f db) then (Inr (n db), f db) else (Inl (Constraint ctx), db))"
  by (simp add: sql_exec_def)

lemma keeps_sql_exec [keeps_intro]: "keeps schema_ok (sql_exec ctx n f)"
  by (simp add: keeps_def sql_exec_def)

lemma keeps_statements [keeps_intro]:
  "keeps schema_ok (update_runs ctx p f)" "keeps schema_ok (update_items ctx q g)"
  "keeps schema_ok (update_tabs ctx r h)" "keeps schema_ok (update_attempts ctx s k)"
  "keeps schema_ok (update_leases ctx t l)" "keeps schema_ok (insert_item ctx i)"
  "keeps schema_ok (insert_tab ctx tb)" "keeps schema_ok (delete_items ctx q)"
  "keeps schema_ok (delete_runs ctx p)" "keeps schema_ok (delete_tabs ctx r)"
  by (simp_all add: update_runs_def update_items_def update_tabs_def update_attempts_def
      update_leases_def insert_item_def insert_tab_def delete_items_def delete_runs_def
      delete_tabs_def keeps_sql_exec)

lemmas schema_parts = schema_ok_def runs_ok_def items_ok_def tabs_ok_def attempts_ok_def
  leases_ok_def tasks_ok_def

text \<open>The constraints read a table only through its key columns.\<close>

lemma map_via:
  assumes "map k xs = map k ys"
  shows "map (\<lambda>x. g (k x)) xs = map (\<lambda>x. g (k x)) ys"
proof -
  have "map g (map k xs) = map g (map k ys)" using assms by simp
  then show ?thesis by (simp add: comp_def)
qed

lemma list_all_via:
  assumes "map k xs = map k ys"
  shows "list_all (\<lambda>x. g (k x)) xs = list_all (\<lambda>x. g (k x)) ys"
proof -
  have "list_all g (map k xs) = list_all g (map k ys)" using assms by simp
  then show ?thesis by (simp add: list_all_iff)
qed

lemma length_filter_via:
  assumes "map k xs = map k ys"
  shows "length (filter (\<lambda>x. g (k x)) xs) = length (filter (\<lambda>x. g (k x)) ys)"
proof -
  have "length (filter g (map k xs)) = length (filter g (map k ys))" using assms by simp
  then show ?thesis by (simp add: filter_map comp_def)
qed

lemma item_keys_columns:
  assumes "map item_keys xs = map item_keys ys"
  shows "map qi_id xs = map qi_id ys"
    and "map (\<lambda>i. (qi_run_id i, qi_position i)) xs = map (\<lambda>i. (qi_run_id i, qi_position i)) ys"
    and "map (\<lambda>i. (qi_run_id i, qi_slug i)) xs = map (\<lambda>i. (qi_run_id i, qi_slug i)) ys"
    and "list_all (\<lambda>i. P (qi_run_id i)) xs = list_all (\<lambda>i. P (qi_run_id i)) ys"
  using map_via [OF assms, of fst]
    map_via [OF assms, of "\<lambda>(i, r, p, s). (r, p)"]
    map_via [OF assms, of "\<lambda>(i, r, p, s). (r, s)"]
    list_all_via [OF assms, of "\<lambda>(i, r, p, s). P r"]
  by (simp_all add: item_keys_def)

lemma schema_ok_items_cong:
  assumes "map item_keys items = map item_keys (db_items db)"
  shows "schema_ok (db\<lparr>db_items := items\<rparr>) = schema_ok db"
proof -
  have "set (map qi_id items) = set (map qi_id (db_items db))"
    using item_keys_columns(1) [OF assms] by simp
  then have "qi_id ` set items = qi_id ` set (db_items db)" by simp
  then show ?thesis
    using item_keys_columns(1-3) [OF assms]
      item_keys_columns(4) [OF assms, of "\<lambda>r. r \<in> qr_id ` set (db_runs db)"]
    by (simp add: schema_parts)
qed

lemma schema_ok_runs_cong:
  assumes "map qr_id runs = map qr_id (db_runs db)"
  shows "schema_ok (db\<lparr>db_runs := runs\<rparr>) = schema_ok db"
proof -
  have "set (map qr_id runs) = set (map qr_id (db_runs db))" using assms by simp
  then have "tab_run_ok runs = tab_run_ok (db_runs db)" "qr_id ` set runs = qr_id ` set (db_runs db)"
    by (auto simp: fun_eq_iff tab_run_ok_def split: option.splits)
  with assms show ?thesis by (simp add: schema_parts)
qed

lemma schema_ok_tabs_cong:
  assumes "map tab_keys tabs = map tab_keys (db_tabs db)"
  shows "schema_ok (db\<lparr>db_tabs := tabs\<rparr>) = schema_ok db"
  using map_via [OF assms, of fst]
    list_all_via [OF assms, of "\<lambda>(i, r, d, a). tab_run_ok (db_runs db) r"]
    length_filter_via [OF assms, of "\<lambda>(i, r, d, a). d"]
    length_filter_via [OF assms, of "\<lambda>(i, r, d, a). a"]
  by (simp add: schema_parts tab_keys_def)

lemma schema_ok_attempts_cong:
  assumes "map attempt_key rows = map attempt_key (db_attempts db)"
  shows "schema_ok (db\<lparr>db_attempts := rows\<rparr>) = schema_ok db"
  using list_all_via [OF assms, of "\<lambda>(r, i, n). i \<in> set (map qi_id (db_items db))"] assms
  by (simp add: schema_parts attempt_key_def [abs_def])

lemma schema_ok_leases_cong:
  assumes "map lease_keys rows = map lease_keys (db_leases db)"
  shows "schema_ok (db\<lparr>db_leases := rows\<rparr>) = schema_ok db"
  using map_via [OF assms, of fst]
    list_all_via [OF assms, of "\<lambda>(i, r). i \<in> set (map qi_id (db_items db)) \<and>
       r \<in> set (map qr_id (db_runs db))"]
  by (simp add: schema_parts lease_keys_def)

text \<open>So an update that keeps the key columns always succeeds.\<close>

lemma run_update_items [store_simps]:
  assumes "schema_ok db" and "\<And>i. p i \<Longrightarrow> item_keys (f i) = item_keys i"
  shows "update_items ctx p f db =
    (Inr (count_where p (db_items db)), db\<lparr>db_items := update_where p f (db_items db)\<rparr>)"
  using assms by (simp add: update_items_def run_sql_exec schema_ok_items_cong map_update_where)

lemma run_update_runs [store_simps]:
  assumes "schema_ok db" and "\<And>r. p r \<Longrightarrow> qr_id (f r) = qr_id r"
  shows "update_runs ctx p f db =
    (Inr (count_where p (db_runs db)), db\<lparr>db_runs := update_where p f (db_runs db)\<rparr>)"
  using assms by (simp add: update_runs_def run_sql_exec schema_ok_runs_cong map_update_where)

lemma run_update_attempts [store_simps]:
  assumes "schema_ok db" and "\<And>r. p r \<Longrightarrow> attempt_key (f r) = attempt_key r"
  shows "update_attempts ctx p f db =
    (Inr (count_where p (db_attempts db)), db\<lparr>db_attempts := update_where p f (db_attempts db)\<rparr>)"
  using assms
  by (simp add: update_attempts_def run_sql_exec schema_ok_attempts_cong map_update_where)

lemma run_update_leases [store_simps]:
  assumes "schema_ok db" and "\<And>r. p r \<Longrightarrow> lease_keys (f r) = lease_keys r"
  shows "update_leases ctx p f db =
    (Inr (count_where p (db_leases db)), db\<lparr>db_leases := update_where p f (db_leases db)\<rparr>)"
  using assms by (simp add: update_leases_def run_sql_exec schema_ok_leases_cong map_update_where)

text \<open>Deletions always succeed: the cascades leave no dangling reference.\<close>

lemma distinct_map_delete:
  "distinct (map k xs) \<Longrightarrow> distinct (map k (delete_where p xs))"
  by (rule distinct_delete_where)

lemma length_filter_delete:
  "length (filter q xs) \<le> n \<Longrightarrow> length (filter q (delete_where p xs)) \<le> n"
proof -
  assume "length (filter q xs) \<le> n"
  moreover have "length (filter q (delete_where p xs)) \<le> length (filter q xs)"
    by (induction xs) (auto simp: delete_where_def)
  ultimately show ?thesis by simp
qed

lemma schema_ok_delete_items: "schema_ok db \<Longrightarrow> schema_ok (delete_items_db p db)"
  by (simp add: schema_parts delete_items_db_def Let_def list_all_iff distinct_map_delete) blast

lemma remaining_run:
  "r \<in> qr_id ` set runs \<Longrightarrow> r \<notin> qr_id ` set (filter p runs) \<Longrightarrow> r \<in> qr_id ` set (delete_where p runs)"
  by auto

definition detach_tabs :: "string list \<Rightarrow> queue_tab_row list \<Rightarrow> queue_tab_row list" where
  "detach_tabs gone tabs = update_where (\<lambda>t. qt_run_id t \<in> Some ` set gone) (\<lambda>t. t\<lparr>qt_run_id := None\<rparr>) tabs"

lemma detach_tabs_keep:
  "map qt_id (detach_tabs gone ts) = map qt_id ts"
  "map qt_is_default (detach_tabs gone ts) = map qt_is_default ts"
  "map qt_active (detach_tabs gone ts) = map qt_active ts"
  "length (filter qt_is_default (detach_tabs gone ts)) = length (filter qt_is_default ts)"
  "length (filter qt_active (detach_tabs gone ts)) = length (filter qt_active ts)"
  by (induction ts) (auto simp: detach_tabs_def update_where_def)

lemma detach_tabs_ok:
  assumes "list_all (\<lambda>t. tab_run_ok runs (qt_run_id t)) tabs"
  shows "list_all (\<lambda>t. tab_run_ok (delete_where p runs) (qt_run_id t))
    (detach_tabs (map qr_id (filter p runs)) tabs)"
  unfolding list_all_iff
proof
  let ?gone = "map qr_id (filter p runs)"
  fix t assume "t \<in> set (detach_tabs ?gone tabs)"
  then obtain u where u: "u \<in> set tabs"
    "t = (if qt_run_id u \<in> Some ` set ?gone then u\<lparr>qt_run_id := None\<rparr> else u)"
    by (auto simp: detach_tabs_def set_update_where)
  have "tab_run_ok runs (qt_run_id u)"
    using assms u(1) by (simp add: list_all_iff)
  then show "tab_run_ok (delete_where p runs) (qt_run_id t)"
    using u(2) by (cases "qt_run_id u") (auto simp: tab_run_ok_def)
qed

lemma schema_ok_drop_runs:
  assumes ok: "schema_ok db"
    and items: "\<And>i. i \<in> set (db_items db) \<Longrightarrow> qi_run_id i \<notin> qr_id ` set (filter p (db_runs db))"
  shows "schema_ok (db\<lparr>db_runs := delete_where p (db_runs db),
     db_leases := delete_where (\<lambda>l. ql_run_id l \<in> qr_id ` set (filter p (db_runs db))) (db_leases db),
     db_tabs := detach_tabs (map qr_id (filter p (db_runs db))) (db_tabs db)\<rparr>)"
    (is "schema_ok ?db")
proof -
  have "runs_ok ?db" using ok by (simp add: schema_parts distinct_map_delete)
  moreover have "items_ok ?db"
  proof -
    have "qi_run_id i \<in> qr_id ` set (delete_where p (db_runs db))" if "i \<in> set (db_items db)" for i
      using ok that items [OF that]
      by (intro remaining_run) (simp_all add: schema_ok_def items_ok_def list_all_iff)
    then show ?thesis using ok by (simp add: schema_ok_def items_ok_def list_all_iff)
  qed
  moreover have "tabs_ok ?db"
    using ok detach_tabs_ok [of "db_runs db" "db_tabs db" p]
    by (simp add: schema_ok_def tabs_ok_def detach_tabs_keep del: set_map)
  moreover have "leases_ok ?db"
  proof -
    have "ql_run_id l \<in> qr_id ` set (delete_where p (db_runs db))"
      if "l \<in> set (db_leases ?db)" for l
      using ok that
      by (intro remaining_run) (simp_all add: schema_ok_def leases_ok_def list_all_iff)
    then show ?thesis
      using ok by (simp add: schema_ok_def leases_ok_def list_all_iff distinct_map_delete)
  qed
  ultimately show ?thesis using ok by (simp add: schema_ok_def attempts_ok_def tasks_ok_def)
qed

lemma schema_ok_delete_runs:
  assumes "schema_ok db"
  shows "schema_ok (delete_runs_db p db)"
proof -
  let ?db = "delete_items_db (\<lambda>i. qi_run_id i \<in> set (map qr_id (filter p (db_runs db)))) db"
  have runs: "db_runs ?db = db_runs db" by (simp add: delete_items_db_def Let_def)
  have "schema_ok ?db" using assms by (rule schema_ok_delete_items)
  moreover have "qi_run_id i \<notin> qr_id ` set (filter p (db_runs ?db))" if "i \<in> set (db_items ?db)" for i
    using that by (simp add: delete_items_db_def Let_def)
  ultimately have "schema_ok (?db\<lparr>db_runs := delete_where p (db_runs ?db),
     db_leases := delete_where (\<lambda>l. ql_run_id l \<in> qr_id ` set (filter p (db_runs ?db))) (db_leases ?db),
     db_tabs := detach_tabs (map qr_id (filter p (db_runs ?db))) (db_tabs ?db)\<rparr>)"
    by (rule schema_ok_drop_runs)
  moreover have "delete_runs_db p db = ?db\<lparr>db_runs := delete_where p (db_runs ?db),
     db_leases := delete_where (\<lambda>l. ql_run_id l \<in> qr_id ` set (filter p (db_runs ?db))) (db_leases ?db),
     db_tabs := detach_tabs (map qr_id (filter p (db_runs ?db))) (db_tabs ?db)\<rparr>"
    by (simp only: delete_runs_db_def Let_def runs [unfolded set_map] set_map detach_tabs_def)
  ultimately show ?thesis by simp
qed

lemma run_delete_items [store_simps]:
  "schema_ok db \<Longrightarrow>
   delete_items ctx p db = (Inr (count_where p (db_items db)), delete_items_db p db)"
  by (simp add: delete_items_def run_sql_exec schema_ok_delete_items)

lemma run_delete_runs [store_simps]:
  "schema_ok db \<Longrightarrow>
   delete_runs ctx p db = (Inr (count_where p (db_runs db)), delete_runs_db p db)"
  by (simp add: delete_runs_def run_sql_exec schema_ok_delete_runs)

lemma schema_ok_delete_tabs:
  "schema_ok db \<Longrightarrow> schema_ok (db\<lparr>db_tabs := delete_where p (db_tabs db)\<rparr>)"
  by (auto simp: schema_parts list_all_iff distinct_map_delete length_filter_delete
      intro: length_filter_delete)

lemma run_delete_tabs [store_simps]:
  "schema_ok db \<Longrightarrow>
   delete_tabs ctx p db =
     (Inr (count_where p (db_tabs db)), db\<lparr>db_tabs := delete_where p (db_tabs db)\<rparr>)"
  by (simp add: delete_tabs_def run_sql_exec schema_ok_delete_tabs)

text \<open>The same, as the head of a sequence of statements.\<close>

lemma bnd_update_items [store_simps]:
  assumes "schema_ok db" and "\<And>i. p i \<Longrightarrow> item_keys (f i) = item_keys i"
  shows "bnd (update_items ctx p f) k db =
    k (count_where p (db_items db)) (db\<lparr>db_items := update_where p f (db_items db)\<rparr>)"
  by (simp add: run_bnd run_update_items assms)

lemma bnd_update_runs [store_simps]:
  assumes "schema_ok db" and "\<And>r. p r \<Longrightarrow> qr_id (f r) = qr_id r"
  shows "bnd (update_runs ctx p f) k db =
    k (count_where p (db_runs db)) (db\<lparr>db_runs := update_where p f (db_runs db)\<rparr>)"
  by (simp add: run_bnd run_update_runs assms)

lemma bnd_update_attempts [store_simps]:
  assumes "schema_ok db" and "\<And>r. p r \<Longrightarrow> attempt_key (f r) = attempt_key r"
  shows "bnd (update_attempts ctx p f) k db =
    k (count_where p (db_attempts db)) (db\<lparr>db_attempts := update_where p f (db_attempts db)\<rparr>)"
  by (simp add: run_bnd run_update_attempts assms)

lemma bnd_update_leases [store_simps]:
  assumes "schema_ok db" and "\<And>r. p r \<Longrightarrow> lease_keys (f r) = lease_keys r"
  shows "bnd (update_leases ctx p f) k db =
    k (count_where p (db_leases db)) (db\<lparr>db_leases := update_where p f (db_leases db)\<rparr>)"
  by (simp add: run_bnd run_update_leases assms)

lemma bnd_deletes [store_simps]:
  assumes "schema_ok db"
  shows "bnd (delete_items ctx p) k db = k (count_where p (db_items db)) (delete_items_db p db)"
    and "bnd (delete_runs ctx q) k db = k (count_where q (db_runs db)) (delete_runs_db q db)"
    and "bnd (delete_tabs ctx r) k db =
      k (count_where r (db_tabs db)) (db\<lparr>db_tabs := delete_where r (db_tabs db)\<rparr>)"
  by (simp_all add: run_bnd run_delete_items run_delete_runs run_delete_tabs assms)

section \<open>Lookups\<close>

lemma find_item_Some_iff:
  assumes "schema_ok db"
  shows "find_item run_id item_id db = Some i \<longleftrightarrow>
    i \<in> set (db_items db) \<and> qi_run_id i = run_id \<and> qi_id i = item_id"
proof -
  have "distinct (map qi_id (db_items db))" using assms by (simp add: schema_parts)
  then have "distinct (map (\<lambda>i. (qi_run_id i, qi_id i)) (db_items db))"
    by (auto simp: distinct_map inj_on_def)
  from find_key_unique [OF this] show ?thesis
    by (auto simp: find_item_def dest: find_Some_set)
qed

lemma find_item_unique:
  "schema_ok db \<Longrightarrow> i \<in> set (db_items db) \<Longrightarrow> find_item (qi_run_id i) (qi_id i) db = Some i"
  by (simp add: find_item_Some_iff)

lemma find_item_None_iff:
  "find_item run_id item_id db = None \<longleftrightarrow>
    (\<forall>i \<in> set (db_items db). \<not> (qi_run_id i = run_id \<and> qi_id i = item_id))"
  by (auto simp: find_item_def find_None_iff)

lemma find_run_Some_iff:
  "schema_ok db \<Longrightarrow> find_run run_id db = Some r \<longleftrightarrow> r \<in> set (db_runs db) \<and> qr_id r = run_id"
  unfolding find_run_def by (rule run_table.lookup_iff) (simp add: schema_parts)

lemma find_run_None_iff: "find_run run_id db = None \<longleftrightarrow> run_id \<notin> qr_id ` set (db_runs db)"
  unfolding find_run_def by (rule run_table.lookup_None_iff)

lemma find_lease_Some_iff:
  assumes "schema_ok db"
  shows "find_lease run_id item_id db = Some l \<longleftrightarrow>
    l \<in> set (db_leases db) \<and> ql_run_id l = run_id \<and> ql_item_id l = item_id"
proof -
  have "distinct (map ql_item_id (db_leases db))" using assms by (simp add: schema_parts)
  then have "distinct (map (\<lambda>l. (ql_run_id l, ql_item_id l)) (db_leases db))"
    by (auto simp: distinct_map inj_on_def)
  from find_key_unique [OF this] show ?thesis
    by (auto simp: find_lease_def dest: find_Some_set)
qed

lemma find_item_update:
  assumes "\<And>i. p i \<Longrightarrow> item_keys (f i) = item_keys i"
  shows "find_item run_id item_id (db\<lparr>db_items := update_where p f (db_items db)\<rparr>) =
    map_option (\<lambda>i. if p i then f i else i) (find_item run_id item_id db)"
  using find_key_update [of p "\<lambda>i. (qi_run_id i, qi_id i)" f "(run_id, item_id)" "db_items db"] assms
  by (simp add: find_item_def item_keys_def)

lemma find_run_update:
  assumes "\<And>r. p r \<Longrightarrow> qr_id (f r) = qr_id r"
  shows "find_run run_id (db\<lparr>db_runs := update_where p f (db_runs db)\<rparr>) =
    map_option (\<lambda>r. if p r then f r else r) (find_run run_id db)"
  using find_key_update [of p qr_id f run_id "db_runs db"] assms by (simp add: find_run_def)

lemma find_lease_update:
  assumes "\<And>l. p l \<Longrightarrow> lease_keys (f l) = lease_keys l"
  shows "find_lease run_id item_id (db\<lparr>db_leases := update_where p f (db_leases db)\<rparr>) =
    map_option (\<lambda>l. if p l then f l else l) (find_lease run_id item_id db)"
  using find_key_update [of p "\<lambda>l. (ql_run_id l, ql_item_id l)" f "(run_id, item_id)" "db_leases db"]
    assms
  by (simp add: find_lease_def lease_keys_def)

lemma find_other_tables [simp]:
  "find_item r i (db\<lparr>db_runs := runs\<rparr>) = find_item r i db"
  "find_item r i (db\<lparr>db_attempts := atts\<rparr>) = find_item r i db"
  "find_item r i (db\<lparr>db_leases := leases\<rparr>) = find_item r i db"
  "find_item r i (db\<lparr>db_tabs := tabs\<rparr>) = find_item r i db"
  "find_run r (db\<lparr>db_items := items\<rparr>) = find_run r db"
  "find_run r (db\<lparr>db_attempts := atts\<rparr>) = find_run r db"
  "find_run r (db\<lparr>db_leases := leases\<rparr>) = find_run r db"
  "find_run r (db\<lparr>db_tabs := tabs\<rparr>) = find_run r db"
  "find_lease r i (db\<lparr>db_items := items\<rparr>) = find_lease r i db"
  "find_lease r i (db\<lparr>db_runs := runs\<rparr>) = find_lease r i db"
  "find_lease r i (db\<lparr>db_attempts := atts\<rparr>) = find_lease r i db"
  by (simp_all add: find_item_def find_run_def find_lease_def)

lemma set_upsert_by:
  "row' \<in> set (upsert_by key merge row rows) \<Longrightarrow>
   row' = row \<or> row' \<in> set rows \<or> (\<exists>r \<in> set rows. key r = key row \<and> row' = merge r row)"
  by (auto simp: upsert_by_def set_update_where split: if_splits)

lemma keys_upsert_by:
  assumes "\<And>r. key r = key row \<Longrightarrow> key (merge r row) = key row"
  shows "map key (upsert_by key merge row rows) =
    (if key row \<in> set (map key rows) then map key rows else map key rows @ [key row])"
proof -
  have "map key (update_where (\<lambda>r. key r = key row) (\<lambda>r. merge r row) rows) = map key rows"
    by (rule map_update_where) (simp add: assms)
  then show ?thesis by (simp add: upsert_by_def)
qed

lemma distinct_upsert_by:
  assumes "\<And>r. key r = key row \<Longrightarrow> key (merge r row) = key row" and "distinct (map key rows)"
  shows "distinct (map key (upsert_by key merge row rows))"
proof -
  have "map key (upsert_by key merge row rows) =
    (if key row \<in> set (map key rows) then map key rows else map key rows @ [key row])"
    using assms(1) by (rule keys_upsert_by)
  then show ?thesis using assms(2) by simp
qed

lemma find_upsert_by:
  assumes "\<And>r. key r = key row \<Longrightarrow> key (merge r row) = key row"
  shows "find (\<lambda>r. key r = a) (upsert_by key merge row rows) =
    (if a = key row
     then Some (case find (\<lambda>r. key r = a) rows of None \<Rightarrow> row | Some r \<Rightarrow> merge r row)
     else find (\<lambda>r. key r = a) rows)"
proof (cases "key row \<in> set (map key rows)")
  case True
  have upd: "find (\<lambda>r. key r = a) (upsert_by key merge row rows) =
      map_option (\<lambda>r. if key r = key row then merge r row else r) (find (\<lambda>r. key r = a) rows)"
    unfolding upsert_by_def if_P [OF True] by (rule find_key_update) (use assms in metis)
  show ?thesis
  proof (cases "find (\<lambda>r. key r = a) rows")
    case None
    then have "a \<noteq> key row" using True by (auto simp: find_None_iff image_iff)
    then show ?thesis using upd None by simp
  next
    case (Some r)
    then have "key r = a" by (auto dest: find_Some_set)
    then show ?thesis using upd Some by (cases "a = key row") simp_all
  qed
next
  case False
  then have none: "find (\<lambda>r. key r = key row) rows = None" by (auto simp: find_None_iff image_iff)
  have "find (\<lambda>r. key r = a) (rows @ [row]) =
    (case find (\<lambda>r. key r = a) rows of None \<Rightarrow> (if key row = a then Some row else None) | Some r \<Rightarrow> Some r)"
    by (induction rows) auto
  then show ?thesis using False none by (auto simp: upsert_by_def split: option.splits)
qed

end
