(* ===== verification/Queue_Tabs.thy ===== *)
theory Queue_Tabs
  imports Queue_Db "HOL-Library.Option_ord"
begin

text \<open>
  The queue tabs of \<open>src/src/state/queue_tabs.rs\<close> and the tab part of \<open>src/src/state/db.rs\<close>: the
  default tab, the active tab, the run a tab shows, and the deletions that go through a tab, a run
  or an item. \<open>now\<close> is the reading of the clock; an operation that reads it more than once is given
  one reading. Where SQLite leaves the order of equal rows open, the model takes table order.
\<close>

section \<open>Reading tabs\<close>

definition tab_order :: "queue_tab_row list \<Rightarrow> queue_tab_row list" where
  "tab_order tabs = sort_key (\<lambda>t. (\<not> qt_is_default t, qt_created_at t, qt_id t)) tabs"

definition latest_web_queue_run_id :: "qdb \<Rightarrow> string option" where
  "latest_web_queue_run_id db =
     (case sort_key (\<lambda>r. - int (qr_updated_at r)) (db_runs db) of
        [] \<Rightarrow> None | r # _ \<Rightarrow> Some (qr_id r))"

definition fallback_order :: "queue_tab_row list \<Rightarrow> queue_tab_row list" where
  "fallback_order tabs =
     sort_key (\<lambda>t. (qt_run_id t = None, \<not> qt_is_default t, qt_created_at t, qt_id t)) tabs"

definition active_fallback_queue_tab_id :: "(qdb, string) prog" where
  "active_fallback_queue_tab_id =
     bnd (query (\<lambda>db. fallback_order (db_tabs db))) (\<lambda>tabs. case tabs of
        [] \<Rightarrow> throw (Bail ''missing fallback queue tab'')
      | t # _ \<Rightarrow> ret (qt_id t))"

section \<open>Repairing the tab table\<close>

definition dedup_order :: "queue_tab_row list \<Rightarrow> queue_tab_row list" where
  "dedup_order tabs =
     sort_key (\<lambda>t. (qt_run_id t, \<not> qt_is_default t, qt_created_at t, qt_id t))
       (filter (\<lambda>t. qt_run_id t \<noteq> None) tabs)"

fun duplicate_tab_ids :: "string option list \<Rightarrow> queue_tab_row list \<Rightarrow> string list" where
  "duplicate_tab_ids seen [] = []"
| "duplicate_tab_ids seen (t # ts) =
     (if qt_run_id t \<in> set seen then qt_id t # duplicate_tab_ids seen ts
      else duplicate_tab_ids (qt_run_id t # seen) ts)"

definition clear_tab_run :: "nat \<Rightarrow> string \<Rightarrow> (qdb, unit) prog" where
  "clear_tab_run now tab_id =
     seq (update_tabs ''failed to repair duplicate web queue tab run reference''
            (\<lambda>t. qt_id t = tab_id) (\<lambda>t. t\<lparr>qt_run_id := None, qt_updated_at := now\<rparr>))
       (ret ())"

definition deduplicate_web_queue_tab_runs :: "nat \<Rightarrow> (qdb, unit) prog" where
  "deduplicate_web_queue_tab_runs now =
     bnd (query (\<lambda>db. duplicate_tab_ids [] (dedup_order (db_tabs db))))
       (\<lambda>ids. for_each (clear_tab_run now) ids)"

definition default_tab_row :: "nat \<Rightarrow> string option \<Rightarrow> queue_tab_row" where
  "default_tab_row now run_id =
     \<lparr> qt_id = ''default'', qt_label = ''Task Queue'', qt_run_id = run_id, qt_is_default = True,
       qt_active = True, qt_created_at = now, qt_updated_at = now \<rparr>"

definition activate_tab_row :: "string \<Rightarrow> nat \<Rightarrow> string \<Rightarrow> (qdb, unit) prog" where
  "activate_tab_row ctx now tab_id =
     seq (update_tabs ctx (\<lambda>t. qt_id t = tab_id) (\<lambda>t. t\<lparr>qt_active := True, qt_updated_at := now\<rparr>))
       (ret ())"

definition clear_active_tab :: "(qdb, unit) prog" where
  "clear_active_tab =
     seq (update_tabs ''failed to clear active queue tab'' (\<lambda>_. True) (\<lambda>t. t\<lparr>qt_active := False\<rparr>))
       (ret ())"

definition ensure_default_tab_exists :: "nat \<Rightarrow> (qdb, unit) prog" where
  "ensure_default_tab_exists now =
     bnd (query (\<lambda>db. exists_where qt_is_default (db_tabs db))) (\<lambda>default_exists.
       if default_exists then ret ()
       else bnd (query latest_web_queue_run_id) (\<lambda>run_id.
         seq (insert_tab ''failed to create default web queue tab'' (default_tab_row now run_id))
           (ret ())))"

definition ensure_active_tab_exists :: "nat \<Rightarrow> (qdb, unit) prog" where
  "ensure_active_tab_exists now =
     bnd (query (\<lambda>db. exists_where qt_active (db_tabs db))) (\<lambda>active_exists.
       if active_exists then ret ()
       else bnd active_fallback_queue_tab_id (\<lambda>fallback.
         activate_tab_row ''failed to activate default web queue tab'' now fallback))"

definition ensure_default_web_queue_tab :: "nat \<Rightarrow> (qdb, unit) prog" where
  "ensure_default_web_queue_tab now =
     seq (ensure_default_tab_exists now)
       (seq (ensure_active_tab_exists now) (deduplicate_web_queue_tab_runs now))"

definition load_web_queue_tabs :: "nat \<Rightarrow> (qdb, queue_tab_row list) prog" where
  "load_web_queue_tabs now =
     seq (ensure_default_web_queue_tab now) (query (\<lambda>db. tab_order (db_tabs db)))"

definition load_web_queue_tab :: "nat \<Rightarrow> string \<Rightarrow> (qdb, queue_tab_row option) prog" where
  "load_web_queue_tab now tab_id =
     seq (ensure_default_web_queue_tab now) (query (find_tab tab_id))"

section \<open>The run a tab shows\<close>

definition active_web_queue_run_id :: "nat \<Rightarrow> (qdb, string option) prog" where
  "active_web_queue_run_id now =
     seq (ensure_default_web_queue_tab now)
       (query (\<lambda>db. case find qt_active (db_tabs db) of None \<Rightarrow> None | Some t \<Rightarrow> qt_run_id t))"

definition assign_web_queue_run_to_active_tab :: "nat \<Rightarrow> string \<Rightarrow> (qdb, unit) prog" where
  "assign_web_queue_run_to_active_tab now run_id =
     seq (ensure_default_web_queue_tab now)
       (seq (update_tabs ''failed to clear duplicate queue run from inactive tabs''
               (\<lambda>t. \<not> qt_active t \<and> qt_run_id t = Some run_id)
               (\<lambda>t. t\<lparr>qt_run_id := None, qt_updated_at := now\<rparr>))
         (bnd (update_tabs ''failed to assign queue run to active tab''
                 qt_active (\<lambda>t. t\<lparr>qt_run_id := Some run_id, qt_updated_at := now\<rparr>))
           (\<lambda>updated. if updated = 0 then throw (Bail ''no active queue tab'') else ret ())))"

definition web_queue_tab_run_id :: "nat \<Rightarrow> string \<Rightarrow> (qdb, string option) prog" where
  "web_queue_tab_run_id now tab_id =
     seq (ensure_default_web_queue_tab now)
       (bnd (query (find_tab tab_id)) (\<lambda>tab. case tab of
          None \<Rightarrow> throw (Bail (''unknown queue tab: '' @ tab_id))
        | Some t \<Rightarrow> ret (qt_run_id t)))"

definition assign_web_queue_run_to_tab :: "nat \<Rightarrow> string \<Rightarrow> string \<Rightarrow> (qdb, unit) prog" where
  "assign_web_queue_run_to_tab now tab_id run_id =
     seq (ensure_default_web_queue_tab now)
       (bnd (update_tabs ''failed to assign queue run to tab'' (\<lambda>t. qt_id t = tab_id)
               (\<lambda>t. t\<lparr>qt_run_id := Some run_id, qt_updated_at := now\<rparr>))
         (\<lambda>updated.
            if updated = 0 then throw (Bail (''unknown queue tab: '' @ tab_id))
            else seq (update_tabs ''failed to clear duplicate queue run from other tabs''
                        (\<lambda>t. qt_id t \<noteq> tab_id \<and> qt_run_id t = Some run_id)
                        (\<lambda>t. t\<lparr>qt_run_id := None, qt_updated_at := now\<rparr>))
                   (ret ())))"

section \<open>Creating, activating and deleting tabs\<close>

definition new_tab_row :: "nat \<Rightarrow> string \<Rightarrow> string \<Rightarrow> queue_tab_row" where
  "new_tab_row now tab_id label =
     \<lparr> qt_id = tab_id, qt_label = label, qt_run_id = None, qt_is_default = False,
       qt_active = False, qt_created_at = now, qt_updated_at = now \<rparr>"

definition create_and_activate_web_queue_tab ::
  "nat \<Rightarrow> string \<Rightarrow> string \<Rightarrow> (qdb, queue_tab_row) prog" where
  "create_and_activate_web_queue_tab now tab_id label =
     transaction
       (seq (ensure_default_web_queue_tab now)
         (seq (insert_tab ''failed to create web queue tab'' (new_tab_row now tab_id label))
           (seq clear_active_tab
             (seq (activate_tab_row ''failed to activate web queue tab'' now tab_id)
               (bnd (query (find_tab tab_id)) (\<lambda>tab. case tab of
                  None \<Rightarrow> throw (Bail ''failed to load created web queue tab'')
                | Some t \<Rightarrow> ret t))))))"

definition activate_web_queue_tab :: "nat \<Rightarrow> string \<Rightarrow> (qdb, unit) prog" where
  "activate_web_queue_tab now tab_id =
     transaction
       (seq (ensure_default_web_queue_tab now)
         (bnd (query (find_tab tab_id)) (\<lambda>tab.
            if tab = None then throw (Bail (''unknown queue tab: '' @ tab_id))
            else seq clear_active_tab
                   (activate_tab_row ''failed to activate web queue tab'' now tab_id))))"

definition delete_web_queue_tab :: "nat \<Rightarrow> string \<Rightarrow> (qdb, unit) prog" where
  "delete_web_queue_tab now tab_id =
     transaction
       (seq (ensure_default_web_queue_tab now)
         (bnd (query (find_tab tab_id)) (\<lambda>tab. case tab of
            None \<Rightarrow> throw (Bail (''unknown queue tab: '' @ tab_id))
          | Some t \<Rightarrow>
              if qt_is_default t then throw (Bail ''cannot delete the default queue tab'')
              else seq (delete_tabs ''failed to delete web queue tab'' (\<lambda>t. qt_id t = tab_id))
                (if qt_active t
                 then bnd active_fallback_queue_tab_id (\<lambda>fallback.
                        seq clear_active_tab
                          (activate_tab_row ''failed to activate fallback queue tab'' now fallback))
                 else ret ()))))"

section \<open>Deleting runs and items\<close>

definition run_items :: "string \<Rightarrow> qdb \<Rightarrow> queue_item_row list" where
  "run_items run_id db =
     sort_key (\<lambda>i. (qi_position i, qi_id i)) (filter (\<lambda>i. qi_run_id i = run_id) (db_items db))"

definition delete_web_queue_run_items :: "nat \<Rightarrow> string \<Rightarrow> (qdb, queue_item_row list) prog" where
  "delete_web_queue_run_items now run_id =
     transaction
       (bnd (query (run_items run_id)) (\<lambda>items.
          seq (delete_items ''failed to delete web queue run items'' (\<lambda>i. qi_run_id i = run_id))
            (seq (delete_runs ''failed to delete web queue run'' (\<lambda>r. qr_id r = run_id))
              (seq (update_tabs ''failed to detach deleted web queue run from tabs''
                      (\<lambda>t. qt_run_id t = Some run_id)
                      (\<lambda>t. t\<lparr>qt_run_id := None, qt_updated_at := now\<rparr>))
                (ret items)))))"

definition remove_item_dependency :: "nat \<Rightarrow> string \<Rightarrow> string \<Rightarrow> queue_item_row \<Rightarrow> (qdb, unit) prog" where
  "remove_item_dependency now run_id deleted_item_id i =
     (let depends_on = filter (\<lambda>d. d \<noteq> deleted_item_id) (qi_depends_on i) in
      seq (update_items ''queue dependency cleanup'' (\<lambda>j. qi_run_id j = run_id \<and> qi_id j = qi_id i)
             (\<lambda>j. j\<lparr>qi_depends_on := depends_on, qi_updated_at := now\<rparr>))
        (ret ()))"

definition remove_web_queue_dependency_references :: "nat \<Rightarrow> string \<Rightarrow> string \<Rightarrow> (qdb, unit) prog" where
  "remove_web_queue_dependency_references now run_id deleted_item_id =
     bnd (query (\<lambda>db. filter (\<lambda>i. qi_run_id i = run_id \<and>
             length (filter (\<lambda>d. d \<noteq> deleted_item_id) (qi_depends_on i)) \<noteq> length (qi_depends_on i))
             (db_items db)))
       (\<lambda>updates. for_each (remove_item_dependency now run_id deleted_item_id) updates)"

definition delete_web_queue_run_if_empty :: "string \<Rightarrow> (qdb, unit) prog" where
  "delete_web_queue_run_if_empty run_id =
     bnd (query (\<lambda>db. count_where (\<lambda>i. qi_run_id i = run_id) (db_items db))) (\<lambda>remaining.
       if remaining = 0
       then seq (delete_runs ''failed to delete empty web queue run'' (\<lambda>r. qr_id r = run_id)) (ret ())
       else ret ())"

definition delete_web_queue_item_if_exists ::
  "nat \<Rightarrow> string \<Rightarrow> string \<Rightarrow> (qdb, queue_item_row option) prog" where
  "delete_web_queue_item_if_exists now run_id item_id =
     transaction
       (bnd (query (find_item run_id item_id)) (\<lambda>item. case item of
          None \<Rightarrow> seq (delete_web_queue_run_if_empty run_id) (ret None)
        | Some i \<Rightarrow>
            seq (delete_items ''failed to delete web queue item''
                   (\<lambda>j. qi_run_id j = run_id \<and> qi_id j = item_id))
              (seq (remove_web_queue_dependency_references now run_id item_id)
                (seq (delete_web_queue_run_if_empty run_id) (ret (Some i))))))"

definition delete_web_queue_run :: "string \<Rightarrow> (qdb, unit) prog" where
  "delete_web_queue_run run_id =
     seq (delete_items ''failed to delete web queue items'' (\<lambda>i. qi_run_id i = run_id))
       (seq (delete_runs ''failed to delete web queue run'' (\<lambda>r. qr_id r = run_id)) (ret ()))"

definition delete_unreferenced_web_queue_run :: "string \<Rightarrow> (qdb, unit) prog" where
  "delete_unreferenced_web_queue_run run_id =
     bnd (query (\<lambda>db. count_where (\<lambda>t. qt_run_id t = Some run_id) (db_tabs db))) (\<lambda>references.
       if references = 0 then delete_web_queue_run run_id else ret ())"

definition delete_unreferenced_web_queue_runs :: "(qdb, unit) prog" where
  "delete_unreferenced_web_queue_runs =
     (\<lambda>db. seq (delete_items ''failed to delete orphaned web queue items''
                  (\<lambda>i. Some (qi_run_id i) \<notin> set (map qt_run_id (db_tabs db))))
             (seq (delete_runs ''failed to delete orphaned web queue runs''
                     (\<lambda>r. Some (qr_id r) \<notin> set (map qt_run_id (db_tabs db)))) (ret ())) db)"

section \<open>The tab invariant\<close>

text \<open>Exactly one default tab, exactly one active tab, no run on two tabs.\<close>

definition tabs_wf :: "qdb \<Rightarrow> bool" where
  "tabs_wf db =
     (length (filter qt_is_default (db_tabs db)) = 1 \<and>
      length (filter qt_active (db_tabs db)) = 1 \<and>
      distinct (filter (\<lambda>r. r \<noteq> None) (map qt_run_id (db_tabs db))))"

definition tabs_inv :: "qdb \<Rightarrow> bool" where
  "tabs_inv db = (schema_ok db \<and> tabs_wf db)"

lemma distinct_tabs: "schema_ok db \<Longrightarrow> distinct (db_tabs db)"
  by (auto simp: schema_parts distinct_map)

lemma distinct_tab_ids: "schema_ok db \<Longrightarrow> distinct (map qt_id (db_tabs db))"
  by (simp add: schema_parts)

lemma distinct_runs_iff:
  assumes "distinct tabs"
  shows "distinct (filter (\<lambda>r. r \<noteq> None) (map qt_run_id tabs)) \<longleftrightarrow>
    (\<forall>t \<in> set tabs. \<forall>u \<in> set tabs. qt_run_id t = qt_run_id u \<longrightarrow> qt_run_id t \<noteq> None \<longrightarrow> t = u)"
  using assms by (auto simp: filter_map comp_def distinct_map inj_on_def)

lemma tab_run_ok_None [simp]: "tab_run_ok runs None"
  by (simp add: tab_run_ok_def)

lemma schema_ok_tab_update:
  assumes "schema_ok db" and "\<And>t. p t \<Longrightarrow> qt_id (f t) = qt_id t"
    and "\<And>t. p t \<Longrightarrow> qt_is_default (f t) = qt_is_default t"
    and "length (filter qt_active (update_where p f (db_tabs db))) \<le> 1"
    and "\<And>t. t \<in> set (db_tabs db) \<Longrightarrow> p t \<Longrightarrow> tab_run_ok (db_runs db) (qt_run_id (f t))"
  shows "schema_ok (db\<lparr>db_tabs := update_where p f (db_tabs db)\<rparr>)"
proof -
  have "length (filter qt_is_default (update_where p f ts)) = length (filter qt_is_default ts)" for ts
    using assms(3) by (induction ts) (auto simp: update_where_def)
  moreover have "list_all (\<lambda>t. tab_run_ok (db_runs db) (qt_run_id t)) (update_where p f (db_tabs db))"
    using assms(1,5) by (auto simp: schema_parts list_all_iff set_update_where)
  ultimately show ?thesis
    using assms(1,2,4) by (simp add: schema_parts map_update_where)
qed

lemma active_kept:
  assumes "\<And>t. p t \<Longrightarrow> qt_active (f t) = qt_active t"
  shows "length (filter qt_active (update_where p f ts)) = length (filter qt_active ts)"
  using assms by (induction ts) (auto simp: update_where_def)

lemma default_kept:
  assumes "\<And>t. p t \<Longrightarrow> qt_is_default (f t) = qt_is_default t"
  shows "length (filter qt_is_default (update_where p f ts)) = length (filter qt_is_default ts)"
  using assms by (induction ts) (auto simp: update_where_def)

lemma run_update_tabs_run:
  assumes "schema_ok db" and "tab_run_ok (db_runs db) r"
  shows "update_tabs ctx p (\<lambda>t. t\<lparr>qt_run_id := r, qt_updated_at := now\<rparr>) db =
    (Inr (count_where p (db_tabs db)),
     db\<lparr>db_tabs := update_where p (\<lambda>t. t\<lparr>qt_run_id := r, qt_updated_at := now\<rparr>) (db_tabs db)\<rparr>)"
proof -
  have "schema_ok (db\<lparr>db_tabs :=
      update_where p (\<lambda>t. t\<lparr>qt_run_id := r, qt_updated_at := now\<rparr>) (db_tabs db)\<rparr>)"
    using assms by (intro schema_ok_tab_update) (simp_all add: active_kept, simp add: schema_parts)
  then show ?thesis by (simp add: update_tabs_def run_sql_exec)
qed

lemma run_clear_active_tab [store_simps]:
  assumes "schema_ok db"
  shows "clear_active_tab db =
    (Inr (), db\<lparr>db_tabs := update_where (\<lambda>_. True) (\<lambda>t. t\<lparr>qt_active := False\<rparr>) (db_tabs db)\<rparr>)"
proof -
  have none: "filter qt_active (update_where (\<lambda>_. True) (\<lambda>t. t\<lparr>qt_active := False\<rparr>) ts) = []" for ts
    by (induction ts) (auto simp: update_where_def)
  have "schema_ok (db\<lparr>db_tabs :=
      update_where (\<lambda>_. True) (\<lambda>t. t\<lparr>qt_active := False\<rparr>) (db_tabs db)\<rparr>)"
    using assms by (intro schema_ok_tab_update) (simp_all add: none schema_parts list_all_iff)
  then show ?thesis
    by (simp add: clear_active_tab_def update_tabs_def run_sql_exec run_bnd)
qed

lemma count_key:
  assumes "distinct (map k xs)"
  shows "length (filter (\<lambda>x. k x = a) xs) = (if a \<in> k ` set xs then 1 else 0)"
  using assms by (induction xs) (auto simp: filter_empty_conv)

lemma activate_count:
  assumes "filter qt_active ts = []"
  shows "length (filter qt_active
      (update_where (\<lambda>t. qt_id t = a) (\<lambda>t. t\<lparr>qt_active := True, qt_updated_at := now\<rparr>) ts)) =
    length (filter (\<lambda>t. qt_id t = a) ts)"
  using assms by (induction ts) (auto simp: update_where_def split: if_splits)

lemma run_activate_tab_row [store_simps]:
  assumes "schema_ok db" and "filter qt_active (db_tabs db) = []"
  shows "activate_tab_row ctx now a db =
    (Inr (), db\<lparr>db_tabs := update_where (\<lambda>t. qt_id t = a)
        (\<lambda>t. t\<lparr>qt_active := True, qt_updated_at := now\<rparr>) (db_tabs db)\<rparr>)"
proof -
  have "schema_ok (db\<lparr>db_tabs := update_where (\<lambda>t. qt_id t = a)
      (\<lambda>t. t\<lparr>qt_active := True, qt_updated_at := now\<rparr>) (db_tabs db)\<rparr>)"
    using assms
    by (intro schema_ok_tab_update)
       (simp_all add: activate_count count_key distinct_tab_ids, simp add: schema_parts list_all_iff)
  then show ?thesis
    by (simp add: activate_tab_row_def update_tabs_def run_sql_exec run_bnd)
qed

section \<open>Repairing duplicate run references\<close>

lemma scan_fresh:
  "t \<in> set ts \<Longrightarrow> qt_id t \<notin> set (duplicate_tab_ids seen ts) \<Longrightarrow> qt_run_id t \<notin> set seen"
  by (induction seen ts rule: duplicate_tab_ids.induct) (auto split: if_splits)

lemma scan_unique:
  "t \<in> set ts \<Longrightarrow> u \<in> set ts \<Longrightarrow> qt_id t \<notin> set (duplicate_tab_ids seen ts) \<Longrightarrow>
   qt_id u \<notin> set (duplicate_tab_ids seen ts) \<Longrightarrow> qt_run_id t = qt_run_id u \<Longrightarrow> t = u"
proof (induction seen ts rule: duplicate_tab_ids.induct)
  case (1 seen)
  then show ?case by simp
next
  case (2 seen v ts)
  show ?case
  proof (cases "qt_run_id v \<in> set seen")
    case True
    with 2 show ?thesis by auto
  next
    case False
    then have "qt_run_id w \<noteq> qt_run_id v"
      if "w \<in> set ts" "qt_id w \<notin> set (duplicate_tab_ids seen (v # ts))" for w
      using scan_fresh [OF that(1), of "qt_run_id v # seen"] that(2) by auto
    with 2 False show ?thesis by (metis duplicate_tab_ids.simps(2) set_ConsD)
  qed
qed

lemma scan_subset: "set (duplicate_tab_ids seen ts) \<subseteq> qt_id ` set ts"
  by (induction seen ts rule: duplicate_tab_ids.induct) auto

lemma scan_keeps_one:
  "distinct (map qt_id ts) \<Longrightarrow> t \<in> set ts \<Longrightarrow> qt_run_id t \<notin> set seen \<Longrightarrow>
   \<exists>u \<in> set ts. qt_run_id u = qt_run_id t \<and> qt_id u \<notin> set (duplicate_tab_ids seen ts)"
proof (induction seen ts rule: duplicate_tab_ids.induct)
  case (1 seen)
  then show ?case by simp
next
  case (2 seen v ts)
  show ?case
  proof (cases "qt_run_id v = qt_run_id t")
    case True
    moreover have "qt_id v \<notin> set (duplicate_tab_ids (qt_run_id v # seen) ts)"
      using 2(3) scan_subset [of "qt_run_id v # seen" ts] by auto
    ultimately show ?thesis using 2(5) by auto
  next
    case False
    then have t: "t \<in> set ts" using 2(4) by auto
    have ids: "distinct (map qt_id ts)" "qt_id v \<notin> qt_id ` set ts" using 2(3) by auto
    obtain u where u: "u \<in> set ts" "qt_run_id u = qt_run_id t"
      "qt_id u \<notin> set (duplicate_tab_ids (if qt_run_id v \<in> set seen then seen else qt_run_id v # seen) ts)"
      using 2(1) [OF _ ids(1) t] 2(2) [OF _ ids(1) t] 2(5) False
      by (cases "qt_run_id v \<in> set seen") auto
    then have "qt_id u \<noteq> qt_id v" using ids(2) by (metis imageI)
    with u show ?thesis by (auto split: if_splits)
  qed
qed

definition clear_runs :: "nat \<Rightarrow> string list \<Rightarrow> qdb \<Rightarrow> qdb" where
  "clear_runs now ids db =
     db\<lparr>db_tabs := update_where (\<lambda>t. qt_id t \<in> set ids)
        (\<lambda>t. t\<lparr>qt_run_id := None, qt_updated_at := now\<rparr>) (db_tabs db)\<rparr>"

lemma schema_ok_clear_runs: "schema_ok db \<Longrightarrow> schema_ok (clear_runs now ids db)"
  unfolding clear_runs_def
  by (intro schema_ok_tab_update) (simp_all add: active_kept, simp add: schema_parts)

lemma run_clear_tab_run:
  "schema_ok db \<Longrightarrow> clear_tab_run now a db = (Inr (), clear_runs now [a] db)"
  by (simp add: clear_tab_run_def run_bnd run_update_tabs_run clear_runs_def)

lemma clear_runs_Cons: "clear_runs now ids (clear_runs now [a] db) = clear_runs now (a # ids) db"
  by (simp add: clear_runs_def update_where_def)

lemma run_clear_each:
  "schema_ok db \<Longrightarrow> for_each (clear_tab_run now) ids db = (Inr (), clear_runs now ids db)"
proof (induction ids arbitrary: db)
  case Nil
  then show ?case by (simp add: clear_runs_def update_where_def)
next
  case (Cons a ids)
  then show ?case
    by (simp add: run_bnd run_clear_tab_run schema_ok_clear_runs clear_runs_Cons)
qed

lemma set_dedup_order: "set (dedup_order tabs) = {t \<in> set tabs. qt_run_id t \<noteq> None}"
  by (auto simp: dedup_order_def)

lemma dedup_order_ids:
  "distinct (map qt_id tabs) \<Longrightarrow> distinct (map qt_id (dedup_order tabs))"
  by (auto simp: dedup_order_def distinct_map inj_on_def)

definition deduplicated :: "nat \<Rightarrow> qdb \<Rightarrow> qdb" where
  "deduplicated now db = clear_runs now (duplicate_tab_ids [] (dedup_order (db_tabs db))) db"

lemma run_deduplicate [store_simps]:
  "schema_ok db \<Longrightarrow> deduplicate_web_queue_tab_runs now db = (Inr (), deduplicated now db)"
  by (simp add: deduplicate_web_queue_tab_runs_def run_bnd run_clear_each deduplicated_def)

lemma schema_ok_deduplicated: "schema_ok db \<Longrightarrow> schema_ok (deduplicated now db)"
  by (simp add: deduplicated_def schema_ok_clear_runs)

lemma deduplicated_runs_distinct:
  assumes "schema_ok db"
  shows "distinct (filter (\<lambda>r. r \<noteq> None) (map qt_run_id (db_tabs (deduplicated now db))))"
proof -
  let ?dups = "duplicate_tab_ids [] (dedup_order (db_tabs db))"
  have "t = u" if tu: "t \<in> set (db_tabs (deduplicated now db))" "u \<in> set (db_tabs (deduplicated now db))"
    "qt_run_id t = qt_run_id u" "qt_run_id t \<noteq> None" for t u
  proof -
    from tu have t: "t \<in> set (db_tabs db)" "qt_id t \<notin> set ?dups"
      and u: "u \<in> set (db_tabs db)" "qt_id u \<notin> set ?dups"
      by (auto simp: deduplicated_def clear_runs_def set_update_where split: if_splits)
    have "t \<in> set (dedup_order (db_tabs db))" "u \<in> set (dedup_order (db_tabs db))"
      using t(1) u(1) tu(3,4) by (auto simp: set_dedup_order)
    from scan_unique [OF this t(2) u(2) tu(3)] show ?thesis .
  qed
  then show ?thesis
    using distinct_runs_iff [OF distinct_tabs [OF schema_ok_deduplicated [OF assms]]] by blast
qed

lemma scan_empty:
  "distinct (map qt_run_id ts) \<Longrightarrow> set (map qt_run_id ts) \<inter> set seen = {} \<Longrightarrow> duplicate_tab_ids seen ts = []"
  by (induction seen ts rule: duplicate_tab_ids.induct) auto

lemma deduplicated_id:
  assumes "schema_ok db" and "distinct (filter (\<lambda>r. r \<noteq> None) (map qt_run_id (db_tabs db)))"
  shows "deduplicated now db = db"
proof -
  have "distinct (db_tabs db)" using assms(1) by (rule distinct_tabs)
  then have "distinct (map qt_run_id (dedup_order (db_tabs db)))"
    using assms(2) unfolding distinct_runs_iff [OF \<open>distinct (db_tabs db)\<close>]
    by (auto simp: dedup_order_def distinct_map inj_on_def)
  then show ?thesis
    using scan_empty [of "dedup_order (db_tabs db)" "[]"]
    by (simp add: deduplicated_def clear_runs_def update_where_def)
qed

text \<open>Every run that was shown stays on exactly one tab.\<close>

lemma deduplicated_keeps_runs:
  assumes "schema_ok db" and "t \<in> set (db_tabs db)" and "qt_run_id t = Some r"
  shows "\<exists>u \<in> set (db_tabs (deduplicated now db)). qt_run_id u = Some r"
proof -
  have "t \<in> set (dedup_order (db_tabs db))" using assms by (simp add: set_dedup_order)
  from scan_keeps_one [OF dedup_order_ids [OF distinct_tab_ids [OF assms(1)]] this, of "[]"] assms(3)
  obtain u where "u \<in> set (dedup_order (db_tabs db))" "qt_run_id u = Some r"
    "qt_id u \<notin> set (duplicate_tab_ids [] (dedup_order (db_tabs db)))" by auto
  then have "u \<in> set (db_tabs (deduplicated now db))"
    by (auto simp: deduplicated_def clear_runs_def set_update_where set_dedup_order rev_image_eqI)
  then show ?thesis using \<open>qt_run_id u = Some r\<close> by blast
qed

section \<open>Ensuring the default tab\<close>

text \<open>
  What the repair starts from: a default tab, or no tab at all (a database just created). An active
  tab without a default tab is the one case in which inserting the default tab violates the
  unique index on the active tab.
\<close>

definition tabs_start :: "qdb \<Rightarrow> bool" where
  "tabs_start db = (list_ex qt_is_default (db_tabs db) \<or> db_tabs db = [])"

lemma latest_run_known:
  assumes "latest_web_queue_run_id db = r"
  shows "tab_run_ok (db_runs db) r"
proof (cases "sort_key (\<lambda>r. - int (qr_updated_at r)) (db_runs db)")
  case Nil
  then show ?thesis using assms by (simp add: latest_web_queue_run_id_def)
next
  case (Cons x xs)
  then have "x \<in> set (db_runs db)"
    by (metis list.set_intros(1) set_sort)
  then show ?thesis using assms Cons by (auto simp: latest_web_queue_run_id_def tab_run_ok_def)
qed

lemma run_ensure_default_exists:
  assumes "schema_ok db" and "tabs_start db"
  obtains db' where "ensure_default_tab_exists now db = (Inr (), db')" and "schema_ok db'"
    and "\<exists>t \<in> set (db_tabs db'). qt_is_default t" and "db_tabs db \<noteq> [] \<longrightarrow> db' = db"
    and "db_runs db' = db_runs db \<and> db_items db' = db_items db"
proof (cases "list_ex qt_is_default (db_tabs db)")
  case True
  then show thesis
    using assms by (intro that [of db]) (auto simp: ensure_default_tab_exists_def run_bnd list_ex_iff)
next
  case False
  then have empty: "db_tabs db = []" using assms by (simp add: tabs_start_def)
  let ?db = "db\<lparr>db_tabs := [default_tab_row now (latest_web_queue_run_id db)]\<rparr>"
  have "tab_run_ok (db_runs db) (latest_web_queue_run_id db)"
    by (rule latest_run_known) simp
  then have ok: "schema_ok ?db"
    using assms empty by (simp add: schema_parts default_tab_row_def)
  have "ensure_default_tab_exists now db = (Inr (), ?db)"
    using ok empty
    by (simp add: ensure_default_tab_exists_def run_bnd insert_tab_def run_sql_exec)
  then show thesis
    using ok empty by (intro that [of ?db]) (auto simp: default_tab_row_def)
qed

lemma run_fallback:
  assumes "db_tabs db \<noteq> []"
  obtains t where "t \<in> set (db_tabs db)" "active_fallback_queue_tab_id db = (Inr (qt_id t), db)"
proof (cases "fallback_order (db_tabs db)")
  case Nil
  then have "set (fallback_order (db_tabs db)) = {}" by simp
  then show thesis using assms by (simp add: fallback_order_def)
next
  case (Cons t ts)
  then have "t \<in> set (fallback_order (db_tabs db))" by simp
  then have "t \<in> set (db_tabs db)" by (simp add: fallback_order_def)
  then show thesis
    using that Cons by (simp add: active_fallback_queue_tab_id_def run_bnd)
qed

lemma length_filter_pos: "x \<in> set xs \<Longrightarrow> P x \<Longrightarrow> length (filter P xs) \<le> 1 \<Longrightarrow> length (filter P xs) = 1"
proof -
  assume "x \<in> set xs" "P x" "length (filter P xs) \<le> 1"
  moreover from this have "x \<in> set (filter P xs)" by simp
  then have "0 < length (filter P xs)" by (rule length_pos_if_in_set)
  ultimately show ?thesis by linarith
qed

lemma run_ensure_active:
  assumes "schema_ok db" and "db_tabs db \<noteq> []"
  obtains db' where "ensure_active_tab_exists now db = (Inr (), db')" and "schema_ok db'"
    and "length (filter qt_active (db_tabs db')) = 1"
    and "length (filter qt_is_default (db_tabs db')) = length (filter qt_is_default (db_tabs db))"
    and "length (filter qt_active (db_tabs db)) = 1 \<longrightarrow> db' = db"
    and "db_runs db' = db_runs db \<and> db_items db' = db_items db"
    and "map qt_run_id (db_tabs db') = map qt_run_id (db_tabs db)"
proof (cases "list_ex qt_active (db_tabs db)")
  case True
  then obtain t where "t \<in> set (db_tabs db)" "qt_active t" by (auto simp: list_ex_iff)
  moreover have "length (filter qt_active (db_tabs db)) \<le> 1"
    using assms(1) by (simp add: schema_parts)
  ultimately show thesis
    using assms length_filter_pos [of t "db_tabs db" qt_active]
    by (intro that [of db]) (auto simp: ensure_active_tab_exists_def run_bnd)
next
  case False
  then have none: "filter qt_active (db_tabs db) = []"
    by (auto simp: list_ex_iff filter_empty_conv)
  obtain t where t: "t \<in> set (db_tabs db)" "active_fallback_queue_tab_id db = (Inr (qt_id t), db)"
    using run_fallback [OF assms(2)] by blast
  let ?ts = "update_where (\<lambda>u. qt_id u = qt_id t)
      (\<lambda>u. u\<lparr>qt_active := True, qt_updated_at := now\<rparr>) (db_tabs db)"
  have one: "length (filter qt_active ?ts) = 1"
    using t(1) by (simp add: activate_count [OF none] count_key [OF distinct_tab_ids [OF assms(1)]])
  have run: "ensure_active_tab_exists now db = (Inr (), db\<lparr>db_tabs := ?ts\<rparr>)"
    using False t(2) assms(1) none
    by (simp add: ensure_active_tab_exists_def run_bnd run_activate_tab_row list_ex_iff)
  have "schema_ok (db\<lparr>db_tabs := ?ts\<rparr>)"
    using assms(1) one
    by (intro schema_ok_tab_update) (simp_all, simp add: schema_parts list_all_iff)
  then show thesis
    using run one none
    by (intro that [of "db\<lparr>db_tabs := ?ts\<rparr>"]) (simp_all add: default_kept map_update_where)
qed

theorem ensure_default_web_queue_tab_repairs:
  assumes "schema_ok db" and "tabs_start db"
  shows "\<exists>db'. ensure_default_web_queue_tab now db = (Inr (), db') \<and> tabs_inv db' \<and>
    db_runs db' = db_runs db \<and> db_items db' = db_items db"
proof -
  obtain d1 where d1: "ensure_default_tab_exists now db = (Inr (), d1)" "schema_ok d1"
    "\<exists>t \<in> set (db_tabs d1). qt_is_default t" "db_runs d1 = db_runs db \<and> db_items d1 = db_items db"
    by (rule run_ensure_default_exists [OF assms]) blast
  then have "db_tabs d1 \<noteq> []" by auto
  then obtain d2 where d2: "ensure_active_tab_exists now d1 = (Inr (), d2)" "schema_ok d2"
    "length (filter qt_active (db_tabs d2)) = 1"
    "length (filter qt_is_default (db_tabs d2)) = length (filter qt_is_default (db_tabs d1))"
    "db_runs d2 = db_runs d1 \<and> db_items d2 = db_items d1"
    using run_ensure_active [OF d1(2)] by blast
  have "length (filter qt_is_default (db_tabs d1)) \<le> 1" using d1(2) by (simp add: schema_parts)
  then have "length (filter qt_is_default (db_tabs d2)) = 1"
    using d1(3) d2(4) length_filter_pos by fastforce
  then have "tabs_inv (deduplicated now d2)"
    using d2(2,3) schema_ok_deduplicated [OF d2(2)] deduplicated_runs_distinct [OF d2(2)]
    by (simp add: tabs_inv_def tabs_wf_def) (simp add: deduplicated_def clear_runs_def active_kept default_kept)
  then show ?thesis
    using d1 d2 by (simp add: ensure_default_web_queue_tab_def run_bnd run_deduplicate)
      (simp add: deduplicated_def clear_runs_def)
qed

lemma filter_one_ex: "length (filter P xs) = 1 \<Longrightarrow> \<exists>x \<in> set xs. P x"
  by (metis filter_empty_conv list.size(3) zero_neq_one)

text \<open>Under the invariant the repair changes nothing.\<close>

lemma ensure_noop [store_simps]:
  assumes "tabs_inv db"
  shows "ensure_default_web_queue_tab now db = (Inr (), db)"
proof -
  have "\<exists>t \<in> set (db_tabs db). qt_is_default t" "\<exists>t \<in> set (db_tabs db). qt_active t"
    using assms filter_one_ex [of qt_is_default "db_tabs db"] filter_one_ex [of qt_active "db_tabs db"]
    unfolding tabs_inv_def tabs_wf_def by blast+
  moreover have "deduplicated now db = db"
    using assms by (intro deduplicated_id) (simp_all add: tabs_inv_def tabs_wf_def)
  ultimately show ?thesis
    using assms
    by (simp add: ensure_default_web_queue_tab_def ensure_default_tab_exists_def
        ensure_active_tab_exists_def run_bnd run_deduplicate tabs_inv_def)
qed

lemma ensure_seq [store_simps]:
  "tabs_inv db \<Longrightarrow> seq (ensure_default_web_queue_tab now) k db = k db"
  by (simp add: bnd_Inr [OF ensure_noop])

section \<open>Moving the active tab\<close>

definition set_active :: "nat \<Rightarrow> string \<Rightarrow> qdb \<Rightarrow> qdb" where
  "set_active now a db =
     db\<lparr>db_tabs := map (\<lambda>t. if qt_id t = a then t\<lparr>qt_active := True, qt_updated_at := now\<rparr>
                           else t\<lparr>qt_active := False\<rparr>) (db_tabs db)\<rparr>"

lemma set_active_count:
  "length (filter qt_active (db_tabs (set_active now a db))) = length (filter (\<lambda>t. qt_id t = a) (db_tabs db))"
proof -
  have "length (filter qt_active (map (\<lambda>t. if qt_id t = a then t\<lparr>qt_active := True, qt_updated_at := now\<rparr>
      else t\<lparr>qt_active := False\<rparr>) ts)) = length (filter (\<lambda>t. qt_id t = a) ts)" for ts
    by (induction ts) auto
  then show ?thesis by (simp add: set_active_def)
qed

lemma set_active_other:
  "map qt_id (db_tabs (set_active now a db)) = map qt_id (db_tabs db)"
  "map qt_run_id (db_tabs (set_active now a db)) = map qt_run_id (db_tabs db)"
  "length (filter qt_is_default (db_tabs (set_active now a db))) = length (filter qt_is_default (db_tabs db))"
proof -
  have "length (filter qt_is_default (map (\<lambda>t. if qt_id t = a then t\<lparr>qt_active := True, qt_updated_at := now\<rparr>
      else t\<lparr>qt_active := False\<rparr>) ts)) = length (filter qt_is_default ts)" for ts
    by (induction ts) auto
  then show "length (filter qt_is_default (db_tabs (set_active now a db))) = length (filter qt_is_default (db_tabs db))"
    by (simp add: set_active_def)
qed (auto simp: set_active_def)

lemma schema_ok_set_active:
  assumes "schema_ok db"
  shows "schema_ok (set_active now a db)"
proof -
  have "list_all (\<lambda>t. tab_run_ok (db_runs db) (qt_run_id t)) (db_tabs (set_active now a db))"
    using assms by (auto simp: schema_parts list_all_iff set_active_def)
  moreover have "length (filter qt_active (db_tabs (set_active now a db))) \<le> 1"
    using count_key [OF distinct_tab_ids [OF assms], of a] by (simp add: set_active_count)
  ultimately show ?thesis
    using assms set_active_other [of now a db] by (simp add: schema_parts) (simp add: set_active_def)
qed

lemma run_move_active [store_simps]:
  assumes "schema_ok db"
  shows "seq clear_active_tab (activate_tab_row ctx now a) db = (Inr (), set_active now a db)"
proof -
  let ?cleared = "update_where (\<lambda>_. True) (\<lambda>t. t\<lparr>qt_active := False\<rparr>) (db_tabs db)"
  have none: "filter qt_active (update_where (\<lambda>_. True) (\<lambda>t. t\<lparr>qt_active := False\<rparr>) ts) = []" for ts
    by (induction ts) (auto simp: update_where_def)
  have "schema_ok (db\<lparr>db_tabs := ?cleared\<rparr>)"
    using assms by (intro schema_ok_tab_update) (simp_all add: none schema_parts list_all_iff)
  then have "activate_tab_row ctx now a (db\<lparr>db_tabs := ?cleared\<rparr>) =
      (Inr (), db\<lparr>db_tabs := update_where (\<lambda>t. qt_id t = a)
        (\<lambda>t. t\<lparr>qt_active := True, qt_updated_at := now\<rparr>) ?cleared\<rparr>)"
    using none by (subst run_activate_tab_row) simp_all
  then show ?thesis
    by (simp add: run_bnd run_clear_active_tab [OF assms] set_active_def update_where_def comp_def
        cong: if_cong)
qed

lemma tabs_inv_set_active:
  assumes "schema_ok db" and "a \<in> qt_id ` set (db_tabs db)"
    and "length (filter qt_is_default (db_tabs db)) = 1"
    and "distinct (filter (\<lambda>r. r \<noteq> None) (map qt_run_id (db_tabs db)))"
  shows "tabs_inv (set_active now a db)"
  using assms count_key [OF distinct_tab_ids [OF assms(1)], of a]
  by (simp add: tabs_inv_def tabs_wf_def schema_ok_set_active set_active_count set_active_other)

lemma find_tab_Some_iff:
  "schema_ok db \<Longrightarrow> find_tab a db = Some t \<longleftrightarrow> t \<in> set (db_tabs db) \<and> qt_id t = a"
  unfolding find_tab_def by (rule tab_table.lookup_iff) (simp add: schema_parts)

lemma find_tab_None_iff: "find_tab a db = None \<longleftrightarrow> a \<notin> qt_id ` set (db_tabs db)"
  unfolding find_tab_def by (rule tab_table.lookup_None_iff)

lemma tabs_inv_schema: "tabs_inv db \<Longrightarrow> schema_ok db"
  by (simp add: tabs_inv_def)

lemma run_activate:
  assumes "tabs_inv db"
  shows "activate_web_queue_tab now a db =
    (if a \<in> qt_id ` set (db_tabs db) then (Inr (), set_active now a db)
     else (Inl (Bail (''unknown queue tab: '' @ a)), db))"
proof (cases "find_tab a db")
  case None
  then show ?thesis
    using assms find_tab_None_iff [of a db]
    by (simp add: activate_web_queue_tab_def run_transaction ensure_seq)
next
  case (Some t)
  then have "a \<in> qt_id ` set (db_tabs db)" by (metis find_tab_None_iff option.discI)
  then show ?thesis
    using assms Some run_move_active [OF tabs_inv_schema [OF assms]]
    by (simp add: activate_web_queue_tab_def run_transaction ensure_seq)
qed

lemma run_create_activate:
  assumes "tabs_inv db"
  shows "create_and_activate_web_queue_tab now a label db =
    (if a \<in> qt_id ` set (db_tabs db)
     then (Inl (Constraint ''failed to create web queue tab''), db)
     else (Inr (new_tab_row now a label\<lparr>qt_active := True\<rparr>),
           set_active now a (db\<lparr>db_tabs := db_tabs db @ [new_tab_row now a label]\<rparr>)))"
proof -
  let ?db = "db\<lparr>db_tabs := db_tabs db @ [new_tab_row now a label]\<rparr>"
  have ok: "schema_ok ?db \<longleftrightarrow> a \<notin> qt_id ` set (db_tabs db)"
    using tabs_inv_schema [OF assms] by (auto simp: schema_parts new_tab_row_def)
  show ?thesis
  proof (cases "a \<in> qt_id ` set (db_tabs db)")
    case True
    then have "seq (insert_tab ''failed to create web queue tab'' (new_tab_row now a label)) k db =
        (Inl (Constraint ''failed to create web queue tab''), db)" for k :: "(qdb, queue_tab_row) prog"
      using ok by (simp add: insert_tab_def run_sql_exec run_bnd)
    then show ?thesis
      using True by (simp add: create_and_activate_web_queue_tab_def run_transaction
          ensure_seq [OF assms])
  next
    case False
    then have sok: "schema_ok ?db" using ok by simp
    then have insert: "seq (insert_tab ''failed to create web queue tab'' (new_tab_row now a label)) k db = k ?db"
      for k :: "(qdb, queue_tab_row) prog"
      by (simp add: insert_tab_def run_sql_exec run_bnd)
    let ?new = "set_active now a ?db"
    have "new_tab_row now a label\<lparr>qt_active := True\<rparr> \<in> set (db_tabs ?new)"
      by (auto simp: set_active_def new_tab_row_def image_iff)
    then have find: "find_tab a ?new = Some (new_tab_row now a label\<lparr>qt_active := True\<rparr>)"
      using find_tab_Some_iff [OF schema_ok_set_active [OF sok]] by (simp add: new_tab_row_def)
    have steps: "seq clear_active_tab (seq (activate_tab_row ''failed to activate web queue tab'' now a) k) ?db
        = k ?new" for k :: "(qdb, queue_tab_row) prog"
      using run_move_active [OF sok, of "''failed to activate web queue tab''" now a]
      by (simp add: run_bnd run_clear_active_tab [OF sok] split: prod.splits sum.splits)
    show ?thesis
      using False find
      by (simp add: create_and_activate_web_queue_tab_def run_transaction ensure_seq [OF assms]
          insert steps)
  qed
qed

lemma fallback_order_Nil: "fallback_order tabs = [] \<longleftrightarrow> tabs = []"
proof -
  have "length (fallback_order tabs) = length tabs" by (simp add: fallback_order_def)
  then show ?thesis by (metis length_0_conv)
qed

lemma run_delete_tab:
  assumes inv: "tabs_inv db"
  shows "delete_web_queue_tab now a db =
    (case find_tab a db of
       None \<Rightarrow> (Inl (Bail (''unknown queue tab: '' @ a)), db)
     | Some t \<Rightarrow>
         if qt_is_default t then (Inl (Bail ''cannot delete the default queue tab''), db)
         else let db' = db\<lparr>db_tabs := delete_where (\<lambda>t. qt_id t = a) (db_tabs db)\<rparr> in
           (Inr (), if qt_active t
                    then set_active now (qt_id (hd (fallback_order (db_tabs db')))) db' else db'))"
proof (cases "find_tab a db")
  case None
  then show ?thesis
    by (simp add: delete_web_queue_tab_def run_transaction ensure_seq [OF inv])
next
  case (Some t)
  note ok = tabs_inv_schema [OF inv]
  let ?db = "db\<lparr>db_tabs := delete_where (\<lambda>t. qt_id t = a) (db_tabs db)\<rparr>"
  show ?thesis
  proof (cases "qt_is_default t")
    case True
    with Some show ?thesis
      by (simp add: delete_web_queue_tab_def run_transaction ensure_seq [OF inv])
  next
    case False
    obtain d where d: "d \<in> set (db_tabs db)" "qt_is_default d"
      using inv filter_one_ex [of qt_is_default "db_tabs db"] unfolding tabs_inv_def tabs_wf_def by blast
    have "qt_id d \<noteq> a"
      using d False Some find_tab_Some_iff [OF ok, of a d] by auto
    then have ne: "db_tabs ?db \<noteq> []" using d by (auto simp: delete_where_def filter_empty_conv)
    have sok: "schema_ok ?db" using ok by (rule schema_ok_delete_tabs)
    have "fallback_order (db_tabs ?db) \<noteq> []" using ne by (metis fallback_order_Nil)
    then have "active_fallback_queue_tab_id ?db = (Inr (qt_id (hd (fallback_order (db_tabs ?db)))), ?db)"
      by (cases "fallback_order (db_tabs ?db)") (simp_all add: active_fallback_queue_tab_id_def)
    then have moved: "bnd active_fallback_queue_tab_id (\<lambda>fallback.
        seq clear_active_tab (activate_tab_row ''failed to activate fallback queue tab'' now fallback)) ?db =
        (Inr (), set_active now (qt_id (hd (fallback_order (db_tabs ?db)))) ?db)"
      by (simp only: bnd_Inr run_move_active [OF sok])
    show ?thesis
      using Some False moved
      by (simp add: delete_web_queue_tab_def run_transaction ensure_seq [OF inv]
          bnd_deletes [OF ok] Let_def)
  qed
qed

lemma fallback_in:
  assumes "db_tabs db \<noteq> []"
  shows "qt_id (hd (fallback_order (db_tabs db))) \<in> qt_id ` set (db_tabs db)"
proof -
  have "set (fallback_order (db_tabs db)) = set (db_tabs db)" by (simp add: fallback_order_def)
  then show ?thesis
    using assms by (metis hd_in_set imageI set_empty)
qed

lemma keepsI: "(\<And>s. I s \<Longrightarrow> I (snd (m s))) \<Longrightarrow> keeps I m"
  by (simp add: keeps_def)

lemma delete_nondefault_wf:
  assumes inv: "tabs_inv db" and t: "find_tab a db = Some t" and nd: "\<not> qt_is_default t"
  shows "length (filter qt_is_default (delete_where (\<lambda>t. qt_id t = a) (db_tabs db))) = 1"
    and "distinct (filter (\<lambda>r. r \<noteq> None) (map qt_run_id (delete_where (\<lambda>t. qt_id t = a) (db_tabs db))))"
    and "\<not> qt_active t \<Longrightarrow> length (filter qt_active (delete_where (\<lambda>t. qt_id t = a) (db_tabs db))) = 1"
proof -
  note ok = tabs_inv_schema [OF inv]
  have only: "u = t" if "u \<in> set (db_tabs db)" "qt_id u = a" for u
    using that t find_tab_Some_iff [OF ok, of a u] by simp
  have same: "filter q (delete_where (\<lambda>t. qt_id t = a) (db_tabs db)) = filter q (db_tabs db)"
    if "\<not> q t" for q
    using only that by (auto simp: delete_where_def intro!: filter_cong)
  show "length (filter qt_is_default (delete_where (\<lambda>t. qt_id t = a) (db_tabs db))) = 1"
    using inv same [of qt_is_default] nd by (simp add: tabs_inv_def tabs_wf_def)
  show "length (filter qt_active (delete_where (\<lambda>t. qt_id t = a) (db_tabs db))) = 1" if "\<not> qt_active t"
    using inv same [of qt_active] that by (simp add: tabs_inv_def tabs_wf_def)
  have "distinct (delete_where (\<lambda>t. qt_id t = a) (db_tabs db))"
    using distinct_tabs [OF ok] by (simp add: delete_where_def)
  then show "distinct (filter (\<lambda>r. r \<noteq> None) (map qt_run_id (delete_where (\<lambda>t. qt_id t = a) (db_tabs db))))"
    using inv unfolding tabs_inv_def tabs_wf_def distinct_runs_iff [OF distinct_tabs [OF ok]]
    by (subst distinct_runs_iff) auto
qed

lemma tabs_inv_delete_tab: "keeps tabs_inv (delete_web_queue_tab now a)"
proof (rule keepsI)
  fix db assume inv: "tabs_inv db"
  note ok = tabs_inv_schema [OF inv]
  show "tabs_inv (snd (delete_web_queue_tab now a db))"
  proof (cases "find_tab a db")
    case None
    then show ?thesis using inv by (simp add: run_delete_tab)
  next
    case (Some t)
    let ?db = "db\<lparr>db_tabs := delete_where (\<lambda>t. qt_id t = a) (db_tabs db)\<rparr>"
    have sok: "schema_ok ?db" using ok by (rule schema_ok_delete_tabs)
    show ?thesis
    proof (cases "qt_is_default t")
      case True
      then show ?thesis using inv Some by (simp add: run_delete_tab)
    next
      case False
      note wf = delete_nondefault_wf [OF inv Some False]
      have "db_tabs ?db \<noteq> []" using wf(1) by auto
      then have "tabs_inv (set_active now (qt_id (hd (fallback_order (db_tabs ?db)))) ?db)"
        using sok wf(1,2) fallback_in [of ?db] by (intro tabs_inv_set_active) auto
      moreover have "\<not> qt_active t \<Longrightarrow> tabs_inv ?db"
        using sok wf by (simp add: tabs_inv_def tabs_wf_def)
      ultimately show ?thesis
        using Some False by (simp add: run_delete_tab [OF inv] Let_def)
    qed
  qed
qed

lemma tabs_inv_activate: "keeps tabs_inv (activate_web_queue_tab now a)"
proof (rule keepsI)
  fix db assume inv: "tabs_inv db"
  then have "a \<in> qt_id ` set (db_tabs db) \<Longrightarrow> tabs_inv (set_active now a db)"
    by (intro tabs_inv_set_active) (simp_all add: tabs_inv_def tabs_wf_def)
  then show "tabs_inv (snd (activate_web_queue_tab now a db))"
    using inv by (simp add: run_activate)
qed

lemma tabs_inv_create: "keeps tabs_inv (create_and_activate_web_queue_tab now a label)"
proof (rule keepsI)
  fix db assume inv: "tabs_inv db"
  note ok = tabs_inv_schema [OF inv]
  let ?db = "db\<lparr>db_tabs := db_tabs db @ [new_tab_row now a label]\<rparr>"
  have "tabs_inv (set_active now a ?db)" if "a \<notin> qt_id ` set (db_tabs db)"
  proof (rule tabs_inv_set_active)
    show "schema_ok ?db" using ok that by (auto simp: schema_parts new_tab_row_def)
  qed (use inv in \<open>simp_all add: tabs_inv_def tabs_wf_def new_tab_row_def\<close>)
  then show "tabs_inv (snd (create_and_activate_web_queue_tab now a label db))"
    using inv by (simp add: run_create_activate)
qed

section \<open>Assigning a run to a tab\<close>

definition show_run :: "nat \<Rightarrow> (queue_tab_row \<Rightarrow> bool) \<Rightarrow> string \<Rightarrow> qdb \<Rightarrow> qdb" where
  "show_run now p r db =
     db\<lparr>db_tabs := map (\<lambda>t. if p t then t\<lparr>qt_run_id := Some r, qt_updated_at := now\<rparr>
                           else if qt_run_id t = Some r then t\<lparr>qt_run_id := None, qt_updated_at := now\<rparr>
                           else t) (db_tabs db)\<rparr>"

lemma tabs_inv_show_run:
  assumes inv: "tabs_inv db" and r: "r \<in> qr_id ` set (db_runs db)"
    and one: "\<And>t u. t \<in> set (db_tabs db) \<Longrightarrow> u \<in> set (db_tabs db) \<Longrightarrow> p t \<Longrightarrow> p u \<Longrightarrow> t = u"
  shows "tabs_inv (show_run now p r db)"
proof -
  note ok = tabs_inv_schema [OF inv]
  let ?f = "\<lambda>t. if p t then t\<lparr>qt_run_id := Some r, qt_updated_at := now\<rparr>
    else if qt_run_id t = Some r then t\<lparr>qt_run_id := None, qt_updated_at := now\<rparr> else t"
  have upd: "show_run now p r db = db\<lparr>db_tabs := update_where (\<lambda>_. True) ?f (db_tabs db)\<rparr>"
    by (simp add: show_run_def update_where_def)
  have "schema_ok (db\<lparr>db_tabs := update_where (\<lambda>_. True) ?f (db_tabs db)\<rparr>)"
  proof (rule schema_ok_tab_update [OF ok])
    show "length (filter qt_active (update_where (\<lambda>_. True) ?f (db_tabs db))) \<le> 1"
      using ok by (subst active_kept) (auto simp: schema_parts)
    show "tab_run_ok (db_runs db) (qt_run_id (?f t))" if "t \<in> set (db_tabs db)" for t
      using that ok r by (auto simp: schema_parts list_all_iff tab_run_ok_def)
  qed auto
  then have sok: "schema_ok (show_run now p r db)" by (simp only: upd)
  moreover have "length (filter qt_is_default (db_tabs (show_run now p r db))) = 1"
    "length (filter qt_active (db_tabs (show_run now p r db))) = 1"
    using inv unfolding upd tabs_inv_def tabs_wf_def by (simp_all add: default_kept active_kept)
  moreover have "distinct (filter (\<lambda>r. r \<noteq> None) (map qt_run_id (db_tabs (show_run now p r db))))"
    unfolding distinct_runs_iff [OF distinct_tabs [OF sok]]
  proof (intro ballI impI)
    fix t u
    assume tu: "t \<in> set (db_tabs (show_run now p r db))" "u \<in> set (db_tabs (show_run now p r db))"
      "qt_run_id t = qt_run_id u" "qt_run_id t \<noteq> None"
    then obtain t0 u0 where orig: "t0 \<in> set (db_tabs db)" "t = ?f t0" "u0 \<in> set (db_tabs db)" "u = ?f u0"
      by (auto simp: show_run_def)
    have runs: "qt_run_id (?f v) = (if p v then Some r else if qt_run_id v = Some r then None else qt_run_id v)"
      for v by simp
    have old: "v = w" if "v \<in> set (db_tabs db)" "w \<in> set (db_tabs db)" "qt_run_id v = qt_run_id w"
      "qt_run_id v \<noteq> None" for v w
      using inv that unfolding tabs_inv_def tabs_wf_def distinct_runs_iff [OF distinct_tabs [OF ok]]
      by blast
    have "p t0 \<longleftrightarrow> p u0"
      using tu(3,4) unfolding orig(2,4) runs by (auto split: if_splits)
    moreover have "\<not> p t0 \<Longrightarrow> \<not> p u0 \<Longrightarrow> qt_run_id t0 = qt_run_id u0 \<and> qt_run_id t0 \<noteq> None"
      using tu(3,4) unfolding orig(2,4) runs by (auto split: if_splits)
    ultimately have "t0 = u0" using one [OF orig(1,3)] old [OF orig(1,3)] by blast
    then show "t = u" using orig(2,4) by simp
  qed
  ultimately show ?thesis by (simp add: tabs_inv_def tabs_wf_def)
qed

lemma schema_ok_show_fails:
  assumes "r \<notin> qr_id ` set (db_runs db)" and "\<exists>t \<in> set (db_tabs db). p t"
  shows "\<not> schema_ok (db\<lparr>db_tabs :=
    update_where p (\<lambda>t. t\<lparr>qt_run_id := Some r, qt_updated_at := now\<rparr>) (db_tabs db)\<rparr>)"
proof -
  obtain t where "t \<in> set (db_tabs db)" "p t" using assms by blast
  then have "t\<lparr>qt_run_id := Some r, qt_updated_at := now\<rparr> \<in> set (update_where p
      (\<lambda>t. t\<lparr>qt_run_id := Some r, qt_updated_at := now\<rparr>) (db_tabs db))"
    by (auto simp: set_update_where image_iff)
  then show ?thesis
    using assms(1) by (fastforce simp: schema_parts list_all_iff tab_run_ok_def)
qed

lemma run_show_update:
  assumes "schema_ok db"
  shows "update_tabs ctx p (\<lambda>t. t\<lparr>qt_run_id := Some r, qt_updated_at := now\<rparr>) db =
    (if r \<in> qr_id ` set (db_runs db) \<or> (\<forall>t \<in> set (db_tabs db). \<not> p t)
     then (Inr (count_where p (db_tabs db)),
       db\<lparr>db_tabs := update_where p (\<lambda>t. t\<lparr>qt_run_id := Some r, qt_updated_at := now\<rparr>) (db_tabs db)\<rparr>)
     else (Inl (Constraint ctx), db))"
proof -
  consider "r \<in> qr_id ` set (db_runs db)" | "r \<notin> qr_id ` set (db_runs db)" "\<forall>t \<in> set (db_tabs db). \<not> p t"
    | "r \<notin> qr_id ` set (db_runs db)" "\<exists>t \<in> set (db_tabs db). p t" by blast
  then show ?thesis
  proof cases
    case 1
    then show ?thesis using run_update_tabs_run [OF assms, of "Some r"] by (simp add: tab_run_ok_def)
  next
    case 2
    then have same: "update_where p f (db_tabs db) = db_tabs db" for f
      by (simp add: update_where_def map_idI)
    then show ?thesis using 2 assms by (simp add: update_tabs_def run_sql_exec)
  next
    case 3
    then show ?thesis using schema_ok_show_fails [OF 3] by (auto simp: update_tabs_def run_sql_exec)
  qed
qed

lemma run_assign_to_tab:
  assumes inv: "tabs_inv db"
  shows "assign_web_queue_run_to_tab now a r db =
    (if a \<notin> qt_id ` set (db_tabs db) then (Inl (Bail (''unknown queue tab: '' @ a)), db)
     else if r \<notin> qr_id ` set (db_runs db) then (Inl (Constraint ''failed to assign queue run to tab''), db)
     else (Inr (), show_run now (\<lambda>t. qt_id t = a) r db))"
proof -
  note ok = tabs_inv_schema [OF inv]
  have none: "count_where (\<lambda>t. qt_id t = a) (db_tabs db) = 0 \<longleftrightarrow> a \<notin> qt_id ` set (db_tabs db)"
    by (auto simp: count_where_0)
  have same: "update_where (\<lambda>t. qt_id t = a) f (db_tabs db) = db_tabs db"
    if "a \<notin> qt_id ` set (db_tabs db)" for f
    using that by (auto simp: update_where_def intro!: map_idI)
  let ?ts = "update_where (\<lambda>t. qt_id t = a) (\<lambda>t. t\<lparr>qt_run_id := Some r, qt_updated_at := now\<rparr>) (db_tabs db)"
  have "schema_ok (db\<lparr>db_tabs := ?ts\<rparr>)" if "r \<in> qr_id ` set (db_runs db)"
    using ok that by (intro schema_ok_tab_update)
      (auto simp: active_kept tab_run_ok_def schema_parts)
  from run_update_tabs_run [OF this, of None]
  have second: "update_tabs ctx p (\<lambda>t. t\<lparr>qt_run_id := None, qt_updated_at := now\<rparr>) (db\<lparr>db_tabs := ?ts\<rparr>) =
      (Inr (count_where p ?ts),
       db\<lparr>db_tabs := update_where p (\<lambda>t. t\<lparr>qt_run_id := None, qt_updated_at := now\<rparr>) ?ts\<rparr>)"
    if "r \<in> qr_id ` set (db_runs db)" for ctx p using that by simp
  have comb: "update_where (\<lambda>t. qt_id t \<noteq> a \<and> qt_run_id t = Some r)
      (\<lambda>t. t\<lparr>qt_run_id := None, qt_updated_at := now\<rparr>) ?ts = db_tabs (show_run now (\<lambda>t. qt_id t = a) r db)"
    by (auto simp: update_where_def show_run_def)
  have bnd_tabs: "bnd (update_tabs ctx p f) k d =
      (case update_tabs ctx p f d of (Inl e, t) \<Rightarrow> (Inl e, t) | (Inr x, t) \<Rightarrow> k x t)"
    for ctx p f d and k :: "nat \<Rightarrow> (qdb, unit) prog" by (rule run_bnd)
  show ?thesis
  proof (cases "a \<in> qt_id ` set (db_tabs db)")
    case False
    then have "\<forall>t \<in> set (db_tabs db). qt_id t \<noteq> a" by auto
    then show ?thesis
      using none same [OF False] False
      by (simp add: assign_web_queue_run_to_tab_def ensure_seq [OF inv] bnd_tabs run_show_update [OF ok])
  next
    case True
    then have ex: "\<not> (\<forall>t \<in> set (db_tabs db). qt_id t \<noteq> a)" by auto
    have pos: "count_where (\<lambda>t. qt_id t = a) (db_tabs db) \<noteq> 0" using none True by blast
    show ?thesis
    proof (cases "r \<in> qr_id ` set (db_runs db)")
      case False
      with True ex have "update_tabs ''failed to assign queue run to tab'' (\<lambda>t. qt_id t = a)
          (\<lambda>t. t\<lparr>qt_run_id := Some r, qt_updated_at := now\<rparr>) db =
          (Inl (Constraint ''failed to assign queue run to tab''), db)"
        by (simp only: run_show_update [OF ok] simp_thms if_False)
      with True False show ?thesis
        by (simp only: assign_web_queue_run_to_tab_def ensure_seq [OF inv] bnd_tabs
            prod.case sum.case simp_thms if_True if_False)
    next
      case r: True
      with True pos show ?thesis
        by (simp only: assign_web_queue_run_to_tab_def ensure_seq [OF inv] bnd_tabs run_show_update [OF ok]
            second [OF r] comb simp_thms if_True if_False prod.case sum.case run_ret)
          (simp add: show_run_def)
    qed
  qed
qed

lemma run_assign_to_active:
  assumes inv: "tabs_inv db"
  shows "assign_web_queue_run_to_active_tab now r db =
    (if r \<in> qr_id ` set (db_runs db) then (Inr (), show_run now qt_active r db)
     else (Inl (Constraint ''failed to assign queue run to active tab''), db))"
proof -
  note ok = tabs_inv_schema [OF inv]
  let ?clear = "\<lambda>ts. update_where (\<lambda>t. \<not> qt_active t \<and> qt_run_id t = Some r)
      (\<lambda>t. t\<lparr>qt_run_id := None, qt_updated_at := now\<rparr>) ts"
  let ?db = "db\<lparr>db_tabs := ?clear (db_tabs db)\<rparr>"
  have sok: "schema_ok ?db"
    using ok by (intro schema_ok_tab_update) (simp_all add: active_kept, simp add: schema_parts)
  obtain t where t: "t \<in> set (db_tabs db)" "qt_active t"
    using inv filter_one_ex [of qt_active "db_tabs db"] unfolding tabs_inv_def tabs_wf_def by blast
  have ex: "\<exists>t \<in> set (?clear (db_tabs db)). qt_active t"
    using t by (force simp: set_update_where)
  then have pos: "count_where qt_active (?clear (db_tabs db)) \<noteq> 0" by (simp add: count_where_0)
  have bnd_tabs: "bnd (update_tabs ctx p f) k d =
      (case update_tabs ctx p f d of (Inl e, t) \<Rightarrow> (Inl e, t) | (Inr x, t) \<Rightarrow> k x t)"
    for ctx p f d and k :: "nat \<Rightarrow> (qdb, unit) prog" by (rule run_bnd)
  have first: "update_tabs ctx (\<lambda>t. \<not> qt_active t \<and> qt_run_id t = Some r)
      (\<lambda>t. t\<lparr>qt_run_id := None, qt_updated_at := now\<rparr>) db =
      (Inr (count_where (\<lambda>t. \<not> qt_active t \<and> qt_run_id t = Some r) (db_tabs db)), ?db)" for ctx
    using run_update_tabs_run [OF ok, of None] by simp
  show ?thesis
  proof (cases "r \<in> qr_id ` set (db_runs db)")
    case True
    have comb: "update_where qt_active (\<lambda>t. t\<lparr>qt_run_id := Some r, qt_updated_at := now\<rparr>)
        (?clear (db_tabs db)) = db_tabs (show_run now qt_active r db)"
      by (auto simp: update_where_def show_run_def)
    have "update_tabs ''failed to assign queue run to active tab'' qt_active
        (\<lambda>t. t\<lparr>qt_run_id := Some r, qt_updated_at := now\<rparr>) ?db =
        (Inr (count_where qt_active (?clear (db_tabs db))), show_run now qt_active r db)"
      using True comb run_show_update [OF sok] by (simp add: show_run_def)
    then show ?thesis
      using True pos by (simp add: assign_web_queue_run_to_active_tab_def ensure_seq [OF inv] bnd_tabs first)
  next
    case False
    have "tab_run_ok (db_runs db) (qt_run_id u)" if "u \<in> set (db_tabs db)" for u
      using ok that by (simp add: schema_parts list_all_iff)
    then have "qt_run_id u \<noteq> Some r" if "u \<in> set (db_tabs db)" for u
      using that False by (fastforce simp: tab_run_ok_def)
    then have "?clear (db_tabs db) = db_tabs db"
      unfolding update_where_def by (auto intro!: map_idI)
    then have "?db = db" by simp
    moreover have "update_tabs ''failed to assign queue run to active tab'' qt_active
        (\<lambda>t. t\<lparr>qt_run_id := Some r, qt_updated_at := now\<rparr>) db =
        (Inl (Constraint ''failed to assign queue run to active tab''), db)"
      using False t by (auto simp: run_show_update [OF ok])
    ultimately show ?thesis
      using False by (simp add: assign_web_queue_run_to_active_tab_def ensure_seq [OF inv] bnd_tabs first)
  qed
qed

lemma one_active:
  assumes "tabs_inv db" "t \<in> set (db_tabs db)" "u \<in> set (db_tabs db)" "qt_active t" "qt_active u"
  shows "t = u"
proof -
  have "length (filter qt_active (db_tabs db)) = 1"
    using assms(1) by (simp add: tabs_inv_def tabs_wf_def)
  then obtain v where "filter qt_active (db_tabs db) = [v]" by (auto simp: length_Suc_conv)
  then have "x = v" if "x \<in> set (db_tabs db)" "qt_active x" for x
  proof -
    have "x \<in> set (filter qt_active (db_tabs db))" using that by simp
    then show ?thesis using \<open>filter qt_active (db_tabs db) = [v]\<close> by (simp del: set_filter)
  qed
  then show ?thesis using assms by blast
qed

lemma one_tab_id:
  "tabs_inv db \<Longrightarrow> t \<in> set (db_tabs db) \<Longrightarrow> u \<in> set (db_tabs db) \<Longrightarrow> qt_id t = a \<Longrightarrow> qt_id u = a \<Longrightarrow> t = u"
  using find_tab_Some_iff [of db a] tabs_inv_schema by (metis option.inject)

lemma tabs_inv_assign:
  "keeps tabs_inv (assign_web_queue_run_to_active_tab now r)"
  "keeps tabs_inv (assign_web_queue_run_to_tab now a r)"
  by (rule keepsI, simp add: run_assign_to_active, intro impI tabs_inv_show_run,
      auto intro: one_active)
     (rule keepsI, simp add: run_assign_to_tab, intro impI tabs_inv_show_run, auto intro: one_tab_id)

section \<open>Deletions\<close>

lemma tabs_wf_other_tables: "db_tabs db' = db_tabs db \<Longrightarrow> tabs_wf db' = tabs_wf db"
  by (simp add: tabs_wf_def)

lemma delete_items_tabs [simp]: "db_tabs (delete_items_db p db) = db_tabs db"
  "db_runs (delete_items_db p db) = db_runs db"
  "db_items (delete_items_db p db) = delete_where p (db_items db)"
  by (simp_all add: delete_items_db_def Let_def)

lemma delete_runs_items [simp]:
  "db_items (delete_runs_db p db) =
     delete_where (\<lambda>i. qi_run_id i \<in> qr_id ` set (filter p (db_runs db))) (db_items db)"
  "db_runs (delete_runs_db p db) = delete_where p (db_runs db)"
  "db_tabs (delete_runs_db p db) = detach_tabs (map qr_id (filter p (db_runs db))) (db_tabs db)"
  by (simp_all add: delete_runs_db_def Let_def detach_tabs_def)

lemma detach_distinct:
  assumes "distinct (filter (\<lambda>r. r \<noteq> None) (map qt_run_id ts))"
  shows "distinct (filter (\<lambda>r. r \<noteq> None) (map qt_run_id (detach_tabs gone ts)))"
proof -
  have "filter (\<lambda>r. r \<noteq> None) (map qt_run_id (detach_tabs gone ts)) =
      filter (\<lambda>r. r \<notin> Some ` set gone) (filter (\<lambda>r. r \<noteq> None) (map qt_run_id ts))"
    by (induction ts) (auto simp: detach_tabs_def update_where_def)
  moreover have "distinct (filter (\<lambda>r. r \<notin> Some ` set gone) (filter (\<lambda>r. r \<noteq> None) (map qt_run_id ts)))"
    using assms by (rule distinct_filter)
  ultimately show ?thesis by (simp only:)
qed

lemma tabs_inv_delete_items_db: "tabs_inv db \<Longrightarrow> tabs_inv (delete_items_db p db)"
  unfolding tabs_inv_def using tabs_wf_other_tables [of "delete_items_db p db" db]
  by (simp add: schema_ok_delete_items)

lemma tabs_inv_delete_runs_db: "tabs_inv db \<Longrightarrow> tabs_inv (delete_runs_db p db)"
  unfolding tabs_inv_def tabs_wf_def delete_runs_items detach_tabs_keep
  using schema_ok_delete_runs detach_distinct by blast

lemma run_delete_run [store_simps]:
  "schema_ok db \<Longrightarrow> delete_web_queue_run r db =
    (Inr (), delete_runs_db (\<lambda>x. qr_id x = r) (delete_items_db (\<lambda>i. qi_run_id i = r) db))"
  by (simp add: delete_web_queue_run_def bnd_deletes schema_ok_delete_items)

lemma run_delete_unreferenced [store_simps]:
  "schema_ok db \<Longrightarrow> delete_unreferenced_web_queue_run r db =
    (Inr (), if Some r \<in> qt_run_id ` set (db_tabs db) then db
             else delete_runs_db (\<lambda>x. qr_id x = r) (delete_items_db (\<lambda>i. qi_run_id i = r) db))"
proof -
  assume ok: "schema_ok db"
  have "count_where (\<lambda>t. qt_run_id t = Some r) (db_tabs db) = 0 \<longleftrightarrow> Some r \<notin> qt_run_id ` set (db_tabs db)"
    by (auto simp: count_where_0 image_iff)
  then show ?thesis
    by (cases "Some r \<in> qt_run_id ` set (db_tabs db)")
      (simp_all only: delete_unreferenced_web_queue_run_def bnd_query run_delete_run [OF ok] run_ret
        simp_thms if_True if_False)
qed

lemma run_delete_unreferenced_all [store_simps]:
  "schema_ok db \<Longrightarrow> delete_unreferenced_web_queue_runs db =
    (Inr (), delete_runs_db (\<lambda>x. Some (qr_id x) \<notin> qt_run_id ` set (db_tabs db))
       (delete_items_db (\<lambda>i. Some (qi_run_id i) \<notin> qt_run_id ` set (db_tabs db)) db))"
  by (simp add: delete_unreferenced_web_queue_runs_def bnd_deletes schema_ok_delete_items)

lemma tabs_inv_delete_unreferenced:
  "keeps tabs_inv (delete_unreferenced_web_queue_run r)"
  "keeps tabs_inv delete_unreferenced_web_queue_runs"
  by (auto intro!: keepsI tabs_inv_delete_runs_db tabs_inv_delete_items_db
      simp: run_delete_unreferenced run_delete_unreferenced_all tabs_inv_schema)

definition drop_dependency :: "nat \<Rightarrow> string \<Rightarrow> string \<Rightarrow> queue_item_row \<Rightarrow> queue_item_row" where
  "drop_dependency now r d i =
     (if qi_run_id i = r \<and> d \<in> set (qi_depends_on i)
      then i\<lparr>qi_depends_on := filter (\<lambda>x. x \<noteq> d) (qi_depends_on i), qi_updated_at := now\<rparr> else i)"

lemma drop_each:
  assumes "schema_ok (db\<lparr>db_items := items\<rparr>)"
    and "set us \<subseteq> set items" and "\<forall>u \<in> set us. qi_run_id u = r"
  shows "for_each (remove_item_dependency now r d) us
      (db\<lparr>db_items := map (\<lambda>j. if j \<in> done
          then j\<lparr>qi_depends_on := filter (\<lambda>x. x \<noteq> d) (qi_depends_on j), qi_updated_at := now\<rparr> else j) items\<rparr>) =
    (Inr (), db\<lparr>db_items := map (\<lambda>j. if j \<in> done \<union> set us
          then j\<lparr>qi_depends_on := filter (\<lambda>x. x \<noteq> d) (qi_depends_on j), qi_updated_at := now\<rparr> else j) items\<rparr>)"
  using assms(2,3)
proof (induction us arbitrary: "done")
  case Nil
  then show ?case by simp
next
  case (Cons u us)
  let ?upd = "\<lambda>j. j\<lparr>qi_depends_on := filter (\<lambda>x. x \<noteq> d) (qi_depends_on j), qi_updated_at := now\<rparr>"
  let ?items = "\<lambda>S. map (\<lambda>j. if j \<in> S then ?upd j else j) items"
  have ids: "qi_id j = qi_id u \<longleftrightarrow> j = u" if "j \<in> set items" for j
    using assms(1) that Cons.prems(1) by (auto simp: schema_parts distinct_map inj_on_def)
  have "map item_keys (?items done) = map item_keys items" by (simp add: item_keys_def)
  then have ok: "schema_ok (db\<lparr>db_items := ?items done\<rparr>)"
    using assms(1) schema_ok_items_cong [of "?items done" "db\<lparr>db_items := items\<rparr>"] by simp
  have step: "update_where (\<lambda>j. qi_run_id j = r \<and> qi_id j = qi_id u)
      (\<lambda>j. j\<lparr>qi_depends_on := filter (\<lambda>x. x \<noteq> d) (qi_depends_on u), qi_updated_at := now\<rparr>) (?items done) =
      ?items (insert u done)"
    using Cons.prems ids by (auto simp: update_where_def)
  have "remove_item_dependency now r d u (db\<lparr>db_items := ?items done\<rparr>) =
      (Inr (), db\<lparr>db_items := ?items (insert u done)\<rparr>)"
    by (simp only: remove_item_dependency_def Let_def)
      (simp add: bnd_update_items [OF ok] item_keys_def step)
  then show ?case
    using Cons.IH [of "insert u done"] Cons.prems by (simp add: run_bnd)
qed

lemma shorter_iff: "length (filter (\<lambda>x. x \<noteq> d) xs) \<noteq> length xs \<longleftrightarrow> d \<in> set xs"
proof (cases "d \<in> set xs")
  case True
  then have "length (filter (\<lambda>x. x \<noteq> d) xs) < length xs" by (intro length_filter_less) auto
  then show ?thesis using True by simp
next
  case False
  then have "filter (\<lambda>x. x \<noteq> d) xs = xs" by (auto intro: filter_True)
  then show ?thesis using False by simp
qed

lemma run_remove_dependency_references [store_simps]:
  assumes "schema_ok db"
  shows "remove_web_queue_dependency_references now r d db =
    (Inr (), db\<lparr>db_items := map (drop_dependency now r d) (db_items db)\<rparr>)"
proof -
  let ?us = "filter (\<lambda>i. qi_run_id i = r \<and> d \<in> set (qi_depends_on i)) (db_items db)"
  have "for_each (remove_item_dependency now r d) ?us (db\<lparr>db_items := map (\<lambda>j. if j \<in> {}
      then j\<lparr>qi_depends_on := filter (\<lambda>x. x \<noteq> d) (qi_depends_on j), qi_updated_at := now\<rparr> else j) (db_items db)\<rparr>) =
    (Inr (), db\<lparr>db_items := map (\<lambda>j. if j \<in> {} \<union> set ?us
      then j\<lparr>qi_depends_on := filter (\<lambda>x. x \<noteq> d) (qi_depends_on j), qi_updated_at := now\<rparr> else j) (db_items db)\<rparr>)"
    using assms by (intro drop_each) auto
  moreover have "map (\<lambda>j. if j \<in> set ?us
      then j\<lparr>qi_depends_on := filter (\<lambda>x. x \<noteq> d) (qi_depends_on j), qi_updated_at := now\<rparr> else j) (db_items db) =
      map (drop_dependency now r d) (db_items db)"
    by (auto simp: drop_dependency_def)
  ultimately show ?thesis
    by (simp add: remove_web_queue_dependency_references_def shorter_iff)
qed

lemma drop_dependency_keys [simp]: "item_keys (drop_dependency now r d i) = item_keys i"
  by (simp add: drop_dependency_def item_keys_def)

lemma drop_dependency_columns [simp]:
  "qi_id (drop_dependency now r d i) = qi_id i" "qi_run_id (drop_dependency now r d i) = qi_run_id i"
  "qi_position (drop_dependency now r d i) = qi_position i"
  "qi_slug (drop_dependency now r d i) = qi_slug i" "qi_status (drop_dependency now r d i) = qi_status i"
  by (simp_all add: drop_dependency_def)

lemma schema_ok_drop_dependency:
  "schema_ok db \<Longrightarrow> schema_ok (db\<lparr>db_items := map (drop_dependency now r d) (db_items db)\<rparr>)"
  by (subst schema_ok_items_cong) simp_all

definition delete_run_if_empty_db :: "string \<Rightarrow> qdb \<Rightarrow> qdb" where
  "delete_run_if_empty_db r db =
     (if \<exists>i \<in> set (db_items db). qi_run_id i = r then db else delete_runs_db (\<lambda>x. qr_id x = r) db)"

lemma run_delete_run_if_empty [store_simps]:
  assumes "schema_ok db"
  shows "delete_web_queue_run_if_empty r db = (Inr (), delete_run_if_empty_db r db)"
proof -
  have "count_where (\<lambda>i. qi_run_id i = r) (db_items db) = 0 \<longleftrightarrow> \<not> (\<exists>i \<in> set (db_items db). qi_run_id i = r)"
    by (simp add: count_where_0)
  then show ?thesis
    by (cases "\<exists>i \<in> set (db_items db). qi_run_id i = r")
      (simp_all only: delete_web_queue_run_if_empty_def delete_run_if_empty_db_def bnd_query
        bnd_deletes [OF assms] run_ret simp_thms if_True if_False)
qed

lemma schema_ok_delete_run_if_empty: "schema_ok db \<Longrightarrow> schema_ok (delete_run_if_empty_db r db)"
  by (simp add: delete_run_if_empty_db_def schema_ok_delete_runs)

definition without_item :: "nat \<Rightarrow> string \<Rightarrow> string \<Rightarrow> qdb \<Rightarrow> qdb" where
  "without_item now r a db =
     (let db1 = delete_items_db (\<lambda>j. qi_run_id j = r \<and> qi_id j = a) db in
      delete_run_if_empty_db r (db1\<lparr>db_items := map (drop_dependency now r a) (db_items db1)\<rparr>))"

lemma run_delete_item:
  assumes ok: "schema_ok db"
  shows "delete_web_queue_item_if_exists now r a db =
    (case find_item r a db of
       None \<Rightarrow> (Inr None, delete_run_if_empty_db r db)
     | Some i \<Rightarrow> (Inr (Some i), without_item now r a db))"
proof (cases "find_item r a db")
  case None
  then show ?thesis
    by (simp add: delete_web_queue_item_if_exists_def run_transaction run_bnd run_delete_run_if_empty [OF ok])
next
  case (Some i)
  have sok: "schema_ok (delete_items_db p db)" for p using ok by (rule schema_ok_delete_items)
  have seq1: "seq (remove_web_queue_dependency_references now r a) k d =
      k (d\<lparr>db_items := map (drop_dependency now r a) (db_items d)\<rparr>)"
    if "schema_ok d" for d and k :: "(qdb, queue_item_row option) prog"
    using that by (simp add: run_bnd run_remove_dependency_references)
  have seq2: "seq (delete_web_queue_run_if_empty r) k d = k (delete_run_if_empty_db r d)"
    if "schema_ok d" for d and k :: "(qdb, queue_item_row option) prog"
    using that by (simp add: run_bnd run_delete_run_if_empty)
  show ?thesis
    using Some
    by (simp add: delete_web_queue_item_if_exists_def run_transaction bnd_deletes [OF ok]
        seq1 [OF sok] seq2 [OF schema_ok_drop_dependency [OF sok], simplified] without_item_def Let_def)
qed

lemma tabs_inv_delete_item: "keeps tabs_inv (delete_web_queue_item_if_exists now r a)"
proof (rule keepsI)
  fix db assume inv: "tabs_inv db"
  note ok = tabs_inv_schema [OF inv]
  have empty: "tabs_inv (delete_run_if_empty_db r d)" if "tabs_inv d" for d
    using that by (simp add: delete_run_if_empty_db_def tabs_inv_delete_runs_db)
  have "tabs_inv (without_item now r a db)"
  proof -
    let ?d = "delete_items_db (\<lambda>j. qi_run_id j = r \<and> qi_id j = a) db"
    have "tabs_inv ?d" using inv by (rule tabs_inv_delete_items_db)
    then have "tabs_inv (?d\<lparr>db_items := map (drop_dependency now r a) (db_items ?d)\<rparr>)"
      using schema_ok_drop_dependency [of ?d] by (simp add: tabs_inv_def tabs_wf_def)
    then show ?thesis using empty by (simp add: without_item_def Let_def)
  qed
  then show "tabs_inv (snd (delete_web_queue_item_if_exists now r a db))"
    using empty [OF inv] by (simp add: run_delete_item [OF ok] split: option.split)
qed

lemma run_delete_run_items:
  assumes ok: "schema_ok db"
  shows "delete_web_queue_run_items now r db =
    (Inr (run_items r db),
     delete_runs_db (\<lambda>x. qr_id x = r) (delete_items_db (\<lambda>i. qi_run_id i = r) db)
       \<lparr>db_tabs := update_where (\<lambda>t. qt_run_id t = Some r)
          (\<lambda>t. t\<lparr>qt_run_id := None, qt_updated_at := now\<rparr>)
          (db_tabs (delete_runs_db (\<lambda>x. qr_id x = r) (delete_items_db (\<lambda>i. qi_run_id i = r) db)))\<rparr>)"
proof -
  have "schema_ok (delete_items_db (\<lambda>i. qi_run_id i = r) db)" using ok by (rule schema_ok_delete_items)
  moreover from this have "schema_ok (delete_runs_db (\<lambda>x. qr_id x = r) (delete_items_db (\<lambda>i. qi_run_id i = r) db))"
    by (rule schema_ok_delete_runs)
  ultimately show ?thesis
    using run_update_tabs_run [of _ None]
    by (simp add: delete_web_queue_run_items_def run_transaction bnd_deletes ok bnd_Inr)
qed

lemma tabs_inv_delete_run_items: "keeps tabs_inv (delete_web_queue_run_items now r)"
proof (rule keepsI)
  fix db assume inv: "tabs_inv db"
  note ok = tabs_inv_schema [OF inv]
  let ?d = "delete_runs_db (\<lambda>x. qr_id x = r) (delete_items_db (\<lambda>i. qi_run_id i = r) db)"
  have d: "tabs_inv ?d" using inv by (intro tabs_inv_delete_runs_db tabs_inv_delete_items_db)
  have "qt_run_id t \<noteq> Some r" if "t \<in> set (db_tabs ?d)" for t
  proof -
    have "tab_run_ok (db_runs ?d) (qt_run_id t)"
      using tabs_inv_schema [OF d] that by (simp add: schema_ok_def tabs_ok_def list_all_iff del: delete_runs_items)
    then show ?thesis by (auto simp: tab_run_ok_def)
  qed
  then have "update_where (\<lambda>t. qt_run_id t = Some r) f (db_tabs ?d) = db_tabs ?d" for f
    unfolding update_where_def by (intro map_idI) auto
  then have "?d\<lparr>db_tabs := update_where (\<lambda>t. qt_run_id t = Some r) f (db_tabs ?d)\<rparr> = ?d" for f
    by (simp del: delete_runs_items)
  then show "tabs_inv (snd (delete_web_queue_run_items now r db))"
    using d by (simp only: run_delete_run_items [OF ok] snd_conv)
qed

section \<open>Properties\<close>


definition two_tabs_db :: qdb where
  "two_tabs_db = empty_db\<lparr>
     db_runs := [\<lparr>qr_id = ''r1'', qr_status = RunRunning, qr_execution_mode = ModeSequence,
       qr_execution_host = HostLocal, qr_selected_agent_command = ''c1'', qr_remote_launcher = None,
       qr_local_proxy = None, qr_remote_proxy = None, qr_selected_repo_root = None,
       qr_selected_repo_name = None, qr_track = ''t'', qr_current_index = 0,
       qr_stop_requested = False, qr_message = '''', qr_created_at = 1, qr_updated_at = 1\<rparr>],
     db_tabs := [\<lparr>qt_id = ''default'', qt_label = ''Task Queue'', qt_run_id = Some ''r1'',
         qt_is_default = True, qt_active = False, qt_created_at = 1, qt_updated_at = 1\<rparr>,
       \<lparr>qt_id = ''x'', qt_label = ''X'', qt_run_id = Some ''r1'',
         qt_is_default = False, qt_active = False, qt_created_at = 2, qt_updated_at = 2\<rparr>]\<rparr>"

lemma two_tabs_db_start: "schema_ok two_tabs_db" "tabs_start two_tabs_db"
  by (simp_all add: two_tabs_db_def empty_db_def schema_parts tabs_start_def tab_run_ok_def)



text \<open>
  Which tab is active, and which one becomes active when the active tab is deleted.
\<close>

definition active_tab :: "qdb \<Rightarrow> queue_tab_row option" where
  "active_tab db = find qt_active (db_tabs db)"

lemma fallback_shows_run:
  assumes "t \<in> set (db_tabs db)" and "qt_run_id t \<noteq> None"
  shows "qt_run_id (hd (fallback_order (db_tabs db))) \<noteq> None"
proof -
  let ?k = "\<lambda>t. (qt_run_id t = None, \<not> qt_is_default t, qt_created_at t, qt_id t)"
  have "t \<in> set (fallback_order (db_tabs db))" using assms(1) by (simp add: fallback_order_def)
  moreover have "sorted (map ?k (fallback_order (db_tabs db)))" by (simp add: fallback_order_def)
  ultimately have "?k (hd (fallback_order (db_tabs db))) \<le> ?k t"
    by (cases "fallback_order (db_tabs db)") auto
  then show ?thesis using assms(2) by auto
qed

lemma active_after_set_active:
  assumes "schema_ok db" and "t \<in> set (db_tabs db)"
  shows "\<exists>u. active_tab (set_active now (qt_id t) db) = Some u \<and> qt_id u = qt_id t \<and> qt_run_id u = qt_run_id t"
proof -
  let ?u = "t\<lparr>qt_active := True, qt_updated_at := now\<rparr>"
  have in': "?u \<in> set (db_tabs (set_active now (qt_id t) db))"
    using assms(2) by (auto simp: set_active_def image_iff)
  then obtain u where u: "active_tab (set_active now (qt_id t) db) = Some u"
    by (cases "active_tab (set_active now (qt_id t) db)") (auto simp: active_tab_def find_None_iff)
  then have mem: "u \<in> set (db_tabs (set_active now (qt_id t) db))" and act: "qt_active u"
    by (auto simp: active_tab_def dest: find_Some_set)
  then have id: "qt_id u = qt_id t" by (auto simp: set_active_def split: if_splits)
  have "distinct (map qt_id (db_tabs (set_active now (qt_id t) db)))"
    using distinct_tab_ids [OF assms(1)] by (simp only: set_active_other)
  then have "inj_on qt_id (set (db_tabs (set_active now (qt_id t) db)))" by (simp only: distinct_map)
  moreover have "qt_id u = qt_id ?u" using id by simp
  ultimately have "u = ?u" using in' mem by (meson inj_onD)
  then show ?thesis using u by simp
qed

text \<open>
  Activating and deleting tabs do what the interface promises. An unknown tab is an error that
  changes nothing; a known tab becomes the only active one. The default tab cannot be deleted; any
  other tab disappears, and when it was active the tab that becomes active shows a run whenever
  some remaining tab does.
\<close>

theorem tab_activation_and_deletion:
  assumes "tabs_inv db"
  shows "(case activate_web_queue_tab now a db of
           (Inl e, db') \<Rightarrow> a \<notin> qt_id ` set (db_tabs db) \<and> db' = db
         | (Inr _, db') \<Rightarrow> map_option qt_id (active_tab db') = Some a \<and>
             map qt_run_id (db_tabs db') = map qt_run_id (db_tabs db)) \<and>
         (case delete_web_queue_tab now a db of
           (Inl e, db') \<Rightarrow> db' = db \<and> (\<forall>t \<in> set (db_tabs db). qt_id t = a \<longrightarrow> qt_is_default t)
         | (Inr _, db') \<Rightarrow> qt_id ` set (db_tabs db') = qt_id ` set (db_tabs db) - {a} \<and>
             db_runs db' = db_runs db \<and>
             (map_option qt_id (active_tab db) = Some a \<longrightarrow>
                (\<exists>u \<in> set (db_tabs db'). qt_run_id u \<noteq> None) \<longrightarrow>
                (\<exists>u. active_tab db' = Some u \<and> qt_run_id u \<noteq> None)))"
    (is "?activate \<and> ?delete")
proof
  note ok = tabs_inv_schema [OF assms]
  show ?activate
  proof (cases "a \<in> qt_id ` set (db_tabs db)")
    case True
    then obtain t where t: "t \<in> set (db_tabs db)" "qt_id t = a" by auto
    obtain u where "active_tab (set_active now a db) = Some u" "qt_id u = a"
      using active_after_set_active [OF ok t(1), of now] t(2) by auto
    with True show ?thesis
      by (simp add: run_activate [OF assms] set_active_other)
  next
    case False
    then show ?thesis by (simp add: run_activate [OF assms])
  qed
  show ?delete
  proof (cases "find_tab a db")
    case None
    then have "\<forall>t \<in> set (db_tabs db). qt_id t \<noteq> a" by (auto simp: find_tab_None_iff)
    then show ?thesis using None by (simp add: run_delete_tab [OF assms])
  next
    case (Some t)
    have t: "t \<in> set (db_tabs db)" "qt_id t = a" using Some find_tab_Some_iff [OF ok] by auto
    show ?thesis
    proof (cases "qt_is_default t")
      case True
      then have "\<forall>u \<in> set (db_tabs db). qt_id u = a \<longrightarrow> qt_is_default u"
        using one_tab_id [OF assms _ t(1) _ t(2)] by blast
      then show ?thesis using Some True by (simp add: run_delete_tab [OF assms])
    next
      case False
      let ?db = "db\<lparr>db_tabs := delete_where (\<lambda>t. qt_id t = a) (db_tabs db)\<rparr>"
      let ?hd = "hd (fallback_order (db_tabs ?db))"
      have sok: "schema_ok ?db" using ok by (rule schema_ok_delete_tabs)
      have ids: "qt_id ` set (db_tabs ?db) = qt_id ` set (db_tabs db) - {a}" by auto
      have "db_tabs ?db \<noteq> []" using delete_nondefault_wf(1) [OF assms Some False] by auto
      then have "fallback_order (db_tabs ?db) \<noteq> []" by (simp add: fallback_order_Nil)
      then have "?hd \<in> set (fallback_order (db_tabs ?db))" by (rule hd_in_set)
      then have hd_in: "?hd \<in> set (db_tabs ?db)" by (simp add: fallback_order_def del: set_delete_where)
      have ids': "qt_id ` set (db_tabs (set_active now b ?db)) = qt_id ` set (db_tabs db) - {a}" for b
        using ids set_active_other(1) [of now b ?db] by (metis set_map)
      have runs': "qt_run_id ` set (db_tabs (set_active now b ?db)) = qt_run_id ` set (db_tabs ?db)" for b
        using set_active_other(2) [of now b ?db] by (metis set_map)
      have shown: "qt_run_id ?hd \<noteq> None"
        if "u \<in> set (db_tabs (set_active now b ?db))" "qt_run_id u \<noteq> None" for u b
      proof -
        have "qt_run_id u \<in> qt_run_id ` set (db_tabs ?db)" using that(1) runs' by blast
        then show ?thesis using that(2) fallback_shows_run [of _ ?db] by fastforce
      qed
      obtain v where v: "active_tab (set_active now (qt_id ?hd) ?db) = Some v" "qt_run_id v = qt_run_id ?hd"
        using active_after_set_active [OF sok hd_in] by blast
      have inactive: "map_option qt_id (active_tab db) = Some a \<Longrightarrow> qt_active t"
        using one_tab_id [OF assms _ t(1) _ t(2)] by (auto simp: active_tab_def dest!: find_Some_set)
      have res: "delete_web_queue_tab now a db =
          (Inr (), if qt_active t then set_active now (qt_id ?hd) ?db else ?db)"
        using Some False by (simp add: run_delete_tab [OF assms] Let_def)
      have runs_eq: "db_runs (set_active now b ?db) = db_runs db" for b by (simp add: set_active_def)
      have tail: "(\<exists>u \<in> set (db_tabs (set_active now (qt_id ?hd) ?db)). qt_run_id u \<noteq> None) \<longrightarrow>
          (\<exists>u. active_tab (set_active now (qt_id ?hd) ?db) = Some u \<and> qt_run_id u \<noteq> None)"
        using shown v by metis
      show ?thesis
      proof (cases "qt_active t")
        case True
        then show ?thesis
          unfolding res if_P [OF True] prod.case sum.case using ids' runs_eq tail by blast
      next
        case False
        then have "map_option qt_id (active_tab db) \<noteq> Some a" using inactive by blast
        moreover have "db_runs ?db = db_runs db" by simp
        ultimately show ?thesis
          unfolding res if_not_P [OF False] prod.case sum.case using ids by blast
      qed
    qed
  qed
qed

definition clean_tabs_db :: qdb where
  "clean_tabs_db = two_tabs_db\<lparr>
     db_tabs := [\<lparr>qt_id = ''default'', qt_label = ''Task Queue'', qt_run_id = Some ''r1'',
         qt_is_default = True, qt_active = False, qt_created_at = 1, qt_updated_at = 1\<rparr>,
       \<lparr>qt_id = ''x'', qt_label = ''X'', qt_run_id = None,
         qt_is_default = False, qt_active = True, qt_created_at = 2, qt_updated_at = 2\<rparr>]\<rparr>"

lemma clean_tabs_db_inv: "tabs_inv clean_tabs_db"
  by (simp add: clean_tabs_db_def two_tabs_db_def empty_db_def schema_parts tabs_inv_def tabs_wf_def
      tab_run_ok_def)

theorem tab_activation_and_deletion_witness:
  "case delete_web_queue_tab 9 ''x'' clean_tabs_db of
     (Inl e, db') \<Rightarrow> False
   | (Inr _, db') \<Rightarrow> qt_id ` set (db_tabs db') = {''default''}"
proof -
  have "find_tab ''x'' clean_tabs_db \<noteq> None" "qt_id ` set (db_tabs clean_tabs_db) - {''x''} = {''default''}"
    "\<not> (\<forall>t \<in> set (db_tabs clean_tabs_db). qt_id t = ''x'' \<longrightarrow> qt_is_default t)"
    by (auto simp: clean_tabs_db_def find_tab_def)
  then show ?thesis
    using tab_activation_and_deletion [OF clean_tabs_db_inv, where now = 9 and a = "''x''"]
    by (auto split: prod.splits sum.splits unit.splits)
qed

lemma delete_runs_db_no_items:
  assumes "\<not> (\<exists>i \<in> set (db_items db). qi_run_id i = r)"
  shows "db_items (delete_runs_db (\<lambda>x. qr_id x = r) db) = db_items db"
    and "db_attempts (delete_runs_db (\<lambda>x. qr_id x = r) db) = db_attempts db"
proof -
  have "qi_run_id i \<notin> qr_id ` set (filter (\<lambda>x. qr_id x = r) (db_runs db))" if "i \<in> set (db_items db)" for i
    using assms that by auto
  then have none: "filter (\<lambda>i. qi_run_id i \<in> qr_id ` set (filter (\<lambda>x. qr_id x = r) (db_runs db))) (db_items db) = []"
    "delete_where (\<lambda>i. qi_run_id i \<in> qr_id ` set (filter (\<lambda>x. qr_id x = r) (db_runs db))) (db_items db) = db_items db"
    by (auto simp only: filter_empty_conv delete_where_def intro!: filter_True)
  show "db_items (delete_runs_db (\<lambda>x. qr_id x = r) db) = db_items db"
    using none(2) by (simp only: delete_runs_items)
  show "db_attempts (delete_runs_db (\<lambda>x. qr_id x = r) db) = db_attempts db"
    by (simp only: delete_runs_db_def delete_items_db_def Let_def set_map none)
      (simp add: delete_where_def)
qed

lemma delete_run_if_empty_same:
  "db_items (delete_run_if_empty_db r db) = db_items db"
  "db_attempts (delete_run_if_empty_db r db) = db_attempts db"
  unfolding delete_run_if_empty_db_def using delete_runs_db_no_items [of db r] by presburger+

lemma without_item_contents:
  assumes ok: "schema_ok db" and i: "find_item r a db = Some i"
  shows "qi_id ` set (db_items (without_item now r a db)) = qi_id ` set (db_items db) - {a}"
    and "\<forall>j \<in> set (db_items (without_item now r a db)). qi_run_id j = r \<longrightarrow> a \<notin> set (qi_depends_on j)"
    and "a \<notin> qa_item_id ` set (db_attempts (without_item now r a db))"
    and "qr_id ` set (db_runs (without_item now r a db)) = qr_id ` set (db_runs db) -
      (if \<exists>j \<in> set (db_items db). qi_run_id j = r \<and> qi_id j \<noteq> a then {} else {r})"
proof -
  let ?p = "\<lambda>j. qi_run_id j = r \<and> qi_id j = a"
  let ?d1 = "delete_items_db ?p db"
  let ?d2 = "?d1\<lparr>db_items := map (drop_dependency now r a) (db_items ?d1)\<rparr>"
  have mem: "i \<in> set (db_items db)" "qi_run_id i = r" "qi_id i = a"
    using i find_item_Some_iff [OF ok] by auto
  have only: "j = i" if "j \<in> set (db_items db)" "qi_id j = a" for j
    using ok that mem by (auto simp: schema_parts distinct_map dest: inj_onD)
  have "?p j \<longleftrightarrow> qi_id j = a" if "j \<in> set (db_items db)" for j
    using only [OF that] mem by blast
  then have "set (db_items ?d1) = {j \<in> set (db_items db). qi_id j \<noteq> a}"
    unfolding delete_items_tabs set_delete_where by blast
  then have ids1: "qi_id ` set (db_items ?d1) = qi_id ` set (db_items db) - {a}" by blast
  have ids2: "qi_id ` set (db_items ?d2) = qi_id ` set (db_items db) - {a}"
    unfolding ids1 [symmetric] by (simp add: image_image del: set_delete_where)
  have left: "(\<exists>j \<in> set (db_items ?d2). qi_run_id j = r) \<longleftrightarrow>
      (\<exists>j \<in> set (db_items db). qi_run_id j = r \<and> qi_id j \<noteq> a)" by auto
  have items: "db_items (without_item now r a db) = db_items ?d2"
    and atts: "db_attempts (without_item now r a db) = db_attempts ?d2"
    by (simp_all only: without_item_def Let_def delete_run_if_empty_same)
  show "qi_id ` set (db_items (without_item now r a db)) = qi_id ` set (db_items db) - {a}"
    unfolding items by (rule ids2)
  show "\<forall>j \<in> set (db_items (without_item now r a db)). qi_run_id j = r \<longrightarrow> a \<notin> set (qi_depends_on j)"
  proof (intro ballI impI)
    fix j assume "j \<in> set (db_items (without_item now r a db))" and run: "qi_run_id j = r"
    then have "j \<in> drop_dependency now r a ` set (db_items ?d1)" unfolding items by simp
    then obtain k where k: "j = drop_dependency now r a k" by blast
    then have "qi_run_id k = r" using run by simp
    with k show "a \<notin> set (qi_depends_on j)" by (simp add: drop_dependency_def)
  qed
  have gone: "a \<in> set (map qi_id (filter ?p (db_items db)))" using mem by auto
  then show "a \<notin> qa_item_id ` set (db_attempts (without_item now r a db))"
    unfolding atts delete_items_db_def Let_def by (simp del: set_map) blast
  show "qr_id ` set (db_runs (without_item now r a db)) = qr_id ` set (db_runs db) -
      (if \<exists>j \<in> set (db_items db). qi_run_id j = r \<and> qi_id j \<noteq> a then {} else {r})"
  proof (cases "\<exists>j \<in> set (db_items db). qi_run_id j = r \<and> qi_id j \<noteq> a")
    case True
    then have "without_item now r a db = ?d2"
      using left by (simp only: without_item_def Let_def delete_run_if_empty_db_def if_True)
    then show ?thesis using True by simp
  next
    case False
    then have "without_item now r a db = delete_runs_db (\<lambda>x. qr_id x = r) ?d2"
      using left by (simp only: without_item_def Let_def delete_run_if_empty_db_def if_False simp_thms)
    then show ?thesis unfolding if_not_P [OF False] by (simp only: delete_runs_items) auto
  qed
qed


end
