(* ===== verification/Queue_Store.thy ===== *)
theory Queue_Store
  imports Queue_Tabs
begin

text \<open>
  The queue operations of \<open>src/src/state.rs\<close>: replacing, appending and replanning the items of a
  run, stop, continue and wake, the updates of one item, and the ledger of semantic attempts that
  every item update projects into.

  \<open>store_env\<close> is what these operations read from outside the database: the clock and the JSON
  parser (serde_json), a function from text to a JSON value. An operation that reads the clock more
  than once is given one reading.
\<close>

datatype json = JNull | JBool bool | JNumber int | JString string | JArray "json list"
  | JObject "(string \<times> json) list"

definition json_get :: "string \<Rightarrow> json \<Rightarrow> json option" where
  "json_get k v = (case v of JObject kvs \<Rightarrow> map_of kvs k | _ \<Rightarrow> None)"

definition json_as_str :: "json \<Rightarrow> string option" where
  "json_as_str v = (case v of JString s \<Rightarrow> Some s | _ \<Rightarrow> None)"

record store_env =
  se_now :: nat
  se_parse_json :: "string \<Rightarrow> json option"

section \<open>The attempt ledger\<close>

definition coalesce :: "'a option \<Rightarrow> 'a option \<Rightarrow> 'a option" where
  "coalesce a b = (case a of None \<Rightarrow> b | Some x \<Rightarrow> Some x)"

definition queue_item_semantic_iteration :: "queue_item_row \<Rightarrow> int" where
  "queue_item_semantic_iteration i = sat_add_i64 (max (qi_recovery_attempts i) 0) 1"

definition queue_item_task_record_id :: "queue_item_row \<Rightarrow> string" where
  "queue_item_task_record_id i = ''task/'' @ qi_slug i"

definition queue_item_agent_logs :: "string option \<Rightarrow> qdb \<Rightarrow> string option \<times> string option" where
  "queue_item_agent_logs agent_id db =
     (case agent_id of
        None \<Rightarrow> (None, None)
      | Some a \<Rightarrow> (case find_agent a db of
          None \<Rightarrow> (None, None)
        | Some row \<Rightarrow> (ag_stdout_log_path row, ag_stderr_log_path row)))"

definition metadata_bundle_path :: "json \<Rightarrow> string option" where
  "metadata_bundle_path metadata =
     (case (case json_get ''task_terminal_bundle'' metadata of
              Some v \<Rightarrow> Some v | None \<Rightarrow> json_get ''bundle_path'' metadata) of
        None \<Rightarrow> None
      | Some v \<Rightarrow> (case json_as_str v of
          None \<Rightarrow> None
        | Some s \<Rightarrow> if trim s = [] then None else Some s))"

definition task_record_bundle_path :: "store_env \<Rightarrow> string \<Rightarrow> qdb \<Rightarrow> string option" where
  "task_record_bundle_path E task_record_id db =
     (case find_task task_record_id db of
        None \<Rightarrow> None
      | Some row \<Rightarrow> (case tk_metadata_json row of
          None \<Rightarrow> None
        | Some text \<Rightarrow> (case se_parse_json E text of
            None \<Rightarrow> None
          | Some metadata \<Rightarrow> metadata_bundle_path metadata)))"

definition item_failure_message :: "queue_item_row \<Rightarrow> string option" where
  "item_failure_message i =
     (if item_is_failed_or_blocked (qi_status i) \<and> trim (qi_message i) \<noteq> []
      then Some (trim (qi_message i)) else None)"

definition attempt_projection :: "store_env \<Rightarrow> queue_item_row \<Rightarrow> qdb \<Rightarrow> queue_attempt_row" where
  "attempt_projection E i db =
     \<lparr> qa_run_id = qi_run_id i, qa_item_id = qi_id i,
       qa_semantic_iteration = queue_item_semantic_iteration i,
       qa_agent_command = qi_agent_command i, qa_agent_id = qi_agent_id i,
       qa_task_record_id = Some (queue_item_task_record_id i), qa_terminal_target = None,
       qa_stdout_log_path = fst (queue_item_agent_logs (qi_agent_id i) db),
       qa_stderr_log_path = snd (queue_item_agent_logs (qi_agent_id i) db),
       qa_bundle_path = task_record_bundle_path E (queue_item_task_record_id i) db,
       qa_status = item_status_as_str (qi_status i),
       qa_failure_message = item_failure_message i, qa_started_at = qi_started_at i,
       qa_finished_at = (if item_is_terminal (qi_status i) then Some (qi_updated_at i) else None),
       qa_updated_at = se_now E \<rparr>"

definition merge_projection :: "queue_attempt_row \<Rightarrow> queue_attempt_row \<Rightarrow> queue_attempt_row" where
  "merge_projection old new =
     old\<lparr> qa_agent_command := qa_agent_command new,
          qa_agent_id := coalesce (qa_agent_id new) (qa_agent_id old),
          qa_task_record_id := qa_task_record_id new,
          qa_stdout_log_path := coalesce (qa_stdout_log_path new) (qa_stdout_log_path old),
          qa_stderr_log_path := coalesce (qa_stderr_log_path new) (qa_stderr_log_path old),
          qa_bundle_path := coalesce (qa_bundle_path new) (qa_bundle_path old),
          qa_status := qa_status new,
          qa_failure_message := qa_failure_message new,
          qa_finished_at := coalesce (qa_finished_at new) (qa_finished_at old),
          qa_updated_at := qa_updated_at new \<rparr>"

definition sync_web_queue_item_attempt_projection :: "store_env \<Rightarrow> queue_item_row \<Rightarrow> (qdb, unit) prog" where
  "sync_web_queue_item_attempt_projection E i =
     seq (sql_exec ''failed to sync web queue item attempt'' (\<lambda>_. 1)
            (\<lambda>db. db\<lparr>db_attempts :=
               upsert_by attempt_key merge_projection (attempt_projection E i db) (db_attempts db)\<rparr>))
       (ret ())"

definition sync_web_queue_item_attempt_for_key :: "store_env \<Rightarrow> string \<Rightarrow> string \<Rightarrow> (qdb, unit) prog" where
  "sync_web_queue_item_attempt_for_key E run_id item_id =
     bnd (query (find_item run_id item_id)) (\<lambda>item. case item of
        None \<Rightarrow> ret ()
      | Some i \<Rightarrow> sync_web_queue_item_attempt_projection E i)"

definition merge_finished :: "queue_attempt_row \<Rightarrow> queue_attempt_row \<Rightarrow> queue_attempt_row" where
  "merge_finished old new =
     old\<lparr> qa_agent_id := coalesce (qa_agent_id new) (qa_agent_id old),
          qa_task_record_id := qa_task_record_id new,
          qa_stdout_log_path := coalesce (qa_stdout_log_path new) (qa_stdout_log_path old),
          qa_stderr_log_path := coalesce (qa_stderr_log_path new) (qa_stderr_log_path old),
          qa_bundle_path := coalesce (qa_bundle_path new) (qa_bundle_path old),
          qa_status := qa_status new,
          qa_failure_message := qa_failure_message new,
          qa_finished_at := qa_finished_at new,
          qa_updated_at := qa_updated_at new \<rparr>"

definition finished_attempt ::
  "store_env \<Rightarrow> queue_item_row \<Rightarrow> string \<Rightarrow> string \<Rightarrow> string option \<Rightarrow> qdb \<Rightarrow> queue_attempt_row" where
  "finished_attempt E i status failure_message agent_id db =
     \<lparr> qa_run_id = qi_run_id i, qa_item_id = qi_id i,
       qa_semantic_iteration = queue_item_semantic_iteration i,
       qa_agent_command = qi_agent_command i, qa_agent_id = agent_id,
       qa_task_record_id = Some (queue_item_task_record_id i), qa_terminal_target = None,
       qa_stdout_log_path = fst (queue_item_agent_logs agent_id db),
       qa_stderr_log_path = snd (queue_item_agent_logs agent_id db),
       qa_bundle_path = task_record_bundle_path E (queue_item_task_record_id i) db,
       qa_status = status, qa_failure_message = Some failure_message,
       qa_started_at = qi_started_at i, qa_finished_at = Some (se_now E),
       qa_updated_at = se_now E \<rparr>"

definition finish_web_queue_item_attempt ::
  "store_env \<Rightarrow> queue_item_row \<Rightarrow> string \<Rightarrow> string \<Rightarrow> string option \<Rightarrow> (qdb, unit) prog" where
  "finish_web_queue_item_attempt E i status failure_message agent_id =
     seq (sql_exec ''failed to finish web queue item attempt'' (\<lambda>_. 1)
            (\<lambda>db. db\<lparr>db_attempts := upsert_by attempt_key merge_finished
               (finished_attempt E i status failure_message agent_id db) (db_attempts db)\<rparr>))
       (ret ())"

definition load_web_queue_item_attempts :: "string \<Rightarrow> string \<Rightarrow> qdb \<Rightarrow> queue_attempt_row list" where
  "load_web_queue_item_attempts run_id item_id db =
     sort_key qa_semantic_iteration
       (filter (\<lambda>a. qa_run_id a = run_id \<and> qa_item_id a = item_id) (db_attempts db))"

definition web_queue_item_semantic_iterations_started ::
  "store_env \<Rightarrow> queue_item_row \<Rightarrow> (qdb, int) prog" where
  "web_queue_item_semantic_iterations_started E i =
     seq (sync_web_queue_item_attempt_projection E i)
       (bnd (query (load_web_queue_item_attempts (qi_run_id i) (qi_id i))) (\<lambda>attempts.
          ret (max (min (int (length attempts)) i64_max) (queue_item_semantic_iteration i))))"

definition set_web_queue_item_attempt_terminal ::
  "store_env \<Rightarrow> string \<Rightarrow> string \<Rightarrow> int \<Rightarrow> string \<Rightarrow> (qdb, unit) prog" where
  "set_web_queue_item_attempt_terminal E run_id item_id n terminal_target =
     seq (update_attempts ''failed to update web queue item attempt terminal''
            (\<lambda>a. qa_run_id a = run_id \<and> qa_item_id a = item_id \<and> qa_semantic_iteration a = n)
            (\<lambda>a. a\<lparr>qa_terminal_target := Some terminal_target, qa_updated_at := se_now E\<rparr>))
       (ret ())"

section \<open>Updates of one item\<close>

definition item_key :: "string \<Rightarrow> string \<Rightarrow> queue_item_row \<Rightarrow> bool" where
  "item_key run_id item_id i = (qi_run_id i = run_id \<and> qi_id i = item_id)"

definition update_web_queue_item ::
  "store_env \<Rightarrow> string \<Rightarrow> string \<Rightarrow> queue_item_status \<Rightarrow> string \<Rightarrow> string option \<Rightarrow> int \<Rightarrow> nat option \<Rightarrow>
   (qdb, unit) prog" where
  "update_web_queue_item E run_id item_id status message agent_id attempts next_attempt_at =
     seq (update_items ''failed to update web queue item'' (item_key run_id item_id)
            (\<lambda>i. i\<lparr>qi_status := stored_item_status status, qi_message := message,
                   qi_agent_id := coalesce agent_id (qi_agent_id i), qi_attempts := attempts,
                   qi_next_attempt_at := next_attempt_at, qi_updated_at := se_now E\<rparr>))
       (sync_web_queue_item_attempt_for_key E run_id item_id)"

definition schedule_web_queue_item_recovery ::
  "store_env \<Rightarrow> string \<Rightarrow> string \<Rightarrow> string \<Rightarrow> string \<Rightarrow> int \<Rightarrow> (qdb, unit) prog" where
  "schedule_web_queue_item_recovery E run_id item_id message failure_message recovery_attempts =
     seq (bnd (query (find_item run_id item_id)) (\<lambda>item. case item of
            None \<Rightarrow> ret ()
          | Some i \<Rightarrow> finish_web_queue_item_attempt E i ''failed'' failure_message (qi_agent_id i)))
       (seq (update_items ''failed to schedule web queue item recovery'' (item_key run_id item_id)
               (\<lambda>i. i\<lparr>qi_status := ItemPending, qi_message := message, qi_agent_id := None,
                      qi_recovery_attempts := recovery_attempts, qi_next_attempt_at := None,
                      qi_updated_at := se_now E\<rparr>))
         (sync_web_queue_item_attempt_for_key E run_id item_id))"

definition reset_web_queue_item_for_relaunch ::
  "store_env \<Rightarrow> string \<Rightarrow> string \<Rightarrow> string \<Rightarrow> int \<Rightarrow> (qdb, unit) prog" where
  "reset_web_queue_item_for_relaunch E run_id item_id message attempts =
     seq (update_items ''failed to reset web queue item for relaunch'' (item_key run_id item_id)
            (\<lambda>i. i\<lparr>qi_status := ItemPending, qi_message := message, qi_agent_id := None,
                   qi_attempts := attempts, qi_next_attempt_at := None, qi_updated_at := se_now E\<rparr>))
       (sync_web_queue_item_attempt_for_key E run_id item_id)"

definition schedule_web_queue_item_relaunch ::
  "store_env \<Rightarrow> string \<Rightarrow> string \<Rightarrow> string \<Rightarrow> int \<Rightarrow> nat \<Rightarrow> (qdb, unit) prog" where
  "schedule_web_queue_item_relaunch E run_id item_id message attempts next_attempt_at =
     seq (update_items ''failed to schedule web queue item relaunch'' (item_key run_id item_id)
            (\<lambda>i. i\<lparr>qi_status := ItemWaiting, qi_message := message, qi_agent_id := None,
                   qi_attempts := attempts, qi_next_attempt_at := Some next_attempt_at,
                   qi_updated_at := se_now E\<rparr>))
       (sync_web_queue_item_attempt_for_key E run_id item_id)"

definition set_web_queue_item_agent :: "store_env \<Rightarrow> string \<Rightarrow> string \<Rightarrow> string \<Rightarrow> (qdb, unit) prog" where
  "set_web_queue_item_agent E run_id item_id agent_id =
     seq (update_items ''failed to update web queue item agent'' (item_key run_id item_id)
            (\<lambda>i. i\<lparr>qi_agent_id := Some agent_id, qi_updated_at := se_now E\<rparr>))
       (sync_web_queue_item_attempt_for_key E run_id item_id)"

definition set_web_queue_item_agent_command ::
  "store_env \<Rightarrow> string \<Rightarrow> string \<Rightarrow> string \<Rightarrow> (qdb, unit) prog" where
  "set_web_queue_item_agent_command E run_id item_id agent_command =
     seq (update_items ''failed to update web queue item agent command'' (item_key run_id item_id)
            (\<lambda>i. i\<lparr>qi_agent_command := agent_command, qi_updated_at := se_now E\<rparr>))
       (ret ())"

definition set_web_queue_item_remote_proxy ::
  "store_env \<Rightarrow> string \<Rightarrow> string \<Rightarrow> string \<Rightarrow> (qdb, unit) prog" where
  "set_web_queue_item_remote_proxy E run_id item_id remote_proxy =
     seq (update_items ''failed to update web queue item remote proxy'' (item_key run_id item_id)
            (\<lambda>i. i\<lparr>qi_remote_proxy := Some remote_proxy, qi_updated_at := se_now E\<rparr>))
       (ret ())"

section \<open>Runs\<close>

definition stored_run :: "queue_run_row \<Rightarrow> queue_run_row" where
  "stored_run r = r\<lparr>qr_status := stored_run_status (qr_status r),
     qr_execution_mode := stored_mode (qr_execution_mode r),
     qr_execution_host := stored_host (qr_execution_host r)\<rparr>"

definition upsert_web_queue_run :: "queue_run_row \<Rightarrow> (qdb, unit) prog" where
  "upsert_web_queue_run run =
     seq (sql_exec ''failed to insert web queue run'' (\<lambda>_. 1)
            (\<lambda>db. db\<lparr>db_runs := upsert_by qr_id
               (\<lambda>old new. new\<lparr>qr_created_at := qr_created_at old\<rparr>) (stored_run run) (db_runs db)\<rparr>))
       (ret ())"

definition replace_web_queue_with_assignment ::
  "store_env \<Rightarrow> queue_run_row \<Rightarrow> queue_item_row list \<Rightarrow> string option \<Rightarrow> (qdb, unit) prog" where
  "replace_web_queue_with_assignment E run items tab_id =
     transaction
       (seq (ensure_default_web_queue_tab (se_now E))
         (bnd (case tab_id of Some t \<Rightarrow> web_queue_tab_run_id (se_now E) t
                            | None \<Rightarrow> active_web_queue_run_id (se_now E)) (\<lambda>previous_run_id.
            seq (delete_items ''failed to clear web queue items'' (\<lambda>i. qi_run_id i = qr_id run))
              (seq (upsert_web_queue_run run)
                (seq (for_each (\<lambda>i. seq (insert_item ''failed to insert web queue item'' i)
                                      (sync_web_queue_item_attempt_projection E i)) items)
                  (seq (case tab_id of
                          Some t \<Rightarrow> assign_web_queue_run_to_tab (se_now E) t (qr_id run)
                        | None \<Rightarrow> assign_web_queue_run_to_active_tab (se_now E) (qr_id run))
                    (seq (case previous_run_id of
                            Some p \<Rightarrow> if p \<noteq> qr_id run then delete_unreferenced_web_queue_run p else ret ()
                          | None \<Rightarrow> ret ())
                      delete_unreferenced_web_queue_runs)))))))"

definition append_web_queue_items ::
  "store_env \<Rightarrow> string \<Rightarrow> queue_item_row list \<Rightarrow> (qdb, unit) prog" where
  "append_web_queue_items E run_id items =
     (if items = [] then ret ()
      else transaction
        (bnd (query (find_run run_id)) (\<lambda>run.
           if run = None then throw (Bail (''unknown queue run: '' @ run_id))
           else seq (for_each (\<lambda>i. seq (insert_item ''failed to append web queue item'' i)
                                      (sync_web_queue_item_attempt_projection E i)) items)
                  (seq (update_runs ''failed to update web queue run after append'' (\<lambda>r. qr_id r = run_id)
                          (\<lambda>r. r\<lparr>qr_message := ''appended '' @ show_nat (length items) @ '' queue item(s)'',
                                 qr_updated_at := se_now E\<rparr>))
                    (ret ())))))"

definition update_item_plan :: "store_env \<Rightarrow> string \<Rightarrow> queue_item_row \<Rightarrow> (qdb, unit) prog" where
  "update_item_plan E run_id i =
     seq (update_items ''failed to update web queue item plan'' (item_key run_id (qi_id i))
            (\<lambda>j. j\<lparr>qi_position := qi_position i, qi_depends_on := qi_depends_on i,
                   qi_prompt := qi_prompt i, qi_repo_root := qi_repo_root i,
                   qi_repo_name := qi_repo_name i,
                   qi_execution_host := stored_host (qi_execution_host i),
                   qi_agent_command := qi_agent_command i, qi_task_class := qi_task_class i,
                   qi_remote_launcher := qi_remote_launcher i, qi_local_proxy := qi_local_proxy i,
                   qi_remote_proxy := qi_remote_proxy i, qi_updated_at := se_now E\<rparr>))
       (ret ())"

definition update_web_queue_item_plans ::
  "store_env \<Rightarrow> string \<Rightarrow> queue_item_row list \<Rightarrow> (qdb, unit) prog" where
  "update_web_queue_item_plans E run_id items =
     (if items = [] then ret ()
      else transaction
        (seq (for_each (update_item_plan E run_id) items)
          (seq (update_runs ''failed to update web queue run after item plan update''
                  (\<lambda>r. qr_id r = run_id)
                  (\<lambda>r. r\<lparr>qr_message := ''updated '' @ show_nat (length items) @ '' queue item(s)'',
                         qr_updated_at := se_now E\<rparr>))
            (ret ()))))"

definition load_web_queue_run :: "string \<Rightarrow> qdb \<Rightarrow> queue_run_row option \<times> queue_item_row list" where
  "load_web_queue_run run_id db =
     (case find_run run_id db of
        None \<Rightarrow> (None, [])
      | Some r \<Rightarrow> (Some r, run_items (qr_id r) db))"

definition load_web_queue :: "store_env \<Rightarrow> (qdb, queue_run_row option \<times> queue_item_row list) prog" where
  "load_web_queue E =
     seq (ensure_default_web_queue_tab (se_now E))
       (bnd (active_web_queue_run_id (se_now E)) (\<lambda>run_id. case run_id of
          Some r \<Rightarrow> query (load_web_queue_run r)
        | None \<Rightarrow> ret (None, [])))"

definition load_web_queue_runs ::
  "store_env \<Rightarrow> (qdb, (queue_run_row \<times> queue_item_row list) list) prog" where
  "load_web_queue_runs E =
     seq (ensure_default_web_queue_tab (se_now E))
       (query (\<lambda>db. map (\<lambda>r. (r, run_items (qr_id r) db))
          (sort_key (\<lambda>r. (- int (qr_updated_at r), qr_id r))
            (filter (\<lambda>r. Some (qr_id r) \<in> set (map qt_run_id (db_tabs db))) (db_runs db)))))"

definition load_web_queue_items :: "store_env \<Rightarrow> (qdb, queue_item_row list) prog" where
  "load_web_queue_items E =
     seq (ensure_default_web_queue_tab (se_now E))
       (query (\<lambda>db. sort_key (\<lambda>i. (qi_run_id i, qi_position i, qi_id i))
          (filter (\<lambda>i. Some (qi_run_id i) \<in> set (map qt_run_id (db_tabs db))) (db_items db))))"

definition update_web_queue_run ::
  "store_env \<Rightarrow> string \<Rightarrow> queue_run_status \<Rightarrow> int \<Rightarrow> string \<Rightarrow> (qdb, unit) prog" where
  "update_web_queue_run E run_id status current_index message =
     seq (update_runs ''failed to update web queue run'' (\<lambda>r. qr_id r = run_id)
            (\<lambda>r. r\<lparr>qr_status := stored_run_status status, qr_current_index := current_index,
                   qr_message := message, qr_updated_at := se_now E\<rparr>))
       (ret ())"

definition run_wakeable :: "queue_run_row \<Rightarrow> bool" where
  "run_wakeable r = (qr_status r \<in> {RunRunning, RunWaiting, RunStarting})"

definition request_web_queue_stop :: "store_env \<Rightarrow> string option \<Rightarrow> (qdb, unit) prog" where
  "request_web_queue_stop E run_id =
     bnd (case run_id of Some r \<Rightarrow> ret (Some r) | None \<Rightarrow> active_web_queue_run_id (se_now E)) (\<lambda>run.
       case run of
         None \<Rightarrow> ret ()
       | Some r \<Rightarrow>
           seq (update_runs ''failed to request web queue stop'' (\<lambda>x. qr_id x = r \<and> run_wakeable x)
                  (\<lambda>x. x\<lparr>qr_stop_requested := True, qr_status := RunStopping,
                         qr_message := ''stop requested'', qr_updated_at := se_now E\<rparr>))
             (ret ()))"

definition continued_run :: "store_env \<Rightarrow> queue_run_row \<Rightarrow> queue_run_row" where
  "continued_run E r = r\<lparr>qr_stop_requested := False, qr_status := RunRunning,
     qr_message := ''continued'', qr_updated_at := se_now E\<rparr>"

definition continue_web_queue_run :: "store_env \<Rightarrow> string \<Rightarrow> (qdb, unit) prog" where
  "continue_web_queue_run E run_id =
     transaction
       (bnd (update_runs ''failed to continue web queue''
               (\<lambda>r. qr_id r = run_id \<and> qr_status r = RunStopped) (continued_run E)) (\<lambda>updated.
          if updated = 0 then throw (Bail (''queue is not stopped: '' @ run_id))
          else seq (update_items ''failed to restore stopped local queue items''
                      (\<lambda>i. qi_run_id i = run_id \<and> qi_status i = ItemStopped \<and>
                           qi_execution_host i = HostLocal)
                      (\<lambda>i. i\<lparr>qi_status := ItemPending,
                             qi_message := ''pending after queue continue'',
                             qi_agent_id := None, qi_updated_at := se_now E\<rparr>))
                 (ret ())))"

definition wake_web_queue_retry_items :: "store_env \<Rightarrow> string \<Rightarrow> (qdb, nat) prog" where
  "wake_web_queue_retry_items E run_id = (\<lambda>db.
     bnd (update_items ''failed to wake web queue retry items''
            (\<lambda>i. qi_run_id i = run_id \<and> qi_status i = ItemWaiting \<and> qi_next_attempt_at i \<noteq> None \<and>
                 exists_where (\<lambda>r. qr_id r = run_id \<and> run_wakeable r) (db_runs db))
            (\<lambda>i. i\<lparr>qi_next_attempt_at := None, qi_message := ''retry awakened by queue continue'',
                   qi_updated_at := se_now E\<rparr>)) (\<lambda>updated.
       if updated > 0
       then seq (update_runs ''failed to wake web queue run''
                   (\<lambda>r. qr_id r = run_id \<and> run_wakeable r) (continued_run E))
              (ret updated)
       else ret updated) db)"

definition web_queue_item_retry_awakened :: "string \<Rightarrow> string \<Rightarrow> qdb \<Rightarrow> bool" where
  "web_queue_item_retry_awakened run_id item_id db =
     exists_where (\<lambda>i. item_key run_id item_id i \<and> qi_status i = ItemWaiting \<and>
        qi_next_attempt_at i = None) (db_items db)"

definition web_queue_stop_requested :: "string \<Rightarrow> qdb \<Rightarrow> bool" where
  "web_queue_stop_requested run_id db =
     (case find_run run_id db of None \<Rightarrow> True | Some r \<Rightarrow> qr_stop_requested r)"

section \<open>Resource samples\<close>

definition record_queue_resource_sample :: "queue_sample_row \<Rightarrow> nat \<Rightarrow> (qdb, unit) prog" where
  "record_queue_resource_sample sample retain_since =
     seq (sql_exec ''failed to record queue resource sample'' (\<lambda>_. 1)
            (\<lambda>db. db\<lparr>db_samples := upsert_by qs_sampled_at (\<lambda>old new. new) sample (db_samples db)\<rparr>))
       (seq (sql_exec ''failed to prune queue resource samples''
               (\<lambda>db. count_where (\<lambda>s. qs_sampled_at s < retain_since) (db_samples db))
               (\<lambda>db. db\<lparr>db_samples := delete_where (\<lambda>s. qs_sampled_at s < retain_since) (db_samples db)\<rparr>))
         (ret ()))"

definition load_queue_resource_samples_since :: "nat \<Rightarrow> qdb \<Rightarrow> queue_sample_row list" where
  "load_queue_resource_samples_since since db =
     sort_key qs_sampled_at (filter (\<lambda>s. since \<le> qs_sampled_at s) (db_samples db))"

section \<open>How item updates and the ledger run\<close>

definition find_attempt :: "string \<Rightarrow> string \<Rightarrow> int \<Rightarrow> qdb \<Rightarrow> queue_attempt_row option" where
  "find_attempt run_id item_id n db = find (\<lambda>a. attempt_key a = (run_id, item_id, n)) (db_attempts db)"

definition put_attempt ::
  "(queue_attempt_row \<Rightarrow> queue_attempt_row \<Rightarrow> queue_attempt_row) \<Rightarrow> queue_attempt_row \<Rightarrow> qdb \<Rightarrow> qdb" where
  "put_attempt merge row db = db\<lparr>db_attempts := upsert_by attempt_key merge row (db_attempts db)\<rparr>"

lemma merge_keys:
  "attempt_key a = attempt_key b \<Longrightarrow> attempt_key (merge_projection a b) = attempt_key b"
  "attempt_key a = attempt_key b \<Longrightarrow> attempt_key (merge_finished a b) = attempt_key b"
  by (simp_all add: merge_projection_def merge_finished_def attempt_key_def)

lemma schema_ok_put_attempt:
  assumes "schema_ok db" and "qa_item_id row \<in> qi_id ` set (db_items db)"
    and "\<And>a b. attempt_key a = attempt_key b \<Longrightarrow> attempt_key (merge a b) = attempt_key b"
  shows "schema_ok (put_attempt merge row db)"
proof -
  have "distinct (map attempt_key (upsert_by attempt_key merge row (db_attempts db)))"
    using assms(1,3) by (intro distinct_upsert_by) (auto simp: schema_parts)
  moreover have "qa_item_id a \<in> qi_id ` set (db_items db)"
    if "a \<in> set (upsert_by attempt_key merge row (db_attempts db))" for a
  proof -
    have old: "qa_item_id b \<in> qi_id ` set (db_items db)" if "b \<in> set (db_attempts db)" for b
      using assms(1) that by (simp add: schema_parts list_all_iff)
    from set_upsert_by [OF that] show ?thesis
    proof (elim disjE bexE conjE)
      fix r assume "attempt_key r = attempt_key row" "a = merge r row"
      then have "attempt_key a = attempt_key row" using assms(3) by simp
      then show ?thesis using assms(2) by (simp add: attempt_key_def)
    qed (use assms(2) old in auto)
  qed
  ultimately show ?thesis
    using assms(1) by (simp add: put_attempt_def schema_parts list_all_iff)
qed

lemma find_put_attempt:
  assumes "\<And>a b. attempt_key a = attempt_key b \<Longrightarrow> attempt_key (merge a b) = attempt_key b"
  shows "find_attempt r i n (put_attempt merge row db) =
    (if (r, i, n) = attempt_key row
     then Some (case find_attempt r i n db of None \<Rightarrow> row | Some old \<Rightarrow> merge old row)
     else find_attempt r i n db)"
  unfolding find_attempt_def put_attempt_def by (simp add: find_upsert_by assms)

lemma put_attempt_other [simp]:
  "db_items (put_attempt merge row db) = db_items db" "db_runs (put_attempt merge row db) = db_runs db"
  "db_leases (put_attempt merge row db) = db_leases db" "db_tabs (put_attempt merge row db) = db_tabs db"
  "db_agents (put_attempt merge row db) = db_agents db" "db_tasks (put_attempt merge row db) = db_tasks db"
  "find_item r i (put_attempt merge row db) = find_item r i db"
  "find_run r (put_attempt merge row db) = find_run r db"
  by (simp_all add: put_attempt_def)

lemma attempt_projection_key:
  "attempt_key (attempt_projection E i db) = (qi_run_id i, qi_id i, queue_item_semantic_iteration i)"
  by (simp add: attempt_projection_def attempt_key_def)

lemma finished_attempt_key:
  "attempt_key (finished_attempt E i s m a db) = (qi_run_id i, qi_id i, queue_item_semantic_iteration i)"
  by (simp add: finished_attempt_def attempt_key_def)

lemma run_sync_projection:
  assumes "schema_ok db" and "qi_id i \<in> qi_id ` set (db_items db)"
  shows "sync_web_queue_item_attempt_projection E i db =
    (Inr (), put_attempt merge_projection (attempt_projection E i db) db)"
proof -
  have "schema_ok (put_attempt merge_projection (attempt_projection E i db) db)"
    using assms by (intro schema_ok_put_attempt merge_keys) (simp_all add: attempt_projection_def)
  then show ?thesis
    by (simp add: sync_web_queue_item_attempt_projection_def run_bnd run_sql_exec put_attempt_def)
qed

definition project :: "store_env \<Rightarrow> string \<Rightarrow> string \<Rightarrow> qdb \<Rightarrow> qdb" where
  "project E r a db =
     (case find_item r a db of
        None \<Rightarrow> db
      | Some i \<Rightarrow> put_attempt merge_projection (attempt_projection E i db) db)"

lemma find_item_id_known: "find_item r a db = Some i \<Longrightarrow> qi_id i = a \<and> qi_run_id i = r \<and> a \<in> qi_id ` set (db_items db)"
  by (auto simp: find_item_def dest!: find_Some_set)

lemma run_sync_for_key [store_simps]:
  assumes "schema_ok db"
  shows "sync_web_queue_item_attempt_for_key E r a db = (Inr (), project E r a db)"
  using assms run_sync_projection [OF assms]
  by (auto simp: sync_web_queue_item_attempt_for_key_def project_def dest: find_item_id_known split: option.split)

lemma schema_ok_project: "schema_ok db \<Longrightarrow> schema_ok (project E r a db)"
  unfolding project_def
  by (auto split: option.split intro!: schema_ok_put_attempt merge_keys
      simp: attempt_projection_def dest!: find_item_id_known)

lemma project_other [simp]:
  "db_items (project E r a db) = db_items db" "db_runs (project E r a db) = db_runs db"
  "db_leases (project E r a db) = db_leases db" "db_tabs (project E r a db) = db_tabs db"
  "db_tasks (project E r a db) = db_tasks db" "db_agents (project E r a db) = db_agents db"
  "find_item r' b (project E r a db) = find_item r' b db"
  "find_run r' (project E r a db) = find_run r' db"
  by (simp_all add: project_def split: option.split)

definition with_item :: "string \<Rightarrow> string \<Rightarrow> (queue_item_row \<Rightarrow> queue_item_row) \<Rightarrow> qdb \<Rightarrow> qdb" where
  "with_item r a f db = db\<lparr>db_items := update_where (item_key r a) f (db_items db)\<rparr>"

lemma schema_ok_with_item:
  "schema_ok db \<Longrightarrow> (\<And>i. item_keys (f i) = item_keys i) \<Longrightarrow> schema_ok (with_item r a f db)"
  by (simp add: with_item_def schema_ok_items_cong map_update_where)

lemma find_with_item:
  "(\<And>i. item_keys (f i) = item_keys i) \<Longrightarrow>
   find_item r' b (with_item r a f db) =
     (if r' = r \<and> b = a then map_option f (find_item r' b db) else find_item r' b db)"
  unfolding with_item_def
  by (subst find_item_update) (auto simp: item_key_def map_option_case dest: find_item_id_known split: option.split)

lemma with_item_other [simp]:
  "db_runs (with_item r a f db) = db_runs db" "db_leases (with_item r a f db) = db_leases db"
  "db_tabs (with_item r a f db) = db_tabs db" "db_attempts (with_item r a f db) = db_attempts db"
  "db_tasks (with_item r a f db) = db_tasks db" "db_agents (with_item r a f db) = db_agents db"
  "find_run r' (with_item r a f db) = find_run r' db"
  by (simp_all add: with_item_def)

lemma run_item_write:
  assumes "schema_ok db" and "\<And>i. item_keys (f i) = item_keys i"
  shows "seq (update_items ctx (item_key r a) f) (sync_web_queue_item_attempt_for_key E r a) db =
    (Inr (), project E r a (with_item r a f db))"
  using assms schema_ok_with_item [of db f r a]
  by (simp add: bnd_update_items run_sync_for_key with_item_def)

lemmas item_updates = update_web_queue_item_def reset_web_queue_item_for_relaunch_def
  schedule_web_queue_item_relaunch_def set_web_queue_item_agent_def

lemma run_update_item [store_simps]:
  "schema_ok db \<Longrightarrow>
   update_web_queue_item E r a status message agent_id attempts next db =
     (Inr (), project E r a (with_item r a
        (\<lambda>i. i\<lparr>qi_status := stored_item_status status, qi_message := message,
               qi_agent_id := coalesce agent_id (qi_agent_id i), qi_attempts := attempts,
               qi_next_attempt_at := next, qi_updated_at := se_now E\<rparr>) db))"
  "schema_ok db \<Longrightarrow>
   reset_web_queue_item_for_relaunch E r a message attempts db =
     (Inr (), project E r a (with_item r a
        (\<lambda>i. i\<lparr>qi_status := ItemPending, qi_message := message, qi_agent_id := None,
               qi_attempts := attempts, qi_next_attempt_at := None, qi_updated_at := se_now E\<rparr>) db))"
  "schema_ok db \<Longrightarrow>
   schedule_web_queue_item_relaunch E r a message attempts nx db =
     (Inr (), project E r a (with_item r a
        (\<lambda>i. i\<lparr>qi_status := ItemWaiting, qi_message := message, qi_agent_id := None,
               qi_attempts := attempts, qi_next_attempt_at := Some nx,
               qi_updated_at := se_now E\<rparr>) db))"
  "schema_ok db \<Longrightarrow>
   set_web_queue_item_agent E r a agent db =
     (Inr (), project E r a (with_item r a
        (\<lambda>i. i\<lparr>qi_agent_id := Some agent, qi_updated_at := se_now E\<rparr>) db))"
  by (simp_all add: item_updates run_item_write item_keys_def)

lemma run_set_item [store_simps]:
  "schema_ok db \<Longrightarrow>
   set_web_queue_item_agent_command E r a command db =
     (Inr (), with_item r a (\<lambda>i. i\<lparr>qi_agent_command := command, qi_updated_at := se_now E\<rparr>) db)"
  "schema_ok db \<Longrightarrow>
   set_web_queue_item_remote_proxy E r a proxy db =
     (Inr (), with_item r a (\<lambda>i. i\<lparr>qi_remote_proxy := Some proxy, qi_updated_at := se_now E\<rparr>) db)"
  by (simp_all add: set_web_queue_item_agent_command_def set_web_queue_item_remote_proxy_def
      bnd_update_items item_keys_def with_item_def)

definition finish_db :: "store_env \<Rightarrow> string \<Rightarrow> string \<Rightarrow> string \<Rightarrow> string \<Rightarrow> qdb \<Rightarrow> qdb" where
  "finish_db E r a status m db =
     (case find_item r a db of
        None \<Rightarrow> db
      | Some i \<Rightarrow> put_attempt merge_finished (finished_attempt E i status m (qi_agent_id i) db) db)"

lemma finish_db_other [simp]:
  "db_items (finish_db E r a s m db) = db_items db" "db_runs (finish_db E r a s m db) = db_runs db"
  "db_leases (finish_db E r a s m db) = db_leases db" "db_tabs (finish_db E r a s m db) = db_tabs db"
  "db_tasks (finish_db E r a s m db) = db_tasks db" "db_agents (finish_db E r a s m db) = db_agents db"
  "find_item r' b (finish_db E r a s m db) = find_item r' b db"
  "find_run r' (finish_db E r a s m db) = find_run r' db"
  by (simp_all add: finish_db_def split: option.split)

lemma schema_ok_finish_db: "schema_ok db \<Longrightarrow> schema_ok (finish_db E r a s m db)"
  unfolding finish_db_def
  by (auto split: option.split intro!: schema_ok_put_attempt merge_keys
      simp: finished_attempt_def dest!: find_item_id_known)

lemma run_schedule_recovery [store_simps]:
  assumes ok: "schema_ok db"
  shows "schedule_web_queue_item_recovery E r a message m n db =
    (Inr (), project E r a (with_item r a
       (\<lambda>i. i\<lparr>qi_status := ItemPending, qi_message := message, qi_agent_id := None,
              qi_recovery_attempts := n, qi_next_attempt_at := None, qi_updated_at := se_now E\<rparr>)
       (finish_db E r a ''failed'' m db)))"
proof -
  have "(case find_item r a db of None \<Rightarrow> ret ()
      | Some i \<Rightarrow> finish_web_queue_item_attempt E i ''failed'' m (qi_agent_id i)) db =
      (Inr (), finish_db E r a ''failed'' m db)"
    using schema_ok_finish_db [OF ok, of E r a "''failed''" m]
    by (auto simp: finish_db_def finish_web_queue_item_attempt_def run_bnd run_sql_exec put_attempt_def
        split: option.splits)
  then have "seq (bnd (query (find_item r a)) (\<lambda>item. case item of None \<Rightarrow> ret ()
      | Some i \<Rightarrow> finish_web_queue_item_attempt E i ''failed'' m (qi_agent_id i))) k db =
      k (finish_db E r a ''failed'' m db)" for k :: "(qdb, unit) prog"
    by (simp add: bnd_assoc) (simp add: run_bnd)
  then show ?thesis
    by (simp add: schedule_web_queue_item_recovery_def run_item_write schema_ok_finish_db [OF ok]
        item_keys_def)
qed

lemma find_attempt_project:
  assumes "find_item r a db = Some i"
  shows "find_attempt r a n (project E r a db) =
    (if n = queue_item_semantic_iteration i
     then Some (case find_attempt r a n db of
                  None \<Rightarrow> attempt_projection E i db
                | Some old \<Rightarrow> merge_projection old (attempt_projection E i db))
     else find_attempt r a n db)"
  using assms find_item_id_known [OF assms]
  by (auto simp: project_def find_put_attempt merge_keys attempt_projection_key)

lemma find_attempt_project_other:
  "(r', b) \<noteq> (r, a) \<Longrightarrow> find_attempt r' b n (project E r a db) = find_attempt r' b n db"
  unfolding project_def
  by (auto simp: find_put_attempt merge_keys attempt_projection_key dest: find_item_id_known split: option.split)

lemma find_attempt_finish:
  assumes "find_item r a db = Some i"
  shows "find_attempt r a n (finish_db E r a s m db) =
    (if n = queue_item_semantic_iteration i
     then Some (case find_attempt r a n db of
                  None \<Rightarrow> finished_attempt E i s m (qi_agent_id i) db
                | Some old \<Rightarrow> merge_finished old (finished_attempt E i s m (qi_agent_id i) db))
     else find_attempt r a n db)"
  using assms find_item_id_known [OF assms]
  by (auto simp: finish_db_def find_put_attempt merge_keys finished_attempt_key)

lemma find_attempt_with_item [simp]: "find_attempt r' b n (with_item r a f db) = find_attempt r' b n db"
  by (simp add: find_attempt_def)

lemma projected_row:
  assumes "find_item r a db = Some i"
  obtains x where "find_attempt r a (queue_item_semantic_iteration i) (project E r a db) = Some x"
    and "qa_status x = item_status_as_str (qi_status i)"
    and "qa_failure_message x = item_failure_message i"
    and "item_is_terminal (qi_status i) \<Longrightarrow> qa_finished_at x = Some (qi_updated_at i)"
    and "qa_task_record_id x = Some (''task/'' @ qi_slug i)"
    and "qi_agent_id i \<noteq> None \<Longrightarrow> qa_agent_id x = qi_agent_id i"
proof (cases "find_attempt r a (queue_item_semantic_iteration i) db")
  case None
  then show thesis
    by (intro that [of "attempt_projection E i db"])
      (simp_all add: find_attempt_project [OF assms] attempt_projection_def queue_item_task_record_id_def)
next
  case (Some old)
  then show thesis
    by (intro that [of "merge_projection old (attempt_projection E i db)"])
      (auto simp: find_attempt_project [OF assms] attempt_projection_def merge_projection_def
        queue_item_task_record_id_def coalesce_def)
qed

section \<open>Properties of the ledger\<close>

text \<open>
  An item update changes one row and projects it into the ledger. Updating an existing item
  always succeeds; the item takes the given status, message, attempts and retry time, keeps its
  agent when none is given, and keeps everything else; no other item and no lease changes. The
  ledger row of the item's current semantic iteration then shows the new status, a failure message
  exactly when the item failed or is blocked with a non-blank message, and the finishing time of a
  terminal status; the rows of every other iteration and of every other item stay as they were.
\<close>

theorem item_update_and_ledger:
  assumes ok: "schema_ok db" and i: "find_item r a db = Some i"
    and i': "i' = i\<lparr>qi_status := stored_item_status status, qi_message := message,
               qi_agent_id := coalesce agent (qi_agent_id i), qi_attempts := attempts,
               qi_next_attempt_at := retry_at, qi_updated_at := se_now E\<rparr>"
  shows "\<exists>db' x. update_web_queue_item E r a status message agent attempts retry_at db = (Inr (), db') \<and>
    schema_ok db' \<and> find_item r a db' = Some i' \<and>
    (\<forall>r' b. (r', b) \<noteq> (r, a) \<longrightarrow> find_item r' b db' = find_item r' b db) \<and>
    db_leases db' = db_leases db \<and> db_runs db' = db_runs db \<and>
    find_attempt r a (queue_item_semantic_iteration i) db' = Some x \<and>
    qa_status x = item_status_as_str (qi_status i') \<and> qa_failure_message x = item_failure_message i' \<and>
    (item_is_terminal (qi_status i') \<longrightarrow> qa_finished_at x = Some (se_now E)) \<and>
    (\<forall>r' b n. (r', b, n) \<noteq> (r, a, queue_item_semantic_iteration i) \<longrightarrow>
       find_attempt r' b n db' = find_attempt r' b n db)"
proof -
  let ?f = "\<lambda>i. i\<lparr>qi_status := stored_item_status status, qi_message := message,
    qi_agent_id := coalesce agent (qi_agent_id i), qi_attempts := attempts,
    qi_next_attempt_at := retry_at, qi_updated_at := se_now E\<rparr>"
  let ?w = "with_item r a ?f db"
  have keys: "item_keys (?f j) = item_keys j" for j by (simp add: item_keys_def)
  have iw: "find_item r a ?w = Some i'" using i i' by (subst find_with_item [OF keys]) simp
  have iter: "queue_item_semantic_iteration i' = queue_item_semantic_iteration i"
    using i' by (simp add: queue_item_semantic_iteration_def)
  obtain x where x: "find_attempt r a (queue_item_semantic_iteration i') (project E r a ?w) = Some x"
    "qa_status x = item_status_as_str (qi_status i')" "qa_failure_message x = item_failure_message i'"
    "item_is_terminal (qi_status i') \<Longrightarrow> qa_finished_at x = Some (qi_updated_at i')"
    by (rule projected_row [OF iw, of E]) blast
  have rest: "find_attempt r' b n (project E r a ?w) = find_attempt r' b n db"
    if "(r', b, n) \<noteq> (r, a, queue_item_semantic_iteration i)" for r' b n
    using that find_attempt_project [OF iw, of n E] find_attempt_project_other [of r' b r a n E ?w] iter
    by (cases "(r', b) = (r, a)") auto
  show ?thesis
    by (rule exI [of _ "project E r a ?w"], rule exI [of _ x])
      (use x rest iw iter run_update_item(1) [OF ok] i' schema_ok_project [OF schema_ok_with_item [OF ok keys]]
        find_with_item [OF keys] in \<open>auto simp: item_keys_def\<close>)
qed

text \<open>
  C6. Scheduling a semantic recovery closes one iteration and opens the next. For an item in
  iteration \<open>n\<close>, the ledger row of iteration \<open>n\<close> becomes \<open>failed\<close> with the failure message and the
  current time as finishing time, the item goes back to \<open>pending\<close> with no agent and no retry time,
  and the ledger shows iteration \<open>n + 1\<close> as \<open>pending\<close>.
\<close>

theorem recovery_opens_next_iteration:
  assumes ok: "schema_ok db" and i: "find_item r a db = Some i"
    and n: "n = qi_recovery_attempts i + 1" and range: "0 \<le> qi_recovery_attempts i" "n < i64_max"
  shows "\<exists>db' x y. schedule_web_queue_item_recovery E r a message m n db = (Inr (), db') \<and> schema_ok db' \<and>
    (\<exists>j. find_item r a db' = Some j \<and> qi_status j = ItemPending \<and> qi_agent_id j = None \<and>
         qi_next_attempt_at j = None \<and> qi_recovery_attempts j = n \<and> qi_attempts j = qi_attempts i \<and>
         queue_item_semantic_iteration j = n + 1) \<and>
    find_attempt r a n db' = Some x \<and> qa_status x = ''failed'' \<and> qa_failure_message x = Some m \<and>
    qa_finished_at x = Some (se_now E) \<and>
    find_attempt r a (n + 1) db' = Some y \<and> qa_status y = ''pending''"
proof -
  let ?f = "\<lambda>i. i\<lparr>qi_status := ItemPending, qi_message := message, qi_agent_id := None,
    qi_recovery_attempts := n, qi_next_attempt_at := None, qi_updated_at := se_now E\<rparr>"
  let ?fin = "finish_db E r a ''failed'' m db"
  let ?w = "with_item r a ?f ?fin"
  let ?db' = "project E r a ?w"
  have keys: "item_keys (?f j) = item_keys j" for j by (simp add: item_keys_def)
  have iw: "find_item r a ?w = Some (?f i)" using i by (subst find_with_item [OF keys]) simp
  have iter_i: "queue_item_semantic_iteration i = n"
    using n range by (simp add: queue_item_semantic_iteration_def sat_add_i64_def i64_max_def i64_min_def)
  have iter_j: "queue_item_semantic_iteration (?f i) = n + 1"
    using n range by (simp add: queue_item_semantic_iteration_def sat_add_i64_def i64_max_def i64_min_def)
  obtain x where x: "find_attempt r a n ?fin = Some x" "qa_status x = ''failed''"
    "qa_failure_message x = Some m" "qa_finished_at x = Some (se_now E)"
    using find_attempt_finish [OF i, of n E "''failed''" m] iter_i
    by (cases "find_attempt r a n db") (auto simp: finished_attempt_def merge_finished_def)
  then have "find_attempt r a n ?db' = Some x"
    using find_attempt_project [OF iw, of n E] iter_j by simp
  moreover obtain y where "find_attempt r a (n + 1) ?db' = Some y" "qa_status y = ''pending''"
    by (rule projected_row [OF iw, of E]) (simp_all only: iter_j, simp)
  moreover have "find_item r a ?db' = Some (?f i)" using iw by simp
  moreover have "schema_ok ?db'"
    using schema_ok_project [OF schema_ok_with_item [OF schema_ok_finish_db [OF ok] keys]] .
  ultimately show ?thesis
    using x iter_j run_schedule_recovery [OF ok, of E r a message m n]
    by (intro exI [of _ ?db'] exI [of _ x] exI [of _ y]) simp
qed

section \<open>Sample database\<close>

definition sample_run :: queue_run_row where
  "sample_run = \<lparr>qr_id = ''r1'', qr_status = RunRunning, qr_execution_mode = ModeGraph,
     qr_execution_host = HostLocal, qr_selected_agent_command = ''c1'', qr_remote_launcher = None,
     qr_local_proxy = None, qr_remote_proxy = None, qr_selected_repo_root = None,
     qr_selected_repo_name = None, qr_track = ''t'', qr_current_index = 0,
     qr_stop_requested = False, qr_message = [], qr_created_at = 1, qr_updated_at = 1\<rparr>"

definition sample_item :: "string \<Rightarrow> int \<Rightarrow> queue_item_row" where
  "sample_item a p = \<lparr>qi_id = a, qi_run_id = ''r1'', qi_position = p, qi_depends_on = [],
     qi_prompt = ''do'', qi_slug = ''slug-'' @ a, qi_repo_root = None, qi_repo_name = None,
     qi_execution_host = HostLocal, qi_agent_command = ''c1'', qi_task_class = ClassMid,
     qi_remote_launcher = None, qi_local_proxy = None, qi_remote_proxy = None,
     qi_agent_id = None, qi_status = ItemPending, qi_message = [], qi_attempts = 0,
     qi_recovery_attempts = 0, qi_next_attempt_at = None, qi_started_at = 1, qi_updated_at = 1\<rparr>"

definition sample_db :: qdb where
  "sample_db = empty_db\<lparr>
     db_runs := [sample_run],
     db_items := [sample_item ''a'' 0, sample_item ''b'' 1],
     db_tabs := [\<lparr>qt_id = ''default'', qt_label = ''Task Queue'', qt_run_id = Some ''r1'',
       qt_is_default = True, qt_active = True, qt_created_at = 1, qt_updated_at = 1\<rparr>]\<rparr>"

definition sample_env :: store_env where
  "sample_env = \<lparr>se_now = 50, se_parse_json = (\<lambda>_. None)\<rparr>"

lemma sample_db_inv: "tabs_inv sample_db"
  by (simp add: sample_db_def sample_run_def sample_item_def empty_db_def schema_parts tabs_inv_def
      tabs_wf_def tab_run_ok_def)

lemma sample_db_ok: "schema_ok sample_db"
  using sample_db_inv by (simp add: tabs_inv_def)

lemma sample_db_find:
  "find_item ''r1'' ''a'' sample_db = Some (sample_item ''a'' 0)"
  "find_item ''r1'' ''b'' sample_db = Some (sample_item ''b'' 1)"
  "find_run ''r1'' sample_db = Some sample_run"
  by (simp_all add: sample_db_def sample_run_def sample_item_def find_item_def find_run_def)


theorem item_update_and_ledger_witness:
  "\<exists>db' x. update_web_queue_item sample_env ''r1'' ''a'' ItemFailed ''boom'' None 1 None sample_db = (Inr (), db') \<and>
     find_attempt ''r1'' ''a'' 1 db' = Some x \<and> qa_status x = ''failed''"
proof -
  have "queue_item_semantic_iteration (sample_item ''a'' 0) = 1"
    by (simp add: queue_item_semantic_iteration_def sample_item_def sat_add_i64_def i64_max_def i64_min_def)
  then show ?thesis
    using item_update_and_ledger [OF sample_db_ok sample_db_find(1) refl, where status = ItemFailed
        and message = "''boom''" and agent = None and attempts = 1 and retry_at = None and E = sample_env]
    by auto
qed

theorem recovery_opens_next_iteration_witness:
  "\<exists>db' y. schedule_web_queue_item_recovery sample_env ''r1'' ''a'' ''again'' ''boom'' 1 sample_db = (Inr (), db') \<and>
     find_attempt ''r1'' ''a'' 2 db' = Some y \<and> qa_status y = ''pending''"
proof -
  have "1 = qi_recovery_attempts (sample_item ''a'' 0) + 1" "0 \<le> qi_recovery_attempts (sample_item ''a'' 0)"
    "(1 :: int) < i64_max"
    by (simp_all add: sample_item_def i64_max_def)
  from recovery_opens_next_iteration [OF sample_db_ok sample_db_find(1) this, of sample_env "''again''" "''boom''"]
  show ?thesis by auto
qed

section \<open>Stop, continue and wake\<close>

definition restored_item :: "store_env \<Rightarrow> queue_item_row \<Rightarrow> queue_item_row" where
  "restored_item E i = i\<lparr>qi_status := ItemPending, qi_message := ''pending after queue continue'',
     qi_agent_id := None, qi_updated_at := se_now E\<rparr>"

lemma update_where_cong_find:
  "find (\<lambda>r. k r = a) rows = Some x \<Longrightarrow> x \<in> set rows \<and> k x = a"
  by (auto dest: find_Some_set)

lemma run_continue:
  assumes ok: "schema_ok db"
  shows "continue_web_queue_run E r db =
    (if \<exists>x. find_run r db = Some x \<and> qr_status x = RunStopped
     then (Inr (), db\<lparr>
       db_runs := update_where (\<lambda>x. qr_id x = r \<and> qr_status x = RunStopped) (continued_run E) (db_runs db),
       db_items := update_where (\<lambda>i. qi_run_id i = r \<and> qi_status i = ItemStopped \<and> qi_execution_host i = HostLocal)
         (restored_item E) (db_items db)\<rparr>)
     else (Inl (Bail (''queue is not stopped: '' @ r)), db))"
proof -
  let ?p = "\<lambda>x. qr_id x = r \<and> qr_status x = RunStopped"
  let ?d = "db\<lparr>db_runs := update_where ?p (continued_run E) (db_runs db)\<rparr>"
  have "count_where ?p (db_runs db) = 0 \<longleftrightarrow> \<not> (\<exists>x. find_run r db = Some x \<and> qr_status x = RunStopped)"
    using find_run_Some_iff [OF ok] by (auto simp: count_where_0)
  moreover have "schema_ok ?d"
    using ok by (subst schema_ok_runs_cong) (simp_all add: map_update_where continued_run_def)
  ultimately show ?thesis
    using ok by (simp add: continue_web_queue_run_def run_transaction bnd_update_runs continued_run_def
        bnd_update_items item_keys_def restored_item_def [abs_def])
qed

text \<open>
  Stopping and continuing a run. A stop request on a running, waiting or starting run sets its
  stop flag and status \<open>stopping\<close>, and leaves any other run and every item alone. Continuing
  succeeds exactly for a stopped run: it clears the flag, makes the run \<open>running\<close>, and returns
  exactly the stopped local items of that run to \<open>pending\<close> without an agent, leaving remote items
  and items of other runs as they are; otherwise it fails and nothing changes. So a run that was
  asked to stop cannot be continued before it has stopped.
\<close>

theorem stop_and_continue:
  assumes ok: "schema_ok db"
  shows "(\<exists>d1. request_web_queue_stop E (Some r) db = (Inr (), d1) \<and> db_items d1 = db_items db \<and>
      (\<forall>s. find_run s d1 = map_option (\<lambda>x. if s = r \<and> run_wakeable x
         then x\<lparr>qr_stop_requested := True, qr_status := RunStopping, qr_message := ''stop requested'',
                qr_updated_at := se_now E\<rparr> else x) (find_run s db)) \<and>
      (\<forall>x. find_run r db = Some x \<longrightarrow> run_wakeable x \<longrightarrow>
         web_queue_stop_requested r d1 \<and> fst (continue_web_queue_run E r d1) \<noteq> Inr ())) \<and>
    (case continue_web_queue_run E r db of
       (Inl e, d2) \<Rightarrow> d2 = db \<and> (\<forall>x. find_run r db = Some x \<longrightarrow> qr_status x \<noteq> RunStopped)
     | (Inr _, d2) \<Rightarrow> schema_ok d2 \<and> \<not> web_queue_stop_requested r d2 \<and>
         (\<exists>x. find_run r db = Some x \<and> qr_status x = RunStopped \<and> find_run r d2 = Some (continued_run E x)) \<and>
         (\<forall>s b. find_item s b d2 = map_option (\<lambda>i. if s = r \<and> qi_status i = ItemStopped \<and>
            qi_execution_host i = HostLocal then restored_item E i else i) (find_item s b db)))"
    (is "?stop \<and> ?continue")
proof
  let ?stopped = "\<lambda>x. x\<lparr>qr_stop_requested := True, qr_status := RunStopping,
    qr_message := ''stop requested'', qr_updated_at := se_now E\<rparr>"
  let ?d1 = "db\<lparr>db_runs := update_where (\<lambda>x. qr_id x = r \<and> run_wakeable x) ?stopped (db_runs db)\<rparr>"
  have run1: "request_web_queue_stop E (Some r) db = (Inr (), ?d1)"
    using ok by (simp add: request_web_queue_stop_def bnd_update_runs)
  have ok1: "schema_ok ?d1" using ok by (subst schema_ok_runs_cong) (simp_all add: map_update_where)
  have find1: "find_run s ?d1 = map_option (\<lambda>x. if s = r \<and> run_wakeable x then ?stopped x else x) (find_run s db)" for s
    by (subst find_run_update) (auto simp: find_run_def map_option_case dest: find_Some_set split: option.split)
  have refused: "fst (continue_web_queue_run E r ?d1) \<noteq> Inr ()" if "find_run r db = Some x" "run_wakeable x" for x
    using that find1 [of r] run_continue [OF ok1, of E r] by (simp add: run_wakeable_def)
  have flagged: "web_queue_stop_requested r ?d1" if "find_run r db = Some x" "run_wakeable x" for x
    using that find1 [of r] by (simp add: web_queue_stop_requested_def)
  have "db_items ?d1 = db_items db" by simp
  then show ?stop using run1 find1 refused flagged by blast
  show ?continue
  proof (cases "\<exists>x. find_run r db = Some x \<and> qr_status x = RunStopped")
    case False
    then show ?thesis unfolding run_continue [OF ok] if_not_P [OF False] prod.case sum.case by blast
  next
    case True
    then obtain x where x: "find_run r db = Some x" "qr_status x = RunStopped" by blast
    let ?dr = "db\<lparr>db_runs := update_where (\<lambda>x. qr_id x = r \<and> qr_status x = RunStopped) (continued_run E) (db_runs db)\<rparr>"
    let ?d2 = "?dr\<lparr>db_items := update_where (\<lambda>i. qi_run_id i = r \<and> qi_status i = ItemStopped \<and>
      qi_execution_host i = HostLocal) (restored_item E) (db_items ?dr)\<rparr>"
    have okr: "schema_ok ?dr"
      using ok by (subst schema_ok_runs_cong) (simp_all add: map_update_where continued_run_def)
    then have ok2: "schema_ok ?d2"
      by (subst schema_ok_items_cong) (simp_all add: map_update_where restored_item_def item_keys_def)
    have id: "qr_id x = r" using x find_run_Some_iff [OF ok] by simp
    have fr: "find_run r ?dr = Some (continued_run E x)"
      using x id by (subst find_run_update) (simp_all add: continued_run_def)
    have fi: "find_item s b ?d2 = map_option (\<lambda>i. if s = r \<and> qi_status i = ItemStopped \<and>
        qi_execution_host i = HostLocal then restored_item E i else i) (find_item s b db)" for s b
    proof -
      have "find_item s b ?d2 = map_option (\<lambda>i. if qi_run_id i = r \<and> qi_status i = ItemStopped \<and>
        qi_execution_host i = HostLocal then restored_item E i else i) (find_item s b ?dr)"
        by (rule find_item_update) (simp add: restored_item_def item_keys_def)
      then show ?thesis
        using find_item_id_known [of s b db] by (cases "find_item s b db") simp_all
    qed
    have res: "continue_web_queue_run E r db = (Inr (), ?d2)"
      unfolding run_continue [OF ok] if_P [OF True] by simp
    have "\<not> web_queue_stop_requested r ?d2"
      using fr by (simp add: web_queue_stop_requested_def continued_run_def)
    moreover have "find_run r ?d2 = Some (continued_run E x)"
      unfolding find_other_tables by (rule fr)
    ultimately show ?thesis
      unfolding res prod.case sum.case
      by (intro conjI allI exI [of _ x]) (assumption | rule ok2 x fi)+
  qed
qed

theorem stop_and_continue_witness:
  "\<exists>d1. request_web_queue_stop sample_env (Some ''r1'') sample_db = (Inr (), d1) \<and>
     web_queue_stop_requested ''r1'' d1 \<and> fst (continue_web_queue_run sample_env ''r1'' d1) \<noteq> Inr ()"
  using stop_and_continue [OF sample_db_ok, of sample_env "''r1''"] sample_db_find(3)
  by (auto simp: run_wakeable_def sample_run_def)

section \<open>Appending and replacing items\<close>

definition stored_item :: "queue_item_row \<Rightarrow> queue_item_row" where
  "stored_item i = i\<lparr>qi_status := stored_item_status (qi_status i),
     qi_execution_host := stored_host (qi_execution_host i)\<rparr>"

definition insert_with_attempt :: "store_env \<Rightarrow> string \<Rightarrow> queue_item_row \<Rightarrow> (qdb, unit) prog" where
  "insert_with_attempt E ctx i = seq (insert_item ctx i) (sync_web_queue_item_attempt_projection E i)"

lemma run_insert_with_attempt:
  assumes "insert_with_attempt E ctx i db = (res, db')" and "schema_ok db"
  shows "(case res of
      Inl e \<Rightarrow> db' = db \<and> \<not> schema_ok (db\<lparr>db_items := db_items db @ [stored_item i]\<rparr>)
    | Inr u \<Rightarrow> schema_ok db' \<and> db_items db' = db_items db @ [stored_item i] \<and> db_runs db' = db_runs db \<and>
        db_tabs db' = db_tabs db \<and> db_leases db' = db_leases db \<and>
        (\<exists>x. find_attempt (qi_run_id i) (qi_id i) (queue_item_semantic_iteration i) db' = Some x))"
proof (cases "schema_ok (db\<lparr>db_items := db_items db @ [stored_item i]\<rparr>)")
  case False
  then have "insert_item ctx i db = (Inl (Constraint ctx), db)"
    by (simp add: insert_item_def run_sql_exec stored_item_def)
  then show ?thesis using assms False by (auto simp: insert_with_attempt_def run_bnd)
next
  case True
  let ?d = "db\<lparr>db_items := db_items db @ [stored_item i]\<rparr>"
  have ins: "insert_item ctx i db = (Inr 1, ?d)"
    using True by (simp add: insert_item_def run_sql_exec stored_item_def)
  have "qi_id i \<in> qi_id ` set (db_items ?d)" by (simp add: stored_item_def)
  from run_sync_projection [OF True this, of E]
  have "db' = put_attempt merge_projection (attempt_projection E i ?d) ?d" "res = Inr ()"
    using assms(1) ins by (simp_all add: insert_with_attempt_def run_bnd)
  moreover have "schema_ok (put_attempt merge_projection (attempt_projection E i ?d) ?d)"
    using True by (intro schema_ok_put_attempt merge_keys)
      (simp_all add: attempt_projection_def stored_item_def)
  ultimately show ?thesis
    by (simp add: find_put_attempt merge_keys attempt_projection_key)
qed

lemma run_insert_all:
  assumes "for_each (insert_with_attempt E ctx) items db = (Inr u, db')" and "schema_ok db"
  shows "schema_ok db' \<and> db_items db' = db_items db @ map stored_item items \<and> db_runs db' = db_runs db \<and>
    db_tabs db' = db_tabs db \<and> db_leases db' = db_leases db"
  using assms
proof (induction items arbitrary: db)
  case Nil
  then show ?case by simp
next
  case (Cons i items)
  then obtain w d where d: "insert_with_attempt E ctx i db = (Inr w, d)"
    "for_each (insert_with_attempt E ctx) items d = (Inr u, db')"
    by (auto elim: bnd_InrE)
  with run_insert_with_attempt [OF d(1) Cons.prems(2)] Cons.IH [OF d(2)] show ?case by auto
qed

lemma append_effect:
  assumes ok: "schema_ok db" and ne: "items \<noteq> []"
  shows "case append_web_queue_items E r items db of
      (Inl e, db') \<Rightarrow> db' = db
    | (Inr _, db') \<Rightarrow> find_run r db \<noteq> None \<and> schema_ok db' \<and>
        db_items db' = db_items db @ map stored_item items \<and> db_tabs db' = db_tabs db \<and>
        db_leases db' = db_leases db \<and> map qr_status (db_runs db') = map qr_status (db_runs db)"
proof (cases "append_web_queue_items E r items db")
  case (Pair res db')
  let ?upd = "\<lambda>x. x\<lparr>qr_message := ''appended '' @ show_nat (length items) @ '' queue item(s)'',
    qr_updated_at := se_now E\<rparr>"
  let ?body = "bnd (query (find_run r)) (\<lambda>run.
     if run = None then throw (Bail (''unknown queue run: '' @ r))
     else seq (for_each (insert_with_attempt E ''failed to append web queue item'') items)
            (seq (update_runs ''failed to update web queue run after append'' (\<lambda>x. qr_id x = r) ?upd)
              (ret ())))"
  have tr: "append_web_queue_items E r items db = transaction ?body db"
    using ne unfolding append_web_queue_items_def insert_with_attempt_def [abs_def] by simp
  show ?thesis
  proof (cases res)
    case (Inl e)
    then have "transaction ?body db = (Inl e, db')" using Pair tr by simp
    from transaction_Inl [OF this] show ?thesis using Pair Inl by simp
  next
    case (Inr u)
    then have "transaction ?body db = (Inr u, db')" using Pair tr by simp
    then have body: "?body db = (Inr u, db')" by (rule transaction_InrD)
    then have run: "find_run r db \<noteq> None" by (auto split: if_splits)
    with body obtain w d where d: "for_each (insert_with_attempt E ''failed to append web queue item'') items db = (Inr w, d)"
      "seq (update_runs ''failed to update web queue run after append'' (\<lambda>x. qr_id x = r) ?upd) (ret ()) d = (Inr u, db')"
      by (auto elim: bnd_InrE)
    note ins = run_insert_all [OF d(1) ok]
    have db': "db' = d\<lparr>db_runs := update_where (\<lambda>x. qr_id x = r) ?upd (db_runs d)\<rparr>"
      using d(2) ins by (simp add: bnd_update_runs)
    have "schema_ok db'" using ins unfolding db' by (subst schema_ok_runs_cong) (simp_all add: map_update_where)
    moreover have "map qr_status (db_runs db') = map qr_status (db_runs db)"
      using ins unfolding db' by (simp add: map_update_where)
    ultimately show ?thesis
      using ins run Pair Inr unfolding db' by simp
  qed
qed



lemma tab_run_ok_mono: "tab_run_ok rs r \<Longrightarrow> qr_id ` set rs \<subseteq> qr_id ` set rs' \<Longrightarrow> tab_run_ok rs' r"
  by (auto simp: tab_run_ok_def split: option.splits)

lemma schema_ok_more_runs:
  assumes ok: "schema_ok db" and dist: "distinct (map qr_id rs)"
    and more: "qr_id ` set (db_runs db) \<subseteq> qr_id ` set rs"
  shows "schema_ok (db\<lparr>db_runs := rs\<rparr>)"
proof -
  have "list_all (\<lambda>t. tab_run_ok rs (qt_run_id t)) (db_tabs db)"
    using ok tab_run_ok_mono [OF _ more] by (simp add: schema_parts list_all_iff)
  moreover have "list_all (\<lambda>i. qi_run_id i \<in> qr_id ` set rs) (db_items db)"
    using ok more by (auto simp: schema_parts list_all_iff)
  moreover have "list_all (\<lambda>l. ql_item_id l \<in> qi_id ` set (db_items db) \<and> ql_run_id l \<in> qr_id ` set rs) (db_leases db)"
    using ok more by (auto simp: schema_parts list_all_iff)
  ultimately show ?thesis using ok dist by (simp add: schema_parts)
qed

definition put_run :: "queue_run_row \<Rightarrow> qdb \<Rightarrow> qdb" where
  "put_run run db = db\<lparr>db_runs := upsert_by qr_id (\<lambda>old new. new\<lparr>qr_created_at := qr_created_at old\<rparr>)
     (stored_run run) (db_runs db)\<rparr>"

lemma stored_run_id [simp]: "qr_id (stored_run run) = qr_id run"
  by (simp add: stored_run_def)

lemma put_run_ids: "qr_id ` set (db_runs (put_run run db)) = insert (qr_id run) (qr_id ` set (db_runs db))"
proof -
  have "map qr_id (upsert_by qr_id (\<lambda>old new. new\<lparr>qr_created_at := qr_created_at old\<rparr>)
      (stored_run run) (db_runs db)) = (if qr_id (stored_run run) \<in> set (map qr_id (db_runs db))
      then map qr_id (db_runs db) else map qr_id (db_runs db) @ [qr_id (stored_run run)])"
    by (rule keys_upsert_by) simp
  from arg_cong [OF this, of set] show ?thesis by (auto simp: put_run_def split: if_splits)
qed

lemma schema_ok_put_run:
  assumes "schema_ok db"
  shows "schema_ok (put_run run db)"
proof -
  have "distinct (map qr_id (upsert_by qr_id (\<lambda>old new. new\<lparr>qr_created_at := qr_created_at old\<rparr>)
     (stored_run run) (db_runs db)))"
    using assms by (intro distinct_upsert_by) (simp_all add: schema_parts)
  then show ?thesis
    using schema_ok_more_runs [OF assms] put_run_ids [of run db] by (auto simp: put_run_def)
qed

lemma run_upsert_run: "schema_ok db \<Longrightarrow> upsert_web_queue_run run db = (Inr (), put_run run db)"
  using schema_ok_put_run [of db run]
  by (simp add: upsert_web_queue_run_def run_bnd run_sql_exec put_run_def)

lemma tabs_inv_same_tabs: "tabs_inv db \<Longrightarrow> schema_ok db' \<Longrightarrow> db_tabs db' = db_tabs db \<Longrightarrow> tabs_inv db'"
  by (simp add: tabs_inv_def tabs_wf_def)

lemma filter_delete_keeps:
  "(\<And>x. x \<in> set xs \<Longrightarrow> q x \<Longrightarrow> \<not> p x) \<Longrightarrow> filter q (delete_where p xs) = filter q xs"
  by (auto simp: delete_where_def intro: filter_cong)

lemma delete_runs_keeps_items:
  "\<not> (\<exists>x \<in> set (db_runs db). qr_id x = r \<and> p x) \<Longrightarrow>
   filter (\<lambda>i. qi_run_id i = r) (db_items (delete_runs_db p db)) = filter (\<lambda>i. qi_run_id i = r) (db_items db)"
  unfolding delete_runs_items by (rule filter_delete_keeps) auto

lemma shown_runs_deleted:
  assumes "db' = delete_runs_db (\<lambda>x. Some (qr_id x) \<notin> qt_run_id ` set (db_tabs db))
       (delete_items_db (\<lambda>i. Some (qi_run_id i) \<notin> qt_run_id ` set (db_tabs db)) db)"
  shows "db_tabs db' = db_tabs db"
    and "\<And>x. x \<in> set (db_runs db') \<Longrightarrow> Some (qr_id x) \<in> qt_run_id ` set (db_tabs db')"
    and "Some r \<in> qt_run_id ` set (db_tabs db) \<Longrightarrow>
      filter (\<lambda>i. qi_run_id i = r) (db_items db') = filter (\<lambda>i. qi_run_id i = r) (db_items db)"
proof -
  let ?p = "\<lambda>x. Some (qr_id x) \<notin> qt_run_id ` set (db_tabs db)"
  let ?d = "delete_items_db (\<lambda>i. Some (qi_run_id i) \<notin> qt_run_id ` set (db_tabs db)) db"
  have "qt_run_id t \<notin> Some ` set (map qr_id (filter ?p (db_runs ?d)))" if "t \<in> set (db_tabs db)" for t
  proof
    assume "qt_run_id t \<in> Some ` set (map qr_id (filter ?p (db_runs ?d)))"
    then obtain x where x: "x \<in> set (filter ?p (db_runs ?d))" "qt_run_id t = Some (qr_id x)"
      by (auto simp only: set_map image_iff)
    have "Some (qr_id x) \<in> qt_run_id ` set (db_tabs db)" using that by (rule rev_image_eqI) (simp add: x(2))
    then show False using x(1) unfolding set_filter by blast
  qed
  then have "detach_tabs (map qr_id (filter ?p (db_runs ?d))) (db_tabs db) = db_tabs db"
    unfolding detach_tabs_def update_where_def by (intro map_idI) auto
  then show tabs: "db_tabs db' = db_tabs db" by (simp only: assms delete_runs_items delete_items_tabs)
  show "Some (qr_id x) \<in> qt_run_id ` set (db_tabs db')" if "x \<in> set (db_runs db')" for x
    using that unfolding tabs by (simp add: assms)
  show "filter (\<lambda>i. qi_run_id i = r) (db_items db') = filter (\<lambda>i. qi_run_id i = r) (db_items db)"
    if "Some r \<in> qt_run_id ` set (db_tabs db)"
  proof -
    have "filter (\<lambda>i. qi_run_id i = r) (db_items db') = filter (\<lambda>i. qi_run_id i = r) (db_items ?d)"
      unfolding assms using that by (intro delete_runs_keeps_items) auto
    also have "\<dots> = filter (\<lambda>i. qi_run_id i = r) (db_items db)"
      unfolding delete_items_tabs using that by (intro filter_delete_keeps) auto
    finally show ?thesis .
  qed
qed

definition target_tab :: "string option \<Rightarrow> queue_tab_row \<Rightarrow> bool" where
  "target_tab tab_id t = (case tab_id of Some a \<Rightarrow> qt_id t = a | None \<Rightarrow> qt_active t)"

lemma run_assign_target:
  assumes inv: "tabs_inv db"
    and run: "(case tab_id of Some t \<Rightarrow> assign_web_queue_run_to_tab now t r
               | None \<Rightarrow> assign_web_queue_run_to_active_tab now r) db = (Inr u, db')"
  shows "tabs_inv db'" and "\<exists>t \<in> set (db_tabs db'). target_tab tab_id t \<and> qt_run_id t = Some r"
    and "db_items db' = db_items db" and "db_runs db' = db_runs db"
proof -
  have shown: "\<exists>t \<in> set (db_tabs (show_run now p r db)). p' t \<and> qt_run_id t = Some r"
    if "t \<in> set (db_tabs db)" "p t" "p' (t\<lparr>qt_run_id := Some r, qt_updated_at := now\<rparr>)" for p p' t
    using that by (intro bexI [of _ "t\<lparr>qt_run_id := Some r, qt_updated_at := now\<rparr>"]) (auto simp: show_run_def image_iff)
  have db': "db' = show_run now (target_tab tab_id) r db"
    and some: "\<exists>t \<in> set (db_tabs db). target_tab tab_id t"
    using run inv filter_one_ex [of qt_active "db_tabs db"]
    by (auto simp: run_assign_to_tab run_assign_to_active target_tab_def [abs_def] tabs_inv_def tabs_wf_def
        split: option.splits if_splits)
  show "\<exists>t \<in> set (db_tabs db'). target_tab tab_id t \<and> qt_run_id t = Some r"
  proof -
    obtain t where t: "t \<in> set (db_tabs db)" "target_tab tab_id t" using some by blast
    moreover have "target_tab tab_id (t\<lparr>qt_run_id := Some r, qt_updated_at := now\<rparr>)"
      using t(2) by (simp add: target_tab_def split: option.splits)
    ultimately show ?thesis unfolding db' by (rule shown)
  qed
  show "db_items db' = db_items db" "db_runs db' = db_runs db" by (simp_all add: db' show_run_def)
  have "tabs_inv (snd ((case tab_id of Some t \<Rightarrow> assign_web_queue_run_to_tab now t r
               | None \<Rightarrow> assign_web_queue_run_to_active_tab now r) db))"
    using tabs_inv_assign inv by (auto simp: keeps_def split: option.split)
  then show "tabs_inv db'" by (simp add: run)
qed

lemma run_previous:
  assumes inv: "tabs_inv db"
    and run: "(case tab_id of Some t \<Rightarrow> web_queue_tab_run_id now t | None \<Rightarrow> active_web_queue_run_id now) db = (Inr p, db')"
  shows "db' = db"
  using run
  by (auto simp: web_queue_tab_run_id_def active_web_queue_run_id_def ensure_seq [OF inv] split: option.splits)

lemma replace_effect:
  assumes inv: "tabs_inv db" and own: "\<And>i. i \<in> set items \<Longrightarrow> qi_run_id i = qr_id run"
  shows "case replace_web_queue_with_assignment E run items tab_id db of
      (Inl e, db') \<Rightarrow> db' = db
    | (Inr _, db') \<Rightarrow> tabs_inv db' \<and>
        (\<exists>t \<in> set (db_tabs db'). target_tab tab_id t \<and> qt_run_id t = Some (qr_id run)) \<and>
        filter (\<lambda>i. qi_run_id i = qr_id run) (db_items db') = map stored_item items \<and>
        (\<forall>x \<in> set (db_runs db'). Some (qr_id x) \<in> qt_run_id ` set (db_tabs db'))"
proof (cases "replace_web_queue_with_assignment E run items tab_id db")
  case (Pair res db')
  let ?r = "qr_id run"
  show ?thesis
  proof (cases res)
    case (Inl e)
    obtain m where "replace_web_queue_with_assignment E run items tab_id = transaction m"
      unfolding replace_web_queue_with_assignment_def by blast
    then have "transaction m db = (Inl e, db')" using Pair Inl by simp
    then have "db' = db" by (rule transaction_Inl)
    then show ?thesis using Pair Inl by simp
  next
    case (Inr u)
    let ?prev = "case tab_id of Some t \<Rightarrow> web_queue_tab_run_id (se_now E) t | None \<Rightarrow> active_web_queue_run_id (se_now E)"
    let ?assign = "case tab_id of Some t \<Rightarrow> assign_web_queue_run_to_tab (se_now E) t ?r
      | None \<Rightarrow> assign_web_queue_run_to_active_tab (se_now E) ?r"
    let ?old = "\<lambda>p. case p of Some p \<Rightarrow> if p \<noteq> ?r then delete_unreferenced_web_queue_run p else ret () | None \<Rightarrow> ret ()"
    let ?rest = "\<lambda>p. seq (delete_items ''failed to clear web queue items'' (\<lambda>i. qi_run_id i = ?r))
        (seq (upsert_web_queue_run run)
          (seq (for_each (insert_with_attempt E ''failed to insert web queue item'') items)
            (seq ?assign (seq (?old p) delete_unreferenced_web_queue_runs))))"
    have "transaction (seq (ensure_default_web_queue_tab (se_now E)) (bnd ?prev ?rest)) db = (Inr u, db')"
      using Pair unfolding Inr replace_web_queue_with_assignment_def insert_with_attempt_def [abs_def] .
    then have "seq (ensure_default_web_queue_tab (se_now E)) (bnd ?prev ?rest) db = (Inr u, db')"
      by (rule transaction_InrD)
    then have "bnd ?prev ?rest db = (Inr u, db')" unfolding ensure_seq [OF inv] .
    then obtain p d0 where "?prev db = (Inr p, d0)" and rest: "?rest p d0 = (Inr u, db')"
      by (rule bnd_InrE)
    then have d0: "d0 = db" using run_previous [OF inv] by blast
    note ok = tabs_inv_schema [OF inv]
    let ?d1 = "delete_items_db (\<lambda>i. qi_run_id i = ?r) db"
    let ?d2 = "put_run run ?d1"
    have ok1: "schema_ok ?d1" using ok by (rule schema_ok_delete_items)
    have ok2: "schema_ok ?d2" using ok1 by (rule schema_ok_put_run)
    have "seq (for_each (insert_with_attempt E ''failed to insert web queue item'') items)
        (seq ?assign (seq (?old p) delete_unreferenced_web_queue_runs)) ?d2 = (Inr u, db')"
      using rest unfolding d0 by (simp add: bnd_deletes ok run_bnd [of "upsert_web_queue_run run"] run_upsert_run ok1)
    then obtain w d3 where d3: "for_each (insert_with_attempt E ''failed to insert web queue item'') items ?d2 = (Inr w, d3)"
      and rest3: "seq ?assign (seq (?old p) delete_unreferenced_web_queue_runs) d3 = (Inr u, db')"
      by (rule bnd_InrE)
    note ins = run_insert_all [OF d3 ok2]
    have inv3: "tabs_inv d3"
      using ins by (intro tabs_inv_same_tabs [OF inv]) (simp_all add: put_run_def)
    have "filter (\<lambda>i. qi_run_id i = ?r) (map stored_item items) = map stored_item items"
      using own by (intro filter_True) (auto simp: stored_item_def)
    then have items3: "filter (\<lambda>i. qi_run_id i = ?r) (db_items d3) = map stored_item items"
      using ins by (simp add: put_run_def delete_where_def)
    obtain w4 d4 where d4: "?assign d3 = (Inr w4, d4)"
      and rest4: "seq (?old p) delete_unreferenced_web_queue_runs d4 = (Inr u, db')"
      using rest3 by (rule bnd_InrE)
    note as = run_assign_target [OF inv3 d4]
    obtain w5 d5 where d5: "?old p d4 = (Inr w5, d5)" and d6: "delete_unreferenced_web_queue_runs d5 = (Inr u, db')"
      using rest4 by (rule bnd_InrE)
    have inv5: "tabs_inv d5 \<and> (\<exists>t \<in> set (db_tabs d5). target_tab tab_id t \<and> qt_run_id t = Some ?r) \<and>
        filter (\<lambda>i. qi_run_id i = ?r) (db_items d5) = filter (\<lambda>i. qi_run_id i = ?r) (db_items d4)"
    proof (cases "d5 = d4")
      case True
      then show ?thesis using as by simp
    next
      case False
      then obtain q where q: "p = Some q" "q \<noteq> ?r" using d5 by (auto split: option.splits if_splits)
      let ?e = "delete_items_db (\<lambda>i. qi_run_id i = q) d4"
      have del: "d5 = delete_runs_db (\<lambda>x. qr_id x = q) ?e"
        using d5 False q by (auto simp: run_delete_unreferenced [OF tabs_inv_schema [OF as(1)]] split: if_splits)
      obtain t where t: "t \<in> set (db_tabs d4)" "target_tab tab_id t" "qt_run_id t = Some ?r" using as(2) by blast
      then have "t \<in> set (db_tabs d5)"
        using q unfolding del delete_runs_items delete_items_tabs detach_tabs_def set_update_where
        by (intro image_eqI [of _ _ t]) auto
      moreover have "filter (\<lambda>i. qi_run_id i = ?r) (db_items d5) = filter (\<lambda>i. qi_run_id i = ?r) (db_items ?e)"
        unfolding del using q by (intro delete_runs_keeps_items) auto
      moreover have "filter (\<lambda>i. qi_run_id i = ?r) (db_items ?e) = filter (\<lambda>i. qi_run_id i = ?r) (db_items d4)"
        unfolding delete_items_tabs using q by (intro filter_delete_keeps) auto
      moreover have "tabs_inv d5" unfolding del by (intro tabs_inv_delete_runs_db tabs_inv_delete_items_db as(1))
      ultimately show ?thesis using t by auto
    qed
    have db': "db' = delete_runs_db (\<lambda>x. Some (qr_id x) \<notin> qt_run_id ` set (db_tabs d5))
        (delete_items_db (\<lambda>i. Some (qi_run_id i) \<notin> qt_run_id ` set (db_tabs d5)) d5)"
      using d6 inv5 by (simp add: run_delete_unreferenced_all tabs_inv_schema)
    have "Some ?r \<in> qt_run_id ` set (db_tabs d5)" using inv5 by (metis imageI)
    note final = shown_runs_deleted [OF db']
    have "tabs_inv db'" unfolding db' using inv5 by (intro tabs_inv_delete_runs_db tabs_inv_delete_items_db) blast
    moreover have "filter (\<lambda>i. qi_run_id i = ?r) (db_items db') = map stored_item items"
      using final(3) [OF \<open>Some ?r \<in> qt_run_id ` set (db_tabs d5)\<close>] inv5 as(3) items3 by simp
    ultimately show ?thesis
      unfolding Pair Inr prod.case sum.case using inv5 final(1,2) by metis
  qed
qed

text \<open>
  C8. Replacing a queue is all or nothing and leaves no orphan. On success the run shown by the
  target tab (the named tab, or the active one) is the new run, its items are exactly the given
  ones in order, every remaining run and item belongs to a tab, and the tab invariant holds; on any
  error (an unknown tab, a constraint violation halfway through the items) the database is exactly
  what it was.
\<close>

theorem replace_queue_all_or_nothing:
  assumes inv: "tabs_inv db" and own: "\<And>i. i \<in> set items \<Longrightarrow> qi_run_id i = qr_id run"
  shows "case replace_web_queue_with_assignment E run items tab_id db of
      (Inl e, db') \<Rightarrow> db' = db
    | (Inr _, db') \<Rightarrow> tabs_inv db' \<and>
        (\<exists>t \<in> set (db_tabs db'). target_tab tab_id t \<and> qt_run_id t = Some (qr_id run)) \<and>
        filter (\<lambda>i. qi_run_id i = qr_id run) (db_items db') = map stored_item items \<and>
        (\<forall>x \<in> set (db_runs db'). Some (qr_id x) \<in> qt_run_id ` set (db_tabs db'))"
  by (rule replace_effect [OF inv own])

theorem replace_queue_all_or_nothing_witness:
  "case replace_web_queue_with_assignment sample_env sample_run [sample_item ''c'' 0] None sample_db of
      (Inl e, db') \<Rightarrow> db' = sample_db
    | (Inr _, db') \<Rightarrow> tabs_inv db'"
  using replace_queue_all_or_nothing [OF sample_db_inv, where items = "[sample_item ''c'' 0]"
      and run = sample_run and E = sample_env and tab_id = None]
  by (auto simp: sample_item_def sample_run_def split: prod.splits sum.splits)

section \<open>Replanning items\<close>

definition planned :: "store_env \<Rightarrow> queue_item_row \<Rightarrow> queue_item_row \<Rightarrow> queue_item_row" where
  "planned E i j = j\<lparr>qi_position := qi_position i, qi_depends_on := qi_depends_on i,
     qi_prompt := qi_prompt i, qi_repo_root := qi_repo_root i, qi_repo_name := qi_repo_name i,
     qi_execution_host := stored_host (qi_execution_host i),
     qi_agent_command := qi_agent_command i, qi_task_class := qi_task_class i,
     qi_remote_launcher := qi_remote_launcher i, qi_local_proxy := qi_local_proxy i,
     qi_remote_proxy := qi_remote_proxy i, qi_updated_at := se_now E\<rparr>"

lemma planned_columns [simp]:
  "qi_id (planned E i j) = qi_id j" "qi_run_id (planned E i j) = qi_run_id j"
  "qi_position (planned E i j) = qi_position i" "qi_slug (planned E i j) = qi_slug j"
  "qi_status (planned E i j) = qi_status j" "qi_agent_id (planned E i j) = qi_agent_id j"
  "qi_attempts (planned E i j) = qi_attempts j" "qi_recovery_attempts (planned E i j) = qi_recovery_attempts j"
  "qi_next_attempt_at (planned E i j) = qi_next_attempt_at j"
  "qi_depends_on (planned E i j) = qi_depends_on i"
  by (simp_all add: planned_def)

lemma update_item_plan_planned:
  "update_item_plan E r i = seq (update_items ''failed to update web queue item plan''
     (item_key r (qi_id i)) (planned E i)) (ret ())"
  by (simp add: update_item_plan_def planned_def [abs_def])

lemma planned_positions_clash:
  assumes ok: "schema_ok db" and a: "find_item r a db = Some ja" and b: "find_item r b db = Some jb"
    and ne: "a \<noteq> b" and id: "qi_id i = a" and pos: "qi_position i = qi_position jb"
  shows "update_item_plan E r i db = (Inl (Constraint ''failed to update web queue item plan''), db)"
proof -
  let ?items = "update_where (item_key r a) (planned E i) (db_items db)"
  have ja: "ja \<in> set (db_items db)" "item_key r a ja" and jb: "jb \<in> set (db_items db)" "\<not> item_key r a jb"
    "qi_run_id jb = r" "qi_id jb = b"
    using a b ne find_item_Some_iff [OF ok] by (auto simp: item_key_def)
  have mem: "planned E i ja \<in> set ?items" "jb \<in> set ?items"
    using ja jb by (auto simp: set_update_where image_iff)
  have "\<not> distinct (map (\<lambda>i. (qi_run_id i, qi_position i)) ?items)"
  proof
    assume "distinct (map (\<lambda>i. (qi_run_id i, qi_position i)) ?items)"
    then have "inj_on (\<lambda>i. (qi_run_id i, qi_position i)) (set ?items)" by (simp only: distinct_map)
    moreover have "(qi_run_id (planned E i ja), qi_position (planned E i ja)) = (qi_run_id jb, qi_position jb)"
      using ja jb pos by (simp add: item_key_def)
    ultimately have "planned E i ja = jb" using mem by (meson inj_onD)
    then have "qi_id ja = qi_id jb" by (metis planned_columns(1))
    then show False using ja jb ne by (simp add: item_key_def)
  qed
  then have "\<not> schema_ok (db\<lparr>db_items := ?items\<rparr>)" by (simp add: schema_parts)
  then show ?thesis
    by (simp add: update_item_plan_planned update_items_def run_bnd run_sql_exec id)
qed

lemma run_plans_same_positions:
  assumes "schema_ok db"
    and "\<And>i. i \<in> set items \<Longrightarrow> \<exists>j. find_item r (qi_id i) db = Some j \<and> qi_position j = qi_position i"
    and "distinct (map qi_id items)"
  shows "\<exists>db'. for_each (update_item_plan E r) items db = (Inr (), db') \<and> schema_ok db' \<and>
    db_runs db' = db_runs db \<and>
    (\<forall>b. find_item r b db' = map_option (\<lambda>j. case find (\<lambda>i. qi_id i = b) items of
        None \<Rightarrow> j | Some i \<Rightarrow> planned E i j) (find_item r b db)) \<and>
    map item_keys (db_items db') = map item_keys (db_items db)"
  using assms
proof (induction items arbitrary: db)
  case Nil
  then show ?case by (simp add: option.map_ident)
next
  case (Cons i items)
  let ?d = "with_item r (qi_id i) (planned E i) db"
  obtain ji where ji: "find_item r (qi_id i) db = Some ji" "qi_position ji = qi_position i"
    using Cons.prems(2) [of i] by auto
  have same: "item_keys (planned E i j) = item_keys j" if "j \<in> set (db_items db)" "item_key r (qi_id i) j" for j
  proof -
    have "find_item r (qi_id i) db = Some j"
      using that find_item_Some_iff [OF Cons.prems(1), of r "qi_id i" j] by (simp add: item_key_def)
    then have "j = ji" using ji(1) by simp
    then show ?thesis using ji(2) by (simp add: item_keys_def)
  qed
  have keys: "map item_keys (db_items ?d) = map item_keys (db_items db)"
    using same by (auto simp: with_item_def update_where_def)
  have okd: "schema_ok ?d"
    using Cons.prems(1) keys schema_ok_items_cong [of "db_items ?d" db] by (simp add: with_item_def)
  have run: "update_item_plan E r i db = (Inr (), ?d)"
    using okd by (simp add: update_item_plan_planned update_items_def run_bnd run_sql_exec with_item_def)
  have find: "find_item r b ?d = map_option (\<lambda>j. if b = qi_id i then planned E i j else j) (find_item r b db)" for b
  proof -
    have "find (\<lambda>j. (qi_run_id j, qi_id j) = (r, b)) (update_where (item_key r (qi_id i)) (planned E i) (db_items db)) =
      map_option (\<lambda>j. if item_key r (qi_id i) j then planned E i j else j)
        (find (\<lambda>j. (qi_run_id j, qi_id j) = (r, b)) (db_items db))"
      by (rule find_key_update) simp
    then show ?thesis
      by (cases "find_item r b db") (auto simp: find_item_def with_item_def item_key_def dest: find_Some_set)
  qed
  have prems: "\<exists>j. find_item r (qi_id k) ?d = Some j \<and> qi_position j = qi_position k" if "k \<in> set items" for k
  proof -
    have "qi_id k \<in> qi_id ` set items" using that by (rule imageI)
    then have "qi_id k \<noteq> qi_id i" using Cons.prems(3) by auto
    then show ?thesis using Cons.prems(2) [of k] that find [of "qi_id k"] by auto
  qed
  from Cons.IH [OF okd prems] Cons.prems(3)
  obtain db' where db': "for_each (update_item_plan E r) items ?d = (Inr (), db')" "schema_ok db'"
    "db_runs db' = db_runs ?d" "map item_keys (db_items db') = map item_keys (db_items ?d)"
    "\<forall>b. find_item r b db' = map_option (\<lambda>j. case find (\<lambda>i. qi_id i = b) items of
        None \<Rightarrow> j | Some i \<Rightarrow> planned E i j) (find_item r b ?d)" by auto
  have none: "find (\<lambda>k. qi_id k = qi_id i) items = None"
    using Cons.prems(3) by (auto simp: find_None_iff image_iff)
  have "find_item r b db' = map_option (\<lambda>j. case find (\<lambda>k. qi_id k = b) (i # items) of
        None \<Rightarrow> j | Some i \<Rightarrow> planned E i j) (find_item r b db)" for b
    using db'(5) find [of b] none
    by (cases "find_item r b db"; cases "b = qi_id i") auto
  then show ?case using db' run keys by (intro exI [of _ db']) (simp add: run_bnd)
qed

lemma replan_same_positions:
  assumes ok: "schema_ok db" and ne: "items \<noteq> []"
    and "\<And>i. i \<in> set items \<Longrightarrow> \<exists>j. find_item r (qi_id i) db = Some j \<and> qi_position j = qi_position i"
    and "distinct (map qi_id items)"
  shows "\<exists>db'. update_web_queue_item_plans E r items db = (Inr (), db') \<and> schema_ok db' \<and>
        (\<forall>b. find_item r b db' = map_option (\<lambda>j. case find (\<lambda>i. qi_id i = b) items of
           None \<Rightarrow> j | Some i \<Rightarrow> planned E i j) (find_item r b db))"
proof -
  let ?upd = "\<lambda>x. x\<lparr>qr_message := ''updated '' @ show_nat (length items) @ '' queue item(s)'',
    qr_updated_at := se_now E\<rparr>"
  from run_plans_same_positions [OF ok assms(3,4), of E]
  obtain d where d: "for_each (update_item_plan E r) items db = (Inr (), d)" "schema_ok d"
    "\<forall>b. find_item r b d = map_option (\<lambda>j. case find (\<lambda>i. qi_id i = b) items of
           None \<Rightarrow> j | Some i \<Rightarrow> planned E i j) (find_item r b db)" by blast
  let ?db' = "d\<lparr>db_runs := update_where (\<lambda>x. qr_id x = r) ?upd (db_runs d)\<rparr>"
  have "schema_ok ?db'" using d(2) by (subst schema_ok_runs_cong) (simp_all add: map_update_where)
  moreover have "update_web_queue_item_plans E r items db = (Inr (), ?db')"
    using ne d(1,2) by (simp add: update_web_queue_item_plans_def run_transaction run_bnd [of "for_each f xs" for f xs]
        bnd_update_runs)
  ultimately show ?thesis
    using d(3) by (intro exI [of _ ?db']) simp
qed

lemma replan_clash:
  assumes ok: "schema_ok db" and ne: "items \<noteq> []"
    and "find_item r (qi_id (hd items)) db = Some ja" "find_item r b db = Some jb"
      "qi_id (hd items) \<noteq> b" "qi_position (hd items) = qi_position jb"
  shows "update_web_queue_item_plans E r items db =
        (Inl (Constraint ''failed to update web queue item plan''), db)"
proof -
  have "update_item_plan E r (hd items) db = (Inl (Constraint ''failed to update web queue item plan''), db)"
    using assms(3-6) by (intro planned_positions_clash [OF ok]) auto
  moreover obtain i rest where "items = i # rest" using ne by (cases items) auto
  ultimately show ?thesis
    by (simp add: update_web_queue_item_plans_def run_transaction run_bnd)
qed

text \<open>
  Replanning items. When every planned item exists and keeps its position, the update of the
  plans succeeds and changes exactly the plan columns: prompt, dependencies, repository, host,
  agent command, class and proxies follow the plan, while status, agent, attempts, semantic
  iteration, slug and every item not named stay. When the first planned item moves to a position
  that another item of the run still holds, the update fails as a whole, even if the same request
  moves that other item away: two items cannot exchange positions in one request.
\<close>

theorem replan_items:
  assumes "schema_ok db" and "items \<noteq> []"
  shows "((\<forall>i \<in> set items. \<exists>j. find_item r (qi_id i) db = Some j \<and> qi_position j = qi_position i) \<and>
      distinct (map qi_id items) \<longrightarrow>
      (\<exists>db'. update_web_queue_item_plans E r items db = (Inr (), db') \<and> schema_ok db' \<and>
        (\<forall>b. find_item r b db' = map_option (\<lambda>j. case find (\<lambda>i. qi_id i = b) items of
           None \<Rightarrow> j | Some i \<Rightarrow> planned E i j) (find_item r b db)))) \<and>
    (\<forall>ja b jb. find_item r (qi_id (hd items)) db = Some ja \<longrightarrow> find_item r b db = Some jb \<longrightarrow>
      qi_id (hd items) \<noteq> b \<longrightarrow> qi_position (hd items) = qi_position jb \<longrightarrow>
      update_web_queue_item_plans E r items db =
        (Inl (Constraint ''failed to update web queue item plan''), db))"
  using replan_same_positions [OF assms] replan_clash [OF assms] by blast

theorem replan_items_witness:
  "update_web_queue_item_plans sample_env ''r1'' [sample_item ''a'' 1, sample_item ''b'' 0] sample_db =
     (Inl (Constraint ''failed to update web queue item plan''), sample_db)"
  using replan_items [OF sample_db_ok, where items = "[sample_item ''a'' 1, sample_item ''b'' 0]"
      and r = "''r1''" and E = sample_env] sample_db_find
  by (simp add: sample_item_def)

end
