(* ===== verification/Task_Records.thy ===== *)
theory Task_Records
  imports Queue_Store "HOL-Library.AList"
begin

text \<open>
  Task records and their numbers (\<open>src/src/state.rs\<close>: \<open>upsert_task_record\<close> and the functions after
  it; \<open>src/src/state/db.rs\<close>: the sequence counters). A record of a source that is numbered gets the
  next number of its repository from a counter that outlives the records.

  The counter column is an \<open>i64\<close>: SQLite turns \<open>next_sequence + 1\<close> into a float at its maximum,
  which the decoder then refuses, and the driver refuses to bind a \<open>u64\<close> beyond it. The topic,
  history, event and claim rows that \<open>delete_task_record\<close> detaches are not part of the model.
\<close>

definition i64_of_u64 :: "nat \<Rightarrow> int" where
  "i64_of_u64 n = (if int n \<le> i64_max then int n else i64_max)"

definition source_uses_task_sequence :: "string \<Rightarrow> bool" where
  "source_uses_task_sequence s = (\<not> (s = ''agent'' \<or> s = ''codex-session''))"

text \<open>The rows that \<open>max_task_sequence\<close> looks at, and the greatest number among them.\<close>

definition repo_sequences :: "string \<Rightarrow> qdb \<Rightarrow> nat list" where
  "repo_sequences repo db =
     List.map_filter (\<lambda>t. if tk_repo_root t = Some repo \<and> source_uses_task_sequence (tk_source t)
       then tk_sequence t else None) (db_tasks db)"

definition max_task_sequence :: "string \<Rightarrow> qdb \<Rightarrow> nat" where
  "max_task_sequence repo db = foldr max (repo_sequences repo db) 0"

definition counter_of :: "string \<Rightarrow> qdb \<Rightarrow> int option" where
  "counter_of repo db = map_of (db_counters db) repo"

definition set_counter :: "string \<Rightarrow> int \<Rightarrow> qdb \<Rightarrow> qdb" where
  "set_counter repo n db = db\<lparr>db_counters := AList.update repo n (db_counters db)\<rparr>"

definition init_counter :: "string \<Rightarrow> int \<Rightarrow> qdb \<Rightarrow> qdb" where
  "init_counter repo n db = (if counter_of repo db = None then set_counter repo n db else db)"

definition raise_counter :: "string \<Rightarrow> int \<Rightarrow> qdb \<Rightarrow> qdb" where
  "raise_counter repo n db =
     set_counter repo (case counter_of repo db of None \<Rightarrow> n | Some m \<Rightarrow> max m n) db"

definition take_number :: "string \<Rightarrow> (qdb, nat) prog" where
  "take_number repo =
     bnd (query (counter_of repo)) (\<lambda>c. case c of
       None \<Rightarrow> throw (Constraint ''failed to allocate task sequence'')
     | Some next_sequence \<Rightarrow>
         if next_sequence = i64_max then throw (Constraint ''failed to allocate task sequence'')
         else seq (modify (set_counter repo (next_sequence + 1)))
           (if next_sequence < 0 then throw (Bail ''task sequence overflow'') else ret (nat next_sequence)))"

definition allocate_task_sequence :: "string \<Rightarrow> (qdb, nat) prog" where
  "allocate_task_sequence repo =
     bnd (query (max_task_sequence repo)) (\<lambda>m.
     seq (modify (init_counter repo (i64_of_u64 (sat_add_u64 m 1)))) (take_number repo))"

definition advance_task_sequence_counter :: "string \<Rightarrow> nat \<Rightarrow> (qdb, unit) prog" where
  "advance_task_sequence_counter repo n = modify (raise_counter repo (i64_of_u64 (sat_add_u64 n 1)))"

definition advance_task_sequence_counter_for_record :: "string option \<Rightarrow> nat option \<Rightarrow> (qdb, unit) prog" where
  "advance_task_sequence_counter_for_record repo_root sequence =
     (case (repo_root, sequence) of
        (Some repo, Some n) \<Rightarrow> (if trim repo \<noteq> [] then advance_task_sequence_counter repo n else ret ())
      | _ \<Rightarrow> ret ())"

definition task_record_sequence_for_upsert ::
    "task_record_row \<Rightarrow> task_record_row option \<Rightarrow> string option \<Rightarrow> bool \<Rightarrow> (qdb, nat option) prog" where
  "task_record_sequence_for_upsert record existing repo_root repo_root_changed =
     (if \<not> source_uses_task_sequence (tk_source record) then ret None
      else let existing_sequence =
          Option.bind existing (\<lambda>row. if repo_root_changed then None else tk_sequence row)
        in case (tk_sequence record, existing_sequence, repo_root) of
          (_, Some n, _) \<Rightarrow> ret (Some n)
        | (Some n, None, _) \<Rightarrow> ret (Some n)
        | (None, None, Some repo) \<Rightarrow>
            (if trim repo \<noteq> [] then bnd (allocate_task_sequence repo) (\<lambda>n. ret (Some n)) else ret None)
        | (None, None, None) \<Rightarrow> ret None)"

definition upserted_record ::
    "task_record_row \<Rightarrow> task_record_row option \<Rightarrow> string option \<Rightarrow> nat option \<Rightarrow> task_record_row" where
  "upserted_record record existing repo_root sequence =
     record\<lparr>tk_created_at := (case existing of None \<Rightarrow> tk_created_at record | Some row \<Rightarrow> tk_created_at row),
       tk_repo_root := repo_root,
       tk_cwd := coalesce (tk_cwd record) (Option.bind existing tk_cwd),
       tk_agent_id := coalesce (tk_agent_id record) (Option.bind existing tk_agent_id),
       tk_metadata_json := coalesce (tk_metadata_json record) (Option.bind existing tk_metadata_json),
       tk_sequence := sequence\<rparr>"

definition merge_task :: "task_record_row \<Rightarrow> task_record_row \<Rightarrow> task_record_row" where
  "merge_task old new =
     old\<lparr>tk_source := tk_source new, tk_title := tk_title new, tk_description := tk_description new,
       tk_status := tk_status new, tk_updated_at := tk_updated_at new,
       tk_repo_root := coalesce (tk_repo_root new) (tk_repo_root old),
       tk_cwd := coalesce (tk_cwd new) (tk_cwd old),
       tk_agent_id := coalesce (tk_agent_id new) (tk_agent_id old),
       tk_metadata_json := coalesce (tk_metadata_json new) (tk_metadata_json old),
       tk_sequence := tk_sequence new\<rparr>"

definition storable_numbers :: "task_record_row \<Rightarrow> bool" where
  "storable_numbers t =
     (int (tk_created_at t) \<le> i64_max \<and> int (tk_updated_at t) \<le> i64_max \<and>
      (case tk_sequence t of None \<Rightarrow> True | Some n \<Rightarrow> int n \<le> i64_max))"

definition store_task :: "task_record_row \<Rightarrow> (qdb, nat) prog" where
  "store_task row =
     (if storable_numbers row
      then sql_exec ''failed to upsert task record'' (\<lambda>_. 1)
        (\<lambda>db. db\<lparr>db_tasks := upsert_by tk_id merge_task row (db_tasks db)\<rparr>)
      else throw (Constraint ''failed to upsert task record''))"

definition get_task_record :: "string \<Rightarrow> (qdb, task_record_row option) prog" where
  "get_task_record task_id = query (find_task task_id)"

definition upsert_task_record :: "task_record_row \<Rightarrow> (qdb, task_record_row) prog" where
  "upsert_task_record record = transaction (
     bnd (query (find_task (tk_id record))) (\<lambda>existing.
     let existing_repo_root = Option.bind existing tk_repo_root;
         repo_root = coalesce (tk_repo_root record) existing_repo_root;
         repo_root_changed = (case (tk_repo_root record, existing_repo_root) of
           (Some new, Some old) \<Rightarrow> new \<noteq> old | _ \<Rightarrow> False)
     in bnd (task_record_sequence_for_upsert record existing repo_root repo_root_changed) (\<lambda>sequence.
        seq (advance_task_sequence_counter_for_record repo_root sequence)
       (seq (store_task (upserted_record record existing repo_root sequence))
       (bnd (query (find_task (tk_id record))) (\<lambda>stored. case stored of
          None \<Rightarrow> throw (Constraint ''failed to reload task record'') | Some row \<Rightarrow> ret row))))))"

definition task_before :: "task_record_row \<Rightarrow> int \<times> string" where
  "task_before t = (- int (tk_updated_at t), tk_id t)"

definition load_task_records :: "string option \<Rightarrow> nat \<Rightarrow> (qdb, task_record_row list) prog" where
  "load_task_records status limit = query (\<lambda>db. take limit (sort_key task_before
     (filter (\<lambda>t. case status of None \<Rightarrow> True | Some s \<Rightarrow> tk_status t = s) (db_tasks db))))"

definition load_task_records_for_repo :: "string \<Rightarrow> string option \<Rightarrow> nat \<Rightarrow> (qdb, task_record_row list) prog" where
  "load_task_records_for_repo repo status limit = query (\<lambda>db. take limit (sort_key task_before
     (filter (\<lambda>t. tk_repo_root t = Some repo \<and>
        (case status of None \<Rightarrow> True | Some s \<Rightarrow> tk_status t = s)) (db_tasks db))))"

definition update_task_record ::
    "nat \<Rightarrow> string \<Rightarrow> string option \<Rightarrow> string option \<Rightarrow> string option \<Rightarrow> (qdb, unit) prog" where
  "update_task_record now task_id title description status =
     bnd (get_task_record task_id) (\<lambda>r. case r of
       None \<Rightarrow> throw (Bail (''unknown task record: '' @ task_id))
     | Some record \<Rightarrow> bnd (upsert_task_record
         (record\<lparr>tk_title := (case title of None \<Rightarrow> tk_title record | Some t \<Rightarrow> t),
           tk_description := (case description of None \<Rightarrow> tk_description record | Some d \<Rightarrow> d),
           tk_status := (case status of None \<Rightarrow> tk_status record | Some s \<Rightarrow> s),
           tk_updated_at := now\<rparr>)) (\<lambda>_. ret ()))"

definition delete_task_record :: "string \<Rightarrow> (qdb, unit) prog" where
  "delete_task_record task_id = transaction (
     bnd (sql_exec ''failed to delete task record'' (\<lambda>db. count_where (\<lambda>t. tk_id t = task_id) (db_tasks db))
       (\<lambda>db. db\<lparr>db_tasks := delete_where (\<lambda>t. tk_id t = task_id) (db_tasks db)\<rparr>)) (\<lambda>deleted.
     if deleted = 0 then throw (Bail (''unknown task record: '' @ task_id)) else ret ()))"

definition delete_ad_hoc_task_records_for_agent :: "string \<Rightarrow> (qdb, nat) prog" where
  "delete_ad_hoc_task_records_for_agent agent =
     bnd (query (\<lambda>db. map tk_id (filter (\<lambda>t. tk_agent_id t = Some agent \<and>
         (tk_source t = ''agent'' \<or> tk_source t = ''codex-session'')) (db_tasks db)))) (\<lambda>ids.
     seq (for_each delete_task_record ids) (ret (length ids)))"

definition next_task_id :: "(qdb, string) prog" where
  "next_task_id = query (\<lambda>db. let digits = show_nat (length (db_tasks db) + 1)
     in ''qcd-'' @ replicate (4 - length digits) (CHR ''0'') @ digits)"

definition new_task_record ::
    "nat \<Rightarrow> string \<Rightarrow> string \<Rightarrow> string \<Rightarrow> string \<Rightarrow> string \<Rightarrow> string option \<Rightarrow> string option \<Rightarrow> string option \<Rightarrow>
     string option \<Rightarrow> task_record_row" where
  "new_task_record now task_id source title description status repo_root cwd agent metadata =
     \<lparr>tk_id = task_id, tk_source = source, tk_sequence = None, tk_title = title, tk_description = description,
      tk_status = status, tk_created_at = now, tk_updated_at = now, tk_repo_root = repo_root, tk_cwd = cwd,
      tk_agent_id = agent, tk_metadata_json = metadata\<rparr>"

section \<open>Migrations of the counters\<close>

definition numbered_repos :: "qdb \<Rightarrow> string list" where
  "numbered_repos db = remdups (List.map_filter (\<lambda>t. case tk_repo_root t of
     None \<Rightarrow> None
   | Some r \<Rightarrow> (if trim_matches (\<lambda>c. c = CHR '' '') r \<noteq> [] \<and> source_uses_task_sequence (tk_source t) then Some r else None)) (db_tasks db))"

definition seed_task_sequence_counters :: "(qdb, unit) prog" where
  "seed_task_sequence_counters =
     bnd (query (\<lambda>db. map (\<lambda>r. (r, int (max_task_sequence r db) + 1)) (numbered_repos db))) (\<lambda>rows.
     if list_ex (\<lambda>(r, n). n > i64_max) rows
     then throw (Constraint ''failed to decode task sequence counter seed'')
     else for_each (\<lambda>(r, n). modify (raise_counter r n)) rows)"

definition scrub_non_task_sequences :: "(qdb, unit) prog" where
  "scrub_non_task_sequences = seq (sql_exec ''failed to clear non-task sequence values'' (\<lambda>_. 0)
     (\<lambda>db. db\<lparr>db_tasks := update_where (\<lambda>t. \<not> source_uses_task_sequence (tk_source t) \<and> tk_sequence t \<noteq> None)
        (\<lambda>t. t\<lparr>tk_sequence := None\<rparr>) (db_tasks db)\<rparr>)) (ret ())"

definition repair_legacy_task_sequence_pollution :: "(qdb, unit) prog" where
  "repair_legacy_task_sequence_pollution =
     seq scrub_non_task_sequences
    (bnd (query (\<lambda>db. filter (\<lambda>r. trim_matches (\<lambda>c. c = CHR '' '') r \<noteq> []) (map fst (db_counters db)))) (\<lambda>rows.
     for_each (\<lambda>r. bnd (query (max_task_sequence r)) (\<lambda>m.
       modify (set_counter r (i64_of_u64 (sat_add_u64 m 1))))) rows))"

definition backfill_order :: "task_record_row \<Rightarrow> string \<times> nat \<times> string" where
  "backfill_order t = ((case tk_repo_root t of None \<Rightarrow> [] | Some r \<Rightarrow> r), tk_created_at t, tk_id t)"

definition backfill_one :: "task_record_row \<Rightarrow> (qdb, unit) prog" where
  "backfill_one t =
     (if \<not> source_uses_task_sequence (tk_source t) then ret ()
      else bnd (allocate_task_sequence (the (tk_repo_root t))) (\<lambda>n.
        seq (sql_exec (''failed to backfill task sequence for '' @ tk_id t) (\<lambda>_. 1)
          (\<lambda>db. db\<lparr>db_tasks := update_where (\<lambda>u. tk_id u = tk_id t \<and> tk_sequence u = None)
             (\<lambda>u. u\<lparr>tk_sequence := Some n\<rparr>) (db_tasks db)\<rparr>)) (ret ())))"

definition backfill_task_sequences :: "(qdb, unit) prog" where
  "backfill_task_sequences =
     bnd (query (\<lambda>db. sort_key backfill_order (filter (\<lambda>t. tk_sequence t = None \<and>
       (case tk_repo_root t of None \<Rightarrow> False | Some r \<Rightarrow> trim_matches (\<lambda>c. c = CHR '' '') r \<noteq> [])) (db_tasks db)))) (\<lambda>rows.
     for_each backfill_one rows)"

section \<open>The counters stay ahead of the records\<close>

definition numbers_ahead :: "qdb \<Rightarrow> bool" where
  "numbers_ahead db = (\<forall>t \<in> set (db_tasks db). \<forall>r n.
     source_uses_task_sequence (tk_source t) \<and> tk_repo_root t = Some r \<and> trim r \<noteq> [] \<and> tk_sequence t = Some n \<longrightarrow>
     (\<exists>c. counter_of r db = Some c \<and> (int n < c \<or> c = i64_max)))"

definition counters_range :: "qdb \<Rightarrow> bool" where
  "counters_range db = (\<forall>r c. counter_of r db = Some c \<longrightarrow> 1 \<le> c \<and> c \<le> i64_max)"

definition task_inv :: "qdb \<Rightarrow> bool" where
  "task_inv db = (schema_ok db \<and> numbers_ahead db \<and> counters_range db)"

definition counters_grow :: "qdb \<Rightarrow> qdb \<Rightarrow> bool" where
  "counters_grow db db' = (\<forall>r c. counter_of r db = Some c \<longrightarrow> (\<exists>c'. counter_of r db' = Some c' \<and> c \<le> c'))"

definition only_counters :: "qdb \<Rightarrow> qdb \<Rightarrow> bool" where
  "only_counters db db' = (db' = db\<lparr>db_counters := db_counters db'\<rparr>)"

lemma counter_set: "counter_of x (set_counter r n db) = (if x = r then Some n else counter_of x db)"
  by (simp add: counter_of_def set_counter_def update_conv')

lemma schema_ok_set_counter: "schema_ok db \<Longrightarrow> schema_ok (set_counter r n db)"
  by (simp add: set_counter_def schema_parts distinct_update tab_run_ok_def)

lemma only_counters_trans: "only_counters a b \<Longrightarrow> only_counters b c \<Longrightarrow> only_counters a c"
  unfolding only_counters_def by (cases a; cases b; cases c) simp

lemma only_counters_refl [simp]: "only_counters db db"
  by (simp add: only_counters_def)

lemma only_counters_set [simp]: "only_counters db (set_counter r n db)"
  by (simp add: only_counters_def set_counter_def)

lemma only_counters_tasks: "only_counters db db' \<Longrightarrow> db_tasks db' = db_tasks db"
  by (cases db; cases db') (simp add: only_counters_def)

lemma counters_grow_refl [simp]: "counters_grow db db"
  by (simp add: counters_grow_def)

lemma counters_grow_trans: "counters_grow a b \<Longrightarrow> counters_grow b c \<Longrightarrow> counters_grow a c"
  unfolding counters_grow_def by (meson order_trans)

lemma counters_grow_set: "(\<And>c. counter_of r db = Some c \<Longrightarrow> c \<le> n) \<Longrightarrow> counters_grow db (set_counter r n db)"
  by (auto simp: counters_grow_def counter_set)

lemma counters_range_set: "counters_range db \<Longrightarrow> 1 \<le> n \<Longrightarrow> n \<le> i64_max \<Longrightarrow> counters_range (set_counter r n db)"
  by (auto simp: counters_range_def counter_set)

lemma numbers_ahead_grow:
  assumes "numbers_ahead db" and "counters_grow db db'" and "counters_range db'" and "db_tasks db' = db_tasks db"
  shows "numbers_ahead db'"
  unfolding numbers_ahead_def assms(4)
proof (intro ballI allI impI, elim conjE)
  fix t r n assume t: "t \<in> set (db_tasks db)" "source_uses_task_sequence (tk_source t)" "tk_repo_root t = Some r"
    "trim r \<noteq> []" "tk_sequence t = Some n"
  then obtain c where c: "counter_of r db = Some c" "int n < c \<or> c = i64_max"
    using assms(1) unfolding numbers_ahead_def by blast
  then obtain c' where c': "counter_of r db' = Some c'" "c \<le> c'"
    using assms(2) unfolding counters_grow_def by blast
  moreover have "c' \<le> i64_max" using assms(3) c'(1) unfolding counters_range_def by blast
  ultimately show "\<exists>c. counter_of r db' = Some c \<and> (int n < c \<or> c = i64_max)" using c(2) by auto
qed

lemma task_inv_grow:
  assumes "task_inv db" and "counters_grow db db'" and "counters_range db'" and "only_counters db db'" and "schema_ok db'"
  shows "task_inv db'"
  using assms numbers_ahead_grow [OF _ assms(2,3) only_counters_tasks [OF assms(4)]]
  by (simp add: task_inv_def)

lemma i64_of_u64_range: "i64_of_u64 (sat_add_u64 n 1) \<le> i64_max" "1 \<le> i64_of_u64 (sat_add_u64 n 1)"
  by (auto simp: i64_of_u64_def sat_add_u64_def u64_max_def i64_max_def)

lemma i64_of_u64_next: "int n < i64_of_u64 (sat_add_u64 n 1) \<or> i64_of_u64 (sat_add_u64 n 1) = i64_max"
  by (auto simp: i64_of_u64_def sat_add_u64_def u64_max_def i64_max_def)

lemma repo_sequences_iff:
  "n \<in> set (repo_sequences r db) \<longleftrightarrow>
     (\<exists>t \<in> set (db_tasks db). tk_repo_root t = Some r \<and> source_uses_task_sequence (tk_source t) \<and> tk_sequence t = Some n)"
  by (auto simp: repo_sequences_def map_filter_def image_iff split: if_splits)

lemma max_task_sequence_ge: "n \<in> set (repo_sequences r db) \<Longrightarrow> n \<le> max_task_sequence r db"
proof -
  have "n \<in> set xs \<Longrightarrow> n \<le> foldr max xs 0" for xs :: "nat list"
    by (induction xs) (auto simp: max_def)
  then show "n \<in> set (repo_sequences r db) \<Longrightarrow> n \<le> max_task_sequence r db"
    by (simp add: max_task_sequence_def)
qed

text \<open>The number that an allocation hands out, and what it leaves behind.\<close>

lemma allocate_result:
  assumes inv: "task_inv db" and run: "allocate_task_sequence r db = (Inr n, db')" and r: "trim r \<noteq> []"
  shows "task_inv db'" and "only_counters db db'" and "counters_grow db db'"
    and "counter_of r db' = Some (int n + 1)" and "int n < i64_max" and "\<And>c. counter_of r db = Some c \<Longrightarrow> int n = c"
    and "n \<notin> set (repo_sequences r db)"
proof -
  let ?first = "i64_of_u64 (sat_add_u64 (max_task_sequence r db) 1)"
  define c where "c = (case counter_of r db of None \<Rightarrow> ?first | Some c \<Rightarrow> c)"
  have init: "counter_of r (init_counter r ?first db) = Some c"
    by (auto simp: init_counter_def c_def counter_set split: option.splits)
  have range: "1 \<le> c" "c \<le> i64_max"
    using inv i64_of_u64_range by (auto simp: c_def task_inv_def counters_range_def split: option.splits)
  have n: "c \<noteq> i64_max" "n = nat c" "db' = set_counter r (c + 1) (init_counter r ?first db)"
    using run init range
    by (auto simp: allocate_task_sequence_def take_number_def run_bnd split: if_splits)
  have db': "db' = set_counter r (c + 1) db"
    using n(3) by (simp add: init_counter_def set_counter_def split: if_splits)
  show cnt: "counter_of r db' = Some (int n + 1)" using n range by (simp add: db' counter_set)
  show "int n < i64_max" using n range by simp
  show only: "only_counters db db'" by (simp add: db')
  show grow: "counters_grow db db'" unfolding db' by (rule counters_grow_set) (simp add: c_def)
  have "counters_range db'" unfolding db'
    by (rule counters_range_set) (use inv n range in \<open>auto simp: task_inv_def\<close>)
  moreover have "schema_ok db'" using inv by (simp add: db' task_inv_def schema_ok_set_counter)
  ultimately show "task_inv db'" using task_inv_grow [OF inv grow _ only] by blast
  show "int n = c'" if "counter_of r db = Some c'" for c' using that n range by (simp add: c_def)
  show "n \<notin> set (repo_sequences r db)"
  proof
    assume mem: "n \<in> set (repo_sequences r db)"
    then obtain t where "t \<in> set (db_tasks db)" "tk_repo_root t = Some r" "source_uses_task_sequence (tk_source t)"
      "tk_sequence t = Some n" by (auto simp: repo_sequences_iff)
    then obtain c' where "counter_of r db = Some c'" "int n < c' \<or> c' = i64_max"
      using inv r unfolding task_inv_def numbers_ahead_def by blast
    with n range show False by (auto simp: c_def)
  qed
qed

lemma advance_result:
  assumes inv: "task_inv db" and run: "advance_task_sequence_counter_for_record repo sq db = (res, db')"
  shows "res = Inr ()" and "task_inv db'" and "only_counters db db'" and "counters_grow db db'"
    and "\<And>r n. repo = Some r \<Longrightarrow> trim r \<noteq> [] \<Longrightarrow> sq = Some n \<Longrightarrow>
      (\<exists>c. counter_of r db' = Some c \<and> (int n < c \<or> c = i64_max)) \<and>
      (counter_of r db = Some (int n + 1) \<longrightarrow> int n < i64_max \<longrightarrow> counter_of r db' = Some (int n + 1))"
proof -
  have "res = Inr () \<and> task_inv db' \<and> only_counters db db' \<and> counters_grow db db' \<and>
    (\<forall>r n. repo = Some r \<longrightarrow> trim r \<noteq> [] \<longrightarrow> sq = Some n \<longrightarrow>
      (\<exists>c. counter_of r db' = Some c \<and> (int n < c \<or> c = i64_max)) \<and>
      (counter_of r db = Some (int n + 1) \<longrightarrow> int n < i64_max \<longrightarrow> counter_of r db' = Some (int n + 1)))"
  proof (cases "\<exists>r n. repo = Some r \<and> sq = Some n \<and> trim r \<noteq> []")
    case False
    then have "advance_task_sequence_counter_for_record repo sq = ret ()"
      by (auto simp: advance_task_sequence_counter_for_record_def split: option.splits)
    with run inv False show ?thesis by auto
  next
    case True
    then obtain r n where rn: "repo = Some r" "sq = Some n" "trim r \<noteq> []" by blast
    define new where "new = i64_of_u64 (sat_add_u64 n 1)"
    define c where "c = (case counter_of r db of None \<Rightarrow> new | Some m \<Rightarrow> max m new)"
    have db': "res = Inr ()" "db' = set_counter r c db"
      using run rn unfolding c_def new_def
      by (auto simp: advance_task_sequence_counter_for_record_def advance_task_sequence_counter_def raise_counter_def
          split: option.splits)
    have new: "new \<le> i64_max" "1 \<le> new" "int n < new \<or> new = i64_max"
      using i64_of_u64_range [of n] i64_of_u64_next [of n] by (simp_all add: new_def)
    have old: "m \<le> i64_max" if "counter_of r db = Some m" for m
      using inv that by (simp add: task_inv_def counters_range_def)
    have c: "1 \<le> c" "c \<le> i64_max" "new \<le> c" using new old by (auto simp: c_def split: option.splits)
    have grow: "counters_grow db db'" unfolding db' by (rule counters_grow_set) (simp add: c_def)
    have "counters_range db'" unfolding db' by (rule counters_range_set) (use inv c in \<open>auto simp: task_inv_def\<close>)
    moreover have "schema_ok db'" using inv by (simp add: db' task_inv_def schema_ok_set_counter)
    ultimately have inv': "task_inv db'" using task_inv_grow [OF inv grow] by (simp add: db')
    have "counter_of r db' = Some c" by (simp add: db' counter_set)
    moreover have "int n < c \<or> c = i64_max" using new(3) c(2,3) by auto
    moreover have "c = int n + 1" if "counter_of r db = Some (int n + 1)" "int n < i64_max"
      using that by (simp add: c_def new_def i64_of_u64_def sat_add_u64_def u64_max_def i64_max_def)
    ultimately show ?thesis using db' inv' grow rn by auto
  qed
  then show "res = Inr ()" and "task_inv db'" and "only_counters db db'" and "counters_grow db db'"
    and "\<And>r n. repo = Some r \<Longrightarrow> trim r \<noteq> [] \<Longrightarrow> sq = Some n \<Longrightarrow>
      (\<exists>c. counter_of r db' = Some c \<and> (int n < c \<or> c = i64_max)) \<and>
      (counter_of r db = Some (int n + 1) \<longrightarrow> int n < i64_max \<longrightarrow> counter_of r db' = Some (int n + 1))"
    by blast+
qed

lemma sequence_result:
  assumes inv: "task_inv db" and run: "task_record_sequence_for_upsert record existing repo changed db = (Inr sq, db')"
  shows "task_inv db'" and "only_counters db db'" and "counters_grow db db'"
    and "\<not> source_uses_task_sequence (tk_source record) \<Longrightarrow> sq = None"
    and "\<And>row n. source_uses_task_sequence (tk_source record) \<Longrightarrow> existing = Some row \<Longrightarrow> \<not> changed \<Longrightarrow>
      tk_sequence row = Some n \<Longrightarrow> sq = Some n"
    and "\<And>r. source_uses_task_sequence (tk_source record) \<Longrightarrow> tk_sequence record = None \<Longrightarrow>
      (\<And>row. existing = Some row \<Longrightarrow> changed \<or> tk_sequence row = None) \<Longrightarrow> repo = Some r \<Longrightarrow> trim r \<noteq> [] \<Longrightarrow>
      (\<exists>n. sq = Some n \<and> counter_of r db' = Some (int n + 1) \<and> int n < i64_max \<and>
         (\<forall>c. counter_of r db = Some c \<longrightarrow> int n = c) \<and> n \<notin> set (repo_sequences r db))"
proof -
  let ?old = "Option.bind existing (\<lambda>row. if changed then None else tk_sequence row)"
  consider (none) "\<not> source_uses_task_sequence (tk_source record)" "sq = None" "db' = db"
    | (kept) n where "source_uses_task_sequence (tk_source record)" "?old = Some n" "sq = Some n" "db' = db"
    | (given) n where "source_uses_task_sequence (tk_source record)" "?old = None" "tk_sequence record = Some n" "db' = db"
    | (no_repo) "source_uses_task_sequence (tk_source record)" "?old = None" "tk_sequence record = None"
        "\<forall>r. repo = Some r \<longrightarrow> trim r = []" "db' = db"
    | (fresh) r n where "source_uses_task_sequence (tk_source record)" "?old = None" "tk_sequence record = None"
        "repo = Some r" "trim r \<noteq> []" "sq = Some n" "allocate_task_sequence r db = (Inr n, db')"
  proof (cases "source_uses_task_sequence (tk_source record)")
    case False
    with run none show ?thesis by (simp add: task_record_sequence_for_upsert_def)
  next
    case uses: True
    show ?thesis
    proof (cases "\<exists>n. ?old = Some n \<or> tk_sequence record = Some n")
      case True
      with run uses kept given show ?thesis
        by (cases ?old; cases "tk_sequence record") (auto simp: task_record_sequence_for_upsert_def Let_def)
    next
      case False
      then have no: "?old = None" "tk_sequence record = None" by (meson not_None_eq)+
      show ?thesis
      proof (cases repo)
        case None
        with run uses no no_repo show ?thesis by (simp add: task_record_sequence_for_upsert_def Let_def)
      next
        case (Some r)
        with run uses no no_repo fresh show ?thesis
          by (cases "trim r = []")
             (auto simp: task_record_sequence_for_upsert_def Let_def run_bnd split: prod.splits sum.splits)
      qed
    qed
  qed
  note cases = this
  have all: "task_inv db' \<and> only_counters db db' \<and> counters_grow db db'"
    by (cases rule: cases) (use inv allocate_result(1-3) [OF inv] in auto)
  then show "task_inv db'" "only_counters db db'" "counters_grow db db'" by auto
  show "sq = None" if "\<not> source_uses_task_sequence (tk_source record)"
    by (cases rule: cases) (use that in auto)
  show "sq = Some n" if "source_uses_task_sequence (tk_source record)" "existing = Some row" "\<not> changed" "tk_sequence row = Some n" for row n
    by (cases rule: cases) (use that in auto)
  show "\<exists>n. sq = Some n \<and> counter_of r db' = Some (int n + 1) \<and> int n < i64_max \<and>
      (\<forall>c. counter_of r db = Some c \<longrightarrow> int n = c) \<and> n \<notin> set (repo_sequences r db)"
    if "source_uses_task_sequence (tk_source record)" "tk_sequence record = None"
      "\<And>row. existing = Some row \<Longrightarrow> changed \<or> tk_sequence row = None" "repo = Some r" "trim r \<noteq> []" for r
  proof (cases rule: cases)
    case (fresh r' n)
    with that allocate_result(4-7) [OF inv fresh(7,5)] show ?thesis by auto
  qed (use that in \<open>auto simp: bind_eq_Some_conv split: if_splits\<close>)
qed

definition replace_task :: "task_record_row \<Rightarrow> qdb \<Rightarrow> qdb" where
  "replace_task row db = db\<lparr>db_tasks := upsert_by tk_id merge_task row (db_tasks db)\<rparr>"

lemma upsert_task_cases:
  assumes "upsert_task_record record db = (Inr stored, db')"
  obtains sq d1 d2 where
    "task_record_sequence_for_upsert record (find_task (tk_id record) db)
       (coalesce (tk_repo_root record) (Option.bind (find_task (tk_id record) db) tk_repo_root))
       (case (tk_repo_root record, Option.bind (find_task (tk_id record) db) tk_repo_root) of
          (Some new, Some old) \<Rightarrow> new \<noteq> old | _ \<Rightarrow> False) db = (Inr sq, d1)"
    "advance_task_sequence_counter_for_record
       (coalesce (tk_repo_root record) (Option.bind (find_task (tk_id record) db) tk_repo_root)) sq d1 = (Inr (), d2)"
    "db' = replace_task (upserted_record record (find_task (tk_id record) db)
       (coalesce (tk_repo_root record) (Option.bind (find_task (tk_id record) db) tk_repo_root)) sq) d2"
    "schema_ok db'" "find_task (tk_id record) db' = Some stored"
  using assms that
  by (auto simp: upsert_task_record_def Let_def store_task_def replace_task_def run_bnd run_sql_exec
      transaction_def split: prod.splits sum.splits if_splits option.splits)

lemma coalesce_idem [simp]: "coalesce (coalesce a b) b = coalesce a b"
  by (cases a; cases b) (simp_all add: coalesce_def)

definition joined_repo :: "task_record_row \<Rightarrow> qdb \<Rightarrow> string option" where
  "joined_repo record db = coalesce (tk_repo_root record) (Option.bind (find_task (tk_id record) db) tk_repo_root)"

definition moved :: "task_record_row \<Rightarrow> qdb \<Rightarrow> bool" where
  "moved record db = (case (tk_repo_root record, Option.bind (find_task (tk_id record) db) tk_repo_root) of
     (Some new, Some old) \<Rightarrow> new \<noteq> old | _ \<Rightarrow> False)"

lemma merge_task_id [simp]: "tk_id (merge_task old new) = tk_id old"
  by (simp add: merge_task_def)

lemma upserted_record_facts [simp]:
  "tk_id (upserted_record record ex repo sq) = tk_id record"
  "tk_source (upserted_record record ex repo sq) = tk_source record"
  "tk_repo_root (upserted_record record ex repo sq) = repo"
  "tk_sequence (upserted_record record ex repo sq) = sq"
  by (simp_all add: upserted_record_def)

lemma find_replace_task:
  "find_task a (replace_task row db) =
     (if a = tk_id row then Some (case find_task a db of None \<Rightarrow> row | Some old \<Rightarrow> merge_task old row)
      else find_task a db)"
  unfolding find_task_def replace_task_def by (simp add: find_upsert_by [where key = tk_id])

lemma find_task_only_counters: "only_counters db db' \<Longrightarrow> find_task a db' = find_task a db"
  by (simp add: find_task_def only_counters_tasks)

lemma numbers_ahead_replace:
  assumes "numbers_ahead db" and "\<And>t. find_task (tk_id row) (replace_task row db) = Some t \<Longrightarrow>
      \<forall>r n. source_uses_task_sequence (tk_source t) \<and> tk_repo_root t = Some r \<and> trim r \<noteq> [] \<and> tk_sequence t = Some n \<longrightarrow>
        (\<exists>c. counter_of r db = Some c \<and> (int n < c \<or> c = i64_max))"
    and "schema_ok (replace_task row db)"
  shows "numbers_ahead (replace_task row db)"
proof -
  have cnt: "counter_of r (replace_task row db) = counter_of r db" for r
    by (simp add: counter_of_def replace_task_def)
  have dist: "distinct (map tk_id (db_tasks (replace_task row db)))"
    using assms(3) by (simp add: schema_ok_def tasks_ok_def)
  show ?thesis
    unfolding numbers_ahead_def cnt
  proof
    fix t assume t: "t \<in> set (db_tasks (replace_task row db))"
    then have find: "find_task (tk_id t) (replace_task row db) = Some t"
      using dist unfolding find_task_def by (rule_tac find_key_unique) auto
    show "\<forall>r n. source_uses_task_sequence (tk_source t) \<and> tk_repo_root t = Some r \<and> trim r \<noteq> [] \<and> tk_sequence t = Some n \<longrightarrow>
        (\<exists>c. counter_of r db = Some c \<and> (int n < c \<or> c = i64_max))"
    proof (cases "tk_id t = tk_id row")
      case True
      with find assms(2) show ?thesis by metis
    next
      case False
      then have "find_task (tk_id t) db = Some t" using find by (simp add: find_replace_task)
      then have "t \<in> set (db_tasks db)" unfolding find_task_def by (auto dest: find_Some_set)
      with assms(1) show ?thesis unfolding numbers_ahead_def by blast
    qed
  qed
qed

lemma upsert_task_result:
  assumes inv: "task_inv db" and run: "upsert_task_record record db = (Inr stored, db')"
  shows "task_inv db'" and "counters_grow db db'" and "find_task (tk_id record) db' = Some stored"
    and "\<And>a. a \<noteq> tk_id record \<Longrightarrow> find_task a db' = find_task a db"
    and "\<exists>sq d1. task_record_sequence_for_upsert record (find_task (tk_id record) db) (joined_repo record db)
          (moved record db) db = (Inr sq, d1) \<and> tk_sequence stored = sq \<and>
          (\<forall>r n. joined_repo record db = Some r \<and> trim r \<noteq> [] \<and> sq = Some n \<and> counter_of r d1 = Some (int n + 1) \<and>
             int n < i64_max \<longrightarrow> counter_of r db' = Some (int n + 1))"
    and "tk_repo_root stored = joined_repo record db \<and> tk_source stored = tk_source record"
proof -
  let ?ex = "find_task (tk_id record) db" and ?repo = "joined_repo record db"
  obtain sq d1 d2 where
    sq: "task_record_sequence_for_upsert record ?ex ?repo (moved record db) db = (Inr sq, d1)"
    and adv: "advance_task_sequence_counter_for_record ?repo sq d1 = (Inr (), d2)"
    and db': "db' = replace_task (upserted_record record ?ex ?repo sq) d2"
    and ok: "schema_ok db'" and stored: "find_task (tk_id record) db' = Some stored"
    unfolding joined_repo_def moved_def by (rule upsert_task_cases [OF run])
  note s = sequence_result [OF inv sq] and a = advance_result [OF _ adv]
  have inv1: "task_inv d1" using s(1) .
  have only: "only_counters db d2" using only_counters_trans [OF s(2) a(3) [OF inv1]] .
  have inv2: "task_inv d2" using a(2) [OF inv1] .
  have find2: "find_task x d2 = find_task x db" for x using find_task_only_counters [OF only] .
  have cnt: "counter_of r db' = counter_of r d2" for r by (simp add: db' counter_of_def replace_task_def)
  have st: "stored = (case ?ex of None \<Rightarrow> upserted_record record ?ex ?repo sq
      | Some old \<Rightarrow> merge_task old (upserted_record record ?ex ?repo sq))"
    using stored by (simp add: db' find_replace_task find2)
  have fields: "tk_sequence stored = sq" "tk_source stored = tk_source record" "tk_repo_root stored = ?repo"
    unfolding st by (cases ?ex; simp add: merge_task_def joined_repo_def)+
  show "find_task (tk_id record) db' = Some stored" using stored .
  show "find_task x db' = find_task x db" if "x \<noteq> tk_id record" for x
    using that by (simp add: db' find_replace_task find2)
  show grow: "counters_grow db db'"
    using counters_grow_trans [OF s(3) a(4) [OF inv1]] unfolding counters_grow_def cnt .
  have "numbers_ahead db'"
    unfolding db'
  proof (rule numbers_ahead_replace)
    show "numbers_ahead d2" using inv2 by (simp add: task_inv_def)
    show "schema_ok (replace_task (upserted_record record ?ex ?repo sq) d2)" using ok db' by simp
    fix t assume "find_task (tk_id (upserted_record record ?ex ?repo sq)) (replace_task (upserted_record record ?ex ?repo sq) d2) = Some t"
    then have "t = stored" using stored db' by simp
    then show "\<forall>r n. source_uses_task_sequence (tk_source t) \<and> tk_repo_root t = Some r \<and> trim r \<noteq> [] \<and> tk_sequence t = Some n \<longrightarrow>
        (\<exists>c. counter_of r d2 = Some c \<and> (int n < c \<or> c = i64_max))"
      using a(5) [OF inv1] fields by auto
  qed
  moreover have "counters_range db'" using inv2 by (simp add: task_inv_def counters_range_def cnt)
  ultimately show "task_inv db'" using ok by (simp add: task_inv_def)
  show "\<exists>sq d1. task_record_sequence_for_upsert record ?ex ?repo (moved record db) db = (Inr sq, d1) \<and>
      tk_sequence stored = sq \<and>
      (\<forall>r n. ?repo = Some r \<and> trim r \<noteq> [] \<and> sq = Some n \<and> counter_of r d1 = Some (int n + 1) \<and>
         int n < i64_max \<longrightarrow> counter_of r db' = Some (int n + 1))"
    using sq fields(1) a(5) [OF inv1] cnt by auto
  show "tk_repo_root stored = ?repo \<and> tk_source stored = tk_source record" using fields by simp
qed

text \<open>A record that is due for a number of the repository: its source is numbered, and neither it nor its stored row has one.\<close>

definition wants_number :: "task_record_row \<Rightarrow> qdb \<Rightarrow> string \<Rightarrow> bool" where
  "wants_number record db r =
     (source_uses_task_sequence (tk_source record) \<and> tk_sequence record = None \<and>
      joined_repo record db = Some r \<and> trim r \<noteq> [] \<and>
      (case find_task (tk_id record) db of None \<Rightarrow> True
       | Some row \<Rightarrow> moved record db \<or> tk_sequence row = None))"

lemma upsert_numbers:
  assumes inv: "task_inv db" and run: "upsert_task_record record db = (Inr stored, db')"
  shows "wants_number record db r \<Longrightarrow> \<exists>n. tk_sequence stored = Some n \<and> n \<notin> set (repo_sequences r db) \<and>
      (\<forall>c. counter_of r db = Some c \<longrightarrow> int n = c) \<and> counter_of r db' = Some (int n + 1)"
    and "source_uses_task_sequence (tk_source record) \<Longrightarrow> find_task (tk_id record) db = Some row \<Longrightarrow>
      \<not> moved record db \<Longrightarrow> tk_sequence row = Some n \<Longrightarrow> tk_sequence stored = Some n"
    and "\<not> source_uses_task_sequence (tk_source record) \<Longrightarrow> tk_sequence stored = None"
proof -
  obtain sq d1 where sq: "task_record_sequence_for_upsert record (find_task (tk_id record) db) (joined_repo record db)
      (moved record db) db = (Inr sq, d1)" "tk_sequence stored = sq"
    and cnt: "\<forall>r n. joined_repo record db = Some r \<and> trim r \<noteq> [] \<and> sq = Some n \<and> counter_of r d1 = Some (int n + 1) \<and>
      int n < i64_max \<longrightarrow> counter_of r db' = Some (int n + 1)"
    using upsert_task_result(5) [OF inv run] by blast
  note s = sequence_result [OF inv sq(1)]
  show "\<exists>n. tk_sequence stored = Some n \<and> n \<notin> set (repo_sequences r db) \<and>
      (\<forall>c. counter_of r db = Some c \<longrightarrow> int n = c) \<and> counter_of r db' = Some (int n + 1)" if w: "wants_number record db r"
  proof -
    have w': "source_uses_task_sequence (tk_source record)" "tk_sequence record = None" "joined_repo record db = Some r"
      "trim r \<noteq> []" "\<And>row. find_task (tk_id record) db = Some row \<Longrightarrow> moved record db \<or> tk_sequence row = None"
      using w by (auto simp: wants_number_def)
    obtain n where "sq = Some n" "counter_of r d1 = Some (int n + 1)" "int n < i64_max"
      "\<forall>c. counter_of r db = Some c \<longrightarrow> int n = c" "n \<notin> set (repo_sequences r db)"
      using s(6) [OF w'(1,2,5,3,4)] by blast
    with cnt w'(3,4) sq(2) show ?thesis by blast
  qed
  show "tk_sequence stored = Some n" if "source_uses_task_sequence (tk_source record)"
    "find_task (tk_id record) db = Some row" "\<not> moved record db" "tk_sequence row = Some n"
    using s(5) [OF that] sq(2) by simp
  show "tk_sequence stored = None" if "\<not> source_uses_task_sequence (tk_source record)"
    using s(4) [OF that] sq(2) by simp
qed

text \<open>
  Storing a task record. A stored record can be read back and no other record changes; a new
  record of a numbered source gets the number its repository's counter shows, which no record of
  the repository has, and the counter moves past it; a stored record keeps its number as long as
  it stays in its repository; ad-hoc sources have none. The counters stay ahead of all numbers.
  A store that fails changes nothing.
\<close>

theorem store_task_record:
  assumes "task_inv db"
  shows "case upsert_task_record record db of
      (Inl e, db') \<Rightarrow> db' = db
    | (Inr stored, db') \<Rightarrow> task_inv db' \<and> find_task (tk_id record) db' = Some stored \<and>
        (\<forall>a. a \<noteq> tk_id record \<longrightarrow> find_task a db' = find_task a db) \<and>
        (\<forall>r. wants_number record db r \<longrightarrow> (\<exists>n. tk_sequence stored = Some n \<and> n \<notin> set (repo_sequences r db) \<and>
           (\<forall>c. counter_of r db = Some c \<longrightarrow> int n = c) \<and> counter_of r db' = Some (int n + 1))) \<and>
        (\<forall>row n. source_uses_task_sequence (tk_source record) \<and> find_task (tk_id record) db = Some row \<and>
           \<not> moved record db \<and> tk_sequence row = Some n \<longrightarrow> tk_sequence stored = Some n) \<and>
        (\<not> source_uses_task_sequence (tk_source record) \<longrightarrow> tk_sequence stored = None)"
proof -
  obtain res db' where run: "upsert_task_record record db = (res, db')" by fastforce
  show ?thesis
  proof (cases res)
    case (Inl e)
    have "db' = db" using run Inl unfolding upsert_task_record_def by (auto dest: transaction_Inl)
    with run Inl show ?thesis by simp
  next
    case (Inr stored)
    note run' = run [unfolded Inr]
    show ?thesis
      unfolding run' using upsert_task_result(1,3,4) [OF assms run'] upsert_numbers [OF assms run'] by auto
  qed
qed

section \<open>Numbers over a history\<close>

datatype task_op = StoreTask task_record_row | DeleteTask string

fun task_step :: "task_op \<Rightarrow> qdb \<Rightarrow> qdb" where
  "task_step (StoreTask record) db = snd (upsert_task_record record db)"
| "task_step (DeleteTask a) db = snd (delete_task_record a db)"

fun number_given :: "string \<Rightarrow> task_op \<Rightarrow> qdb \<Rightarrow> nat option" where
  "number_given r (StoreTask record) db =
     (if wants_number record db r then case fst (upsert_task_record record db) of
        Inl e \<Rightarrow> None | Inr stored \<Rightarrow> tk_sequence stored else None)"
| "number_given r (DeleteTask a) db = None"

fun numbers_given :: "string \<Rightarrow> task_op list \<Rightarrow> qdb \<Rightarrow> nat list" where
  "numbers_given r [] db = []"
| "numbers_given r (act # acts) db =
     (case number_given r act db of None \<Rightarrow> [] | Some n \<Rightarrow> [n]) @ numbers_given r acts (task_step act db)"

lemma delete_task_inv:
  assumes "task_inv db"
  shows "task_inv (snd (delete_task_record a db))" and "counters_grow db (snd (delete_task_record a db))"
proof -
  let ?db = "db\<lparr>db_tasks := delete_where (\<lambda>t. tk_id t = a) (db_tasks db)\<rparr>"
  have cases: "snd (delete_task_record a db) = db \<or> (snd (delete_task_record a db) = ?db \<and> schema_ok ?db)"
    by (auto simp: delete_task_record_def transaction_def run_bnd run_sql_exec split: sum.splits prod.splits if_splits)
  have cnt: "counter_of r ?db = counter_of r db" for r by (simp add: counter_of_def)
  have "numbers_ahead ?db"
    using assms unfolding task_inv_def numbers_ahead_def cnt by (auto simp: set_delete_where)
  moreover have "counters_range ?db" using assms by (simp add: task_inv_def counters_range_def cnt)
  ultimately show "task_inv (snd (delete_task_record a db))" using cases assms by (auto simp: task_inv_def)
  show "counters_grow db (snd (delete_task_record a db))"
    using cases by (auto simp: counters_grow_def cnt)
qed

lemma task_step_inv:
  assumes "task_inv db"
  shows "task_inv (task_step act db)" and "counters_grow db (task_step act db)"
    and "number_given r act db = Some n \<Longrightarrow> counter_of r (task_step act db) = Some (int n + 1) \<and>
      (\<forall>c. counter_of r db = Some c \<longrightarrow> c \<le> int n)"
proof -
  have all: "task_inv (task_step act db) \<and> counters_grow db (task_step act db) \<and>
    (number_given r act db = Some n \<longrightarrow> counter_of r (task_step act db) = Some (int n + 1) \<and>
      (\<forall>c. counter_of r db = Some c \<longrightarrow> c \<le> int n))" for r n
  proof (cases act)
    case (DeleteTask a)
    then show ?thesis using delete_task_inv [OF assms] by simp
  next
    case (StoreTask t)
    obtain res db' where run: "upsert_task_record t db = (res, db')" by fastforce
    show ?thesis
    proof (cases res)
      case (Inl e)
      have "db' = db" using run Inl unfolding upsert_task_record_def by (auto dest: transaction_Inl)
      with run Inl StoreTask assms show ?thesis by simp
    next
      case (Inr stored)
      note run' = run [unfolded Inr]
      have "counter_of r db' = Some (int n + 1) \<and> (\<forall>c. counter_of r db = Some c \<longrightarrow> c \<le> int n)"
        if "wants_number t db r" "tk_sequence stored = Some n"
        using upsert_numbers(1) [OF assms run' that(1)] that(2) by auto
      then show ?thesis
        using upsert_task_result(1,2) [OF assms run'] run' StoreTask by simp
    qed
  qed
  show "task_inv (task_step act db)" "counters_grow db (task_step act db)" using all by blast+
  show "number_given r act db = Some n \<Longrightarrow> counter_of r (task_step act db) = Some (int n + 1) \<and>
      (\<forall>c. counter_of r db = Some c \<longrightarrow> c \<le> int n)" using all by blast
qed

lemma numbers_given_above:
  "task_inv db \<Longrightarrow> sorted_wrt (<) (numbers_given r acts db) \<and>
     (\<forall>c. counter_of r db = Some c \<longrightarrow> (\<forall>n \<in> set (numbers_given r acts db). c \<le> int n))"
proof (induction acts arbitrary: db)
  case (Cons act acts)
  let ?db = "task_step act db"
  have inv: "task_inv ?db" and grow: "counters_grow db ?db" using task_step_inv [OF Cons.prems] by auto
  note IH = Cons.IH [OF inv]
  show ?case
  proof (cases "number_given r act db")
    case None
    then have ns: "numbers_given r (act # acts) db = numbers_given r acts ?db" by simp
    have "\<forall>n \<in> set (numbers_given r acts ?db). c \<le> int n" if c: "counter_of r db = Some c" for c
    proof -
      obtain c' where "counter_of r ?db = Some c'" "c \<le> c'" using grow c unfolding counters_grow_def by blast
      with IH show ?thesis by (meson order_trans)
    qed
    with IH show ?thesis unfolding ns by blast
  next
    case (Some n)
    then have n: "counter_of r ?db = Some (int n + 1)" "\<forall>c. counter_of r db = Some c \<longrightarrow> c \<le> int n"
      using task_step_inv(3) [OF Cons.prems] by auto
    then have "\<forall>m \<in> set (numbers_given r acts ?db). int n + 1 \<le> int m" using IH by blast
    then have later: "\<forall>m \<in> set (numbers_given r acts ?db). n < m" by force
    have ns: "numbers_given r (act # acts) db = n # numbers_given r acts ?db" using Some by simp
    have "\<forall>m \<in> set (numbers_given r (act # acts) db). c \<le> int m" if c: "counter_of r db = Some c" for c
      using n(2) c later unfolding ns by fastforce
    moreover have "sorted_wrt (<) (numbers_given r (act # acts) db)" using IH later unfolding ns by simp
    ultimately show ?thesis by blast
  qed
qed simp

text \<open>
  C21. No task number is given twice: over any history of storing and deleting records, the
  numbers handed out in one repository increase strictly, also past deleted records.
\<close>

theorem task_numbers_never_reused:
  assumes "task_inv db"
  shows "sorted_wrt (<) (numbers_given r acts db)"
  using numbers_given_above [OF assms] by blast

definition sample_task :: "string \<Rightarrow> task_record_row" where
  "sample_task a = new_task_record 7 a ''task-flow'' ''title'' ''text'' ''open'' (Some ''/repo'') None None None"

lemma empty_task_inv: "task_inv empty_db"
  using schema_ok_empty_db by (simp add: task_inv_def numbers_ahead_def counters_range_def counter_of_def empty_db_def)

theorem store_task_record_witness:
  "case upsert_task_record (sample_task ''task/a'') empty_db of
      (Inl e, db') \<Rightarrow> db' = empty_db
    | (Inr stored, db') \<Rightarrow> (\<exists>n. tk_sequence stored = Some n \<and> counter_of ''/repo'' db' = Some (int n + 1))"
proof -
  have "wants_number (sample_task ''task/a'') empty_db ''/repo''"
    by (simp add: wants_number_def sample_task_def new_task_record_def source_uses_task_sequence_def joined_repo_def
        coalesce_def find_task_def empty_db_def trim_def trim_matches_def is_whitespace_def)
  with store_task_record [OF empty_task_inv, of "sample_task ''task/a''"] show ?thesis
    by (auto split: prod.splits sum.splits)
qed

theorem task_numbers_never_reused_witness:
  "sorted_wrt (<) (numbers_given ''/repo''
     [StoreTask (sample_task ''task/a''), DeleteTask ''task/a'', StoreTask (sample_task ''task/a'')] empty_db)"
  by (rule task_numbers_never_reused [OF empty_task_inv])

end
