(* ===== verification/Worker_Lease.thy ===== *)
theory Worker_Lease
  imports Queue_Store
begin

text \<open>
  The worker leases of \<open>src/src/state.rs\<close>: acquisition, heartbeat, release and stale recovery of
  the lease on a queue item, and the two inspections. The clock reading is the argument \<open>now\<close>, as
  in the \<open>_at\<close> functions of the source.

  The locale \<open>fenced_lease\<close> is the contract the queue worker relies on: an acquisition raises the
  epoch, nothing else does, and a heartbeat or release is accepted only from the current epoch.
  Inside it, any trace of operations grants strictly increasing epochs and never accepts a
  superseded token. It is interpreted on the operations below, for every item.
\<close>

section \<open>Leases and their states\<close>

record queue_worker_lease =
  lease_run_id :: string
  lease_item_id :: string
  lease_owner_id :: string
  lease_lease_epoch :: int
  lease_acquired_at :: nat
  lease_heartbeat_at :: nat
  lease_expires_at :: nat
  lease_recovered_stale :: bool

datatype lease_acquire =
    Acquired queue_worker_lease
  | Busy string int nat
  | Retryable nat
  | Terminal queue_item_status
  | Missing

datatype lease_state =
    StateMissing
  | StateUnowned int
  | StateActive string int nat
  | StateStale string int nat
  | StateRetryable nat
  | StateTerminal queue_item_status

definition queue_worker_lease_item_state ::
  "string \<Rightarrow> string \<Rightarrow> qdb \<Rightarrow> (queue_item_status \<times> nat option) option" where
  "queue_worker_lease_item_state run_id item_id db =
     map_option (\<lambda>i. (qi_status i, qi_next_attempt_at i)) (find_item run_id item_id db)"

definition retry_in_future :: "nat \<Rightarrow> nat option \<Rightarrow> nat option" where
  "retry_in_future now at = (case at of None \<Rightarrow> None | Some t \<Rightarrow> if now < t then Some t else None)"

definition active_queue_worker_lease ::
  "queue_lease_row option \<Rightarrow> nat \<Rightarrow> (string \<times> int \<times> nat) option" where
  "active_queue_worker_lease lease now =
     (case lease of
        None \<Rightarrow> None
      | Some l \<Rightarrow> (case ql_owner_id l of
          None \<Rightarrow> None
        | Some owner \<Rightarrow> (case ql_expires_at l of
            None \<Rightarrow> None
          | Some expires \<Rightarrow> if now < expires then Some (owner, ql_lease_epoch l, expires) else None)))"

definition lease_was_stale :: "queue_lease_row option \<Rightarrow> nat \<Rightarrow> bool" where
  "lease_was_stale lease now =
     (case lease of
        None \<Rightarrow> False
      | Some l \<Rightarrow> ql_owner_id l \<noteq> None \<and>
          (case ql_expires_at l of None \<Rightarrow> True | Some expires \<Rightarrow> expires \<le> now))"

definition next_lease_epoch :: "queue_lease_row option \<Rightarrow> int" where
  "next_lease_epoch lease = (case lease of None \<Rightarrow> 1 | Some l \<Rightarrow> sat_add_i64 (ql_lease_epoch l) 1)"

definition granted_row :: "string \<Rightarrow> string \<Rightarrow> string \<Rightarrow> int \<Rightarrow> nat \<Rightarrow> nat \<Rightarrow> bool \<Rightarrow> queue_lease_row" where
  "granted_row run_id item_id owner_id epoch now expires_at recovered =
     \<lparr> ql_item_id = item_id, ql_run_id = run_id, ql_owner_id = Some owner_id,
       ql_lease_epoch = epoch, ql_acquired_at = Some now, ql_heartbeat_at = Some now,
       ql_expires_at = Some expires_at, ql_released_at = None,
       ql_recovery_count = (if recovered then 1 else 0), ql_updated_at = now \<rparr>"

definition merge_lease :: "queue_lease_row \<Rightarrow> queue_lease_row \<Rightarrow> queue_lease_row" where
  "merge_lease old new =
     old\<lparr> ql_run_id := ql_run_id new, ql_owner_id := ql_owner_id new,
          ql_lease_epoch := ql_lease_epoch new, ql_acquired_at := ql_acquired_at new,
          ql_heartbeat_at := ql_heartbeat_at new, ql_expires_at := ql_expires_at new,
          ql_released_at := None,
          ql_recovery_count := ql_recovery_count old + ql_recovery_count new,
          ql_updated_at := ql_updated_at new \<rparr>"

section \<open>Operations\<close>

definition acquire_web_queue_item_worker_lease_at ::
  "string \<Rightarrow> string \<Rightarrow> string \<Rightarrow> nat \<Rightarrow> nat \<Rightarrow> (qdb, lease_acquire) prog" where
  "acquire_web_queue_item_worker_lease_at run_id item_id owner_id now lease_ttl_secs =
     (if trim owner_id = [] then throw (Bail ''queue worker lease owner id cannot be empty'')
      else transaction
        (bnd (query (queue_worker_lease_item_state run_id item_id)) (\<lambda>state. case state of
           None \<Rightarrow> ret Missing
         | Some (status, next_attempt_at) \<Rightarrow>
             if item_is_terminal status then ret (Terminal status)
             else case retry_in_future now next_attempt_at of
               Some t \<Rightarrow> ret (Retryable t)
             | None \<Rightarrow>
                 bnd (query (find_lease run_id item_id)) (\<lambda>existing.
                   case active_queue_worker_lease existing now of
                     Some (owner, epoch, expires) \<Rightarrow> ret (Busy owner epoch expires)
                   | None \<Rightarrow>
                       let recovered = lease_was_stale existing now;
                           epoch = next_lease_epoch existing;
                           expires_at = sat_add_u64 now lease_ttl_secs in
                       seq (sql_exec ''failed to acquire queue worker lease'' (\<lambda>_. 1)
                              (\<lambda>db. db\<lparr>db_leases := upsert_by ql_item_id merge_lease
                                 (granted_row run_id item_id owner_id epoch now expires_at recovered)
                                 (db_leases db)\<rparr>))
                         (ret (Acquired \<lparr> lease_run_id = run_id, lease_item_id = item_id,
                            lease_owner_id = owner_id, lease_lease_epoch = epoch,
                            lease_acquired_at = now, lease_heartbeat_at = now,
                            lease_expires_at = expires_at, lease_recovered_stale = recovered \<rparr>))))))"

definition item_open :: "string \<Rightarrow> string \<Rightarrow> qdb \<Rightarrow> bool" where
  "item_open run_id item_id db =
     exists_where (\<lambda>i. item_key run_id item_id i \<and> \<not> item_is_terminal (qi_status i)) (db_items db)"

definition token_key :: "queue_worker_lease \<Rightarrow> queue_lease_row \<Rightarrow> bool" where
  "token_key t l = (ql_run_id l = lease_run_id t \<and> ql_item_id l = lease_item_id t \<and>
     ql_lease_epoch l = lease_lease_epoch t)"

definition heartbeat_web_queue_item_worker_lease_at ::
  "queue_worker_lease \<Rightarrow> nat \<Rightarrow> nat \<Rightarrow> (qdb, bool) prog" where
  "heartbeat_web_queue_item_worker_lease_at t now lease_ttl_secs = (\<lambda>db.
     bnd (update_leases ''failed to heartbeat queue worker lease''
            (\<lambda>l. token_key t l \<and> (ql_owner_id l = Some (lease_owner_id t) \<or> ql_owner_id l = None) \<and>
                 item_open (lease_run_id t) (lease_item_id t) db)
            (\<lambda>l. l\<lparr>ql_owner_id := Some (lease_owner_id t), ql_heartbeat_at := Some now,
                   ql_expires_at := Some (sat_add_u64 now lease_ttl_secs), ql_released_at := None,
                   ql_updated_at := now\<rparr>))
       (\<lambda>updated. ret (0 < updated)) db)"

definition release_web_queue_item_worker_lease :: "nat \<Rightarrow> queue_worker_lease \<Rightarrow> (qdb, bool) prog" where
  "release_web_queue_item_worker_lease now t =
     bnd (update_leases ''failed to release queue worker lease''
            (\<lambda>l. token_key t l \<and> ql_owner_id l = Some (lease_owner_id t))
            (\<lambda>l. l\<lparr>ql_owner_id := None, ql_expires_at := None, ql_released_at := Some now,
                   ql_updated_at := now\<rparr>))
       (\<lambda>updated. ret (0 < updated))"

definition retry_due :: "nat \<Rightarrow> nat option \<Rightarrow> bool" where
  "retry_due now at = (case at of None \<Rightarrow> True | Some t \<Rightarrow> t \<le> now)"

definition lease_recoverable :: "string \<Rightarrow> nat \<Rightarrow> qdb \<Rightarrow> queue_lease_row \<Rightarrow> bool" where
  "lease_recoverable run_id now db l =
     (ql_run_id l = run_id \<and> ql_owner_id l \<noteq> None \<and>
      (case ql_expires_at l of None \<Rightarrow> False | Some expires \<Rightarrow> expires \<le> now) \<and>
      exists_where (\<lambda>i. qi_id i = ql_item_id l \<and> qi_run_id i = run_id \<and>
         \<not> item_is_terminal (qi_status i) \<and> retry_due now (qi_next_attempt_at i)) (db_items db))"

definition recover_stale_web_queue_item_worker_leases_at :: "string \<Rightarrow> nat \<Rightarrow> (qdb, nat) prog" where
  "recover_stale_web_queue_item_worker_leases_at run_id now = (\<lambda>db.
     update_leases ''failed to recover stale queue worker leases'' (lease_recoverable run_id now db)
       (\<lambda>l. l\<lparr>ql_owner_id := None, ql_expires_at := None, ql_released_at := Some now,
              ql_recovery_count := ql_recovery_count l + 1, ql_updated_at := now\<rparr>) db)"

definition active_web_queue_item_worker_lease_ids_at :: "string \<Rightarrow> nat \<Rightarrow> qdb \<Rightarrow> string list" where
  "active_web_queue_item_worker_lease_ids_at run_id now db =
     map ql_item_id (filter (\<lambda>l. ql_run_id l = run_id \<and>
       active_queue_worker_lease (Some l) now \<noteq> None \<and>
       exists_where (\<lambda>i. qi_run_id i = ql_run_id l \<and> qi_id i = ql_item_id l \<and>
         \<not> item_is_terminal (qi_status i) \<and> retry_due now (qi_next_attempt_at i)) (db_items db))
       (db_leases db))"

definition inspect_web_queue_item_worker_lease_at :: "string \<Rightarrow> string \<Rightarrow> nat \<Rightarrow> qdb \<Rightarrow> lease_state" where
  "inspect_web_queue_item_worker_lease_at run_id item_id now db =
     (case queue_worker_lease_item_state run_id item_id db of
        None \<Rightarrow> StateMissing
      | Some (status, next_attempt_at) \<Rightarrow>
          if item_is_terminal status then StateTerminal status
          else case retry_in_future now next_attempt_at of
            Some t \<Rightarrow> StateRetryable t
          | None \<Rightarrow> (case find_lease run_id item_id db of
              None \<Rightarrow> StateUnowned 0
            | Some l \<Rightarrow> (case ql_owner_id l of
                None \<Rightarrow> StateUnowned (ql_lease_epoch l)
              | Some owner \<Rightarrow>
                  let expires_at = (case ql_expires_at l of None \<Rightarrow> now | Some e \<Rightarrow> e) in
                  if now < expires_at then StateActive owner (ql_lease_epoch l) expires_at
                  else StateStale owner (ql_lease_epoch l) expires_at)))"

section \<open>Running the operations\<close>

text \<open>
  Every lease belongs to an item of its run, its owner and its expiry are both set or both null,
  and its epoch is not negative.
\<close>

definition lease_row_ok :: "qdb \<Rightarrow> queue_lease_row \<Rightarrow> bool" where
  "lease_row_ok db l =
     (find_item (ql_run_id l) (ql_item_id l) db \<noteq> None \<and>
      (ql_owner_id l = None) = (ql_expires_at l = None) \<and> 0 \<le> ql_lease_epoch l)"

definition leases_match :: "qdb \<Rightarrow> bool" where
  "leases_match db = list_all (lease_row_ok db) (db_leases db)"

definition lease_inv :: "qdb \<Rightarrow> bool" where
  "lease_inv db = (schema_ok db \<and> leases_match db)"

lemma leases_match_items:
  assumes "\<And>r a. find_item r a db' = None \<longleftrightarrow> find_item r a db = None"
    and "db_leases db' = db_leases db" and "leases_match db"
  shows "leases_match db'"
  using assms by (simp add: leases_match_def list_all_iff lease_row_ok_def)

lemma leases_match_update:
  assumes "leases_match db" and "\<And>l. p l \<Longrightarrow> lease_row_ok db l \<Longrightarrow> lease_row_ok db (f l)"
  shows "leases_match (db\<lparr>db_leases := update_where p f (db_leases db)\<rparr>)"
proof -
  have "lease_row_ok (db\<lparr>db_leases := ls\<rparr>) = lease_row_ok db" for ls
    by (simp add: lease_row_ok_def fun_eq_iff)
  then show ?thesis using assms by (auto simp: leases_match_def list_all_iff set_update_where)
qed

lemma schema_ok_lease_update:
  "schema_ok db \<Longrightarrow> (\<And>l. lease_keys (f l) = lease_keys l) \<Longrightarrow>
   schema_ok (db\<lparr>db_leases := update_where p f (db_leases db)\<rparr>)"
  by (simp add: schema_ok_leases_cong map_update_where)

lemma run_heartbeat [store_simps]:
  assumes "schema_ok db"
  shows "heartbeat_web_queue_item_worker_lease_at t now ttl db =
    (Inr (\<exists>l \<in> set (db_leases db). token_key t l \<and>
        (ql_owner_id l = Some (lease_owner_id t) \<or> ql_owner_id l = None) \<and>
        item_open (lease_run_id t) (lease_item_id t) db),
     db\<lparr>db_leases := update_where (\<lambda>l. token_key t l \<and>
        (ql_owner_id l = Some (lease_owner_id t) \<or> ql_owner_id l = None) \<and>
        item_open (lease_run_id t) (lease_item_id t) db)
       (\<lambda>l. l\<lparr>ql_owner_id := Some (lease_owner_id t), ql_heartbeat_at := Some now,
          ql_expires_at := Some (sat_add_u64 now ttl), ql_released_at := None, ql_updated_at := now\<rparr>)
       (db_leases db)\<rparr>)"
  by (simp only: heartbeat_web_queue_item_worker_lease_at_def)
    (simp add: bnd_update_leases assms lease_keys_def count_where_pos)

lemma run_release [store_simps]:
  assumes "schema_ok db"
  shows "release_web_queue_item_worker_lease now t db =
    (Inr (\<exists>l \<in> set (db_leases db). token_key t l \<and> ql_owner_id l = Some (lease_owner_id t)),
     db\<lparr>db_leases := update_where (\<lambda>l. token_key t l \<and> ql_owner_id l = Some (lease_owner_id t))
       (\<lambda>l. l\<lparr>ql_owner_id := None, ql_expires_at := None, ql_released_at := Some now,
          ql_updated_at := now\<rparr>) (db_leases db)\<rparr>)"
  by (simp add: release_web_queue_item_worker_lease_def bnd_update_leases assms lease_keys_def count_where_pos)

lemma run_recover [store_simps]:
  assumes "schema_ok db"
  shows "recover_stale_web_queue_item_worker_leases_at r now db =
    (Inr (count_where (lease_recoverable r now db) (db_leases db)),
     db\<lparr>db_leases := update_where (lease_recoverable r now db)
       (\<lambda>l. l\<lparr>ql_owner_id := None, ql_expires_at := None, ql_released_at := Some now,
          ql_recovery_count := ql_recovery_count l + 1, ql_updated_at := now\<rparr>) (db_leases db)\<rparr>)"
  by (simp add: recover_stale_web_queue_item_worker_leases_at_def run_update_leases assms lease_keys_def)

lemma schema_ok_lease_upsert:
  assumes ok: "schema_ok db" and i: "find_item r a db = Some i" and key: "lease_keys row = (a, r)"
  shows "schema_ok (db\<lparr>db_leases := upsert_by ql_item_id merge_lease row (db_leases db)\<rparr>)"
proof -
  have row: "ql_item_id row = a" "ql_run_id row = r" using key by (simp_all add: lease_keys_def)
  have item: "a \<in> qi_id ` set (db_items db)" "r \<in> qr_id ` set (db_runs db)"
    using i find_item_Some_iff [OF ok] ok by (auto simp: schema_parts list_all_iff)
  have "distinct (map ql_item_id (upsert_by ql_item_id merge_lease row (db_leases db)))"
    using ok by (intro distinct_upsert_by) (simp_all add: merge_lease_def schema_parts)
  moreover have "ql_item_id l \<in> qi_id ` set (db_items db) \<and> ql_run_id l \<in> qr_id ` set (db_runs db)"
    if l: "l \<in> set (upsert_by ql_item_id merge_lease row (db_leases db))" for l
  proof -
    have old: "ql_item_id k \<in> qi_id ` set (db_items db) \<and> ql_run_id k \<in> qr_id ` set (db_runs db)"
      if "k \<in> set (db_leases db)" for k
      using ok that by (simp add: schema_parts list_all_iff)
    from set_upsert_by [OF l] show ?thesis
      using item row old by (elim disjE bexE conjE) (simp_all add: merge_lease_def)
  qed
  ultimately show ?thesis using ok by (simp add: schema_parts list_all_iff)
qed

definition grant_db :: "string \<Rightarrow> string \<Rightarrow> string \<Rightarrow> nat \<Rightarrow> nat \<Rightarrow> qdb \<Rightarrow> qdb" where
  "grant_db r a owner now ttl db =
     db\<lparr>db_leases := upsert_by ql_item_id merge_lease
       (granted_row r a owner (next_lease_epoch (find_lease r a db)) now (sat_add_u64 now ttl)
          (lease_was_stale (find_lease r a db) now)) (db_leases db)\<rparr>"

definition granted_token :: "string \<Rightarrow> string \<Rightarrow> string \<Rightarrow> nat \<Rightarrow> nat \<Rightarrow> qdb \<Rightarrow> queue_worker_lease" where
  "granted_token r a owner now ttl db =
     \<lparr> lease_run_id = r, lease_item_id = a, lease_owner_id = owner,
       lease_lease_epoch = next_lease_epoch (find_lease r a db), lease_acquired_at = now,
       lease_heartbeat_at = now, lease_expires_at = sat_add_u64 now ttl,
       lease_recovered_stale = lease_was_stale (find_lease r a db) now \<rparr>"

lemma granted_row_keys [simp]: "lease_keys (granted_row r a owner epoch now e s) = (a, r)"
  by (simp add: granted_row_def lease_keys_def)

lemma schema_ok_grant: "schema_ok db \<Longrightarrow> find_item r a db = Some i \<Longrightarrow> schema_ok (grant_db r a owner now ttl db)"
  unfolding grant_db_def by (rule schema_ok_lease_upsert) simp_all

lemma run_acquire [store_simps]:
  assumes ok: "schema_ok db"
  shows "acquire_web_queue_item_worker_lease_at r a owner now ttl db =
    (if trim owner = [] then (Inl (Bail ''queue worker lease owner id cannot be empty''), db)
     else case find_item r a db of
       None \<Rightarrow> (Inr Missing, db)
     | Some i \<Rightarrow>
         if item_is_terminal (qi_status i) then (Inr (Terminal (qi_status i)), db)
         else case retry_in_future now (qi_next_attempt_at i) of
           Some t \<Rightarrow> (Inr (Retryable t), db)
         | None \<Rightarrow> (case active_queue_worker_lease (find_lease r a db) now of
             Some (o', e, x) \<Rightarrow> (Inr (Busy o' e x), db)
           | None \<Rightarrow> (Inr (Acquired (granted_token r a owner now ttl db)), grant_db r a owner now ttl db)))"
proof (cases "find_item r a db")
  case None
  then show ?thesis
    by (simp add: acquire_web_queue_item_worker_lease_at_def run_transaction queue_worker_lease_item_state_def)
next
  case (Some i)
  have exec: "bnd (sql_exec ''failed to acquire queue worker lease'' (\<lambda>_. 1)
      (\<lambda>db. db\<lparr>db_leases := upsert_by ql_item_id merge_lease
         (granted_row r a owner (next_lease_epoch (find_lease r a db0)) now (sat_add_u64 now ttl)
            (lease_was_stale (find_lease r a db0) now)) (db_leases db)\<rparr>)) k db0 =
      k 1 (grant_db r a owner now ttl db0)" if "db0 = db" for k :: "nat \<Rightarrow> (qdb, lease_acquire) prog" and db0
    using schema_ok_grant [OF ok Some, of owner now ttl] that
    by (simp add: run_bnd run_sql_exec grant_db_def)
  show ?thesis
    using Some
    by (simp add: acquire_web_queue_item_worker_lease_at_def run_transaction queue_worker_lease_item_state_def
        Let_def exec [OF refl] granted_token_def del: One_nat_def split: option.split)
qed

lemma find_lease_key:
  assumes "schema_ok db"
  shows "find (\<lambda>l. ql_item_id l = a) (db_leases db) = Some l \<longleftrightarrow> l \<in> set (db_leases db) \<and> ql_item_id l = a"
  using lease_table.lookup_iff [of "db_leases db" a l] assms by (simp add: schema_parts)

lemma lease_run_unique:
  assumes inv: "lease_inv db" and i: "find_item r a db = Some i" and l: "l \<in> set (db_leases db)" "ql_item_id l = a"
  shows "ql_run_id l = r"
proof -
  have ok: "schema_ok db" using inv by (simp add: lease_inv_def)
  have "find_item (ql_run_id l) a db \<noteq> None"
    using inv l by (auto simp: lease_inv_def leases_match_def list_all_iff lease_row_ok_def)
  then obtain j where "find_item (ql_run_id l) a db = Some j" by auto
  then have "j \<in> set (db_items db)" "qi_run_id j = ql_run_id l" "qi_id j = a"
    using find_item_Some_iff [OF ok] by auto
  moreover have "i \<in> set (db_items db)" "qi_run_id i = r" "qi_id i = a"
    using i find_item_Some_iff [OF ok] by auto
  moreover have "inj_on qi_id (set (db_items db))" using ok by (simp add: schema_parts distinct_map)
  ultimately show ?thesis by (metis inj_onD)
qed

lemma find_lease_by_item:
  assumes inv: "lease_inv db" and i: "find_item r a db = Some i"
  shows "find_lease r a db = find (\<lambda>l. ql_item_id l = a) (db_leases db)"
proof (cases "find (\<lambda>l. ql_item_id l = a) (db_leases db)")
  case None
  then have "find_lease r a db = None" by (auto simp: find_lease_def find_None_iff)
  then show ?thesis using None by simp
next
  case (Some l)
  then have "l \<in> set (db_leases db)" "ql_item_id l = a" by (auto dest: find_Some_set)
  with lease_run_unique [OF inv i this] show ?thesis
    using Some inv by (simp add: lease_inv_def find_lease_Some_iff)
qed

lemma find_item_grant [simp]: "find_item r' b (grant_db r a owner now ttl db) = find_item r' b db"
  by (simp add: grant_db_def)

lemma merge_lease_id: "ql_item_id k = ql_item_id l \<Longrightarrow> ql_item_id (merge_lease k l) = ql_item_id l"
  by (simp add: merge_lease_def)

lemma find_lease_grant:
  assumes inv: "lease_inv db" and i: "find_item r a db = Some i"
  obtains l where "find_lease r a (grant_db r a owner now ttl db) = Some l"
    and "ql_owner_id l = Some owner" and "ql_lease_epoch l = next_lease_epoch (find_lease r a db)"
    and "ql_expires_at l = Some (sat_add_u64 now ttl)" and "lease_keys l = (a, r)"
proof -
  let ?row = "granted_row r a owner (next_lease_epoch (find_lease r a db)) now (sat_add_u64 now ttl)
    (lease_was_stale (find_lease r a db) now)"
  let ?l = "case find (\<lambda>l. ql_item_id l = a) (db_leases db) of None \<Rightarrow> ?row | Some k \<Rightarrow> merge_lease k ?row"
  have "find (\<lambda>l. ql_item_id l = a) (upsert_by ql_item_id merge_lease ?row (db_leases db)) = Some ?l"
    by (subst find_upsert_by) (auto simp: merge_lease_def granted_row_def)
  then have "find (\<lambda>l. ql_item_id l = a) (db_leases (grant_db r a owner now ttl db)) = Some ?l"
    by (simp add: grant_db_def)
  then have mem: "?l \<in> set (db_leases (grant_db r a owner now ttl db))" and id: "ql_item_id ?l = a"
    by (auto dest: find_Some_set)
  have ok: "schema_ok db" using inv by (simp add: lease_inv_def)
  have cols: "ql_owner_id ?l = Some owner" "ql_lease_epoch ?l = next_lease_epoch (find_lease r a db)"
    "ql_expires_at ?l = Some (sat_add_u64 now ttl)" "ql_run_id ?l = r"
    by (auto simp: granted_row_def merge_lease_def split: option.split)
  then have "find_lease r a (grant_db r a owner now ttl db) = Some ?l"
    using mem id schema_ok_grant [OF ok i] by (subst find_lease_Some_iff) auto
  with cols id show thesis by (intro that) (simp_all add: lease_keys_def)
qed

section \<open>The abstract lease\<close>

text \<open>
  What a lease is to its clients: nothing yet, or an epoch with at most one holder and the time the
  holder's lease ends.
\<close>

type_synonym abstract_lease = "(int \<times> (string \<times> nat) option) option"

definition lease_abs :: "string \<Rightarrow> string \<Rightarrow> qdb \<Rightarrow> abstract_lease" where
  "lease_abs r a db =
     map_option (\<lambda>l. (ql_lease_epoch l,
        case ql_owner_id l of None \<Rightarrow> None | Some owner \<Rightarrow> map_option (Pair owner) (ql_expires_at l)))
       (find_lease r a db)"

definition held :: "nat \<Rightarrow> abstract_lease \<Rightarrow> bool" where
  "held now A = (case A of Some (_, Some (_, x)) \<Rightarrow> now < x | _ \<Rightarrow> False)"

definition spec_acquire :: "string \<Rightarrow> nat \<Rightarrow> nat \<Rightarrow> abstract_lease \<Rightarrow> abstract_lease \<times> int option" where
  "spec_acquire owner now ttl A =
     (if held now A then (A, None)
      else let epoch = (case A of None \<Rightarrow> 1 | Some (e, _) \<Rightarrow> sat_add_i64 e 1) in
        (Some (epoch, Some (owner, sat_add_u64 now ttl)), Some epoch))"

definition spec_heartbeat :: "string \<Rightarrow> int \<Rightarrow> nat \<Rightarrow> nat \<Rightarrow> abstract_lease \<Rightarrow> abstract_lease \<times> bool" where
  "spec_heartbeat owner epoch now ttl A =
     (case A of
        None \<Rightarrow> (None, False)
      | Some (e, h) \<Rightarrow>
          if e = epoch \<and> (case h of None \<Rightarrow> True | Some (o', _) \<Rightarrow> o' = owner)
          then (Some (e, Some (owner, sat_add_u64 now ttl)), True) else (A, False))"

definition spec_release :: "string \<Rightarrow> int \<Rightarrow> abstract_lease \<Rightarrow> abstract_lease \<times> bool" where
  "spec_release owner epoch A =
     (case A of
        Some (e, Some (o', x)) \<Rightarrow> if e = epoch \<and> o' = owner then (Some (e, None), True) else (A, False)
      | _ \<Rightarrow> (A, False))"

definition spec_recover :: "nat \<Rightarrow> abstract_lease \<Rightarrow> abstract_lease" where
  "spec_recover now A =
     (case A of Some (e, Some (o', x)) \<Rightarrow> if x \<le> now then Some (e, None) else A | _ \<Rightarrow> A)"

lemma lease_inv_schema: "lease_inv db \<Longrightarrow> schema_ok db"
  by (simp add: lease_inv_def)

lemma lease_inv_row:
  "lease_inv db \<Longrightarrow> find_lease r a db = Some l \<Longrightarrow>
   (ql_owner_id l = None) = (ql_expires_at l = None) \<and> 0 \<le> ql_lease_epoch l \<and>
   ql_run_id l = r \<and> ql_item_id l = a"
  using find_lease_Some_iff [of db r a l]
  by (auto simp: lease_inv_def leases_match_def list_all_iff lease_row_ok_def)

lemma lease_abs_update:
  assumes "\<And>l. lease_keys (f l) = lease_keys l"
  shows "lease_abs r a (db\<lparr>db_leases := update_where p f (db_leases db)\<rparr>) =
    map_option (\<lambda>l. let l' = (if p l then f l else l) in (ql_lease_epoch l',
        case ql_owner_id l' of None \<Rightarrow> None | Some owner \<Rightarrow> map_option (Pair owner) (ql_expires_at l')))
      (find_lease r a db)"
  unfolding lease_abs_def
  by (subst find_lease_update) (auto simp: assms option.map_comp comp_def Let_def)

lemma active_iff_held:
  assumes "lease_inv db"
  shows "active_queue_worker_lease (find_lease r a db) now \<noteq> None \<longleftrightarrow> held now (lease_abs r a db)"
  by (auto simp: active_queue_worker_lease_def held_def lease_abs_def split: option.splits)

lemma next_epoch_abs:
  "next_lease_epoch (find_lease r a db) = (case lease_abs r a db of None \<Rightarrow> 1 | Some (e, _) \<Rightarrow> sat_add_i64 e 1)"
  by (auto simp: next_lease_epoch_def lease_abs_def split: option.split)

lemma refine_acquire:
  assumes inv: "lease_inv db" and i: "find_item r a db = Some i" and owner: "trim owner \<noteq> []"
    and open': "\<not> item_is_terminal (qi_status i)" "retry_in_future now (qi_next_attempt_at i) = None"
  shows "lease_abs r a (snd (acquire_web_queue_item_worker_lease_at r a owner now ttl db)) =
      fst (spec_acquire owner now ttl (lease_abs r a db))"
    and "(case fst (acquire_web_queue_item_worker_lease_at r a owner now ttl db) of
        Inr (Acquired t) \<Rightarrow> snd (spec_acquire owner now ttl (lease_abs r a db)) = Some (lease_lease_epoch t) \<and>
          lease_run_id t = r \<and> lease_item_id t = a \<and> lease_owner_id t = owner
      | Inr (Busy _ _ _) \<Rightarrow> snd (spec_acquire owner now ttl (lease_abs r a db)) = None
      | _ \<Rightarrow> False)"
proof -
  have run: "acquire_web_queue_item_worker_lease_at r a owner now ttl db =
      (case active_queue_worker_lease (find_lease r a db) now of
         Some (o', e, x) \<Rightarrow> (Inr (Busy o' e x), db)
       | None \<Rightarrow> (Inr (Acquired (granted_token r a owner now ttl db)), grant_db r a owner now ttl db))"
    using owner open' i by (simp add: run_acquire [OF lease_inv_schema [OF inv]])
  show "lease_abs r a (snd (acquire_web_queue_item_worker_lease_at r a owner now ttl db)) =
      fst (spec_acquire owner now ttl (lease_abs r a db))"
  proof (cases "active_queue_worker_lease (find_lease r a db) now")
    case None
    obtain l where "find_lease r a (grant_db r a owner now ttl db) = Some l" "ql_owner_id l = Some owner"
      "ql_lease_epoch l = next_lease_epoch (find_lease r a db)" "ql_expires_at l = Some (sat_add_u64 now ttl)"
      by (rule find_lease_grant [OF inv i])
    then have "lease_abs r a (grant_db r a owner now ttl db) =
        Some (next_lease_epoch (find_lease r a db), Some (owner, sat_add_u64 now ttl))"
      by (simp add: lease_abs_def [of r a "grant_db r a owner now ttl db"])
    then show ?thesis
      using None active_iff_held [OF inv, of r a now] by (simp add: run spec_acquire_def next_epoch_abs Let_def)
  next
    case (Some b)
    then show ?thesis
      using active_iff_held [OF inv, of r a now] by (cases b) (simp add: run spec_acquire_def)
  qed
  show "(case fst (acquire_web_queue_item_worker_lease_at r a owner now ttl db) of
        Inr (Acquired t) \<Rightarrow> snd (spec_acquire owner now ttl (lease_abs r a db)) = Some (lease_lease_epoch t) \<and>
          lease_run_id t = r \<and> lease_item_id t = a \<and> lease_owner_id t = owner
      | Inr (Busy _ _ _) \<Rightarrow> snd (spec_acquire owner now ttl (lease_abs r a db)) = None
      | _ \<Rightarrow> False)"
    using active_iff_held [OF inv, of r a now]
    by (cases "active_queue_worker_lease (find_lease r a db) now")
      (auto simp: run spec_acquire_def next_epoch_abs granted_token_def Let_def)
qed

lemma token_key_find:
  assumes inv: "lease_inv db"
  shows "(\<exists>l \<in> set (db_leases db). token_key t l \<and> P l) \<longleftrightarrow>
    (\<exists>l. find_lease (lease_run_id t) (lease_item_id t) db = Some l \<and> ql_lease_epoch l = lease_lease_epoch t \<and> P l)"
  using find_lease_Some_iff [OF lease_inv_schema [OF inv]] by (auto simp: token_key_def)

lemma item_open_iff:
  assumes "schema_ok db"
  shows "item_open r a db \<longleftrightarrow> (\<exists>i. find_item r a db = Some i \<and> \<not> item_is_terminal (qi_status i))"
  using find_item_Some_iff [OF assms] by (auto simp: item_open_def item_key_def)

lemma refine_heartbeat:
  assumes inv: "lease_inv db" and o': "item_open (lease_run_id t) (lease_item_id t) db"
  shows "lease_abs (lease_run_id t) (lease_item_id t) (snd (heartbeat_web_queue_item_worker_lease_at t now ttl db)) =
      fst (spec_heartbeat (lease_owner_id t) (lease_lease_epoch t) now ttl (lease_abs (lease_run_id t) (lease_item_id t) db)) \<and>
    fst (heartbeat_web_queue_item_worker_lease_at t now ttl db) =
      Inr (snd (spec_heartbeat (lease_owner_id t) (lease_lease_epoch t) now ttl (lease_abs (lease_run_id t) (lease_item_id t) db)))"
proof (cases "find_lease (lease_run_id t) (lease_item_id t) db")
  case None
  then show ?thesis
    using o' by (simp add: run_heartbeat [OF lease_inv_schema [OF inv]] lease_abs_update lease_keys_def
        token_key_find [OF inv] spec_heartbeat_def) (simp add: lease_abs_def)
next
  case (Some l)
  note row = lease_inv_row [OF inv Some]
  have abs: "lease_abs (lease_run_id t) (lease_item_id t) db = Some (ql_lease_epoch l,
      case ql_owner_id l of None \<Rightarrow> None | Some owner \<Rightarrow> map_option (Pair owner) (ql_expires_at l))"
    using Some by (simp add: lease_abs_def)
  have tk: "token_key t l \<longleftrightarrow> ql_lease_epoch l = lease_lease_epoch t"
    using row by (simp add: token_key_def)
  show ?thesis
    using o' Some row
    by (cases "ql_owner_id l"; cases "ql_expires_at l")
      (simp_all add: abs tk run_heartbeat [OF lease_inv_schema [OF inv]] lease_abs_update lease_keys_def
        token_key_find [OF inv] spec_heartbeat_def Let_def)
qed

lemma refine_release:
  assumes inv: "lease_inv db"
  shows "lease_abs (lease_run_id t) (lease_item_id t) (snd (release_web_queue_item_worker_lease now t db)) =
      fst (spec_release (lease_owner_id t) (lease_lease_epoch t) (lease_abs (lease_run_id t) (lease_item_id t) db)) \<and>
    fst (release_web_queue_item_worker_lease now t db) =
      Inr (snd (spec_release (lease_owner_id t) (lease_lease_epoch t) (lease_abs (lease_run_id t) (lease_item_id t) db)))"
proof (cases "find_lease (lease_run_id t) (lease_item_id t) db")
  case None
  then show ?thesis
    by (simp add: run_release [OF lease_inv_schema [OF inv]] lease_abs_update lease_keys_def
        token_key_find [OF inv] spec_release_def) (simp add: lease_abs_def)
next
  case (Some l)
  note row = lease_inv_row [OF inv Some]
  have abs: "lease_abs (lease_run_id t) (lease_item_id t) db = Some (ql_lease_epoch l,
      case ql_owner_id l of None \<Rightarrow> None | Some owner \<Rightarrow> map_option (Pair owner) (ql_expires_at l))"
    using Some by (simp add: lease_abs_def)
  have tk: "token_key t l \<longleftrightarrow> ql_lease_epoch l = lease_lease_epoch t"
    using row by (simp add: token_key_def)
  show ?thesis
    using Some row
    by (cases "ql_owner_id l"; cases "ql_expires_at l")
      (simp_all add: abs tk run_release [OF lease_inv_schema [OF inv]] lease_abs_update lease_keys_def
        token_key_find [OF inv] spec_release_def Let_def)
qed

lemma retry_due_iff: "retry_due now at \<longleftrightarrow> retry_in_future now at = None"
  by (auto simp: retry_due_def retry_in_future_def split: option.split)

lemma refine_recover:
  assumes inv: "lease_inv db" and i: "find_item r a db = Some i"
    and open': "\<not> item_is_terminal (qi_status i)" "retry_in_future now (qi_next_attempt_at i) = None"
  shows "lease_abs r a (snd (recover_stale_web_queue_item_worker_leases_at r now db)) = spec_recover now (lease_abs r a db)"
proof (cases "find_lease r a db")
  case None
  then show ?thesis
    by (simp add: run_recover [OF lease_inv_schema [OF inv]] lease_abs_update lease_keys_def spec_recover_def)
      (simp add: lease_abs_def)
next
  case (Some l)
  note row = lease_inv_row [OF inv Some]
  have "i \<in> set (db_items db)" "qi_id i = a" "qi_run_id i = r"
    using i find_item_Some_iff [OF lease_inv_schema [OF inv]] by auto
  then have "\<exists>i \<in> set (db_items db). qi_id i = a \<and> qi_run_id i = r \<and> \<not> item_is_terminal (qi_status i) \<and>
      retry_due now (qi_next_attempt_at i)"
    using open' by (auto simp: retry_due_iff)
  then have rec: "lease_recoverable r now db l \<longleftrightarrow> ql_owner_id l \<noteq> None \<and> the (ql_expires_at l) \<le> now"
    using row by (auto simp: lease_recoverable_def split: option.split)
  have abs: "lease_abs r a db = Some (ql_lease_epoch l,
      case ql_owner_id l of None \<Rightarrow> None | Some owner \<Rightarrow> map_option (Pair owner) (ql_expires_at l))"
    using Some by (simp add: lease_abs_def)
  show ?thesis
    using Some row rec
    by (cases "ql_owner_id l"; cases "ql_expires_at l")
      (simp_all add: abs run_recover [OF lease_inv_schema [OF inv]] lease_abs_update lease_keys_def
        spec_recover_def Let_def)
qed

section \<open>The lease invariant\<close>

lemma lease_inv_update:
  assumes "lease_inv db" and "\<And>l. lease_keys (f l) = lease_keys l"
    and "\<And>l. (ql_owner_id (f l) = None) = (ql_expires_at (f l) = None)"
    and "\<And>l. ql_lease_epoch (f l) = ql_lease_epoch l"
  shows "lease_inv (db\<lparr>db_leases := update_where p f (db_leases db)\<rparr>)"
  using assms
  by (auto simp: lease_inv_def lease_row_ok_def lease_keys_def
      intro!: schema_ok_lease_update leases_match_update)

lemma next_epoch_nonneg: "(\<And>l. lease = Some l \<Longrightarrow> 0 \<le> ql_lease_epoch l) \<Longrightarrow> 0 \<le> next_lease_epoch lease"
  by (auto simp: next_lease_epoch_def sat_add_i64_def i64_max_def i64_min_def split: option.split)

lemma lease_inv_grant:
  assumes inv: "lease_inv db" and i: "find_item r a db = Some i"
  shows "lease_inv (grant_db r a owner now ttl db)"
proof -
  let ?row = "granted_row r a owner (next_lease_epoch (find_lease r a db)) now (sat_add_u64 now ttl)
    (lease_was_stale (find_lease r a db) now)"
  have nonneg: "0 \<le> next_lease_epoch (find_lease r a db)"
    by (rule next_epoch_nonneg) (use lease_inv_row [OF inv] in blast)
  have row: "lease_row_ok db l" if "l \<in> set (db_leases (grant_db r a owner now ttl db))" for l
  proof -
    from that have "l \<in> set (upsert_by ql_item_id merge_lease ?row (db_leases db))" by (simp add: grant_db_def)
    from set_upsert_by [OF this] show ?thesis
    proof (elim disjE bexE conjE)
      assume "l \<in> set (db_leases db)"
      then show ?thesis using inv by (simp add: lease_inv_def leases_match_def list_all_iff)
    next
      assume "l = ?row"
      then show ?thesis using i nonneg by (simp add: lease_row_ok_def granted_row_def)
    next
      fix k assume "ql_item_id k = ql_item_id ?row" "l = merge_lease k ?row"
      then show ?thesis using i nonneg by (simp add: lease_row_ok_def granted_row_def merge_lease_def)
    qed
  qed
  moreover have "schema_ok (grant_db r a owner now ttl db)"
    using inv i by (simp add: lease_inv_def schema_ok_grant)
  ultimately show ?thesis
    by (simp add: lease_inv_def leases_match_def list_all_iff lease_row_ok_def)
qed

lemma lease_inv_items:
  assumes "lease_inv db" and "schema_ok db'" and "db_leases db' = db_leases db"
    and "\<And>r a. find_item r a db' = None \<longleftrightarrow> find_item r a db = None"
  shows "lease_inv db'"
  using assms leases_match_items [of db' db] by (simp add: lease_inv_def)

section \<open>Traces of lease operations\<close>

text \<open>
  The operations of the queue that may interleave on the leases of a run: the four lease operations
  and item updates that move an item between its states (the other item updates of
  \<open>Queue_Store\<close> do not touch leases either).
\<close>

datatype lease_op =
    OpAcquire string string string nat nat
  | OpHeartbeat queue_worker_lease nat nat
  | OpRelease queue_worker_lease nat
  | OpRecover string nat
  | OpUpdateItem store_env string string queue_item_status string "string option" int "nat option"
  | OpRecovery store_env string string string string int

fun lease_step :: "lease_op \<Rightarrow> qdb \<Rightarrow> qdb" where
  "lease_step (OpAcquire r a owner now ttl) db =
     snd (acquire_web_queue_item_worker_lease_at r a owner now ttl db)"
| "lease_step (OpHeartbeat t now ttl) db = snd (heartbeat_web_queue_item_worker_lease_at t now ttl db)"
| "lease_step (OpRelease t now) db = snd (release_web_queue_item_worker_lease now t db)"
| "lease_step (OpRecover r now) db = snd (recover_stale_web_queue_item_worker_leases_at r now db)"
| "lease_step (OpUpdateItem E r a status message agent attempts at) db =
     snd (update_web_queue_item E r a status message agent attempts at db)"
| "lease_step (OpRecovery E r a message failure n) db =
     snd (schedule_web_queue_item_recovery E r a message failure n db)"

text \<open>The epoch an operation grants on an item, and the epoch of the token it accepts on it.\<close>

fun lease_grants :: "string \<Rightarrow> string \<Rightarrow> lease_op \<Rightarrow> qdb \<Rightarrow> int option" where
  "lease_grants r a (OpAcquire r' a' owner now ttl) db =
     (if r' = r \<and> a' = a
      then (case fst (acquire_web_queue_item_worker_lease_at r' a' owner now ttl db) of
              Inr (Acquired t) \<Rightarrow> Some (lease_lease_epoch t) | _ \<Rightarrow> None)
      else None)"
| "lease_grants r a _ db = None"

fun lease_accepts :: "string \<Rightarrow> string \<Rightarrow> lease_op \<Rightarrow> qdb \<Rightarrow> int option" where
  "lease_accepts r a (OpHeartbeat t now ttl) db =
     (if lease_run_id t = r \<and> lease_item_id t = a \<and>
         fst (heartbeat_web_queue_item_worker_lease_at t now ttl db) = Inr True
      then Some (lease_lease_epoch t) else None)"
| "lease_accepts r a (OpRelease t now) db =
     (if lease_run_id t = r \<and> lease_item_id t = a \<and>
         fst (release_web_queue_item_worker_lease now t db) = Inr True
      then Some (lease_lease_epoch t) else None)"
| "lease_accepts r a _ db = None"

definition lease_epoch :: "string \<Rightarrow> string \<Rightarrow> qdb \<Rightarrow> int" where
  "lease_epoch r a db = (case find_lease r a db of None \<Rightarrow> 0 | Some l \<Rightarrow> ql_lease_epoch l)"

fun run_ops :: "('op \<Rightarrow> 's \<Rightarrow> 's) \<Rightarrow> 'op list \<Rightarrow> 's \<Rightarrow> 's" where
  "run_ops step [] s = s"
| "run_ops step (x # xs) s = run_ops step xs (step x s)"

fun granted_epochs :: "('op \<Rightarrow> 's \<Rightarrow> 's) \<Rightarrow> ('op \<Rightarrow> 's \<Rightarrow> int option) \<Rightarrow> 'op list \<Rightarrow> 's \<Rightarrow> int list" where
  "granted_epochs step grants [] s = []"
| "granted_epochs step grants (x # xs) s =
     (case grants x s of None \<Rightarrow> [] | Some e \<Rightarrow> [e]) @ granted_epochs step grants xs (step x s)"

lemma run_ops_append: "run_ops step (xs @ ys) s = run_ops step ys (run_ops step xs s)"
  by (induction xs arbitrary: s) auto

locale fenced_lease =
  fixes step :: "'op \<Rightarrow> 's \<Rightarrow> 's"
    and grants :: "'op \<Rightarrow> 's \<Rightarrow> int option"
    and accepts :: "'op \<Rightarrow> 's \<Rightarrow> int option"
    and epoch :: "'s \<Rightarrow> int"
    and inv :: "'s \<Rightarrow> bool"
    and limit :: int
  assumes inv_step: "inv s \<Longrightarrow> inv (step x s)"
    and grant_epoch: "inv s \<Longrightarrow> epoch s < limit \<Longrightarrow> grants x s = Some e \<Longrightarrow> e = epoch s + 1 \<and> epoch (step x s) = e"
    and no_grant: "inv s \<Longrightarrow> grants x s = None \<Longrightarrow> epoch (step x s) = epoch s"
    and accept_current: "inv s \<Longrightarrow> accepts x s = Some e \<Longrightarrow> e = epoch s"
begin

lemma inv_run: "inv s \<Longrightarrow> inv (run_ops step xs s)"
  by (induction xs arbitrary: s) (auto intro: inv_step)

lemma step_epoch:
  "inv s \<Longrightarrow> epoch s < limit \<Longrightarrow> epoch s \<le> epoch (step x s) \<and> epoch (step x s) \<le> epoch s + 1"
  by (cases "grants x s") (auto simp: no_grant dest: grant_epoch)

lemma epoch_run:
  "inv s \<Longrightarrow> epoch s + int (length xs) \<le> limit \<Longrightarrow>
   epoch s \<le> epoch (run_ops step xs s) \<and> epoch (run_ops step xs s) \<le> epoch s + int (length xs)"
proof (induction xs arbitrary: s)
  case Nil
  then show ?case by simp
next
  case (Cons x xs)
  then have e: "epoch s \<le> epoch (step x s)" "epoch (step x s) \<le> epoch s + 1"
    using step_epoch [of s x] by auto
  then have room: "epoch (step x s) + int (length xs) \<le> limit" using Cons.prems by simp
  show ?case using Cons.IH [OF inv_step [OF Cons.prems(1)] room] e by auto
qed

lemma granted_above:
  "inv s \<Longrightarrow> epoch s + int (length xs) \<le> limit \<Longrightarrow> e \<in> set (granted_epochs step grants xs s) \<Longrightarrow> epoch s < e"
proof (induction xs arbitrary: s)
  case Nil
  then show ?case by simp
next
  case (Cons x xs)
  have lim: "epoch s < limit" using Cons.prems by simp
  note b = step_epoch [OF Cons.prems(1) lim, of x]
  have room: "epoch (step x s) + int (length xs) \<le> limit" using Cons.prems b by simp
  show ?case
    using Cons.IH [OF inv_step [OF Cons.prems(1)] room] Cons.prems(3) b grant_epoch [OF Cons.prems(1) lim, of x]
    by (cases "grants x s") auto
qed

lemma granted_increasing:
  "inv s \<Longrightarrow> epoch s + int (length xs) \<le> limit \<Longrightarrow> sorted_wrt (<) (granted_epochs step grants xs s)"
proof (induction xs arbitrary: s)
  case Nil
  then show ?case by simp
next
  case (Cons x xs)
  have lim: "epoch s < limit" using Cons.prems by simp
  note b = step_epoch [OF Cons.prems(1) lim, of x]
  have room: "epoch (step x s) + int (length xs) \<le> limit" using Cons.prems b by simp
  show ?case
    using Cons.IH [OF inv_step [OF Cons.prems(1)] room] grant_epoch [OF Cons.prems(1) lim]
      granted_above [OF inv_step [OF Cons.prems(1)] room]
    by (cases "grants x s") auto
qed

lemma superseded_rejected:
  assumes "inv s" and "epoch s + int (length xs) + 1 \<le> limit"
    and "grants x s = Some e" and "accepts y (run_ops step xs (step x s)) = Some e'"
  shows "e \<le> e'"
proof -
  have g: "epoch (step x s) = e" "e = epoch s + 1" using assms grant_epoch [of s x e] by auto
  have i: "inv (step x s)" using assms(1) by (rule inv_step)
  have "epoch (step x s) \<le> epoch (run_ops step xs (step x s))"
    using epoch_run [OF i] g assms(2) by simp
  moreover have "e' = epoch (run_ops step xs (step x s))"
    using accept_current [OF inv_run [OF i]] assms(4) by blast
  ultimately show ?thesis using g by simp
qed

end

lemma option_eqI: "(\<And>x. a = Some x \<longleftrightarrow> b = Some x) \<Longrightarrow> a = b"
  by (cases a; cases b) auto

lemma find_lease_grant_other:
  assumes inv: "lease_inv db" and i: "find_item r a db = Some i" and ne: "(r', b) \<noteq> (r, a)"
  shows "find_lease r' b (grant_db r a owner now ttl db) = find_lease r' b db"
proof (cases "b = a")
  case True
  then have "r' \<noteq> r" using ne by simp
  have "find_lease r' a d = None" if "lease_inv d" "find_item r a d = Some i" for d
    using lease_run_unique [OF that] find_lease_Some_iff [OF lease_inv_schema [OF that(1)]] \<open>r' \<noteq> r\<close>
    by (metis option.exhaust)
  then show ?thesis using True inv i lease_inv_grant [OF inv i] by simp
next
  case False
  let ?row = "granted_row r a owner (next_lease_epoch (find_lease r a db)) now (sat_add_u64 now ttl)
    (lease_was_stale (find_lease r a db) now)"
  have mem: "l \<in> set (db_leases (grant_db r a owner now ttl db)) \<longleftrightarrow> l \<in> set (db_leases db)" if "ql_item_id l = b" for l
  proof -
    have "ql_item_id ?row = a" by (simp add: granted_row_def)
    moreover have "ql_item_id (merge_lease k ?row) = ql_item_id k" for k by (simp add: merge_lease_def)
    ultimately show ?thesis
      using that False by (auto simp: grant_db_def upsert_by_def set_update_where)
  qed
  have ok: "schema_ok (grant_db r a owner now ttl db)" "schema_ok db"
    using lease_inv_grant [OF inv i] inv by (auto simp: lease_inv_def)
  show ?thesis
    by (rule option_eqI) (use find_lease_Some_iff [OF ok(1)] find_lease_Some_iff [OF ok(2)] mem in blast)
qed

lemma lease_epoch_update:
  assumes "\<And>l. lease_keys (f l) = lease_keys l" and "\<And>l. ql_lease_epoch (f l) = ql_lease_epoch l"
  shows "lease_epoch r a (db\<lparr>db_leases := update_where p f (db_leases db)\<rparr>) = lease_epoch r a db"
  unfolding lease_epoch_def by (subst find_lease_update) (auto simp: assms split: option.split)

lemma lease_step_inv: "lease_inv db \<Longrightarrow> lease_inv (lease_step op db)"
proof (induction op db rule: lease_step.induct)
  case (1 r a owner now ttl db)
  then show ?case
    using lease_inv_grant by (auto simp: run_acquire lease_inv_schema split: option.split)
next
  case (2 t now ttl db)
  then show ?case by (simp add: run_heartbeat lease_inv_schema lease_inv_update lease_keys_def)
next
  case (3 t now db)
  then show ?case by (simp add: run_release lease_inv_schema lease_inv_update lease_keys_def)
next
  case (4 r now db)
  then show ?case by (simp add: run_recover lease_inv_schema lease_inv_update lease_keys_def)
next
  case (5 E r a status message agent attempts at db)
  note ok = lease_inv_schema [OF 5]
  show ?case
    by (rule lease_inv_items [OF 5])
      (simp_all add: run_update_item [OF ok] schema_ok_project schema_ok_with_item ok item_keys_def find_with_item)
next
  case (6 E r a message failure n db)
  note ok = lease_inv_schema [OF 6]
  show ?case
    by (rule lease_inv_items [OF 6])
      (simp_all add: run_schedule_recovery [OF ok] schema_ok_project schema_ok_with_item
        schema_ok_finish_db ok item_keys_def find_with_item)
qed

lemma lease_grants_epoch:
  assumes inv: "lease_inv db" and lim: "lease_epoch r a db < i64_max" and g: "lease_grants r a op db = Some e"
  shows "e = lease_epoch r a db + 1 \<and> lease_epoch r a (lease_step op db) = e"
proof -
  obtain owner now ttl where op: "op = OpAcquire r a owner now ttl"
    using g by (cases op) (auto split: if_splits)
  note run = run_acquire [OF lease_inv_schema [OF inv], of r a owner now ttl]
  obtain i where i: "find_item r a db = Some i"
    using g op run by (cases "find_item r a db") (auto split: if_splits)
  have granted: "acquire_web_queue_item_worker_lease_at r a owner now ttl db =
      (Inr (Acquired (granted_token r a owner now ttl db)), grant_db r a owner now ttl db)"
    using g op run i by (auto split: if_splits option.splits)
  have "0 \<le> lease_epoch r a db"
    using lease_inv_row [OF inv, of r a] by (auto simp: lease_epoch_def split: option.split)
  then have ne: "next_lease_epoch (find_lease r a db) = lease_epoch r a db + 1"
    using lim by (auto simp: next_lease_epoch_def lease_epoch_def sat_add_i64_def i64_max_def i64_min_def split: option.splits)
  obtain l where "find_lease r a (grant_db r a owner now ttl db) = Some l"
    "ql_lease_epoch l = next_lease_epoch (find_lease r a db)"
    by (rule find_lease_grant [OF inv i])
  then have "lease_epoch r a (grant_db r a owner now ttl db) = lease_epoch r a db + 1"
    using ne by (simp add: lease_epoch_def [of r a "grant_db r a owner now ttl db"])
  moreover have "e = lease_epoch r a db + 1"
    using g op granted ne by (auto simp: granted_token_def)
  ultimately show ?thesis using op granted by simp
qed

lemma lease_no_grant:
  assumes inv: "lease_inv db" and g: "lease_grants r a op db = None"
  shows "lease_epoch r a (lease_step op db) = lease_epoch r a db"
proof (cases op)
  case (OpAcquire r' b owner now ttl)
  note run = run_acquire [OF lease_inv_schema [OF inv], of r' b owner now ttl]
  show ?thesis
  proof (cases "snd (acquire_web_queue_item_worker_lease_at r' b owner now ttl db) = db")
    case True
    then show ?thesis using OpAcquire by simp
  next
    case False
    then obtain i where i: "find_item r' b db = Some i"
      using run by (cases "find_item r' b db") (auto split: if_splits)
    have granted: "acquire_web_queue_item_worker_lease_at r' b owner now ttl db =
        (Inr (Acquired (granted_token r' b owner now ttl db)), grant_db r' b owner now ttl db)"
      using run False i by (auto split: if_splits option.splits)
    then have "(r, a) \<noteq> (r', b)" using g OpAcquire by (auto split: if_splits)
    then show ?thesis
      using find_lease_grant_other [OF inv i] OpAcquire granted by (simp add: lease_epoch_def)
  qed
qed (use lease_inv_schema [OF inv] in \<open>simp_all add: run_heartbeat run_release run_recover run_update_item
    run_schedule_recovery lease_epoch_update lease_keys_def\<close>, simp_all add: lease_epoch_def find_lease_def)

lemma lease_accept_current:
  assumes inv: "lease_inv db" and acc: "lease_accepts r a op db = Some e"
  shows "e = lease_epoch r a db"
proof (cases op)
  case (OpHeartbeat t now ttl)
  then show ?thesis
    using acc token_key_find [OF inv, of t "\<lambda>l. (ql_owner_id l = Some (lease_owner_id t) \<or> ql_owner_id l = None) \<and>
        item_open (lease_run_id t) (lease_item_id t) db"]
    by (auto simp: run_heartbeat [OF lease_inv_schema [OF inv]] lease_epoch_def split: if_splits)
next
  case (OpRelease t now)
  then show ?thesis
    using acc token_key_find [OF inv, of t "\<lambda>l. ql_owner_id l = Some (lease_owner_id t)"]
    by (auto simp: run_release [OF lease_inv_schema [OF inv]] lease_epoch_def split: if_splits)
qed (use acc in auto)

interpretation item_lease: fenced_lease lease_step "lease_grants r a" "lease_accepts r a" "lease_epoch r a"
  lease_inv i64_max for r a
  by unfold_locales (auto intro: lease_step_inv lease_no_grant lease_accept_current dest: lease_grants_epoch)

section \<open>Properties\<close>

text \<open>
  C1. Fencing. Along any interleaving of acquisitions, heartbeats, releases, stale recoveries and
  item updates, on any items, the epochs granted on one item strictly increase, so no two tokens
  of an item share an epoch; and once an epoch has been granted, no later heartbeat or release of
  an older token is accepted, whatever happens in between. (The epoch is a signed 64-bit counter
  that saturates, hence the bound on the length of the trace.)
\<close>

theorem lease_fencing:
  assumes "lease_inv db" and "lease_epoch r a db + int (length ops) + 1 \<le> i64_max"
  shows "sorted_wrt (<) (granted_epochs lease_step (lease_grants r a) ops db) \<and>
    (\<forall>before op after later e e'. ops = before @ op # after \<longrightarrow>
       lease_grants r a op (run_ops lease_step before db) = Some e \<longrightarrow>
       lease_accepts r a later (run_ops lease_step ops db) = Some e' \<longrightarrow> e \<le> e')"
proof (intro conjI allI impI)
  show "sorted_wrt (<) (granted_epochs lease_step (lease_grants r a) ops db)"
    using assms by (intro item_lease.granted_increasing) simp_all
next
  fix before op "after" later e e'
  assume ops: "ops = before @ op # after"
    and g: "lease_grants r a op (run_ops lease_step before db) = Some e"
    and acc: "lease_accepts r a later (run_ops lease_step ops db) = Some e'"
  let ?s = "run_ops lease_step before db"
  have "lease_epoch r a db + int (length before) \<le> i64_max" using assms(2) ops by simp
  from item_lease.epoch_run [OF assms(1) this]
  have room: "lease_epoch r a ?s + int (length after) + 1 \<le> i64_max" using assms(2) ops by simp
  have "lease_accepts r a later (run_ops lease_step after (lease_step op ?s)) = Some e'"
    using acc by (simp add: ops run_ops_append)
  then show "e \<le> e'"
    by (rule item_lease.superseded_rejected [OF item_lease.inv_run [OF assms(1)] room g])
qed

lemma sample_db_lease_inv: "lease_inv sample_db"
  using sample_db_ok by (simp add: lease_inv_def leases_match_def sample_db_def empty_db_def)

theorem lease_fencing_witness:
  "sorted_wrt (<) (granted_epochs lease_step (lease_grants ''r1'' ''a'')
     [OpAcquire ''r1'' ''a'' ''w1'' 10 5, OpAcquire ''r1'' ''a'' ''w2'' 20 5] sample_db)"
proof -
  have "lease_epoch ''r1'' ''a'' sample_db + int (length [OpAcquire ''r1'' ''a'' ''w1'' 10 5,
      OpAcquire ''r1'' ''a'' ''w2'' 20 5]) + 1 \<le> i64_max"
    by (simp add: lease_epoch_def find_lease_def sample_db_def empty_db_def i64_max_def)
  from lease_fencing [OF sample_db_lease_inv this] show ?thesis by blast
qed

text \<open>
  C3. The lease operations refine the abstract lease. On an item that is not terminal and has no
  retry pending, acquisition, heartbeat, release and stale recovery act on the abstract lease (an
  epoch with at most one holder and its expiry) exactly as its specification says, report the
  outcome the specification says, and leave the abstract lease of every other item alone.
\<close>

lemma lease_abs_other:
  assumes inv: "lease_inv db" and i: "find_item r a db = Some i" and ne: "(r', b) \<noteq> (r, a)"
  shows "lease_abs r' b (snd (acquire_web_queue_item_worker_lease_at r a owner now ttl db)) = lease_abs r' b db"
  using find_lease_grant_other [OF assms]
  by (auto simp: run_acquire [OF lease_inv_schema [OF inv]] i lease_abs_def split: option.split)

lemma lease_abs_other_token:
  assumes inv: "lease_inv db" and ne: "(r', b) \<noteq> (lease_run_id t, lease_item_id t)"
  shows "lease_abs r' b (snd (heartbeat_web_queue_item_worker_lease_at t now ttl db)) = lease_abs r' b db"
    and "lease_abs r' b (snd (release_web_queue_item_worker_lease now t db)) = lease_abs r' b db"
proof -
  have "\<not> token_key t l" if "find_lease r' b db = Some l" for l
    using lease_inv_row [OF inv that] ne by (auto simp: token_key_def)
  then show "lease_abs r' b (snd (heartbeat_web_queue_item_worker_lease_at t now ttl db)) = lease_abs r' b db"
    "lease_abs r' b (snd (release_web_queue_item_worker_lease now t db)) = lease_abs r' b db"
    by (cases "find_lease r' b db";
        simp add: run_heartbeat run_release lease_inv_schema [OF inv] lease_abs_update lease_keys_def Let_def;
        simp add: lease_abs_def)+
qed

theorem leases_refine_spec:
  assumes inv: "lease_inv db" and i: "find_item r a db = Some i" and owner: "trim owner \<noteq> []"
    and open': "\<not> item_is_terminal (qi_status i)" "retry_in_future now (qi_next_attempt_at i) = None"
    and t: "lease_run_id t = r" "lease_item_id t = a"
  shows "(lease_abs r a (snd (acquire_web_queue_item_worker_lease_at r a owner now ttl db)) =
        fst (spec_acquire owner now ttl (lease_abs r a db)) \<and>
      (case fst (acquire_web_queue_item_worker_lease_at r a owner now ttl db) of
          Inr (Acquired t) \<Rightarrow> snd (spec_acquire owner now ttl (lease_abs r a db)) = Some (lease_lease_epoch t) \<and>
            lease_run_id t = r \<and> lease_item_id t = a \<and> lease_owner_id t = owner
        | Inr (Busy _ _ _) \<Rightarrow> snd (spec_acquire owner now ttl (lease_abs r a db)) = None
        | _ \<Rightarrow> False)) \<and>
    (lease_abs r a (snd (heartbeat_web_queue_item_worker_lease_at t now ttl db)),
     fst (heartbeat_web_queue_item_worker_lease_at t now ttl db)) =
      (case spec_heartbeat (lease_owner_id t) (lease_lease_epoch t) now ttl (lease_abs r a db) of
         (A, ok) \<Rightarrow> (A, Inr ok)) \<and>
    (lease_abs r a (snd (release_web_queue_item_worker_lease now t db)),
     fst (release_web_queue_item_worker_lease now t db)) =
      (case spec_release (lease_owner_id t) (lease_lease_epoch t) (lease_abs r a db) of (A, ok) \<Rightarrow> (A, Inr ok)) \<and>
    lease_abs r a (snd (recover_stale_web_queue_item_worker_leases_at r now db)) =
      spec_recover now (lease_abs r a db) \<and>
    (\<forall>r' b. (r', b) \<noteq> (r, a) \<longrightarrow>
      lease_abs r' b (snd (acquire_web_queue_item_worker_lease_at r a owner now ttl db)) = lease_abs r' b db \<and>
      lease_abs r' b (snd (heartbeat_web_queue_item_worker_lease_at t now ttl db)) = lease_abs r' b db \<and>
      lease_abs r' b (snd (release_web_queue_item_worker_lease now t db)) = lease_abs r' b db)"
proof -
  have "item_open (lease_run_id t) (lease_item_id t) db"
    using i open' t item_open_iff [OF lease_inv_schema [OF inv]] by simp
  note hb = refine_heartbeat [OF inv this, of now ttl, unfolded t]
  note rl = refine_release [OF inv, of t now, unfolded t]
  have hb': "(lease_abs r a (snd (heartbeat_web_queue_item_worker_lease_at t now ttl db)),
     fst (heartbeat_web_queue_item_worker_lease_at t now ttl db)) =
      (case spec_heartbeat (lease_owner_id t) (lease_lease_epoch t) now ttl (lease_abs r a db) of (A, ok) \<Rightarrow> (A, Inr ok))"
    using hb by (simp add: case_prod_beta)
  have rl': "(lease_abs r a (snd (release_web_queue_item_worker_lease now t db)),
     fst (release_web_queue_item_worker_lease now t db)) =
      (case spec_release (lease_owner_id t) (lease_lease_epoch t) (lease_abs r a db) of (A, ok) \<Rightarrow> (A, Inr ok))"
    using rl by (simp add: case_prod_beta)
  show ?thesis
    by (intro conjI allI impI hb' rl' refine_acquire [OF inv i owner open'] refine_recover [OF inv i open']
        lease_abs_other [OF inv i] lease_abs_other_token [OF inv, of _ _ t, unfolded t])
qed

definition sample_token :: queue_worker_lease where
  "sample_token = \<lparr> lease_run_id = ''r1'', lease_item_id = ''a'', lease_owner_id = ''w1'',
     lease_lease_epoch = 1, lease_acquired_at = 10, lease_heartbeat_at = 10, lease_expires_at = 15,
     lease_recovered_stale = False \<rparr>"

theorem leases_refine_spec_witness:
  "lease_abs ''r1'' ''a'' (snd (acquire_web_queue_item_worker_lease_at ''r1'' ''a'' ''w1'' 10 5 sample_db)) =
     Some (1, Some (''w1'', 15))"
proof -
  have "\<not> item_is_terminal (qi_status (sample_item ''a'' 0))"
    "retry_in_future 10 (qi_next_attempt_at (sample_item ''a'' 0)) = None" "trim ''w1'' \<noteq> []"
    "lease_run_id sample_token = ''r1''" "lease_item_id sample_token = ''a''"
    by (simp_all add: sample_item_def item_is_terminal_def retry_in_future_def trim_def
        trim_matches_Nil_iff is_whitespace_def sample_token_def)
  moreover have "lease_abs ''r1'' ''a'' sample_db = None"
    by (simp add: lease_abs_def find_lease_def sample_db_def empty_db_def)
  ultimately show ?thesis
    using leases_refine_spec [OF sample_db_lease_inv sample_db_find(1), of "''w1''" 10 sample_token 5]
    by (simp add: spec_acquire_def held_def sat_add_u64_def u64_max_def)
qed

lemma busy_after_grant:
  assumes inv: "lease_inv db" and owner: "trim owner \<noteq> []" and other: "trim other \<noteq> []"
    and acq: "acquire_web_queue_item_worker_lease_at r a owner now ttl db = (Inr (Acquired t), db1)"
    and later: "now \<le> later" "later < lease_expires_at t"
  shows "acquire_web_queue_item_worker_lease_at r a other later ttl' db1 =
    (Inr (Busy owner (lease_lease_epoch t) (lease_expires_at t)), db1)"
proof -
  note ok = lease_inv_schema [OF inv]
  obtain i where i: "find_item r a db = Some i" and open': "\<not> item_is_terminal (qi_status i)"
      "retry_in_future now (qi_next_attempt_at i) = None"
    and t: "t = granted_token r a owner now ttl db" and db1: "db1 = grant_db r a owner now ttl db"
    using acq owner by (auto simp: run_acquire [OF ok] split: option.splits if_splits)
  obtain l where l: "find_lease r a db1 = Some l" "ql_owner_id l = Some owner"
    "ql_lease_epoch l = next_lease_epoch (find_lease r a db)" "ql_expires_at l = Some (sat_add_u64 now ttl)"
    unfolding db1 by (rule find_lease_grant [OF inv i])
  have ok1: "schema_ok db1" and i1: "find_item r a db1 = Some i"
    unfolding db1 using lease_inv_grant [OF inv i] i by (simp_all add: lease_inv_def)
  have "retry_in_future later (qi_next_attempt_at i) = None"
    using open' later by (auto simp: retry_in_future_def split: option.splits if_splits)
  moreover have "active_queue_worker_lease (find_lease r a db1) later =
      Some (owner, lease_lease_epoch t, lease_expires_at t)"
    using l later by (simp add: active_queue_worker_lease_def t granted_token_def)
  ultimately show ?thesis
    using other i1 open' by (simp add: run_acquire [OF ok1])
qed

lemma inspect_predicts:
  assumes ok: "schema_ok db" and owner: "trim owner \<noteq> []"
  shows "(case (inspect_web_queue_item_worker_lease_at r a now db,
           fst (acquire_web_queue_item_worker_lease_at r a owner now ttl db)) of
       (StateMissing, Inr Missing) \<Rightarrow> True
     | (StateTerminal s, Inr (Terminal s')) \<Rightarrow> s = s'
     | (StateRetryable n, Inr (Retryable n')) \<Rightarrow> n = n'
     | (StateActive o1 e1 x1, Inr (Busy o2 e2 x2)) \<Rightarrow> o1 = o2 \<and> e1 = e2 \<and> x1 = x2
     | (StateUnowned e, Inr (Acquired t)) \<Rightarrow> lease_lease_epoch t = sat_add_i64 e 1
     | (StateStale o1 e x, Inr (Acquired t)) \<Rightarrow> lease_lease_epoch t = sat_add_i64 e 1 \<and> x \<le> now
     | _ \<Rightarrow> False)"
proof (cases "find_item r a db")
  case None
  then show ?thesis
    using owner by (simp add: run_acquire [OF ok] inspect_web_queue_item_worker_lease_at_def
        queue_worker_lease_item_state_def)
next
  case (Some i)
  have one: "sat_add_i64 0 1 = 1" by (simp add: sat_add_i64_def i64_max_def i64_min_def)
  show ?thesis
    using Some owner
    by (cases "find_lease r a db")
      (auto simp: run_acquire [OF ok] inspect_web_queue_item_worker_lease_at_def
        queue_worker_lease_item_state_def active_queue_worker_lease_def granted_token_def
        next_lease_epoch_def one split: option.split)
qed

text \<open>
  C2. While a lease is held nobody else gets it, and inspection tells what acquisition will do. A
  worker that has just been granted a lease makes every acquisition before its expiry answer
  \<open>Busy\<close> with that owner, epoch and expiry and change nothing. In every state the inspection of an
  item says \<open>Active\<close> exactly when an acquisition would answer \<open>Busy\<close>, \<open>Missing\<close>, \<open>Terminal\<close> and
  \<open>Retryable\<close> exactly when the acquisition answers the same, and \<open>Unowned\<close> or \<open>Stale\<close> exactly when
  it would succeed.
\<close>
theorem lease_mutual_exclusion:
  assumes inv: "lease_inv db" and owner: "trim owner \<noteq> []" and other: "trim other \<noteq> []"
  shows "(\<forall>t db1. acquire_web_queue_item_worker_lease_at r a owner now ttl db = (Inr (Acquired t), db1) \<longrightarrow>
      (\<forall>later. now \<le> later \<longrightarrow> later < lease_expires_at t \<longrightarrow>
        acquire_web_queue_item_worker_lease_at r a other later ttl' db1 =
          (Inr (Busy owner (lease_lease_epoch t) (lease_expires_at t)), db1))) \<and>
    (case (inspect_web_queue_item_worker_lease_at r a now db,
           fst (acquire_web_queue_item_worker_lease_at r a owner now ttl db)) of
       (StateMissing, Inr Missing) \<Rightarrow> True
     | (StateTerminal s, Inr (Terminal s')) \<Rightarrow> s = s'
     | (StateRetryable n, Inr (Retryable n')) \<Rightarrow> n = n'
     | (StateActive o1 e1 x1, Inr (Busy o2 e2 x2)) \<Rightarrow> o1 = o2 \<and> e1 = e2 \<and> x1 = x2
     | (StateUnowned e, Inr (Acquired t)) \<Rightarrow> lease_lease_epoch t = sat_add_i64 e 1
     | (StateStale o1 e x, Inr (Acquired t)) \<Rightarrow> lease_lease_epoch t = sat_add_i64 e 1 \<and> x \<le> now
     | _ \<Rightarrow> False)"
  using busy_after_grant [OF assms] inspect_predicts [OF lease_inv_schema [OF inv] owner] by blast

theorem lease_mutual_exclusion_witness:
  "case (inspect_web_queue_item_worker_lease_at ''r1'' ''a'' 10 sample_db,
         fst (acquire_web_queue_item_worker_lease_at ''r1'' ''a'' ''w1'' 10 5 sample_db)) of
     (StateUnowned e, Inr (Acquired t)) \<Rightarrow> lease_lease_epoch t = sat_add_i64 e 1
   | _ \<Rightarrow> False"
proof -
  have w: "trim ''w1'' \<noteq> []"
    by (simp add: trim_def trim_matches_Nil_iff is_whitespace_def)
  have "find_lease ''r1'' ''a'' sample_db = None"
    by (simp add: find_lease_def sample_db_def empty_db_def)
  moreover have "qi_status (sample_item ''a'' 0) = ItemPending" "qi_next_attempt_at (sample_item ''a'' 0) = None"
    by (simp_all add: sample_item_def)
  ultimately have "inspect_web_queue_item_worker_lease_at ''r1'' ''a'' 10 sample_db = StateUnowned 0"
    by (simp add: inspect_web_queue_item_worker_lease_at_def queue_worker_lease_item_state_def
        sample_db_find item_is_terminal_def retry_in_future_def)
  then show ?thesis
    using lease_mutual_exclusion [OF sample_db_lease_inv w w, of "''r1''" "''a''" 10 5 5]
    by (auto split: sum.splits lease_acquire.splits)
qed

end
