(* ===== verification/Queue_Admission.thy ===== *)
theory Queue_Admission
  imports Worker_Lease "HOL-Library.Multiset"
begin

text \<open>
  Resource admission (\<open>src/src/webapp/queue_admission.rs\<close>): of the items ready to start, those are
  admitted that the limits on tasks, heavy tasks, memory and CPU of their host still allow; the
  others wait until a later time. Sizes are \<open>u64\<close> and \<open>usize\<close> values with the saturations of
  the code. A load average is kept as the milli-units that \<open>load_to_milli\<close> rounds it to, since
  the code compares nothing else; the conversion from a float is not part of the model.

  What the code reads from outside is an argument: the environment variables, the snapshot of the
  local host, the text printed by the remote probe, the set of items with a live worker.
\<close>

section \<open>Policy\<close>

record admission_policy =
  ap_soft :: nat
  ap_hard :: nat
  ap_heavy :: nat
  ap_retry_seconds :: nat
  ap_history_seconds :: nat

definition default_policy :: admission_policy where
  "default_policy = \<lparr>ap_soft = 8, ap_hard = 12, ap_heavy = 2, ap_retry_seconds = 60, ap_history_seconds = 60 * 60\<rparr>"

text \<open>\<open>str::parse\<close> for an unsigned integer: an optional plus sign, digits, no overflow.\<close>

definition parse_unsigned :: "nat \<Rightarrow> string \<Rightarrow> nat option" where
  "parse_unsigned max_value s =
     (let digits = (case s of c # cs \<Rightarrow> (if c = CHR ''+'' then cs else s) | [] \<Rightarrow> [])
      in if digits = [] \<or> \<not> list_all is_ascii_digit digits then None
         else if digits_value digits \<le> max_value then Some (digits_value digits) else None)"

definition env_number :: "(string \<Rightarrow> string option) \<Rightarrow> string \<Rightarrow> nat option" where
  "env_number env name = Option.bind (env name) (\<lambda>v. parse_unsigned u64_max (trim v))"

definition or_default :: "'a option \<Rightarrow> 'a \<Rightarrow> 'a" where
  "or_default v d = (case v of None \<Rightarrow> d | Some x \<Rightarrow> x)"

definition policy_from_env :: "(string \<Rightarrow> string option) \<Rightarrow> admission_policy" where
  "policy_from_env env =
     (let soft = or_default (env_number env ''QCOLD_QUEUE_ADMISSION_SOFT_MAX_TASKS'') (ap_soft default_policy)
      in \<lparr>ap_soft = soft,
          ap_hard = max (or_default (env_number env ''QCOLD_QUEUE_ADMISSION_HARD_MAX_TASKS'') (ap_hard default_policy)) soft,
          ap_heavy = or_default (env_number env ''QCOLD_QUEUE_ADMISSION_HEAVY_MAX_TASKS'') (ap_heavy default_policy),
          ap_retry_seconds = or_default (env_number env ''QCOLD_QUEUE_ADMISSION_RETRY_SECONDS'') (ap_retry_seconds default_policy),
          ap_history_seconds = or_default (env_number env ''QCOLD_QUEUE_ADMISSION_HISTORY_SECONDS'') (ap_history_seconds default_policy)\<rparr>)"

section \<open>Reservations\<close>

definition bytes_per_gib :: nat where
  "bytes_per_gib = 1024 * 1024 * 1024"

record reservation =
  rs_tasks :: nat
  rs_heavy :: nat
  rs_cpu_millis :: nat
  rs_memory :: nat

definition no_reservation :: reservation where
  "no_reservation = \<lparr>rs_tasks = 0, rs_heavy = 0, rs_cpu_millis = 0, rs_memory = 0\<rparr>"

fun reservation_for :: "queue_task_class \<Rightarrow> reservation" where
  "reservation_for ClassCheap = \<lparr>rs_tasks = 1, rs_heavy = 0, rs_cpu_millis = 250, rs_memory = 2 * bytes_per_gib\<rparr>"
| "reservation_for ClassMid = \<lparr>rs_tasks = 1, rs_heavy = 0, rs_cpu_millis = 500, rs_memory = 8 * bytes_per_gib\<rparr>"
| "reservation_for ClassHeavy = \<lparr>rs_tasks = 1, rs_heavy = 1, rs_cpu_millis = 2000, rs_memory = 32 * bytes_per_gib\<rparr>"

definition reserve :: "queue_task_class \<Rightarrow> reservation \<Rightarrow> reservation" where
  "reserve c r =
     \<lparr>rs_tasks = sat_add_u64 (rs_tasks r) (rs_tasks (reservation_for c)),
      rs_heavy = sat_add_u64 (rs_heavy r) (rs_heavy (reservation_for c)),
      rs_cpu_millis = sat_add_u64 (rs_cpu_millis r) (rs_cpu_millis (reservation_for c)),
      rs_memory = sat_add_u64 (rs_memory r) (rs_memory (reservation_for c))\<rparr>"

section \<open>Host and history\<close>

record host_resources =
  hr_logical_cpus :: nat
  hr_load_milli :: "nat option"
  hr_memory_total :: "nat option"
  hr_memory_available :: "nat option"

record node_snapshot =
  ns_cpu :: "nat option"
  ns_load_milli :: "nat option"
  ns_memory :: "(nat \<times> nat) option"

definition host_from_node_snapshot :: "node_snapshot \<Rightarrow> host_resources" where
  "host_from_node_snapshot s =
     \<lparr>hr_logical_cpus = (case ns_cpu s of Some c \<Rightarrow> (if c > 0 then c else 8) | None \<Rightarrow> 8),
      hr_load_milli = ns_load_milli s,
      hr_memory_total = map_option fst (ns_memory s),
      hr_memory_available = map_option snd (ns_memory s)\<rparr>"

definition i64_clamp :: "nat \<Rightarrow> int" where
  "i64_clamp n = (if int n \<le> i64_max then int n else i64_max)"

definition to_sample :: "host_resources \<Rightarrow> nat \<Rightarrow> reservation \<Rightarrow> queue_sample_row" where
  "to_sample h at r =
     \<lparr>qs_sampled_at = at, qs_logical_cpus = Some (i64_clamp (hr_logical_cpus h)),
      qs_load_one_milli = map_option i64_clamp (hr_load_milli h),
      qs_memory_total = map_option i64_clamp (hr_memory_total h),
      qs_memory_available = map_option i64_clamp (hr_memory_available h),
      qs_reserved_tasks = i64_clamp (rs_tasks r), qs_reserved_heavy_tasks = i64_clamp (rs_heavy r)\<rparr>"

record admission_history =
  ah_peak_load :: "nat option"
  ah_min_available :: "nat option"
  ah_peak_tasks :: nat
  ah_peak_heavy :: nat

definition no_history :: admission_history where
  "no_history = \<lparr>ah_peak_load = None, ah_min_available = None, ah_peak_tasks = 0, ah_peak_heavy = 0\<rparr>"

definition non_negative_i64 :: "int \<Rightarrow> nat option" where
  "non_negative_i64 v = (if v < 0 then None else Some (nat v))"

definition join_option :: "(nat \<Rightarrow> nat \<Rightarrow> nat) \<Rightarrow> nat option \<Rightarrow> nat option \<Rightarrow> nat option" where
  "join_option f new old = (case new of None \<Rightarrow> old | Some n \<Rightarrow> Some (case old of None \<Rightarrow> n | Some m \<Rightarrow> f m n))"

definition add_sample :: "admission_history \<Rightarrow> queue_sample_row \<Rightarrow> admission_history" where
  "add_sample h s =
     \<lparr>ah_peak_load = join_option max (Option.bind (qs_load_one_milli s) non_negative_i64) (ah_peak_load h),
      ah_min_available = join_option min (Option.bind (qs_memory_available s) non_negative_i64) (ah_min_available h),
      ah_peak_tasks = (case non_negative_i64 (qs_reserved_tasks s) of None \<Rightarrow> ah_peak_tasks h | Some n \<Rightarrow> max (ah_peak_tasks h) n),
      ah_peak_heavy = (case non_negative_i64 (qs_reserved_heavy_tasks s) of None \<Rightarrow> ah_peak_heavy h | Some n \<Rightarrow> max (ah_peak_heavy h) n)\<rparr>"

definition history_from_samples :: "queue_sample_row list \<Rightarrow> admission_history" where
  "history_from_samples samples = foldl add_sample no_history samples"

record admission_context =
  ac_policy :: admission_policy
  ac_now :: nat
  ac_reservations :: reservation
  ac_host :: host_resources
  ac_history :: admission_history

record admission_wait =
  aw_reason :: string
  aw_next_retry_at :: nat

record admission_plan =
  pl_admitted :: "queue_item_row list"
  pl_waiting :: "(queue_item_row \<times> admission_wait) list"

definition empty_plan :: admission_plan where
  "empty_plan = \<lparr>pl_admitted = [], pl_waiting = []\<rparr>"

section \<open>The decision\<close>

definition memory_safety_floor :: "host_resources \<Rightarrow> nat" where
  "memory_safety_floor h =
     (case hr_memory_total h of
        None \<Rightarrow> 8 * bytes_per_gib
      | Some installed \<Rightarrow> max (2 * bytes_per_gib) (min (8 * bytes_per_gib) (installed div 8)))"

definition load_threshold_milli :: "nat \<Rightarrow> nat \<Rightarrow> nat" where
  "load_threshold_milli cpus per_cpu = sat_mul_u64 (max cpus 1) per_cpu"

definition current_load_too_high :: "admission_context \<Rightarrow> bool" where
  "current_load_too_high c =
     (case hr_load_milli (ac_host c) of
        None \<Rightarrow> False
      | Some load \<Rightarrow> load_threshold_milli (hr_logical_cpus (ac_host c)) 1250 \<le> load)"

definition memory_too_low :: "admission_context \<Rightarrow> nat \<Rightarrow> bool" where
  "memory_too_low c requested =
     (let floor = memory_safety_floor (ac_host c);
          post_reserved = sat_add_u64 (rs_memory (ac_reservations c)) requested
      in (case hr_memory_total (ac_host c) of None \<Rightarrow> False | Some installed \<Rightarrow> sat_add_u64 post_reserved floor > installed) \<or>
         (case hr_memory_available (ac_host c) of None \<Rightarrow> False
          | Some available \<Rightarrow> available < sat_add_u64 requested floor))"

definition recent_resource_pressure :: "admission_context \<Rightarrow> bool" where
  "recent_resource_pressure c =
     ((case ah_peak_load (ac_history c) of None \<Rightarrow> False
       | Some load \<Rightarrow> load_threshold_milli (hr_logical_cpus (ac_host c)) 900 \<le> load) \<or>
      (case ah_min_available (ac_history c) of None \<Rightarrow> False
       | Some available \<Rightarrow> available < memory_safety_floor (ac_host c)) \<or>
      ap_hard (ac_policy c) \<le> ah_peak_tasks (ac_history c) \<or>
      ap_heavy (ac_policy c) \<le> ah_peak_heavy (ac_history c))"

definition queue_admission_wait :: "admission_context \<Rightarrow> queue_task_class \<Rightarrow> admission_wait option" where
  "queue_admission_wait c cls =
     (let requested = reservation_for cls;
          post_tasks = sat_add_u64 (rs_tasks (ac_reservations c)) (rs_tasks requested);
          post_heavy = sat_add_u64 (rs_heavy (ac_reservations c)) (rs_heavy requested);
          retry_at = sat_add_u64 (ac_now c) (ap_retry_seconds (ac_policy c));
          wait = (\<lambda>reason. Some \<lparr>aw_reason = reason, aw_next_retry_at = retry_at\<rparr>);
          post_cpu = sat_add_u64 (rs_cpu_millis (ac_reservations c)) (rs_cpu_millis requested);
          host_cpu = sat_mul_u64 (hr_logical_cpus (ac_host c)) 1000
      in if post_tasks > ap_hard (ac_policy c) then
           wait (''hard task limit '' @ show_nat (ap_hard (ac_policy c)) @ '' would be exceeded ('' @
             show_nat post_tasks @ '' requested)'')
         else if post_heavy > ap_heavy (ac_policy c) then
           wait (''heavy task limit '' @ show_nat (ap_heavy (ac_policy c)) @ '' would be exceeded ('' @
             show_nat post_heavy @ '' requested)'')
         else if current_load_too_high c then wait ''host load is above admission threshold''
         else if memory_too_low c (rs_memory requested) then
           wait ''available memory is below requested reservation''
         else if post_tasks > ap_soft (ac_policy c) \<and> recent_resource_pressure c then
           wait (''soft task limit '' @ show_nat (ap_soft (ac_policy c)) @
             '' would be exceeded under recent resource pressure'')
         else if post_cpu > host_cpu then
           wait (''reserved CPU would exceed '' @ show_nat (hr_logical_cpus (ac_host c)) @ '' logical core(s)'')
         else None)"

definition reserve_in :: "queue_task_class \<Rightarrow> admission_context \<Rightarrow> admission_context" where
  "reserve_in cls c = c\<lparr>ac_reservations := reserve cls (ac_reservations c)\<rparr>"

fun select_from :: "queue_item_row list \<Rightarrow> admission_context \<Rightarrow> admission_plan \<Rightarrow> admission_plan" where
  "select_from [] c plan = plan"
| "select_from (i # is) c plan =
     (case queue_admission_wait c (qi_task_class i) of
        Some w \<Rightarrow> select_from is c (plan\<lparr>pl_waiting := pl_waiting plan @ [(i, w)]\<rparr>)
      | None \<Rightarrow> select_from is (reserve_in (qi_task_class i) c) (plan\<lparr>pl_admitted := pl_admitted plan @ [i]\<rparr>))"

definition select_queue_admission :: "queue_item_row list \<Rightarrow> admission_context \<Rightarrow> admission_plan" where
  "select_queue_admission ready c = select_from ready c empty_plan"

section \<open>Live workers\<close>

text \<open>
  \<open>queue_worker_activity.rs\<close>: an item has a live worker when this process runs one, known by the
  key \<open>run:item\<close>, or when some process holds a lease of it.
\<close>

record activity_snapshot =
  as_local :: "string list"
  as_leased :: "string list"

definition queue_item_worker_key :: "string \<Rightarrow> string \<Rightarrow> string" where
  "queue_item_worker_key run_id item_id = run_id @ '':'' @ item_id"

definition local_queue_item_worker_ids :: "string list \<Rightarrow> string \<Rightarrow> string list" where
  "local_queue_item_worker_ids workers run_id = List.map_filter (strip_prefix (run_id @ '':'')) workers"

definition queue_activity_snapshot :: "string list \<Rightarrow> nat \<Rightarrow> string \<Rightarrow> qdb \<Rightarrow> activity_snapshot" where
  "queue_activity_snapshot workers now run_id db =
     \<lparr>as_local = local_queue_item_worker_ids workers run_id,
      as_leased = active_web_queue_item_worker_lease_ids_at run_id now db\<rparr>"

definition worker_active_in_snapshot :: "string \<Rightarrow> activity_snapshot \<Rightarrow> bool" where
  "worker_active_in_snapshot item_id a = (item_id \<in> set (as_local a) \<or> item_id \<in> set (as_leased a))"

definition queue_item_worker_active :: "string list \<Rightarrow> nat \<Rightarrow> string \<Rightarrow> string \<Rightarrow> qdb \<Rightarrow> bool" where
  "queue_item_worker_active workers now run_id item_id db =
     worker_active_in_snapshot item_id (queue_activity_snapshot workers now run_id db)"

section \<open>Scopes\<close>

text \<open>
  The derived order of the scopes, in which the map of the code lists them: the local host first,
  the launchers by name, then the items without one.
\<close>

datatype admission_scope = ScopeLocal | ScopeRemote string | ScopeMissingLauncher

fun scope_key :: "admission_scope \<Rightarrow> nat \<times> string" where
  "scope_key ScopeLocal = (0, [])"
| "scope_key (ScopeRemote l) = (1, l)"
| "scope_key ScopeMissingLauncher = (2, [])"

lemma scope_key_inj: "scope_key a = scope_key b \<Longrightarrow> a = b"
  by (cases a; cases b) auto

instantiation admission_scope :: linorder
begin

definition less_eq_admission_scope :: "admission_scope \<Rightarrow> admission_scope \<Rightarrow> bool" where
  "less_eq_admission_scope a b = (scope_key a \<le> scope_key b)"

definition less_admission_scope :: "admission_scope \<Rightarrow> admission_scope \<Rightarrow> bool" where
  "less_admission_scope a b = (scope_key a < scope_key b)"

instance
  by standard (auto simp: less_eq_admission_scope_def less_admission_scope_def intro: scope_key_inj)

end

abbreviation queue_item_remote_native :: "queue_item_row \<Rightarrow> bool" where
  "queue_item_remote_native i \<equiv> qi_execution_host i = HostRemoteNative"

definition scope_for_item :: "queue_item_row \<Rightarrow> admission_scope" where
  "scope_for_item i =
     (if queue_item_remote_native i
      then (case map_option trim (qi_remote_launcher i) of
              None \<Rightarrow> ScopeMissingLauncher
            | Some l \<Rightarrow> if l = [] then ScopeMissingLauncher else ScopeRemote l)
      else ScopeLocal)"

definition ready_by_scope :: "queue_item_row list \<Rightarrow> (admission_scope \<times> queue_item_row list) list" where
  "ready_by_scope ready =
     map (\<lambda>s. (s, filter (\<lambda>i. scope_for_item i = s) ready)) (sort (remdups (map scope_for_item ready)))"

definition queue_resource_reservations_for_scope ::
  "(string \<Rightarrow> string \<Rightarrow> bool) \<Rightarrow> queue_item_row list \<Rightarrow> admission_scope \<Rightarrow> reservation" where
  "queue_resource_reservations_for_scope live items scope =
     foldl (\<lambda>r i. if scope_for_item i = scope \<and>
                      (item_has_executor_session (qi_status i) \<or> live (qi_run_id i) (qi_id i))
                   then reserve (qi_task_class i) r else r) no_reservation items"

section \<open>The hosts of remote items\<close>

text \<open>
  What the probe of a launcher printed. The text of a load average goes through a float, which
  the model takes as an argument: the milli-units of a text that parses.
\<close>

datatype remote_probe = ProbeNotStarted string | ProbeOutput bool string string

record admission_env =
  ae_store :: store_env
  ae_var :: "string \<Rightarrow> string option"
  ae_node :: node_snapshot
  ae_probe :: "string \<Rightarrow> remote_probe"
  ae_load_milli :: "string \<Rightarrow> nat option"
  ae_workers :: "string list"

record probe_values =
  pv_cpus :: "nat option"
  pv_load :: "nat option"
  pv_total :: "nat option"
  pv_available :: "nat option"

definition parse_kib :: "string \<Rightarrow> nat option" where
  "parse_kib v =
     Option.bind (parse_unsigned u64_max v) (\<lambda>kib. if kib * 1024 \<le> u64_max then Some (kib * 1024) else None)"

definition parse_cpus :: "string \<Rightarrow> nat option" where
  "parse_cpus v = Option.bind (parse_unsigned u64_max v) (\<lambda>n. if n > 0 then Some n else None)"

definition parse_probe_line :: "(string \<Rightarrow> nat option) \<Rightarrow> probe_values \<Rightarrow> string \<Rightarrow> probe_values" where
  "parse_probe_line load v line =
     (case split_once CHR ''='' line of
        None \<Rightarrow> v
      | Some (key, text) \<Rightarrow>
          let k = trim key; t = trim text in
          if k = ''cpus'' then v\<lparr>pv_cpus := parse_cpus t\<rparr>
          else if k = ''load_one'' then v\<lparr>pv_load := load t\<rparr>
          else if k = ''mem_total_kib'' then v\<lparr>pv_total := parse_kib t\<rparr>
          else if k = ''mem_available_kib'' then v\<lparr>pv_available := parse_kib t\<rparr>
          else v)"

definition parse_remote_admission_resources ::
  "(string \<Rightarrow> nat option) \<Rightarrow> string \<Rightarrow> string + host_resources" where
  "parse_remote_admission_resources load output =
     (let v = foldl (parse_probe_line load)
                \<lparr>pv_cpus = None, pv_load = None, pv_total = None, pv_available = None\<rparr> (str_lines output)
      in case pv_cpus v of
           None \<Rightarrow> Inl ''missing logical CPU count''
         | Some cpus \<Rightarrow> (case pv_total v of
             None \<Rightarrow> Inl ''missing MemTotal''
           | Some installed \<Rightarrow> (case pv_available v of
               None \<Rightarrow> Inl ''missing MemAvailable''
             | Some available \<Rightarrow>
                 Inr \<lparr>hr_logical_cpus = cpus, hr_load_milli = pv_load v,
                      hr_memory_total = Some installed, hr_memory_available = Some available\<rparr>)))"

text \<open>
  The output of a failed probe is cut at the last character that starts at most 1200 bytes into
  the text; a character below 256 takes one or two bytes of UTF-8.
\<close>

definition utf8_width :: "char \<Rightarrow> nat" where
  "utf8_width c = (if (of_char c :: nat) < 128 then 1 else 2)"

fun char_offsets :: "nat \<Rightarrow> string \<Rightarrow> nat list" where
  "char_offsets n [] = []"
| "char_offsets n (c # cs) = n # char_offsets (n + utf8_width c) cs"

definition byte_length :: "string \<Rightarrow> nat" where
  "byte_length s = sum_list (map utf8_width s)"

definition process_output_limit :: nat where
  "process_output_limit = 1200"

definition compact_output :: "string \<Rightarrow> string" where
  "compact_output detail =
     (if process_output_limit < byte_length detail
      then take (length (takeWhile (\<lambda>i. i \<le> process_output_limit) (char_offsets 0 detail)) - 1) detail @ ''...''
      else detail)"

definition compact_remote_admission_output :: "string \<Rightarrow> string \<Rightarrow> string" where
  "compact_remote_admission_output stdout stderr =
     compact_output (''stdout='' @ trim stdout @ '' stderr='' @ trim stderr)"

definition remote_admission_host_resources :: "admission_env \<Rightarrow> string \<Rightarrow> string + host_resources" where
  "remote_admission_host_resources E launcher =
     (case ae_probe E launcher of
        ProbeNotStarted e \<Rightarrow>
          Inl (''failed to collect remote admission resources through '' @ launcher @ '': '' @ e)
      | ProbeOutput success stdout stderr \<Rightarrow>
          if \<not> success
          then Inl (''remote admission resource command through '' @ launcher @ '' failed: '' @
                    compact_remote_admission_output stdout stderr)
          else (case parse_remote_admission_resources (ae_load_milli E) stdout of
                  Inl e \<Rightarrow> Inl (''failed to parse remote admission resources from '' @ launcher @ '': '' @ e)
                | Inr h \<Rightarrow> Inr h))"

section \<open>Applying admission\<close>

definition context_of ::
  "admission_env \<Rightarrow> admission_policy \<Rightarrow> reservation \<Rightarrow> host_resources \<Rightarrow> admission_history \<Rightarrow> admission_context" where
  "context_of E p r h hist =
     \<lparr>ac_policy = p, ac_now = se_now (ae_store E), ac_reservations = r, ac_host = h, ac_history = hist\<rparr>"

definition queue_admission_context ::
  "admission_env \<Rightarrow> admission_scope \<Rightarrow> queue_item_row list \<Rightarrow> (qdb, string + admission_context) prog" where
  "queue_admission_context E scope items = (\<lambda>db.
     let p = policy_from_env (ae_var E);
         now = se_now (ae_store E);
         reserved = queue_resource_reservations_for_scope
           (\<lambda>r i. queue_item_worker_active (ae_workers E) now r i db) items scope;
         retain_since = sat_sub_u64 now (ap_history_seconds p)
     in (case scope of
           ScopeLocal \<Rightarrow>
             let host = host_from_node_snapshot (ae_node E) in
             seq (record_queue_resource_sample (to_sample host now reserved) retain_since)
               (query (\<lambda>db'. Inr (context_of E p reserved host
                  (history_from_samples (load_queue_resource_samples_since retain_since db')))))
         | ScopeRemote launcher \<Rightarrow>
             ret (case remote_admission_host_resources E launcher of
                    Inl e \<Rightarrow> Inl e
                  | Inr host \<Rightarrow> Inr (context_of E p reserved host no_history))
         | ScopeMissingLauncher \<Rightarrow>
             ret (Inl ''remote-native queue item requires remote_launcher or selected_remote_launcher'')) db)"

definition sample_unavailable :: "admission_env \<Rightarrow> string \<Rightarrow> admission_wait" where
  "sample_unavailable E e =
     \<lparr>aw_reason = ''remote resource sample unavailable: '' @ e,
      aw_next_retry_at = sat_add_u64 (se_now (ae_store E)) (ap_retry_seconds (policy_from_env (ae_var E)))\<rparr>"

definition append_plans :: "admission_plan \<Rightarrow> admission_plan \<Rightarrow> admission_plan" where
  "append_plans p q = \<lparr>pl_admitted = pl_admitted p @ pl_admitted q, pl_waiting = pl_waiting p @ pl_waiting q\<rparr>"

definition scope_plan ::
  "admission_env \<Rightarrow> queue_item_row list \<Rightarrow> string + admission_context \<Rightarrow> admission_plan" where
  "scope_plan E items c =
     (case c of
        Inl e \<Rightarrow> \<lparr>pl_admitted = [], pl_waiting = map (\<lambda>i. (i, sample_unavailable E e)) items\<rparr>
      | Inr context \<Rightarrow> select_queue_admission items context)"

fun plan_scopes ::
  "admission_env \<Rightarrow> queue_item_row list \<Rightarrow> (admission_scope \<times> queue_item_row list) list \<Rightarrow> admission_plan \<Rightarrow>
   (qdb, admission_plan) prog" where
  "plan_scopes E all_items [] plan = ret plan"
| "plan_scopes E all_items ((scope, items) # rest) plan =
     bnd (queue_admission_context E scope all_items) (\<lambda>c.
       plan_scopes E all_items rest (append_plans plan (scope_plan E items c)))"

definition admission_waiting_message :: "admission_wait \<Rightarrow> string" where
  "admission_waiting_message w =
     ''admission waiting: '' @ aw_reason w @ ''; retry_at='' @ show_nat (aw_next_retry_at w)"

definition update_queue_admission_waiting ::
  "admission_env \<Rightarrow> (queue_item_row \<times> admission_wait) list \<Rightarrow> (qdb, unit) prog" where
  "update_queue_admission_waiting E waiting =
     for_each (\<lambda>(i, w). update_web_queue_item (ae_store E) (qi_run_id i) (qi_id i) ItemWaiting
       (admission_waiting_message w) (qi_agent_id i) (qi_attempts i) (Some (aw_next_retry_at w))) waiting"

definition apply_queue_admission :: "admission_env \<Rightarrow> queue_item_row list \<Rightarrow> (qdb, admission_plan) prog" where
  "apply_queue_admission E ready =
     (if ready = [] then ret empty_plan
      else bnd (load_web_queue_items (ae_store E)) (\<lambda>all_items.
             bnd (plan_scopes E all_items (ready_by_scope ready) empty_plan) (\<lambda>plan.
               seq (update_queue_admission_waiting E (pl_waiting plan)) (ret plan))))"

section \<open>The plan is safe and maximal\<close>

definition reservation_ok :: "reservation \<Rightarrow> bool" where
  "reservation_ok r = (rs_tasks r \<le> u64_max \<and> rs_heavy r \<le> u64_max \<and> rs_cpu_millis r \<le> u64_max \<and> rs_memory r \<le> u64_max)"

definition within :: "reservation \<Rightarrow> reservation \<Rightarrow> bool" where
  "within r s = (rs_tasks r \<le> rs_tasks s \<and> rs_heavy r \<le> rs_heavy s \<and> rs_cpu_millis r \<le> rs_cpu_millis s \<and> rs_memory r \<le> rs_memory s)"

definition reserve_all :: "queue_item_row list \<Rightarrow> reservation \<Rightarrow> reservation" where
  "reserve_all items r = foldl (\<lambda>r i. reserve (qi_task_class i) r) r items"

definition limits_ok :: "admission_context \<Rightarrow> reservation \<Rightarrow> bool" where
  "limits_ok c r =
     (rs_tasks r \<le> ap_hard (ac_policy c) \<and> rs_heavy r \<le> ap_heavy (ac_policy c) \<and>
      rs_cpu_millis r \<le> hr_logical_cpus (ac_host c) * 1000 \<and>
      (case hr_memory_total (ac_host c) of None \<Rightarrow> True
       | Some installed \<Rightarrow> sat_add_u64 (rs_memory r) (memory_safety_floor (ac_host c)) \<le> installed) \<and>
      \<not> current_load_too_high c \<and>
      (ap_soft (ac_policy c) < rs_tasks r \<longrightarrow> \<not> recent_resource_pressure c))"

abbreviation with_reserved :: "reservation \<Rightarrow> admission_context \<Rightarrow> admission_context" where
  "with_reserved r c \<equiv> c\<lparr>ac_reservations := r\<rparr>"

lemma reservation_ok_reserve [simp]: "reservation_ok (reserve cls r)"
  by (simp add: reservation_ok_def reserve_def sat_add_u64_def)

lemma reservation_ok_all: "reservation_ok r \<Longrightarrow> reservation_ok (reserve_all items r)"
  by (induction items arbitrary: r) (simp_all add: reserve_all_def)

lemma within_refl [simp]: "within r r"
  by (simp add: within_def)

lemma within_trans: "within r s \<Longrightarrow> within s t \<Longrightarrow> within r t"
  by (auto simp: within_def)

lemma within_reserve: "reservation_ok r \<Longrightarrow> within r (reserve cls r)"
  by (simp add: within_def reserve_def reservation_ok_def sat_add_u64_ge)

lemma within_reserve_all: "reservation_ok r \<Longrightarrow> within r (reserve_all items r)"
proof (induction items arbitrary: r)
  case (Cons i rest)
  show ?case
    using within_trans [OF within_reserve [OF Cons.prems] Cons.IH [OF reservation_ok_reserve]]
    by (simp add: reserve_all_def)
qed (simp add: reserve_all_def)

lemma reserve_parts:
  "rs_tasks (reserve cls r) = sat_add_u64 (rs_tasks r) (rs_tasks (reservation_for cls))"
  "rs_heavy (reserve cls r) = sat_add_u64 (rs_heavy r) (rs_heavy (reservation_for cls))"
  "rs_cpu_millis (reserve cls r) = sat_add_u64 (rs_cpu_millis r) (rs_cpu_millis (reservation_for cls))"
  "rs_memory (reserve cls r) = sat_add_u64 (rs_memory r) (rs_memory (reservation_for cls))"
  by (simp_all add: reserve_def)

lemma context_checks [simp]:
  "current_load_too_high (with_reserved r c) = current_load_too_high c"
  "recent_resource_pressure (with_reserved r c) = recent_resource_pressure c"
  "limits_ok (with_reserved r c) = limits_ok c"
  by (simp_all add: current_load_too_high_def recent_resource_pressure_def limits_ok_def fun_eq_iff cong: option.case_cong)

text \<open>An admitted class is one whose reservation stays inside every limit and that finds its memory free.\<close>

lemma wait_None_iff:
  "queue_admission_wait c cls = None \<longleftrightarrow>
     rs_tasks (reserve cls (ac_reservations c)) \<le> ap_hard (ac_policy c) \<and>
     rs_heavy (reserve cls (ac_reservations c)) \<le> ap_heavy (ac_policy c) \<and>
     \<not> current_load_too_high c \<and> \<not> memory_too_low c (rs_memory (reservation_for cls)) \<and>
     \<not> (ap_soft (ac_policy c) < rs_tasks (reserve cls (ac_reservations c)) \<and> recent_resource_pressure c) \<and>
     rs_cpu_millis (reserve cls (ac_reservations c)) \<le> sat_mul_u64 (hr_logical_cpus (ac_host c)) 1000"
  unfolding queue_admission_wait_def Let_def reserve_parts by (auto simp: not_less)

lemma wait_Some_retry:
  "queue_admission_wait c cls = Some w \<Longrightarrow>
     aw_next_retry_at w = sat_add_u64 (ac_now c) (ap_retry_seconds (ac_policy c))"
  unfolding queue_admission_wait_def Let_def by (auto split: if_splits)

lemma admitted_limits_ok:
  assumes "queue_admission_wait c cls = None"
  shows "limits_ok c (reserve cls (ac_reservations c))"
  using assms by (auto simp: wait_None_iff limits_ok_def memory_too_low_def Let_def reserve_parts
      sat_mul_u64_def not_less split: option.splits)

lemma wait_grows:
  assumes "within r s" and "queue_admission_wait (with_reserved s c) cls = None"
  shows "queue_admission_wait (with_reserved r c) cls = None"
proof -
  have le: "within (reserve cls r) (reserve cls s)"
    using assms(1) by (simp add: within_def reserve_parts sat_add_u64_mono)
  have mem: "memory_too_low (with_reserved s c) n" if "memory_too_low (with_reserved r c) n" for n
  proof -
    have "sat_add_u64 (sat_add_u64 (rs_memory r) n) f \<le> sat_add_u64 (sat_add_u64 (rs_memory s) n) f" for f
      using assms(1) by (simp add: within_def sat_add_u64_mono)
    then show ?thesis
      using that by (auto simp: memory_too_low_def Let_def split: option.splits intro: less_le_trans)
  qed
  show ?thesis
    using assms(2) le mem unfolding wait_None_iff within_def by auto
qed

lemma select_from_acc: "select_from items c plan = append_plans plan (select_queue_admission items c)"
proof (induction items arbitrary: c plan)
  case Nil
  show ?case by (simp add: select_queue_admission_def append_plans_def empty_plan_def)
next
  case (Cons i rest)
  show ?case
    unfolding select_queue_admission_def select_from.simps
    by (cases "queue_admission_wait c (qi_task_class i)")
       (simp_all add: Cons.IH append_plans_def empty_plan_def)
qed

lemma select_Nil [simp]: "select_queue_admission [] c = empty_plan"
  by (simp add: select_queue_admission_def)

lemma select_Cons:
  "pl_admitted (select_queue_admission (i # rest) c) =
     (case queue_admission_wait c (qi_task_class i) of
        Some w \<Rightarrow> pl_admitted (select_queue_admission rest c)
      | None \<Rightarrow> i # pl_admitted (select_queue_admission rest (reserve_in (qi_task_class i) c)))"
  "pl_waiting (select_queue_admission (i # rest) c) =
     (case queue_admission_wait c (qi_task_class i) of
        Some w \<Rightarrow> (i, w) # pl_waiting (select_queue_admission rest c)
      | None \<Rightarrow> pl_waiting (select_queue_admission rest (reserve_in (qi_task_class i) c)))"
  unfolding select_queue_admission_def select_from.simps
  by (simp_all add: select_from_acc [of rest] append_plans_def empty_plan_def split: option.split)

lemma empty_plan_parts [simp]: "pl_admitted empty_plan = []" "pl_waiting empty_plan = []"
  by (simp_all add: empty_plan_def)

lemma reserve_in_parts [simp]:
  "ac_reservations (reserve_in cls c) = reserve cls (ac_reservations c)" "ac_now (reserve_in cls c) = ac_now c"
  "ac_policy (reserve_in cls c) = ac_policy c" "with_reserved r (reserve_in cls c) = with_reserved r c"
  "limits_ok (reserve_in cls c) = limits_ok c"
  by (simp_all add: reserve_in_def)

lemma reserve_all_Cons: "reserve_all (i # rest) r = reserve_all rest (reserve (qi_task_class i) r)"
  by (simp add: reserve_all_def)

lemma plan_partitions:
  "ready \<in> shuffles (pl_admitted (select_queue_admission ready c)) (map fst (pl_waiting (select_queue_admission ready c)))"
proof (induction ready arbitrary: c)
  case (Cons i rest)
  show ?case
  proof (cases "queue_admission_wait c (qi_task_class i)")
    case None
    then show ?thesis
      using Cons.IH by (simp add: select_Cons) (rule Cons_in_shuffles_leftI)
  next
    case (Some w)
    then show ?thesis
      using Cons.IH by (simp add: select_Cons) (rule Cons_in_shuffles_rightI)
  qed
qed simp

lemma plan_within_limits:
  "pl_admitted (select_queue_admission ready c) \<noteq> [] \<Longrightarrow>
   limits_ok c (reserve_all (pl_admitted (select_queue_admission ready c)) (ac_reservations c))"
proof (induction ready arbitrary: c)
  case (Cons i rest)
  show ?case
  proof (cases "queue_admission_wait c (qi_task_class i)")
    case (Some w)
    with Cons show ?thesis by (simp add: select_Cons)
  next
    case None
    let ?c = "reserve_in (qi_task_class i) c"
    show ?thesis
    proof (cases "pl_admitted (select_queue_admission rest ?c) = []")
      case True
      with None show ?thesis
        using admitted_limits_ok [OF None] by (simp add: select_Cons reserve_all_def)
    next
      case False
      with None show ?thesis
        using Cons.IH [of ?c] by (simp add: select_Cons reserve_all_Cons)
    qed
  qed
qed simp

lemma plan_maximal:
  assumes "reservation_ok (ac_reservations c)"
    and "(i, w) \<in> set (pl_waiting (select_queue_admission ready c))"
  shows "queue_admission_wait (with_reserved (reserve_all (pl_admitted (select_queue_admission ready c)) (ac_reservations c)) c)
           (qi_task_class i) \<noteq> None"
    and "aw_next_retry_at w = sat_add_u64 (ac_now c) (ap_retry_seconds (ac_policy c))"
  using assms
proof (induction ready arbitrary: c)
  case (Cons j rest)
  { case 1
    show ?case
    proof (cases "queue_admission_wait c (qi_task_class j)")
      case None
      then show ?thesis
        using 1 Cons.IH(1) [of "reserve_in (qi_task_class j) c"]
        by (simp add: select_Cons reserve_all_Cons)
    next
      case (Some w')
      let ?s = "reserve_all (pl_admitted (select_queue_admission rest c)) (ac_reservations c)"
      have "queue_admission_wait (with_reserved ?s c) (qi_task_class j) \<noteq> None"
        using wait_grows [of "ac_reservations c" ?s c "qi_task_class j"] within_reserve_all [OF 1(1)] Some by auto
      with 1 Some Cons.IH(1) [of c] show ?thesis by (auto simp: select_Cons)
    qed
  next
    case 2
    then show ?case
      using Cons.IH(2) [of c] Cons.IH(2) [of "reserve_in (qi_task_class j) c"]
      by (auto simp: select_Cons dest: wait_Some_retry split: option.splits)
  }
qed simp_all


definition sample_host :: host_resources where
  "sample_host = \<lparr>hr_logical_cpus = 8, hr_load_milli = Some 2000,
     hr_memory_total = Some (128 * bytes_per_gib), hr_memory_available = Some (96 * bytes_per_gib)\<rparr>"

definition sample_context :: admission_context where
  "sample_context = \<lparr>ac_policy = default_policy, ac_now = 1000, ac_reservations = no_reservation,
     ac_host = sample_host, ac_history = no_history\<rparr>"


section \<open>Applying a plan\<close>

lemma run_record_sample:
  assumes "schema_ok db"
  shows "\<exists>xs. record_queue_resource_sample s t db = (Inr (), db\<lparr>db_samples := xs\<rparr>) \<and>
    schema_ok (db\<lparr>db_samples := xs\<rparr>)"
proof -
  let ?up = "upsert_by qs_sampled_at (\<lambda>old new. new) s (db_samples db)"
  let ?xs = "delete_where (\<lambda>x. qs_sampled_at x < t) ?up"
  have "distinct (map qs_sampled_at ?up)"
    using assms by (intro distinct_upsert_by) (auto simp: schema_parts)
  then have "schema_ok (db\<lparr>db_samples := ?up\<rparr>)" "schema_ok (db\<lparr>db_samples := ?xs\<rparr>)"
    using assms distinct_map_delete by (simp_all add: schema_parts)
  then show ?thesis
    by (intro exI [of _ ?xs]) (simp add: record_queue_resource_sample_def run_bnd run_sql_exec)
qed

definition context_ok :: "admission_env \<Rightarrow> reservation \<Rightarrow> string + admission_context \<Rightarrow> bool" where
  "context_ok E reserved c =
     (case c of Inl e \<Rightarrow> True
      | Inr x \<Rightarrow> ac_reservations x = reserved \<and> ac_policy x = policy_from_env (ae_var E) \<and>
                ac_now x = se_now (ae_store E))"

definition reserved_in ::
  "admission_env \<Rightarrow> queue_item_row list \<Rightarrow> qdb \<Rightarrow> admission_scope \<Rightarrow> reservation" where
  "reserved_in E items db = queue_resource_reservations_for_scope
     (\<lambda>r i. queue_item_worker_active (ae_workers E) (se_now (ae_store E)) r i db) items"

lemma reserved_in_samples [simp]: "reserved_in E items (db\<lparr>db_samples := xs\<rparr>) = reserved_in E items db"
  by (simp add: reserved_in_def queue_item_worker_active_def queue_activity_snapshot_def
      active_web_queue_item_worker_lease_ids_at_def)

lemma reservation_ok_count:
  "reservation_ok r \<Longrightarrow> reservation_ok (foldl (\<lambda>r i. if P i then reserve (qi_task_class i) r else r) r items)"
proof (induction items arbitrary: r)
  case (Cons i rest)
  then show ?case by (cases "P i") simp_all
qed simp

lemma reserved_in_ok: "reservation_ok (reserved_in E items db s)"
  unfolding reserved_in_def queue_resource_reservations_for_scope_def
  by (rule reservation_ok_count) (simp add: no_reservation_def reservation_ok_def)

lemma context_runs:
  assumes "schema_ok db"
  shows "\<exists>c xs. queue_admission_context E s items db = (Inr c, db\<lparr>db_samples := xs\<rparr>) \<and>
    schema_ok (db\<lparr>db_samples := xs\<rparr>) \<and> context_ok E (reserved_in E items db s) c"
proof (cases s)
  case ScopeLocal
  let ?now = "se_now (ae_store E)"
  let ?s = "to_sample (host_from_node_snapshot (ae_node E)) ?now (reserved_in E items db s)"
  let ?t = "sat_sub_u64 ?now (ap_history_seconds (policy_from_env (ae_var E)))"
  obtain xs where xs: "record_queue_resource_sample ?s ?t db = (Inr (), db\<lparr>db_samples := xs\<rparr>)"
      "schema_ok (db\<lparr>db_samples := xs\<rparr>)"
    using run_record_sample [OF assms] by blast
  let ?c = "context_of E (policy_from_env (ae_var E)) (reserved_in E items db s)
    (host_from_node_snapshot (ae_node E))
    (history_from_samples (load_queue_resource_samples_since ?t (db\<lparr>db_samples := xs\<rparr>)))"
  have "queue_admission_context E s items db = (Inr (Inr ?c), db\<lparr>db_samples := xs\<rparr>)"
    using xs(1) unfolding queue_admission_context_def Let_def reserved_in_def
    by (simp only: ScopeLocal admission_scope.simps bnd_def prod.case sum.case query_def)
  then show ?thesis
    using xs(2) by (intro exI [of _ "Inr ?c"] exI [of _ xs]) (simp add: context_ok_def context_of_def)
next
  case (ScopeRemote l)
  let ?c = "case remote_admission_host_resources E l of Inl e \<Rightarrow> Inl e
    | Inr host \<Rightarrow> Inr (context_of E (policy_from_env (ae_var E)) (reserved_in E items db s) host no_history)"
  have "queue_admission_context E s items db = (Inr ?c, db\<lparr>db_samples := db_samples db\<rparr>)"
    unfolding queue_admission_context_def Let_def reserved_in_def
    by (simp only: ScopeRemote admission_scope.simps ret_def prod.inject sum.inject) simp
  moreover have "context_ok E (reserved_in E items db s) ?c"
    by (cases "remote_admission_host_resources E l") (simp_all add: context_ok_def context_of_def)
  moreover have "schema_ok (db\<lparr>db_samples := db_samples db\<rparr>)" using assms by simp
  ultimately show ?thesis by blast
next
  case ScopeMissingLauncher
  let ?c = "Inl ''remote-native queue item requires remote_launcher or selected_remote_launcher''"
  have "queue_admission_context E s items db = (Inr ?c, db\<lparr>db_samples := db_samples db\<rparr>)"
    unfolding queue_admission_context_def Let_def
    by (simp only: ScopeMissingLauncher admission_scope.simps ret_def prod.inject sum.inject) simp
  moreover have "context_ok E (reserved_in E items db s) ?c" by (simp add: context_ok_def)
  moreover have "schema_ok (db\<lparr>db_samples := db_samples db\<rparr>)" using assms by simp
  ultimately show ?thesis by blast
qed

definition plans_of ::
  "admission_env \<Rightarrow> (admission_scope \<times> queue_item_row list) list \<Rightarrow> (string + admission_context) list \<Rightarrow>
   admission_plan list" where
  "plans_of E groups cs = map2 (\<lambda>g c. scope_plan E (snd g) c) groups cs"

lemma plan_scopes_runs:
  assumes "schema_ok db"
  shows "\<exists>cs xs. plan_scopes E items groups plan db =
      (Inr (foldl append_plans plan (plans_of E groups cs)), db\<lparr>db_samples := xs\<rparr>) \<and>
    schema_ok (db\<lparr>db_samples := xs\<rparr>) \<and>
    list_all2 (\<lambda>g c. context_ok E (reserved_in E items db (fst g)) c) groups cs"
  using assms
proof (induction groups arbitrary: plan db)
  case Nil
  then show ?case by (intro exI [of _ "[]"] exI [of _ "db_samples db"]) (simp add: plans_of_def)
next
  case (Cons g groups)
  obtain s js where g: "g = (s, js)" by (cases g)
  obtain c xs where c: "queue_admission_context E s items db = (Inr c, db\<lparr>db_samples := xs\<rparr>)"
      "schema_ok (db\<lparr>db_samples := xs\<rparr>)" "context_ok E (reserved_in E items db s) c"
    using context_runs [OF Cons.prems] by blast
  obtain cs ys where cs: "plan_scopes E items groups (append_plans plan (scope_plan E js c)) (db\<lparr>db_samples := xs\<rparr>) =
        (Inr (foldl append_plans (append_plans plan (scope_plan E js c)) (plans_of E groups cs)), db\<lparr>db_samples := ys\<rparr>)"
      "schema_ok (db\<lparr>db_samples := ys\<rparr>)"
      "list_all2 (\<lambda>g c. context_ok E (reserved_in E items db (fst g)) c) groups cs"
    using Cons.IH [OF c(2), of "append_plans plan (scope_plan E js c)"] by auto
  show ?case
    using c cs by (intro exI [of _ "c # cs"] exI [of _ ys]) (simp add: g plans_of_def bnd_Inr)
qed

lemma fold_plans:
  "pl_admitted (foldl append_plans p ps) = pl_admitted p @ concat (map pl_admitted ps)"
  "pl_waiting (foldl append_plans p ps) = pl_waiting p @ concat (map pl_waiting ps)"
  by (induction ps arbitrary: p) (simp_all add: append_plans_def)

lemma scope_plan_mset:
  "mset (pl_admitted (scope_plan E items c)) + mset (map fst (pl_waiting (scope_plan E items c))) = mset items"
proof (cases c)
  case (Inl e)
  have "map fst (map (\<lambda>i. (i, sample_unavailable E e)) items) = items" by (induction items) auto
  then show ?thesis by (simp only: Inl scope_plan_def sum.case admission_plan.simps) simp
next
  case (Inr x)
  show ?thesis using mset_shuffles [OF plan_partitions [of items x]] by (simp add: Inr scope_plan_def)
qed

lemma plans_mset:
  "length cs = length groups \<Longrightarrow>
   mset (concat (map pl_admitted (plans_of E groups cs))) + mset (map fst (concat (map pl_waiting (plans_of E groups cs)))) =
     mset (concat (map snd groups))"
proof (induction groups cs rule: list_induct2')
  case (4 g groups c cs)
  then show ?case
    using scope_plan_mset [of E "snd g" c] by (simp add: plans_of_def ac_simps)
qed (simp_all add: plans_of_def)

lemma mset_groups:
  "distinct ks \<Longrightarrow> (\<forall>x \<in> set xs. f x \<in> set ks) \<Longrightarrow> mset (concat (map (\<lambda>k. filter (\<lambda>x. f x = k) xs) ks)) = mset xs"
proof (induction ks arbitrary: xs)
  case (Cons k ks)
  let ?ys = "filter (\<lambda>x. f x \<noteq> k) xs"
  have "map (\<lambda>k'. filter (\<lambda>x. f x = k') xs) ks = map (\<lambda>k'. filter (\<lambda>x. f x = k') ?ys) ks"
    using Cons.prems(1) by (intro map_cong refl) (auto intro!: filter_cong)
  moreover have "mset (concat (map (\<lambda>k'. filter (\<lambda>x. f x = k') ?ys) ks)) = mset ?ys"
    using Cons.prems by (intro Cons.IH) auto
  moreover have "mset (filter (\<lambda>x. f x = k) xs) + mset ?ys = mset xs"
    using multiset_partition [of "mset xs" "\<lambda>x. f x = k"] by (simp add: mset_filter)
  ultimately show ?case by (simp only: list.map concat.simps mset_append)
qed simp

lemma ready_by_scope_facts:
  "mset (concat (map snd (ready_by_scope ready))) = mset ready" "distinct (map fst (ready_by_scope ready))"
  "\<forall>g \<in> set (ready_by_scope ready). \<forall>i \<in> set (snd g). scope_for_item i = fst g"
proof -
  have "map snd (ready_by_scope ready) =
      map (\<lambda>s. filter (\<lambda>i. scope_for_item i = s) ready) (sort (remdups (map scope_for_item ready)))"
    by (simp add: ready_by_scope_def)
  then show "mset (concat (map snd (ready_by_scope ready))) = mset ready"
    using mset_groups [of "sort (remdups (map scope_for_item ready))" ready scope_for_item] by simp
qed (auto simp: ready_by_scope_def comp_def)

lemma scope_plan_admitted: "set (pl_admitted (scope_plan E items c)) \<subseteq> set items"
  using scope_plan_mset [of E items c] by (metis set_mset_mono mset_subset_eq_add_left set_mset_mset)

lemma scope_plan_limits:
  assumes "context_ok E reserved c" and "pl_admitted (scope_plan E items c) \<noteq> []"
  shows "let r = reserve_all (pl_admitted (scope_plan E items c)) reserved
         in rs_tasks r \<le> ap_hard (policy_from_env (ae_var E)) \<and> rs_heavy r \<le> ap_heavy (policy_from_env (ae_var E))"
proof (cases c)
  case (Inr x)
  then show ?thesis
    using assms plan_within_limits [of items x] by (simp add: scope_plan_def context_ok_def limits_ok_def)
qed (use assms in \<open>simp add: scope_plan_def\<close>)

lemma scope_plan_retry:
  assumes "context_ok E reserved c" and "reservation_ok reserved" and "(i, w) \<in> set (pl_waiting (scope_plan E items c))"
  shows "aw_next_retry_at w = sat_add_u64 (se_now (ae_store E)) (ap_retry_seconds (policy_from_env (ae_var E)))"
proof (cases c)
  case (Inl e)
  with assms(3) show ?thesis by (auto simp: scope_plan_def sample_unavailable_def)
next
  case (Inr x)
  then show ?thesis using assms plan_maximal(2) [of x i w items] by (simp add: scope_plan_def context_ok_def)
qed

definition wait_update :: "admission_env \<Rightarrow> queue_item_row \<Rightarrow> admission_wait \<Rightarrow> queue_item_row \<Rightarrow> queue_item_row" where
  "wait_update E i w j = j\<lparr>qi_status := ItemWaiting, qi_message := admission_waiting_message w,
     qi_agent_id := coalesce (qi_agent_id i) (qi_agent_id j), qi_attempts := qi_attempts i,
     qi_next_attempt_at := Some (aw_next_retry_at w), qi_updated_at := se_now (ae_store E)\<rparr>"

abbreviation run_and_id :: "queue_item_row \<Rightarrow> string \<times> string" where
  "run_and_id i \<equiv> (qi_run_id i, qi_id i)"

lemma update_waiting_runs:
  assumes "schema_ok db" and "distinct (map (run_and_id \<circ> fst) ws)"
  shows "\<exists>db'. update_queue_admission_waiting E ws db = (Inr (), db') \<and> schema_ok db' \<and>
    db_tabs db' = db_tabs db \<and> db_runs db' = db_runs db \<and> db_leases db' = db_leases db \<and>
    (\<forall>(i, w) \<in> set ws. find_item (qi_run_id i) (qi_id i) db' =
       map_option (wait_update E i w) (find_item (qi_run_id i) (qi_id i) db)) \<and>
    (\<forall>r a. (r, a) \<notin> set (map (run_and_id \<circ> fst) ws) \<longrightarrow> find_item r a db' = find_item r a db)"
  using assms
proof (induction ws arbitrary: db)
  case Nil
  then show ?case by (simp add: update_queue_admission_waiting_def)
next
  case (Cons x ws)
  obtain i w where x: "x = (i, w)" by (cases x)
  let ?r = "qi_run_id i" and ?a = "qi_id i"
  let ?d = "project (ae_store E) ?r ?a (with_item ?r ?a (wait_update E i w) db)"
  have keys: "item_keys (wait_update E i w j) = item_keys j" for j by (simp add: wait_update_def item_keys_def)
  have d: "schema_ok ?d" by (intro schema_ok_project schema_ok_with_item keys Cons.prems(1))
  have run: "update_web_queue_item (ae_store E) ?r ?a ItemWaiting (admission_waiting_message w) (qi_agent_id i)
      (qi_attempts i) (Some (aw_next_retry_at w)) db = (Inr (), ?d)"
    using Cons.prems(1) by (simp add: run_update_item wait_update_def [abs_def])
  have find: "find_item r b ?d = (if r = ?r \<and> b = ?a then map_option (wait_update E i w) (find_item r b db)
      else find_item r b db)" for r b
    by (simp add: find_with_item [OF keys])
  obtain db' where db': "update_queue_admission_waiting E ws ?d = (Inr (), db')" "schema_ok db'"
      "db_tabs db' = db_tabs ?d" "db_runs db' = db_runs ?d" "db_leases db' = db_leases ?d"
      "\<forall>(i, w) \<in> set ws. find_item (qi_run_id i) (qi_id i) db' =
         map_option (wait_update E i w) (find_item (qi_run_id i) (qi_id i) ?d)"
      "\<forall>r a. (r, a) \<notin> set (map (run_and_id \<circ> fst) ws) \<longrightarrow> find_item r a db' = find_item r a ?d"
    using Cons.IH [OF d] Cons.prems(2) by auto
  have apart: "(?r, ?a) \<notin> set (map (run_and_id \<circ> fst) ws)"
    using Cons.prems(2) by (simp add: x)
  have "update_queue_admission_waiting E (x # ws) db = (Inr (), db')"
    using run db'(1) by (simp add: update_queue_admission_waiting_def x bnd_Inr)
  moreover have "\<forall>(j, v) \<in> set (x # ws). find_item (qi_run_id j) (qi_id j) db' =
      map_option (wait_update E j v) (find_item (qi_run_id j) (qi_id j) db)"
  proof (intro ballI, clarify)
    fix j v assume jv: "(j, v) \<in> set (x # ws)"
    show "find_item (qi_run_id j) (qi_id j) db' = map_option (wait_update E j v) (find_item (qi_run_id j) (qi_id j) db)"
    proof (cases "(j, v) = (i, w)")
      case True
      then show ?thesis using apart db'(7) find by simp
    next
      case False
      then have mem: "(j, v) \<in> set ws" using jv x by auto
      then have "(qi_run_id j, qi_id j) \<in> set (map (run_and_id \<circ> fst) ws)" by force
      then have "(qi_run_id j, qi_id j) \<noteq> (?r, ?a)" using apart by metis
      then have "find_item (qi_run_id j) (qi_id j) ?d = find_item (qi_run_id j) (qi_id j) db"
        using find [of "qi_run_id j" "qi_id j"] by (metis prod.inject)
      with bspec [OF db'(6) mem] show ?thesis by (simp only: prod.case)
    qed
  qed
  moreover have "\<forall>r a. (r, a) \<notin> set (map (run_and_id \<circ> fst) (x # ws)) \<longrightarrow> find_item r a db' = find_item r a db"
    using db'(7) find by (simp add: x)
  ultimately show ?case using db' by auto
qed

lemma filter_scope_other:
  assumes "\<forall>g \<in> set groups. \<forall>i \<in> set (snd g). scope_for_item i = fst g" and "s \<notin> fst ` set groups"
  shows "filter (\<lambda>i. scope_for_item i = s) (concat (map pl_admitted (plans_of E groups cs))) = []"
  using assms
proof (induction groups cs rule: list_induct2')
  case (4 g groups c cs)
  have "\<forall>i \<in> set (pl_admitted (scope_plan E (snd g) c)). scope_for_item i \<noteq> s"
    using 4 scope_plan_admitted [of E "snd g" c] by auto
  then have "filter (\<lambda>i. scope_for_item i = s) (pl_admitted (scope_plan E (snd g) c)) = []"
    by (simp add: filter_empty_conv)
  with 4 show ?case by (simp add: plans_of_def)
qed (simp_all add: plans_of_def)

lemma plans_limits:
  assumes "list_all2 (\<lambda>g c. context_ok E (R (fst g)) c) groups cs" and "distinct (map fst groups)"
    and "\<forall>g \<in> set groups. \<forall>i \<in> set (snd g). scope_for_item i = fst g"
    and "filter (\<lambda>i. scope_for_item i = s) (concat (map pl_admitted (plans_of E groups cs))) \<noteq> []"
  shows "let r = reserve_all (filter (\<lambda>i. scope_for_item i = s) (concat (map pl_admitted (plans_of E groups cs)))) (R s)
     in rs_tasks r \<le> ap_hard (policy_from_env (ae_var E)) \<and> rs_heavy r \<le> ap_heavy (policy_from_env (ae_var E))"
  using assms
proof (induction groups cs rule: list_all2_induct)
  case (Cons g groups c cs)
  let ?p = "pl_admitted (scope_plan E (snd g) c)"
  let ?f = "filter (\<lambda>i. scope_for_item i = s)"
  have of: "\<forall>i \<in> set ?p. scope_for_item i = fst g"
    using Cons.prems scope_plan_admitted [of E "snd g" c] by auto
  have split: "concat (map pl_admitted (plans_of E (g # groups) (c # cs))) =
      ?p @ concat (map pl_admitted (plans_of E groups cs))" by (simp add: plans_of_def)
  show ?case
  proof (cases "fst g = s")
    case True
    have "?f (concat (map pl_admitted (plans_of E groups cs))) = []"
      using Cons.prems True by (intro filter_scope_other) auto
    moreover have "?f ?p = ?p" using of True by simp
    ultimately have all: "?f (concat (map pl_admitted (plans_of E (g # groups) (c # cs)))) = ?p"
      by (simp only: split filter_append) simp
    with Cons.prems Cons.hyps(1) True show ?thesis
      using scope_plan_limits [of E "R s" c "snd g"] by (simp only: all) simp
  next
    case False
    then have "?f ?p = []" using of by (simp add: filter_empty_conv)
    then have all: "?f (concat (map pl_admitted (plans_of E (g # groups) (c # cs)))) =
        ?f (concat (map pl_admitted (plans_of E groups cs)))"
      by (simp only: split filter_append) simp
    show ?thesis unfolding all using Cons.prems by (intro Cons.IH) (auto simp: all [symmetric])
  qed
qed (simp add: plans_of_def)

lemma plans_retry:
  assumes "list_all2 (\<lambda>g c. context_ok E (R (fst g)) c) groups cs" and "\<And>s. reservation_ok (R s)"
    and "(i, w) \<in> set (concat (map pl_waiting (plans_of E groups cs)))"
  shows "aw_next_retry_at w = sat_add_u64 (se_now (ae_store E)) (ap_retry_seconds (policy_from_env (ae_var E)))"
  using assms(1,3)
proof (induction groups cs rule: list_all2_induct)
  case (Cons g groups c cs)
  have "(i, w) \<in> set (pl_waiting (scope_plan E (snd g) c)) \<or>
      (i, w) \<in> set (concat (map pl_waiting (plans_of E groups cs)))"
    using Cons.prems by (simp add: plans_of_def)
  then show ?case
  proof
    assume "(i, w) \<in> set (pl_waiting (scope_plan E (snd g) c))"
    with Cons.hyps(1) assms(2) show ?thesis by (intro scope_plan_retry)
  qed (rule Cons.IH)
qed (simp add: plans_of_def)

lemma mset_split_map:
  assumes "mset a + mset (map fst w) = mset r"
  shows "mset (map f a) + mset (map (f \<circ> fst) w) = mset (map f r)"
proof -
  have "image_mset f (mset a + mset (map fst w)) = image_mset f (mset r)" using assms by (simp only:)
  then show ?thesis by (simp add: multiset.map_comp)
qed

definition shown_items :: "qdb \<Rightarrow> queue_item_row list" where
  "shown_items db = sort_key (\<lambda>i. (qi_run_id i, qi_position i, qi_id i))
     (filter (\<lambda>i. Some (qi_run_id i) \<in> set (map qt_run_id (db_tabs db))) (db_items db))"

lemma run_load_items: "tabs_inv db \<Longrightarrow> load_web_queue_items E db = (Inr (shown_items db), db)"
  by (simp add: load_web_queue_items_def ensure_seq shown_items_def)

lemma bnd_load_items: "tabs_inv db \<Longrightarrow> bnd (load_web_queue_items E) k db = k (shown_items db) db"
  using run_load_items by (simp add: run_bnd)


definition sample_admission_env :: admission_env where
  "sample_admission_env = \<lparr>ae_store = sample_env, ae_var = (\<lambda>_. None),
     ae_node = \<lparr>ns_cpu = Some 8, ns_load_milli = Some 2000, ns_memory = Some (128 * bytes_per_gib, 96 * bytes_per_gib)\<rparr>,
     ae_probe = (\<lambda>_. ProbeNotStarted ''no such file''), ae_load_milli = (\<lambda>_. None), ae_workers = []\<rparr>"


end
