(* ===== verification/Status_Reducer.thy ===== *)
theory Status_Reducer
  imports Queue_Types
begin

text \<open>
  The pure reducer of the queue status (\<open>src/src/webapp/queue_worker_status_reducer.rs\<close>): from a
  snapshot of evidence about one item it derives the effective status, a reason, the one action
  the executor may take, and whether the item is dealt with. The texts of
  \<open>queue_worker_record_status.rs\<close> and \<open>queue_worker_recovery.rs\<close> that the decisions compare
  with are here too.
\<close>

datatype queue_effective_status =
  EffRunning | EffWaitingForRecord | EffStaleUnknown | EffDisconnectedOpenRecord | EffClosedSuccess
  | EffExecutionFailed | EffCloseoutFailedButSessionLive | EffLaunchFailed | EffPaused | EffTerminalFailure

datatype queue_allowed_action =
  ActNone | ActRefreshEvidence | ActMarkSuccess | ActMarkPaused | ActMarkRunning
  | ActRelaunchRemoteDisconnectedOpenRecord | ActRecoverExecution | ActBoundedRelaunch | ActMarkFailed

record queue_status_evidence =
  ev_task_status :: "string option"
  ev_status_sync_error :: "string option"
  ev_item_status :: queue_item_status
  ev_item_message :: string
  ev_remote_native :: bool
  ev_has_agent_id :: bool
  ev_local_agent_live :: bool
  ev_remote_live_agent_id :: "string option"
  ev_closeout_failed_prompt_live :: bool
  ev_launch_in_progress :: bool
  ev_recovery_waiting :: bool
  ev_recovery_live_agent_id :: "string option"

record queue_status_reduction =
  red_status :: queue_effective_status
  red_reason :: string
  red_action :: queue_allowed_action
  red_handled :: bool

definition reduction :: "queue_effective_status \<Rightarrow> string \<Rightarrow> queue_allowed_action \<Rightarrow> bool \<Rightarrow> queue_status_reduction" where
  "reduction st reason act handled =
     \<lparr>red_status = st, red_reason = reason, red_action = act, red_handled = handled\<rparr>"

lemma reduction_sel [simp]:
  "red_status (reduction s r a h) = s" "red_reason (reduction s r a h) = r"
  "red_action (reduction s r a h) = a" "red_handled (reduction s r a h) = h"
  by (simp_all add: reduction_def)

section \<open>Texts\<close>

definition closed_success :: string where
  "closed_success = ''closed:success''"

definition remote_disconnected_open_message :: string where
  "remote_disconnected_open_message =
     ''remote-native task is open, but remote-agent session is not running on the remote host''"

definition remote_open_record_relaunch_message :: string where
  "remote_open_record_relaunch_message =
     ''remote-native task is open but remote-agent session is missing; relaunching item''"

definition local_open_record_recovery_message :: string where
  "local_open_record_recovery_message = ''local task is open but agent session is missing''"

definition local_open_record_stopped_message :: string where
  "local_open_record_stopped_message =
     ''local task is open but agent session is missing; press Continue to resume''"

definition queue_continue_pending_message :: string where
  "queue_continue_pending_message = ''pending after queue continue''"

definition agent_exited_before_closeout :: string where
  "agent_exited_before_closeout = ''agent exited before task closeout''"

definition agent_exited_before_task_record :: string where
  "agent_exited_before_task_record = ''agent exited before opening task record''"

definition agent_failed_qcold_closeout :: string where
  "agent_failed_qcold_closeout = ''agent reached idle prompt after failed Q-COLD closeout''"

definition local_launch_failed_relaunch_message :: string where
  "local_launch_failed_relaunch_message =
     ''local executor exited before opening task record; relaunching item''"

definition remote_missing_record_relaunch_message :: string where
  "remote_missing_record_relaunch_message =
     ''remote-native task record and session are missing; relaunching item''"

definition remote_record_not_visible_message :: string where
  "remote_record_not_visible_message =
     ''remote-native task record was not visible after remote-agent open''"

section \<open>Classes of task statuses and messages\<close>

definition queue_task_status_message_is_stale_unknown :: "string \<Rightarrow> bool" where
  "queue_task_status_message_is_stale_unknown m =
     (str_contains ''remote-native task-record sync failed'' m
      \<or> str_contains ''task-record sync failed'' m
      \<or> str_contains ''failed to sync remote task records'' m)"

definition queue_status_auto_recoverable :: "string \<Rightarrow> bool" where
  "queue_status_auto_recoverable s = (s = ''closed:failed'' \<or> s = ''failed-closeout'')"

definition queue_failure_message_auto_recoverable :: "string \<Rightarrow> bool" where
  "queue_failure_message_auto_recoverable m =
     (m = agent_exited_before_closeout \<or> m = agent_failed_qcold_closeout)"

definition queue_failure_message_launch_recoverable :: "string \<Rightarrow> bool" where
  "queue_failure_message_launch_recoverable m =
     (m = agent_exited_before_task_record \<or> m = local_launch_failed_relaunch_message \<or>
      m = remote_missing_record_relaunch_message \<or> starts_with remote_record_not_visible_message m)"

definition queue_task_status_terminal :: "string \<Rightarrow> bool" where
  "queue_task_status_terminal s = (starts_with ''closed'' s \<or> s = ''failed-closeout'')"

section \<open>The reducer\<close>

definition starting_running_or_waiting :: "queue_item_status \<Rightarrow> bool" where
  "starting_running_or_waiting st = (st = ItemStarting \<or> st = ItemRunning \<or> st = ItemWaiting)"

definition remote_native_open_record_should_relaunch :: "queue_status_evidence \<Rightarrow> bool" where
  "remote_native_open_record_should_relaunch e =
     (starting_running_or_waiting (ev_item_status e) \<or>
      (item_is_stopped_or_paused (ev_item_status e) \<and> ev_item_message e = remote_disconnected_open_message) \<or>
      (item_is_failed_or_blocked (ev_item_status e) \<and>
       queue_task_status_message_is_stale_unknown (ev_item_message e)))"

definition missing_record_can_relaunch :: "queue_status_evidence \<Rightarrow> bool" where
  "missing_record_can_relaunch e = starting_running_or_waiting (ev_item_status e)"

definition local_open_record_recoverable :: "queue_status_evidence \<Rightarrow> bool" where
  "local_open_record_recoverable e =
     (let waiting_for_continue =
            ev_item_status e = ItemPending \<and> ev_item_message e = queue_continue_pending_message
      in if ev_item_status e = ItemSuccess \<or> ev_item_status e = ItemPaused \<or> waiting_for_continue \<or>
            ev_launch_in_progress e
         then False
         else \<not> item_is_stopped_or_paused (ev_item_status e) \<or>
              (ev_item_status e = ItemStopped \<and> ev_item_message e = local_open_record_stopped_message))"

definition reduce_open_task_record :: "queue_status_evidence \<Rightarrow> queue_status_reduction" where
  "reduce_open_task_record e =
     (if ev_remote_native e then
        (if ev_remote_live_agent_id e \<noteq> None then
           reduction EffRunning ''remote-native task record is open and a matching session is live''
             ActMarkRunning True
         else if remote_native_open_record_should_relaunch e then
           reduction EffDisconnectedOpenRecord
             ''remote-native task record is open but no matching session is live''
             ActRelaunchRemoteDisconnectedOpenRecord True
         else reduction EffDisconnectedOpenRecord
             ''remote-native task record is open but no matching session is live'' ActNone False)
      else if ev_closeout_failed_prompt_live e then
        reduction EffCloseoutFailedButSessionLive ''local agent is live at a failed closeout prompt''
          ActRecoverExecution True
      else if ev_local_agent_live e then
        reduction EffRunning ''local task record is open and the local agent is live'' ActNone True
      else if ev_launch_in_progress e \<or> ev_recovery_waiting e then
        reduction EffRunning ''open local task record is already covered by a launch or recovery worker''
          ActNone True
      else if ev_item_status e = ItemPending \<and> ev_item_message e = queue_continue_pending_message then
        reduction EffRunning ''queue continue already reset the disconnected local record for relaunch''
          ActNone True
      else if local_open_record_recoverable e then
        reduction EffExecutionFailed ''local task record is open but no local agent is live''
          ActRecoverExecution True
      else reduction EffDisconnectedOpenRecord ''local task record is open but no local agent is live''
          ActNone False)"

definition reduce_recoverable_task_failure :: "queue_status_evidence \<Rightarrow> queue_status_reduction" where
  "reduce_recoverable_task_failure e =
     (if ev_remote_native e \<and> ev_remote_live_agent_id e \<noteq> None then
        reduction EffCloseoutFailedButSessionLive
          ''remote-native task record reports failed closeout while a matching session is live''
          ActMarkRunning True
      else if ev_recovery_live_agent_id e \<noteq> None then
        reduction EffRunning ''semantic recovery agent is already live'' ActMarkRunning True
      else if ev_recovery_waiting e then
        reduction EffRunning ''semantic recovery is already pending for the current attempt'' ActNone True
      else reduction EffExecutionFailed ''task execution failed and may consume semantic recovery budget''
          ActRecoverExecution True)"

definition reduce_missing_task_record :: "queue_status_evidence \<Rightarrow> queue_status_reduction" where
  "reduce_missing_task_record e =
     (if ev_has_agent_id e \<and> \<not> ev_local_agent_live e \<and> ev_remote_live_agent_id e = None \<and>
         missing_record_can_relaunch e then
        reduction EffLaunchFailed ''executor vanished before a task record was visible''
          ActBoundedRelaunch False
      else if ev_status_sync_error e \<noteq> None then
        reduction EffStaleUnknown ''task-record sync unavailable; keep queue row stale instead of failing it''
          ActRefreshEvidence True
      else if ev_remote_native e \<and> ev_remote_live_agent_id e \<noteq> None then
        reduction EffWaitingForRecord ''remote-native session is live but task record is not visible yet''
          ActNone True
      else reduction EffWaitingForRecord ''task record is not visible yet'' ActNone False)"

definition reduce_queue_status :: "queue_status_evidence \<Rightarrow> queue_status_reduction" where
  "reduce_queue_status e =
     (case ev_task_status e of
        None \<Rightarrow> reduce_missing_task_record e
      | Some status \<Rightarrow>
          if status = closed_success then
            reduction EffClosedSuccess ''task record closed successfully'' ActMarkSuccess True
          else if status = ''paused'' then
            reduction EffPaused ''task record is paused'' ActMarkPaused True
          else if status = ''open'' then reduce_open_task_record e
          else if queue_status_auto_recoverable status then reduce_recoverable_task_failure e
          else if queue_task_status_terminal status then
            reduction EffTerminalFailure ''task record reached a terminal non-success status''
              ActMarkFailed True
          else reduction EffRunning ''task record is active'' ActNone True)"

lemmas reduce_defs =
  reduce_queue_status_def reduce_missing_task_record_def reduce_open_task_record_def
  reduce_recoverable_task_failure_def missing_record_can_relaunch_def

section \<open>Properties\<close>

definition live_executor :: "queue_status_evidence \<Rightarrow> bool" where
  "live_executor e =
     (if ev_remote_native e then ev_remote_live_agent_id e \<noteq> None
      else ev_local_agent_live e \<and> \<not> ev_closeout_failed_prompt_live e)"

definition retry_action :: "queue_allowed_action \<Rightarrow> bool" where
  "retry_action a = (a = ActBoundedRelaunch \<or> a = ActRelaunchRemoteDisconnectedOpenRecord \<or> a = ActRecoverExecution)"

definition vanished_before_record :: "queue_status_evidence \<Rightarrow> bool" where
  "vanished_before_record e =
     (ev_has_agent_id e \<and> \<not> ev_local_agent_live e \<and> ev_remote_live_agent_id e = None \<and>
      starting_running_or_waiting (ev_item_status e))"

lemma open_not_recoverable: "\<not> queue_status_auto_recoverable ''open''" "\<not> queue_status_auto_recoverable ''paused''"
  "\<not> queue_status_auto_recoverable ''closed:success''"
  by (simp_all add: queue_status_auto_recoverable_def)

lemma open_not_terminal: "\<not> queue_task_status_terminal ''open''" "\<not> queue_task_status_terminal ''paused''"
  by (simp_all add: queue_task_status_terminal_def starts_with_iff)

lemma recoverable_terminal: "queue_status_auto_recoverable s \<Longrightarrow> queue_task_status_terminal s"
  by (auto simp: queue_status_auto_recoverable_def queue_task_status_terminal_def starts_with_iff)



text \<open>
  What a failed record synchronisation leads to: with no task status the row is kept stale and
  its evidence refreshed, except that an executor that has vanished from a starting, running or
  waiting item is relaunched first. The exception is real: the order of the two checks makes a
  failed synchronisation spend a launch retry.
\<close>

theorem reducer_sync_failure:
  "(\<forall>e. ev_task_status e = None \<and> ev_status_sync_error e \<noteq> None \<longrightarrow>
      red_action (reduce_queue_status e) =
        (if vanished_before_record e then ActBoundedRelaunch else ActRefreshEvidence) \<and>
      red_status (reduce_queue_status e) =
        (if vanished_before_record e then EffLaunchFailed else EffStaleUnknown)) \<and>
   (\<exists>e. ev_task_status e = None \<and> ev_status_sync_error e \<noteq> None \<and> ev_remote_native e \<and>
      red_action (reduce_queue_status e) = ActBoundedRelaunch)"
proof (intro conjI)
  let ?e = "\<lparr>ev_task_status = None, ev_status_sync_error = Some ''task-record sync failed'',
    ev_item_status = ItemRunning, ev_item_message = [], ev_remote_native = True, ev_has_agent_id = True,
    ev_local_agent_live = False, ev_remote_live_agent_id = None, ev_closeout_failed_prompt_live = False,
    ev_launch_in_progress = False, ev_recovery_waiting = False, ev_recovery_live_agent_id = None\<rparr>"
  show "\<exists>e. ev_task_status e = None \<and> ev_status_sync_error e \<noteq> None \<and> ev_remote_native e \<and>
      red_action (reduce_queue_status e) = ActBoundedRelaunch"
    by (rule exI [of _ ?e]) (simp add: reduce_defs starting_running_or_waiting_def)
qed (simp add: reduce_defs vanished_before_record_def)

theorem reducer_sync_failure_witness:
  "red_action (reduce_queue_status \<lparr>ev_task_status = None, ev_status_sync_error = Some ''x'',
    ev_item_status = ItemPending, ev_item_message = [], ev_remote_native = False, ev_has_agent_id = False,
    ev_local_agent_live = False, ev_remote_live_agent_id = None, ev_closeout_failed_prompt_live = False,
    ev_launch_in_progress = False, ev_recovery_waiting = False, ev_recovery_live_agent_id = None\<rparr>) = ActRefreshEvidence"
  using reducer_sync_failure by (simp add: vanished_before_record_def)



end
