(* ===== verification/Queue_Ids.thy ===== *)
theory Queue_Ids
  imports Queue_Store
begin

text \<open>
  Names given to queue items and their agents (\<open>src/src/webapp/queue_worker_ids.rs\<close>, the helpers
  \<open>sanitize_daemon_id\<close> and \<open>stable_short_hash\<close> of \<open>terminal_chat.rs\<close>) and the check that a new
  queue does not repeat unfinished work (\<open>queue_api_dedupe.rs\<close>).

  The loop that looks for a free slug need not end: it is a partial function whose value \<open>None\<close>
  says that it runs for ever. The hash works on 64-bit words over the UTF-8 bytes of the name.
\<close>

section \<open>Sanitised names\<close>

definition default_id :: string where
  "default_id = ''default''"

definition sanitize_daemon_id :: "string \<Rightarrow> string" where
  "sanitize_daemon_id value =
     (let a = trim_matches (\<lambda>c. c = CHR ''-'')
            (map (\<lambda>c. if is_ascii_alphanumeric c then c else CHR ''-'') value)
      in if a = [] then default_id else a)"

definition clean_queue_run_id :: "string \<Rightarrow> string" where
  "clean_queue_run_id value = sanitize_daemon_id value"

definition clean_queue_tab_id :: "string \<Rightarrow> string" where
  "clean_queue_tab_id value = sanitize_daemon_id value"

text \<open>The format \<open>{:02}\<close>.\<close>

definition show_two_digits :: "nat \<Rightarrow> string" where
  "show_two_digits n = (if n < 10 then CHR ''0'' # show_nat n else show_nat n)"

definition queue_slug :: "string \<Rightarrow> nat \<Rightarrow> string" where
  "queue_slug run_id index = ''task-'' @ sanitize_daemon_id run_id @ ''-'' @ show_two_digits (index + 1)"

definition queue_track :: "string \<Rightarrow> string" where
  "queue_track run_id = ''queue-'' @ sanitize_daemon_id run_id"

partial_function (option) free_slug :: "string \<Rightarrow> string set \<Rightarrow> string \<Rightarrow> (string \<times> string set) option" where
  "free_slug run_id used slug =
     (if slug \<notin> used then Some (slug, insert slug used)
      else free_slug run_id used (queue_slug run_id (card used)))"

definition clean_queue_slug ::
    "string \<Rightarrow> string \<Rightarrow> nat \<Rightarrow> string set \<Rightarrow> (string \<times> string set) option" where
  "clean_queue_slug value run_id index used =
     (let slug = sanitize_daemon_id value
      in free_slug run_id used (if slug = [] then queue_slug run_id index else slug))"

section \<open>Agent names\<close>

definition utf8_bytes :: "string \<Rightarrow> nat list" where
  "utf8_bytes s = concat (map (\<lambda>c. let n = of_char c in
     if n < 128 then [n] else [192 + n div 64, 128 + n mod 64]) s)"

unbundle bit_operations_syntax

definition fnv_step :: "64 word \<Rightarrow> nat \<Rightarrow> 64 word" where
  "fnv_step hash byte = (hash XOR of_nat byte) * 0x100000001b3"

definition fnv_hash :: "string \<Rightarrow> 64 word" where
  "fnv_hash value = foldl fnv_step 0xcbf29ce484222325 (utf8_bytes value)"

definition hex_digit :: "nat \<Rightarrow> char" where
  "hex_digit d = (if d < 10 then char_of (48 + d) else char_of (87 + d))"

fun hex_digits :: "nat \<Rightarrow> nat \<Rightarrow> string" where
  "hex_digits 0 v = []"
| "hex_digits (Suc n) v = hex_digits n (v div 16) @ [hex_digit (v mod 16)]"

definition stable_short_hash :: "string \<Rightarrow> string" where
  "stable_short_hash value = drop 8 (hex_digits 16 (unat (fnv_hash value)))"

definition queue_agent_id :: "queue_item_row \<Rightarrow> string" where
  "queue_agent_id item =
     (let slug = sanitize_daemon_id (qi_slug item);
          suffix = (if qi_recovery_attempts item > 0 then ''-r'' @ show_int (qi_recovery_attempts item) else [])
      in if length slug + length suffix \<le> 36 then ''qa-'' @ slug @ suffix
         else ''qa-'' @ take 24 slug @ ''-'' @ stable_short_hash (qi_id item) @ suffix)"

section \<open>Conflicts with unfinished queues\<close>

definition queue_slug_date_token :: "string \<Rightarrow> bool" where
  "queue_slug_date_token token = (length token = 8 \<and> starts_with ''20'' token \<and> list_all is_ascii_digit token)"

definition queue_slug_retry_port :: "string \<Rightarrow> bool" where
  "queue_slug_retry_port token =
     (case strip_prefix ''p'' token of None \<Rightarrow> False | Some s \<Rightarrow> s \<noteq> [] \<and> list_all is_ascii_digit s)"

fun drop_retry_tokens :: "string list \<Rightarrow> string list" where
  "drop_retry_tokens [] = []"
| "drop_retry_tokens (p # ps) =
     (if p = ''after'' \<and> ps \<noteq> [] \<and> hd ps = ''repair'' then drop_retry_tokens (tl ps)
      else if queue_slug_retry_port p then drop_retry_tokens ps
      else p # drop_retry_tokens ps)"

definition queue_task_conflict_key :: "string \<Rightarrow> string" where
  "queue_task_conflict_key slug =
     (let parts = split_when (\<lambda>c. c = CHR ''-'') slug;
          parts = (if queue_slug_date_token (last parts) then butlast parts else parts);
          normalized = drop_retry_tokens parts
      in if normalized = [] then slug else join_with ''-'' normalized)"

definition queue_item_blocks_new_run :: "queue_item_status \<Rightarrow> bool" where
  "queue_item_blocks_new_run st = (st \<noteq> ItemSuccess)"

definition slug_conflict :: "string \<Rightarrow> string set \<Rightarrow> string set \<Rightarrow> queue_item_row \<Rightarrow> bool" where
  "slug_conflict run_id requested keys other =
     ((qi_slug other \<in> requested \<or> queue_task_conflict_key (qi_slug other) \<in> keys) \<and>
      qi_run_id other \<noteq> run_id \<and> queue_item_blocks_new_run (qi_status other))"

definition conflict_message :: "queue_item_row \<Rightarrow> string" where
  "conflict_message c = ''queue task task/'' @ qi_slug c @ '' already exists in run '' @ qi_run_id c @
     '' with status '' @ item_status_as_str (qi_status c) @
     ''; use queue append/continue or clear/delete the stale run before creating another queue''"

definition ensure_queue_run_conflict_free ::
    "store_env \<Rightarrow> queue_run_row \<Rightarrow> queue_item_row list \<Rightarrow> (qdb, unit) prog" where
  "ensure_queue_run_conflict_free E run items =
     (let requested = qi_slug ` set items;
          keys = (queue_task_conflict_key \<circ> qi_slug) ` set items
      in if items = [] then ret ()
         else bnd (load_web_queue_items E) (\<lambda>others.
           case List.find (slug_conflict (qr_id run) requested keys) others of
             None \<Rightarrow> ret ()
           | Some c \<Rightarrow> throw (Bail (conflict_message c))))"

section \<open>The shape of sanitised names\<close>

definition id_char :: "char \<Rightarrow> bool" where
  "id_char c = (is_ascii_alphanumeric c \<or> c = CHR ''-'')"

definition clean_id :: "string \<Rightarrow> bool" where
  "clean_id s = (s \<noteq> [] \<and> list_all id_char s \<and> hd s \<noteq> CHR ''-'' \<and> last s \<noteq> CHR ''-'')"

lemma alphanumeric_not_dash [simp]: "is_ascii_alphanumeric c \<Longrightarrow> c \<noteq> CHR ''-''"
  by (auto simp: is_ascii_alphanumeric_def is_ascii_digit_def)

lemma trim_matches_ends:
  assumes "trim_matches p s \<noteq> []"
  shows "\<not> p (hd (trim_matches p s))" and "\<not> p (last (trim_matches p s))"
proof -
  let ?a = "dropWhile p s" and ?t = "trim_matches p s"
  have t: "?t = rev (dropWhile p (rev ?a))" by (simp add: trim_matches_def)
  with assms have ne: "dropWhile p (rev ?a) \<noteq> []" by auto
  then show "\<not> p (last ?t)" using hd_dropWhile [OF ne] by (simp add: t last_rev)
  have a: "?a = ?t @ rev (takeWhile p (rev ?a))"
    unfolding t by (metis rev_append rev_rev_ident takeWhile_dropWhile_id)
  then have "?a \<noteq> []" using assms by (metis append_is_Nil_conv)
  then have "\<not> p (hd ?a)" by (rule hd_dropWhile)
  moreover have "hd ?a = hd ?t" using a assms by (metis hd_append2)
  ultimately show "\<not> p (hd ?t)" by simp
qed

lemma sanitize_clean: "clean_id (sanitize_daemon_id v)"
proof -
  let ?m = "map (\<lambda>c. if is_ascii_alphanumeric c then c else CHR ''-'') v"
  let ?t = "trim_matches (\<lambda>c. c = CHR ''-'') ?m"
  have default: "clean_id default_id"
    by (simp add: clean_id_def default_id_def id_char_def is_ascii_alphanumeric_def is_ascii_digit_def)
  have "clean_id ?t" if "?t \<noteq> []"
    using trim_matches_ends [OF that] trim_matches_subset [of "\<lambda>c. c = CHR ''-''" ?m] that
    by (auto simp: clean_id_def id_char_def list_all_iff)
  with default show ?thesis by (simp add: sanitize_daemon_id_def Let_def)
qed

lemma sanitize_not_Nil [simp]: "sanitize_daemon_id v \<noteq> []"
  using sanitize_clean [of v] by (simp add: clean_id_def)

lemma trim_matches_id:
  assumes "s \<noteq> []" and "\<not> p (hd s)" and "\<not> p (last s)"
  shows "trim_matches p s = s"
proof -
  have "dropWhile p s = s" using assms(1,2) by (cases s) auto
  moreover have "dropWhile p (rev s) = rev s" using assms(1,3) by (cases s rule: rev_cases) auto
  ultimately show ?thesis by (simp add: trim_matches_def)
qed

lemma sanitize_id:
  assumes "clean_id s"
  shows "sanitize_daemon_id s = s"
proof -
  have "map (\<lambda>c. if is_ascii_alphanumeric c then c else CHR ''-'') s = s"
    using assms by (auto simp: clean_id_def list_all_iff id_char_def intro!: map_idI)
  then show ?thesis
    using trim_matches_id [of s "\<lambda>c. c = CHR ''-''"] assms
    by (simp add: sanitize_daemon_id_def clean_id_def)
qed

lemma is_ascii_digit_id_char [simp]: "is_ascii_digit c \<Longrightarrow> is_ascii_alphanumeric c"
  by (simp add: is_ascii_alphanumeric_def Let_def)

lemma hex_digit_alphanumeric: "d < 16 \<Longrightarrow> is_ascii_alphanumeric (hex_digit d)"
  by (auto simp: hex_digit_def is_ascii_alphanumeric_def is_ascii_digit_def)

lemma length_hex_digits [simp]: "length (hex_digits n v) = n"
  by (induction n v rule: hex_digits.induct) auto

lemma hex_digits_alphanumeric: "list_all is_ascii_alphanumeric (hex_digits n v)"
  by (induction n v rule: hex_digits.induct) (auto simp: hex_digit_alphanumeric)

lemma short_hash_facts: "length (stable_short_hash v) = 8" "list_all is_ascii_alphanumeric (stable_short_hash v)"
  using hex_digits_alphanumeric [of 16 "unat (fnv_hash v)"]
  by (auto simp: stable_short_hash_def list_all_iff dest: in_set_dropD)

lemma show_nat_alphanumeric: "list_all is_ascii_alphanumeric (show_nat n)"
  by (auto simp: list_all_iff dest: show_nat_digits)

lemma clean_id_append:
  assumes "a \<noteq> []" and "b \<noteq> []" and "list_all id_char a" and "list_all id_char b"
    and "hd a \<noteq> CHR ''-''" and "last b \<noteq> CHR ''-''"
  shows "clean_id (a @ b)"
  using assms by (simp add: clean_id_def)

lemma clean_id_alphanumeric: "list_all is_ascii_alphanumeric s \<Longrightarrow> s \<noteq> [] \<Longrightarrow> last s \<noteq> CHR ''-''"
  by (metis alphanumeric_not_dash last_in_set list_all_iff)

lemma list_all_id_char: "list_all is_ascii_alphanumeric s \<Longrightarrow> list_all id_char s"
  by (auto simp: list_all_iff id_char_def)

definition recovery_suffix :: "queue_item_row \<Rightarrow> string" where
  "recovery_suffix item =
     (if qi_recovery_attempts item > 0 then ''-r'' @ show_int (qi_recovery_attempts item) else [])"

lemma recovery_suffix_facts:
  "list_all id_char (recovery_suffix item)"
  "recovery_suffix item \<noteq> [] \<Longrightarrow> last (recovery_suffix item) \<noteq> CHR ''-''"
proof -
  have digits: "show_int (qi_recovery_attempts item) = show_nat (nat (qi_recovery_attempts item))"
    if "qi_recovery_attempts item > 0" using that by (simp add: show_int_def)
  have "id_char CHR ''-''" "id_char CHR ''r''"
    by (simp_all add: id_char_def is_ascii_alphanumeric_def is_ascii_digit_def)
  then show "list_all id_char (recovery_suffix item)"
    using digits list_all_id_char [OF show_nat_alphanumeric] by (simp add: recovery_suffix_def)
  show "recovery_suffix item \<noteq> [] \<Longrightarrow> last (recovery_suffix item) \<noteq> CHR ''-''"
    using digits clean_id_alphanumeric [OF show_nat_alphanumeric show_nat_not_Nil]
    by (auto simp: recovery_suffix_def split: if_splits)
qed

lemma agent_id_shape:
  "queue_agent_id item =
     (if length (sanitize_daemon_id (qi_slug item)) + length (recovery_suffix item) \<le> 36
      then ''qa-'' @ sanitize_daemon_id (qi_slug item) @ recovery_suffix item
      else ''qa-'' @ take 24 (sanitize_daemon_id (qi_slug item)) @ ''-'' @ stable_short_hash (qi_id item) @
        recovery_suffix item)"
  by (simp add: queue_agent_id_def recovery_suffix_def Let_def)

section \<open>Properties\<close>

lemma free_slug_diverges:
  assumes "slug \<in> used" and "queue_slug run_id (card used) \<in> used"
  shows "free_slug run_id used slug = None"
proof -
  have "slug \<notin> used \<or> queue_slug run_id (card used) \<notin> used" if "free_slug run_id used slug = Some y" for y
  proof (rule free_slug.raw_induct [where P = "\<lambda>run_id used slug y. slug \<notin> used \<or> queue_slug run_id (card used) \<notin> used",
        OF _ that])
    fix f :: "string \<Rightarrow> string set \<Rightarrow> string \<Rightarrow> (string \<times> string set) option" and run_id used slug y
    assume IH: "\<And>run_id used slug y. f run_id used slug = Some y \<Longrightarrow>
        slug \<notin> used \<or> queue_slug run_id (card used) \<notin> used"
      and "(if slug \<notin> used then Some (slug, insert slug used)
        else f run_id used (queue_slug run_id (card used))) = Some y"
    then have "slug \<notin> used \<or> f run_id used (queue_slug run_id (card used)) = Some y"
      by (simp split: if_splits)
    with IH show "slug \<notin> used \<or> queue_slug run_id (card used) \<notin> used" by blast
  qed
  with assms show ?thesis by (meson not_None_eq)
qed

lemma slug_cases:
  "clean_queue_slug value run_id index used =
     (let wish = sanitize_daemon_id value; numbered = queue_slug run_id (card used)
      in if wish \<notin> used then Some (wish, insert wish used)
         else if numbered \<notin> used then Some (numbered, insert numbered used)
         else None)"
proof -
  have step: "free_slug run_id used s = (if s \<notin> used then Some (s, insert s used)
      else free_slug run_id used (queue_slug run_id (card used)))" for s
    by (rule free_slug.simps)
  show ?thesis
  proof (cases "queue_slug run_id (card used) \<in> used")
    case True
    then show ?thesis
      using step [of "sanitize_daemon_id value"] free_slug_diverges [of "queue_slug run_id (card used)" used run_id]
      by (simp add: clean_queue_slug_def Let_def)
  next
    case False
    then have "free_slug run_id used (queue_slug run_id (card used)) =
        Some (queue_slug run_id (card used), insert (queue_slug run_id (card used)) used)"
      using step [of "queue_slug run_id (card used)"] by (simp only: if_True not_False_eq_True)
    with False show ?thesis
      using step [of "sanitize_daemon_id value"] by (simp add: clean_queue_slug_def Let_def)
  qed
qed

text \<open>
  C14. The search for a free slug, completely: it takes the sanitised wish, else the slug numbered
  by the count of slugs in use, and when that one is taken too it never returns, since a failed
  insertion changes nothing of what the next round looks at. What it returns is a clean name that
  was not in use.
\<close>

theorem slug_search_cases:
  "clean_queue_slug value run_id index used =
     (let wish = sanitize_daemon_id value; numbered = queue_slug run_id (card used)
      in if wish \<notin> used then Some (wish, insert wish used)
         else if numbered \<notin> used then Some (numbered, insert numbered used)
         else None)"
  by (rule slug_cases)

text \<open>
  A request can hang the daemon: of three items that wish for the slugs \<open>task-r-03\<close>, \<open>x\<close> and
  \<open>x\<close> in the run \<open>r\<close>, the third never gets a slug.
\<close>

theorem slug_search_hangs:
  "\<exists>used1 used2.
     clean_queue_slug ''task-r-03'' ''r'' 0 {} = Some (''task-r-03'', used1) \<and>
     clean_queue_slug ''x'' ''r'' 1 used1 = Some (''x'', used2) \<and>
     clean_queue_slug ''x'' ''r'' 2 used2 = None"
proof -
  have "show_nat 3 = ''3''" by code_simp
  then have three: "show_nat (Suc (Suc (Suc 0))) = ''3''" by (simp only: numeral_3_eq_3)
  have [simp]: "clean_id ''task-r-03''" "clean_id ''x''" "clean_id ''r''"
    by (simp_all add: clean_id_def id_char_def is_ascii_alphanumeric_def is_ascii_digit_def)
  have "free_slug ''r'' {} ''task-r-03'' = Some (''task-r-03'', {''task-r-03''})"
    by (subst free_slug.simps) simp
  moreover have "free_slug ''r'' {''task-r-03''} ''x'' = Some (''x'', {''x'', ''task-r-03''})"
    by (subst free_slug.simps) simp
  moreover have "free_slug ''r'' {''x'', ''task-r-03''} ''x'' = None"
    by (rule free_slug_diverges) (simp_all add: queue_slug_def sanitize_id show_two_digits_def three)
  ultimately show ?thesis by (simp add: clean_queue_slug_def sanitize_id Let_def)
qed

text \<open>
  An agent name is a name: it is left alone by the sanitiser and at most 39 characters long
  for the up to three recoveries the policy allows (in general 39 and the length of the recovery
  suffix), whatever slug and item id it is made of.
\<close>

theorem agent_id_is_clean_and_short:
  "sanitize_daemon_id (queue_agent_id item) = queue_agent_id item \<and>
   length (queue_agent_id item) \<le> 36 + max 3 (length (recovery_suffix item)) \<and>
   (qi_recovery_attempts item < 10 \<longrightarrow> length (queue_agent_id item) \<le> 39)"
proof -
  let ?slug = "sanitize_daemon_id (qi_slug item)" and ?sfx = "recovery_suffix item"
  have slug: "?slug \<noteq> []" "list_all id_char ?slug" "last ?slug \<noteq> CHR ''-''"
    using sanitize_clean [of "qi_slug item"] by (auto simp: clean_id_def)
  have qa: "list_all id_char ''qa-''" "id_char CHR ''-''"
    by (simp_all add: id_char_def is_ascii_alphanumeric_def is_ascii_digit_def)
  have hash: "stable_short_hash (qi_id item) \<noteq> []" "last (stable_short_hash (qi_id item)) \<noteq> CHR ''-''"
    using short_hash_facts(1) [of "qi_id item"] clean_id_alphanumeric [OF short_hash_facts(2) [of "qi_id item"]]
    by (metis list.size(3) zero_neq_numeral)+
  have taken: "list_all id_char (take 24 ?slug)" using slug(2) by (auto simp: list_all_iff dest: in_set_takeD)
  have short: "clean_id (''qa-'' @ ?slug @ ?sfx)"
    using slug qa recovery_suffix_facts [of item]
    by (intro clean_id_append) (auto simp: last_append split: if_splits)
  have long: "clean_id (''qa-'' @ take 24 ?slug @ ''-'' @ stable_short_hash (qi_id item) @ ?sfx)"
    using taken qa hash recovery_suffix_facts [of item] list_all_id_char [OF short_hash_facts(2)]
    by (intro clean_id_append) (auto simp: last_append split: if_splits)
  have clean: "clean_id (queue_agent_id item)" using short long by (simp add: agent_id_shape)
  have len: "length (queue_agent_id item) \<le> 36 + max 3 (length ?sfx)"
    using short_hash_facts(1) [of "qi_id item"] by (auto simp: agent_id_shape)
  have "length ?sfx \<le> 3" if "qi_recovery_attempts item < 10"
  proof -
    have "show_nat (nat (qi_recovery_attempts item)) = [digit_char (nat (qi_recovery_attempts item))]"
      using that by (subst show_nat.simps) simp
    then show ?thesis by (simp add: recovery_suffix_def show_int_def)
  qed
  with clean len show ?thesis by (auto simp: sanitize_id)
qed

theorem agent_id_is_clean_and_short_witness:
  "length (queue_agent_id ((sample_item ''a'' 0)\<lparr>qi_recovery_attempts := 3\<rparr>)) \<le> 39"
  using agent_id_is_clean_and_short [of "(sample_item ''a'' 0)\<lparr>qi_recovery_attempts := 3\<rparr>"]
  by simp

lemma split_join:
  "ts \<noteq> [] \<Longrightarrow> \<forall>t \<in> set ts. \<forall>c \<in> set t. c \<noteq> d \<Longrightarrow> split_when (\<lambda>c. c = d) (join_with [d] ts) = ts"
proof (induction ts rule: induct_list012)
  case (2 t)
  have "split_when (\<lambda>c. c = d) t = [t]" if "\<forall>c \<in> set t. c \<noteq> d" for t :: string
    using that by (induction t) auto
  with 2 show ?case by simp
next
  case (3 t u ts)
  have "split_when (\<lambda>c. c = d) (t @ d # r) = t # split_when (\<lambda>c. c = d) r" if "\<forall>c \<in> set t. c \<noteq> d" for t r :: string
    using that by (induction t) auto
  with 3 show ?case by simp
qed simp

lemma drop_retry_tokens_append:
  "last (ts @ [''x'']) = ''x'' \<Longrightarrow> ts \<noteq> [] \<Longrightarrow> last ts \<noteq> ''after'' \<Longrightarrow>
     drop_retry_tokens (ts @ us) = drop_retry_tokens ts @ drop_retry_tokens us"
proof (induction ts rule: drop_retry_tokens.induct)
  case (2 p ps)
  show ?case
  proof (cases "ps = []")
    case True
    with "2.prems" show ?thesis by simp
  next
    case ne: False
    show ?thesis
    proof (cases "p = ''after'' \<and> hd ps = ''repair''")
      case True
      show ?thesis
      proof (cases "tl ps = []")
        case True
        with ne \<open>p = ''after'' \<and> hd ps = ''repair''\<close> show ?thesis by (cases ps) auto
      next
        case False
        with True ne 2 show ?thesis by (cases ps) auto
      qed
    next
      case False
      with ne 2 show ?thesis by (cases ps) auto
    qed
  qed
qed simp

definition slug_token :: "string \<Rightarrow> bool" where
  "slug_token t = (CHR ''-'' \<notin> set t)"

lemma conflict_key_tokens:
  assumes "ts \<noteq> []" and "\<forall>t \<in> set ts. slug_token t" and "\<not> queue_slug_date_token (last ts)"
  shows "queue_task_conflict_key (join_with ''-'' ts) =
    (if drop_retry_tokens ts = [] then join_with ''-'' ts else join_with ''-'' (drop_retry_tokens ts))"
proof -
  have "split_when (\<lambda>c. c = CHR ''-'') (join_with ''-'' ts) = ts"
    by (rule split_join) (use assms(1,2) in \<open>auto simp: slug_token_def\<close>)
  with assms(3) show ?thesis by (simp add: queue_task_conflict_key_def)
qed

lemma conflict_key_date:
  assumes "ts \<noteq> []" and "\<forall>t \<in> set ts. slug_token t" and "slug_token d" and "queue_slug_date_token d"
  shows "queue_task_conflict_key (join_with ''-'' (ts @ [d])) =
    (if drop_retry_tokens ts = [] then join_with ''-'' (ts @ [d]) else join_with ''-'' (drop_retry_tokens ts))"
proof -
  have "split_when (\<lambda>c. c = CHR ''-'') (join_with ''-'' (ts @ [d])) = ts @ [d]"
    by (rule split_join) (use assms(1-3) in \<open>auto simp: slug_token_def\<close>)
  with assms(4) show ?thesis by (simp add: queue_task_conflict_key_def)
qed

lemma date_tokens:
  assumes "queue_slug_date_token d"
  shows "slug_token d" and "\<not> queue_slug_retry_port d" and "d \<noteq> ''repair''" and "d \<noteq> ''after''"
proof -
  show "slug_token d" using assms
    by (auto simp: queue_slug_date_token_def slug_token_def list_all_iff is_ascii_digit_def)
  obtain r where "d = ''20'' @ r" using assms by (auto simp: queue_slug_date_token_def starts_with_iff)
  then show "\<not> queue_slug_retry_port d" "d \<noteq> ''repair''" "d \<noteq> ''after''"
    by (simp_all add: queue_slug_retry_port_def)
qed

lemma port_tokens:
  assumes "queue_slug_retry_port p"
  shows "slug_token p" and "\<not> queue_slug_date_token p" and "p \<noteq> ''repair''"
proof -
  obtain r where r: "p = ''p'' @ r" "list_all is_ascii_digit r"
    using assms by (auto simp: queue_slug_retry_port_def strip_prefix_iff split: option.splits)
  then show "slug_token p" by (auto simp: slug_token_def list_all_iff is_ascii_digit_def)
  show "\<not> queue_slug_date_token p" using r by (simp add: queue_slug_date_token_def starts_with_iff)
  show "p \<noteq> ''repair''" using r by simp
qed

text \<open>
  A relaunch keeps its conflict key. A slug made of words, and the slug with a retry port
  \<open>p<digits>\<close>, with \<open>after-repair\<close>, or with a date \<open>20<six digits>\<close> at its end, have the same
  key, so that the renamed task is still found to be in conflict with the unfinished one.
\<close>

theorem relaunch_keeps_conflict_key:
  assumes "\<forall>t \<in> set ts. slug_token t" and "drop_retry_tokens ts \<noteq> []"
    and "\<not> queue_slug_date_token (last ts)" and "last ts \<noteq> ''after''"
    and "queue_slug_retry_port port" and "queue_slug_date_token date"
  shows "queue_task_conflict_key (join_with ''-'' (ts @ [port])) = queue_task_conflict_key (join_with ''-'' ts) \<and>
    queue_task_conflict_key (join_with ''-'' (ts @ [''after'', ''repair''])) = queue_task_conflict_key (join_with ''-'' ts) \<and>
    queue_task_conflict_key (join_with ''-'' (ts @ [date])) = queue_task_conflict_key (join_with ''-'' ts) \<and>
    queue_task_conflict_key (join_with ''-'' (ts @ [port, date])) = queue_task_conflict_key (join_with ''-'' ts)"
proof -
  have ne: "ts \<noteq> []" using assms(2) by auto
  note key = conflict_key_tokens [OF ne assms(1,3)]
  have drop: "drop_retry_tokens (ts @ us) = drop_retry_tokens ts @ drop_retry_tokens us" for us
    using drop_retry_tokens_append [OF _ ne assms(4)] by simp
  note port = port_tokens [OF assms(5)] and date = date_tokens [OF assms(6)]
  have dropped: "drop_retry_tokens [port] = []" "drop_retry_tokens [''after'', ''repair''] = []"
    using assms(5) by auto
  have words: "slug_token ''after''" "slug_token ''repair''" "\<not> queue_slug_date_token ''repair''"
    by (simp_all add: slug_token_def queue_slug_date_token_def)
  show ?thesis
    using conflict_key_tokens [of "ts @ [port]"] conflict_key_tokens [of "ts @ [''after'', ''repair'']"]
      conflict_key_date [OF ne assms(1) date(1) assms(6)] conflict_key_date [of "ts @ [port]" date]
      key drop dropped words port date(1) assms(1,2,6)
    by auto
qed

theorem relaunch_keeps_conflict_key_witness:
  "queue_task_conflict_key (join_with ''-'' ([''fix'', ''parser''] @ [''p8080''])) =
   queue_task_conflict_key (join_with ''-'' [''fix'', ''parser''])"
proof -
  have "\<forall>t \<in> set [''fix'', ''parser'']. slug_token t" by (simp add: slug_token_def)
  moreover have "drop_retry_tokens [''fix'', ''parser''] \<noteq> []"
    by (simp add: queue_slug_retry_port_def list_all_iff is_ascii_digit_def)
  moreover have "\<not> queue_slug_date_token (last [''fix'', ''parser''])" by (simp add: queue_slug_date_token_def)
  moreover have "queue_slug_retry_port ''p8080''" by (simp add: queue_slug_retry_port_def is_ascii_digit_def)
  moreover have "queue_slug_date_token ''20260101''"
    by (simp add: queue_slug_date_token_def starts_with_def is_ascii_digit_def)
  ultimately show ?thesis
    using relaunch_keeps_conflict_key [of "[''fix'', ''parser'']" "''p8080''" "''20260101''"] by simp
qed

lemma conflict_check:
  assumes "tabs_inv db"
  shows "\<exists>res. ensure_queue_run_conflict_free E run items db = (res, db) \<and>
    (res = Inr () \<longleftrightarrow>
      (\<forall>j \<in> set (db_items db). \<forall>i \<in> set items.
         Some (qi_run_id j) \<in> qt_run_id ` set (db_tabs db) \<and> qi_run_id j \<noteq> qr_id run \<and> qi_status j \<noteq> ItemSuccess \<longrightarrow>
         qi_slug j \<noteq> qi_slug i \<and> queue_task_conflict_key (qi_slug j) \<noteq> queue_task_conflict_key (qi_slug i)))"
proof -
  let ?shown = "sort_key (\<lambda>i. (qi_run_id i, qi_position i, qi_id i))
      (filter (\<lambda>i. Some (qi_run_id i) \<in> set (map qt_run_id (db_tabs db))) (db_items db))"
  let ?bad = "slug_conflict (qr_id run) (qi_slug ` set items) ((queue_task_conflict_key \<circ> qi_slug) ` set items)"
  have load: "load_web_queue_items E db = (Inr ?shown, db)"
    using ensure_noop [OF assms] by (simp add: load_web_queue_items_def run_bnd)
  have none: "List.find ?bad ?shown = None \<longleftrightarrow> (\<forall>j \<in> set ?shown. \<not> ?bad j)"
    by (auto simp: find_None_iff)
  have run: "ensure_queue_run_conflict_free E run items db =
      ((if items = [] then Inr () else case List.find ?bad ?shown of None \<Rightarrow> Inr () | Some c \<Rightarrow> Inl (Bail (conflict_message c))), db)"
    using load by (simp add: ensure_queue_run_conflict_free_def Let_def run_bnd split: option.splits)
  show ?thesis
    unfolding run using none
    by (auto simp: slug_conflict_def queue_item_blocks_new_run_def split: option.splits)
qed

text \<open>
  C17. A new queue is accepted exactly when it repeats no unfinished work: the check passes when no
  item of another run shown on a tab that has not succeeded has the slug or the conflict key of a
  new item; otherwise it names such an item. It changes nothing.
\<close>

theorem conflict_check_exact:
  assumes "tabs_inv db"
  shows "\<exists>res. ensure_queue_run_conflict_free E run items db = (res, db) \<and>
    (res = Inr () \<longleftrightarrow>
      (\<forall>j \<in> set (db_items db). \<forall>i \<in> set items.
         Some (qi_run_id j) \<in> qt_run_id ` set (db_tabs db) \<and> qi_run_id j \<noteq> qr_id run \<and> qi_status j \<noteq> ItemSuccess \<longrightarrow>
         qi_slug j \<noteq> qi_slug i \<and> queue_task_conflict_key (qi_slug j) \<noteq> queue_task_conflict_key (qi_slug i)))"
  by (rule conflict_check [OF assms])

theorem conflict_check_exact_witness:
  "\<exists>e. fst (ensure_queue_run_conflict_free sample_env (sample_run\<lparr>qr_id := ''r2''\<rparr>)
     [(sample_item ''n'' 0)\<lparr>qi_slug := ''slug-a''\<rparr>] sample_db) = Inl e"
proof -
  let ?run = "sample_run\<lparr>qr_id := ''r2''\<rparr>" and ?items = "[(sample_item ''n'' 0)\<lparr>qi_slug := ''slug-a''\<rparr>]"
  from conflict_check_exact [OF sample_db_inv, of sample_env ?run ?items] obtain res where
    res: "ensure_queue_run_conflict_free sample_env ?run ?items sample_db = (res, sample_db)"
    "res = Inr () \<longleftrightarrow>
      (\<forall>j \<in> set (db_items sample_db). \<forall>i \<in> set ?items.
         Some (qi_run_id j) \<in> qt_run_id ` set (db_tabs sample_db) \<and> qi_run_id j \<noteq> qr_id ?run \<and> qi_status j \<noteq> ItemSuccess \<longrightarrow>
         qi_slug j \<noteq> qi_slug i \<and> queue_task_conflict_key (qi_slug j) \<noteq> queue_task_conflict_key (qi_slug i))"
    by blast
  have "res \<noteq> Inr ()"
    unfolding res(2) by (simp add: sample_db_def sample_item_def sample_run_def)
  with res(1) show ?thesis by (cases res) auto
qed

end
