(* ===== verification/Queue_Evidence.thy ===== *)
theory Queue_Evidence
  imports Queue_Admission Task_Records Status_Reducer Queue_Ids
begin

text \<open>
  The evidence about one queue item: which task record belongs to it
  (\<open>src/src/webapp/queue_worker_taskflow.rs\<close>), what the records say about it and when the records of
  a remote host are synchronised first (\<open>queue_worker_status.rs\<close>), which sessions are live, and the
  snapshot the reducer works on (\<open>queue_worker_status_reducer.rs\<close>).

  \<open>queue_world\<close> is what these functions observe outside the database: the text of the snapshot of
  running agents, the terminal screens, the sessions behind a launcher, path resolution, the memory
  of the last synchronisations, the workers of this process, and the child process that
  synchronises task records, which may change the database. It also holds what the worker needs
  further on: the outcome of terminating an agent and of a remote-agent command, what reading the
  session files of the agents writes to the task records (\<open>sync_codex_task_records\<close>), and the host
  observations of admission. A query for the running agents also
  prunes stale agent rows and imports session records; that part is not modelled.
\<close>

section \<open>The observed world\<close>

datatype process_result = ProcNotStarted string | ProcExited bool string string string

text \<open>What starting an agent observes: files, terminals and agents of the host.\<close>

record agent_limit_record =
  al_command :: string
  al_account :: string
  al_status_command :: string
  al_state :: string
  al_capacity_score :: int
  al_reset_at :: "nat option"
  al_summary :: string
  al_detail :: string
  al_raw_summary :: string
  al_checked_at :: nat
  al_expires_at :: nat
  al_attempts :: nat

record launch_view =
  lv_commands :: "string list"
  lv_limits :: "(nat \<times> agent_limit_record list) option"
  lv_read_file :: "string \<Rightarrow> string option"
  lv_dir :: "string \<Rightarrow> string option list option"
  lv_exists :: "string \<Rightarrow> bool"
  lv_is_file :: "string \<Rightarrow> bool"
  lv_tmux_session :: "string \<Rightarrow> string option + bool"
  lv_git_root :: "string \<Rightarrow> string + string option"
  lv_agent_worktree :: "string \<Rightarrow> string \<Rightarrow> string \<Rightarrow> string + string"
  lv_worktree_status :: "string \<Rightarrow> process_result"
  lv_worktree_remove :: "string \<Rightarrow> string \<Rightarrow> process_result"
  lv_state_dir :: "string + string"
  lv_write_packet :: "string \<Rightarrow> string \<Rightarrow> string option"
  lv_start_agent :: "string \<Rightarrow> string \<Rightarrow> string \<Rightarrow> string \<Rightarrow> qdb \<Rightarrow> (string + string) \<times> qdb"
  lv_terminals :: "(string \<times> string) list option"
  lv_save_terminal :: "string \<Rightarrow> string \<Rightarrow> string \<Rightarrow> string option"

record queue_world =
  qw_store :: store_env
  qw_var :: "string \<Rightarrow> string option"
  qw_snapshot :: "string option"
  qw_screen :: "string \<Rightarrow> string option"
  qw_session :: "string \<Rightarrow> string \<Rightarrow> bool"
  qw_canonical :: "string \<Rightarrow> string + string"
  qw_executable :: "string + string"
  qw_sync_times :: "(string \<times> nat) list"
  qw_sync_process :: "string \<Rightarrow> string \<Rightarrow> bool \<Rightarrow> qdb \<Rightarrow> process_result \<times> qdb"
  qw_workers :: "string list"
  qw_pid :: nat
  qw_terminate :: "string \<Rightarrow> string + bool"
  qw_still_running :: "string \<Rightarrow> bool"
  qw_contract :: "queue_item_row \<Rightarrow> string \<Rightarrow> string \<Rightarrow> string \<Rightarrow> string option \<Rightarrow> string option \<Rightarrow> process_result"
  qw_sync_sessions :: "qdb \<Rightarrow> qdb"
  qw_admission :: "store_env \<Rightarrow> admission_env"
  qw_launch :: launch_view

abbreviation qw_now :: "queue_world \<Rightarrow> nat" where
  "qw_now W \<equiv> se_now (qw_store W)"

definition nonblank :: "string option \<Rightarrow> string option" where
  "nonblank v = (case v of None \<Rightarrow> None | Some s \<Rightarrow> if trim s = [] then None else Some s)"

definition is_blank_option :: "string option \<Rightarrow> bool" where
  "is_blank_option v = (nonblank v = None)"

section \<open>Live sessions\<close>

definition running_agent_ids :: "queue_world \<Rightarrow> string list" where
  "running_agent_ids W =
     (case qw_snapshot W of
        None \<Rightarrow> []
      | Some text \<Rightarrow> List.map_filter (\<lambda>line. case split_when (\<lambda>c. c = CHR 0x09) line of
          k # a # rest \<Rightarrow> if k = ''agent'' then Some a else None
        | _ \<Rightarrow> None) (str_lines text))"

definition agent_running :: "queue_world \<Rightarrow> string \<Rightarrow> bool" where
  "agent_running W a = (a \<in> set (running_agent_ids W))"

definition closeout_failure_texts :: "string list" where
  "closeout_failure_texts =
     [''Q-COLD closeout could not complete'', ''Could not complete canonical Q-COLD closeout'',
      ''missing task metadata'', ''repository target mismatch'', ''run this from a managed task worktree'']"

definition agent_terminal_closeout_failed :: "queue_world \<Rightarrow> string \<Rightarrow> bool" where
  "agent_terminal_closeout_failed W a =
     (case qw_screen W a of
        None \<Rightarrow> False
      | Some output \<Rightarrow> list_ex (\<lambda>needle. str_contains needle output) closeout_failure_texts)"

definition remote_native_queue_session :: "string \<Rightarrow> string" where
  "remote_native_queue_session a = ''qcold-'' @ a"

definition remote_native_tmux_session_target :: "string \<Rightarrow> string" where
  "remote_native_tmux_session_target a = ''='' @ remote_native_queue_session a"

definition remote_native_session_running :: "queue_world \<Rightarrow> queue_item_row \<Rightarrow> string \<Rightarrow> bool" where
  "remote_native_session_running W i a =
     (case nonblank (qi_remote_launcher i) of
        None \<Rightarrow> False
      | Some launcher \<Rightarrow> qw_session W launcher (remote_native_tmux_session_target a))"

definition remote_native_retry_agent_ids :: "string \<Rightarrow> string list" where
  "remote_native_retry_agent_ids a =
     (case rsplit_once CHR ''-'' a of
        None \<Rightarrow> []
      | Some (prefix, suffix) \<Rightarrow>
          if prefix = [] then []
          else filter (\<lambda>c. c \<noteq> a)
            (map (\<lambda>kind. prefix @ ''-'' @ kind) [''relaunch'', ''relaunch2'', ''repair'', ''repair2'']))"

definition remote_native_open_record_live_agent_id :: "queue_world \<Rightarrow> queue_item_row \<Rightarrow> string option" where
  "remote_native_open_record_live_agent_id W i =
     (case map_option trim (qi_agent_id i) of
        None \<Rightarrow> None
      | Some a \<Rightarrow>
          if a = [] then None
          else if remote_native_session_running W i a then Some a
          else find (remote_native_session_running W i) (remote_native_retry_agent_ids a))"

definition remote_native_retry_session_running :: "queue_world \<Rightarrow> queue_item_row \<Rightarrow> bool" where
  "remote_native_retry_session_running W i =
     (queue_item_remote_native i \<and> remote_native_open_record_live_agent_id W i \<noteq> None)"

definition remote_native_failed_closeout_is_being_retried :: "queue_world \<Rightarrow> queue_item_row \<Rightarrow> string \<Rightarrow> bool" where
  "remote_native_failed_closeout_is_being_retried W i status =
     (status = ''failed-closeout'' \<and> remote_native_retry_session_running W i)"

definition live_queue_item_recovery_agent_id :: "queue_world \<Rightarrow> queue_item_row \<Rightarrow> string option" where
  "live_queue_item_recovery_agent_id W i =
     (case qi_agent_id i of
        None \<Rightarrow> None
      | Some a \<Rightarrow> if qi_recovery_attempts i > 0 \<and> agent_running W a \<and> \<not> agent_terminal_closeout_failed W a
                  then Some a else None)"

definition queue_item_recovery_active_or_pending :: "queue_world \<Rightarrow> queue_item_row \<Rightarrow> bool" where
  "queue_item_recovery_active_or_pending W i =
     (qi_recovery_attempts i > 0 \<and>
      (\<not> item_is_terminal (qi_status i) \<or> live_queue_item_recovery_agent_id W i \<noteq> None))"

definition queue_item_recovery_waiting_on_current_attempt :: "queue_world \<Rightarrow> queue_item_row \<Rightarrow> bool" where
  "queue_item_recovery_waiting_on_current_attempt W i =
     (if qi_recovery_attempts i \<le> 0 then False
      else if live_queue_item_recovery_agent_id W i \<noteq> None then True
      else \<not> item_is_terminal (qi_status i) \<and> qi_agent_id i = None)"

section \<open>Records and items\<close>

definition same_filesystem_path :: "queue_world \<Rightarrow> string \<Rightarrow> string \<Rightarrow> bool" where
  "same_filesystem_path W l r =
     (l = r \<or> (case (qw_canonical W l, qw_canonical W r) of (Inr a, Inr b) \<Rightarrow> a = b | _ \<Rightarrow> False))"

definition task_record_metadata_object :: "queue_world \<Rightarrow> task_record_row \<Rightarrow> (string \<times> json) list option" where
  "task_record_metadata_object W t =
     Option.bind (tk_metadata_json t) (\<lambda>raw. Option.bind (se_parse_json (qw_store W) raw)
       (\<lambda>v. case v of JObject kvs \<Rightarrow> Some kvs | _ \<Rightarrow> None))"

definition task_record_remote_launcher :: "queue_world \<Rightarrow> task_record_row \<Rightarrow> string option" where
  "task_record_remote_launcher W t =
     nonblank (Option.bind (task_record_metadata_object W t)
       (\<lambda>kvs. Option.bind (map_of kvs ''remote_launcher'') json_as_str))"

definition queue_task_record_agent_matches_item :: "queue_item_row \<Rightarrow> task_record_row \<Rightarrow> bool" where
  "queue_task_record_agent_matches_item i t =
     (case (qi_agent_id i, tk_agent_id t) of (Some a, Some b) \<Rightarrow> a = b | _ \<Rightarrow> False)"

definition queue_task_record_repo_matches_item :: "queue_world \<Rightarrow> queue_item_row \<Rightarrow> task_record_row \<Rightarrow> bool" where
  "queue_task_record_repo_matches_item W i t =
     (case nonblank (qi_repo_root i) of
        None \<Rightarrow> True
      | Some item_repo \<Rightarrow> (case nonblank (tk_repo_root t) of
          None \<Rightarrow> False
        | Some record_repo \<Rightarrow> same_filesystem_path W item_repo record_repo))"

definition queue_task_record_launcher_matches_item :: "queue_world \<Rightarrow> queue_item_row \<Rightarrow> task_record_row \<Rightarrow> bool" where
  "queue_task_record_launcher_matches_item W i t = (qi_remote_launcher i = task_record_remote_launcher W t)"

definition legacy_local_item_matches_remote_terminal_record ::
  "queue_world \<Rightarrow> queue_item_row \<Rightarrow> task_record_row \<Rightarrow> bool" where
  "legacy_local_item_matches_remote_terminal_record W i t =
     (qi_remote_launcher i = None \<and> tk_source t = ''task-flow'' \<and> queue_task_status_terminal (tk_status t) \<and>
      task_record_remote_launcher W t \<noteq> None)"

definition remote_native_task_flow_record_without_launcher_matches_item ::
  "queue_world \<Rightarrow> queue_item_row \<Rightarrow> task_record_row \<Rightarrow> bool" where
  "remote_native_task_flow_record_without_launcher_matches_item W i t =
     (queue_item_remote_native i \<and> qi_remote_launcher i \<noteq> None \<and> tk_source t = ''task-flow'' \<and>
      task_record_remote_launcher W t = None \<and> nonblank (tk_agent_id t) \<noteq> None)"

definition queue_task_record_matches_item :: "queue_world \<Rightarrow> queue_item_row \<Rightarrow> task_record_row \<Rightarrow> bool" where
  "queue_task_record_matches_item W i t =
     (queue_task_record_agent_matches_item i t \<or>
      (queue_task_record_repo_matches_item W i t \<and>
       (queue_task_record_launcher_matches_item W i t \<or>
        legacy_local_item_matches_remote_terminal_record W i t \<or>
        remote_native_task_flow_record_without_launcher_matches_item W i t)))"

definition queue_task_record_is_terminal :: "task_record_row \<Rightarrow> bool" where
  "queue_task_record_is_terminal t = queue_task_status_terminal (tk_status t)"

section \<open>Recovery records\<close>

definition retry_marker_segment :: "string \<Rightarrow> string \<Rightarrow> bool" where
  "retry_marker_segment segment prefix =
     (case strip_prefix prefix segment of None \<Rightarrow> False | Some suffix \<Rightarrow> list_all is_ascii_digit suffix)"

definition related_repair_task_marker_segment :: "string \<Rightarrow> bool" where
  "related_repair_task_marker_segment s =
     (s = ''reintegrate'' \<or> retry_marker_segment s ''relaunch'' \<or> retry_marker_segment s ''repair'')"

definition related_repair_task_marker :: "string \<Rightarrow> bool" where
  "related_repair_task_marker record_id =
     list_ex related_repair_task_marker_segment
       (split_when (\<lambda>c. c = CHR ''/'' \<or> c = CHR ''-'') record_id)"

definition task_slug_family_prefix :: "string \<Rightarrow> string option" where
  "task_slug_family_prefix slug =
     (let parts = take 4 (split_when (\<lambda>c. c = CHR ''-'') slug)
      in if length parts < 4 \<or> [] \<in> set parts then None else Some (join_with ''-'' parts @ ''-''))"

definition related_recovery_task_record_id :: "string \<Rightarrow> string \<Rightarrow> bool" where
  "related_recovery_task_record_id task_id record_id =
     (if starts_with (task_id @ ''-recovery'') record_id then True
      else if record_id = task_id \<or> \<not> related_repair_task_marker record_id then False
      else (case (strip_prefix ''task/'' task_id, strip_prefix ''task/'' record_id) of
              (Some task_slug, Some record_slug) \<Rightarrow> (case task_slug_family_prefix task_slug of
                  None \<Rightarrow> False
                | Some family \<Rightarrow> starts_with family record_slug)
            | _ \<Rightarrow> False))"

definition recovery_task_record_precedence :: "task_record_row \<Rightarrow> nat \<times> nat" where
  "recovery_task_record_precedence t =
     (if tk_status t = closed_success then 3 else if \<not> queue_task_record_is_terminal t then 2 else 1,
      tk_updated_at t)"

definition related_manual_repair_task_record_matches_item ::
  "queue_world \<Rightarrow> queue_item_row \<Rightarrow> task_record_row \<Rightarrow> bool" where
  "related_manual_repair_task_record_matches_item W i t =
     (queue_item_remote_native i \<and> qi_remote_launcher i \<noteq> None \<and> tk_source t = ''task-flow'' \<and>
      task_record_remote_launcher W t = None \<and> queue_task_record_repo_matches_item W i t \<and>
      nonblank (tk_agent_id t) \<noteq> None)"

definition related_recovery_task_record_matches_item ::
  "queue_world \<Rightarrow> queue_item_row \<Rightarrow> task_record_row \<Rightarrow> bool" where
  "related_recovery_task_record_matches_item W i t =
     (queue_task_record_matches_item W i t \<or> related_manual_repair_task_record_matches_item W i t)"

definition latest_related_recovery_task_record ::
  "queue_world \<Rightarrow> queue_item_row \<Rightarrow> string \<Rightarrow> (qdb, task_record_row option) prog" where
  "latest_related_recovery_task_record W i task_id =
     (case nonblank (qi_repo_root i) of
        None \<Rightarrow> ret None
      | Some repo_root \<Rightarrow> bnd (load_task_records_for_repo repo_root None 128) (\<lambda>records.
          ret (max_by_key recovery_task_record_precedence
            (filter (\<lambda>t. related_recovery_task_record_id task_id (tk_id t) \<and>
                related_recovery_task_record_matches_item W i t \<and>
                (qi_started_at i = 0 \<or> qi_started_at i \<le> tk_updated_at t)) records))))"

section \<open>What the local records say\<close>

record task_local_status =
  ls_status :: "string option"
  ls_from_recovery :: bool

definition local_none :: task_local_status where
  "local_none = \<lparr>ls_status = None, ls_from_recovery = False\<rparr>"

definition supersedes_optional_remote_sync :: "task_local_status \<Rightarrow> bool" where
  "supersedes_optional_remote_sync l =
     (ls_from_recovery l \<and>
      (case ls_status l of None \<Rightarrow> False
       | Some s \<Rightarrow> s = closed_success \<or> \<not> queue_task_status_terminal s))"

definition optional_remote_sync_unneeded :: "queue_item_row \<Rightarrow> task_local_status \<Rightarrow> bool" where
  "optional_remote_sync_unneeded i l =
     (item_is_pending_or_waiting (qi_status i) \<and> qi_agent_id i = None \<and>
      (case ls_status l of None \<Rightarrow> True | Some s \<Rightarrow> \<not> queue_task_status_terminal s))"

definition status_from_choice ::
  "queue_world \<Rightarrow> queue_item_row \<Rightarrow> task_record_row option \<Rightarrow> task_record_row option \<Rightarrow> task_local_status" where
  "status_from_choice W i rec recovery =
     (let own = (case rec of
                   None \<Rightarrow> local_none
                 | Some r \<Rightarrow> if remote_native_failed_closeout_is_being_retried W i (tk_status r) then local_none
                            else \<lparr>ls_status = Some (tk_status r), ls_from_recovery = False\<rparr>)
      in case recovery of
           None \<Rightarrow> own
         | Some v \<Rightarrow>
             if (case rec of None \<Rightarrow> True | Some r \<Rightarrow> tk_updated_at r \<le> tk_updated_at v)
             then (if remote_native_failed_closeout_is_being_retried W i (tk_status v) then local_none
                   else \<lparr>ls_status = Some (tk_status v), ls_from_recovery = True\<rparr>)
             else own)"

definition queue_task_status_from_record_or_recovery ::
  "queue_world \<Rightarrow> queue_item_row \<Rightarrow> string \<Rightarrow> task_record_row option \<Rightarrow> (qdb, task_local_status) prog" where
  "queue_task_status_from_record_or_recovery W i task_id rec =
     bnd (latest_related_recovery_task_record W i task_id) (\<lambda>recovery.
       ret (status_from_choice W i rec recovery))"

definition queue_task_status_from_local_records ::
  "queue_world \<Rightarrow> queue_item_row \<Rightarrow> string \<Rightarrow> (qdb, task_local_status) prog" where
  "queue_task_status_from_local_records W i task_id =
     bnd (get_task_record task_id) (\<lambda>r. case r of
       None \<Rightarrow> queue_task_status_from_record_or_recovery W i task_id None
     | Some t \<Rightarrow> if queue_task_record_matches_item W i t
                then queue_task_status_from_record_or_recovery W i task_id (Some t)
                else ret local_none)"

section \<open>Synchronising the records of a remote host\<close>

text \<open>
  \<open>compact_process_output\<close> cuts the text with \<open>String::truncate\<close>, which panics when the limit
  falls inside a character: the result is \<open>None\<close> then.
\<close>

definition truncate_bytes :: "nat \<Rightarrow> string \<Rightarrow> string option" where
  "truncate_bytes limit s =
     (if byte_length s \<le> limit then Some s
      else case find (\<lambda>n. byte_length (take n s) = limit) [0..<Suc (length s)] of
             None \<Rightarrow> None
           | Some n \<Rightarrow> Some (take n s))"

definition compact_process_output :: "string \<Rightarrow> string \<Rightarrow> string option" where
  "compact_process_output stdout stderr =
     (let output = join_with [CHR 0x0A] (filter (\<lambda>v. v \<noteq> []) [trim stdout, trim stderr])
      in if process_output_limit < byte_length output
         then map_option (\<lambda>s. s @ ''...'') (truncate_bytes process_output_limit output)
         else Some output)"

definition queue_item_repo_root :: "queue_world \<Rightarrow> queue_item_row \<Rightarrow> string + string" where
  "queue_item_repo_root W i =
     (case nonblank (qi_repo_root i) of
        None \<Rightarrow> Inl ''queue item has no repository root''
      | Some r \<Rightarrow> (case qw_canonical W r of
          Inl e \<Rightarrow> Inl (''failed to resolve queue repository '' @ r @ '': '' @ e)
        | Inr p \<Rightarrow> Inr p))"

definition remote_queue_sync_key :: "queue_item_row \<Rightarrow> string \<Rightarrow> string" where
  "remote_queue_sync_key i launcher =
     launcher @ [CHR 0x09] @ (case qi_repo_root i of None \<Rightarrow> [] | Some r \<Rightarrow> r)"

definition remote_queue_sync_due :: "queue_world \<Rightarrow> queue_item_row \<Rightarrow> string \<Rightarrow> bool \<Rightarrow> bool" where
  "remote_queue_sync_due W i launcher required =
     (case map_of (qw_sync_times W) (remote_queue_sync_key i launcher) of
        None \<Rightarrow> True
      | Some last_sync \<Rightarrow> \<not> sat_sub_u64 (qw_now W) last_sync < (if required then 5 else 15))"

definition run_remote_queue_task_record_sync ::
  "queue_world \<Rightarrow> string \<Rightarrow> string \<Rightarrow> bool \<Rightarrow> (qdb, string option) prog" where
  "run_remote_queue_task_record_sync W repo_root launcher legacy = (\<lambda>db.
     case qw_sync_process W repo_root launcher legacy db of
       (ProcNotStarted e, db') \<Rightarrow>
         (Inr (Some (''failed to sync remote task records through '' @ launcher @ '': '' @ e)), db')
     | (ProcExited success status stdout stderr, db') \<Rightarrow>
         if success then (Inr None, db')
         else (case compact_process_output stdout stderr of
                 None \<Rightarrow> (Inl (Panic ''assertion failed: self.is_char_boundary(new_len)''), db')
               | Some output \<Rightarrow>
                   (Inr (Some (''remote task-record sync through '' @ launcher @ '' failed with '' @ status @
                      '': '' @ output)), db')))"

definition sync_remote_queue_task_records :: "queue_world \<Rightarrow> queue_item_row \<Rightarrow> bool \<Rightarrow> (qdb, unit) prog" where
  "sync_remote_queue_task_records W i required =
     (case qw_executable W of
        Inl e \<Rightarrow> throw (Bail e)
      | Inr executable \<Rightarrow> (case qi_remote_launcher i of
          None \<Rightarrow> ret ()
        | Some launcher \<Rightarrow>
            if \<not> remote_queue_sync_due W i launcher required then ret ()
            else (case queue_item_repo_root W i of
              Inl e \<Rightarrow> throw (Bail e)
            | Inr repo_root \<Rightarrow>
                bnd (run_remote_queue_task_record_sync W repo_root launcher False) (\<lambda>adapter. case adapter of
                  None \<Rightarrow> ret ()
                | Some e1 \<Rightarrow>
                    if queue_item_remote_native i
                    then bnd (run_remote_queue_task_record_sync W repo_root launcher True) (\<lambda>legacy. case legacy of
                           None \<Rightarrow> ret ()
                         | Some e2 \<Rightarrow> throw (Bail (e1 @ ''; '' @ e2)))
                    else throw (Bail e1)))))"

text \<open>A program whose error becomes a value; a panic goes through.\<close>

definition caught :: "('s, 'a) prog \<Rightarrow> ('s, qerror + 'a) prog" where
  "caught m = (\<lambda>s. case m s of
     (Inr x, t) \<Rightarrow> (Inr (Inr x), t)
   | (Inl (Panic p), t) \<Rightarrow> (Inl (Panic p), t)
   | (Inl e, t) \<Rightarrow> (Inr (Inl e), t))"

datatype sync_fallback = FallbackStatus string | FallbackPendingRecovery

definition remote_native_sync_failure_fallback_status ::
  "queue_world \<Rightarrow> queue_item_row \<Rightarrow> string \<Rightarrow> (qdb, sync_fallback option) prog" where
  "remote_native_sync_failure_fallback_status W i task_id =
     bnd (get_task_record task_id) (\<lambda>r. ret (case r of
       None \<Rightarrow> None
     | Some t \<Rightarrow>
         if \<not> queue_task_record_matches_item W i t then None
         else if \<not> queue_task_record_is_terminal t then Some (FallbackStatus (tk_status t))
         else if remote_native_failed_closeout_is_being_retried W i (tk_status t) then Some FallbackPendingRecovery
         else if queue_status_auto_recoverable (tk_status t) \<and> queue_item_recovery_active_or_pending W i
              then Some FallbackPendingRecovery
         else None))"

definition remote_native_requires_task_record_sync :: "queue_item_row \<Rightarrow> bool" where
  "remote_native_requires_task_record_sync i =
     (queue_item_remote_native i \<and> item_is_starting_or_running (qi_status i))"

definition sync_failed_error :: "qerror \<Rightarrow> qerror" where
  "sync_failed_error e = Bail (''remote-native task-record sync failed: '' @ error_text e)"

definition queue_task_status :: "queue_world \<Rightarrow> queue_item_row \<Rightarrow> (qdb, string option) prog" where
  "queue_task_status W i =
     (let task_id = ''task/'' @ qi_slug i;
          required = remote_native_requires_task_record_sync i;
          reread = bnd (queue_task_status_from_local_records W i task_id) (\<lambda>l. ret (ls_status l))
      in bnd (queue_task_status_from_local_records W i task_id) (\<lambda>l.
           if qi_remote_launcher i = None then reread
           else if ls_status l = Some closed_success then ret (ls_status l)
           else if \<not> required \<and> supersedes_optional_remote_sync l then ret (ls_status l)
           else if \<not> required \<and> optional_remote_sync_unneeded i l then ret (ls_status l)
           else bnd (caught (sync_remote_queue_task_records W i required)) (\<lambda>result. case result of
                  Inr _ \<Rightarrow> reread
                | Inl e \<Rightarrow>
                    if \<not> required then reread
                    else bnd (remote_native_sync_failure_fallback_status W i task_id) (\<lambda>fallback. case fallback of
                           Some (FallbackStatus s) \<Rightarrow> ret (Some s)
                         | Some FallbackPendingRecovery \<Rightarrow> ret None
                         | None \<Rightarrow> throw (sync_failed_error e)))))"

section \<open>The evidence\<close>

definition local_open_record_launch_in_progress :: "queue_world \<Rightarrow> string \<Rightarrow> queue_item_row \<Rightarrow> qdb \<Rightarrow> bool" where
  "local_open_record_launch_in_progress W run_id i db =
     (item_is_starting_or_running (qi_status i) \<and> qi_agent_id i = None \<and>
      queue_item_worker_active (qw_workers W) (qw_now W) run_id (qi_id i) db)"

definition collect_queue_status_evidence ::
  "queue_world \<Rightarrow> string \<Rightarrow> queue_item_row \<Rightarrow> string option \<Rightarrow> string option \<Rightarrow> qdb \<Rightarrow> queue_status_evidence" where
  "collect_queue_status_evidence W run_id i task_status sync_error db =
     (let remote = queue_item_remote_native i;
          agent = nonblank (qi_agent_id i);
          needs_remote = (case task_status of None \<Rightarrow> True
                          | Some s \<Rightarrow> s = ''open'' \<or> queue_status_auto_recoverable s);
          local_live = (\<not> remote \<and> (case agent of None \<Rightarrow> False | Some a \<Rightarrow> agent_running W a))
      in \<lparr>ev_task_status = task_status, ev_status_sync_error = sync_error,
          ev_item_status = qi_status i, ev_item_message = qi_message i, ev_remote_native = remote,
          ev_has_agent_id = (agent \<noteq> None), ev_local_agent_live = local_live,
          ev_remote_live_agent_id =
            (if remote \<and> needs_remote then remote_native_open_record_live_agent_id W i else None),
          ev_closeout_failed_prompt_live =
            (local_live \<and> (case agent of None \<Rightarrow> False | Some a \<Rightarrow> agent_terminal_closeout_failed W a)),
          ev_launch_in_progress = local_open_record_launch_in_progress W run_id i db,
          ev_recovery_waiting = queue_item_recovery_waiting_on_current_attempt W i,
          ev_recovery_live_agent_id = live_queue_item_recovery_agent_id W i\<rparr>)"

definition collect_queue_status_evidence_for_item ::
  "queue_world \<Rightarrow> string \<Rightarrow> queue_item_row \<Rightarrow> (qdb, queue_status_evidence) prog" where
  "collect_queue_status_evidence_for_item W run_id i =
     bnd (caught (queue_task_status W i)) (\<lambda>result. case result of
       Inr status \<Rightarrow> query (collect_queue_status_evidence W run_id i status None)
     | Inl e \<Rightarrow>
         if queue_task_status_message_is_stale_unknown (error_text e)
         then query (collect_queue_status_evidence W run_id i None (Some (error_text e)))
         else throw e)"

section \<open>Running the collection\<close>

definition sync_keeps :: "(qdb \<Rightarrow> bool) \<Rightarrow> queue_world \<Rightarrow> bool" where
  "sync_keeps I W = (\<forall>repo launcher legacy db. I db \<longrightarrow> I (snd (qw_sync_process W repo launcher legacy db)))"

lemma keeps_caught [keeps_intro]: "keeps I m \<Longrightarrow> keeps I (caught m)"
  by (auto simp: keeps_def caught_def split: prod.splits sum.splits qerror.splits)

lemma keeps_get_task_record [keeps_intro]: "keeps I (get_task_record t)"
  by (simp add: get_task_record_def keeps_query)

lemma keeps_run_sync:
  assumes "sync_keeps I W"
  shows "keeps I (run_remote_queue_task_record_sync W repo launcher legacy)"
  unfolding keeps_def
proof (intro allI impI)
  fix db assume "I db"
  obtain r db' where p: "qw_sync_process W repo launcher legacy db = (r, db')"
    by (cases "qw_sync_process W repo launcher legacy db")
  with assms \<open>I db\<close> have "I db'" by (metis sync_keeps_def snd_conv)
  with p show "I (snd (run_remote_queue_task_record_sync W repo launcher legacy db))"
    by (cases r) (auto simp: run_remote_queue_task_record_sync_def split: option.split)
qed

lemma keeps_sync:
  "sync_keeps I W \<Longrightarrow> keeps I (sync_remote_queue_task_records W i required)"
  unfolding sync_remote_queue_task_records_def
  by (intro keeps_intro keeps_run_sync) auto

lemma run_local_records:
  "\<exists>l. queue_task_status_from_local_records W i task_id db = (Inr l, db)"
  by (auto simp: queue_task_status_from_local_records_def get_task_record_def run_bnd
      queue_task_status_from_record_or_recovery_def latest_related_recovery_task_record_def
      load_task_records_for_repo_def split: option.split)

lemma keeps_reads: "(\<And>db. snd (m db) = db) \<Longrightarrow> keeps I m"
  by (simp add: keeps_def)

lemma keeps_local_records [keeps_intro]: "keeps I (queue_task_status_from_local_records W i task_id)"
  by (rule keeps_reads) (metis run_local_records snd_conv)

lemma keeps_fallback [keeps_intro]: "keeps I (remote_native_sync_failure_fallback_status W i task_id)"
  unfolding remote_native_sync_failure_fallback_status_def by (intro keeps_intro)

lemma keeps_case_fallback [keeps_intro]:
  "(\<And>s. keeps I (f s)) \<Longrightarrow> keeps I g \<Longrightarrow> keeps I (case y of FallbackStatus s \<Rightarrow> f s | FallbackPendingRecovery \<Rightarrow> g)"
  by (cases y) auto

lemma keeps_task_status: "sync_keeps I W \<Longrightarrow> keeps I (queue_task_status W i)"
  unfolding queue_task_status_def Let_def by (intro keeps_intro keeps_sync)

lemma keeps_evidence:
  "sync_keeps I W \<Longrightarrow> keeps I (collect_queue_status_evidence_for_item W run_id i)"
  unfolding collect_queue_status_evidence_for_item_def by (intro keeps_intro keeps_task_status)

section \<open>A status comes from a record that speaks for the item\<close>

definition speaks_for :: "queue_world \<Rightarrow> queue_item_row \<Rightarrow> task_record_row \<Rightarrow> bool" where
  "speaks_for W i t =
     ((tk_id t = ''task/'' @ qi_slug i \<and> queue_task_record_matches_item W i t) \<or>
      (related_recovery_task_record_id (''task/'' @ qi_slug i) (tk_id t) \<and>
       related_recovery_task_record_matches_item W i t \<and>
       (qi_started_at i = 0 \<or> qi_started_at i \<le> tk_updated_at t)))"

definition grounded :: "queue_world \<Rightarrow> queue_item_row \<Rightarrow> qdb \<Rightarrow> string option \<Rightarrow> bool" where
  "grounded W i db status =
     (case status of None \<Rightarrow> True | Some s \<Rightarrow> \<exists>t \<in> set (db_tasks db). speaks_for W i t \<and> tk_status t = s)"

lemma find_task_SomeD: "find_task a db = Some t \<Longrightarrow> t \<in> set (db_tasks db) \<and> tk_id t = a"
  by (auto simp: find_task_def dest: find_Some_set)

lemma recovery_grounded:
  assumes "latest_related_recovery_task_record W i (''task/'' @ qi_slug i) db = (Inr (Some t), db')"
  shows "t \<in> set (db_tasks db) \<and> speaks_for W i t"
  using assms
  by (auto simp: latest_related_recovery_task_record_def load_task_records_for_repo_def run_bnd speaks_for_def
      split: option.splits dest!: max_by_key_Some in_set_takeD)

lemma status_from_choice_grounded:
  assumes "ls_status (status_from_choice W i own rec) = Some s"
  shows "(\<exists>t. own = Some t \<and> tk_status t = s) \<or> (\<exists>t. rec = Some t \<and> tk_status t = s)"
  using assms by (auto simp: status_from_choice_def local_none_def Let_def split: option.splits if_splits)

lemma run_latest_recovery: "\<exists>r. latest_related_recovery_task_record W i task_id db = (Inr r, db)"
  by (cases "nonblank (qi_repo_root i)")
     (simp_all add: latest_related_recovery_task_record_def load_task_records_for_repo_def)

lemma local_records_grounded:
  assumes "queue_task_status_from_local_records W i (''task/'' @ qi_slug i) db = (Inr l, db')"
  shows "grounded W i db (ls_status l) \<and> db' = db"
proof -
  let ?id = "''task/'' @ qi_slug i"
  have same: "db' = db" using run_local_records [of W i ?id db] assms by auto
  obtain rec where rec: "latest_related_recovery_task_record W i ?id db = (Inr rec, db)"
    using run_latest_recovery by blast
  have choice: "grounded W i db (ls_status (status_from_choice W i own rec))"
    if "\<And>t. own = Some t \<Longrightarrow> t \<in> set (db_tasks db) \<and> speaks_for W i t" for own
    unfolding grounded_def
    using status_from_choice_grounded [of W i own rec] that recovery_grounded [of W i db] rec
    by (cases "ls_status (status_from_choice W i own rec)") auto
  have "grounded W i db (ls_status l)"
  proof (cases "find_task ?id db")
    case None
    then show ?thesis
      using assms choice [of None] rec
      by (simp add: queue_task_status_from_local_records_def get_task_record_def run_bnd
          queue_task_status_from_record_or_recovery_def)
  next
    case (Some t)
    show ?thesis
    proof (cases "queue_task_record_matches_item W i t")
      case True
      then show ?thesis
        using assms choice [of "Some t"] rec Some find_task_SomeD [OF Some]
        by (simp add: queue_task_status_from_local_records_def get_task_record_def run_bnd
            queue_task_status_from_record_or_recovery_def speaks_for_def)
    next
      case False
      then show ?thesis
        using assms Some
        by (auto simp: queue_task_status_from_local_records_def get_task_record_def run_bnd local_none_def
            grounded_def)
    qed
  qed
  with same show ?thesis by simp
qed

lemma reread_grounded:
  assumes "bnd (queue_task_status_from_local_records W i (''task/'' @ qi_slug i)) (\<lambda>l. ret (ls_status l)) db = (Inr status, db')"
  shows "grounded W i db' status"
proof -
  obtain l where l: "queue_task_status_from_local_records W i (''task/'' @ qi_slug i) db = (Inr l, db)"
    using run_local_records by blast
  with assms local_records_grounded [OF l] show ?thesis by (simp add: run_bnd)
qed

lemma fallback_grounded:
  assumes "remote_native_sync_failure_fallback_status W i (''task/'' @ qi_slug i) db = (Inr (Some (FallbackStatus s)), db')"
  shows "grounded W i db' (Some s)"
  using assms
  by (auto simp: remote_native_sync_failure_fallback_status_def get_task_record_def grounded_def speaks_for_def
      split: option.splits if_splits dest!: find_task_SomeD)

text \<open>
  C28. A task status is never invented. Whatever the synchronisation of a remote host did to the
  records, a status reported for an item is the status of a record in the database that speaks for
  this item: its own record with the same agent, or repository and launcher, or a recovery record
  of the same task family that is not older than the item.
\<close>

theorem task_status_is_grounded:
  assumes "queue_task_status W i db = (Inr (Some s), db')"
  shows "\<exists>t \<in> set (db_tasks db'). speaks_for W i t \<and> tk_status t = s"
proof -
  let ?id = "''task/'' @ qi_slug i" and ?required = "remote_native_requires_task_record_sync i"
  let ?reread = "bnd (queue_task_status_from_local_records W i ?id) (\<lambda>l. ret (ls_status l))"
  let ?after = "\<lambda>r. case r of Inr _ \<Rightarrow> ?reread
    | Inl e \<Rightarrow> if \<not> ?required then ?reread
        else bnd (remote_native_sync_failure_fallback_status W i ?id) (\<lambda>fallback. case fallback of
               Some (FallbackStatus s) \<Rightarrow> ret (Some s)
             | Some FallbackPendingRecovery \<Rightarrow> ret None
             | None \<Rightarrow> throw (sync_failed_error e))"
  obtain l where l: "queue_task_status_from_local_records W i ?id db = (Inr l, db)"
    using run_local_records by blast
  then have step: "bnd (queue_task_status_from_local_records W i ?id) k db = k l db" for k :: "task_local_status \<Rightarrow> (qdb, string option) prog"
    by (simp add: run_bnd)
  have now: "grounded W i db (ls_status l)" using local_records_grounded [OF l] by simp
  have "grounded W i db' (Some s)"
  proof (cases "?reread db = (Inr (Some s), db') \<or> ret (ls_status l) db = (Inr (Some s), db')")
    case True
    then show ?thesis using reread_grounded now by auto
  next
    case False
    have "queue_task_status W i db =
        (if qi_remote_launcher i = None then ?reread
         else if ls_status l = Some closed_success then ret (ls_status l)
         else if \<not> ?required \<and> supersedes_optional_remote_sync l then ret (ls_status l)
         else if \<not> ?required \<and> optional_remote_sync_unneeded i l then ret (ls_status l)
         else bnd (caught (sync_remote_queue_task_records W i ?required)) ?after) db"
      by (simp only: queue_task_status_def Let_def step)
    with assms False have "bnd (caught (sync_remote_queue_task_records W i ?required)) ?after db = (Inr (Some s), db')"
      by (simp only: split: if_splits) (simp_all only: simp_thms)
    then obtain r d where sync: "caught (sync_remote_queue_task_records W i ?required) db = (Inr r, d)"
      and rest: "?after r d = (Inr (Some s), db')"
      by (erule bnd_InrE)
    show ?thesis
    proof (cases r)
      case (Inr u)
      with rest show ?thesis using reread_grounded by simp
    next
      case (Inl e)
      show ?thesis
      proof (cases ?required)
        case False
        with rest Inl show ?thesis using reread_grounded by simp
      next
        case True
        with rest Inl obtain f d' where f: "remote_native_sync_failure_fallback_status W i ?id d = (Inr f, d')"
          and k: "(case f of Some (FallbackStatus s) \<Rightarrow> ret (Some s) | Some FallbackPendingRecovery \<Rightarrow> ret None
             | None \<Rightarrow> throw (sync_failed_error e)) d' = (Inr (Some s), db')"
          by (simp only: Inl sum.case if_not_P not_not if_False) (erule bnd_InrE)
        from k have "f = Some (FallbackStatus s) \<and> d' = db'"
          by (auto split: option.splits sync_fallback.splits)
        with f show ?thesis using fallback_grounded by blast
      qed
    qed
  qed
  then show ?thesis by (simp add: grounded_def)
qed

definition sample_launch :: launch_view where
  "sample_launch = \<lparr>lv_commands = [''c1''], lv_limits = None, lv_read_file = (\<lambda>_. None), lv_dir = (\<lambda>_. None),
     lv_exists = (\<lambda>_. False), lv_is_file = (\<lambda>_. False), lv_tmux_session = (\<lambda>_. Inr False),
     lv_git_root = (\<lambda>_. Inr None), lv_agent_worktree = (\<lambda>_ _ cwd. Inr cwd),
     lv_worktree_status = (\<lambda>_. ProcExited True ''exit status: 0'' [] []),
     lv_worktree_remove = (\<lambda>_ _. ProcExited True ''exit status: 0'' [] []), lv_state_dir = Inr ''/state'',
     lv_write_packet = (\<lambda>_ _. None), lv_start_agent = (\<lambda>a _ _ _ db. (Inr a, db)), lv_terminals = Some [],
     lv_save_terminal = (\<lambda>_ _ _. None)\<rparr>"

definition sample_world :: queue_world where
  "sample_world = \<lparr>qw_store = sample_env, qw_var = (\<lambda>_. None), qw_snapshot = None, qw_screen = (\<lambda>_. None),
     qw_session = (\<lambda>_ _. False), qw_canonical = Inr, qw_executable = Inr ''/usr/bin/qcold'', qw_sync_times = [],
     qw_sync_process = (\<lambda>_ _ _ db. (ProcNotStarted ''no such file'', db)), qw_workers = [],
     qw_pid = 1, qw_terminate = (\<lambda>_. Inr True), qw_still_running = (\<lambda>_. False),
     qw_contract = (\<lambda>_ _ _ _ _ _. ProcExited True ''exit status: 0'' [] []), qw_sync_sessions = id,
     qw_admission = (\<lambda>E. sample_admission_env\<lparr>ae_store := E\<rparr>), qw_launch = sample_launch\<rparr>"

definition sample_task :: "string \<Rightarrow> string \<Rightarrow> task_record_row" where
  "sample_task slug status = \<lparr>tk_id = ''task/'' @ slug, tk_source = ''task-flow'', tk_sequence = None,
     tk_title = slug, tk_description = [], tk_status = status, tk_created_at = 1, tk_updated_at = 5,
     tk_repo_root = None, tk_cwd = None, tk_agent_id = None, tk_metadata_json = None\<rparr>"

definition sample_task_db :: "string \<Rightarrow> qdb" where
  "sample_task_db status = sample_db\<lparr>db_tasks := [sample_task ''slug-a'' status]\<rparr>"

lemma sample_task_status:
  "queue_task_status sample_world (sample_item ''a'' 0) (sample_task_db s) = (Inr (Some s), sample_task_db s)"
proof -
  let ?i = "sample_item ''a'' 0" and ?t = "sample_task ''slug-a'' s" and ?id = "''task/'' @ ''slug-a''"
  have slug: "qi_slug ?i = ''slug-a''" "qi_remote_launcher ?i = None" "qi_repo_root ?i = None"
      "\<not> queue_item_remote_native ?i"
    by (simp_all add: sample_item_def)
  have matches: "queue_task_record_matches_item sample_world ?i ?t"
    by (simp add: queue_task_record_matches_item_def queue_task_record_repo_matches_item_def slug nonblank_def
        queue_task_record_launcher_matches_item_def task_record_remote_launcher_def
        task_record_metadata_object_def sample_task_def)
  have found: "get_task_record ?id (sample_task_db s) = (Inr (Some ?t), sample_task_db s)"
    by (simp add: get_task_record_def find_task_def sample_task_db_def sample_task_def)
  have choice: "status_from_choice sample_world ?i (Some ?t) None = \<lparr>ls_status = Some s, ls_from_recovery = False\<rparr>"
    by (simp add: status_from_choice_def remote_native_failed_closeout_is_being_retried_def slug
        remote_native_retry_session_running_def sample_task_def)
  have "latest_related_recovery_task_record sample_world ?i ?id (sample_task_db s) = (Inr None, sample_task_db s)"
    by (simp add: latest_related_recovery_task_record_def slug nonblank_def)
  then have "queue_task_status_from_local_records sample_world ?i ?id (sample_task_db s) =
      (Inr \<lparr>ls_status = Some s, ls_from_recovery = False\<rparr>, sample_task_db s)"
    using found matches choice
    by (simp only: queue_task_status_from_local_records_def run_bnd prod.case sum.case option.case if_True
        queue_task_status_from_record_or_recovery_def ret_def)
  then show ?thesis
    unfolding queue_task_status_def Let_def slug
    by (simp add: run_bnd)
qed

theorem task_status_is_grounded_witness:
  "\<exists>t \<in> set (db_tasks (sample_task_db ''open'')).
     speaks_for sample_world (sample_item ''a'' 0) t \<and> tk_status t = ''open''"
  using task_status_is_grounded [OF sample_task_status] .

section \<open>Cutting process output\<close>

lemma byte_length_append [simp]: "byte_length (a @ b) = byte_length a + byte_length b"
  by (simp add: byte_length_def)

lemma char_offsets_nth:
  "length (char_offsets n s) = length s"
  "k < length s \<Longrightarrow> char_offsets n s ! k = n + byte_length (take k s)"
proof (induction s arbitrary: n k)
  case (Cons c cs)
  { case 1 show ?case using Cons.IH(1) by simp
  next
    case 2
    then show ?case using Cons.IH(2) by (cases k) (simp_all add: byte_length_def)
  }
qed (simp_all add: byte_length_def)

lemma cut_fits:
  "byte_length (take (length (takeWhile (\<lambda>i. i \<le> limit) (char_offsets 0 s)) - 1) s) \<le> limit"
proof (cases "takeWhile (\<lambda>i. i \<le> limit) (char_offsets 0 s) = []")
  case True
  then show ?thesis by (simp add: byte_length_def)
next
  case False
  let ?w = "takeWhile (\<lambda>i. i \<le> limit) (char_offsets 0 s)"
  have k: "length ?w - 1 < length ?w" using False by (cases ?w) auto
  then have "?w ! (length ?w - 1) \<le> limit" using nth_mem set_takeWhileD by metis
  moreover have "?w ! (length ?w - 1) = char_offsets 0 s ! (length ?w - 1)"
    using k by (rule takeWhile_nth)
  moreover have "length ?w - 1 < length s"
    using k length_takeWhile_le [of "\<lambda>i. i \<le> limit" "char_offsets 0 s"] by (simp add: char_offsets_nth(1))
  ultimately show ?thesis by (simp add: char_offsets_nth(2))
qed

lemma dots_width [simp]: "byte_length ''...'' = 3"
  by (simp add: byte_length_def utf8_width_def)

lemma compact_output_fits: "byte_length (compact_output s) \<le> process_output_limit + 3"
  using cut_fits [of process_output_limit s] by (simp add: compact_output_def)

lemma find_boundary_None:
  "truncate_bytes limit s = None \<longleftrightarrow>
     limit < byte_length s \<and> (\<forall>n \<le> length s. byte_length (take n s) \<noteq> limit)"
proof -
  have "find (\<lambda>n. byte_length (take n s) = limit) [0..<Suc (length s)] = None \<longleftrightarrow>
      (\<forall>n \<le> length s. byte_length (take n s) \<noteq> limit)"
    unfolding find_None_iff by (metis atLeastLessThan_upt atLeast0LessThan lessThan_Suc_atMost atMost_iff)
  then show ?thesis
    unfolding truncate_bytes_def
    by (cases "find (\<lambda>n. byte_length (take n s) = limit) [0..<Suc (length s)]")
       (simp_all only: option.case not_le if_distrib [of "\<lambda>x. x = None"], auto)
qed

lemma truncate_fits: "truncate_bytes limit s = Some t \<Longrightarrow> byte_length t \<le> limit"
  by (auto simp: truncate_bytes_def find_Some_iff split: if_splits option.splits)

definition joined_output :: "string \<Rightarrow> string \<Rightarrow> string" where
  "joined_output stdout stderr = join_with [CHR 0x0A] (filter (\<lambda>v. v \<noteq> []) [trim stdout, trim stderr])"

lemma compact_process_output_eq:
  "compact_process_output stdout stderr =
     (if process_output_limit < byte_length (joined_output stdout stderr)
      then map_option (\<lambda>s. s @ ''...'') (truncate_bytes process_output_limit (joined_output stdout stderr))
      else Some (joined_output stdout stderr))"
  by (simp add: compact_process_output_def joined_output_def Let_def)

lemma long_text_facts:
  "byte_length (replicate 1199 CHR ''a'' @ [CHR 0xE9]) = 1201"
  "joined_output (replicate 1199 CHR ''a'' @ [CHR 0xE9]) [] = replicate 1199 CHR ''a'' @ [CHR 0xE9]"
  "n \<le> length (replicate 1199 CHR ''a'' @ [CHR 0xE9]) \<Longrightarrow>
     byte_length (take n (replicate 1199 CHR ''a'' @ [CHR 0xE9])) \<noteq> 1200"
proof -
  have a: "byte_length (replicate n CHR ''a'') = n" for n
    by (simp add: byte_length_def utf8_width_def sum_list_replicate)
  have e: "byte_length [CHR 0xE9] = 2" by (simp add: byte_length_def utf8_width_def)
  show "byte_length (replicate 1199 CHR ''a'' @ [CHR 0xE9]) = 1201" by (simp add: a e)
  have drop: "dropWhile is_whitespace (replicate 1199 CHR ''a'' @ [CHR 0xE9]) = replicate 1199 CHR ''a'' @ [CHR 0xE9]"
    by (rule dropWhile_eq_self_iff [THEN iffD2]) (simp add: is_whitespace_def)
  have "trim (replicate 1199 CHR ''a'' @ [CHR 0xE9]) = replicate 1199 CHR ''a'' @ [CHR 0xE9]"
    unfolding trim_def trim_matches_def drop by (simp add: is_whitespace_def)
  then show "joined_output (replicate 1199 CHR ''a'' @ [CHR 0xE9]) [] = replicate 1199 CHR ''a'' @ [CHR 0xE9]"
    by (simp add: joined_output_def)
  assume n: "n \<le> length (replicate 1199 CHR ''a'' @ [CHR 0xE9])"
  show "byte_length (take n (replicate 1199 CHR ''a'' @ [CHR 0xE9])) \<noteq> 1200"
  proof (cases "n \<le> 1199")
    case True
    then show ?thesis by (simp add: a min_def)
  next
    case False
    with n have "n = 1200" by simp
    then show ?thesis by (simp add: a e)
  qed
qed

text \<open>
  Both functions that shorten the output of a process keep it within the limit and the three
  dots, but only one of them always returns. The text of a failed probe is cut before a character;
  the text of a failed record synchronisation is cut at a byte, and when that byte lies inside a
  character the cut panics, so that the reconciliation ends with a panic in place of an error.
\<close>

theorem process_output_compaction:
  "(\<forall>stdout stderr. byte_length (compact_remote_admission_output stdout stderr) \<le> process_output_limit + 3) \<and>
   (\<forall>stdout stderr out. compact_process_output stdout stderr = Some out \<longrightarrow> byte_length out \<le> process_output_limit + 3) \<and>
   (\<forall>stdout stderr. compact_process_output stdout stderr = None \<longleftrightarrow>
      process_output_limit < byte_length (joined_output stdout stderr) \<and>
      (\<forall>n \<le> length (joined_output stdout stderr).
         byte_length (take n (joined_output stdout stderr)) \<noteq> process_output_limit)) \<and>
   (\<exists>stdout. compact_process_output stdout [] = None)"
proof (intro conjI allI impI)
  fix stdout stderr
  show "byte_length (compact_remote_admission_output stdout stderr) \<le> process_output_limit + 3"
    unfolding compact_remote_admission_output_def by (rule compact_output_fits)
  show "compact_process_output stdout stderr = None \<longleftrightarrow>
      process_output_limit < byte_length (joined_output stdout stderr) \<and>
      (\<forall>n \<le> length (joined_output stdout stderr).
         byte_length (take n (joined_output stdout stderr)) \<noteq> process_output_limit)"
    using find_boundary_None by (simp add: compact_process_output_eq)
  fix out assume "compact_process_output stdout stderr = Some out"
  then show "byte_length out \<le> process_output_limit + 3"
    using truncate_fits by (auto simp: compact_process_output_eq split: if_splits)
next
  have "compact_process_output (replicate 1199 CHR ''a'' @ [CHR 0xE9]) [] = None"
    unfolding compact_process_output_eq long_text_facts(2) process_output_limit_def
    using find_boundary_None [of 1200 "replicate 1199 CHR ''a'' @ [CHR 0xE9]"] long_text_facts(1,3)
    by (simp del: replicate.simps append.simps)
  then show "\<exists>stdout. compact_process_output stdout [] = None" by blast
qed

theorem process_output_compaction_witness:
  "compact_process_output ''out'' ''err'' = Some [CHR ''o'', CHR ''u'', CHR ''t'', CHR 0x0A, CHR ''e'', CHR ''r'', CHR ''r''] \<and>
   byte_length [CHR ''o'', CHR ''u'', CHR ''t'', CHR 0x0A, CHR ''e'', CHR ''r'', CHR ''r''] \<le> process_output_limit + 3"
proof -
  have "joined_output ''out'' ''err'' = [CHR ''o'', CHR ''u'', CHR ''t'', CHR 0x0A, CHR ''e'', CHR ''r'', CHR ''r'']"
    by code_simp
  then have "compact_process_output ''out'' ''err'' = Some [CHR ''o'', CHR ''u'', CHR ''t'', CHR 0x0A, CHR ''e'', CHR ''r'', CHR ''r'']"
    by (simp add: compact_process_output_eq byte_length_def utf8_width_def process_output_limit_def)
  with process_output_compaction show ?thesis by blast
qed

end
