(* ===== verification/Queue_Worker.thy ===== *)
theory Queue_Worker
  imports Queue_Evidence
begin

text \<open>
  The worker's operations on one item: what it writes when an item is paused, relaunched,
  recovered, successful or failed (\<open>queue_worker_closeout.rs\<close>, \<open>queue_worker_recovery.rs\<close>,
  \<open>queue_worker_cleanup.rs\<close>) and the execution of a reduction (\<open>queue_worker_record_status.rs\<close>).
\<close>

datatype queue_item_outcome =
  OutSuccess | OutStopped | OutRecoveryScheduled | OutFailed string bool

section \<open>Cleaning up an executor\<close>

definition delete_agent_record :: "string \<Rightarrow> (qdb, bool) prog" where
  "delete_agent_record a =
     bnd (sql_exec ''failed to delete agent record'' (\<lambda>db. count_where (\<lambda>r. ag_id r = a) (db_agents db))
            (\<lambda>db. db\<lparr>db_agents := delete_where (\<lambda>r. ag_id r = a) (db_agents db)\<rparr>)) (\<lambda>deleted.
       ret (deleted > 0))"

definition cleanup_message :: "string + bool \<Rightarrow> qerror + bool \<Rightarrow> string" where
  "cleanup_message terminated deleted =
     (case (terminated, deleted) of
        (Inr True, Inr True) \<Rightarrow> ''agent terminal closed; agent record deleted''
      | (Inr True, Inr False) \<Rightarrow> ''agent terminal closed''
      | (Inr False, Inr True) \<Rightarrow> ''agent already stopped; agent record deleted''
      | (Inr False, Inr False) \<Rightarrow> ''agent already stopped''
      | (Inr _, Inl e) \<Rightarrow> ''agent terminal closed; agent record cleanup failed: '' @ error_text e
      | (Inl t, Inr True) \<Rightarrow> ''agent cleanup failed: '' @ t @ ''; stale agent record deleted''
      | (Inl t, Inr False) \<Rightarrow> ''agent cleanup failed: '' @ t @ ''; stale agent record delete skipped''
      | (Inl t, Inl e) \<Rightarrow> ''agent cleanup failed: '' @ t @ ''; agent record cleanup failed: '' @ error_text e)"

definition cleanup_queue_agent :: "queue_world \<Rightarrow> string \<Rightarrow> (qdb, string) prog" where
  "cleanup_queue_agent W a =
     (let terminated = (if agent_running W a then qw_terminate W a else Inr False);
          can_delete = ((case terminated of Inr _ \<Rightarrow> True | Inl _ \<Rightarrow> False) \<or> \<not> qw_still_running W a)
      in bnd (if can_delete then caught (delete_agent_record a) else ret (Inr False)) (\<lambda>deleted.
           ret (cleanup_message terminated deleted)))"

definition run_remote_agent_contract ::
  "queue_world \<Rightarrow> queue_item_row \<Rightarrow> string \<Rightarrow> string \<Rightarrow> string \<Rightarrow> string option \<Rightarrow> string option \<Rightarrow>
   (qdb, string option) prog" where
  "run_remote_agent_contract W i repo_root subcommand session task_slug prompt_file =
     (case qw_contract W i repo_root subcommand session task_slug prompt_file of
        ProcNotStarted e \<Rightarrow>
          ret (Some (''failed to run repository remote-agent '' @ subcommand @ '' contract: '' @ e))
      | ProcExited success status stdout stderr \<Rightarrow>
          if success then ret None
          else (case compact_process_output stdout stderr of
                  None \<Rightarrow> throw (Panic ''assertion failed: self.is_char_boundary(new_len)'')
                | Some output \<Rightarrow>
                    ret (Some (''repository remote-agent '' @ subcommand @ '' contract failed with '' @ status @
                      '': '' @ output))))"

definition cleanup_queue_executor :: "queue_world \<Rightarrow> queue_item_row \<Rightarrow> string \<Rightarrow> (qdb, string) prog" where
  "cleanup_queue_executor W i a =
     (if \<not> queue_item_remote_native i then cleanup_queue_agent W a
      else (case queue_item_repo_root W i of
              Inl e \<Rightarrow> ret (''remote-agent cleanup skipped: '' @ e)
            | Inr repo_root \<Rightarrow>
                bnd (run_remote_agent_contract W i repo_root ''down'' (remote_native_queue_session a) None None) (\<lambda>result.
                  ret (case result of None \<Rightarrow> ''remote-agent session stopped''
                                    | Some e \<Rightarrow> ''remote-agent cleanup failed: '' @ e))))"

section \<open>Writes for one item\<close>

definition pause_web_queue_item ::
  "queue_world \<Rightarrow> string \<Rightarrow> queue_item_row \<Rightarrow> string option \<Rightarrow> int \<Rightarrow> (qdb, unit) prog" where
  "pause_web_queue_item W run_id i agent_id attempts =
     update_web_queue_item (qw_store W) run_id (qi_id i) ItemStopped
       ''stopped by operator; press Continue to resume'' agent_id attempts None"

definition update_successful_queue_item ::
  "queue_world \<Rightarrow> string \<Rightarrow> queue_item_row \<Rightarrow> string option \<Rightarrow> int \<Rightarrow> (qdb, unit) prog" where
  "update_successful_queue_item W run_id i agent_id attempts =
     bnd (case agent_id of
            None \<Rightarrow> ret ''closed successfully''
          | Some a \<Rightarrow> bnd (cleanup_queue_executor W i a) (\<lambda>c. ret (''closed successfully; '' @ c))) (\<lambda>message.
       update_web_queue_item (qw_store W) run_id (qi_id i) ItemSuccess message agent_id attempts None)"

definition latest_queue_item_terminal_outcome ::
  "string \<Rightarrow> string \<Rightarrow> (qdb, queue_item_outcome option) prog" where
  "latest_queue_item_terminal_outcome run_id item_id =
     query (\<lambda>db. case find (\<lambda>i. qi_id i = item_id) (snd (load_web_queue_run run_id db)) of
       None \<Rightarrow> None
     | Some i \<Rightarrow> if qi_status i = ItemSuccess then Some OutSuccess
                else if item_is_terminal (qi_status i) then Some (OutFailed (qi_message i) False)
                else None)"

definition update_queue_item_unless_terminal ::
  "queue_world \<Rightarrow> string \<Rightarrow> string \<Rightarrow> queue_item_status \<Rightarrow> string \<Rightarrow> string option \<Rightarrow> int \<Rightarrow> nat option \<Rightarrow>
   (qdb, queue_item_outcome option) prog" where
  "update_queue_item_unless_terminal W run_id item_id status message agent_id attempts next_attempt_at =
     bnd (latest_queue_item_terminal_outcome run_id item_id) (\<lambda>outcome. case outcome of
       Some r \<Rightarrow> ret (Some r)
     | None \<Rightarrow> seq (update_web_queue_item (qw_store W) run_id item_id status message agent_id attempts next_attempt_at)
                 (ret None))"

definition update_queue_item_status_sync_unavailable_wait ::
  "queue_world \<Rightarrow> string \<Rightarrow> queue_item_row \<Rightarrow> string option \<Rightarrow> int \<Rightarrow> string \<Rightarrow>
   (qdb, queue_item_outcome option) prog" where
  "update_queue_item_status_sync_unavailable_wait W run_id i agent_id attempts reason =
     update_queue_item_unless_terminal W run_id (qi_id i) ItemRunning
       (reason @ ''; checked_at='' @ show_nat (qw_now W)) agent_id attempts None"

text \<open>The \<open>Debug\<close> text of a lease state; owner names need no escapes.\<close>

fun lease_state_text :: "lease_state \<Rightarrow> string" where
  "lease_state_text StateMissing = ''Missing''"
| "lease_state_text (StateTerminal st) = ''Terminal { status: '' @ item_status_as_str st @ '' }''"
| "lease_state_text (StateRetryable t) = ''Retryable { next_attempt_at: '' @ show_nat t @ '' }''"
| "lease_state_text (StateUnowned e) = ''Unowned { lease_epoch: '' @ show_int e @ '' }''"
| "lease_state_text (StateActive w e t) =
     ''Active { owner_id: '' @ [CHR 0x22] @ w @ [CHR 0x22] @ '', lease_epoch: '' @ show_int e @
     '', expires_at: '' @ show_nat t @ '' }''"
| "lease_state_text (StateStale w e t) =
     ''Stale { owner_id: '' @ [CHR 0x22] @ w @ [CHR 0x22] @ '', lease_epoch: '' @ show_int e @
     '', expires_at: '' @ show_nat t @ '' }''"

definition web_queue_worker_lease_ttl :: nat where
  "web_queue_worker_lease_ttl = 120"

definition heartbeat_queue_item_worker_lease :: "queue_world \<Rightarrow> queue_worker_lease option \<Rightarrow> (qdb, unit) prog" where
  "heartbeat_queue_item_worker_lease W lease =
     (case lease of
        None \<Rightarrow> ret ()
      | Some l \<Rightarrow> bnd (heartbeat_web_queue_item_worker_lease_at l (qw_now W) web_queue_worker_lease_ttl) (\<lambda>kept.
          if kept then ret ()
          else bnd (query (inspect_web_queue_item_worker_lease_at (lease_run_id l) (lease_item_id l) (qw_now W))) (\<lambda>st.
            case st of
              StateTerminal s \<Rightarrow> ret ()
            | StateRetryable t \<Rightarrow> ret ()
            | _ \<Rightarrow> throw (Bail (''queue worker lease lost for '' @ lease_run_id l @ '':'' @ lease_item_id l @ '' to '' @
                     lease_state_text st)))))"

section \<open>Launch retries\<close>

definition web_queue_retry_delays :: "nat list" where
  "web_queue_retry_delays = [60, 300, 600]"

text \<open>\<open>usize::try_from(retries).unwrap_or(usize::MAX)\<close>.\<close>

definition retry_index :: "int \<Rightarrow> nat" where
  "retry_index retries = (if retries < 0 then u64_max else nat retries)"

definition queue_launch_failed_before_record_message :: "queue_item_row \<Rightarrow> string" where
  "queue_launch_failed_before_record_message i =
     (if queue_item_remote_native i then remote_missing_record_relaunch_message
      else local_launch_failed_relaunch_message)"

definition fail_item_and_run ::
  "queue_world \<Rightarrow> string \<Rightarrow> queue_item_row \<Rightarrow> string \<Rightarrow> int \<Rightarrow> (qdb, queue_item_outcome) prog" where
  "fail_item_and_run W run_id i message attempts =
     seq (update_web_queue_item (qw_store W) run_id (qi_id i) ItemFailed message (qi_agent_id i) attempts None)
       (seq (update_web_queue_run (qw_store W) run_id RunFailed (qi_position i) message)
         (ret (OutFailed message False)))"

definition bounded_queue_item_relaunch ::
  "queue_world \<Rightarrow> string \<Rightarrow> queue_item_row \<Rightarrow> string \<Rightarrow> int \<Rightarrow> (qdb, queue_item_outcome) prog" where
  "bounded_queue_item_relaunch W run_id i message attempts =
     (if queue_item_remote_native i \<and> nonblank (qi_remote_launcher i) = None then
        fail_item_and_run W run_id i (message @ ''; remote launcher unavailable'') attempts
      else if retry_index attempts < length web_queue_retry_delays then
        (let delay = web_queue_retry_delays ! retry_index attempts;
             next_attempt_at = sat_add_u64 (qw_now W) delay
         in seq (schedule_web_queue_item_relaunch (qw_store W) run_id (qi_id i) message
                   (sat_add_i64 attempts 1) next_attempt_at)
              (seq (update_web_queue_run (qw_store W) run_id RunRunning (qi_position i) message)
                (ret OutRecoveryScheduled)))
      else fail_item_and_run W run_id i
             (''launch retries exhausted after '' @ show_nat (length web_queue_retry_delays) @ '' attempts; '' @ message)
             attempts)"

definition fail_remote_native_missing_task_record ::
  "queue_world \<Rightarrow> string \<Rightarrow> queue_item_row \<Rightarrow> int \<Rightarrow> (qdb, queue_item_outcome) prog" where
  "fail_remote_native_missing_task_record W run_id i attempts =
     bounded_queue_item_relaunch W run_id i remote_record_not_visible_message attempts"

definition update_remote_native_missing_record_wait ::
  "queue_world \<Rightarrow> string \<Rightarrow> queue_item_row \<Rightarrow> string \<Rightarrow> int \<Rightarrow> (qdb, queue_item_outcome option) prog" where
  "update_remote_native_missing_record_wait W run_id i agent_id attempts =
     update_queue_item_unless_terminal W run_id (qi_id i) ItemRunning
       ''waiting for remote-native task record visibility after remote-agent open'' (Some agent_id) attempts None"

definition missing_queue_task_record_outcome ::
  "queue_world \<Rightarrow> string \<Rightarrow> queue_item_row \<Rightarrow> string \<Rightarrow> int \<Rightarrow> (qdb, queue_item_outcome option) prog" where
  "missing_queue_task_record_outcome W run_id i agent_id attempts =
     (if queue_item_remote_native i then
        bnd (latest_queue_item_terminal_outcome run_id (qi_id i)) (\<lambda>latest. case latest of
          Some r \<Rightarrow> ret (Some r)
        | None \<Rightarrow>
            if remote_native_session_running W i agent_id
            then update_remote_native_missing_record_wait W run_id i agent_id attempts
            else bnd (fail_remote_native_missing_task_record W run_id i attempts) (\<lambda>r. ret (Some r)))
      else if agent_running W agent_id then ret None
      else bnd (bounded_queue_item_relaunch W run_id i local_launch_failed_relaunch_message attempts)
             (\<lambda>r. ret (Some r)))"

section \<open>Semantic recovery\<close>

definition semantic_iterations_per_item :: int where
  "semantic_iterations_per_item = 3"

definition auto_recovery_attempts :: int where
  "auto_recovery_attempts = semantic_iterations_per_item - 1"

definition schedule_queue_item_auto_recovery ::
  "queue_world \<Rightarrow> string \<Rightarrow> queue_item_row \<Rightarrow> string \<Rightarrow> (qdb, bool) prog" where
  "schedule_queue_item_auto_recovery W run_id i failure_message =
     bnd (web_queue_item_semantic_iterations_started (qw_store W) i) (\<lambda>semantic_iterations.
       if semantic_iterations \<ge> semantic_iterations_per_item then ret False
       else
         (let message = ''auto-recovery scheduled after failed task: '' @ failure_message
          in seq (schedule_web_queue_item_recovery (qw_store W) run_id (qi_id i) message failure_message
                    semantic_iterations)
               (seq (update_web_queue_run (qw_store W) run_id RunRunning (qi_position i) message) (ret True))))"

definition exhausted_queue_item_failure_message ::
  "queue_world \<Rightarrow> queue_item_row \<Rightarrow> string \<Rightarrow> (qdb, string) prog" where
  "exhausted_queue_item_failure_message W i failure_message =
     bnd (web_queue_item_semantic_iterations_started (qw_store W) i) (\<lambda>semantic_iterations.
       if semantic_iterations < semantic_iterations_per_item then ret failure_message
       else ret (''auto-recovery exhausted after '' @ show_int semantic_iterations @
              '' semantic iterations; last failure: '' @ failure_message))"

definition fail_or_schedule_queue_item_recovery ::
  "queue_world \<Rightarrow> string \<Rightarrow> queue_item_row \<Rightarrow> string \<Rightarrow> string option \<Rightarrow> int \<Rightarrow> (qdb, queue_item_outcome) prog" where
  "fail_or_schedule_queue_item_recovery W run_id i message agent_id attempts =
     bnd (schedule_queue_item_auto_recovery W run_id i message) (\<lambda>scheduled.
       if scheduled then ret OutRecoveryScheduled
       else bnd (exhausted_queue_item_failure_message W i message) (\<lambda>text.
              seq (update_web_queue_item (qw_store W) run_id (qi_id i) ItemFailed text agent_id attempts None)
                (ret (OutFailed text False))))"

definition relaunch_remote_native_disconnected_item ::
  "queue_world \<Rightarrow> string \<Rightarrow> queue_item_row \<Rightarrow> int \<Rightarrow> (qdb, queue_item_outcome) prog" where
  "relaunch_remote_native_disconnected_item W run_id i attempts =
     seq (reset_web_queue_item_for_relaunch (qw_store W) run_id (qi_id i) remote_open_record_relaunch_message attempts)
       (seq (update_web_queue_run (qw_store W) run_id RunRunning (qi_position i) remote_open_record_relaunch_message)
         (ret OutRecoveryScheduled))"

section \<open>Executing a reduction\<close>

text \<open>
  The reconciliation of a run collects whether a row changed and the first verdict that ends the
  run: its status, the position of the item and the message.
\<close>

type_synonym run_verdict = "(queue_run_status \<times> int \<times> string) option"

definition or_insert :: "'a option \<Rightarrow> 'a \<Rightarrow> 'a option" where
  "or_insert old new = (case old of None \<Rightarrow> Some new | Some x \<Rightarrow> Some x)"

definition queue_display_label :: "queue_item_row \<Rightarrow> string" where
  "queue_display_label i =
     (case nonblank (qi_repo_name i) of None \<Rightarrow> qi_slug i | Some n \<Rightarrow> n @ '' '' @ qi_slug i)"

definition remote_native_active_open_message :: "queue_item_row \<Rightarrow> string \<Rightarrow> string" where
  "remote_native_active_open_message i a = queue_display_label i @ '' ('' @ a @ '')''"

definition queue_status_running_message :: "queue_item_row \<Rightarrow> string option \<Rightarrow> queue_status_evidence \<Rightarrow> string" where
  "queue_status_running_message i agent_id e =
     (if ev_recovery_live_agent_id e = agent_id then
        (case agent_id of None \<Rightarrow> ''running recovery retry'' | Some a \<Rightarrow> ''running recovery retry ('' @ a @ '')'')
      else if ev_remote_native e then
        (case agent_id of None \<Rightarrow> ''remote-native session is running''
         | Some a \<Rightarrow> if item_is_stopped_or_paused (qi_status i) then ''resumed remote-native agent '' @ a
                    else remote_native_active_open_message i a)
      else (case agent_id of None \<Rightarrow> ''local agent is running''
            | Some a \<Rightarrow> queue_display_label i @ '' ('' @ a @ '')''))"

definition queue_status_running_run_message :: "queue_item_row \<Rightarrow> queue_status_evidence \<Rightarrow> string \<Rightarrow> string" where
  "queue_status_running_run_message i e message =
     (if ev_remote_native e \<and> item_is_stopped_or_paused (qi_status i) then ''running'' else message)"

definition queue_status_recovery_failure_message :: "string \<Rightarrow> queue_status_evidence \<Rightarrow> string" where
  "queue_status_recovery_failure_message status e =
     (if ev_closeout_failed_prompt_live e then agent_failed_qcold_closeout
      else if status = ''open'' \<and> \<not> ev_remote_native e then local_open_record_recovery_message
      else status)"

definition running_agent_of :: "queue_item_row \<Rightarrow> queue_status_evidence \<Rightarrow> string option" where
  "running_agent_of i e = coalesce (ev_remote_live_agent_id e) (coalesce (ev_recovery_live_agent_id e) (qi_agent_id i))"

definition agent_still_running :: "queue_world \<Rightarrow> queue_item_row \<Rightarrow> bool" where
  "agent_still_running W i = (case qi_agent_id i of None \<Rightarrow> False | Some a \<Rightarrow> agent_running W a)"

definition mark_queue_status_success ::
  "queue_world \<Rightarrow> string \<Rightarrow> queue_item_row \<Rightarrow> bool \<Rightarrow> (qdb, bool) prog" where
  "mark_queue_status_success W run_id i changed =
     (if qi_status i \<noteq> ItemSuccess \<or> agent_still_running W i
      then seq (update_successful_queue_item W run_id i (qi_agent_id i) (qi_attempts i)) (ret True)
      else ret changed)"

definition mark_queue_status_paused ::
  "queue_world \<Rightarrow> string \<Rightarrow> queue_item_row \<Rightarrow> string \<Rightarrow> bool \<Rightarrow> run_verdict \<Rightarrow> (qdb, bool \<times> run_verdict) prog" where
  "mark_queue_status_paused W run_id i status changed verdict =
     bnd (if qi_status i \<noteq> ItemPaused
          then seq (update_web_queue_item (qw_store W) run_id (qi_id i) ItemPaused status (qi_agent_id i)
                      (qi_attempts i) None) (ret True)
          else ret changed) (\<lambda>changed'.
       ret (changed', or_insert verdict (RunStopped, qi_position i, status)))"

definition mark_queue_status_running ::
  "queue_world \<Rightarrow> string \<Rightarrow> queue_item_row \<Rightarrow> queue_status_evidence \<Rightarrow> bool \<Rightarrow> (qdb, bool) prog" where
  "mark_queue_status_running W run_id i e changed =
     (let agent_id = running_agent_of i e;
          message = queue_status_running_message i agent_id e
      in bnd (if qi_status i \<noteq> ItemRunning \<or> qi_message i \<noteq> message \<or> qi_agent_id i \<noteq> agent_id
              then seq (update_web_queue_item (qw_store W) run_id (qi_id i) ItemRunning message agent_id
                          (qi_attempts i) None) (ret True)
              else ret changed) (\<lambda>changed'.
           seq (update_web_queue_run (qw_store W) run_id RunRunning (qi_position i)
                  (queue_status_running_run_message i e message)) (ret changed')))"

definition recover_queue_status_execution ::
  "queue_world \<Rightarrow> string \<Rightarrow> queue_item_row \<Rightarrow> string \<Rightarrow> queue_status_evidence \<Rightarrow> bool \<Rightarrow> run_verdict \<Rightarrow>
   (qdb, bool \<times> run_verdict) prog" where
  "recover_queue_status_execution W run_id i status e changed verdict =
     (case ev_recovery_live_agent_id e of
        Some a \<Rightarrow>
          (let message = ''running recovery retry ('' @ a @ '')''
           in bnd (if qi_status i \<noteq> ItemRunning \<or> qi_message i \<noteq> message \<or> qi_agent_id i \<noteq> Some a
                   then seq (update_web_queue_item (qw_store W) run_id (qi_id i) ItemRunning message (Some a)
                               (qi_attempts i) None) (ret True)
                   else ret changed) (\<lambda>changed'.
                seq (update_web_queue_run (qw_store W) run_id RunRunning (qi_position i) message)
                  (ret (changed', verdict))))
      | None \<Rightarrow>
          if ev_recovery_waiting e then ret (changed, verdict)
          else
            (let failure_message = queue_status_recovery_failure_message status e
             in bnd (schedule_queue_item_auto_recovery W run_id i failure_message) (\<lambda>scheduled.
                  if scheduled then ret (True, verdict)
                  else bnd (exhausted_queue_item_failure_message W i failure_message) (\<lambda>message.
                         seq (update_web_queue_item (qw_store W) run_id (qi_id i) ItemFailed message (qi_agent_id i)
                                (qi_attempts i) None)
                           (ret (True, or_insert verdict (RunFailed, qi_position i, message)))))))"

definition mark_queue_status_failed ::
  "queue_world \<Rightarrow> string \<Rightarrow> queue_item_row \<Rightarrow> string \<Rightarrow> bool \<Rightarrow> run_verdict \<Rightarrow> (qdb, bool \<times> run_verdict) prog" where
  "mark_queue_status_failed W run_id i status changed verdict =
     (if qi_status i = ItemSuccess then ret (changed, verdict)
      else bnd (if queue_status_auto_recoverable status then exhausted_queue_item_failure_message W i status
                else ret status) (\<lambda>message.
             seq (update_web_queue_item (qw_store W) run_id (qi_id i) ItemFailed message (qi_agent_id i)
                    (qi_attempts i) None)
               (ret (True, or_insert verdict (RunFailed, qi_position i, message)))))"

definition execute_queue_status_reduction ::
  "queue_world \<Rightarrow> string \<Rightarrow> queue_item_row \<Rightarrow> string \<Rightarrow> queue_status_evidence \<Rightarrow> queue_status_reduction \<Rightarrow>
   bool \<Rightarrow> run_verdict \<Rightarrow> (qdb, bool \<times> bool \<times> run_verdict) prog" where
  "execute_queue_status_reduction W run_id i status e red changed verdict =
     (case red_action red of
        ActNone \<Rightarrow> ret (red_handled red, changed, verdict)
      | ActRefreshEvidence \<Rightarrow> ret (red_handled red, changed, verdict)
      | ActMarkSuccess \<Rightarrow> bnd (mark_queue_status_success W run_id i changed) (\<lambda>c. ret (True, c, verdict))
      | ActMarkPaused \<Rightarrow> bnd (mark_queue_status_paused W run_id i status changed verdict) (\<lambda>r. ret (True, r))
      | ActMarkRunning \<Rightarrow> bnd (mark_queue_status_running W run_id i e changed) (\<lambda>c. ret (True, c, verdict))
      | ActRelaunchRemoteDisconnectedOpenRecord \<Rightarrow>
          seq (relaunch_remote_native_disconnected_item W run_id i (qi_attempts i)) (ret (True, True, verdict))
      | ActRecoverExecution \<Rightarrow>
          bnd (recover_queue_status_execution W run_id i status e changed verdict) (\<lambda>r. ret (True, r))
      | ActMarkFailed \<Rightarrow> bnd (mark_queue_status_failed W run_id i status changed verdict) (\<lambda>r. ret (True, r))
      | ActBoundedRelaunch \<Rightarrow> ret (False, changed, verdict))"

section \<open>How the writes run\<close>

text \<open>
  The effect of a program on the queue: one item row and one run row may change, by the given
  functions; no other item or run, no tab, lease or task record does.
\<close>

definition touches ::
  "string \<Rightarrow> string \<Rightarrow> (queue_item_row \<Rightarrow> queue_item_row) \<Rightarrow> (queue_run_row \<Rightarrow> queue_run_row) \<Rightarrow> qdb \<Rightarrow> qdb \<Rightarrow> bool" where
  "touches r a g h db db' =
     (schema_ok db' \<and>
      (\<forall>r' b. find_item r' b db' = (if r' = r \<and> b = a then map_option g (find_item r' b db) else find_item r' b db)) \<and>
      (\<forall>r'. find_run r' db' = (if r' = r then map_option h (find_run r' db) else find_run r' db)) \<and>
      db_tabs db' = db_tabs db \<and> db_leases db' = db_leases db \<and> db_tasks db' = db_tasks db)"

lemma touches_trans:
  "touches r a g h db d \<Longrightarrow> touches r a g' h' d d' \<Longrightarrow> touches r a (g' \<circ> g) (h' \<circ> h) db d'"
  by (auto simp: touches_def option.map_comp)

lemma touches_schema: "touches r a g h db db' \<Longrightarrow> schema_ok db'"
  by (simp add: touches_def)

lemma touches_item: "touches r a g h db db' \<Longrightarrow> find_item r a db = Some i \<Longrightarrow> find_item r a db' = Some (g i)"
  by (simp add: touches_def)

lemma touches_run: "touches r a g h db db' \<Longrightarrow> find_run r db = Some x \<Longrightarrow> find_run r db' = Some (h x)"
  by (simp add: touches_def)

lemma touches_refl: "schema_ok db \<Longrightarrow> touches r a id id db db"
  by (simp add: touches_def option.map_id)

lemma touches_written:
  assumes "schema_ok db" and "\<And>i. item_keys (f i) = item_keys i"
  shows "touches r a f id db (project E r a (with_item r a f db))"
  using schema_ok_project [OF schema_ok_with_item [OF assms]]
  by (auto simp: touches_def find_with_item [OF assms(2)] option.map_id)

lemma touches_finish: "schema_ok db \<Longrightarrow> touches r a id id db (finish_db E r a s m db)"
  by (simp add: touches_def schema_ok_finish_db option.map_id)

abbreviation set_item ::
  "queue_world \<Rightarrow> queue_item_status \<Rightarrow> string \<Rightarrow> string option \<Rightarrow> int \<Rightarrow> nat option \<Rightarrow> queue_item_row \<Rightarrow> queue_item_row" where
  "set_item W st m agent attempts nx i \<equiv>
     i\<lparr>qi_status := st, qi_message := m, qi_agent_id := coalesce agent (qi_agent_id i), qi_attempts := attempts,
       qi_next_attempt_at := nx, qi_updated_at := qw_now W\<rparr>"

definition mark_run :: "queue_world \<Rightarrow> queue_run_status \<Rightarrow> int \<Rightarrow> string \<Rightarrow> queue_run_row \<Rightarrow> queue_run_row" where
  "mark_run W st p m x = x\<lparr>qr_status := stored_run_status st, qr_current_index := p, qr_message := m,
     qr_updated_at := qw_now W\<rparr>"

lemma run_update_item_touches:
  assumes "schema_ok db"
  shows "\<exists>db'. update_web_queue_item (qw_store W) r a st m agent attempts nx db = (Inr (), db') \<and>
    touches r a (set_item W (stored_item_status st) m agent attempts nx) id db db'"
proof -
  let ?f = "set_item W (stored_item_status st) m agent attempts nx"
  have "item_keys (?f i) = item_keys i" for i by (simp add: item_keys_def)
  from touches_written [OF assms this] show ?thesis
    using run_update_item(1) [OF assms] by blast
qed

lemma run_mark_run_touches:
  assumes "schema_ok db"
  shows "\<exists>db'. update_web_queue_run (qw_store W) r st p m db = (Inr (), db') \<and>
    touches r a id (mark_run W st p m) db db'"
proof -
  let ?d = "db\<lparr>db_runs := update_where (\<lambda>x. qr_id x = r) (mark_run W st p m) (db_runs db)\<rparr>"
  have keys: "qr_id (mark_run W st p m x) = qr_id x" for x by (simp add: mark_run_def)
  have "update_web_queue_run (qw_store W) r st p m db = (Inr (), ?d)"
    using assms keys by (simp add: update_web_queue_run_def bnd_update_runs mark_run_def [abs_def])
  moreover have "schema_ok ?d"
    using assms keys by (simp add: schema_ok_runs_cong map_update_where)
  moreover have "find_run r' ?d = (if r' = r then map_option (mark_run W st p m) (find_run r' db) else find_run r' db)" for r'
    using find_run_update [of "\<lambda>x. qr_id x = r" "mark_run W st p m" r' db] keys
    by (cases "find_run r' db") (auto simp: find_run_def dest: find_Some_set)
  ultimately show ?thesis by (auto simp: touches_def option.map_id)
qed

lemma run_iterations_touches:
  assumes "schema_ok db" and "find_item (qi_run_id i) (qi_id i) db = Some i"
  shows "\<exists>n db'. web_queue_item_semantic_iterations_started E i db = (Inr n, db') \<and>
    touches (qi_run_id i) (qi_id i) id id db db' \<and> queue_item_semantic_iteration i \<le> n"
proof -
  let ?d = "put_attempt merge_projection (attempt_projection E i db) db"
  have known: "qi_id i \<in> qi_id ` set (db_items db)" using find_item_id_known [OF assms(2)] by simp
  have "schema_ok ?d"
    using assms(1) known by (intro schema_ok_put_attempt merge_keys) (simp_all add: attempt_projection_def)
  then have "touches (qi_run_id i) (qi_id i) id id db ?d" by (simp add: touches_def option.map_id)
  then show ?thesis
    using run_sync_projection [OF assms(1) known, of E]
    by (auto simp: web_queue_item_semantic_iterations_started_def run_bnd)
qed

lemma run_recovery_touches:
  assumes "schema_ok db"
  shows "\<exists>db'. schedule_web_queue_item_recovery (qw_store W) r a message m n db = (Inr (), db') \<and>
    touches r a (\<lambda>i. i\<lparr>qi_status := ItemPending, qi_message := message, qi_agent_id := None,
      qi_recovery_attempts := n, qi_next_attempt_at := None, qi_updated_at := qw_now W\<rparr>) id db db'"
proof -
  let ?f = "\<lambda>i. i\<lparr>qi_status := ItemPending, qi_message := message, qi_agent_id := None,
      qi_recovery_attempts := n, qi_next_attempt_at := None, qi_updated_at := qw_now W\<rparr>"
  have keys: "item_keys (?f i) = item_keys i" for i by (simp add: item_keys_def)
  have "touches r a (?f \<circ> id) (id \<circ> id) db
      (project (qw_store W) r a (with_item r a ?f (finish_db (qw_store W) r a ''failed'' m db)))"
    by (rule touches_trans [OF touches_finish [OF assms] touches_written [OF schema_ok_finish_db [OF assms] keys]])
  then show ?thesis using run_schedule_recovery [OF assms] by simp
qed

lemma run_relaunch_touches:
  assumes "schema_ok db"
  shows "\<exists>db'. schedule_web_queue_item_relaunch (qw_store W) r a m n nx db = (Inr (), db') \<and>
      touches r a (\<lambda>i. i\<lparr>qi_status := ItemWaiting, qi_message := m, qi_agent_id := None, qi_attempts := n,
        qi_next_attempt_at := Some nx, qi_updated_at := qw_now W\<rparr>) id db db'"
    and "\<exists>db'. reset_web_queue_item_for_relaunch (qw_store W) r a m n db = (Inr (), db') \<and>
      touches r a (\<lambda>i. i\<lparr>qi_status := ItemPending, qi_message := m, qi_agent_id := None, qi_attempts := n,
        qi_next_attempt_at := None, qi_updated_at := qw_now W\<rparr>) id db db'"
  using run_update_item(2,3) [OF assms] touches_written [OF assms]
  by (simp_all add: item_keys_def)

lemma run_seq_touches:
  assumes "\<exists>d. m db = (Inr u, d) \<and> touches r a g h db d"
    and "\<And>d. touches r a g h db d \<Longrightarrow> \<exists>d'. k u d = (Inr x, d') \<and> touches r a g' h' d d'"
  shows "\<exists>d'. bnd m k db = (Inr x, d') \<and> touches r a (g' \<circ> g) (h' \<circ> h) db d'"
proof -
  obtain d where d: "m db = (Inr u, d)" "touches r a g h db d" using assms(1) by blast
  obtain d' where d': "k u d = (Inr x, d')" "touches r a g' h' d d'" using assms(2) [OF d(2)] by blast
  show ?thesis using d d' touches_trans [OF d(2) d'(2)] by (auto simp: run_bnd)
qed

section \<open>The budgets\<close>

lemma semantic_iteration_pos: "0 \<le> qi_recovery_attempts i \<Longrightarrow> queue_item_semantic_iteration i < 3 \<Longrightarrow>
    queue_item_semantic_iteration i = qi_recovery_attempts i + 1"
  by (simp add: queue_item_semantic_iteration_def sat_add_i64_def i64_max_def i64_min_def)

lemma run_auto_recovery:
  assumes "schema_ok db" and "find_item (qi_run_id i) (qi_id i) db = Some i"
  shows "\<exists>n b db'. schedule_queue_item_auto_recovery W (qi_run_id i) i m db = (Inr b, db') \<and>
    queue_item_semantic_iteration i \<le> n \<and> b = (n < 3) \<and>
    touches (qi_run_id i) (qi_id i)
      (if b then (\<lambda>i. i\<lparr>qi_status := ItemPending, qi_message := ''auto-recovery scheduled after failed task: '' @ m,
         qi_agent_id := None, qi_recovery_attempts := n, qi_next_attempt_at := None, qi_updated_at := qw_now W\<rparr>)
       else id)
      (if b then mark_run W RunRunning (qi_position i) (''auto-recovery scheduled after failed task: '' @ m) else id)
      db db'"
proof -
  let ?r = "qi_run_id i" and ?a = "qi_id i" and ?m = "''auto-recovery scheduled after failed task: '' @ m"
  obtain n d where d: "web_queue_item_semantic_iterations_started (qw_store W) i db = (Inr n, d)"
      "touches ?r ?a id id db d" "queue_item_semantic_iteration i \<le> n"
    using run_iterations_touches [OF assms] by blast
  show ?thesis
  proof (cases "n < 3")
    case False
    then have "schedule_queue_item_auto_recovery W ?r i m db = (Inr False, d)"
      using d(1) by (simp add: schedule_queue_item_auto_recovery_def run_bnd semantic_iterations_per_item_def)
    with d False show ?thesis by (intro exI [of _ n] exI [of _ False] exI [of _ d]) simp
  next
    case True
    obtain d1 where d1: "schedule_web_queue_item_recovery (qw_store W) ?r ?a ?m m n d = (Inr (), d1)"
        "touches ?r ?a (\<lambda>i. i\<lparr>qi_status := ItemPending, qi_message := ?m, qi_agent_id := None,
           qi_recovery_attempts := n, qi_next_attempt_at := None, qi_updated_at := qw_now W\<rparr>) id d d1"
      using run_recovery_touches [OF touches_schema [OF d(2)]] by blast
    obtain d2 where d2: "update_web_queue_run (qw_store W) ?r RunRunning (qi_position i) ?m d1 = (Inr (), d2)"
        "touches ?r ?a id (mark_run W RunRunning (qi_position i) ?m) d1 d2"
      using run_mark_run_touches [OF touches_schema [OF d1(2)]] by blast
    have "schedule_queue_item_auto_recovery W ?r i m db = (Inr True, d2)"
      using d(1) d1(1) d2(1) True
      by (simp add: schedule_queue_item_auto_recovery_def run_bnd semantic_iterations_per_item_def Let_def)
    moreover have "touches ?r ?a ((id \<circ> (\<lambda>i. i\<lparr>qi_status := ItemPending, qi_message := ?m, qi_agent_id := None,
           qi_recovery_attempts := n, qi_next_attempt_at := None, qi_updated_at := qw_now W\<rparr>)) \<circ> id)
        (mark_run W RunRunning (qi_position i) ?m \<circ> id \<circ> id) db d2"
      using touches_trans [OF d(2) touches_trans [OF d1(2) d2(2)]] by simp
    ultimately show ?thesis
      using d(3) True by (intro exI [of _ n] exI [of _ True] exI [of _ d2]) simp
  qed
qed

text \<open>
  C29. The budget of semantic recoveries is finite and never restored. On the current row of an
  item the decision always completes. If a recovery is scheduled, the item is pending without an
  agent, its recovery count has grown and is at most two, and the run is running; otherwise the
  item is as it was. With two recoveries on record none is scheduled, so an item is executed in at
  most three semantic iterations.
\<close>

theorem semantic_recovery_budget:
  assumes "schema_ok db" and "find_item (qi_run_id i) (qi_id i) db = Some i" and "0 \<le> qi_recovery_attempts i"
  shows "\<exists>b db' j. schedule_queue_item_auto_recovery W (qi_run_id i) i m db = (Inr b, db') \<and> schema_ok db' \<and>
    find_item (qi_run_id i) (qi_id i) db' = Some j \<and>
    (b \<longrightarrow> qi_recovery_attempts i < qi_recovery_attempts j \<and> qi_recovery_attempts j \<le> auto_recovery_attempts \<and>
       qi_status j = ItemPending \<and> qi_agent_id j = None \<and> qi_attempts j = qi_attempts i \<and>
       (\<forall>x. find_run (qi_run_id i) db = Some x \<longrightarrow>
          (\<exists>y. find_run (qi_run_id i) db' = Some y \<and> qr_status y = RunRunning))) \<and>
    (\<not> b \<longrightarrow> j = i) \<and>
    (auto_recovery_attempts \<le> qi_recovery_attempts i \<longrightarrow> \<not> b)"
proof -
  let ?g = "\<lambda>n i. i\<lparr>qi_status := ItemPending, qi_message := ''auto-recovery scheduled after failed task: '' @ m,
         qi_agent_id := None, qi_recovery_attempts := n, qi_next_attempt_at := None, qi_updated_at := qw_now W\<rparr>"
  let ?h = "mark_run W RunRunning (qi_position i) (''auto-recovery scheduled after failed task: '' @ m)"
  obtain n b db' where run: "schedule_queue_item_auto_recovery W (qi_run_id i) i m db = (Inr b, db')"
    and n: "queue_item_semantic_iteration i \<le> n" "b = (n < 3)"
    and t: "touches (qi_run_id i) (qi_id i) (if b then ?g n else id) (if b then ?h else id) db db'"
    using run_auto_recovery [OF assms(1,2)] by blast
  have item: "find_item (qi_run_id i) (qi_id i) db' = Some ((if b then ?g n else id) i)"
    using touches_item [OF t assms(2)] .
  have small: "queue_item_semantic_iteration i = qi_recovery_attempts i + 1" if b
    using that n assms(3) by (intro semantic_iteration_pos) auto
  have "find_run (qi_run_id i) db' = Some (?h x)" if b "find_run (qi_run_id i) db = Some x" for x
    using touches_run [OF t that(2)] that(1) by simp
  moreover have "qr_status (?h x) = RunRunning" for x by (simp add: mark_run_def)
  ultimately show ?thesis
    using run item n small touches_schema [OF t]
    by (intro exI [of _ b] exI [of _ db'] exI [of _ "(if b then ?g n else id) i"])
       (auto simp: auto_recovery_attempts_def semantic_iterations_per_item_def)
qed

theorem semantic_recovery_budget_witness:
  "\<exists>b db' j. schedule_queue_item_auto_recovery sample_world ''r1'' (sample_item ''a'' 0) ''boom'' sample_db = (Inr b, db') \<and>
     find_item ''r1'' ''a'' db' = Some j \<and> (b \<longrightarrow> qi_recovery_attempts j \<le> 2)"
proof -
  have keys: "qi_run_id (sample_item ''a'' 0) = ''r1''" "qi_id (sample_item ''a'' 0) = ''a''"
      "0 \<le> qi_recovery_attempts (sample_item ''a'' 0)"
    by (simp_all add: sample_item_def)
  show ?thesis
    using semantic_recovery_budget [OF sample_db_ok _ keys(3), of sample_world "''boom''"] sample_db_find(1)
    unfolding keys auto_recovery_attempts_def semantic_iterations_per_item_def by auto
qed

section \<open>Launch retries run out\<close>

lemma run_fail_item_and_run:
  assumes "schema_ok db"
  shows "\<exists>db'. fail_item_and_run W r i m n db = (Inr (OutFailed m False), db') \<and>
    touches r (qi_id i) (set_item W ItemFailed m (qi_agent_id i) n None) (mark_run W RunFailed (qi_position i) m) db db'"
proof -
  obtain d where d: "update_web_queue_item (qw_store W) r (qi_id i) ItemFailed m (qi_agent_id i) n None db = (Inr (), d)"
      "touches r (qi_id i) (set_item W ItemFailed m (qi_agent_id i) n None) id db d"
    using run_update_item_touches [OF assms, of W r "qi_id i" ItemFailed m "qi_agent_id i" n None] by auto
  obtain d' where d': "update_web_queue_run (qw_store W) r RunFailed (qi_position i) m d = (Inr (), d')"
      "touches r (qi_id i) id (mark_run W RunFailed (qi_position i) m) d d'"
    using run_mark_run_touches [OF touches_schema [OF d(2)]] by blast
  show ?thesis
    using d(1) d'(1) touches_trans [OF d(2) d'(2)] by (auto simp: fail_item_and_run_def run_bnd)
qed

lemma run_bounded_relaunch:
  assumes "schema_ok db"
  shows "\<exists>out db' g h. bounded_queue_item_relaunch W r i m n db = (Inr out, db') \<and>
    touches r (qi_id i) g h db db' \<and>
    (if (queue_item_remote_native i \<and> nonblank (qi_remote_launcher i) = None) \<or> n < 0 \<or> 3 \<le> n
     then \<exists>msg. out = OutFailed msg False \<and> g = set_item W ItemFailed msg (qi_agent_id i) n None \<and>
            h = mark_run W RunFailed (qi_position i) msg
     else out = OutRecoveryScheduled \<and> h = mark_run W RunRunning (qi_position i) m \<and>
       g = (\<lambda>i. i\<lparr>qi_status := ItemWaiting, qi_message := m, qi_agent_id := None, qi_attempts := n + 1,
          qi_next_attempt_at := Some (sat_add_u64 (qw_now W) (web_queue_retry_delays ! nat n)),
          qi_updated_at := qw_now W\<rparr>))"
proof -
  let ?lost = "queue_item_remote_native i \<and> nonblank (qi_remote_launcher i) = None"
  have idx: "retry_index n < length web_queue_retry_delays \<longleftrightarrow> 0 \<le> n \<and> n < 3"
    by (auto simp: retry_index_def web_queue_retry_delays_def u64_max_def)
  show ?thesis
  proof (cases "?lost \<or> n < 0 \<or> 3 \<le> n")
    case True
    have "\<exists>msg. bounded_queue_item_relaunch W r i m n = fail_item_and_run W r i msg n"
    proof (cases ?lost)
      case True
      then show ?thesis unfolding bounded_queue_item_relaunch_def by (subst if_P) (assumption, rule exI, rule refl)
    next
      case False
      with True idx have late: "\<not> retry_index n < length web_queue_retry_delays" by auto
      show ?thesis
        unfolding bounded_queue_item_relaunch_def if_not_P [OF False] if_not_P [OF late] by (rule exI, rule refl)
    qed
    then obtain msg where "bounded_queue_item_relaunch W r i m n = fail_item_and_run W r i msg n" by blast
    moreover obtain d where "fail_item_and_run W r i msg n db = (Inr (OutFailed msg False), d)"
        "touches r (qi_id i) (set_item W ItemFailed msg (qi_agent_id i) n None)
           (mark_run W RunFailed (qi_position i) msg) db d"
      using run_fail_item_and_run [OF assms] by blast
    ultimately show ?thesis
      unfolding if_P [OF True]
      by (intro exI [of _ "OutFailed msg False"] exI [of _ d]
          exI [of _ "set_item W ItemFailed msg (qi_agent_id i) n None"]
          exI [of _ "mark_run W RunFailed (qi_position i) msg"]) simp
  next
    case False
    let ?nx = "sat_add_u64 (qw_now W) (web_queue_retry_delays ! retry_index n)"
    obtain d where d: "schedule_web_queue_item_relaunch (qw_store W) r (qi_id i) m (sat_add_i64 n 1) ?nx db = (Inr (), d)"
        "touches r (qi_id i) (\<lambda>i. i\<lparr>qi_status := ItemWaiting, qi_message := m, qi_agent_id := None,
          qi_attempts := sat_add_i64 n 1, qi_next_attempt_at := Some ?nx, qi_updated_at := qw_now W\<rparr>) id db d"
      using run_relaunch_touches(1) [OF assms] by blast
    obtain d' where d': "update_web_queue_run (qw_store W) r RunRunning (qi_position i) m d = (Inr (), d')"
        "touches r (qi_id i) id (mark_run W RunRunning (qi_position i) m) d d'"
      using run_mark_run_touches [OF touches_schema [OF d(2)]] by blast
    have n: "retry_index n = nat n" "sat_add_i64 n 1 = n + 1"
      using False by (auto simp: retry_index_def sat_add_i64_def i64_max_def i64_min_def)
    have have_host: "\<not> ?lost" and due: "retry_index n < length web_queue_retry_delays"
      using False idx by auto
    have "bounded_queue_item_relaunch W r i m n db = (Inr OutRecoveryScheduled, d')"
      unfolding bounded_queue_item_relaunch_def if_not_P [OF have_host] if_P [OF due]
      using d(1) d'(1) by (simp add: run_bnd Let_def)
    with False show ?thesis
      using touches_trans [OF d(2) d'(2)] unfolding n
      by (intro exI [of _ OutRecoveryScheduled] exI [of _ d'] exI) auto
  qed
qed

text \<open>
  C30. A launch is retried at most three times, after one, five and ten minutes. With a count of
  retries below three and a host to launch on, the item waits for the next retry without an agent,
  its count is one higher and its run goes on; otherwise item and run fail for good and no retry
  time is left. The semantic iteration is never touched.
\<close>

theorem bounded_relaunch_runs_out:
  assumes "schema_ok db" and "find_item r (qi_id i) db = Some row" and "find_run r db = Some run"
  shows "\<exists>out db' j x. bounded_queue_item_relaunch W r i m n db = (Inr out, db') \<and> schema_ok db' \<and>
    find_item r (qi_id i) db' = Some j \<and> find_run r db' = Some x \<and>
    qi_recovery_attempts j = qi_recovery_attempts row \<and>
    (if 0 \<le> n \<and> n < 3 \<and> \<not> (queue_item_remote_native i \<and> nonblank (qi_remote_launcher i) = None)
     then out = OutRecoveryScheduled \<and> qi_status j = ItemWaiting \<and> qi_attempts j = n + 1 \<and> qi_agent_id j = None \<and>
       qi_next_attempt_at j = Some (sat_add_u64 (qw_now W) ([60, 300, 600] ! nat n)) \<and> qr_status x = RunRunning
     else (\<exists>msg. out = OutFailed msg False \<and> qi_message j = msg) \<and> qi_status j = ItemFailed \<and>
       qi_next_attempt_at j = None \<and> qi_attempts j = n \<and> qr_status x = RunFailed)"
proof -
  obtain out db' g h where run: "bounded_queue_item_relaunch W r i m n db = (Inr out, db')"
    and t: "touches r (qi_id i) g h db db'"
    and gh: "if (queue_item_remote_native i \<and> nonblank (qi_remote_launcher i) = None) \<or> n < 0 \<or> 3 \<le> n
     then \<exists>msg. out = OutFailed msg False \<and> g = set_item W ItemFailed msg (qi_agent_id i) n None \<and>
            h = mark_run W RunFailed (qi_position i) msg
     else out = OutRecoveryScheduled \<and> h = mark_run W RunRunning (qi_position i) m \<and>
       g = (\<lambda>i. i\<lparr>qi_status := ItemWaiting, qi_message := m, qi_agent_id := None, qi_attempts := n + 1,
          qi_next_attempt_at := Some (sat_add_u64 (qw_now W) (web_queue_retry_delays ! nat n)),
          qi_updated_at := qw_now W\<rparr>)"
    using run_bounded_relaunch [OF assms(1)] by blast
  show ?thesis
  proof (cases "(queue_item_remote_native i \<and> nonblank (qi_remote_launcher i) = None) \<or> n < 0 \<or> 3 \<le> n")
    case True
    with gh obtain msg where o: "out = OutFailed msg False"
      and g: "g = set_item W ItemFailed msg (qi_agent_id i) n None" "h = mark_run W RunFailed (qi_position i) msg"
      by auto
    have neg: "\<not> (0 \<le> n \<and> n < 3 \<and> \<not> (queue_item_remote_native i \<and> nonblank (qi_remote_launcher i) = None))"
      using True by auto
    show ?thesis
      unfolding if_not_P [OF neg]
      using run touches_schema [OF t] touches_item [OF t assms(2)] touches_run [OF t assms(3)]
      by (intro exI [of _ out] exI [of _ db'] exI [of _ "g row"] exI [of _ "h run"]) (simp add: o g mark_run_def)
  next
    case False
    then have pos: "0 \<le> n \<and> n < 3 \<and> \<not> (queue_item_remote_native i \<and> nonblank (qi_remote_launcher i) = None)"
      by auto
    from False gh have gh: "out = OutRecoveryScheduled" "h = mark_run W RunRunning (qi_position i) m"
        "g = (\<lambda>i. i\<lparr>qi_status := ItemWaiting, qi_message := m, qi_agent_id := None, qi_attempts := n + 1,
          qi_next_attempt_at := Some (sat_add_u64 (qw_now W) (web_queue_retry_delays ! nat n)),
          qi_updated_at := qw_now W\<rparr>)"
      by (simp_all only: if_False)
    show ?thesis
      unfolding if_P [OF pos]
      using run touches_schema [OF t] touches_item [OF t assms(2)] touches_run [OF t assms(3)]
      by (intro exI [of _ out] exI [of _ db'] exI [of _ "g row"] exI [of _ "h run"])
         (simp add: gh mark_run_def web_queue_retry_delays_def)
  qed
qed

theorem bounded_relaunch_runs_out_witness:
  "\<exists>out db' j. bounded_queue_item_relaunch sample_world ''r1'' (sample_item ''a'' 0) ''gone'' 1 sample_db = (Inr out, db') \<and>
     out = OutRecoveryScheduled \<and> find_item ''r1'' ''a'' db' = Some j \<and> qi_next_attempt_at j = Some 350"
proof -
  have a: "qi_id (sample_item ''a'' 0) = ''a''" "\<not> queue_item_remote_native (sample_item ''a'' 0)"
    by (simp_all add: sample_item_def)
  have "qw_now sample_world = 50" by (simp add: sample_world_def sample_env_def)
  then have "sat_add_u64 (qw_now sample_world) ([60, 300, 600] ! nat 1) = 350"
    by (simp add: sat_add_u64_def u64_max_def)
  with bounded_relaunch_runs_out [OF sample_db_ok _ sample_db_find(3), of "sample_item ''a'' 0" _ sample_world "''gone''" 1]
    sample_db_find(1) a
  show ?thesis by (simp only: a) force
qed

section \<open>What a reduction does to its item\<close>

text \<open>
  A run of a program that started on \<open>db\<close> with the row \<open>i\<close>: it panics, or it returns with the row
  changed as \<open>Q\<close> says and nothing else in the queue.
\<close>

definition yields ::
  "qdb \<Rightarrow> queue_item_row \<Rightarrow> ('x \<Rightarrow> queue_item_row \<Rightarrow> bool) \<Rightarrow> (qdb, 'x) prog \<Rightarrow> qdb \<Rightarrow> bool" where
  "yields db i Q m d =
     (case m d of
        (Inl e, d') \<Rightarrow> (\<exists>p. e = Panic p)
      | (Inr x, d') \<Rightarrow> (\<exists>g h. touches (qi_run_id i) (qi_id i) g h db d' \<and> Q x (g i)))"

lemma yields_bnd:
  assumes "yields db i P m d"
    and "\<And>x d' g h. touches (qi_run_id i) (qi_id i) g h db d' \<Longrightarrow> P x (g i) \<Longrightarrow> yields db i Q (k x) d'"
  shows "yields db i Q (bnd m k) d"
proof (cases "m d")
  case (Pair r d')
  show ?thesis
  proof (cases r)
    case (Inl e)
    with Pair assms(1) show ?thesis by (simp add: yields_def run_bnd)
  next
    case (Inr x)
    with Pair assms(1) obtain g h where "touches (qi_run_id i) (qi_id i) g h db d'" "P x (g i)"
      by (auto simp: yields_def)
    then have "yields db i Q (k x) d'" by (rule assms(2))
    with Pair Inr show ?thesis by (simp add: yields_def run_bnd)
  qed
qed

lemma yields_ret: "touches (qi_run_id i) (qi_id i) g h db d \<Longrightarrow> Q x (g i) \<Longrightarrow> yields db i Q (ret x) d"
  by (auto simp: yields_def)

lemma yields_mono: "yields db i P m d \<Longrightarrow> (\<And>x j. P x j \<Longrightarrow> Q x j) \<Longrightarrow> yields db i Q m d"
  unfolding yields_def by (cases "m d"; cases "fst (m d)") auto

lemma yields_at:
  assumes "m d = (Inr x, d')" and "touches (qi_run_id i) (qi_id i) g h db d"
    and "touches (qi_run_id i) (qi_id i) g' h' d d'" and "Q x (g' (g i))"
  shows "yields db i Q m d"
  using touches_trans [OF assms(2,3)] assms(1,4) by (force simp: yields_def)

lemma yields_update_item:
  assumes "touches (qi_run_id i) (qi_id i) g h db d"
  shows "yields db i (\<lambda>_ j. j = set_item W (stored_item_status st) m agent attempts nx (g i))
    (update_web_queue_item (qw_store W) (qi_run_id i) (qi_id i) st m agent attempts nx) d"
proof -
  obtain d' where d': "update_web_queue_item (qw_store W) (qi_run_id i) (qi_id i) st m agent attempts nx d = (Inr (), d')"
      "touches (qi_run_id i) (qi_id i) (set_item W (stored_item_status st) m agent attempts nx) id d d'"
    using run_update_item_touches [OF touches_schema [OF assms]] by blast
  show ?thesis by (rule yields_at, rule d'(1), rule assms, rule d'(2), rule refl)
qed

lemma yields_mark_run:
  fixes W :: queue_world
  assumes "touches (qi_run_id i) (qi_id i) g h db d"
  shows "yields db i (\<lambda>_ j. j = g i) (update_web_queue_run (qw_store W) (qi_run_id i) st p m) d"
proof -
  obtain d' where d': "update_web_queue_run (qw_store W) (qi_run_id i) st p m d = (Inr (), d')"
      "touches (qi_run_id i) (qi_id i) id (mark_run W st p m) d d'"
    using run_mark_run_touches [OF touches_schema [OF assms]] by blast
  show ?thesis by (rule yields_at, rule d'(1), rule assms, rule d'(2), simp)
qed

lemma touches_agents: "schema_ok (db\<lparr>db_agents := rows\<rparr>) \<Longrightarrow> touches r a id id db (db\<lparr>db_agents := rows\<rparr>)"
  by (simp add: touches_def find_item_def find_run_def option.map_id)

lemma run_cleanup_agent:
  assumes "schema_ok d"
  shows "\<exists>m d'. cleanup_queue_agent W a d = (Inr m, d') \<and> touches r b id id d d'"
proof -
  let ?d = "d\<lparr>db_agents := delete_where (\<lambda>r. ag_id r = a) (db_agents d)\<rparr>"
  have ok: "schema_ok ?d" using assms by (simp add: schema_parts distinct_map_delete)
  have run: "delete_agent_record a d = (Inr (0 < count_where (\<lambda>r. ag_id r = a) (db_agents d)), ?d)"
    using ok by (simp add: delete_agent_record_def run_bnd run_sql_exec)
  define can where "can = ((case if agent_running W a then qw_terminate W a else Inr False of Inr _ \<Rightarrow> True | Inl _ \<Rightarrow> False) \<or>
    \<not> qw_still_running W a)"
  show ?thesis
  proof (cases can)
    case True
    then show ?thesis
      using touches_agents [OF ok]
      by (simp add: cleanup_queue_agent_def Let_def can_def [symmetric] run_bnd caught_def run)
  next
    case False
    then show ?thesis
      using touches_refl [OF assms]
      by (simp add: cleanup_queue_agent_def Let_def can_def [symmetric] run_bnd)
  qed
qed

lemma yields_cleanup:
  assumes t: "touches (qi_run_id i) (qi_id i) g h db d"
  shows "yields db i (\<lambda>_ j. j = g i) (cleanup_queue_executor W i' a) d"
proof (cases "queue_item_remote_native i'")
  case False
  obtain m d' where d': "cleanup_queue_agent W a d = (Inr m, d')" "touches (qi_run_id i) (qi_id i) id id d d'"
    using run_cleanup_agent [OF touches_schema [OF t]] by blast
  have "yields db i (\<lambda>_ j. j = g i) (cleanup_queue_agent W a) d"
    by (rule yields_at, rule d'(1), rule t, rule d'(2), simp)
  with False show ?thesis by (simp add: cleanup_queue_executor_def)
next
  case True
  have "(\<exists>m. cleanup_queue_executor W i' a d = (Inr m, d)) \<or> (\<exists>p. cleanup_queue_executor W i' a d = (Inl (Panic p), d))"
    using True
    by (auto simp: cleanup_queue_executor_def run_remote_agent_contract_def run_bnd
        split: sum.split process_result.split option.split)
  then show ?thesis using t unfolding yields_def by (elim disjE exE) (simp_all, blast)
qed

lemma yields_success:
  assumes "touches (qi_run_id i) (qi_id i) g h db d"
  shows "yields db i (\<lambda>_ j. qi_status j = ItemSuccess \<and> qi_next_attempt_at j = None)
    (update_successful_queue_item W (qi_run_id i) i agent n) d"
proof -
  have "yields db i (\<lambda>_ j. True) (case agent of None \<Rightarrow> ret ''closed successfully''
      | Some a \<Rightarrow> bnd (cleanup_queue_executor W i a) (\<lambda>c. ret (''closed successfully; '' @ c))) d"
  proof (cases agent)
    case None
    show ?thesis unfolding None option.case by (rule yields_ret [OF assms]) simp
  next
    case (Some a)
    then show ?thesis
      by (simp only: option.case) (rule yields_bnd [OF yields_cleanup [OF assms]], erule yields_ret, simp)
  qed
  then show ?thesis
    unfolding update_successful_queue_item_def
    by (rule yields_bnd) (rule yields_mono [OF yields_update_item], assumption, simp)
qed

lemma yields_exhausted:
  assumes "touches (qi_run_id i) (qi_id i) g h db d" and "find_item (qi_run_id i) (qi_id i) d = Some i"
  shows "yields db i (\<lambda>_ j. j = g i) (exhausted_queue_item_failure_message W i m) d"
proof -
  obtain n d' where d': "web_queue_item_semantic_iterations_started (qw_store W) i d = (Inr n, d')"
      "touches (qi_run_id i) (qi_id i) id id d d'"
    using run_iterations_touches [OF touches_schema [OF assms(1)] assms(2)] by blast
  show ?thesis
    unfolding exhausted_queue_item_failure_message_def
  proof (rule yields_bnd)
    show "yields db i (\<lambda>_ j. j = g i) (web_queue_item_semantic_iterations_started (qw_store W) i) d"
      by (rule yields_at, rule d'(1), rule assms(1), rule d'(2), simp)
  qed (auto intro: yields_ret)
qed

lemma yields_auto_recovery:
  assumes "touches (qi_run_id i) (qi_id i) g h db d" and "find_item (qi_run_id i) (qi_id i) d = Some i"
  shows "yields db i (\<lambda>b j. if b then qi_status j = ItemPending \<and> qi_agent_id j = None \<and>
       queue_item_semantic_iteration i \<le> qi_recovery_attempts j else j = g i)
    (schedule_queue_item_auto_recovery W (qi_run_id i) i m) d"
proof -
  obtain n b d' where d': "schedule_queue_item_auto_recovery W (qi_run_id i) i m d = (Inr b, d')"
      "queue_item_semantic_iteration i \<le> n" and t: "touches (qi_run_id i) (qi_id i)
      (if b then (\<lambda>i. i\<lparr>qi_status := ItemPending, qi_message := ''auto-recovery scheduled after failed task: '' @ m,
         qi_agent_id := None, qi_recovery_attempts := n, qi_next_attempt_at := None, qi_updated_at := qw_now W\<rparr>)
       else id)
      (if b then mark_run W RunRunning (qi_position i) (''auto-recovery scheduled after failed task: '' @ m) else id)
      d d'"
    using run_auto_recovery [OF touches_schema [OF assms(1)] assms(2)] by blast
  show ?thesis by (rule yields_at, rule d'(1), rule assms(1), rule t) (use d'(2) in auto)
qed

lemma yields_write_then:
  assumes "touches (qi_run_id i) (qi_id i) g h db d"
    and "\<And>d' g h. touches (qi_run_id i) (qi_id i) g h db d' \<Longrightarrow>
       g i = set_item W (stored_item_status st) m agent attempts nx (g0 i) \<Longrightarrow> yields db i Q k d'"
    and "g i = g0 i"
  shows "yields db i Q (seq (update_web_queue_item (qw_store W) (qi_run_id i) (qi_id i) st m agent attempts nx) k) d"
  by (rule yields_bnd [OF yields_update_item [OF assms(1)]]) (use assms(2,3) in auto)

lemma yields_mark_then:
  fixes W :: queue_world
  assumes "touches (qi_run_id i) (qi_id i) g h db d"
    and "\<And>d' g' h. touches (qi_run_id i) (qi_id i) g' h db d' \<Longrightarrow> g' i = g i \<Longrightarrow> yields db i Q k d'"
  shows "yields db i Q (seq (update_web_queue_run (qw_store W) (qi_run_id i) st p m) k) d"
  by (rule yields_bnd [OF yields_mark_run [OF assms(1)]]) (use assms(2) in auto)

text \<open>The row an action leaves, in terms of the row it found.\<close>

definition action_effect ::
  "queue_allowed_action \<Rightarrow> queue_status_evidence \<Rightarrow> queue_item_row \<Rightarrow> run_verdict \<Rightarrow> bool \<Rightarrow> bool \<Rightarrow> run_verdict \<Rightarrow>
   queue_item_row \<Rightarrow> bool" where
  "action_effect act e i verdict handled changed' verdict' j =
     ((\<not> changed' \<longrightarrow> j = i) \<and>
      (case act of
         ActMarkSuccess \<Rightarrow> handled \<and> qi_status j = ItemSuccess \<and> verdict' = verdict
       | ActMarkPaused \<Rightarrow> handled \<and> qi_status j = ItemPaused \<and> verdict' \<noteq> None
       | ActMarkRunning \<Rightarrow> handled \<and> qi_status j = ItemRunning \<and> verdict' = verdict
       | ActRelaunchRemoteDisconnectedOpenRecord \<Rightarrow>
           handled \<and> qi_status j = ItemPending \<and> qi_agent_id j = None \<and> qi_attempts j = qi_attempts i \<and> verdict' = verdict
       | ActRecoverExecution \<Rightarrow> handled \<and>
           (if ev_recovery_live_agent_id e \<noteq> None then qi_status j = ItemRunning \<and> verdict' = verdict
            else if ev_recovery_waiting e then j = i \<and> verdict' = verdict
            else (qi_status j = ItemPending \<and> queue_item_semantic_iteration i \<le> qi_recovery_attempts j \<and> verdict' = verdict) \<or>
                 (qi_status j = ItemFailed \<and> verdict' \<noteq> None))
       | ActMarkFailed \<Rightarrow> handled \<and>
           (if qi_status i = ItemSuccess then j = i \<and> verdict' = verdict else qi_status j = ItemFailed \<and> verdict' \<noteq> None)
       | _ \<Rightarrow> j = i \<and> verdict' = verdict))"

lemma or_insert_not_None [simp]: "or_insert v x \<noteq> None"
  by (simp add: or_insert_def split: option.split)

lemma or_insert_ex [simp]: "\<exists>a b c. or_insert v x = Some (a, b, c)"
  by (cases v; cases x) (auto simp: or_insert_def)

lemma yields_mark_success:
  assumes "schema_ok db"
  shows "yields db i (\<lambda>c j. qi_status j = ItemSuccess \<and> (\<not> c \<longrightarrow> j = i)) (mark_queue_status_success W (qi_run_id i) i changed) db"
proof (cases "qi_status i \<noteq> ItemSuccess \<or> agent_still_running W i")
  case True
  show ?thesis
    unfolding mark_queue_status_success_def if_P [OF True]
    by (rule yields_bnd [OF yields_success [OF touches_refl [OF assms]]]) (erule yields_ret, simp)
next
  case False
  show ?thesis
    unfolding mark_queue_status_success_def if_not_P [OF False]
    by (rule yields_ret [OF touches_refl [OF assms]]) (use False in simp)
qed

lemma yields_mark_paused:
  assumes "schema_ok db"
  shows "yields db i (\<lambda>(c, v) j. qi_status j = ItemPaused \<and> v \<noteq> None \<and> (\<not> c \<longrightarrow> j = i))
    (mark_queue_status_paused W (qi_run_id i) i status changed verdict) db"
proof -
  have "yields db i (\<lambda>c j. qi_status j = ItemPaused \<and> (\<not> c \<longrightarrow> j = i))
      (if qi_status i \<noteq> ItemPaused
       then seq (update_web_queue_item (qw_store W) (qi_run_id i) (qi_id i) ItemPaused status (qi_agent_id i)
                   (qi_attempts i) None) (ret True)
       else ret changed) db"
  proof (cases "qi_status i \<noteq> ItemPaused")
    case True
    show ?thesis
      unfolding if_P [OF True]
      by (rule yields_bnd [OF yields_update_item [OF touches_refl [OF assms]]]) (erule yields_ret, simp)
  next
    case False
    show ?thesis
      unfolding if_not_P [OF False] by (rule yields_ret [OF touches_refl [OF assms]]) (use False in simp)
  qed
  then show ?thesis
    unfolding mark_queue_status_paused_def by (rule yields_bnd) (erule yields_ret, simp)
qed

text \<open>Marking an item as running under an agent and a message, unless it says so already.\<close>

lemma yields_show_running:
  fixes W :: queue_world
  assumes "schema_ok db"
  shows "yields db i (\<lambda>c j. qi_status j = ItemRunning \<and> (\<not> c \<longrightarrow> j = i))
    (if qi_status i \<noteq> ItemRunning \<or> qi_message i \<noteq> message \<or> qi_agent_id i \<noteq> agent_id
     then seq (update_web_queue_item (qw_store W) (qi_run_id i) (qi_id i) ItemRunning message agent_id
                 (qi_attempts i) None) (ret True)
     else ret changed) db"
proof (cases "qi_status i \<noteq> ItemRunning \<or> qi_message i \<noteq> message \<or> qi_agent_id i \<noteq> agent_id")
  case True
  show ?thesis
    unfolding if_P [OF True]
    by (rule yields_bnd [OF yields_update_item [OF touches_refl [OF assms]]]) (erule yields_ret, simp)
next
  case False
  show ?thesis
    unfolding if_not_P [OF False] by (rule yields_ret [OF touches_refl [OF assms]]) (use False in simp)
qed

lemma yields_mark_running:
  assumes "schema_ok db"
  shows "yields db i (\<lambda>c j. qi_status j = ItemRunning \<and> (\<not> c \<longrightarrow> j = i))
    (mark_queue_status_running W (qi_run_id i) i e changed) db"
  unfolding mark_queue_status_running_def Let_def
  by (rule yields_bnd [OF yields_show_running [OF assms]], rule yields_mark_then, assumption)
     (erule yields_ret, simp)

lemma yields_mark_failed:
  assumes "schema_ok db" and "find_item (qi_run_id i) (qi_id i) db = Some i"
  shows "yields db i (\<lambda>(c, v) j. (\<not> c \<longrightarrow> j = i) \<and>
      (if qi_status i = ItemSuccess then j = i \<and> v = verdict else qi_status j = ItemFailed \<and> v \<noteq> None))
    (mark_queue_status_failed W (qi_run_id i) i status changed verdict) db"
proof (cases "qi_status i = ItemSuccess")
  case True
  show ?thesis
    unfolding mark_queue_status_failed_def if_P [OF True]
    by (rule yields_ret [OF touches_refl [OF assms(1)]]) (use True in simp)
next
  case False
  have "yields db i (\<lambda>_ j. j = i) (if queue_status_auto_recoverable status then exhausted_queue_item_failure_message W i status
      else ret status) db"
  proof (cases "queue_status_auto_recoverable status")
    case True
    show ?thesis
      unfolding if_P [OF True]
      by (rule yields_mono [OF yields_exhausted [OF touches_refl [OF assms(1)] assms(2)]]) simp
  next
    case False
    show ?thesis unfolding if_not_P [OF False] by (rule yields_ret [OF touches_refl [OF assms(1)]]) simp
  qed
  then show ?thesis
    unfolding mark_queue_status_failed_def if_not_P [OF False]
    by (rule yields_bnd) (rule yields_bnd [OF yields_update_item], assumption, erule yields_ret, simp add: False)
qed

lemma yields_recover:
  assumes "schema_ok db" and "find_item (qi_run_id i) (qi_id i) db = Some i"
  shows "yields db i (\<lambda>(c, v) j. (\<not> c \<longrightarrow> j = i) \<and>
      (if ev_recovery_live_agent_id e \<noteq> None then qi_status j = ItemRunning \<and> v = verdict
       else if ev_recovery_waiting e then j = i \<and> v = verdict
       else (qi_status j = ItemPending \<and> queue_item_semantic_iteration i \<le> qi_recovery_attempts j \<and> v = verdict) \<or>
            (qi_status j = ItemFailed \<and> v \<noteq> None)))
    (recover_queue_status_execution W (qi_run_id i) i status e changed verdict) db"
proof (cases "ev_recovery_live_agent_id e")
  case (Some a)
  show ?thesis
    unfolding recover_queue_status_execution_def Some option.case Let_def
    by (rule yields_bnd [OF yields_show_running [OF assms(1)]], rule yields_mark_then, assumption)
       (erule yields_ret, simp)
next
  case None
  show ?thesis
  proof (cases "ev_recovery_waiting e")
    case True
    show ?thesis
      unfolding recover_queue_status_execution_def None option.case if_P [OF True]
      by (rule yields_ret [OF touches_refl [OF assms(1)]]) simp
  next
    case False
    let ?m = "queue_status_recovery_failure_message status e"
    have tail: "yields db i (\<lambda>(c, v) j. c \<and> qi_status j = ItemFailed \<and> v \<noteq> None)
        (bnd (exhausted_queue_item_failure_message W i ?m) (\<lambda>message.
           seq (update_web_queue_item (qw_store W) (qi_run_id i) (qi_id i) ItemFailed message (qi_agent_id i)
                  (qi_attempts i) None)
             (ret (True, or_insert verdict (RunFailed, qi_position i, message))))) d"
      if "touches (qi_run_id i) (qi_id i) g h db d" "g i = i" for g h d
    proof -
      have "find_item (qi_run_id i) (qi_id i) d = Some i" using touches_item [OF that(1) assms(2)] that(2) by simp
      from yields_exhausted [OF that(1) this] show ?thesis
        by (rule yields_bnd) (rule yields_bnd [OF yields_update_item], assumption, erule yields_ret, simp)
    qed
    show ?thesis
      unfolding recover_queue_status_execution_def None option.case if_not_P [OF False] Let_def
    proof (rule yields_bnd [OF yields_auto_recovery [OF touches_refl [OF assms(1)] assms(2)]], goal_cases)
      case (1 b d g h)
      show ?case
      proof (cases b)
        case True
        with 1 show ?thesis by (simp only: if_True) (rule yields_ret, assumption, simp)
      next
        case nb: False
        with 1 have "g i = i" by simp
        from tail [OF 1(1) this] show ?thesis
          unfolding if_not_P [OF nb] by (rule yields_mono) auto
      qed
    qed
  qed
qed



end
