(* ===== verification/Task_Env.thy ===== *)
theory Task_Env
  imports Qcold_Prelude
begin

text \<open>
  The file \<open>.task/task.env\<close> of a task worktree: how the build helper writes and reads it
  (\<open>src/xtask/src/task/env_io.rs\<close>), and how the daemon reads it (\<open>parse_task_env_content\<close> of
  \<open>src/src/app/task_flow_sync.rs\<close>, \<open>task_env_value\<close> of \<open>src/src/webapp/queue_worker_taskflow.rs\<close>,
  \<open>primary_repo_path\<close> of \<open>src/src/repository.rs\<close>); and the quoting of agent command lines.
\<close>

section \<open>Text search\<close>

text \<open>The text before and after the first occurrence of a pattern.\<close>

fun split_once_str :: "string \<Rightarrow> string \<Rightarrow> (string \<times> string) option" where
  "split_once_str pat [] = (if pat = [] then Some ([], []) else None)"
| "split_once_str pat (c # cs) =
     (case strip_prefix pat (c # cs) of
        Some rest \<Rightarrow> Some ([], rest)
      | None \<Rightarrow> map_option (\<lambda>(a, b). (c # a, b)) (split_once_str pat cs))"

lemma split_once_str_Some: "split_once_str pat s = Some (a, b) \<Longrightarrow> s = a @ pat @ b"
  by (induction pat s arbitrary: a rule: split_once_str.induct)
     (auto simp: strip_prefix_iff split: if_splits option.splits)

text \<open>\<open>str::split\<close> and \<open>str::replace\<close> for a pattern that is not empty.\<close>

function split_str :: "string \<Rightarrow> string \<Rightarrow> string list" where
  "split_str pat s =
     (case split_once_str pat s of
        None \<Rightarrow> [s]
      | Some (a, b) \<Rightarrow> if pat = [] then [s] else a # split_str pat b)"
  by pat_completeness auto
termination
  by (relation "measure (\<lambda>(pat, s). length s)") (auto dest: split_once_str_Some)

declare split_str.simps [simp del]

definition str_replace :: "string \<Rightarrow> string \<Rightarrow> string \<Rightarrow> string" where
  "str_replace old new s = join_with new (split_str old s)"

definition ends_with :: "string \<Rightarrow> string \<Rightarrow> bool" where
  "ends_with suffix s = starts_with (rev suffix) (rev s)"

definition inner_text :: "nat \<Rightarrow> string \<Rightarrow> string" where
  "inner_text n s = butlast (drop n s)"

section \<open>Quoting\<close>

definition quote_char :: char where
  "quote_char = CHR 0x27"

text \<open>Close the quotes, an escaped quote, open them again.\<close>

definition quoted_quote :: string where
  "quoted_quote = [CHR 0x27, CHR 0x5C, CHR 0x27, CHR 0x27]"

definition single_quoted :: "string \<Rightarrow> string" where
  "single_quoted v = quote_char # str_replace [quote_char] quoted_quote v @ [quote_char]"

definition env_safe_char :: "char \<Rightarrow> bool" where
  "env_safe_char c = (is_ascii_alphanumeric c \<or> c \<in> set ''-_./:'')"

fun ansi_c_escape :: "string \<Rightarrow> string" where
  "ansi_c_escape [] = []"
| "ansi_c_escape (c # cs) =
     (if c = CHR 0x5C then [CHR 0x5C, CHR 0x5C]
      else if c = CHR 0x27 then [CHR 0x5C, CHR 0x27]
      else if c = CHR 0x0A then [CHR 0x5C, CHR ''n'']
      else if c = CHR 0x0D then [CHR 0x5C, CHR ''r'']
      else if c = CHR 0x09 then [CHR 0x5C, CHR ''t'']
      else [c]) @ ansi_c_escape cs"

fun ansi_c_unescape :: "string \<Rightarrow> string" where
  "ansi_c_unescape [] = []"
| "ansi_c_unescape [c] = [c]"
| "ansi_c_unescape (c # d # rest) =
     (if c \<noteq> CHR 0x5C then c # ansi_c_unescape (d # rest)
      else (if d = CHR 0x5C then [CHR 0x5C]
            else if d = CHR 0x27 then [CHR 0x27]
            else if d = CHR ''n'' then [CHR 0x0A]
            else if d = CHR ''r'' then [CHR 0x0D]
            else if d = CHR ''t'' then [CHR 0x09]
            else [CHR 0x5C, d]) @ ansi_c_unescape rest)"

definition has_line_break :: "string \<Rightarrow> bool" where
  "has_line_break v = list_ex (\<lambda>c. c = CHR 0x0A \<or> c = CHR 0x0D) v"

definition shell_quote :: "string \<Rightarrow> string" where
  "shell_quote v =
     (if has_line_break v then CHR ''$'' # quote_char # ansi_c_escape v @ [quote_char]
      else if list_all env_safe_char v then v
      else single_quoted v)"

definition unquote :: "string \<Rightarrow> string" where
  "unquote raw =
     (let v = trim raw
      in if length v \<ge> 3 \<and> starts_with [CHR ''$'', quote_char] v \<and> ends_with [quote_char] v
         then ansi_c_unescape (inner_text 2 v)
         else if length v \<ge> 2 \<and> starts_with [quote_char] v \<and> ends_with [quote_char] v
         then str_replace quoted_quote [quote_char] (inner_text 1 v)
         else v)"

text \<open>The reader of the daemon knows single quotes only; \<open>unquote_env_value\<close> is the same function.\<close>

definition shell_env_value :: "string \<Rightarrow> string" where
  "shell_env_value raw =
     (if starts_with [quote_char] raw \<and> ends_with [quote_char] raw \<and> length raw \<ge> 2
      then str_replace quoted_quote [quote_char] (inner_text 1 raw)
      else raw)"

definition command_safe_char :: "char \<Rightarrow> bool" where
  "command_safe_char c = (is_ascii_alphanumeric c \<or> c \<in> set ''_-./:='')"

definition queue_shell_quote :: "string \<Rightarrow> string" where
  "queue_shell_quote v =
     (if v = [] then [quote_char, quote_char]
      else if list_all command_safe_char v then v
      else single_quoted v)"

section \<open>The round trip of a value\<close>

text \<open>Splitting at one character.\<close>

lemma split_str_char: "split_str [q] s = split_when (\<lambda>c. c = q) s"
proof (induction s)
  case Nil
  show ?case by (subst split_str.simps) simp
next
  case (Cons c s)
  show ?case
  proof (cases "c = q")
    case True
    then have "split_str [q] (c # s) = [] # split_str [q] s" by (subst split_str.simps) simp
    with True Cons show ?thesis by simp
  next
    case False
    have step: "split_str [q] (c # s) = (case split_str [q] s of [] \<Rightarrow> [[c]] | w # ws \<Rightarrow> (c # w) # ws)"
    proof (cases "split_once_str [q] s")
      case None
      then have "split_str [q] (c # s) = [c # s]" "split_str [q] s = [s]"
        using False by (subst split_str.simps, simp)+
      then show ?thesis by simp
    next
      case (Some ab)
      then have "split_str [q] (c # s) = (c # fst ab) # split_str [q] (snd ab)" "split_str [q] s = fst ab # split_str [q] (snd ab)"
        using False by (subst split_str.simps, simp add: case_prod_unfold)+
      then show ?thesis by simp
    qed
    with False Cons show ?thesis by simp
  qed
qed

text \<open>Replacing one character replaces it everywhere.\<close>

lemma replace_char: "str_replace [q] new s = concat (map (\<lambda>c. if c = q then new else [c]) s)"
proof (induction s)
  case Nil
  show ?case by (simp add: str_replace_def split_str_char)
next
  case (Cons c s)
  obtain w ws where "split_when (\<lambda>c. c = q) s = w # ws"
    by (cases "split_when (\<lambda>c. c = q) s") auto
  then show ?case using Cons by (cases ws) (auto simp: str_replace_def split_str_char)
qed

text \<open>Reading the escaped quotes back, one character at a time.\<close>

lemma strip_prefix_append [simp]: "strip_prefix p (p @ s) = Some s"
  by (simp add: strip_prefix_iff)

lemma split_str_cut: "pat \<noteq> [] \<Longrightarrow> split_str pat (pat @ s) = [] # split_str pat s"
  by (subst split_str.simps) (cases pat; simp)

lemma replace_Nil [simp]: "pat \<noteq> [] \<Longrightarrow> str_replace pat new [] = []"
  by (simp add: str_replace_def split_str.simps [of pat "[]"])

lemma split_str_keep:
  assumes "pat \<noteq> []" and "strip_prefix pat (c # s) = None"
  shows "split_str pat (c # s) = (c # hd (split_str pat s)) # tl (split_str pat s)"
proof (cases "split_once_str pat s")
  case None
  then have "split_str pat (c # s) = [c # s]" "split_str pat s = [s]"
    using assms by (subst split_str.simps, simp)+
  then show ?thesis by simp
next
  case (Some ab)
  then have "split_str pat (c # s) = (c # fst ab) # split_str pat (snd ab)" "split_str pat s = fst ab # split_str pat (snd ab)"
    using assms by (subst split_str.simps, simp add: case_prod_unfold)+
  then show ?thesis by simp
qed

lemma split_str_Cons: "split_str pat s \<noteq> []"
  by (subst split_str.simps) (auto split: option.split)

lemma replace_cut: "pat \<noteq> [] \<Longrightarrow> str_replace pat new (pat @ s) = new @ str_replace pat new s"
  using split_str_Cons [of pat s]
  by (cases "split_str pat s") (simp_all add: str_replace_def split_str_cut)

lemma replace_keep:
  "pat \<noteq> [] \<Longrightarrow> strip_prefix pat (c # s) = None \<Longrightarrow> str_replace pat new (c # s) = c # str_replace pat new s"
  using split_str_Cons [of pat s]
  by (cases "split_str pat s"; cases "tl (split_str pat s)") (simp_all add: str_replace_def split_str_keep)

lemma quoted_quote_not_Nil [simp]: "quoted_quote \<noteq> []"
  by (simp add: quoted_quote_def)

lemma unquote_quotes: "str_replace quoted_quote [quote_char] (str_replace [quote_char] quoted_quote v) = v"
proof (induction v)
  case Nil
  show ?case by simp
next
  case (Cons c v)
  show ?case
  proof (cases "c = quote_char")
    case True
    then have "str_replace [quote_char] quoted_quote (c # v) = quoted_quote @ str_replace [quote_char] quoted_quote v"
      by (simp add: replace_char)
    with Cons True show ?thesis by (simp only: replace_cut [OF quoted_quote_not_Nil]) simp
  next
    case False
    then have "str_replace [quote_char] quoted_quote (c # v) = c # str_replace [quote_char] quoted_quote v"
      by (simp add: replace_char)
    moreover have "strip_prefix quoted_quote (c # s) = None" for s
      using False by (simp add: quoted_quote_def quote_char_def)
    ultimately show ?thesis using Cons by (simp only: replace_keep [OF quoted_quote_not_Nil])
  qed
qed

lemma inner_single_quoted:
  "inner_text 1 (single_quoted v) = str_replace [quote_char] quoted_quote v"
  by (simp add: inner_text_def single_quoted_def)

lemma starts_with_char: "starts_with [q] s \<longleftrightarrow> s \<noteq> [] \<and> hd s = q"
  by (cases s) (auto simp: starts_with_iff)

lemma ends_with_char: "ends_with [q] s \<longleftrightarrow> s \<noteq> [] \<and> last s = q"
  by (simp add: ends_with_def starts_with_char hd_rev)

lemma single_quoted_shape:
  "starts_with [quote_char] (single_quoted v)" "ends_with [quote_char] (single_quoted v)" "2 \<le> length (single_quoted v)"
  by (simp_all add: single_quoted_def starts_with_char ends_with_char)

lemma shell_env_value_single: "shell_env_value (single_quoted v) = v"
  by (simp add: shell_env_value_def single_quoted_shape inner_single_quoted [unfolded One_nat_def] unquote_quotes)

lemma ansi_c_roundtrip: "ansi_c_unescape (ansi_c_escape v) = v"
proof (induction v rule: ansi_c_escape.induct)
  case (2 c cs)
  have keep: "ansi_c_unescape (c # s) = c # ansi_c_unescape s" if "c \<noteq> CHR 0x5C" for s
    using that by (cases s) simp_all
  show ?case using 2 keep by simp
qed simp

lemma safe_no_quote: "list_all env_safe_char v \<Longrightarrow> v \<noteq> [] \<Longrightarrow> hd v \<noteq> quote_char \<and> hd v \<noteq> CHR ''$''"
  by (cases v) (auto simp: env_safe_char_def quote_char_def is_ascii_alphanumeric_def is_ascii_digit_def)

lemma env_value_roundtrip: "shell_env_value (shell_quote v) = v" if "\<not> has_line_break v"
proof (cases "list_all env_safe_char v")
  case True
  then have "\<not> starts_with [quote_char] v"
    using safe_no_quote [OF True] by (cases v) (auto simp: starts_with_iff)
  with that True show ?thesis by (simp add: shell_quote_def shell_env_value_def)
next
  case False
  with that show ?thesis by (simp add: shell_quote_def shell_env_value_single)
qed

text \<open>What the writer quotes is one line, and it survives the trimming of the reader.\<close>

lemma trim_id: "s \<noteq> [] \<Longrightarrow> \<not> is_whitespace (hd s) \<Longrightarrow> \<not> is_whitespace (last s) \<Longrightarrow> trim s = s"
proof -
  assume s: "s \<noteq> []" "\<not> is_whitespace (hd s)" "\<not> is_whitespace (last s)"
  then have "dropWhile is_whitespace s = s" "dropWhile is_whitespace (rev s) = rev s"
    by (auto simp: dropWhile_eq_self_iff hd_rev)
  then show "trim s = s" by (simp add: trim_def trim_matches_def)
qed

lemma safe_not_whitespace: "env_safe_char c \<Longrightarrow> \<not> is_whitespace c"
  by (auto simp: env_safe_char_def is_whitespace_def is_ascii_alphanumeric_def is_ascii_digit_def Let_def)

lemma quote_not_whitespace [simp]: "\<not> is_whitespace quote_char" "\<not> is_whitespace (CHR ''$'')"
  by (simp_all add: quote_char_def is_whitespace_def)

lemma unquote_shell_quote: "unquote (shell_quote v) = v"
proof -
  consider (ansi) "has_line_break v" | (safe) "\<not> has_line_break v" "list_all env_safe_char v"
    | (single) "\<not> has_line_break v" "\<not> list_all env_safe_char v" by blast
  then show ?thesis
  proof cases
    case ansi
    let ?s = "CHR ''$'' # quote_char # ansi_c_escape v @ [quote_char]"
    have "trim ?s = ?s" by (rule trim_id) simp_all
    moreover have "ansi_c_escape v \<noteq> []" using ansi by (cases v) (auto simp: has_line_break_def)
    then have "3 \<le> length ?s" by (cases "ansi_c_escape v") simp_all
    moreover have "inner_text 2 ?s = ansi_c_escape v" by (simp add: inner_text_def)
    ultimately show ?thesis
      using ansi ansi_c_roundtrip by (simp add: shell_quote_def unquote_def starts_with_iff ends_with_char Let_def)
  next
    case safe
    have "trim v = v"
    proof (cases "v = []")
      case False
      with safe(2) have "env_safe_char (hd v)" "env_safe_char (last v)" by (auto simp: list_all_iff)
      then show ?thesis using safe_not_whitespace by (intro trim_id [OF False]) blast+
    qed simp
    moreover have "\<not> starts_with [CHR ''$'', quote_char] v" "\<not> starts_with [quote_char] v"
      using safe_no_quote [OF safe(2)] by (cases v; auto simp: starts_with_iff)+
    ultimately show ?thesis using safe by (simp add: shell_quote_def unquote_def)
  next
    case single
    have "trim (single_quoted v) = single_quoted v"
      by (rule trim_id) (simp_all add: single_quoted_def)
    moreover have "\<not> starts_with [CHR ''$'', quote_char] (single_quoted v)"
      by (simp add: single_quoted_def starts_with_iff quote_char_def)
    ultimately show ?thesis
      using single single_quoted_shape
      by (simp add: shell_quote_def unquote_def inner_single_quoted [unfolded One_nat_def] unquote_quotes)
  qed
qed

lemma ansi_no_break: "\<not> has_line_break (ansi_c_escape v)"
  by (induction v) (auto simp: has_line_break_def)

lemma replace_no_break:
  assumes "\<not> has_line_break v"
  shows "\<not> has_line_break (str_replace [quote_char] quoted_quote v)"
  using assms unfolding replace_char by (induction v) (auto simp: has_line_break_def quoted_quote_def)

lemma shell_quote_no_break: "\<not> has_line_break (shell_quote v)"
  using ansi_no_break [of v] replace_no_break [of v]
  by (auto simp: shell_quote_def single_quoted_def has_line_break_def quote_char_def)

text \<open>The daemon reads a value back exactly when it has no line break.\<close>

lemma env_value_break: "has_line_break v \<Longrightarrow> shell_env_value (shell_quote v) = shell_quote v"
  by (simp add: shell_quote_def shell_env_value_def starts_with_char quote_char_def)

lemma env_value_iff: "shell_env_value (shell_quote v) = v \<longleftrightarrow> \<not> has_line_break v"
proof (cases "has_line_break v")
  case True
  note raw = env_value_break [OF True]
  have "shell_quote v \<noteq> v" using shell_quote_no_break [of v] True by metis
  with raw True show ?thesis by simp
qed (use env_value_roundtrip in blast)

section \<open>The file\<close>

record task_env =
  te_task_id :: string
  te_task_name :: string
  te_task_sequence :: string
  te_task_branch :: string
  te_task_execution_anchor :: string
  te_task_description :: string
  te_task_worktree :: string
  te_task_profile :: string
  te_primary_repo_path :: string
  te_base_branch :: string
  te_base_head :: string
  te_task_head :: string
  te_started_at :: string
  te_status :: string
  te_updated_at :: string
  te_devcontainer_name :: string
  te_delivery_mode :: string
  te_codex_thread_id :: string
  te_codex_rollout_path :: string
  te_guard_enabled :: string
  te_guard_bin :: string
  te_guard_commands :: string
  te_guard_qcold :: string
  te_guard_real_commands :: "(string \<times> string) list"

definition env_line :: "string \<times> string \<Rightarrow> string" where
  "env_line = (\<lambda>(key, value). key @ ''='' @ shell_quote value)"

definition task_env_fields :: "task_env \<Rightarrow> (string \<times> string) list" where
  "task_env_fields t =
     [(''TASK_ID'', te_task_id t), (''TASK_NAME'', te_task_name t), (''TASK_SEQUENCE'', te_task_sequence t),
      (''TASK_BRANCH'', te_task_branch t), (''TASK_EXECUTION_ANCHOR'', te_task_execution_anchor t),
      (''TASK_DESCRIPTION'', te_task_description t), (''TASK_WORKTREE'', te_task_worktree t),
      (''TASK_PROFILE'', te_task_profile t), (''PRIMARY_REPO_PATH'', te_primary_repo_path t),
      (''BASE_BRANCH'', te_base_branch t), (''BASE_HEAD'', te_base_head t), (''TASK_HEAD'', te_task_head t),
      (''STARTED_AT'', te_started_at t), (''STATUS'', te_status t), (''UPDATED_AT'', te_updated_at t),
      (''DEVCONTAINER_NAME'', te_devcontainer_name t), (''DELIVERY_MODE'', te_delivery_mode t)]"

definition task_env_optional_fields :: "task_env \<Rightarrow> (string \<times> string) list" where
  "task_env_optional_fields t =
     [(''CODEX_THREAD_ID'', te_codex_thread_id t), (''CODEX_ROLLOUT_PATH'', te_codex_rollout_path t),
      (''QCOLD_OUTPUT_GUARD_ENABLED'', te_guard_enabled t), (''QCOLD_OUTPUT_GUARD_BIN'', te_guard_bin t),
      (''QCOLD_OUTPUT_GUARD_COMMANDS'', te_guard_commands t), (''QCOLD_GUARD_QCOLD'', te_guard_qcold t)]"

definition with_value :: "(string \<times> string) list \<Rightarrow> (string \<times> string) list" where
  "with_value kvs = filter (\<lambda>(key, value). value \<noteq> []) kvs"

definition task_env_entries :: "task_env \<Rightarrow> (string \<times> string) list" where
  "task_env_entries t =
     task_env_fields t @ with_value (task_env_optional_fields t) @
     with_value (sort_key fst (te_guard_real_commands t))"

text \<open>\<open>write_task_env\<close>: the text of the file.\<close>

definition task_env_text :: "task_env \<Rightarrow> string" where
  "task_env_text t = concat (map (\<lambda>e. env_line e @ [CHR 0x0A]) (task_env_entries t))"

definition first_with_prefix :: "string \<Rightarrow> string list \<Rightarrow> string option" where
  "first_with_prefix pre lines =
     (case List.map_filter (strip_prefix pre) lines of [] \<Rightarrow> None | raw # _ \<Rightarrow> Some raw)"

definition env_value :: "string \<Rightarrow> string \<Rightarrow> string" where
  "env_value content key =
     (case first_with_prefix (key @ ''='') (str_lines content) of None \<Rightarrow> [] | Some raw \<Rightarrow> unquote raw)"

definition guard_real_prefix :: string where
  "guard_real_prefix = ''QCOLD_GUARD_REAL_''"

definition guard_real_entries :: "string \<Rightarrow> (string \<times> string) list" where
  "guard_real_entries content =
     List.map_filter (\<lambda>line. case split_once CHR ''='' line of
        None \<Rightarrow> None
      | Some (key, raw) \<Rightarrow> if starts_with guard_real_prefix key then Some (key, unquote raw) else None)
       (str_lines content)"

definition parse_task_env :: "string \<Rightarrow> task_env" where
  "parse_task_env content =
     (let value = env_value content in
      \<lparr>te_task_id = value ''TASK_ID'', te_task_name = value ''TASK_NAME'',
       te_task_sequence = value ''TASK_SEQUENCE'', te_task_branch = value ''TASK_BRANCH'',
       te_task_execution_anchor = value ''TASK_EXECUTION_ANCHOR'',
       te_task_description = value ''TASK_DESCRIPTION'', te_task_worktree = value ''TASK_WORKTREE'',
       te_task_profile = value ''TASK_PROFILE'', te_primary_repo_path = value ''PRIMARY_REPO_PATH'',
       te_base_branch = value ''BASE_BRANCH'', te_base_head = value ''BASE_HEAD'',
       te_task_head = value ''TASK_HEAD'', te_started_at = value ''STARTED_AT'',
       te_status = value ''STATUS'', te_updated_at = value ''UPDATED_AT'',
       te_devcontainer_name = value ''DEVCONTAINER_NAME'', te_delivery_mode = value ''DELIVERY_MODE'',
       te_codex_thread_id = value ''CODEX_THREAD_ID'', te_codex_rollout_path = value ''CODEX_ROLLOUT_PATH'',
       te_guard_enabled = value ''QCOLD_OUTPUT_GUARD_ENABLED'', te_guard_bin = value ''QCOLD_OUTPUT_GUARD_BIN'',
       te_guard_commands = value ''QCOLD_OUTPUT_GUARD_COMMANDS'', te_guard_qcold = value ''QCOLD_GUARD_QCOLD'',
       te_guard_real_commands = guard_real_entries content\<rparr>)"

text \<open>The daemon: every entry, the last one of a key counting; and the first value that is not blank.\<close>

definition parse_task_env_content :: "string \<Rightarrow> string \<Rightarrow> string option" where
  "parse_task_env_content content =
     foldl (\<lambda>entries line. case split_once CHR ''='' line of
        None \<Rightarrow> entries
      | Some (key, raw) \<Rightarrow> entries(key \<mapsto> shell_env_value raw)) Map.empty (str_lines content)"

definition task_env_value :: "string \<Rightarrow> string \<Rightarrow> string option" where
  "task_env_value content key =
     (case filter (\<lambda>v. trim v \<noteq> [])
         (map shell_env_value (List.map_filter (strip_prefix (key @ ''='')) (str_lines content))) of
        [] \<Rightarrow> None
      | v # _ \<Rightarrow> Some v)"

section \<open>The round trip of the file\<close>

definition env_key :: "string \<Rightarrow> bool" where
  "env_key k = (CHR ''='' \<notin> set k \<and> \<not> has_line_break k)"

lemma env_line_clean: "env_key k \<Longrightarrow> CHR 0x0A \<notin> set (env_line (k, v)) \<and> strip_cr (env_line (k, v)) = env_line (k, v)"
proof -
  assume "env_key k"
  then have "\<not> has_line_break (env_line (k, v))"
    using shell_quote_no_break [of v] by (auto simp: env_key_def env_line_def has_line_break_def)
  then have "CHR 0x0A \<notin> set (env_line (k, v))" "CHR 0x0D \<notin> set (env_line (k, v))"
    by (auto simp: has_line_break_def list_ex_iff)
  then show ?thesis by (metis last_in_set strip_cr_def)
qed

lemma lines_of_entries:
  "\<forall>(k, v) \<in> set kvs. env_key k \<Longrightarrow> str_lines (concat (map (\<lambda>e. env_line e @ [CHR 0x0A]) kvs)) = map env_line kvs"
proof (induction kvs)
  case (Cons e kvs)
  then show ?case
    using env_line_clean [of "fst e" "snd e"] by (cases e) (auto simp: str_lines_Cons)
qed simp

lemma prefix_of_line:
  assumes "CHR ''='' \<notin> set key" and "CHR ''='' \<notin> set k"
  shows "strip_prefix (key @ ''='') (k @ ''='' @ raw) = (if k = key then Some raw else None)"
  using assms by (induction key k rule: list_induct2') auto

lemma first_of_entries:
  assumes "env_key key" and "\<forall>(k, v) \<in> set kvs. env_key k"
  shows "first_with_prefix (key @ ''='') (map env_line kvs) = map_option shell_quote (map_of kvs key)"
  using assms(2)
proof (induction kvs)
  case (Cons e kvs)
  obtain k v where e: "e = (k, v)" by (cases e)
  have "strip_prefix (key @ ''='') (env_line e) = (if k = key then Some (shell_quote v) else None)"
    using assms(1) Cons.prems prefix_of_line [of key k] by (simp add: e env_line_def env_key_def)
  then show ?case using Cons by (cases "k = key") (simp_all add: e first_with_prefix_def map_filter_def)
qed (simp add: first_with_prefix_def map_filter_def)

lemma map_of_with_value:
  "distinct (map fst kvs) \<Longrightarrow>
   map_of (with_value kvs) k = (case map_of kvs k of None \<Rightarrow> None | Some v \<Rightarrow> if v = [] then None else Some v)"
  by (induction kvs) (auto simp: with_value_def map_of_eq_None_iff image_iff split: option.splits)

lemma env_value_of_entries:
  assumes "env_key key" and "\<forall>(k, v) \<in> set kvs. env_key k"
  shows "env_value (concat (map (\<lambda>e. env_line e @ [CHR 0x0A]) kvs)) key =
    (case map_of kvs key of None \<Rightarrow> [] | Some v \<Rightarrow> v)"
  using first_of_entries [OF assms] lines_of_entries [OF assms(2)]
  by (simp add: env_value_def unquote_shell_quote split: option.split)

text \<open>The names the guard saves are names of environment variables with their prefix.\<close>

definition guard_names_ok :: "task_env \<Rightarrow> bool" where
  "guard_names_ok t =
     (\<forall>(k, v) \<in> set (te_guard_real_commands t). env_key k \<and> starts_with guard_real_prefix k)"

lemma field_keys: "\<forall>(k, v) \<in> set (task_env_fields t @ task_env_optional_fields t).
    env_key k \<and> \<not> starts_with guard_real_prefix k"
  by (simp add: task_env_fields_def task_env_optional_fields_def env_key_def has_line_break_def
      starts_with_def guard_real_prefix_def)

lemma with_value_subset: "set (with_value kvs) \<subseteq> set kvs"
  by (auto simp: with_value_def)

lemma entry_keys: "guard_names_ok t \<Longrightarrow> \<forall>(k, v) \<in> set (task_env_entries t). env_key k"
  using field_keys [of t] with_value_subset by (fastforce simp: task_env_entries_def guard_names_ok_def)

lemma map_of_entries:
  assumes "guard_names_ok t" and "\<not> starts_with guard_real_prefix key" and "map_of (task_env_fields t) key = None"
  shows "map_of (task_env_entries t) key = map_of (with_value (task_env_optional_fields t)) key"
proof -
  have "key \<notin> fst ` set (with_value (sort_key fst (te_guard_real_commands t)))"
    using assms(1,2) with_value_subset by (fastforce simp: guard_names_ok_def)
  then have "map_of (with_value (sort_key fst (te_guard_real_commands t))) key = None"
    by (simp add: map_of_eq_None_iff)
  with assms(3) show ?thesis by (simp add: task_env_entries_def map_add_def split: option.split)
qed

lemma env_value_field:
  assumes "guard_names_ok t" and "map_of (task_env_fields t) key = Some v"
  shows "env_value (task_env_text t) key = v"
proof -
  have "(key, v) \<in> set (task_env_fields t)" using assms(2) by (rule map_of_SomeD)
  then have "env_key key" using field_keys [of t] by fastforce
  moreover have "map_of (task_env_entries t) key = Some v"
    using assms(2) by (simp add: task_env_entries_def map_add_def split: option.split)
  ultimately show ?thesis
    using env_value_of_entries [OF _ entry_keys [OF assms(1)]] by (simp add: task_env_text_def)
qed

lemma env_value_optional:
  assumes "guard_names_ok t" and "map_of (task_env_optional_fields t) key = Some v"
    and "map_of (task_env_fields t) key = None"
  shows "env_value (task_env_text t) key = v"
proof -
  have mem: "(key, v) \<in> set (task_env_optional_fields t)" using assms(2) by (rule map_of_SomeD)
  then have k: "env_key key" "\<not> starts_with guard_real_prefix key" using field_keys [of t] by fastforce+
  have "distinct (map fst (task_env_optional_fields t))" by (simp add: task_env_optional_fields_def)
  from map_of_with_value [OF this, of key] map_of_entries [OF assms(1) k(2) assms(3)] assms(2)
  have "map_of (task_env_entries t) key = (if v = [] then None else Some v)" by simp
  with k(1) show ?thesis
    using env_value_of_entries [OF _ entry_keys [OF assms(1)]] by (simp add: task_env_text_def split: if_splits)
qed

lemma guard_entries_of_lines:
  assumes "\<forall>(k, v) \<in> set kvs. env_key k"
  shows "List.map_filter (\<lambda>line. case split_once CHR ''='' line of
        None \<Rightarrow> None
      | Some (key, raw) \<Rightarrow> if starts_with guard_real_prefix key then Some (key, unquote raw) else None)
       (map env_line kvs) = filter (\<lambda>(k, v). starts_with guard_real_prefix k) kvs"
  using assms
proof (induction kvs)
  case (Cons e kvs)
  obtain k v where e: "e = (k, v)" by (cases e)
  have "split_once CHR ''='' (env_line e) = Some (k, shell_quote v)"
    using Cons.prems split_once_at [of "CHR ''=''" k "shell_quote v"] by (simp add: e env_line_def env_key_def)
  with Cons show ?case by (simp add: e map_filter_def unquote_shell_quote)
qed (simp add: map_filter_def)

lemma guard_entries_text:
  assumes "guard_names_ok t"
  shows "guard_real_entries (task_env_text t) = with_value (sort_key fst (te_guard_real_commands t))"
proof -
  have none: "filter (\<lambda>(k, v). starts_with guard_real_prefix k) (task_env_fields t @ with_value (task_env_optional_fields t)) = []"
    using field_keys [of t] with_value_subset by (fastforce simp: filter_empty_conv)
  have all: "filter (\<lambda>(k, v). starts_with guard_real_prefix k) (with_value (sort_key fst (te_guard_real_commands t))) =
      with_value (sort_key fst (te_guard_real_commands t))"
    using assms with_value_subset by (intro filter_True) (fastforce simp: guard_names_ok_def)
  show ?thesis
    using guard_entries_of_lines [OF entry_keys [OF assms]] lines_of_entries [OF entry_keys [OF assms]] none all
    by (simp add: guard_real_entries_def task_env_text_def task_env_entries_def)
qed

text \<open>
  C20. The task file survives a round trip through the build helper: whatever the values hold,
  quotes, spaces, line breaks and empty texts included, reading the written text gives the same
  record back, with the saved guard commands in the order of their names and without empty ones.
  The names of the saved commands are names of environment variables with the prefix of the guard.
\<close>

theorem task_env_roundtrip:
  assumes "guard_names_ok t"
  shows "parse_task_env (task_env_text t) =
    t\<lparr>te_guard_real_commands := with_value (sort_key fst (te_guard_real_commands t))\<rparr>"
  by (simp add: parse_task_env_def Let_def guard_entries_text [OF assms] task_env_fields_def task_env_optional_fields_def
      env_value_field [OF assms] env_value_optional [OF assms])

definition sample_task_env :: task_env where
  "sample_task_env = \<lparr>te_task_id = ''task/a'', te_task_name = ''a'', te_task_sequence = [], te_task_branch = ''task/a'',
     te_task_execution_anchor = [], te_task_description = ''two'' @ [CHR 0x0A] @ ''lines'',
     te_task_worktree = ''/w t'', te_task_profile = [], te_primary_repo_path = ''/repo'', te_base_branch = ''main'',
     te_base_head = [], te_task_head = [], te_started_at = ''1'', te_status = ''open'', te_updated_at = ''1'',
     te_devcontainer_name = [], te_delivery_mode = [], te_codex_thread_id = [], te_codex_rollout_path = [],
     te_guard_enabled = ''no'', te_guard_bin = [], te_guard_commands = [], te_guard_qcold = [],
     te_guard_real_commands = [(''QCOLD_GUARD_REAL_RG'', ''/usr/bin/rg''), (''QCOLD_GUARD_REAL_CAT'', [])]\<rparr>"

lemma sample_guard_names: "guard_names_ok sample_task_env"
  by (simp add: guard_names_ok_def sample_task_env_def env_key_def has_line_break_def starts_with_def guard_real_prefix_def)

theorem task_env_roundtrip_witness:
  "te_task_description (parse_task_env (task_env_text sample_task_env)) = ''two'' @ [CHR 0x0A] @ ''lines''"
  using task_env_roundtrip [OF sample_guard_names] by (simp add: sample_task_env_def)

section \<open>What the daemon reads\<close>

lemma env_map_of_lines:
  assumes "\<forall>(k, v) \<in> set kvs. env_key k"
  shows "foldl (\<lambda>entries line. case split_once CHR ''='' line of
        None \<Rightarrow> entries
      | Some (key, raw) \<Rightarrow> entries(key \<mapsto> shell_env_value raw)) m (map env_line kvs) =
    m ++ map_of (rev (map (\<lambda>(k, v). (k, shell_env_value (shell_quote v))) kvs))"
  using assms
proof (induction kvs arbitrary: m)
  case (Cons e kvs)
  obtain k v where e: "e = (k, v)" by (cases e)
  have "split_once CHR ''='' (env_line e) = Some (k, shell_quote v)"
    using Cons.prems split_once_at [of "CHR ''=''" k "shell_quote v"] by (simp add: e env_line_def env_key_def)
  with Cons show ?case by (simp add: e map_add_def fun_eq_iff split: option.split)
qed simp

lemma distinct_entries:
  assumes "guard_names_ok t" and "distinct (map fst (te_guard_real_commands t))"
  shows "distinct (map fst (task_env_entries t))"
proof -
  have sub: "distinct (map fst (with_value kvs))" if "distinct (map fst kvs)" for kvs
    using that by (simp add: with_value_def distinct_map_filter)
  have "distinct (map fst (sort_key fst (te_guard_real_commands t)))"
    using assms(2) by (simp add: distinct_map)
  from sub [OF this] have guard: "distinct (map fst (with_value (sort_key fst (te_guard_real_commands t))))" .
  have fixed: "distinct (map fst (task_env_fields t @ with_value (task_env_optional_fields t)))"
  proof -
    have "distinct (map fst (task_env_fields t @ task_env_optional_fields t))"
      by (simp add: task_env_fields_def task_env_optional_fields_def)
    then show ?thesis
      using sub [of "task_env_optional_fields t"] image_mono [OF with_value_subset [of "task_env_optional_fields t"], of fst]
      unfolding map_append distinct_append set_map by blast
  qed
  have "starts_with guard_real_prefix k" if "k \<in> fst ` set (with_value (sort_key fst (te_guard_real_commands t)))" for k
    using that assms(1) with_value_subset by (fastforce simp: guard_names_ok_def)
  moreover have "\<not> starts_with guard_real_prefix k"
    if "k \<in> fst ` set (task_env_fields t @ with_value (task_env_optional_fields t))" for k
    using that field_keys [of t] with_value_subset by fastforce
  ultimately have "set (map fst (task_env_fields t @ with_value (task_env_optional_fields t))) \<inter>
      set (map fst (with_value (sort_key fst (te_guard_real_commands t)))) = {}"
    unfolding set_map by blast
  with guard fixed have "distinct (map fst (task_env_fields t @ with_value (task_env_optional_fields t)) @
      map fst (with_value (sort_key fst (te_guard_real_commands t))))"
    by (simp only: distinct_append simp_thms)
  then show ?thesis by (simp only: task_env_entries_def map_append append_assoc)
qed

text \<open>
  C16. What the daemon reads from a task file: exactly the keys the build helper wrote, and of these
  exactly the values without a line break. A value with one, such as a description of two lines, is
  read as the escaped text the helper wrote for it.
\<close>

theorem daemon_reads_task_env:
  assumes "guard_names_ok t" and "distinct (map fst (te_guard_real_commands t))"
  shows "dom (parse_task_env_content (task_env_text t)) = fst ` set (task_env_entries t) \<and>
    (\<forall>(k, v) \<in> set (task_env_entries t).
       parse_task_env_content (task_env_text t) k = Some (if has_line_break v then shell_quote v else v) \<and>
       (parse_task_env_content (task_env_text t) k = Some v \<longleftrightarrow> \<not> has_line_break v))"
proof -
  let ?kvs = "map (\<lambda>(k, v). (k, shell_env_value (shell_quote v))) (task_env_entries t)"
  have content: "parse_task_env_content (task_env_text t) = map_of (rev ?kvs)"
    using env_map_of_lines [OF entry_keys [OF assms(1)], of Map.empty] lines_of_entries [OF entry_keys [OF assms(1)]]
    by (simp add: parse_task_env_content_def task_env_text_def)
  have fst_kvs: "map fst ?kvs = map fst (task_env_entries t)" by (simp add: comp_def case_prod_unfold)
  have "distinct (map fst ?kvs)" by (simp only: fst_kvs distinct_entries [OF assms])
  then have dist: "distinct (map fst (rev ?kvs))" by (simp add: rev_map [symmetric])
  have "map_of (rev ?kvs) k = Some (shell_env_value (shell_quote v))" if "(k, v) \<in> set (task_env_entries t)" for k v
  proof -
    have "(k, shell_env_value (shell_quote v)) \<in> set ?kvs" using that by force
    then show ?thesis using dist by (intro map_of_is_SomeI) simp_all
  qed
  moreover have "shell_env_value (shell_quote v) = (if has_line_break v then shell_quote v else v)" for v
    using env_value_iff [of v] env_value_break [of v] by simp
  moreover have "dom (map_of (rev ?kvs)) = fst ` set (task_env_entries t)"
    using arg_cong [OF fst_kvs, of set] unfolding dom_map_of_conv_image_fst set_rev set_map .
  ultimately show ?thesis unfolding content using env_value_iff by fastforce
qed

theorem daemon_reads_task_env_witness:
  "parse_task_env_content (task_env_text sample_task_env) ''TASK_NAME'' = Some ''a'' \<and>
   parse_task_env_content (task_env_text sample_task_env) ''TASK_DESCRIPTION'' \<noteq> Some (''two'' @ [CHR 0x0A] @ ''lines'')"
proof -
  have d: "distinct (map fst (te_guard_real_commands sample_task_env))" by (simp add: sample_task_env_def)
  have e: "(''TASK_NAME'', ''a'') \<in> set (task_env_entries sample_task_env)"
      "(''TASK_DESCRIPTION'', ''two'' @ [CHR 0x0A] @ ''lines'') \<in> set (task_env_entries sample_task_env)"
    by (simp_all add: task_env_entries_def task_env_fields_def sample_task_env_def)
  have b: "\<not> has_line_break ''a''" "has_line_break (''two'' @ [CHR 0x0A] @ ''lines'')"
    by (simp_all add: has_line_break_def)
  show ?thesis
    using daemon_reads_task_env [OF sample_guard_names d] e b by fastforce
qed

end
