(* ===== verification/Queue_Launch.thy ===== *)
theory Queue_Launch
  imports Queue_Worker Task_Env
begin

text \<open>
  What starting an agent for an item needs (\<open>src/src/webapp/\<close>): choosing a host account by its
  limits (\<open>queue_worker_agent_selection.rs\<close>), a proxy port that no other item uses
  (\<open>queue_worker_cleanup.rs\<close>), the worktree and the task records (\<open>queue_worker_taskflow.rs\<close>), what
  an earlier launch left behind, and the prompt file (\<open>queue_worker_task_packet.rs\<close>).
\<close>

section \<open>Choosing an agent command\<close>

text \<open>\<open>std::cmp::Reverse\<close> of a text.\<close>

datatype reversed_text = Reversed string

instantiation reversed_text :: linorder
begin

fun less_eq_reversed_text :: "reversed_text \<Rightarrow> reversed_text \<Rightarrow> bool" where
  "less_eq_reversed_text (Reversed a) (Reversed b) = (b \<le> a)"

fun less_reversed_text :: "reversed_text \<Rightarrow> reversed_text \<Rightarrow> bool" where
  "less_reversed_text (Reversed a) (Reversed b) = (b < a)"

instance
proof
  fix x y z :: reversed_text
  show "(x < y) = (x \<le> y \<and> \<not> y \<le> x)" by (cases x; cases y) auto
  show "x \<le> x" by (cases x) simp
  show "x \<le> y \<Longrightarrow> y \<le> z \<Longrightarrow> x \<le> z" by (cases x; cases y; cases z) auto
  show "x \<le> y \<Longrightarrow> y \<le> x \<Longrightarrow> x = y" by (cases x; cases y) auto
  show "x \<le> y \<or> y \<le> x" by (cases x; cases y) auto
qed

end

datatype queue_agent_selection = Selected string agent_limit_record | SelectionWaiting string nat

definition agent_limit_pending_retry :: nat where
  "agent_limit_pending_retry = 30"

definition queue_agent_selector_command :: "string \<Rightarrow> bool" where
  "queue_agent_selector_command c = (c \<in> {''c1'', ''c2''})"

definition queue_agent_record_usable :: "nat \<Rightarrow> agent_limit_record \<Rightarrow> bool" where
  "queue_agent_record_usable now r =
     (queue_agent_selector_command (al_command r) \<and> al_state r = ''ok'' \<and> al_capacity_score r > 0 \<and>
      now < al_expires_at r)"

definition queue_agent_next_retry_at :: "agent_limit_record \<Rightarrow> nat option" where
  "queue_agent_next_retry_at r = coalesce (al_reset_at r) (Some (al_expires_at r))"

definition agent_limit_line :: "agent_limit_record \<Rightarrow> string" where
  "agent_limit_line r =
     al_command r @ '' state='' @ al_state r @ '' capacity='' @ show_int (al_capacity_score r) @
     (case queue_agent_next_retry_at r of None \<Rightarrow> [] | Some v \<Rightarrow> '' retry_at='' @ show_nat v) @
     '' summary='' @ al_summary r"

definition agent_limit_summary :: "agent_limit_record list \<Rightarrow> string" where
  "agent_limit_summary records =
     join_with ''; '' (map agent_limit_line (filter (\<lambda>r. queue_agent_selector_command (al_command r)) records))"

definition agent_order :: "agent_limit_record \<Rightarrow> int \<times> reversed_text" where
  "agent_order r = (al_capacity_score r, Reversed (al_command r))"

definition select_queue_agent_from_records :: "nat \<Rightarrow> agent_limit_record list \<Rightarrow> queue_agent_selection" where
  "select_queue_agent_from_records now records =
     (case max_by_key agent_order (filter (queue_agent_record_usable now) records) of
        Some r \<Rightarrow> Selected (al_command r) r
      | None \<Rightarrow> SelectionWaiting
          (if records = [] then ''no eligible c1/c2 agent command is available''
           else ''all eligible c1/c2 agents are waiting; '' @ agent_limit_summary records)
          (case min_by_key (\<lambda>t. t) (filter (\<lambda>t. t > now) (List.map_filter queue_agent_next_retry_at records)) of
             Some t \<Rightarrow> t
           | None \<Rightarrow> sat_add_u64 now agent_limit_pending_retry))"

text \<open>A stale cache is refreshed in the background and used meanwhile.\<close>

definition select_queue_agent_for_launch :: "queue_world \<Rightarrow> queue_agent_selection" where
  "select_queue_agent_for_launch W =
     (case lv_limits (qw_launch W) of
        Some (generated_at, records) \<Rightarrow> select_queue_agent_from_records (qw_now W) records
      | None \<Rightarrow> SelectionWaiting ''waiting for c1/c2 status probe''
          (sat_add_u64 (qw_now W) agent_limit_pending_retry))"

section \<open>Proxy ports\<close>

type_synonym port = "16 word"

text \<open>\<open>str::parse::<u16>\<close>.\<close>

definition parse_u16 :: "string \<Rightarrow> port option" where
  "parse_u16 s = map_option of_nat (parse_unsigned 65535 s)"

definition split_queue_proxy_host_port :: "string \<Rightarrow> (string \<times> port) option" where
  "split_queue_proxy_host_port proxy =
     (case rsplit_once CHR '':'' proxy of
        None \<Rightarrow> None
      | Some (host, port) \<Rightarrow> (case parse_u16 port of
          None \<Rightarrow> None
        | Some p \<Rightarrow> if trim host = [] then None else Some (host, p)))"

text \<open>The ports above the current one, then those from 1024 up to it; counted without overflow.\<close>

definition next_unused_queue_proxy_port :: "port \<Rightarrow> port set \<Rightarrow> port option" where
  "next_unused_queue_proxy_port current used =
     find (\<lambda>p. p \<notin> used) (map of_nat ([unat current + 1 ..< 65536] @ [1024 ..< unat current]))"

definition remote_port_forward_failure_marker :: string where
  "remote_port_forward_failure_marker = ''remote port forwarding failed for listen port ''"

definition queue_launch_failure_listen_port :: "string \<Rightarrow> port option" where
  "queue_launch_failure_listen_port message =
     (case split_str remote_port_forward_failure_marker message of
        _ # suffix # _ \<Rightarrow> parse_u16 (takeWhile is_ascii_digit suffix)
      | _ \<Rightarrow> None)"

text \<open>Another item that is not done.\<close>

definition other_open_item :: "queue_item_row \<Rightarrow> queue_item_row \<Rightarrow> bool" where
  "other_open_item i other =
     ((qi_run_id other \<noteq> qi_run_id i \<or> qi_id other \<noteq> qi_id i) \<and> qi_status other \<noteq> ItemSuccess)"

definition used_proxy_ports :: "queue_item_row \<Rightarrow> string \<Rightarrow> queue_item_row list \<Rightarrow> port set" where
  "used_proxy_ports i host items =
     {p. \<exists>other \<in> set items. other_open_item i other \<and>
        Option.bind (qi_remote_proxy other) split_queue_proxy_host_port = Some (host, p)}"

text \<open>The item with its proxy, and the new proxy if there is one.\<close>

definition rotate_remote_native_proxy ::
  "queue_world \<Rightarrow> queue_item_row \<Rightarrow> string \<Rightarrow> port \<Rightarrow> (qdb, queue_item_row \<times> string option) prog" where
  "rotate_remote_native_proxy W i host current =
     bnd (load_web_queue_items (qw_store W)) (\<lambda>items.
       case next_unused_queue_proxy_port current (used_proxy_ports i host items) of
         None \<Rightarrow> ret (i, None)
       | Some p \<Rightarrow>
           (let proxy = host @ '':'' @ show_nat (unat p)
            in seq (set_web_queue_item_remote_proxy (qw_store W) (qi_run_id i) (qi_id i) proxy)
                 (ret (i\<lparr>qi_remote_proxy := Some proxy\<rparr>, Some proxy))))"

definition remote_proxy_of :: "queue_item_row \<Rightarrow> (string \<times> port) option" where
  "remote_proxy_of i = Option.bind (qi_remote_proxy i) split_queue_proxy_host_port"

definition reserve_remote_native_proxy :: "queue_world \<Rightarrow> queue_item_row \<Rightarrow> (qdb, queue_item_row \<times> string option) prog" where
  "reserve_remote_native_proxy W i =
     (if \<not> queue_item_remote_native i then ret (i, None)
      else case remote_proxy_of i of
        None \<Rightarrow> ret (i, None)
      | Some (host, current) \<Rightarrow>
          bnd (load_web_queue_items (qw_store W)) (\<lambda>items.
            if list_ex (\<lambda>other. qi_remote_proxy other = qi_remote_proxy i \<and> other_open_item i other) items
            then rotate_remote_native_proxy W i host current
            else ret (i, None)))"

definition maybe_rotate_remote_native_proxy_after_failure ::
  "queue_world \<Rightarrow> queue_item_row \<Rightarrow> string \<Rightarrow> (qdb, queue_item_row \<times> string option) prog" where
  "maybe_rotate_remote_native_proxy_after_failure W i message =
     (if \<not> queue_item_remote_native i then ret (i, None)
      else case queue_launch_failure_listen_port message of
        None \<Rightarrow> ret (i, None)
      | Some failed \<Rightarrow> (case remote_proxy_of i of
          None \<Rightarrow> ret (i, None)
        | Some (host, current) \<Rightarrow>
            if failed \<noteq> current then ret (i, None) else rotate_remote_native_proxy W i host current))"

definition cleanup_remote_native_port_forward_failure ::
  "queue_world \<Rightarrow> queue_item_row \<Rightarrow> string \<Rightarrow> (qdb, string option) prog" where
  "cleanup_remote_native_port_forward_failure W i message =
     (if \<not> queue_item_remote_native i \<or> queue_launch_failure_listen_port message = None then ret None
      else bnd (cleanup_queue_executor W i (queue_agent_id i)) (\<lambda>c. ret (Some c)))"

definition queue_launch_failure_agent_id :: "queue_item_row \<Rightarrow> string option" where
  "queue_launch_failure_agent_id i =
     (if queue_item_remote_native i then Some (queue_agent_id i) else qi_agent_id i)"

definition codex_update_restart_retry :: string where
  "codex_update_restart_retry = ''Codex updated and requested restart''"

definition queue_failure_retries_immediately :: "string \<Rightarrow> bool" where
  "queue_failure_retries_immediately message = str_contains codex_update_restart_retry message"

section \<open>The worktree of a task\<close>

record launch_workspace =
  lw_worktree :: string
  lw_remote_launcher :: "string option"
  lw_remote_worktree :: "string option"
  lw_existing_task :: bool

text \<open>\<open>Path::join\<close>, \<open>parent\<close> and \<open>file_name\<close> on the canonical paths the code uses them on.\<close>

definition path_join :: "string \<Rightarrow> string \<Rightarrow> string" where
  "path_join a b = (if a = [] \<or> last a = CHR ''/'' then a @ b else a @ ''/'' @ b)"

definition path_parent :: "string \<Rightarrow> string option" where
  "path_parent p =
     (case rsplit_once CHR ''/'' p of
        None \<Rightarrow> None
      | Some (a, b) \<Rightarrow> if b = [] then None else Some (if a = [] then ''/'' else a))"

definition path_file_name :: "string \<Rightarrow> string option" where
  "path_file_name p =
     (case rsplit_once CHR ''/'' p of None \<Rightarrow> None | Some (a, b) \<Rightarrow> if b = [] then None else Some b)"

definition ensure_queue_item_slug_available :: "queue_world \<Rightarrow> queue_item_row \<Rightarrow> (qdb, unit) prog" where
  "ensure_queue_item_slug_available W i =
     bnd (load_web_queue_items (qw_store W)) (\<lambda>items.
       case find (\<lambda>other. qi_slug other = qi_slug i \<and>
              (qi_run_id other \<noteq> qi_run_id i \<or> qi_id other \<noteq> qi_id i) \<and>
              \<not> item_is_terminal (qi_status other)) items of
         None \<Rightarrow> ret ()
       | Some conflict \<Rightarrow> throw (Bail (''queue task slug task/'' @ qi_slug i @ '' is already active in run '' @
           qi_run_id conflict @ ''; choose a different slug'')))"

definition task_record_scope_summary :: "task_record_row \<Rightarrow> string" where
  "task_record_scope_summary t =
     (case nonblank (tk_repo_root t) of None \<Rightarrow> tk_id t | Some repo \<Rightarrow> tk_id t @ '' in '' @ repo)"

definition ensure_queue_task_record_scope_available :: "queue_world \<Rightarrow> queue_item_row \<Rightarrow> (qdb, unit) prog" where
  "ensure_queue_task_record_scope_available W i =
     bnd (get_task_record (''task/'' @ qi_slug i)) (\<lambda>found. case found of
       None \<Rightarrow> ret ()
     | Some t \<Rightarrow>
         if queue_task_record_matches_item W i t \<or> queue_task_record_is_terminal t then ret ()
         else throw (Bail (''queue task slug task/'' @ qi_slug i @ '' already belongs to '' @
                task_record_scope_summary t @ ''; choose a different slug'')))"

text \<open>Whether the directory is the worktree of the task in this repository.\<close>

definition validate_queue_task_worktree :: "queue_world \<Rightarrow> string \<Rightarrow> string \<Rightarrow> string \<Rightarrow> bool" where
  "validate_queue_task_worktree W path task_slug repo_root =
     (case lv_read_file (qw_launch W) (path_join path ''.task/task.env'') of
        None \<Rightarrow> False
      | Some content \<Rightarrow>
          task_env_value content ''TASK_NAME'' = Some task_slug \<and>
          (case task_env_value content ''PRIMARY_REPO_PATH'' of
             None \<Rightarrow> False
           | Some primary_repo \<Rightarrow> same_filesystem_path W primary_repo repo_root))"

fun discover_in_entries :: "queue_world \<Rightarrow> string \<Rightarrow> string \<Rightarrow> string option list \<Rightarrow> string option" where
  "discover_in_entries W task_slug repo_root [] = None"
| "discover_in_entries W task_slug repo_root (None # rest) = None"
| "discover_in_entries W task_slug repo_root (Some path # rest) =
     (if validate_queue_task_worktree W path task_slug repo_root then Some path
      else discover_in_entries W task_slug repo_root rest)"

definition discover_queue_task_worktree :: "queue_world \<Rightarrow> string \<Rightarrow> string \<Rightarrow> string option" where
  "discover_queue_task_worktree W repo_root task_slug =
     (case qw_canonical W repo_root of
        Inl e \<Rightarrow> None
      | Inr root \<Rightarrow>
          Option.bind (path_parent root) (\<lambda>parent. Option.bind (path_file_name root) (\<lambda>name.
            Option.bind (lv_dir (qw_launch W) (path_join (path_join parent ''WT'') name))
              (discover_in_entries W task_slug root))))"

definition existing_queue_task_worktree :: "queue_world \<Rightarrow> queue_item_row \<Rightarrow> string \<Rightarrow> (qdb, string option) prog" where
  "existing_queue_task_worktree W i repo_root =
     bnd (get_task_record (''task/'' @ qi_slug i)) (\<lambda>found. ret (
       case Option.bind found (\<lambda>t. if queue_task_record_matches_item W i t then tk_cwd t else None) of
         Some cwd \<Rightarrow>
           if validate_queue_task_worktree W cwd (qi_slug i) repo_root then Some cwd
           else discover_queue_task_worktree W repo_root (qi_slug i)
       | None \<Rightarrow> discover_queue_task_worktree W repo_root (qi_slug i)))"

definition existing_remote_queue_task ::
  "queue_world \<Rightarrow> queue_item_row \<Rightarrow> string \<Rightarrow> string \<Rightarrow> (qdb, launch_workspace option) prog" where
  "existing_remote_queue_task W i launcher repo_root =
     bnd (get_task_record (''task/'' @ qi_slug i)) (\<lambda>found. ret (case found of
       None \<Rightarrow> None
     | Some t \<Rightarrow>
         (let text = (\<lambda>key. Option.bind (task_record_metadata_object W t)
                (\<lambda>kvs. Option.bind (map_of kvs key) json_as_str))
          in if \<not> queue_task_record_matches_item W i t \<or> text ''remote_launcher'' \<noteq> Some launcher then None
             else (case nonblank (coalesce (text ''remote_cwd'') (tk_cwd t)) of
                 None \<Rightarrow> None
               | Some remote_worktree \<Rightarrow> Some
                   \<lparr>lw_worktree = repo_root, lw_remote_launcher = Some launcher,
                    lw_remote_worktree = Some remote_worktree, lw_existing_task = True\<rparr>))))"

definition queue_launch_workspace :: "queue_world \<Rightarrow> queue_item_row \<Rightarrow> (qdb, launch_workspace) prog" where
  "queue_launch_workspace W i =
     (case queue_item_repo_root W i of
        Inl e \<Rightarrow> throw (Bail e)
      | Inr repo_root \<Rightarrow>
          seq (ensure_queue_item_slug_available W i)
            (seq (ensure_queue_task_record_scope_available W i)
              (bnd (case qi_remote_launcher i of
                      None \<Rightarrow> ret None
                    | Some launcher \<Rightarrow> existing_remote_queue_task W i launcher repo_root) (\<lambda>remote.
                case remote of
                  Some task \<Rightarrow> ret task
                | None \<Rightarrow> bnd (existing_queue_task_worktree W i repo_root) (\<lambda>local. ret (
                    \<lparr>lw_worktree = (case local of None \<Rightarrow> repo_root | Some w \<Rightarrow> w),
                     lw_remote_launcher = qi_remote_launcher i, lw_remote_worktree = None,
                     lw_existing_task = (local \<noteq> None)\<rparr>))))))"

end
