(* ===== verification/Queue_Graph.thy ===== *)
theory Queue_Graph
  imports Queue_Db
begin

text \<open>
  The dependency graph of a queue (\<open>src/src/webapp/queue_graph.rs\<close>): dependencies given by id or
  slug are resolved and cleaned, cycles are refused with the path that closes them, and each item
  gets its wave, the length of the longest chain of dependencies below it. A Rust hash map is a
  map; the map from ids to dependency slices is kept as the association list it is collected
  from, the latest entry first, because its finiteness bounds the depth-first search.

  The recursion for waves stops on acyclic graphs only. It runs here on fuel, one unit per nested
  call, where \<open>None\<close> says that the fuel ran out; \<open>wave_indices_total\<close> below shows that one unit
  more than there are items is enough on every graph that the cycle search accepts.
\<close>

section \<open>Diagnostics\<close>

datatype graph_diagnostic_kind =
  InvalidDependency | MissingDependency | MissingId | DuplicateId | Cycle | WaveConflict

datatype graph_severity = SeverityWarning | SeverityError

record graph_diagnostic =
  gd_kind :: graph_diagnostic_kind
  gd_severity :: graph_severity
  gd_message :: string
  gd_item_id :: "string option"
  gd_item_slug :: "string option"
  gd_item_position :: "int option"
  gd_dependency :: "string option"
  gd_dependency_id :: "string option"
  gd_requested_wave_id :: "string option"
  gd_requested_wave_index :: "nat option"
  gd_canonical_wave_index :: "nat option"
  gd_cycle :: "string list"

record graph_item_diagnostic =
  gi_id :: string
  gi_slug :: string
  gi_position :: int
  gi_depends_on :: "string list"
  gi_requested_wave_id :: "string option"
  gi_requested_wave_index :: "nat option"
  gi_canonical_wave_index :: "nat option"

record graph_diagnostics =
  gr_ok :: bool
  gr_execution_mode :: string
  gr_diagnostics :: "graph_diagnostic list"
  gr_items :: "graph_item_diagnostic list"

record graph_item_metadata =
  gm_wave_id :: "string option"
  gm_wave_index :: "nat option"

record graph_validation_error =
  ge_diagnostics :: graph_diagnostics
  ge_message :: string

definition has_errors :: "graph_diagnostics \<Rightarrow> bool" where
  "has_errors r = list_ex (\<lambda>d. gd_severity d = SeverityError) (gr_diagnostics r)"

definition validation_message :: "graph_diagnostics \<Rightarrow> string" where
  "validation_message r =
     (if list_ex (\<lambda>d. gd_kind d = Cycle) (gr_diagnostics r)
      then ''queue dependency graph contains a cycle''
      else if list_ex (\<lambda>d. gd_kind d = DuplicateId) (gr_diagnostics r)
      then ''queue dependency graph contains duplicate item ids''
      else if list_ex (\<lambda>d. gd_kind d = MissingId) (gr_diagnostics r)
      then ''queue dependency graph contains items without ids''
      else ''queue dependency graph is invalid'')"

definition validation_error :: "graph_diagnostics \<Rightarrow> graph_validation_error" where
  "validation_error r = \<lparr>ge_diagnostics = r, ge_message = validation_message r\<rparr>"

definition clean_queue_graph_wave_id :: "string option \<Rightarrow> string option" where
  "clean_queue_graph_wave_id v =
     (case v of None \<Rightarrow> None | Some s \<Rightarrow> (if trim s = [] then None else Some (trim s)))"

definition non_empty :: "string \<Rightarrow> string option" where
  "non_empty s = (if s = [] then None else Some s)"

definition queue_graph_diagnostic ::
    "graph_diagnostic_kind \<Rightarrow> graph_severity \<Rightarrow> string \<Rightarrow> queue_item_row option \<Rightarrow> string option \<Rightarrow>
     graph_diagnostic" where
  "queue_graph_diagnostic k sev msg it dep_id =
     \<lparr>gd_kind = k, gd_severity = sev, gd_message = msg,
      gd_item_id = Option.bind (map_option qi_id it) non_empty,
      gd_item_slug = Option.bind (map_option qi_slug it) non_empty,
      gd_item_position = map_option qi_position it,
      gd_dependency = None, gd_dependency_id = dep_id, gd_requested_wave_id = None,
      gd_requested_wave_index = None, gd_canonical_wave_index = None, gd_cycle = []\<rparr>"

definition queue_graph_dependency_diagnostic ::
    "graph_diagnostic_kind \<Rightarrow> string \<Rightarrow> queue_item_row \<Rightarrow> string \<Rightarrow> string option \<Rightarrow> graph_diagnostic" where
  "queue_graph_dependency_diagnostic k msg it dep dep_id =
     (queue_graph_diagnostic k SeverityWarning msg (Some it) dep_id)\<lparr>gd_dependency := Some dep\<rparr>"

definition queue_graph_cycle_diagnostic :: "string list \<Rightarrow> graph_diagnostic" where
  "queue_graph_cycle_diagnostic c =
     \<lparr>gd_kind = Cycle, gd_severity = SeverityError,
      gd_message = (if c = [] then ''queue dependency graph contains a cycle''
         else ''queue dependency graph contains a cycle: '' @ join_with '' -> '' c),
      gd_item_id = (case c of [] \<Rightarrow> None | x # _ \<Rightarrow> Some x),
      gd_item_slug = None, gd_item_position = None, gd_dependency = None, gd_dependency_id = None,
      gd_requested_wave_id = None, gd_requested_wave_index = None, gd_canonical_wave_index = None,
      gd_cycle = c\<rparr>"

definition nth_option :: "'a list \<Rightarrow> nat \<Rightarrow> 'a option" where
  "nth_option xs n = (if n < length xs then Some (xs ! n) else None)"

definition queue_graph_item_diagnostic ::
    "graph_item_metadata list \<Rightarrow> (string \<Rightarrow> nat option) option \<Rightarrow> nat \<times> queue_item_row \<Rightarrow>
     graph_item_diagnostic" where
  "queue_graph_item_diagnostic metadata waves = (\<lambda>(index, it).
     let m = nth_option metadata index in
     \<lparr>gi_id = qi_id it, gi_slug = qi_slug it, gi_position = qi_position it,
      gi_depends_on = qi_depends_on it,
      gi_requested_wave_id = Option.bind m gm_wave_id,
      gi_requested_wave_index = Option.bind m gm_wave_index,
      gi_canonical_wave_index = Option.bind waves (\<lambda>w. w (qi_id it))\<rparr>)"

definition queue_graph_diagnostics ::
    "queue_execution_mode \<Rightarrow> queue_item_row list \<Rightarrow> graph_item_metadata list \<Rightarrow>
     (string \<Rightarrow> nat option) option \<Rightarrow> graph_diagnostic list \<Rightarrow> graph_diagnostics" where
  "queue_graph_diagnostics mode items metadata waves ds =
     \<lparr>gr_ok = list_all (\<lambda>d. gd_severity d \<noteq> SeverityError) ds,
      gr_execution_mode = mode_as_str mode,
      gr_diagnostics = ds,
      gr_items = map (queue_graph_item_diagnostic metadata waves) (enumerate 0 items)\<rparr>"

section \<open>Identities\<close>

fun id_diagnostics_from :: "string set \<Rightarrow> queue_item_row list \<Rightarrow> graph_diagnostic list" where
  "id_diagnostics_from seen [] = []"
| "id_diagnostics_from seen (i # is) =
     (if trim (qi_id i) = []
      then queue_graph_diagnostic MissingId SeverityError ''queue item id is empty'' (Some i) None
             # id_diagnostics_from seen is
      else if qi_id i \<in> seen
      then queue_graph_diagnostic DuplicateId SeverityError
             (''queue item id '' @ [CHR 0x27] @ qi_id i @ [CHR 0x27] @ '' is duplicated'') (Some i) None
             # id_diagnostics_from (insert (qi_id i) seen) is
      else id_diagnostics_from (insert (qi_id i) seen) is)"

definition queue_graph_id_diagnostics :: "queue_item_row list \<Rightarrow> graph_diagnostic list" where
  "queue_graph_id_diagnostics items = id_diagnostics_from {} items"

section \<open>Dependencies\<close>

fun slug_references :: "queue_item_row list \<Rightarrow> (string \<Rightarrow> string option) \<Rightarrow> string \<Rightarrow> string option" where
  "slug_references [] refs = refs"
| "slug_references (i # is) refs =
     slug_references is (if refs (qi_slug i) = None then refs(qi_slug i \<mapsto> qi_id i) else refs)"

definition dependency_references :: "queue_item_row list \<Rightarrow> string \<Rightarrow> string option" where
  "dependency_references items =
     slug_references items (foldl (\<lambda>m i. m(qi_id i \<mapsto> qi_id i)) Map.empty items)"

definition quoted :: "string \<Rightarrow> string" where
  "quoted s = [CHR 0x27] @ s @ [CHR 0x27]"

text \<open>One dependency: the id it stands for, or the warning why it is dropped.\<close>

definition normalize_graph_dependency ::
    "(string \<Rightarrow> string option) \<Rightarrow> queue_item_row \<Rightarrow> string set \<Rightarrow> string \<Rightarrow> graph_diagnostic + string" where
  "normalize_graph_dependency refs it seen dep =
     (if trim dep = []
      then Inl (queue_graph_dependency_diagnostic InvalidDependency ''queue dependency is empty'' it dep None)
      else case refs dep of
        None \<Rightarrow> Inl (queue_graph_dependency_diagnostic MissingDependency
          (''queue dependency '' @ quoted dep @ '' does not match an item id or slug'') it dep None)
      | Some d \<Rightarrow>
          (if d = qi_id it
           then Inl (queue_graph_dependency_diagnostic InvalidDependency
             (''queue item '' @ quoted (qi_id it) @ '' cannot depend on itself'') it dep (Some d))
           else if d \<in> seen
           then Inl (queue_graph_dependency_diagnostic InvalidDependency
             (''queue dependency '' @ quoted dep @ '' is duplicated for item '' @ quoted (qi_id it)) it dep (Some d))
           else Inr d))"

fun normalize_dependency_list ::
    "(string \<Rightarrow> string option) \<Rightarrow> queue_item_row \<Rightarrow> string set \<Rightarrow> string list \<Rightarrow>
     string list \<times> graph_diagnostic list" where
  "normalize_dependency_list refs it seen [] = ([], [])"
| "normalize_dependency_list refs it seen (dep # deps) =
     (case normalize_graph_dependency refs it seen dep of
        Inl w \<Rightarrow> (let (ks, ws) = normalize_dependency_list refs it seen deps in (ks, w # ws))
      | Inr d \<Rightarrow> (let (ks, ws) = normalize_dependency_list refs it (insert d seen) deps in (d # ks, ws)))"

fun normalize_each :: "(string \<Rightarrow> string option) \<Rightarrow> queue_item_row list \<Rightarrow>
     queue_item_row list \<times> graph_diagnostic list" where
  "normalize_each refs [] = ([], [])"
| "normalize_each refs (i # is) =
     (let (ks, ws) = normalize_dependency_list refs i {} (qi_depends_on i);
          (js, vs) = normalize_each refs is
      in (i\<lparr>qi_depends_on := ks\<rparr> # js, ws @ vs))"

definition normalize_graph_dependencies ::
    "queue_item_row list \<Rightarrow> queue_item_row list \<times> graph_diagnostic list" where
  "normalize_graph_dependencies items = normalize_each (dependency_references items) items"

section \<open>Cycles\<close>

type_synonym dep_table = "(string \<times> string list) list"

definition dependency_table :: "queue_item_row list \<Rightarrow> dep_table" where
  "dependency_table items = rev (map (\<lambda>i. (qi_id i, qi_depends_on i)) items)"

fun position_of :: "string \<Rightarrow> string list \<Rightarrow> nat option" where
  "position_of a [] = None"
| "position_of a (x # xs) = (if x = a then Some 0 else map_option Suc (position_of a xs))"

text \<open>
  The recursive visit. The stack is pushed before and popped after the loop over the
  dependencies, so that every call of the loop sees the same stack; after a cycle is found it is
  not used any more. The visited set is threaded through.
\<close>

function (sequential) queue_dependency_cycle_visit ::
    "dep_table \<Rightarrow> string \<Rightarrow> string set \<Rightarrow> string list \<Rightarrow> string list option \<times> string set"
  and cycle_visit_each ::
    "dep_table \<Rightarrow> string list \<Rightarrow> string set \<Rightarrow> string list \<Rightarrow> string list option \<times> string set" where
  "queue_dependency_cycle_visit by_id a visited stack =
     (case position_of a stack of
        Some index \<Rightarrow> (Some (drop index stack @ [a]), visited)
      | None \<Rightarrow>
          if a \<in> visited then (None, visited)
          else case map_of by_id a of
            None \<Rightarrow> (None, insert a visited)
          | Some deps \<Rightarrow>
              (case cycle_visit_each by_id deps visited (stack @ [a]) of
                 (Some c, v) \<Rightarrow> (Some c, v)
               | (None, v) \<Rightarrow> (None, insert a v)))"
| "cycle_visit_each by_id [] visited stack = (None, visited)"
| "cycle_visit_each by_id (d # ds) visited stack =
     (case queue_dependency_cycle_visit by_id d visited stack of
        (Some c, v) \<Rightarrow> (Some c, v)
      | (None, v) \<Rightarrow> cycle_visit_each by_id ds v stack)"
  by pat_completeness auto

lemma position_of_None: "position_of a xs = None \<longleftrightarrow> a \<notin> set xs"
  by (induction xs) auto

lemma position_of_Some: "position_of a xs = Some n \<Longrightarrow> n < length xs \<and> xs ! n = a"
  by (induction xs arbitrary: n) (auto split: if_splits)

text \<open>Every nested visit pushes another key of the table, so the search ends.\<close>

definition keys_left :: "dep_table \<Rightarrow> string list \<Rightarrow> nat" where
  "keys_left by_id stack = card (fst ` set by_id - set stack)"

lemma keys_left_push:
  assumes "map_of by_id a = Some deps" and "a \<notin> set stack"
  shows "keys_left by_id (stack @ [a]) < keys_left by_id stack"
proof -
  have "a \<in> fst ` set by_id" using assms(1) by (metis map_of_eq_None_iff option.distinct(1))
  then have "fst ` set by_id - set (stack @ [a]) \<subset> fst ` set by_id - set stack"
    using assms(2) by auto
  then show ?thesis by (simp add: keys_left_def psubset_card_mono)
qed

termination queue_dependency_cycle_visit
proof (relation "inv_image (less_than <*lex*> less_than)
    (\<lambda>x. case x of Inl (t, a, v, s) \<Rightarrow> (keys_left t s, 0) | Inr (t, ds, v, s) \<Rightarrow> (keys_left t s, Suc (length ds)))",
    goal_cases)
  case 1
  show ?case by (simp add: wf_inv_image wf_lex_prod)
qed (auto simp: keys_left_push position_of_None)

fun cycle_search :: "dep_table \<Rightarrow> string list \<Rightarrow> string set \<Rightarrow> string list option" where
  "cycle_search by_id [] visited = None"
| "cycle_search by_id (a # as) visited =
     (case queue_dependency_cycle_visit by_id a visited [] of
        (Some c, v) \<Rightarrow> Some c
      | (None, v) \<Rightarrow> cycle_search by_id as v)"

definition queue_dependency_graph_cycle :: "queue_item_row list \<Rightarrow> string list option" where
  "queue_dependency_graph_cycle items = cycle_search (dependency_table items) (map qi_id items) {}"

section \<open>Waves\<close>

fun queue_graph_wave_index ::
    "nat \<Rightarrow> dep_table \<Rightarrow> string \<Rightarrow> (string \<Rightarrow> nat option) \<Rightarrow> (nat \<times> (string \<Rightarrow> nat option)) option"
  and wave_above ::
    "nat \<Rightarrow> dep_table \<Rightarrow> string list \<Rightarrow> (string \<Rightarrow> nat option) \<Rightarrow> (nat \<times> (string \<Rightarrow> nat option)) option" where
  "queue_graph_wave_index 0 by_id a memo = None"
| "queue_graph_wave_index (Suc n) by_id a memo =
     (case memo a of
        Some w \<Rightarrow> Some (w, memo)
      | None \<Rightarrow>
          (case map_of by_id a of
             None \<Rightarrow> Some (0, memo(a \<mapsto> 0))
           | Some deps \<Rightarrow>
               (case wave_above n by_id deps memo of
                  None \<Rightarrow> None
                | Some (w, m) \<Rightarrow> Some (w, m(a \<mapsto> w)))))"
| "wave_above n by_id [] memo = Some (0, memo)"
| "wave_above n by_id (d # ds) memo =
     (case queue_graph_wave_index n by_id d memo of
        None \<Rightarrow> None
      | Some (w, m) \<Rightarrow>
          (case wave_above n by_id ds m of
             None \<Rightarrow> None
           | Some (w', m') \<Rightarrow> Some (max (sat_add_u64 w 1) w', m')))"

fun wave_each :: "nat \<Rightarrow> dep_table \<Rightarrow> string list \<Rightarrow> (string \<Rightarrow> nat option) \<Rightarrow>
    (string \<Rightarrow> nat option) option" where
  "wave_each n by_id [] memo = Some memo"
| "wave_each n by_id (a # as) memo =
     (case queue_graph_wave_index n by_id a memo of
        None \<Rightarrow> None
      | Some (w, m) \<Rightarrow> wave_each n by_id as (m(a \<mapsto> w)))"

definition queue_graph_wave_indices :: "queue_item_row list \<Rightarrow> (string \<Rightarrow> nat option) option" where
  "queue_graph_wave_indices items =
     wave_each (Suc (length items)) (dependency_table items) (map qi_id items) Map.empty"

definition wave_conflict_of ::
    "graph_item_metadata list \<Rightarrow> (string \<Rightarrow> nat option) \<Rightarrow> nat \<times> queue_item_row \<Rightarrow> graph_diagnostic option" where
  "wave_conflict_of metadata waves = (\<lambda>(index, it).
     Option.bind (nth_option metadata index) (\<lambda>m.
     Option.bind (gm_wave_index m) (\<lambda>requested.
     Option.bind (waves (qi_id it)) (\<lambda>canonical.
       if requested = canonical then None
       else Some ((queue_graph_diagnostic WaveConflict SeverityWarning
           (''queue item '' @ quoted (qi_id it) @ '' was submitted in wave '' @ show_nat requested @
            '', canonical dependency wave is '' @ show_nat canonical) (Some it) None)
         \<lparr>gd_requested_wave_id := gm_wave_id m, gd_requested_wave_index := Some requested,
          gd_canonical_wave_index := Some canonical\<rparr>)))))"

definition queue_graph_wave_conflicts ::
    "queue_item_row list \<Rightarrow> graph_item_metadata list \<Rightarrow> (string \<Rightarrow> nat option) \<Rightarrow> graph_diagnostic list" where
  "queue_graph_wave_conflicts items metadata waves =
     List.map_filter (wave_conflict_of metadata waves) (enumerate 0 items)"

section \<open>Normalisation\<close>

text \<open>
  The result, with the items as the caller finds them afterwards: they are rewritten in place,
  also when a cycle is reported. \<open>None\<close>: the recursion for the waves does not end.
\<close>

definition normalize_queue_dependencies_with_metadata ::
    "queue_execution_mode \<Rightarrow> queue_item_row list \<Rightarrow> graph_item_metadata list \<Rightarrow>
     ((graph_validation_error + graph_diagnostics) \<times> queue_item_row list) option" where
  "normalize_queue_dependencies_with_metadata mode items metadata =
     (if mode \<noteq> ModeGraph
      then let items' = map (\<lambda>i. i\<lparr>qi_depends_on := []\<rparr>) items
           in Some (Inr (queue_graph_diagnostics mode items' metadata None []), items')
      else let ds = queue_graph_id_diagnostics items;
               preliminary = queue_graph_diagnostics mode items metadata None ds
        in if has_errors preliminary then Some (Inl (validation_error preliminary), items)
        else let (items', ws) = normalize_graph_dependencies items
          in case queue_dependency_graph_cycle items' of
            Some c \<Rightarrow> Some (Inl (validation_error (queue_graph_diagnostics mode items' metadata None
                (ds @ ws @ [queue_graph_cycle_diagnostic c]))), items')
          | None \<Rightarrow>
              (case queue_graph_wave_indices items' of
                 None \<Rightarrow> None
               | Some waves \<Rightarrow> Some (Inr (queue_graph_diagnostics mode items' metadata (Some waves)
                   (ds @ ws @ queue_graph_wave_conflicts items' metadata waves)), items')))"

section \<open>The cycle search finds a cycle exactly when there is one\<close>

definition table_edges :: "dep_table \<Rightarrow> (string \<times> string) set" where
  "table_edges t = {(a, b). \<exists>ds. map_of t a = Some ds \<and> b \<in> set ds}"

definition graph_edges :: "queue_item_row list \<Rightarrow> (string \<times> string) set" where
  "graph_edges items = {(qi_id i, b) | i b. i \<in> set items \<and> b \<in> set (qi_depends_on i)}"

lemma graph_edges_Nil [simp]: "graph_edges [] = {}"
  by (simp add: graph_edges_def)

lemma graph_edges_Cons: "graph_edges (i # is) = Pair (qi_id i) ` set (qi_depends_on i) \<union> graph_edges is"
  by (auto simp: graph_edges_def)

lemma graph_edges_append: "graph_edges (xs @ ys) = graph_edges xs \<union> graph_edges ys"
  by (auto simp: graph_edges_def)

lemma finite_graph_edges: "finite (graph_edges items)"
  by (induction items) (simp_all add: graph_edges_Cons)

definition closed_cycle :: "(string \<times> string) set \<Rightarrow> string list \<Rightarrow> bool" where
  "closed_cycle E c = (2 \<le> length c \<and> hd c = last c \<and> successively (\<lambda>a b. (a, b) \<in> E) c)"

definition chain_to :: "(string \<times> string) set \<Rightarrow> string list \<Rightarrow> string \<Rightarrow> bool" where
  "chain_to E s a = successively (\<lambda>a b. (a, b) \<in> E) (s @ [a])"

lemma chain_to_Nil [simp]: "chain_to E [] a"
  by (simp add: chain_to_def)

lemma chain_to_push: "chain_to E s a \<Longrightarrow> (a, b) \<in> E \<Longrightarrow> chain_to E (s @ [a]) b"
  by (simp add: chain_to_def successively_append_iff)

lemma chain_to_cycle:
  assumes "chain_to E s a" and "position_of a s = Some n"
  shows "closed_cycle E (drop n s @ [a])"
proof -
  have n: "n < length s" "s ! n = a" using position_of_Some [OF assms(2)] by auto
  then have hd: "hd (drop n s) = a" by (simp add: hd_drop_conv_nth)
  have "successively (\<lambda>a b. (a, b) \<in> E) (take n s @ (drop n s @ [a]))"
    using assms(1) unfolding chain_to_def append_assoc [symmetric] append_take_drop_id .
  then have "successively (\<lambda>a b. (a, b) \<in> E) (drop n s @ [a])"
    by (simp only: successively_append_iff)
  with n hd show ?thesis by (simp add: closed_cycle_def)
qed

lemma cycle_visit_sound:
  "queue_dependency_cycle_visit t a v s = (Some c, v') \<Longrightarrow> chain_to (table_edges t) s a \<Longrightarrow>
     closed_cycle (table_edges t) c"
  "cycle_visit_each t ds v s = (Some c, v') \<Longrightarrow> (\<forall>d \<in> set ds. chain_to (table_edges t) s d) \<Longrightarrow>
     closed_cycle (table_edges t) c"
proof (induction t a v s and t ds v s arbitrary: c v' and c v'
    rule: queue_dependency_cycle_visit_cycle_visit_each.induct)
  case (1 t a v s)
  show ?case
  proof (cases "position_of a s")
    case None
    with "1.prems"(1) obtain ds where ds: "map_of t a = Some ds" "a \<notin> v"
      by (auto split: if_splits option.splits)
    with None "1.prems"(1) have each: "cycle_visit_each t ds v (s @ [a]) = (Some c, v')"
      by (auto split: prod.splits option.splits)
    have "chain_to (table_edges t) (s @ [a]) d" if "d \<in> set ds" for d
      using that ds "1.prems"(2) by (auto intro!: chain_to_push simp: table_edges_def)
    with each show ?thesis using "1.IH" [OF None ds(2,1)] by blast
  next
    case (Some n)
    with "1.prems" show ?thesis using chain_to_cycle by auto
  qed
next
  case (3 t d ds v s)
  then show ?case by (auto split: prod.splits option.splits)
qed simp

text \<open>What a visit that finds nothing has established.\<close>

definition cleared :: "(string \<times> string) set \<Rightarrow> string set \<Rightarrow> bool" where
  "cleared E v = (\<forall>a \<in> v. (a, a) \<notin> E\<^sup>+ \<and> (\<forall>b. (a, b) \<in> E \<longrightarrow> b \<in> v))"

lemma cleared_closed: "cleared E v \<Longrightarrow> a \<in> v \<Longrightarrow> (a, b) \<in> E\<^sup>* \<Longrightarrow> b \<in> v"
  by (rotate_tac 2, induction rule: rtrancl_induct) (auto simp: cleared_def)

lemma cleared_insert:
  assumes "cleared E v" and "\<forall>b. (a, b) \<in> E \<longrightarrow> b \<in> v"
  shows "cleared E (insert a v)"
proof -
  have "(a, a) \<notin> E\<^sup>+" if "a \<notin> v"
  proof
    assume "(a, a) \<in> E\<^sup>+"
    then obtain b where "(a, b) \<in> E" "(b, a) \<in> E\<^sup>*" by (meson tranclD)
    with assms that cleared_closed show False by blast
  qed
  with assms show ?thesis by (auto simp: cleared_def)
qed

lemma cycle_visit_complete:
  "queue_dependency_cycle_visit t a v s = (None, v') \<Longrightarrow> cleared (table_edges t) v \<Longrightarrow>
     cleared (table_edges t) v' \<and> v \<subseteq> v' \<and> a \<in> v'"
  "cycle_visit_each t ds v s = (None, v') \<Longrightarrow> cleared (table_edges t) v \<Longrightarrow>
     cleared (table_edges t) v' \<and> v \<subseteq> v' \<and> set ds \<subseteq> v'"
proof (induction t a v s and t ds v s arbitrary: v' and v'
    rule: queue_dependency_cycle_visit_cycle_visit_each.induct)
  case (1 t a v s)
  from "1.prems"(1) have pos: "position_of a s = None" by (auto split: option.splits)
  show ?case
  proof (cases "a \<in> v")
    case True
    with "1.prems" pos show ?thesis by auto
  next
    case new: False
    show ?thesis
    proof (cases "map_of t a")
      case None
      with new pos "1.prems" show ?thesis
        by (auto intro!: cleared_insert simp: table_edges_def)
    next
      case (Some ds)
      with new pos "1.prems"(1) obtain u where
        u: "cycle_visit_each t ds v (s @ [a]) = (None, u)" "v' = insert a u"
        by (auto split: prod.splits option.splits)
      have "cleared (table_edges t) u \<and> v \<subseteq> u \<and> set ds \<subseteq> u"
        using "1.IH" [OF pos new Some u(1) "1.prems"(2)] .
      with u(2) Some show ?thesis
        by (auto intro!: cleared_insert simp: table_edges_def)
    qed
  qed
next
  case (3 t d ds v s)
  from "3.prems"(1) obtain u where
    u: "queue_dependency_cycle_visit t d v s = (None, u)" "cycle_visit_each t ds u s = (None, v')"
    by (auto split: prod.splits option.splits)
  have one: "cleared (table_edges t) u \<and> v \<subseteq> u \<and> d \<in> u"
    using "3.IH"(1) [OF u(1) "3.prems"(2)] .
  have "cleared (table_edges t) v' \<and> u \<subseteq> v' \<and> set ds \<subseteq> v'"
    using "3.IH"(2) [OF u(1) [symmetric] refl u(2)] one by blast
  with one show ?case by auto
qed auto

lemma cycle_search_sound: "cycle_search t as v = Some c \<Longrightarrow> closed_cycle (table_edges t) c"
  by (induction as arbitrary: v) (auto simp del: queue_dependency_cycle_visit.simps
      split: prod.splits option.splits dest: cycle_visit_sound(1))

lemma cycle_search_complete:
  "cycle_search t as v = None \<Longrightarrow> cleared (table_edges t) v \<Longrightarrow>
     \<exists>v'. cleared (table_edges t) v' \<and> set as \<subseteq> v' \<and> v \<subseteq> v'"
proof (induction as arbitrary: v)
  case (Cons a as)
  from Cons.prems(1) obtain u where
    u: "queue_dependency_cycle_visit t a v [] = (None, u)" "cycle_search t as u = None"
    by (auto split: prod.splits option.splits)
  from cycle_visit_complete(1) [OF u(1) Cons.prems(2)] Cons.IH [OF u(2)] show ?case by fastforce
qed auto

lemma closed_cycle_trancl:
  assumes "closed_cycle E c"
  shows "(hd c, hd c) \<in> E\<^sup>+"
proof -
  have path: "(hd xs, last xs) \<in> E\<^sup>*" if "successively (\<lambda>a b. (a, b) \<in> E) xs" "xs \<noteq> []" for xs
    using that by (induction xs rule: induct_list012) (auto intro: converse_rtrancl_into_rtrancl)
  obtain a b cs where c: "c = a # b # cs"
    using assms by (cases c rule: remdups_adj.cases) (auto simp: closed_cycle_def)
  with assms have "(a, b) \<in> E" "(b, last c) \<in> E\<^sup>*" "last c = a"
    using path [of "b # cs"] by (auto simp: closed_cycle_def)
  with c show ?thesis by auto
qed

lemma dependency_table_edges:
  assumes "distinct (map qi_id items)"
  shows "table_edges (dependency_table items) = graph_edges items"
proof -
  have eq: "map fst (dependency_table items) = rev (map qi_id items)"
    by (simp add: dependency_table_def rev_map comp_def)
  have d: "distinct (map fst (dependency_table items))"
    using assms unfolding eq by simp
  have "map_of (dependency_table items) a = Some ds \<longleftrightarrow> (a, ds) \<in> set (dependency_table items)" for a ds
    using d by simp
  then show ?thesis
    by (auto simp: table_edges_def graph_edges_def dependency_table_def)
qed

lemma cycle_iff:
  assumes "distinct (map qi_id items)"
  shows "queue_dependency_graph_cycle items = None \<longleftrightarrow> acyclic (graph_edges items)"
proof
  assume none: "queue_dependency_graph_cycle items = None"
  have "cleared (table_edges (dependency_table items)) {}" by (simp add: cleared_def)
  with none cycle_search_complete obtain v where
    v: "cleared (graph_edges items) v" "qi_id ` set items \<subseteq> v"
    unfolding queue_dependency_graph_cycle_def dependency_table_edges [OF assms, symmetric]
    by (metis set_map)
  show "acyclic (graph_edges items)"
  proof (rule acyclicI, rule allI, rule notI)
    fix a
    assume "(a, a) \<in> (graph_edges items)\<^sup>+"
    moreover from this obtain b where "(a, b) \<in> graph_edges items" by (meson tranclD)
    then have "a \<in> v" using v(2) by (auto simp: graph_edges_def)
    ultimately show False using v(1) by (auto simp: cleared_def)
  qed
next
  assume acyc: "acyclic (graph_edges items)"
  show "queue_dependency_graph_cycle items = None"
  proof (rule ccontr)
    assume "queue_dependency_graph_cycle items \<noteq> None"
    then obtain c where "queue_dependency_graph_cycle items = Some c" by blast
    then have "closed_cycle (graph_edges items) c"
      unfolding queue_dependency_graph_cycle_def dependency_table_edges [OF assms, symmetric]
      by (rule cycle_search_sound)
    with acyc show False by (auto simp: acyclic_def dest: closed_cycle_trancl)
  qed
qed

lemma cycle_Some:
  assumes "distinct (map qi_id items)" and "queue_dependency_graph_cycle items = Some c"
  shows "closed_cycle (graph_edges items) c"
  using assms(2) unfolding queue_dependency_graph_cycle_def dependency_table_edges [OF assms(1), symmetric]
  by (rule cycle_search_sound)

section \<open>The waves are total and layer the graph\<close>

definition reachable_keys :: "dep_table \<Rightarrow> string \<Rightarrow> string set" where
  "reachable_keys t a = {b \<in> fst ` set t. (a, b) \<in> (table_edges t)\<^sup>*}"

text \<open>The wave of an item: one above the highest wave of its dependencies, 0 without any.\<close>

definition is_wave :: "(string \<times> string) set \<Rightarrow> (string \<Rightarrow> nat option) \<Rightarrow> string \<Rightarrow> nat \<Rightarrow> bool" where
  "is_wave E m a w =
     ((\<forall>b. (a, b) \<in> E \<longrightarrow> (\<exists>wb. m b = Some wb \<and> wb < w)) \<and>
      (w = 0 \<or> (\<exists>b. (a, b) \<in> E \<and> m b = Some (w - 1))))"

definition memo_ok :: "dep_table \<Rightarrow> (string \<Rightarrow> nat option) \<Rightarrow> bool" where
  "memo_ok t m = (\<forall>a w. m a = Some w \<longrightarrow> is_wave (table_edges t) m a w \<and> w \<le> card (reachable_keys t a))"

lemma is_wave_mono: "is_wave E m a w \<Longrightarrow> m \<subseteq>\<^sub>m m' \<Longrightarrow> is_wave E m' a w"
  unfolding is_wave_def map_le_def by (metis domI)

lemma finite_reachable_keys [simp]: "finite (reachable_keys t a)"
  by (simp add: reachable_keys_def)

lemma card_reachable_keys: "card (reachable_keys t a) \<le> length t"
proof -
  have "card (reachable_keys t a) \<le> card (fst ` set t)"
    by (rule card_mono) (auto simp: reachable_keys_def)
  also have "\<dots> \<le> length t" by (metis card_image_le card_length finite_set le_trans)
  finally show ?thesis .
qed

lemma reachable_keys_step:
  assumes "acyclic (table_edges t)" and "map_of t a = Some ds" and "d \<in> set ds"
  shows "card (reachable_keys t d) < card (reachable_keys t a)"
proof (rule psubset_card_mono)
  have edge: "(a, d) \<in> table_edges t" using assms(2,3) by (auto simp: table_edges_def)
  have "a \<in> fst ` set t" using assms(2) by (metis map_of_eq_None_iff option.distinct(1))
  then have "a \<in> reachable_keys t a" by (simp add: reachable_keys_def)
  moreover have "a \<notin> reachable_keys t d"
    using edge assms(1) by (auto simp: reachable_keys_def acyclic_def dest: rtrancl_into_trancl2)
  moreover have "reachable_keys t d \<subseteq> reachable_keys t a"
    using edge by (auto simp: reachable_keys_def intro: converse_rtrancl_into_rtrancl)
  ultimately show "reachable_keys t d \<subset> reachable_keys t a" by blast
qed simp

definition above_all :: "(string \<Rightarrow> nat option) \<Rightarrow> string list \<Rightarrow> nat \<Rightarrow> bool" where
  "above_all m ds w = ((\<forall>d \<in> set ds. \<exists>wd. m d = Some wd \<and> wd < w) \<and> (w = 0 \<or> (\<exists>d \<in> set ds. m d = Some (w - 1))))"

lemma above_all_wave: "map_of t a = Some ds \<Longrightarrow> is_wave (table_edges t) m a w = above_all m ds w"
  by (auto simp: is_wave_def above_all_def table_edges_def)

lemma above_all_Cons:
  assumes "above_all m ds w'" and "m d = Some w"
  shows "above_all m (d # ds) (max (Suc w) w')"
proof (cases "Suc w \<le> w'")
  case True
  with assms show ?thesis by (auto simp: above_all_def max_def)
next
  case False
  then have "max (Suc w) w' = Suc w" by simp
  moreover have "above_all m (d # ds) (Suc w)"
    using assms False unfolding above_all_def by (auto intro: less_trans)
  ultimately show ?thesis by simp
qed

lemma above_all_mono: "above_all m ds w \<Longrightarrow> m \<subseteq>\<^sub>m m' \<Longrightarrow> above_all m' ds w"
  unfolding above_all_def map_le_def by (metis domI)

lemma memo_ok_update:
  assumes m: "memo_ok t m" "m a = None" and a: "is_wave (table_edges t) m a w" "w \<le> card (reachable_keys t a)"
  shows "memo_ok t (m(a \<mapsto> w))" and "m \<subseteq>\<^sub>m m(a \<mapsto> w)"
proof -
  show le: "m \<subseteq>\<^sub>m m(a \<mapsto> w)" using m(2) by (auto simp: map_le_def)
  show "memo_ok t (m(a \<mapsto> w))"
    using m(1) a is_wave_mono [OF _ le] by (auto simp: memo_ok_def)
qed

lemma above_all_unique: "above_all m ds w \<Longrightarrow> above_all m ds v \<Longrightarrow> w = v"
proof -
  have "w \<le> v" if "above_all m ds w" "above_all m ds v" for w v
    using that by (fastforce simp: above_all_def)
  then show "above_all m ds w \<Longrightarrow> above_all m ds v \<Longrightarrow> w = v" by (meson le_antisym)
qed

lemma memo_ok_bound: "memo_ok t m \<Longrightarrow> m d = Some w \<Longrightarrow> w \<le> card (reachable_keys t d)"
  by (simp add: memo_ok_def)

lemma above_all_bound:
  assumes "above_all m ds w" and "memo_ok t m" and "\<forall>d \<in> set ds. card (reachable_keys t d) < k"
  shows "w \<le> k"
proof (cases w)
  case (Suc v)
  then obtain d where "d \<in> set ds" "m d = Some v" using assms(1) by (auto simp: above_all_def)
  with assms(3) memo_ok_bound [OF assms(2)] Suc show ?thesis by fastforce
qed simp

lemma wave_index_total:
  shows "acyclic (table_edges t) \<and> length t < u64_max \<Longrightarrow> card (reachable_keys t a) < n \<Longrightarrow> memo_ok t m \<Longrightarrow>
      \<exists>w m'. queue_graph_wave_index n t a m = Some (w, m') \<and> m \<subseteq>\<^sub>m m' \<and> m' a = Some w \<and> memo_ok t m'"
    and "acyclic (table_edges t) \<and> length t < u64_max \<Longrightarrow>
      \<forall>d \<in> set ds. card (reachable_keys t d) < n \<Longrightarrow> memo_ok t m \<Longrightarrow>
      \<exists>w m'. wave_above n t ds m = Some (w, m') \<and> m \<subseteq>\<^sub>m m' \<and> above_all m' ds w \<and> memo_ok t m'"
proof (induction n t a m and n t ds m rule: queue_graph_wave_index_wave_above.induct)
  case (2 n t a m)
  have acyc: "acyclic (table_edges t)" using "2.prems"(1) by simp
  show ?case
  proof (cases "m a")
    case new: None
    show ?thesis
    proof (cases "map_of t a")
      case None
      then have "is_wave (table_edges t) m a 0" by (auto simp: is_wave_def table_edges_def)
      with new None "2.prems" memo_ok_update [of t m a 0] show ?thesis by auto
    next
      case (Some ds)
      have step: "\<forall>d \<in> set ds. card (reachable_keys t d) < card (reachable_keys t a)"
        using reachable_keys_step [OF acyc Some] by blast
      then have "\<forall>d \<in> set ds. card (reachable_keys t d) < n" using "2.prems"(2) by auto
      from "2.IH" [OF new Some "2.prems"(1) this "2.prems"(3)] obtain w m' where
        w: "wave_above n t ds m = Some (w, m')" "m \<subseteq>\<^sub>m m'" "above_all m' ds w" "memo_ok t m'" by blast
      have wave: "is_wave (table_edges t) m' a w" using w(3) above_all_wave [OF Some] by blast
      have bound: "w \<le> card (reachable_keys t a)" using above_all_bound [OF w(3,4) step] .
      have "m' \<subseteq>\<^sub>m m'(a \<mapsto> w) \<and> memo_ok t (m'(a \<mapsto> w))"
      proof (cases "m' a")
        case None
        show ?thesis using memo_ok_update [OF w(4) None wave bound] by blast
      next
        case (Some v)
        then have "is_wave (table_edges t) m' a v" using w(4) by (simp add: memo_ok_def)
        then have "v = w" using w(3) above_all_wave [OF \<open>map_of t a = Some ds\<close>] above_all_unique by blast
        with Some have "m'(a \<mapsto> w) = m'" by auto
        with w(4) show ?thesis by simp
      qed
      moreover have "queue_graph_wave_index (Suc n) t a m = Some (w, m'(a \<mapsto> w))"
        using new Some w(1) by simp
      ultimately show ?thesis using w(2) map_le_trans by fastforce
    qed
  next
    case (Some w)
    with "2.prems" show ?thesis by simp
  qed
next
  case (4 n t d ds m)
  from "4.IH"(1) "4.prems" obtain w m1 where
    w: "queue_graph_wave_index n t d m = Some (w, m1)" "m \<subseteq>\<^sub>m m1" "m1 d = Some w" "memo_ok t m1" by auto
  from "4.IH"(2) [OF w(1) refl "4.prems"(1)] "4.prems" w(4) obtain w' m2 where
    w': "wave_above n t ds m1 = Some (w', m2)" "m1 \<subseteq>\<^sub>m m2" "above_all m2 ds w'" "memo_ok t m2" by auto
  have "w < u64_max" using memo_ok_bound [OF w(4,3)] card_reachable_keys [of t d] "4.prems"(1) by linarith
  then have sat: "sat_add_u64 w 1 = Suc w" by (simp add: sat_add_u64_exact)
  have "m2 d = Some w" using w(3) w'(2) by (metis domI map_le_def)
  then have "above_all m2 (d # ds) (max (Suc w) w')" using above_all_Cons [OF w'(3)] by blast
  moreover have "wave_above n t (d # ds) m = Some (max (Suc w) w', m2)" using w(1) w'(1) sat by simp
  ultimately show ?case using w(2) w'(2,4) map_le_trans by blast
next
  case (3 n t m)
  then show ?case by (auto simp: above_all_def)
qed auto

lemma wave_each_total:
  "acyclic (table_edges t) \<and> length t < u64_max \<Longrightarrow> memo_ok t m \<Longrightarrow>
     \<exists>m'. wave_each (Suc (length t)) t as m = Some m' \<and> m \<subseteq>\<^sub>m m' \<and> set as \<subseteq> dom m' \<and> memo_ok t m'"
proof (induction as arbitrary: m)
  case (Cons a as)
  have "card (reachable_keys t a) < Suc (length t)" using card_reachable_keys [of t a] by simp
  from wave_index_total(1) [OF Cons.prems(1) this Cons.prems(2)] obtain w m1 where
    w: "queue_graph_wave_index (Suc (length t)) t a m = Some (w, m1)" "m \<subseteq>\<^sub>m m1" "m1 a = Some w" "memo_ok t m1"
    by blast
  from Cons.IH [OF Cons.prems(1) w(4)] obtain m2 where
    m2: "wave_each (Suc (length t)) t as m1 = Some m2" "m1 \<subseteq>\<^sub>m m2" "set as \<subseteq> dom m2" "memo_ok t m2" by blast
  have "m1(a \<mapsto> w) = m1" using w(3) by auto
  then have "wave_each (Suc (length t)) t (a # as) m = Some m2"
    using w(1) m2(1) by (simp del: queue_graph_wave_index.simps)
  moreover have "a \<in> dom m2" using w(3) m2(2) by (metis domI map_le_def)
  ultimately show ?case using w(2) m2(2,3,4) map_le_trans by (metis insert_subset list.simps(15))
qed simp

lemma wave_indices_total:
  assumes "distinct (map qi_id items)" and "acyclic (graph_edges items)" and "length items < u64_max"
  obtains waves where "queue_graph_wave_indices items = Some waves"
    and "\<forall>i \<in> set items. \<exists>w. waves (qi_id i) = Some w \<and> above_all waves (qi_depends_on i) w"
proof -
  let ?t = "dependency_table items"
  have len: "length ?t = length items" by (simp add: dependency_table_def)
  have "acyclic (table_edges ?t) \<and> length ?t < u64_max"
    using assms dependency_table_edges len by simp
  moreover have "memo_ok ?t Map.empty" by (simp add: memo_ok_def)
  ultimately obtain waves where w: "wave_each (Suc (length ?t)) ?t (map qi_id items) Map.empty = Some waves"
    "set (map qi_id items) \<subseteq> dom waves" "memo_ok ?t waves"
    using wave_each_total by blast
  show ?thesis
  proof (rule that)
    show "queue_graph_wave_indices items = Some waves"
      using w(1) len by (simp add: queue_graph_wave_indices_def)
    show "\<forall>i \<in> set items. \<exists>w. waves (qi_id i) = Some w \<and> above_all waves (qi_depends_on i) w"
    proof
      fix i assume i: "i \<in> set items"
      with w(2) obtain v where v: "waves (qi_id i) = Some v" by auto
      with w(3) have wave: "is_wave (table_edges ?t) waves (qi_id i) v" by (simp add: memo_ok_def)
      have "(qi_id i, b) \<in> graph_edges items \<longleftrightarrow> b \<in> set (qi_depends_on i)" for b
        using i assms(1) by (auto simp: graph_edges_def distinct_map inj_on_def)
      with wave v show "\<exists>w. waves (qi_id i) = Some w \<and> above_all waves (qi_depends_on i) w"
        unfolding dependency_table_edges [OF assms(1)] is_wave_def above_all_def by blast
    qed
  qed
qed

section \<open>Dependency lists after normalisation\<close>

lemma normalize_list_facts:
  "normalize_dependency_list refs it seen deps = (ks, ws) \<Longrightarrow>
     distinct ks \<and> set ks = {d. d \<notin> seen \<and> d \<noteq> qi_id it \<and> (\<exists>dep \<in> set deps. trim dep \<noteq> [] \<and> refs dep = Some d)} \<and>
     length ks + length ws = length deps \<and> (\<forall>w \<in> set ws. gd_severity w = SeverityWarning)"
proof (induction refs it seen deps arbitrary: ks ws rule: normalize_dependency_list.induct)
  case (2 refs it seen dep deps)
  show ?case
  proof (cases "normalize_graph_dependency refs it seen dep")
    case (Inl w)
    with "2.prems" obtain vs where vs: "normalize_dependency_list refs it seen deps = (ks, vs)" "ws = w # vs"
      by (auto split: prod.splits)
    have "gd_severity w = SeverityWarning" and
      "\<not> (trim dep \<noteq> [] \<and> (\<exists>d. refs dep = Some d \<and> d \<noteq> qi_id it \<and> d \<notin> seen))"
      using Inl by (auto simp: normalize_graph_dependency_def queue_graph_dependency_diagnostic_def
          queue_graph_diagnostic_def split: if_splits option.splits)
    with "2.IH"(1) [OF Inl vs(1)] vs(2) show ?thesis by auto
  next
    case (Inr d)
    with "2.prems" obtain js where js: "normalize_dependency_list refs it (insert d seen) deps = (js, ws)" "ks = d # js"
      by (auto split: prod.splits)
    have "trim dep \<noteq> [] \<and> refs dep = Some d \<and> d \<noteq> qi_id it \<and> d \<notin> seen"
      using Inr by (auto simp: normalize_graph_dependency_def split: if_splits option.splits)
    with "2.IH"(2) [OF Inr js(1)] js(2) show ?thesis by auto
  qed
qed auto

lemma normalize_list_fixed:
  "distinct deps \<Longrightarrow> \<forall>d \<in> set deps. trim d \<noteq> [] \<and> refs d = Some d \<and> d \<noteq> qi_id it \<and> d \<notin> seen \<Longrightarrow>
     normalize_dependency_list refs it seen deps = (deps, [])"
proof (induction deps arbitrary: seen)
  case (Cons a deps)
  have "normalize_dependency_list refs it (insert a seen) deps = (deps, [])"
    by (rule Cons.IH) (use Cons.prems in auto)
  with Cons.prems show ?case by (simp add: normalize_graph_dependency_def)
qed simp

lemma slug_references_keep: "refs x = Some y \<Longrightarrow> slug_references items refs x = Some y"
proof (induction items arbitrary: refs)
  case (Cons i items)
  have "(refs(qi_slug i \<mapsto> qi_id i)) x = Some y" if "refs (qi_slug i) = None"
    using Cons.prems that by auto
  with Cons show ?case by simp
qed simp

lemma slug_references_target:
  "slug_references items refs x = Some y \<Longrightarrow> refs x = Some y \<or> y \<in> qi_id ` set items"
  by (induction items arbitrary: refs) (fastforce split: if_splits)+

lemma id_references:
  "foldl (\<lambda>m i. m(qi_id i \<mapsto> qi_id i)) m items x = (if x \<in> qi_id ` set items then Some x else m x)"
  by (induction items arbitrary: m) auto

lemma dependency_references_id: "x \<in> qi_id ` set items \<Longrightarrow> dependency_references items x = Some x"
  unfolding dependency_references_def by (rule slug_references_keep) (simp add: id_references)

lemma dependency_references_target: "dependency_references items x = Some y \<Longrightarrow> y \<in> qi_id ` set items"
  unfolding dependency_references_def
  by (drule slug_references_target) (auto simp: id_references split: if_splits)

text \<open>An item keeps everything but its dependencies.\<close>

definition same_but_deps :: "queue_item_row \<Rightarrow> queue_item_row \<Rightarrow> bool" where
  "same_but_deps i j = (j\<lparr>qi_depends_on := qi_depends_on i\<rparr> = i)"

lemma same_but_deps_update [simp]: "same_but_deps i (i\<lparr>qi_depends_on := ks\<rparr>)"
  by (simp add: same_but_deps_def)

lemma same_but_deps_fields: "same_but_deps i j \<Longrightarrow> qi_id j = qi_id i \<and> qi_slug j = qi_slug i"
  by (cases i; cases j) (simp add: same_but_deps_def)

text \<open>The dependencies an item means: the other items it names by id or slug.\<close>

definition meant_dependencies :: "queue_item_row list \<Rightarrow> queue_item_row \<Rightarrow> string set" where
  "meant_dependencies items i =
     {d. d \<noteq> qi_id i \<and> (\<exists>dep \<in> set (qi_depends_on i). trim dep \<noteq> [] \<and> dependency_references items dep = Some d)}"

definition meant_edges :: "queue_item_row list \<Rightarrow> (string \<times> string) set" where
  "meant_edges items = {(qi_id i, d) | i d. i \<in> set items \<and> d \<in> meant_dependencies items i}"

definition dependency_count :: "queue_item_row list \<Rightarrow> nat" where
  "dependency_count items = sum_list (map (length \<circ> qi_depends_on) items)"

lemma normalize_each_facts:
  "normalize_each refs xs = (js, ws) \<Longrightarrow>
     list_all2 (\<lambda>i j. same_but_deps i j \<and> distinct (qi_depends_on j) \<and> set (qi_depends_on j) =
         {d. d \<noteq> qi_id i \<and> (\<exists>dep \<in> set (qi_depends_on i). trim dep \<noteq> [] \<and> refs dep = Some d)}) xs js \<and>
     dependency_count js + length ws = dependency_count xs \<and> (\<forall>w \<in> set ws. gd_severity w = SeverityWarning)"
proof (induction refs xs arbitrary: js ws rule: normalize_each.induct)
  case (2 refs i xs)
  obtain ks vs where ks: "normalize_dependency_list refs i {} (qi_depends_on i) = (ks, vs)" by fastforce
  obtain ls us where ls: "normalize_each refs xs = (ls, us)" by fastforce
  from 2 ks ls have "js = i\<lparr>qi_depends_on := ks\<rparr> # ls" "ws = vs @ us" by auto
  with "2.IH" [OF ks [symmetric] refl ls] normalize_list_facts [OF ks] show ?case
    by (auto simp: dependency_count_def)
qed (simp add: dependency_count_def)

lemma dependency_references_cong:
  assumes "list_all2 same_but_deps xs js"
  shows "dependency_references js = dependency_references xs"
proof -
  have slugs: "slug_references js r = slug_references xs r" for r
    using assms
  proof (induction xs js arbitrary: r rule: list_all2_induct)
    case (Cons i xs j js)
    have "qi_slug j = qi_slug i" "qi_id j = qi_id i" using same_but_deps_fields [OF Cons(1)] by auto
    then show ?case by (simp only: slug_references.simps Cons)
  qed simp
  have ids: "foldl (\<lambda>m i. m(qi_id i \<mapsto> qi_id i)) r js = foldl (\<lambda>m i. m(qi_id i \<mapsto> qi_id i)) r xs" for r
    using assms
  proof (induction xs js arbitrary: r rule: list_all2_induct)
    case (Cons i xs j js)
    have "qi_id j = qi_id i" using same_but_deps_fields [OF Cons(1)] by auto
    then show ?case by (simp only: foldl_Cons Cons)
  qed simp
  show ?thesis by (simp only: dependency_references_def slugs ids)
qed

lemma same_but_deps_ids: "list_all2 same_but_deps xs js \<Longrightarrow> map qi_id js = map qi_id xs"
  by (induction xs js rule: list_all2_induct) (auto dest: same_but_deps_fields)

section \<open>What normalisation promises\<close>

definition ids_ok :: "queue_item_row list \<Rightarrow> bool" where
  "ids_ok items = (distinct (map qi_id items) \<and> (\<forall>i \<in> set items. trim (qi_id i) \<noteq> []))"

lemma id_diagnostics_Nil:
  "id_diagnostics_from seen items = [] \<longleftrightarrow> ids_ok items \<and> (\<forall>i \<in> set items. qi_id i \<notin> seen)"
  by (induction seen items rule: id_diagnostics_from.induct) (auto simp: ids_ok_def image_iff)

lemma id_diagnostics_kinds:
  "d \<in> set (id_diagnostics_from seen items) \<Longrightarrow>
     gd_severity d = SeverityError \<and> gd_kind d \<noteq> Cycle"
  by (induction seen items rule: id_diagnostics_from.induct)
     (auto simp: queue_graph_diagnostic_def split: if_splits)

lemma id_diagnostics_duplicate:
  "list_ex (\<lambda>d. gd_kind d = DuplicateId) (id_diagnostics_from seen items) \<longleftrightarrow>
     \<not> (distinct (filter (\<lambda>a. trim a \<noteq> []) (map qi_id items)) \<and>
        (\<forall>i \<in> set items. trim (qi_id i) \<noteq> [] \<longrightarrow> qi_id i \<notin> seen))"
  by (induction seen items rule: id_diagnostics_from.induct)
     (auto simp: queue_graph_diagnostic_def image_iff)

lemma id_diagnostics_missing:
  "list_ex (\<lambda>d. gd_kind d = MissingId) (id_diagnostics_from seen items) \<longleftrightarrow> (\<exists>i \<in> set items. trim (qi_id i) = [])"
  by (induction seen items rule: id_diagnostics_from.induct)
     (auto simp: queue_graph_diagnostic_def)

lemma preliminary_errors:
  "has_errors (queue_graph_diagnostics mode items metadata w (queue_graph_id_diagnostics items)) \<longleftrightarrow> \<not> ids_ok items"
proof -
  have "list_ex (\<lambda>d. gd_severity d = SeverityError) ds \<longleftrightarrow> ds \<noteq> []" if "ds = queue_graph_id_diagnostics items" for ds
    using id_diagnostics_kinds [of _ "{}" items] unfolding that queue_graph_id_diagnostics_def
    by (cases "id_diagnostics_from {} items") auto
  then show ?thesis
    using id_diagnostics_Nil [of "{}" items]
    by (simp add: has_errors_def queue_graph_diagnostics_def queue_graph_id_diagnostics_def)
qed

lemma ids_ok_no_diagnostics: "ids_ok items \<Longrightarrow> queue_graph_id_diagnostics items = []"
  using id_diagnostics_Nil [of "{}" items] by (simp add: queue_graph_id_diagnostics_def)

lemma list_all2_left: "list_all2 P xs ys \<Longrightarrow> x \<in> set xs \<Longrightarrow> \<exists>y \<in> set ys. P x y"
  by (induction xs ys rule: list_all2_induct) auto

lemma list_all2_right: "list_all2 P xs ys \<Longrightarrow> y \<in> set ys \<Longrightarrow> \<exists>x \<in> set xs. P x y"
  by (induction xs ys rule: list_all2_induct) auto

lemma normalized_items:
  assumes "ids_ok items" and "normalize_graph_dependencies items = (js, ws)"
  shows "list_all2 same_but_deps items js" and "ids_ok js" and "graph_edges js = meant_edges items"
    and "\<forall>j \<in> set js. distinct (qi_depends_on j) \<and> qi_id j \<notin> set (qi_depends_on j) \<and>
          set (qi_depends_on j) \<subseteq> qi_id ` set js"
    and "dependency_count js + length ws = dependency_count items"
    and "\<forall>w \<in> set ws. gd_severity w = SeverityWarning"
proof -
  have all: "list_all2 (\<lambda>i j. same_but_deps i j \<and> distinct (qi_depends_on j) \<and>
      set (qi_depends_on j) = meant_dependencies items i) items js"
    and count: "dependency_count js + length ws = dependency_count items"
      "\<forall>w \<in> set ws. gd_severity w = SeverityWarning"
    using normalize_each_facts [OF assms(2) [unfolded normalize_graph_dependencies_def]]
    by (simp_all add: meant_dependencies_def)
  show same: "list_all2 same_but_deps items js" using all by (rule list_all2_mono) blast
  have ids: "map qi_id js = map qi_id items" using same_but_deps_ids [OF same] .
  then have "set (map qi_id js) = set (map qi_id items)" by (rule arg_cong)
  then have idset: "qi_id ` set js = qi_id ` set items" by simp
  have blank: "(\<forall>a \<in> qi_id ` set items. trim a \<noteq> [])" using assms(1) by (simp add: ids_ok_def)
  then have "(\<forall>a \<in> qi_id ` set js. trim a \<noteq> [])" using idset by simp
  with assms(1) ids show "ids_ok js" by (simp add: ids_ok_def)
  show "graph_edges js = meant_edges items"
  proof (intro set_eqI iffI; clarify)
    fix a b assume "(a, b) \<in> graph_edges js"
    then obtain j where j: "j \<in> set js" "a = qi_id j" "b \<in> set (qi_depends_on j)" by (auto simp: graph_edges_def)
    then obtain i where "i \<in> set items" "same_but_deps i j" "set (qi_depends_on j) = meant_dependencies items i"
      using list_all2_right [OF all] by blast
    note i = this
    have "a = qi_id i" using same_but_deps_fields [OF i(2)] j(2) by simp
    moreover have "b \<in> meant_dependencies items i" using i(3) j(3) by simp
    ultimately show "(a, b) \<in> meant_edges items" using i(1) unfolding meant_edges_def by blast
  next
    fix a b assume "(a, b) \<in> meant_edges items"
    then obtain i where i: "i \<in> set items" "a = qi_id i" "b \<in> meant_dependencies items i" by (auto simp: meant_edges_def)
    then obtain j where "j \<in> set js" "same_but_deps i j" "set (qi_depends_on j) = meant_dependencies items i"
      using list_all2_left [OF all] by blast
    note j = this
    have "a = qi_id j" using same_but_deps_fields [OF j(2)] i(2) by simp
    moreover have "b \<in> set (qi_depends_on j)" using i(3) j(3) by simp
    ultimately show "(a, b) \<in> graph_edges js" using j(1) unfolding graph_edges_def by blast
  qed
  show "\<forall>j \<in> set js. distinct (qi_depends_on j) \<and> qi_id j \<notin> set (qi_depends_on j) \<and>
      set (qi_depends_on j) \<subseteq> qi_id ` set js"
  proof
    fix j assume "j \<in> set js"
    then obtain i where i: "same_but_deps i j" "distinct (qi_depends_on j)" "set (qi_depends_on j) = meant_dependencies items i"
      using list_all2_right [OF all] by blast
    have "qi_id i \<notin> meant_dependencies items i" "meant_dependencies items i \<subseteq> qi_id ` set items"
      using dependency_references_target by (auto simp: meant_dependencies_def)
    moreover have "qi_id j = qi_id i" using same_but_deps_fields [OF i(1)] by blast
    ultimately show "distinct (qi_depends_on j) \<and> qi_id j \<notin> set (qi_depends_on j) \<and>
        set (qi_depends_on j) \<subseteq> qi_id ` set js"
      using i(2) by (simp only: i(3) idset simp_thms)
  qed
  show "dependency_count js + length ws = dependency_count items" "\<forall>w \<in> set ws. gd_severity w = SeverityWarning"
    using count by auto
qed

lemma wave_conflicts_warn:
  "d \<in> set (queue_graph_wave_conflicts items metadata waves) \<Longrightarrow>
     gd_severity d = SeverityWarning \<and> gd_kind d = WaveConflict"
  by (auto simp: queue_graph_wave_conflicts_def wave_conflict_of_def map_filter_def Option.bind_eq_Some_conv
      queue_graph_diagnostic_def split: if_splits prod.splits)

lemma map_enumerate_snd: "map (\<lambda>x. f (snd x)) (enumerate n xs) = map f xs"
  by (induction xs arbitrary: n) auto

lemma normalize_accepted:
  assumes "ids_ok items" and "normalize_graph_dependencies items = (js, ws)"
    and "acyclic (meant_edges items)" and "queue_graph_wave_indices js = Some waves"
  shows "normalize_queue_dependencies_with_metadata ModeGraph items metadata =
    Some (Inr (queue_graph_diagnostics ModeGraph js metadata (Some waves)
      (ws @ queue_graph_wave_conflicts js metadata waves)), js)"
proof -
  have "queue_dependency_graph_cycle js = None"
    using cycle_iff [of js] normalized_items(2,3) [OF assms(1,2)] assms(3) by (simp add: ids_ok_def)
  then show ?thesis
    using assms preliminary_errors [of ModeGraph items metadata None] ids_ok_no_diagnostics [OF assms(1)]
    by (simp add: normalize_queue_dependencies_with_metadata_def)
qed

lemma normalize_rejected_ids:
  "\<not> ids_ok items \<Longrightarrow> normalize_queue_dependencies_with_metadata ModeGraph items metadata =
     Some (Inl (validation_error (queue_graph_diagnostics ModeGraph items metadata None
       (queue_graph_id_diagnostics items))), items)"
  using preliminary_errors [of ModeGraph items metadata None]
  by (simp add: normalize_queue_dependencies_with_metadata_def Let_def)

lemma normalize_rejected_cycle:
  assumes "ids_ok items" and "normalize_graph_dependencies items = (js, ws)"
    and "queue_dependency_graph_cycle js = Some c"
  shows "normalize_queue_dependencies_with_metadata ModeGraph items metadata =
    Some (Inl (validation_error (queue_graph_diagnostics ModeGraph js metadata None
      (ws @ [queue_graph_cycle_diagnostic c]))), js)"
  using assms preliminary_errors [of ModeGraph items metadata None] ids_ok_no_diagnostics [OF assms(1)]
  by (simp add: normalize_queue_dependencies_with_metadata_def)

lemma ids_message:
  assumes "\<not> ids_ok items"
  shows "validation_message (queue_graph_diagnostics m items md w (queue_graph_id_diagnostics items)) =
    (if distinct (filter (\<lambda>a. trim a \<noteq> []) (map qi_id items))
     then ''queue dependency graph contains items without ids''
     else ''queue dependency graph contains duplicate item ids'')"
proof -
  let ?ds = "queue_graph_id_diagnostics items"
  have cyc: "\<not> list_ex (\<lambda>d. gd_kind d = Cycle) ?ds"
    using id_diagnostics_kinds [of _ "{}" items] by (auto simp: list_ex_iff queue_graph_id_diagnostics_def)
  have dup: "list_ex (\<lambda>d. gd_kind d = DuplicateId) ?ds \<longleftrightarrow> \<not> distinct (filter (\<lambda>a. trim a \<noteq> []) (map qi_id items))"
    using id_diagnostics_duplicate [of "{}" items] by (simp add: queue_graph_id_diagnostics_def)
  have miss: "list_ex (\<lambda>d. gd_kind d = MissingId) ?ds \<longleftrightarrow> (\<exists>i \<in> set items. trim (qi_id i) = [])"
    using id_diagnostics_missing [of "{}" items] by (simp add: queue_graph_id_diagnostics_def)
  have "\<exists>i \<in> set items. trim (qi_id i) = []" if d: "distinct (filter (\<lambda>a. trim a \<noteq> []) (map qi_id items))"
  proof (rule ccontr)
    assume none: "\<not> (\<exists>i \<in> set items. trim (qi_id i) = [])"
    then have "filter (\<lambda>a. trim a \<noteq> []) (map qi_id items) = map qi_id items" by (auto intro: filter_True)
    with d none assms show False unfolding ids_ok_def by metis
  qed
  with cyc dup miss show ?thesis
    by (simp only: validation_message_def queue_graph_diagnostics_def graph_diagnostics.simps) simp
qed

text \<open>
  C12. The graph of a queue is accepted exactly when every item has an id of its own and the
  dependencies, read as ids or slugs of other items, have no cycle; no input makes the recursion
  run for ever. The accepted items keep everything but their dependency lists, which become the
  ids they mean, each once, and every item lies in the wave one above its highest dependency,
  or in wave 0 without any. The report is free of errors.
\<close>

theorem graph_accepted_iff_acyclic:
  assumes "length items < u64_max"
  shows "if ids_ok items \<and> acyclic (meant_edges items)
    then \<exists>report js waves. normalize_queue_dependencies_with_metadata ModeGraph items metadata = Some (Inr report, js) \<and>
      gr_ok report \<and> list_all2 same_but_deps items js \<and> graph_edges js = meant_edges items \<and>
      (\<forall>j \<in> set js. distinct (qi_depends_on j) \<and> (\<exists>w. waves (qi_id j) = Some w \<and> above_all waves (qi_depends_on j) w)) \<and>
      map gi_canonical_wave_index (gr_items report) = map (waves \<circ> qi_id) js
    else \<exists>e js. normalize_queue_dependencies_with_metadata ModeGraph items metadata = Some (Inl e, js) \<and>
      \<not> gr_ok (ge_diagnostics e)"
proof -
  obtain js ws where js: "normalize_graph_dependencies items = (js, ws)" by fastforce
  show ?thesis
  proof (cases "ids_ok items")
    case False
    have "\<not> gr_ok (queue_graph_diagnostics ModeGraph items metadata None (queue_graph_id_diagnostics items))"
      using preliminary_errors [of ModeGraph items metadata None] False
      by (auto simp: has_errors_def queue_graph_diagnostics_def list_all_iff list_ex_iff)
    with False show ?thesis by (simp add: normalize_rejected_ids validation_error_def)
  next
    case ok: True
    note n = normalized_items [OF ok js]
    have dist: "distinct (map qi_id js)" using n(2) by (simp add: ids_ok_def)
    have len: "length js = length items" using n(1) by (simp add: list_all2_lengthD)
    show ?thesis
    proof (cases "acyclic (meant_edges items)")
      case True
      obtain waves where w: "queue_graph_wave_indices js = Some waves"
        "\<forall>j \<in> set js. \<exists>w. waves (qi_id j) = Some w \<and> above_all waves (qi_depends_on j) w"
        using wave_indices_total [OF dist] True n(3) len assms by metis
      let ?r = "queue_graph_diagnostics ModeGraph js metadata (Some waves)
        (ws @ queue_graph_wave_conflicts js metadata waves)"
      have "gr_ok ?r"
        using n(6) wave_conflicts_warn by (fastforce simp: queue_graph_diagnostics_def list_all_iff)
      moreover have "map gi_canonical_wave_index (gr_items ?r) = map (waves \<circ> qi_id) js"
        by (simp add: queue_graph_diagnostics_def queue_graph_item_diagnostic_def Let_def comp_def
            case_prod_unfold map_enumerate_snd [of "\<lambda>i. waves (qi_id i)"])
      ultimately show ?thesis
        using ok True n(1,3,4) w(2) normalize_accepted [OF ok js True w(1), of metadata] by auto
    next
      case False
      then obtain c where c: "queue_dependency_graph_cycle js = Some c"
        using cycle_iff [OF dist] n(3) by fastforce
      have "\<not> gr_ok (queue_graph_diagnostics ModeGraph js metadata None (ws @ [queue_graph_cycle_diagnostic c]))"
        by (simp add: queue_graph_diagnostics_def queue_graph_cycle_diagnostic_def)
      with False normalize_rejected_cycle [OF ok js c, of metadata] show ?thesis
        by (simp add: validation_error_def)
    qed
  qed
qed

text \<open>
  C13. A rejected graph is rejected for the reason it gives. With proper ids, the items given and a
  cycle among the dependencies, the last diagnostic holds a path of at least one edge that comes
  back to where it starts, and the message says cycle. Without proper ids nothing has been
  rewritten and the message says whether ids repeat or are missing.
\<close>

theorem graph_rejection_is_explained:
  assumes "normalize_queue_dependencies_with_metadata ModeGraph items metadata = Some (Inl e, js)"
  shows "if ids_ok items
    then ge_message e = ''queue dependency graph contains a cycle'' \<and>
      (\<exists>c ds. gr_diagnostics (ge_diagnostics e) = ds @ [queue_graph_cycle_diagnostic c] \<and>
         closed_cycle (meant_edges items) c)
    else js = items \<and> ge_message e =
      (if distinct (filter (\<lambda>a. trim a \<noteq> []) (map qi_id items))
       then ''queue dependency graph contains items without ids''
       else ''queue dependency graph contains duplicate item ids'')"
proof (cases "ids_ok items")
  case False
  with assms show ?thesis
    using ids_message [OF False, of ModeGraph metadata None]
    by (auto simp: normalize_rejected_ids validation_error_def)
next
  case ok: True
  obtain ks ws where ks: "normalize_graph_dependencies items = (ks, ws)" by fastforce
  note n = normalized_items [OF ok ks]
  have dist: "distinct (map qi_id ks)" using n(2) by (simp add: ids_ok_def)
  obtain c where c: "queue_dependency_graph_cycle ks = Some c"
  proof (cases "queue_dependency_graph_cycle ks")
    case None
    then have False
      using assms ok ks preliminary_errors [of ModeGraph items metadata None]
      by (auto simp: normalize_queue_dependencies_with_metadata_def Let_def split: option.splits)
    then show ?thesis ..
  qed (use that in blast)
  have "closed_cycle (meant_edges items) c" using cycle_Some [OF dist c] n(3) by simp
  moreover have "e = validation_error (queue_graph_diagnostics ModeGraph ks metadata None
      (ws @ [queue_graph_cycle_diagnostic c]))"
    using assms normalize_rejected_cycle [OF ok ks c, of metadata] by auto
  ultimately show ?thesis
    using ok by (auto simp: validation_error_def validation_message_def queue_graph_diagnostics_def
        queue_graph_cycle_diagnostic_def)
qed

text \<open>The example of the witnesses: \<open>b\<close> names \<open>a\<close> by its slug, twice; \<open>loop_items\<close> closes a cycle.\<close>

definition graph_item :: "string \<Rightarrow> int \<Rightarrow> string list \<Rightarrow> queue_item_row" where
  "graph_item a p deps = \<lparr>qi_id = a, qi_run_id = ''r'', qi_position = p, qi_depends_on = deps,
     qi_prompt = ''do'', qi_slug = ''slug-'' @ a, qi_repo_root = None, qi_repo_name = None,
     qi_execution_host = HostLocal, qi_agent_command = ''c1'', qi_task_class = ClassMid,
     qi_remote_launcher = None, qi_local_proxy = None, qi_remote_proxy = None,
     qi_agent_id = None, qi_status = ItemPending, qi_message = [], qi_attempts = 0,
     qi_recovery_attempts = 0, qi_next_attempt_at = None, qi_started_at = 1, qi_updated_at = 1\<rparr>"

definition plain_items :: "queue_item_row list" where
  "plain_items = [graph_item ''a'' 0 [], graph_item ''b'' 1 [''slug-a'', ''a'']]"

definition loop_items :: "queue_item_row list" where
  "loop_items = [graph_item ''a'' 0 [''b''], graph_item ''b'' 1 [''a'']]"

lemma trim_letters: "trim ''a'' = ''a''" "trim ''b'' = ''b''" "trim ''slug-a'' = ''slug-a''"
  by (simp_all add: trim_def trim_matches_def is_whitespace_def)

lemma plain_edges: "meant_edges plain_items = {(''b'', ''a'')}"
proof -
  have "meant_edges plain_items = (\<Union>i \<in> set plain_items. Pair (qi_id i) ` meant_dependencies plain_items i)"
    by (auto simp: meant_edges_def)
  also have "\<dots> = {(''b'', ''a'')}"
    by (auto simp: meant_dependencies_def plain_items_def graph_item_def dependency_references_def trim_letters)
  finally show ?thesis .
qed

lemma plain_items_ok: "ids_ok plain_items \<and> acyclic (meant_edges plain_items)"
proof
  show "ids_ok plain_items" by (simp add: ids_ok_def plain_items_def graph_item_def trim_letters)
  have "wf {(''b'', ''a'')}" by (rule wfI_pf) auto
  then show "acyclic (meant_edges plain_items)"
    unfolding plain_edges by (rule wf_acyclic)
qed

theorem graph_accepted_iff_acyclic_witness:
  "\<exists>report js. normalize_queue_dependencies_with_metadata ModeGraph plain_items [] = Some (Inr report, js) \<and>
     gr_ok report \<and> graph_edges js = {(''b'', ''a'')}"
proof -
  have "length plain_items < u64_max" by (simp add: plain_items_def u64_max_def)
  from graph_accepted_iff_acyclic [OF this, of "[]"] show ?thesis
    using plain_items_ok plain_edges by auto
qed

lemma loop_rejected:
  "\<exists>e js. normalize_queue_dependencies_with_metadata ModeGraph loop_items [] = Some (Inl e, js)"
proof -
  have ok: "ids_ok loop_items" by (simp add: ids_ok_def loop_items_def graph_item_def trim_letters)
  obtain js ws where n: "normalize_graph_dependencies loop_items = (js, ws)"
    and c: "queue_dependency_graph_cycle js = Some [''a'', ''b'', ''a'']"
    by (simp add: loop_items_def graph_item_def normalize_graph_dependencies_def dependency_references_def
        normalize_graph_dependency_def trim_letters queue_dependency_graph_cycle_def dependency_table_def)
  show ?thesis using normalize_rejected_cycle [OF ok n c] by blast
qed

theorem graph_rejection_is_explained_witness:
  "\<exists>e js. normalize_queue_dependencies_with_metadata ModeGraph loop_items [] = Some (Inl e, js) \<and>
     ge_message e = ''queue dependency graph contains a cycle''"
proof -
  have ok: "ids_ok loop_items" by (simp add: ids_ok_def loop_items_def graph_item_def trim_letters)
  obtain e js where e: "normalize_queue_dependencies_with_metadata ModeGraph loop_items [] = Some (Inl e, js)"
    using loop_rejected by blast
  from graph_rejection_is_explained [OF e] ok e show ?thesis by auto
qed

lemma normalize_each_fixed:
  assumes "\<forall>j \<in> set js. distinct (qi_depends_on j) \<and>
    (\<forall>d \<in> set (qi_depends_on j). trim d \<noteq> [] \<and> refs d = Some d \<and> d \<noteq> qi_id j)"
  shows "normalize_each refs js = (js, [])"
  using assms
proof (induction js)
  case (Cons j js)
  have "normalize_dependency_list refs j {} (qi_depends_on j) = (qi_depends_on j, [])"
    using Cons.prems by (intro normalize_list_fixed) auto
  with Cons show ?case by simp
qed simp

lemma normalize_again:
  assumes "ids_ok items" and "normalize_graph_dependencies items = (js, ws)"
  shows "normalize_graph_dependencies js = (js, [])"
proof -
  note n = normalized_items [OF assms]
  have blank: "\<forall>a \<in> qi_id ` set js. trim a \<noteq> []" using n(2) by (simp add: ids_ok_def)
  have "\<forall>j \<in> set js. distinct (qi_depends_on j) \<and>
      (\<forall>d \<in> set (qi_depends_on j). trim d \<noteq> [] \<and> dependency_references js d = Some d \<and> d \<noteq> qi_id j)"
  proof (intro ballI conjI)
    fix j d assume j: "j \<in> set js" and d: "d \<in> set (qi_depends_on j)"
    have mem: "d \<in> qi_id ` set js" using n(4) j d by blast
    show "trim d \<noteq> []" using blank mem by blast
    show "dependency_references js d = Some d" using dependency_references_id [OF mem] .
    show "d \<noteq> qi_id j" using n(4) j d by metis
  qed (use n(4) in blast)
  then show ?thesis unfolding normalize_graph_dependencies_def by (rule normalize_each_fixed)
qed

lemma normalize_accepted_cases:
  assumes "normalize_queue_dependencies_with_metadata ModeGraph items metadata = Some (Inr r, js)"
  obtains ws waves where "ids_ok items" "normalize_graph_dependencies items = (js, ws)"
    "queue_dependency_graph_cycle js = None" "queue_graph_wave_indices js = Some waves"
    "r = queue_graph_diagnostics ModeGraph js metadata (Some waves) (ws @ queue_graph_wave_conflicts js metadata waves)"
proof -
  have ok: "ids_ok items"
    using assms normalize_rejected_ids [of items metadata] by fastforce
  obtain ks ws where ks: "normalize_graph_dependencies items = (ks, ws)" by fastforce
  have n: "normalize_queue_dependencies_with_metadata ModeGraph items metadata =
      (case queue_dependency_graph_cycle ks of
         Some c \<Rightarrow> Some (Inl (validation_error (queue_graph_diagnostics ModeGraph ks metadata None
           (ws @ [queue_graph_cycle_diagnostic c]))), ks)
       | None \<Rightarrow> (case queue_graph_wave_indices ks of None \<Rightarrow> None
         | Some waves \<Rightarrow> Some (Inr (queue_graph_diagnostics ModeGraph ks metadata (Some waves)
             (ws @ queue_graph_wave_conflicts ks metadata waves)), ks)))"
    using ok ks preliminary_errors [of ModeGraph items metadata None] ids_ok_no_diagnostics [OF ok]
    by (simp add: normalize_queue_dependencies_with_metadata_def split: option.splits)
  show ?thesis
    using assms that [OF ok] ks unfolding n by (auto split: option.splits)
qed

text \<open>
  Normalising is idempotent and drops no dependency in silence: the warnings before the wave
  conflicts are as many as the dependencies dropped, and a second run over the result changes no
  item, reports the same items, and repeats the wave conflicts only.
\<close>

theorem graph_normalisation_idempotent:
  assumes "normalize_queue_dependencies_with_metadata ModeGraph items metadata = Some (Inr r, js)"
  shows "\<exists>r' ws. normalize_queue_dependencies_with_metadata ModeGraph js metadata = Some (Inr r', js) \<and>
    gr_items r' = gr_items r \<and> gr_diagnostics r = ws @ gr_diagnostics r' \<and>
    dependency_count js + length ws = dependency_count items \<and>
    (\<forall>d \<in> set (gr_diagnostics r'). gd_kind d = WaveConflict)"
proof -
  obtain ws waves where *: "ids_ok items" "normalize_graph_dependencies items = (js, ws)"
    "queue_dependency_graph_cycle js = None" "queue_graph_wave_indices js = Some waves"
    and r: "r = queue_graph_diagnostics ModeGraph js metadata (Some waves) (ws @ queue_graph_wave_conflicts js metadata waves)"
    by (rule normalize_accepted_cases [OF assms])
  note n = normalized_items [OF *(1,2)]
  note again = normalize_again [OF *(1,2)]
  have "distinct (map qi_id js)" using n(2) by (simp add: ids_ok_def)
  then have acyc: "acyclic (graph_edges js)" using cycle_iff *(3) by blast
  then have "acyclic (meant_edges js)" using normalized_items(3) [OF n(2) again] by simp
  from normalize_accepted [OF n(2) again this *(4)] show ?thesis
    using r n(5) wave_conflicts_warn
    by (intro exI [of _ "queue_graph_diagnostics ModeGraph js metadata (Some waves)
          (queue_graph_wave_conflicts js metadata waves)"] exI [of _ ws])
       (auto simp: queue_graph_diagnostics_def)
qed

theorem graph_normalisation_idempotent_witness:
  "\<exists>r' js. normalize_queue_dependencies_with_metadata ModeGraph js [] = Some (Inr r', js) \<and>
     dependency_count js \<le> dependency_count plain_items"
proof -
  obtain js ws where js: "normalize_graph_dependencies plain_items = (js, ws)" by fastforce
  have ok: "ids_ok plain_items" "acyclic (meant_edges plain_items)" using plain_items_ok by auto
  note n = normalized_items [OF ok(1) js]
  have len: "length js < u64_max" using list_all2_lengthD [OF n(1)] by (simp add: plain_items_def u64_max_def)
  have dist: "distinct (map qi_id js)" and acyc: "acyclic (graph_edges js)"
    using n(2,3) ok(2) by (simp_all add: ids_ok_def)
  obtain waves where w: "queue_graph_wave_indices js = Some waves"
    by (rule wave_indices_total [OF dist acyc len])
  from graph_normalisation_idempotent [OF normalize_accepted [OF ok(1) js ok(2) w, of "[]"]]
  show ?thesis by (metis le_add1)
qed

end
