(* ===== verification/Queue_Requests.thy ===== *)
theory Queue_Requests
  imports Queue_Worker Queue_Graph
begin

text \<open>
  Requests of the queue interface and the rows built from them
  (\<open>src/src/webapp/queue_api.rs\<close>, the request records of \<open>models_assets.rs\<close>, the write token of
  \<open>terminal_chat.rs\<close>): execution hosts, launchers and proxies are resolved from the request, the row,
  the run and the environment, in this order.
\<close>

section \<open>Requests\<close>

record queue_run_item_request =
  ri_id :: "string option"
  ri_prompt :: string
  ri_slug :: "string option"
  ri_depends_on :: "string list option"
  ri_wave_id :: "string option"
  ri_wave_index :: "nat option"
  ri_repo_root :: "string option"
  ri_repo_name :: "string option"
  ri_execution_host :: "string option"
  ri_agent_command :: "string option"
  ri_task_class :: "string option"
  ri_remote_launcher :: "string option"
  ri_local_proxy :: "string option"
  ri_remote_proxy :: "string option"

record queue_run_request =
  rr_run_id :: "string option"
  rr_tab_id :: "string option"
  rr_execution_mode :: "string option"
  rr_execution_host :: "string option"
  rr_agent_command :: string
  rr_remote_launcher :: "string option"
  rr_local_proxy :: "string option"
  rr_remote_proxy :: "string option"
  rr_repo_root :: "string option"
  rr_repo_name :: "string option"
  rr_items :: "queue_run_item_request list"

record queue_update_item_request =
  ui_id :: string
  ui_prompt :: string
  ui_position :: "int option"
  ui_depends_on :: "string list option"
  ui_wave_id :: "string option"
  ui_wave_index :: "nat option"
  ui_repo_root :: "string option"
  ui_repo_name :: "string option"
  ui_execution_host :: "string option"
  ui_agent_command :: "string option"
  ui_task_class :: "string option"
  ui_remote_launcher :: "string option"
  ui_local_proxy :: "string option"
  ui_remote_proxy :: "string option"

record queue_remove_request =
  rm_run_id :: string
  rm_item_id :: string
  rm_task_id :: "string option"
  rm_agent_id :: "string option"

text \<open>
  What a handler observes besides the database: the world of the worker, the write-token header (if
  it is there and is text), and the runs with a worker.
\<close>

record api_world =
  aw_world :: queue_world
  aw_token_header :: "string option"
  aw_run_workers :: "string list"

abbreviation aw_store :: "api_world \<Rightarrow> store_env" where
  "aw_store A \<equiv> qw_store (aw_world A)"

abbreviation aw_now :: "api_world \<Rightarrow> nat" where
  "aw_now A \<equiv> qw_now (aw_world A)"

abbreviation aw_commands :: "api_world \<Rightarrow> string list" where
  "aw_commands A \<equiv> lv_commands (qw_launch (aw_world A))"

section \<open>The write token\<close>

definition optional_env :: "queue_world \<Rightarrow> string \<Rightarrow> string option" where
  "optional_env W name =
     (case qw_var W name of None \<Rightarrow> None | Some v \<Rightarrow> if trim v = [] then None else Some (trim v))"

definition webapp_write_token_required :: "queue_world \<Rightarrow> bool" where
  "webapp_write_token_required W =
     (case optional_env W ''QCOLD_WEBAPP_REQUIRE_WRITE_TOKEN'' of
        None \<Rightarrow> False
      | Some v \<Rightarrow> v \<in> {''1'', ''true'', ''yes'', ''on''})"

definition require_write_token :: "api_world \<Rightarrow> (qdb, unit) prog" where
  "require_write_token A =
     (case optional_env (aw_world A) ''QCOLD_WEBAPP_WRITE_TOKEN'' of
        None \<Rightarrow> throw (Bail ''set QCOLD_WEBAPP_WRITE_TOKEN before enabling GUI command execution'')
      | Some expected \<Rightarrow> (case aw_token_header A of
          None \<Rightarrow> throw (Bail ''missing X-QCOLD-Write-Token header'')
        | Some provided \<Rightarrow> if provided \<noteq> expected then throw (Bail ''invalid GUI write token'') else ret ()))"

definition check_write_token :: "api_world \<Rightarrow> (qdb, unit) prog" where
  "check_write_token A =
     (if webapp_write_token_required (aw_world A) then require_write_token A else ret ())"

section \<open>Settings\<close>

definition queue_execution_host_setting :: "string option \<Rightarrow> queue_execution_host option" where
  "queue_execution_host_setting value =
     (case value of None \<Rightarrow> None | Some v \<Rightarrow> if trim v = [] then None else Some (host_from_setting (trim v)))"

definition resolve_queue_execution_host :: "queue_world \<Rightarrow> string option \<Rightarrow> queue_execution_host" where
  "resolve_queue_execution_host W requested =
     (case queue_execution_host_setting requested of
        Some host \<Rightarrow> host
      | None \<Rightarrow> (case queue_execution_host_setting (qw_var W ''QCOLD_QUEUE_EXECUTION_HOST'') of
          Some host \<Rightarrow> host
        | None \<Rightarrow> HostLocal))"

definition resolve_queue_item_execution_host ::
  "string option \<Rightarrow> queue_execution_host option \<Rightarrow> queue_execution_host \<Rightarrow> queue_execution_host" where
  "resolve_queue_item_execution_host requested current inherited =
     (case coalesce (queue_execution_host_setting requested) current of Some host \<Rightarrow> host | None \<Rightarrow> inherited)"

datatype queue_optional_setting = SettingClear | SettingValue string

fun setting_into_value :: "queue_optional_setting \<Rightarrow> string option" where
  "setting_into_value SettingClear = None"
| "setting_into_value (SettingValue v) = Some v"

definition setting_words :: "string list" where
  "setting_words = [''local'', ''none'', ''off'', ''false'', ''0'']"

definition queue_optional_setting :: "string option \<Rightarrow> queue_optional_setting option" where
  "queue_optional_setting value =
     (case value of
        None \<Rightarrow> None
      | Some v \<Rightarrow>
          if trim v = [] then None
          else if trim v \<in> set setting_words then Some SettingClear
          else Some (SettingValue (trim v)))"

datatype queue_remote_launcher_setting = LauncherLocal | LauncherRemote string

fun into_launcher :: "queue_remote_launcher_setting \<Rightarrow> string option" where
  "into_launcher LauncherLocal = None"
| "into_launcher (LauncherRemote v) = Some v"

definition queue_remote_launcher_setting :: "string option \<Rightarrow> queue_remote_launcher_setting option" where
  "queue_remote_launcher_setting value =
     (case value of
        None \<Rightarrow> None
      | Some v \<Rightarrow>
          if trim v = [] then None
          else if trim v \<in> set setting_words then Some LauncherLocal
          else Some (LauncherRemote (trim v)))"

definition resolve_queue_remote_launcher :: "queue_world \<Rightarrow> string option \<Rightarrow> string option" where
  "resolve_queue_remote_launcher W requested =
     (case queue_remote_launcher_setting requested of
        Some s \<Rightarrow> into_launcher s
      | None \<Rightarrow> (case queue_remote_launcher_setting (qw_var W ''QCOLD_QUEUE_REMOTE_LAUNCHER'') of
          Some s \<Rightarrow> into_launcher s
        | None \<Rightarrow> None))"

definition resolve_queue_item_remote_launcher :: "string option \<Rightarrow> string option \<Rightarrow> string option" where
  "resolve_queue_item_remote_launcher requested inherited =
     (case queue_remote_launcher_setting requested of Some s \<Rightarrow> into_launcher s | None \<Rightarrow> inherited)"

definition update_queue_item_remote_launcher ::
  "string option \<Rightarrow> string option \<Rightarrow> string option \<Rightarrow> string option" where
  "update_queue_item_remote_launcher requested current inherited =
     (case queue_remote_launcher_setting requested of
        Some s \<Rightarrow> into_launcher s
      | None \<Rightarrow> coalesce current inherited)"

definition resolve_queue_remote_agent_proxy :: "queue_world \<Rightarrow> string option \<Rightarrow> string \<Rightarrow> string option" where
  "resolve_queue_remote_agent_proxy W requested env_name =
     (case queue_optional_setting requested of
        Some s \<Rightarrow> setting_into_value s
      | None \<Rightarrow> Option.bind (queue_optional_setting (qw_var W env_name)) setting_into_value)"

definition resolve_queue_item_optional_setting ::
  "string option \<Rightarrow> string option \<Rightarrow> string option \<Rightarrow> string option" where
  "resolve_queue_item_optional_setting requested current inherited =
     (case queue_optional_setting requested of
        Some s \<Rightarrow> setting_into_value s
      | None \<Rightarrow> coalesce current inherited)"

definition host_error :: "queue_execution_host \<Rightarrow> string" where
  "host_error h = ''unknown queue execution host: '' @ host_as_str h"

definition validate_queue_execution_host_value :: "queue_execution_host \<Rightarrow> (qdb, unit) prog" where
  "validate_queue_execution_host_value h = (if host_is_known h then ret () else throw (Bail (host_error h)))"

definition validate_queue_execution_hosts :: "queue_run_row \<Rightarrow> queue_item_row list \<Rightarrow> (qdb, unit) prog" where
  "validate_queue_execution_hosts run items =
     seq (validate_queue_execution_host_value (qr_execution_host run))
       (for_each (\<lambda>i. validate_queue_execution_host_value (qi_execution_host i)) items)"

definition clean_queue_execution_mode :: "string option \<Rightarrow> queue_execution_mode" where
  "clean_queue_execution_mode value =
     (if map_option trim value = Some ''graph'' then ModeGraph else ModeSequence)"

definition split_whitespace :: "string \<Rightarrow> string list" where
  "split_whitespace s = filter (\<lambda>w. w \<noteq> []) (split_when is_whitespace s)"

definition clean_queue_tab_label :: "string \<Rightarrow> string" where
  "clean_queue_tab_label value =
     (let label = take 48 (join_with '' '' (split_whitespace value))
      in if label = [] then ''Queue'' else label)"

fun base36 :: "nat \<Rightarrow> string" where
  "base36 n = (if n = 0 then []
     else base36 (n div 36) @ [let d = n mod 36 in if d < 10 then char_of (48 + d) else char_of (97 + (d - 10))])"

declare base36.simps [simp del]

definition base36_time_id :: "nat \<Rightarrow> string" where
  "base36_time_id now = (if now = 0 then ''0'' else base36 now)"

section \<open>Rows from requests\<close>

definition queue_run_from_request ::
  "queue_world \<Rightarrow> string \<Rightarrow> queue_run_request \<Rightarrow> string \<Rightarrow> queue_execution_mode \<Rightarrow> nat \<Rightarrow> queue_run_row" where
  "queue_run_from_request W run_id payload command mode now =
     \<lparr>qr_id = run_id, qr_status = RunRunning, qr_execution_mode = mode,
      qr_execution_host = resolve_queue_execution_host W (rr_execution_host payload),
      qr_selected_agent_command = command,
      qr_remote_launcher = resolve_queue_remote_launcher W (rr_remote_launcher payload),
      qr_local_proxy = resolve_queue_remote_agent_proxy W (rr_local_proxy payload)
        ''QCOLD_QUEUE_REMOTE_AGENT_LOCAL_PROXY'',
      qr_remote_proxy = resolve_queue_remote_agent_proxy W (rr_remote_proxy payload)
        ''QCOLD_QUEUE_REMOTE_AGENT_REMOTE_PROXY'',
      qr_selected_repo_root = nonblank (rr_repo_root payload),
      qr_selected_repo_name = nonblank (rr_repo_name payload),
      qr_track = queue_track run_id, qr_current_index = - 1, qr_stop_requested = False,
      qr_message = ''queued'', qr_created_at = now, qr_updated_at = now\<rparr>"

text \<open>\<open>None\<close>: the search for a free slug never returns.\<close>

definition queue_item_from_request ::
  "queue_run_row \<Rightarrow> queue_run_item_request \<Rightarrow> int \<Rightarrow> string set \<Rightarrow> nat \<Rightarrow> (queue_item_row \<times> string set) option" where
  "queue_item_from_request run req position used now =
     (let index = (if position < 0 then u64_max else nat position);
          wish = (case nonblank (ri_slug req) of Some s \<Rightarrow> s | None \<Rightarrow> queue_slug (qr_id run) index);
          repo_root = nonblank (coalesce (ri_repo_root req) (qr_selected_repo_root run))
      in case clean_queue_slug wish (qr_id run) index used of
           None \<Rightarrow> None
         | Some (slug, used') \<Rightarrow> Some
             (\<lparr>qi_id = (case nonblank (ri_id req) of Some a \<Rightarrow> a
                 | None \<Rightarrow> ''queue-'' @ qr_id run @ ''-'' @ show_int (sat_add_i64 position 1)),
               qi_run_id = qr_id run, qi_position = position,
               qi_depends_on = (case ri_depends_on req of None \<Rightarrow> [] | Some ds \<Rightarrow> ds),
               qi_prompt = trim (ri_prompt req), qi_slug = slug, qi_repo_root = repo_root,
               qi_repo_name = nonblank (coalesce (ri_repo_name req) (qr_selected_repo_name run)),
               qi_execution_host = resolve_queue_item_execution_host (ri_execution_host req) None
                 (qr_execution_host run),
               qi_agent_command = (case nonblank (ri_agent_command req) of Some c \<Rightarrow> c
                 | None \<Rightarrow> qr_selected_agent_command run),
               qi_task_class = class_from_setting (ri_task_class req),
               qi_remote_launcher = resolve_queue_item_remote_launcher (ri_remote_launcher req)
                 (qr_remote_launcher run),
               qi_local_proxy = resolve_queue_item_optional_setting (ri_local_proxy req) None
                 (qr_local_proxy run),
               qi_remote_proxy = resolve_queue_item_optional_setting (ri_remote_proxy req) None
                 (qr_remote_proxy run),
               qi_agent_id = None, qi_status = ItemPending, qi_message = [], qi_attempts = 0,
               qi_recovery_attempts = 0, qi_next_attempt_at = None, qi_started_at = now,
               qi_updated_at = now\<rparr>, used'))"

fun queue_items_from ::
  "queue_run_row \<Rightarrow> queue_run_item_request list \<Rightarrow> int \<Rightarrow> nat \<Rightarrow> string set \<Rightarrow> nat \<Rightarrow> queue_item_row list option" where
  "queue_items_from run [] start offset used now = Some []"
| "queue_items_from run (req # rest) start offset used now =
     (let position = sat_add_i64 start (if int offset \<le> i64_max then int offset else 0)
      in case queue_item_from_request run req position used now of
           None \<Rightarrow> None
         | Some (i, used') \<Rightarrow> map_option (Cons i) (queue_items_from run rest start (Suc offset) used' now))"

definition queue_items_from_requests ::
  "queue_run_row \<Rightarrow> queue_run_item_request list \<Rightarrow> int \<Rightarrow> string set \<Rightarrow> nat \<Rightarrow> queue_item_row list option" where
  "queue_items_from_requests run requests start used now = queue_items_from run requests start 0 used now"

definition metadata_of_run_request :: "queue_run_item_request \<Rightarrow> graph_item_metadata" where
  "metadata_of_run_request r =
     \<lparr>gm_wave_id = clean_queue_graph_wave_id (ri_wave_id r), gm_wave_index = ri_wave_index r\<rparr>"

definition metadata_of_update_request :: "queue_update_item_request \<Rightarrow> graph_item_metadata" where
  "metadata_of_update_request r =
     \<lparr>gm_wave_id = clean_queue_graph_wave_id (ui_wave_id r), gm_wave_index = ui_wave_index r\<rparr>"

definition runnable_requests :: "queue_run_item_request list \<Rightarrow> queue_run_item_request list" where
  "runnable_requests items = filter (\<lambda>r. trim (ri_prompt r) \<noteq> []) items"

end
