(* ===== verification/Text_Scan.thy ===== *)
theory Text_Scan
  imports Queue_Requests Queue_Ids
begin

text \<open>
  Further functions of the Rust standard library on text, for the components that read what other
  programs print: case conversion, the first match of a pattern, signed numbers, shortening.
\<close>

section \<open>Case\<close>

text \<open>\<open>char::to_lowercase\<close> on the modelled range: the letters of ASCII and Latin-1.\<close>

definition to_lower_char :: "char \<Rightarrow> char" where
  "to_lower_char c =
     (let n = of_char c :: nat
      in if (65 \<le> n \<and> n \<le> 90) \<or> (192 \<le> n \<and> n \<le> 222 \<and> n \<noteq> 215) then char_of (n + 32) else c)"

definition to_lowercase :: "string \<Rightarrow> string" where
  "to_lowercase s = map to_lower_char s"

definition is_ascii_alphabetic :: "char \<Rightarrow> bool" where
  "is_ascii_alphabetic c = (let n = of_char c :: nat in (65 \<le> n \<and> n \<le> 90) \<or> (97 \<le> n \<and> n \<le> 122))"

definition to_ascii_lower_char :: "char \<Rightarrow> char" where
  "to_ascii_lower_char c = (let n = of_char c :: nat in if 65 \<le> n \<and> n \<le> 90 then char_of (n + 32) else c)"

definition to_ascii_lowercase :: "string \<Rightarrow> string" where
  "to_ascii_lowercase s = map to_ascii_lower_char s"

lemma to_lowercase_append [simp]: "to_lowercase (a @ b) = to_lowercase a @ to_lowercase b"
  by (simp add: to_lowercase_def)

lemma to_lower_digit: "is_ascii_digit c \<Longrightarrow> to_lower_char c = c"
  by (simp add: to_lower_char_def is_ascii_digit_def Let_def)

lemma to_lowercase_digits: "\<forall>c \<in> set s. is_ascii_digit c \<Longrightarrow> to_lowercase s = s"
  by (simp add: to_lowercase_def to_lower_digit map_idI)

section \<open>The first match\<close>

text \<open>\<open>Iterator::find_map\<close>.\<close>

fun find_map :: "('a \<Rightarrow> 'b option) \<Rightarrow> 'a list \<Rightarrow> 'b option" where
  "find_map f [] = None"
| "find_map f (x # xs) = (case f x of None \<Rightarrow> find_map f xs | Some y \<Rightarrow> Some y)"

lemma find_map_SomeD: "find_map f xs = Some y \<Longrightarrow> \<exists>x \<in> set xs. f x = Some y"
  by (induction xs) (auto split: option.splits)

lemma find_map_None: "find_map f xs = None \<longleftrightarrow> (\<forall>x \<in> set xs. f x = None)"
  by (induction xs) (auto split: option.splits)

section \<open>Search\<close>

lemma str_contains_iff: "str_contains p s \<longleftrightarrow> (\<exists>a b. s = a @ p @ b)"
proof (induction s)
  case Nil
  then show ?case by auto
next
  case (Cons c s)
  have "(\<exists>a b. c # s = a @ p @ b) \<longleftrightarrow> (\<exists>r. c # s = p @ r) \<or> (\<exists>a b. s = a @ p @ b)"
  proof
    assume "\<exists>a b. c # s = a @ p @ b"
    then obtain a b where ab: "c # s = a @ p @ b" by blast
    then show "(\<exists>r. c # s = p @ r) \<or> (\<exists>a b. s = a @ p @ b)" by (cases a) auto
  next
    assume "(\<exists>r. c # s = p @ r) \<or> (\<exists>a b. s = a @ p @ b)"
    then show "\<exists>a b. c # s = a @ p @ b"
      by (metis append_Cons append_Nil)
  qed
  with Cons show ?case by (simp add: starts_with_iff)
qed

lemma str_contains_middle: "str_contains p (a @ p @ b)"
  unfolding str_contains_iff by blast

lemma str_contains_later: "str_contains p s \<Longrightarrow> str_contains p (a @ s @ b)"
  unfolding str_contains_iff by (metis append.assoc)

section \<open>Numbers\<close>

text \<open>\<open>str::parse\<close> for \<open>u64\<close> and \<open>i64\<close>.\<close>

definition parse_u64 :: "string \<Rightarrow> nat option" where
  "parse_u64 s = parse_unsigned u64_max s"

definition parse_i64 :: "string \<Rightarrow> int option" where
  "parse_i64 s =
     (case s of
        [] \<Rightarrow> None
      | c # cs \<Rightarrow>
          if c = CHR ''-'' then
            (if cs \<noteq> [] \<and> list_all is_ascii_digit cs \<and> - int (digits_value cs) \<ge> i64_min
             then Some (- int (digits_value cs)) else None)
          else map_option int (parse_unsigned (nat i64_max) s))"

lemma digits_no_sign:
  assumes "ds \<noteq> []" and "list_all is_ascii_digit ds"
  shows "parse_unsigned m ds = (if digits_value ds \<le> m then Some (digits_value ds) else None)"
proof -
  obtain c cs where ds: "ds = c # cs" using assms(1) by (cases ds) auto
  with assms(2) have "is_ascii_digit c" by simp
  then have "c \<noteq> CHR ''+''" by (auto simp: is_ascii_digit_def)
  with ds assms show ?thesis by (simp add: parse_unsigned_def)
qed

lemma parse_u64_show: "n \<le> u64_max \<Longrightarrow> parse_u64 (show_nat n) = Some n"
  using digits_no_sign [of "show_nat n" u64_max] show_nat_digits
  by (simp add: parse_u64_def list_all_iff)

section \<open>Shortening\<close>

text \<open>At most so many characters, with three dots in place of the rest.\<close>

definition truncate_dots :: "string \<Rightarrow> nat \<Rightarrow> string" where
  "truncate_dots s limit = (if length s \<le> limit then s else take (limit - 3) s @ ''...'')"

lemma truncate_dots_length: "3 \<le> limit \<Longrightarrow> length (truncate_dots s limit) \<le> limit"
  by (simp add: truncate_dots_def; arith)


section \<open>Paths\<close>

text \<open>
  \<open>Path::components\<close> on Unix: whether the path is absolute, and its parts without the empty ones and
  without \<open>.\<close>, which is kept at the start of a relative path. Paths are equal when these are.
\<close>

definition path_components :: "string \<Rightarrow> bool \<times> string list" where
  "path_components p =
     (let parts = split_when (\<lambda>c. c = CHR ''/'') p
      in (starts_with ''/'' p,
          (if hd parts = ''.'' then [''.''] else []) @ filter (\<lambda>w. w \<noteq> [] \<and> w \<noteq> ''.'') parts))"

definition same_path :: "string \<Rightarrow> string \<Rightarrow> bool" where
  "same_path a b = (path_components a = path_components b)"

lemma same_path_commute: "same_path a b = same_path b a"
  by (auto simp: same_path_def)

text \<open>\<open>env::split_paths\<close> and \<open>env::join_paths\<close>; parts that were split off hold no separator.\<close>

definition split_paths :: "string \<Rightarrow> string list" where
  "split_paths p = split_when (\<lambda>c. c = CHR '':'') p"

definition join_paths :: "string list \<Rightarrow> string" where
  "join_paths dirs = join_with '':'' dirs"

lemma join_split_paths: "join_paths (split_paths p) = p"
  unfolding join_paths_def split_paths_def by (rule join_split)

lemma split_when_parts: "\<forall>w \<in> set (split_when p s). \<forall>c \<in> set w. \<not> p c"
  by (induction s) (auto split: list.splits)

lemma split_joined:
  assumes "ws \<noteq> []" and "\<forall>w \<in> set ws. d \<notin> set w"
  shows "split_when (\<lambda>c. c = d) (join_with [d] ws) = ws"
  using assms
proof (induction ws rule: induct_list012)
  case 1
  then show ?case by simp
next
  case (2 w)
  then show ?case by (auto intro!: split_when_clean)
next
  case (3 w v ws)
  then have "\<forall>c \<in> set w. c \<noteq> d" by auto
  with 3 show ?case by (auto simp: split_when_at)
qed

section \<open>Quoting in messages\<close>

text \<open>The \<open>Debug\<close> rendering of a text.\<close>

definition debug_char :: "char \<Rightarrow> string" where
  "debug_char c =
     (let n = of_char c :: nat in
      if c = CHR 0x22 then [CHR 0x5C, CHR 0x22]
      else if c = CHR 0x5C then [CHR 0x5C, CHR 0x5C]
      else if n = 0 then [CHR 0x5C, CHR ''0'']
      else if n = 9 then [CHR 0x5C, CHR ''t'']
      else if n = 10 then [CHR 0x5C, CHR ''n'']
      else if n = 13 then [CHR 0x5C, CHR ''r'']
      else if n < 32 \<or> (127 \<le> n \<and> n \<le> 160) \<or> n = 173
      then CHR 0x5C # ''u{'' @ (if n < 16 then [hex_digit n] else [hex_digit (n div 16), hex_digit (n mod 16)]) @ ''}''
      else [c])"

definition debug_text :: "string \<Rightarrow> string" where
  "debug_text s = CHR 0x22 # concat (map debug_char s) @ [CHR 0x22]"

end
