(* ===== verification/Agent_Limits.thy ===== *)
theory Agent_Limits
  imports Queue_Launch Text_Scan
begin

text \<open>
  The limits of the accounts an agent may run under (\<open>src/src/webapp/agent_limits.rs\<close>): what the
  status command of an account prints is read for a state, a remaining capacity and the time of a
  reset, and kept for half an hour. The choice of an agent for a launch
  (\<open>select_queue_agent_from_records\<close> of \<open>Queue_Launch\<close>) rests on these records.

  The JSON parser is an argument. Its numbers are integers: a fraction in a JSON status is not
  modelled.
\<close>

section \<open>Constants\<close>

definition agent_limit_cache_ttl :: nat where
  "agent_limit_cache_ttl = 30 * 60"

definition agent_limit_status_attempts :: nat where
  "agent_limit_status_attempts = 2"

definition agent_limit_status_timeout :: nat where
  "agent_limit_status_timeout = 20"

record available_agent =
  aa_command :: string
  aa_label :: string
  aa_invocation :: string
  aa_path :: string
  aa_account :: string
  aa_status_command :: string

section \<open>Relative and absolute times\<close>

definition relative_unit :: "string \<Rightarrow> char option" where
  "relative_unit token =
     (let lower = to_ascii_lowercase token in
      if starts_with ''h'' lower then Some CHR ''h''
      else if starts_with ''m'' lower then Some CHR ''m''
      else if starts_with ''s'' lower then Some CHR ''s''
      else None)"

definition relative_seconds :: "nat \<Rightarrow> char \<Rightarrow> nat" where
  "relative_seconds v unit =
     (if unit = CHR ''h'' then sat_mul_u64 v 3600
      else if unit = CHR ''m'' then sat_mul_u64 v 60
      else if unit = CHR ''s'' then v
      else 0)"

text \<open>A number and a unit without a space between them, such as \<open>15m\<close>.\<close>

definition parse_compact_relative_token :: "string \<Rightarrow> (nat \<times> char) option" where
  "parse_compact_relative_token token =
     (let digits = takeWhile is_ascii_digit token; rest = dropWhile is_ascii_digit token in
      if rest = [] then None
      else (case parse_u64 digits of
          None \<Rightarrow> None
        | Some v \<Rightarrow> map_option (\<lambda>unit. (v, unit)) (relative_unit rest)))"

text \<open>The total so far, a number that waits for its unit, and whether there was a duration.\<close>

type_synonym scan = "nat \<times> nat option \<times> bool"

definition scan_token :: "string \<Rightarrow> scan \<Rightarrow> scan" where
  "scan_token word s =
     (case s of (secs, pending, found) \<Rightarrow>
       (let token = trim_matches (\<lambda>c. \<not> is_ascii_alphanumeric c) word in
        if token = [] then s
        else (case parse_u64 token of
          Some v \<Rightarrow> (secs, Some v, found)
        | None \<Rightarrow> (case parse_compact_relative_token token of
            Some (v, unit) \<Rightarrow> (sat_add_u64 secs (relative_seconds v unit), None, True)
          | None \<Rightarrow> (case pending of
              None \<Rightarrow> (secs, None, found)
            | Some v \<Rightarrow> (case relative_unit token of
                None \<Rightarrow> (secs, None, found)
              | Some unit \<Rightarrow> (sat_add_u64 secs (relative_seconds v unit), None, True)))))))"

definition parse_relative_seconds :: "string \<Rightarrow> nat option" where
  "parse_relative_seconds line =
     (case fold scan_token (split_whitespace line) (0, None, False) of
        (secs, _, found) \<Rightarrow> if found then Some secs else None)"

definition parse_reset_at_line :: "string \<Rightarrow> nat \<Rightarrow> nat option" where
  "parse_reset_at_line line now =
     (case find (\<lambda>v. v > 1500000000)
             (List.map_filter parse_u64
               (filter (\<lambda>w. length w \<ge> 10) (split_when (\<lambda>c. \<not> is_ascii_digit c) line))) of
        Some unix \<Rightarrow> Some unix
      | None \<Rightarrow> map_option (sat_add_u64 now) (parse_relative_seconds line))"

definition json_as_u64 :: "json \<Rightarrow> nat option" where
  "json_as_u64 v = (case v of JNumber n \<Rightarrow> if 0 \<le> n \<and> n \<le> int u64_max then Some (nat n) else None | _ \<Rightarrow> None)"

definition json_reset_at_unix :: "json \<Rightarrow> nat \<Rightarrow> nat option" where
  "json_reset_at_unix v now =
     find_map (\<lambda>key. Option.bind (json_get key v) (\<lambda>x. case json_as_u64 x of
         Some unix \<Rightarrow> Some unix
       | None \<Rightarrow> Option.bind (json_as_str x) (\<lambda>text. parse_reset_at_line text now)))
       [''reset_at_unix'', ''reset_time_unix'', ''reset_at'', ''reset_time'', ''reset'', ''retry_at_unix'']"

definition normalized_reset_at_unix :: "(string \<Rightarrow> json option) \<Rightarrow> string \<Rightarrow> nat \<Rightarrow> nat option" where
  "normalized_reset_at_unix parse text now =
     (case Option.bind (parse text) (\<lambda>v. json_reset_at_unix v now) of
        Some reset \<Rightarrow> Some reset
      | None \<Rightarrow> find_map (\<lambda>line. parse_reset_at_line line now)
          (filter (\<lambda>line. let lower = to_lowercase line in
             str_contains ''reset'' lower \<or> str_contains ''retry'' lower \<or> str_contains ''try again'' lower)
           (str_lines text)))"

section \<open>States\<close>

definition status_text_limited :: "string \<Rightarrow> bool" where
  "status_text_limited lower =
     list_ex (\<lambda>pattern. str_contains pattern lower)
       [''usage limit reached'', ''rate limit reached'', ''limit reached'', ''limit exceeded'',
        ''quota exceeded'', ''0% remaining'', ''0 % remaining'']"

definition normalized_state_value :: "string \<Rightarrow> string option" where
  "normalized_state_value v =
     (let lower = to_lowercase v; has = (\<lambda>patterns. list_ex (\<lambda>p. str_contains p lower) patterns) in
      if has [''unauth'', ''not authenticated''] then Some ''unauthenticated''
      else if has [''limited'', ''limit reached'', ''limit exceeded'', ''quota exceeded''] then Some ''limited''
      else if has [''timeout'', ''timed out''] then Some ''timeout''
      else if has [''retry'', ''try again''] then Some ''retry''
      else if has [''error'', ''failed''] then Some ''error''
      else if has [''ok'', ''ready'', ''usable'', ''available''] then Some ''ok''
      else None)"

definition normalized_status_state :: "(string \<Rightarrow> json option) \<Rightarrow> string \<Rightarrow> string option" where
  "normalized_status_state parse text =
     (case Option.bind (parse text) (\<lambda>v.
             find_map (\<lambda>key. Option.bind (Option.bind (json_get key v) json_as_str) normalized_state_value)
               [''state'', ''status'', ''limit_state'']) of
        Some state \<Rightarrow> Some state
      | None \<Rightarrow> find_map normalized_state_value
          (filter (\<lambda>lower. str_contains ''state'' lower \<or> str_contains ''status'' lower \<or> str_contains ''limit'' lower)
            (map to_lowercase (str_lines text))))"

section \<open>Capacity\<close>

definition clamp_score :: "int \<Rightarrow> int" where
  "clamp_score n = max 0 (min n 100)"

definition json_number_to_score :: "json \<Rightarrow> int option" where
  "json_number_to_score v = (case v of JNumber n \<Rightarrow> Some (clamp_score n) | _ \<Rightarrow> None)"

definition json_capacity_score :: "json \<Rightarrow> int option" where
  "json_capacity_score v =
     find_map (\<lambda>key. Option.bind (json_get key v) json_number_to_score)
       [''capacity_score'', ''capacity'', ''remaining_percent'', ''remaining_pct'', ''remaining'']"

definition strip_percent :: "string \<Rightarrow> string option" where
  "strip_percent w = (if w \<noteq> [] \<and> last w = CHR ''%'' then Some (butlast w) else None)"

definition parse_capacity_score_line :: "string \<Rightarrow> int option" where
  "parse_capacity_score_line line =
     (let words = filter (\<lambda>w. w \<noteq> []) (split_when (\<lambda>c. \<not> is_ascii_digit c \<and> c \<noteq> CHR ''%'') line) in
      case find_map (\<lambda>w. Option.bind (strip_percent w) parse_i64) words of
        Some v \<Rightarrow> Some (clamp_score v)
      | None \<Rightarrow> find (\<lambda>v. 0 \<le> v \<and> v \<le> 100) (List.map_filter parse_i64 words))"

definition capacity_line :: "string \<Rightarrow> bool" where
  "capacity_line line =
     (let lower = to_lowercase line in
      list_ex (\<lambda>keyword. str_contains keyword lower) [''capacity'', ''remaining'', ''available'', ''quota''])"

definition normalized_capacity_score :: "(string \<Rightarrow> json option) \<Rightarrow> string \<Rightarrow> nat \<Rightarrow> int option" where
  "normalized_capacity_score parse text now =
     (case Option.bind (parse text) json_capacity_score of
        Some score \<Rightarrow> Some score
      | None \<Rightarrow> (case find_map parse_capacity_score_line (filter capacity_line (str_lines text)) of
          Some score \<Rightarrow> Some (clamp_score score)
        | None \<Rightarrow>
            if status_text_limited (to_lowercase text) then Some (clamp_score 0)
            else Option.bind (normalized_reset_at_unix parse text now) (\<lambda>reset.
              if reset \<le> now then Some 0 else None)))"


section \<open>What a status command prints\<close>

text \<open>Escape sequences are dropped up to their final letter.\<close>

fun strip_ansi_from :: "bool \<Rightarrow> string \<Rightarrow> string" where
  "strip_ansi_from escaped [] = []"
| "strip_ansi_from escaped (c # cs) =
     (if escaped
      then strip_ansi_from (\<not> (is_ascii_alphabetic c \<or> c = CHR ''~'' \<or> c = CHR 0x5C)) cs
      else if c = CHR 0x1B then strip_ansi_from True cs
      else c # strip_ansi_from False cs)"

definition strip_ansi :: "string \<Rightarrow> string" where
  "strip_ansi text = strip_ansi_from False text"

definition nonempty_lines :: "string \<Rightarrow> string list" where
  "nonempty_lines text = filter (\<lambda>line. line \<noteq> []) (map trim (str_lines text))"

record probe_output =
  po_success :: bool
  po_code :: "int option"
  po_stdout :: string
  po_stderr :: string

definition compact_probe_output :: "probe_output \<Rightarrow> string" where
  "compact_probe_output output =
     (let out = po_stdout output; err = po_stderr output;
          text = out @ (if err = [] then [] else (if out = [] then [] else [CHR 0x0A]) @ err)
      in join_with [CHR 0x0A] (take 80 (nonempty_lines (strip_ansi text))))"

definition short_raw_status_summary :: "string \<Rightarrow> string" where
  "short_raw_status_summary text = take 240 (join_with '' | '' (take 4 (nonempty_lines text)))"

definition extract_relevant_status_line :: "string \<Rightarrow> string option" where
  "extract_relevant_status_line text =
     map_option (\<lambda>line. truncate_dots (trim line) 160)
       (find (\<lambda>line. list_ex (\<lambda>keyword. str_contains keyword (to_lowercase line))
           [''limit'', ''remaining'', ''reset'', ''quota'', ''rate'', ''usage'', ''try again'', ''error''])
         (str_lines text))"

definition limit_record ::
  "available_agent \<Rightarrow> string \<Rightarrow> int \<Rightarrow> nat option \<Rightarrow> string \<Rightarrow> string \<Rightarrow> string \<Rightarrow> nat \<Rightarrow> nat \<Rightarrow> agent_limit_record" where
  "limit_record agent state capacity_score reset_at_unix summary detail raw_summary checked_at_unix attempts =
     \<lparr>al_command = aa_command agent, al_account = aa_account agent, al_status_command = aa_status_command agent,
      al_state = state, al_capacity_score = clamp_score capacity_score, al_reset_at = reset_at_unix,
      al_summary = summary, al_detail = detail, al_raw_summary = raw_summary, al_checked_at = checked_at_unix,
      al_expires_at = sat_add_u64 checked_at_unix agent_limit_cache_ttl, al_attempts = attempts\<rparr>"

definition text_limited :: "(string \<Rightarrow> json option) \<Rightarrow> nat \<Rightarrow> bool \<Rightarrow> string \<Rightarrow> bool" where
  "text_limited parse checked_at success text =
     (let lower = to_lowercase text;
          capacity = (case normalized_capacity_score parse text checked_at of
              Some score \<Rightarrow> score | None \<Rightarrow> if success \<and> \<not> status_text_limited lower then 100 else 0)
      in normalized_status_state parse text = Some ''limited'' \<or> status_text_limited lower \<or>
         capacity = 0 \<and> str_contains ''remaining'' lower)"

definition classify_agent_status_text ::
  "(string \<Rightarrow> json option) \<Rightarrow> available_agent \<Rightarrow> nat \<Rightarrow> nat \<Rightarrow> bool \<Rightarrow> int option \<Rightarrow> string \<Rightarrow> agent_limit_record" where
  "classify_agent_status_text parse agent attempt checked_at success status_code text =
     (let lower = to_lowercase text;
          code = (case status_code of None \<Rightarrow> 0 | Some c \<Rightarrow> c);
          timed_out = (code = 124);
          explicit_state = normalized_status_state parse text;
          capacity_score = (case normalized_capacity_score parse text checked_at of
              Some score \<Rightarrow> score | None \<Rightarrow> if success \<and> \<not> status_text_limited lower then 100 else 0);
          reset_at_unix = normalized_reset_at_unix parse text checked_at;
          limited = text_limited parse checked_at success text;
          transient = (str_contains ''try again'' lower \<or> str_contains ''temporar'' lower \<or>
            str_contains ''429'' lower \<or> timed_out);
          state = (if limited then ''limited''
            else if timed_out then ''timeout''
            else case explicit_state of
              Some s \<Rightarrow> s
            | None \<Rightarrow>
                if success then ''ok''
                else if transient \<and> attempt < agent_limit_status_attempts then ''retry''
                else ''error'');
          relevant = extract_relevant_status_line text;
          summary = (if limited then (case relevant of Some l \<Rightarrow> l | None \<Rightarrow> ''limit reached'')
            else if timed_out then
              ''readiness probe timed out after '' @ show_nat agent_limit_status_timeout @ ''s''
            else if success then (case relevant of Some l \<Rightarrow> l | None \<Rightarrow> ''readiness probe completed'')
            else (case relevant of
                Some l \<Rightarrow> l | None \<Rightarrow> ''readiness probe exited with code '' @ show_int code))
      in limit_record agent state capacity_score reset_at_unix summary (truncate_dots text 600)
           (short_raw_status_summary text) checked_at attempt)"

definition classify_agent_status_output ::
  "(string \<Rightarrow> json option) \<Rightarrow> available_agent \<Rightarrow> nat \<Rightarrow> nat \<Rightarrow> string + probe_output \<Rightarrow> agent_limit_record" where
  "classify_agent_status_output parse agent attempt checked_at output =
     (case output of
        Inl err \<Rightarrow> limit_record agent ''error'' 0 None ''status probe failed to start'' err [] checked_at attempt
      | Inr out \<Rightarrow> classify_agent_status_text parse agent attempt checked_at (po_success out) (po_code out)
          (compact_probe_output out))"

definition unchecked_agent_limit :: "nat \<Rightarrow> available_agent \<Rightarrow> string \<Rightarrow> agent_limit_record" where
  "unchecked_agent_limit now agent summary = limit_record agent ''unknown'' 0 None summary [] [] now 0"

definition pending_agent_limit_records :: "available_agent list \<Rightarrow> nat \<Rightarrow> agent_limit_record list" where
  "pending_agent_limit_records agents now =
     map (\<lambda>agent. limit_record agent ''unknown'' 0 None ''status probe pending'' [] [] now 0) agents"

section \<open>Probes\<close>

text \<open>
  What a probe observes: whether the account has an authorisation file, under which path it is
  looked for, and for each attempt the time and the output of the status command.
\<close>

record probe_view =
  pv_parse :: "string \<Rightarrow> json option"
  pv_authorised :: "string \<Rightarrow> bool"
  pv_auth_path :: "string \<Rightarrow> string"
  pv_now :: nat
  pv_status :: "string \<Rightarrow> nat \<Rightarrow> nat \<times> (string + probe_output)"

definition probe_attempt :: "probe_view \<Rightarrow> available_agent \<Rightarrow> nat \<Rightarrow> agent_limit_record" where
  "probe_attempt V agent attempt =
     (case pv_status V (aa_status_command agent) attempt of (checked_at, output) \<Rightarrow>
        classify_agent_status_output (pv_parse V) agent attempt checked_at output)"

definition probe_agent_limit :: "probe_view \<Rightarrow> available_agent \<Rightarrow> agent_limit_record" where
  "probe_agent_limit V agent =
     (if \<not> pv_authorised V (aa_account agent) then
        limit_record agent ''unauthenticated'' 0 None ''no auth.json''
          (''missing '' @ pv_auth_path V (aa_account agent)) [] (pv_now V) 0
      else
        (let records = map (probe_attempt V agent) [1 ..< Suc agent_limit_status_attempts] in
         case find (\<lambda>r. al_state r \<noteq> ''retry'') records of
           Some r \<Rightarrow> r
         | None \<Rightarrow> (if records = [] then unchecked_agent_limit (pv_now V) agent ''status probe was not attempted''
                    else last records)))"

definition agent_selector_agents :: "available_agent list \<Rightarrow> available_agent list" where
  "agent_selector_agents agents = filter (\<lambda>a. queue_agent_selector_command (aa_command a)) agents"

text \<open>One probe per account; the agents of an account share its record.\<close>

definition probe_agent_limits :: "probe_view \<Rightarrow> available_agent list \<Rightarrow> agent_limit_record list" where
  "probe_agent_limits V available =
     (let agents = agent_selector_agents available in
      map (\<lambda>agent. case find (\<lambda>a. aa_account a = aa_account agent) agents of
         None \<Rightarrow> unchecked_agent_limit (pv_now V) agent ''status probe did not return''
       | Some first \<Rightarrow> (probe_agent_limit V first)
           \<lparr>al_command := aa_command agent, al_account := aa_account agent,
            al_status_command := aa_status_command agent\<rparr>) agents)"

section \<open>The cache\<close>

text \<open>The records of the last refresh with their time, and whether a refresh is running.\<close>

record limit_cache =
  lc_records :: "(nat \<times> agent_limit_record list) option"
  lc_refreshing :: bool

record limit_snapshot =
  sn_generated_at :: nat
  sn_cached :: bool
  sn_refreshing :: bool
  sn_records :: "agent_limit_record list"

text \<open>Whether a refresh starts, with the cache that says so.\<close>

definition schedule_agent_limit_refresh :: "limit_cache \<Rightarrow> bool \<times> limit_cache" where
  "schedule_agent_limit_refresh C =
     (if lc_refreshing C then (False, C) else (True, C\<lparr>lc_refreshing := True\<rparr>))"

definition agent_limits_refreshed :: "nat \<Rightarrow> agent_limit_record list \<Rightarrow> limit_cache \<Rightarrow> limit_cache" where
  "agent_limits_refreshed now records C = C\<lparr>lc_records := Some (now, records), lc_refreshing := False\<rparr>"

definition agent_limit_snapshot ::
  "nat \<Rightarrow> available_agent list \<Rightarrow> bool \<Rightarrow> limit_cache \<Rightarrow> limit_snapshot \<times> bool \<times> limit_cache" where
  "agent_limit_snapshot now agents refresh C =
     (let stale = (case lc_records C of
            None \<Rightarrow> True | Some (generated_at, _) \<Rightarrow> sat_add_u64 generated_at agent_limit_cache_ttl \<le> now);
          (started, C') = (if refresh \<or> stale then schedule_agent_limit_refresh C else (False, C));
          snapshot = (case lc_records C of
              Some (generated_at, records) \<Rightarrow>
                \<lparr>sn_generated_at = generated_at, sn_cached = True, sn_refreshing = lc_refreshing C', sn_records = records\<rparr>
            | None \<Rightarrow>
                \<lparr>sn_generated_at = now, sn_cached = False, sn_refreshing = lc_refreshing C',
                 sn_records = pending_agent_limit_records (agent_selector_agents agents) now\<rparr>)
      in (snapshot, started, C'))"


section \<open>Which accounts are launched\<close>

lemma state_ok:
  assumes "al_state (classify_agent_status_text parse agent attempt t success code text) = ''ok''"
  shows "\<not> status_text_limited (to_lowercase text)" and "code \<noteq> Some 124"
    and "success \<or> normalized_status_state parse text = Some ''ok''"
  using assms
  by (auto simp: classify_agent_status_text_def limit_record_def text_limited_def Let_def
      split: if_splits option.splits)

lemma capacity_left:
  assumes "0 < al_capacity_score (classify_agent_status_text parse agent attempt t success code text)"
    and "al_state (classify_agent_status_text parse agent attempt t success code text) = ''ok''"
  shows "case normalized_capacity_score parse text t of Some score \<Rightarrow> 0 < score | None \<Rightarrow> success"
  using assms
  by (auto simp: classify_agent_status_text_def limit_record_def clamp_score_def Let_def
      split: if_splits option.splits)

lemma attempt_expiry:
  "al_expires_at (classify_agent_status_text parse agent attempt t success code text) = sat_add_u64 t agent_limit_cache_ttl"
  by (simp add: classify_agent_status_text_def limit_record_def Let_def)

lemma probe_ok:
  assumes "al_state (probe_agent_limit V agent) = ''ok''"
  obtains attempt where "pv_authorised V (aa_account agent)" and "attempt \<in> {1, 2}"
    and "probe_agent_limit V agent = probe_attempt V agent attempt"
proof -
  let ?records = "map (probe_attempt V agent) [1 ..< Suc agent_limit_status_attempts]"
  have authorised: "pv_authorised V (aa_account agent)"
    using assms by (rule_tac ccontr) (simp add: probe_agent_limit_def limit_record_def)
  have records: "?records = [probe_attempt V agent 1, probe_attempt V agent 2]"
    by (simp add: agent_limit_status_attempts_def upt_rec numeral_2_eq_2)
  have "probe_agent_limit V agent \<in> set ?records"
    using authorised unfolding probe_agent_limit_def Let_def records
    by simp
  then show ?thesis using that [of 1] that [of 2] authorised unfolding records by auto
qed

lemma attempt_output:
  assumes "al_state (probe_attempt V agent attempt) = ''ok''"
  obtains checked_at out where "pv_status V (aa_status_command agent) attempt = (checked_at, Inr out)"
    and "probe_attempt V agent attempt = classify_agent_status_text (pv_parse V) agent attempt checked_at
      (po_success out) (po_code out) (compact_probe_output out)"
proof -
  obtain checked_at printed where view: "pv_status V (aa_status_command agent) attempt = (checked_at, printed)"
    by (cases "pv_status V (aa_status_command agent) attempt")
  show ?thesis
  proof (cases printed)
    case (Inl err)
    with view assms show ?thesis
      by (simp add: probe_attempt_def classify_agent_status_output_def limit_record_def)
  next
    case (Inr out)
    with view that show ?thesis by (simp add: probe_attempt_def classify_agent_status_output_def)
  qed
qed

lemma probed_record:
  assumes "r \<in> set (probe_agent_limits V available)"
  obtains agent first where "agent \<in> set available" and "first \<in> set available"
    and "aa_account first = aa_account agent" and "aa_command agent = al_command r"
    and "al_state r = al_state (probe_agent_limit V first)"
    and "al_capacity_score r = al_capacity_score (probe_agent_limit V first)"
    and "al_expires_at r = al_expires_at (probe_agent_limit V first)"
proof -
  let ?agents = "agent_selector_agents available"
  obtain agent where agent: "agent \<in> set ?agents"
    and r: "r = (case find (\<lambda>a. aa_account a = aa_account agent) ?agents of
         None \<Rightarrow> unchecked_agent_limit (pv_now V) agent ''status probe did not return''
       | Some first \<Rightarrow> (probe_agent_limit V first)
           \<lparr>al_command := aa_command agent, al_account := aa_account agent,
            al_status_command := aa_status_command agent\<rparr>)"
    using assms by (auto simp: probe_agent_limits_def Let_def)
  have "find (\<lambda>a. aa_account a = aa_account agent) ?agents \<noteq> None"
    using agent by (auto simp: find_None_iff)
  then obtain first where first: "find (\<lambda>a. aa_account a = aa_account agent) ?agents = Some first" by blast
  then have "first \<in> set ?agents" "aa_account first = aa_account agent"
    using find_Some_set [OF first] by auto
  with agent r first show ?thesis
    by (intro that [of agent first]) (simp_all add: agent_selector_agents_def)
qed


definition sample_agent :: available_agent where
  "sample_agent = \<lparr>aa_command = ''c1'', aa_label = ''Codex'', aa_invocation = ''exec'', aa_path = ''/bin/c1'',
     aa_account = ''1'', aa_status_command = ''c1 status''\<rparr>"

definition sample_probe :: probe_view where
  "sample_probe = \<lparr>pv_parse = (\<lambda>_. None), pv_authorised = (\<lambda>_. True), pv_auth_path = (\<lambda>_. []), pv_now = 90,
     pv_status = (\<lambda>_ _. (100, Inr \<lparr>po_success = True, po_code = Some 0,
       po_stdout = ''ready'', po_stderr = []\<rparr>))\<rparr>"

lemma sample_probed: "probe_agent_limits sample_probe [sample_agent] =
  [limit_record sample_agent ''ok'' 100 None ''readiness probe completed'' ''ready'' ''ready'' 100 1]"
proof -
  have compact: "compact_probe_output \<lparr>po_success = True, po_code = Some 0, po_stdout = ''ready'', po_stderr = []\<rparr> = ''ready''"
    by code_simp
  have scans: "normalized_status_state (\<lambda>_. None) ''ready'' = None" "status_text_limited (to_lowercase ''ready'') = False"
      "extract_relevant_status_line ''ready'' = None" "short_raw_status_summary ''ready'' = ''ready''"
      "str_contains ''remaining'' (to_lowercase ''ready'') = False" "truncate_dots ''ready'' 600 = ''ready''"
      "filter capacity_line (str_lines ''ready'') = []" "queue_agent_selector_command ''c1'' = True"
      "filter (\<lambda>line. str_contains ''reset'' (to_lowercase line) \<or> str_contains ''retry'' (to_lowercase line) \<or>
         str_contains ''try again'' (to_lowercase line)) (str_lines ''ready'') = []"
    by code_simp+
  have capacity: "normalized_reset_at_unix (\<lambda>_. None) ''ready'' 100 = None" "normalized_capacity_score (\<lambda>_. None) ''ready'' 100 = None"
    by (simp_all add: normalized_reset_at_unix_def normalized_capacity_score_def scans Let_def)
  show ?thesis
    by (simp add: probe_agent_limits_def agent_selector_agents_def probe_agent_limit_def probe_attempt_def
        classify_agent_status_output_def classify_agent_status_text_def text_limited_def limit_record_def
        sample_probe_def sample_agent_def compact scans capacity agent_limit_status_attempts_def upt_rec)
qed


section \<open>A round percentage\<close>

text \<open>
  A round percentage counts as an exhausted limit. Whatever else the status command of an
  account says and however it ends, when its text says that a multiple of ten percent is remaining,
  a hundred percent included, the account is recorded as limited and is not chosen: the test for
  \<open>0% remaining\<close> also finds the end of the greater number.
\<close>

theorem round_percentages_count_as_limited:
  "al_state (classify_agent_status_text parse agent attempt t success code
     (before @ show_nat (10 * n) @ ''% remaining'' @ after)) = ''limited'' \<and>
   \<not> queue_agent_record_usable now (classify_agent_status_text parse agent attempt t success code
     (before @ show_nat (10 * n) @ ''% remaining'' @ after))"
proof -
  let ?text = "before @ show_nat (10 * n) @ ''% remaining'' @ after"
  have "digit_char 0 = CHR ''0''" by code_simp
  then have "\<exists>ds. show_nat (10 * n) = ds @ ''0''" by (subst show_nat.simps) simp
  then obtain ds where ds: "show_nat (10 * n) = ds @ ''0''" by blast
  have "?text = (before @ ds) @ ''0% remaining'' @ after" by (simp add: ds)
  moreover have "to_lowercase ''0% remaining'' = ''0% remaining''" by code_simp
  ultimately have lower: "to_lowercase ?text = (to_lowercase before @ to_lowercase ds) @ ''0% remaining'' @ to_lowercase after"
    by (metis to_lowercase_append)
  have "status_text_limited (to_lowercase ?text)"
    unfolding status_text_limited_def lower
    using str_contains_middle [of "''0% remaining''" "to_lowercase before @ to_lowercase ds" "to_lowercase after"]
    by simp
  then have "text_limited parse t success ?text" by (simp add: text_limited_def Let_def)
  then have "al_state (classify_agent_status_text parse agent attempt t success code ?text) = ''limited''"
    by (simp add: classify_agent_status_text_def limit_record_def Let_def)
  then show ?thesis by (simp add: queue_agent_record_usable_def)
qed

section \<open>Durations\<close>

text \<open>
  A duration as a number and a unit word, written together or apart.
\<close>

fun duration_words :: "nat \<times> string \<times> bool \<Rightarrow> string list" where
  "duration_words (v, unit, together) = (if together then [show_nat v @ unit] else [show_nat v, unit])"

definition duration_text :: "(nat \<times> string \<times> bool) list \<Rightarrow> string" where
  "duration_text parts = join_with '' '' (concat (map duration_words parts))"

definition unit_word :: "string \<Rightarrow> bool" where
  "unit_word w = (list_all is_ascii_alphabetic w \<and> relative_unit w \<noteq> None)"

fun duration_seconds :: "nat \<times> string \<times> bool \<Rightarrow> nat" where
  "duration_seconds (v, unit, together) =
     v * (case relative_unit unit of
         None \<Rightarrow> 0
       | Some u \<Rightarrow> if u = CHR ''h'' then 3600 else if u = CHR ''m'' then 60 else 1)"

lemma unit_word_letters:
  assumes "unit_word w"
  obtains c cs where "w = c # cs" and "is_ascii_alphabetic c" and "list_all is_ascii_alphabetic w"
proof (cases w)
  case Nil
  moreover have "relative_unit [] = None" by code_simp
  ultimately show ?thesis using assms by (simp add: unit_word_def)
next
  case (Cons c cs)
  then show ?thesis using assms that by (simp add: unit_word_def)
qed

lemma letter_not_digit: "is_ascii_alphabetic c \<Longrightarrow> \<not> is_ascii_digit c"
  by (auto simp: is_ascii_alphabetic_def is_ascii_digit_def Let_def)

lemma letter_alphanumeric: "is_ascii_alphabetic c \<Longrightarrow> is_ascii_alphanumeric c"
  by (auto simp: is_ascii_alphabetic_def is_ascii_alphanumeric_def Let_def)

lemma digit_alphanumeric: "is_ascii_digit c \<Longrightarrow> is_ascii_alphanumeric c"
  by (simp add: is_ascii_alphanumeric_def Let_def)

lemma alphanumeric_not_whitespace: "is_ascii_alphanumeric c \<Longrightarrow> \<not> is_whitespace c"
  by (auto simp: is_ascii_alphanumeric_def is_ascii_digit_def is_whitespace_def Let_def)

lemma trim_matches_clean: "\<forall>c \<in> set w. \<not> p c \<Longrightarrow> trim_matches p w = w"
proof -
  assume w: "\<forall>c \<in> set w. \<not> p c"
  have "dropWhile p x = x" if "\<forall>c \<in> set x. \<not> p c" for x using that by (cases x) auto
  from this [OF w] this [of "rev w"] w show ?thesis by (simp add: trim_matches_def)
qed

lemma alphanumeric_trim: "list_all is_ascii_alphanumeric w \<Longrightarrow> trim_matches (\<lambda>c. \<not> is_ascii_alphanumeric c) w = w"
  by (rule trim_matches_clean) (simp add: list_all_iff)

lemma duration_word_clean:
  assumes "unit_word u" and "w \<in> set (duration_words (v, u, together))"
  shows "w \<noteq> [] \<and> list_all is_ascii_alphanumeric w"
proof -
  obtain c cs where u: "u = c # cs" "list_all is_ascii_alphabetic u" using unit_word_letters [OF assms(1)] by blast
  then have letters: "list_all is_ascii_alphanumeric u" by (auto simp: list_all_iff letter_alphanumeric)
  have digits: "list_all is_ascii_alphanumeric (show_nat v)"
    using show_nat_digits by (auto simp: list_all_iff digit_alphanumeric)
  show ?thesis using assms(2) u(1) letters digits by (cases together) auto
qed

text \<open>Words without a space survive being joined and split.\<close>

lemma split_joined_words:
  assumes "\<forall>w \<in> set ws. w \<noteq> [] \<and> list_all is_ascii_alphanumeric w"
  shows "split_whitespace (join_with '' '' ws) = ws"
proof -
  have space: "is_whitespace CHR '' ''" by code_simp
  have split: "filter (\<lambda>w. w \<noteq> []) (split_when is_whitespace (join_with '' '' ws)) = ws"
    using assms
  proof (induction ws rule: induct_list012)
    case 1
    then show ?case by simp
  next
    case (2 w)
    then have "\<forall>c \<in> set w. \<not> is_whitespace c" by (auto simp: list_all_iff dest: alphanumeric_not_whitespace)
    with 2 show ?case by (simp add: split_when_clean)
  next
    case (3 w v ws)
    then have "\<forall>c \<in> set w. \<not> is_whitespace c" by (auto simp: list_all_iff dest: alphanumeric_not_whitespace)
    with 3 space show ?case by (simp add: split_when_at)
  qed
  then show ?thesis by (simp add: split_whitespace_def)
qed

lemma scan_number:
  assumes "v \<le> u64_max"
  shows "scan_token (show_nat v) (secs, pending, found) = (secs, Some v, found)"
proof -
  have "list_all is_ascii_alphanumeric (show_nat v)"
    using show_nat_digits by (auto simp: list_all_iff digit_alphanumeric)
  then show ?thesis using assms by (simp add: scan_token_def alphanumeric_trim parse_u64_show)
qed

lemma not_a_number:
  assumes "unit_word u"
  shows "parse_u64 (ds @ u) = None"
proof -
  obtain c cs where u: "u = c # cs" "is_ascii_alphabetic c" using unit_word_letters [OF assms] by blast
  then have "c \<noteq> CHR ''+''" by (auto simp: is_ascii_alphabetic_def)
  with u letter_not_digit [OF u(2)] show ?thesis
    by (cases ds) (auto simp: parse_u64_def parse_unsigned_def)
qed

lemma scan_unit:
  assumes "unit_word u"
  shows "scan_token u (secs, Some v, found) =
    (sat_add_u64 secs (relative_seconds v (the (relative_unit u))), None, True)"
proof -
  obtain c cs where u: "u = c # cs" "is_ascii_alphabetic c" "list_all is_ascii_alphabetic u"
    using unit_word_letters [OF assms] by blast
  then have "list_all is_ascii_alphanumeric u" by (auto simp: list_all_iff letter_alphanumeric)
  then have trimmed: "trim_matches (\<lambda>c. \<not> is_ascii_alphanumeric c) u = u" by (rule alphanumeric_trim)
  have number: "parse_u64 u = None" using not_a_number [OF assms, of "[]"] by simp
  have "parse_compact_relative_token u = None"
    using u letter_not_digit [OF u(2)]
    by (simp add: parse_compact_relative_token_def parse_u64_def parse_unsigned_def)
  with trimmed number u(1) assms show ?thesis by (auto simp: scan_token_def unit_word_def)
qed

lemma scan_together:
  assumes "unit_word u" and "v \<le> u64_max"
  shows "scan_token (show_nat v @ u) (secs, pending, found) =
    (sat_add_u64 secs (relative_seconds v (the (relative_unit u))), None, True)"
proof -
  obtain c cs where u: "u = c # cs" "is_ascii_alphabetic c" "list_all is_ascii_alphabetic u"
    using unit_word_letters [OF assms(1)] by blast
  have digits: "\<forall>c \<in> set (show_nat v). is_ascii_digit c" using show_nat_digits by blast
  have "list_all is_ascii_alphanumeric (show_nat v @ u)"
    using u digits by (auto simp: list_all_iff letter_alphanumeric digit_alphanumeric)
  then have trimmed: "trim_matches (\<lambda>c. \<not> is_ascii_alphanumeric c) (show_nat v @ u) = show_nat v @ u"
    by (rule alphanumeric_trim)
  have "takeWhile is_ascii_digit (show_nat v @ u) = show_nat v" "dropWhile is_ascii_digit (show_nat v @ u) = u"
    using digits u(1) letter_not_digit [OF u(2)] by (simp_all add: takeWhile_append2 dropWhile_append2)
  then have "parse_compact_relative_token (show_nat v @ u) = Some (v, the (relative_unit u))"
    using assms u(1) by (auto simp: parse_compact_relative_token_def parse_u64_show unit_word_def)
  with trimmed not_a_number [OF assms(1)] show ?thesis by (simp add: scan_token_def)
qed

lemma scan_duration:
  assumes "unit_word u" and "v \<le> u64_max"
  shows "fold scan_token (duration_words (v, u, together)) (secs, pending, found) =
    (sat_add_u64 secs (relative_seconds v (the (relative_unit u))), None, True)"
  using assms by (simp add: scan_together scan_number scan_unit)

lemma unit_letters: "relative_unit u = Some c \<Longrightarrow> c \<in> {CHR ''h'', CHR ''m'', CHR ''s''}"
  by (auto simp: relative_unit_def Let_def split: if_splits)

lemma saturating_duration:
  assumes "unit_word u" and "v \<le> u64_max"
  shows "sat_add_u64 (min n u64_max) (relative_seconds v (the (relative_unit u))) =
    min (n + duration_seconds (v, u, together)) u64_max"
proof -
  obtain c where c: "relative_unit u = Some c" "c \<in> {CHR ''h'', CHR ''m'', CHR ''s''}"
    using assms unit_letters by (auto simp: unit_word_def)
  then have "relative_seconds v c = min (duration_seconds (v, u, together)) u64_max"
    using assms(2) by (auto simp: relative_seconds_def sat_mul_u64_def)
  with c(1) show ?thesis by (simp add: sat_add_u64_def min_def)
qed

text \<open>
  A wait is read as it is written. A text of durations, each a number and a word that begins
  with the letter of its unit, written together (\<open>2h\<close>) or apart (\<open>15 minutes\<close>), is read as the
  sum of the durations in seconds, or the greatest \<open>u64\<close> when the sum exceeds it.
\<close>

theorem durations_are_read_back:
  assumes "parts \<noteq> []" and "list_all (\<lambda>(v, u, together). v \<le> u64_max \<and> unit_word u) parts"
  shows "parse_relative_seconds (duration_text parts) = Some (min (sum_list (map duration_seconds parts)) u64_max)"
proof -
  let ?words = "concat (map duration_words parts)"
  have "\<forall>w \<in> set ?words. w \<noteq> [] \<and> list_all is_ascii_alphanumeric w"
    using assms(2) duration_word_clean by (fastforce simp: list_all_iff)
  then have words: "split_whitespace (duration_text parts) = ?words"
    unfolding duration_text_def by (rule split_joined_words)
  have scanned: "fold scan_token (concat (map duration_words ps)) (min n u64_max, None, found) =
      (min (n + sum_list (map duration_seconds ps)) u64_max, None, found \<or> ps \<noteq> [])"
    if "list_all (\<lambda>(v, u, together). v \<le> u64_max \<and> unit_word u) ps" for ps n found
    using that
  proof (induction ps arbitrary: n found)
    case Nil
    then show ?case by simp
  next
    case (Cons p ps)
    obtain v u together where p: "p = (v, u, together)" by (cases p)
    with Cons.prems have "unit_word u" "v \<le> u64_max" by auto
    then show ?case
      using Cons.IH [of "n + duration_seconds p" True] Cons.prems
      by (simp add: p scan_duration saturating_duration [where together = together] add.assoc del: duration_words.simps duration_seconds.simps)
  qed
  from scanned [OF assms(2), of 0 False] assms(1) show ?thesis
    by (simp add: parse_relative_seconds_def words)
qed

theorem durations_are_read_back_witness:
  "parse_relative_seconds (duration_text [(2, ''h'', True), (15, ''minutes'', False)]) = Some 8100"
proof -
  have "unit_word ''h''" "unit_word ''minutes''" "relative_unit ''h'' = Some CHR ''h''" "relative_unit ''minutes'' = Some CHR ''m''"
    by code_simp+
  with durations_are_read_back [of "[(2, ''h'', True), (15, ''minutes'', False)]"] show ?thesis
    by (simp add: u64_max_def)
qed

end
