(* ===== verification/Codex_Sessions.thy ===== *)
theory Codex_Sessions
  imports Queue_Launch Agent_Limits
begin

text \<open>
  Session files of the agents (\<open>src/src/app/codex_sessions.rs\<close>, the telemetry of
  \<open>src/src/app/codex_metadata.rs\<close>): which session belongs to a task, what it cost, which of its tool
  outputs were large, and which session an agent of its own belongs to.

  The JSON parser is an argument, as are the files: which session files there are, when they were
  modified, what they contain. Numbers of a session are \<open>u64\<close>; their sums wrap as in a release
  build. Sums of days are exact, as in the code for years below ten to the sixteenth.
\<close>

section \<open>JSON values\<close>

definition json_as_array :: "json \<Rightarrow> json list option" where
  "json_as_array v = (case v of JArray xs \<Rightarrow> Some xs | _ \<Rightarrow> None)"

definition json_as_object :: "json \<Rightarrow> (string \<times> json) list option" where
  "json_as_object v = (case v of JObject kvs \<Rightarrow> Some kvs | _ \<Rightarrow> None)"

definition json_str :: "string \<Rightarrow> json \<Rightarrow> string option" where
  "json_str key v = Option.bind (json_get key v) json_as_str"

definition json_u64 :: "string \<Rightarrow> json \<Rightarrow> nat option" where
  "json_u64 key v = Option.bind (json_get key v) json_as_u64"

definition u64_or_0 :: "string \<Rightarrow> json \<Rightarrow> nat" where
  "u64_or_0 key v = (case json_u64 key v of None \<Rightarrow> 0 | Some n \<Rightarrow> n)"

text \<open>An object literal; \<open>serde_json\<close> keeps the keys of an object in order.\<close>

definition json_object :: "(string \<times> json) list \<Rightarrow> json" where
  "json_object kvs = JObject (sort_key fst kvs)"

definition json_nat :: "nat \<Rightarrow> json" where
  "json_nat n = JNumber (int n)"

definition json_or_null :: "('a \<Rightarrow> json) \<Rightarrow> 'a option \<Rightarrow> json" where
  "json_or_null f v = (case v of None \<Rightarrow> JNull | Some x \<Rightarrow> f x)"

definition add_u64 :: "nat \<Rightarrow> nat \<Rightarrow> nat" where
  "add_u64 a b = (a + b) mod (u64_max + 1)"

section \<open>Times\<close>

definition days_from_civil :: "int \<Rightarrow> int \<Rightarrow> int \<Rightarrow> int" where
  "days_from_civil year0 month day =
     (let year = year0 - (if month \<le> 2 then 1 else 0);
          era = (if year \<ge> 0 then year div 400 else - ((399 - year) div 400));
          year_of_era = year - era * 400;
          month_prime = month + (if month > 2 then - 3 else 9);
          day_of_year = (153 * month_prime + 2) div 5 + day - 1;
          day_of_era = year_of_era * 365 + year_of_era div 4 - year_of_era div 100 + day_of_year
      in era * 146097 + day_of_era - 719468)"

definition strip_suffix_char :: "char \<Rightarrow> string \<Rightarrow> string option" where
  "strip_suffix_char c s = (if s \<noteq> [] \<and> last s = c then Some (butlast s) else None)"

text \<open>Three numbers between separators, and nothing after them.\<close>

definition three_numbers :: "(string \<Rightarrow> 'a option) \<Rightarrow> char \<Rightarrow> string \<Rightarrow> ('a \<times> 'a \<times> 'a) option" where
  "three_numbers parse sep s =
     (case split_when (\<lambda>c. c = sep) s of
        [a, b, c] \<Rightarrow> (case (parse a, parse b, parse c) of
            (Some x, Some y, Some z) \<Rightarrow> Some (x, y, z) | _ \<Rightarrow> None)
      | _ \<Rightarrow> None)"

definition parse_rfc3339_unix :: "string \<Rightarrow> nat option" where
  "parse_rfc3339_unix v =
     Option.bind (split_once CHR ''T'' v) (\<lambda>(date, time0).
     Option.bind (strip_suffix_char CHR ''Z'' time0) (\<lambda>time1.
     Option.bind (three_numbers parse_i64 CHR ''-'' date) (\<lambda>(year, month, day).
     let time = (case split_once CHR ''.'' time1 of None \<Rightarrow> time1 | Some (whole, _) \<Rightarrow> whole)
     in Option.bind (three_numbers parse_u64 CHR '':'' time) (\<lambda>(hour, minute, second).
       if \<not> (1 \<le> month \<and> month \<le> 12) \<or> \<not> (1 \<le> day \<and> day \<le> 31) \<or> hour > 23 \<or> minute > 59 \<or> second > 60 then None
       else (let days = days_from_civil year month day in
         if days < 0 then None else Some (nat days * 86400 + hour * 3600 + minute * 60 + second))))))"

section \<open>What a session says about a worktree\<close>

definition path_text_is_in_worktree :: "string \<Rightarrow> string \<Rightarrow> bool" where
  "path_text_is_in_worktree path worktree =
     (path = worktree \<or> (case strip_prefix worktree path of None \<Rightarrow> False | Some rest \<Rightarrow> starts_with ''/'' rest))"

definition output_mentions_worktree_marker :: "string \<Rightarrow> string \<Rightarrow> bool" where
  "output_mentions_worktree_marker printed worktree =
     list_ex (\<lambda>key. list_ex (\<lambda>needle. str_contains needle printed)
         [key @ ''='' @ worktree, key @ ''='' @ quote_char # worktree @ [quote_char],
          key @ ''='' @ CHR 0x22 # worktree @ [CHR 0x22]])
       [''TASK_WORKTREE'', ''QCOLD_REPO_ROOT'', ''VITASTOR_TASKFLOW_TASK_WORKTREE'']"

fun value_mentions_managed_path :: "json \<Rightarrow> string \<Rightarrow> bool" where
  "value_mentions_managed_path (JString s) worktree =
     (str_contains worktree s \<or> output_mentions_worktree_marker s worktree)"
| "value_mentions_managed_path (JArray xs) worktree = (\<exists>x \<in> set xs. value_mentions_managed_path x worktree)"
| "value_mentions_managed_path (JObject kvs) worktree = (\<exists>kv \<in> set kvs. value_mentions_managed_path (snd kv) worktree)"
| "value_mentions_managed_path _ worktree = False"

definition function_call_matches_worktree :: "json \<Rightarrow> string \<Rightarrow> bool" where
  "function_call_matches_worktree arguments worktree =
     (list_ex (\<lambda>key. case json_str key arguments of
         None \<Rightarrow> False | Some path \<Rightarrow> path_text_is_in_worktree path worktree) [''workdir'', ''cwd''] \<or>
      value_mentions_managed_path arguments worktree)"

text \<open>One line of a session: the id it may name, and whether it ties the session to the worktree.\<close>

definition line_session_id :: "json \<Rightarrow> string option" where
  "line_session_id v =
     (if json_str ''type'' v = Some ''session_meta'' then Option.bind (json_get ''payload'' v) (json_str ''id'') else None)"

definition line_matches_worktree :: "(string \<Rightarrow> json option) \<Rightarrow> string \<Rightarrow> json \<Rightarrow> bool" where
  "line_matches_worktree parse worktree v =
     (let kind = json_str ''type'' v; payload = json_get ''payload'' v in
      if kind = Some ''session_meta'' then
        (case Option.bind payload (json_str ''cwd'') of
           None \<Rightarrow> False | Some cwd \<Rightarrow> path_text_is_in_worktree cwd worktree)
      else if kind = Some ''response_item'' then
        (case payload of
           None \<Rightarrow> False
         | Some p \<Rightarrow>
             (case json_str ''type'' p of
                None \<Rightarrow> False
              | Some item \<Rightarrow>
                  if item = ''function_call'' then
                    (case Option.bind (json_str ''arguments'' p) parse of
                       None \<Rightarrow> False | Some arguments \<Rightarrow> function_call_matches_worktree arguments worktree)
                  else if item = ''function_call_output'' then
                    (case json_str ''output'' p of
                       None \<Rightarrow> False | Some printed \<Rightarrow> output_mentions_worktree_marker printed worktree)
                  else False))
      else False)"

definition session_values :: "(string \<Rightarrow> json option) \<Rightarrow> string \<Rightarrow> json list" where
  "session_values parse content = List.map_filter parse (str_lines content)"

definition codex_session_match_for_worktree :: "(string \<Rightarrow> json option) \<Rightarrow> string \<Rightarrow> string \<Rightarrow> string option" where
  "codex_session_match_for_worktree parse content worktree =
     (let vs = session_values parse content in
      case find_map line_session_id vs of
        None \<Rightarrow> None
      | Some session_id \<Rightarrow>
          if list_ex (line_matches_worktree parse worktree) vs \<and> session_id \<noteq> [] then Some session_id else None)"

text \<open>The id of the first line that describes the session.\<close>

definition codex_session_id_from_content :: "(string \<Rightarrow> json option) \<Rightarrow> string \<Rightarrow> string option" where
  "codex_session_id_from_content parse content =
     Option.bind (find (\<lambda>v. json_str ''type'' v = Some ''session_meta'') (session_values parse content)) line_session_id"

definition is_ascii_hexdigit :: "char \<Rightarrow> bool" where
  "is_ascii_hexdigit c =
     (let n = of_char c :: nat in is_ascii_digit c \<or> (65 \<le> n \<and> n \<le> 70) \<or> (97 \<le> n \<and> n \<le> 102))"

definition file_stem :: "string \<Rightarrow> string option" where
  "file_stem path =
     (case path_components path of
        (_, parts) \<Rightarrow>
          if parts = [] \<or> last parts \<in> {''.'', ''..''} then None
          else (let name = last parts in
            case rsplit_once CHR ''.'' name of
              None \<Rightarrow> Some name
            | Some (before, _) \<Rightarrow> if before = [] then Some name else Some before))"

text \<open>The last 36 bytes of the stem, if a character starts there.\<close>

fun drop_bytes :: "nat \<Rightarrow> string \<Rightarrow> string option" where
  "drop_bytes n s =
     (if n = 0 then Some s
      else (case s of [] \<Rightarrow> None | c # cs \<Rightarrow> if n < utf8_width c then None else drop_bytes (n - utf8_width c) cs))"

definition codex_thread_id_from_path :: "string \<Rightarrow> string option" where
  "codex_thread_id_from_path path =
     Option.bind (file_stem path) (\<lambda>stem.
     Option.bind (drop_bytes (sum_list (map utf8_width stem) - 36) stem) (\<lambda>suffix.
       if sum_list (map utf8_width suffix) = 36 \<and>
          list_all (\<lambda>(index, c). if index \<in> {8, 13, 18, 23} then c = CHR ''-'' else is_ascii_hexdigit c)
            (enumerate 0 suffix)
       then Some suffix else None))"

definition codex_session_match_for_explicit_rollout ::
  "(string \<Rightarrow> json option) \<Rightarrow> string \<Rightarrow> string \<Rightarrow> string option \<Rightarrow> string option" where
  "codex_session_match_for_explicit_rollout parse path content explicit_thread_id =
     (case (case codex_session_id_from_content parse content of
              None \<Rightarrow> codex_thread_id_from_path path | Some s \<Rightarrow> Some s) of
        None \<Rightarrow> None
      | Some session_id \<Rightarrow>
          (case nonblank explicit_thread_id of
             None \<Rightarrow> Some session_id
           | Some thread_id \<Rightarrow> if trim thread_id \<noteq> session_id then None else Some session_id))"


section \<open>Tokens and tool outputs\<close>

definition large_tool_output_token_threshold :: nat where
  "large_tool_output_token_threshold = 5000"

definition max_tool_output_samples :: nat where
  "max_tool_output_samples = 5"

definition default_codex_telemetry_retention_hours :: nat where
  "default_codex_telemetry_retention_hours = 48"

record codex_token_usage =
  cu_input_tokens :: nat
  cu_cached_input_tokens :: nat
  cu_output_tokens :: nat
  cu_reasoning_output_tokens :: nat
  cu_total_tokens :: nat
  cu_model_calls :: nat
  cu_model_context_window :: "nat option"

record tool_output_sample =
  ts_original_tokens :: nat
  ts_session :: string
  ts_command :: string

record tool_output_stats =
  to_calls :: nat
  to_original_tokens :: nat
  to_large_calls :: nat
  to_large_original_tokens :: nat
  to_samples :: "tool_output_sample list"

record codex_task_telemetry =
  ct_usage :: codex_token_usage
  ct_session_ids :: "string list"
  ct_session_paths :: "string list"
  ct_session_count :: nat
  ct_matched_by_explicit :: nat
  ct_matched_by_worktree :: nat
  ct_matched_by_task :: nat
  ct_retention_hours :: nat
  ct_tool_outputs :: tool_output_stats

definition no_usage :: codex_token_usage where
  "no_usage = \<lparr>cu_input_tokens = 0, cu_cached_input_tokens = 0, cu_output_tokens = 0, cu_reasoning_output_tokens = 0,
     cu_total_tokens = 0, cu_model_calls = 0, cu_model_context_window = None\<rparr>"

definition no_tool_outputs :: tool_output_stats where
  "no_tool_outputs = \<lparr>to_calls = 0, to_original_tokens = 0, to_large_calls = 0, to_large_original_tokens = 0, to_samples = []\<rparr>"

definition no_telemetry :: codex_task_telemetry where
  "no_telemetry = \<lparr>ct_usage = no_usage, ct_session_ids = [], ct_session_paths = [], ct_session_count = 0,
     ct_matched_by_explicit = 0, ct_matched_by_worktree = 0, ct_matched_by_task = 0, ct_retention_hours = 0,
     ct_tool_outputs = no_tool_outputs\<rparr>"

definition add_last_usage :: "json \<Rightarrow> codex_token_usage \<Rightarrow> codex_token_usage" where
  "add_last_usage info u =
     (case json_get ''last_token_usage'' info of
        None \<Rightarrow> u
      | Some last_usage \<Rightarrow>
          (let input = u64_or_0 ''input_tokens'' last_usage; out = u64_or_0 ''output_tokens'' last_usage;
               total_tokens = (case json_u64 ''total_tokens'' last_usage of None \<Rightarrow> add_u64 input out | Some n \<Rightarrow> n)
           in \<lparr>cu_input_tokens = add_u64 (cu_input_tokens u) input,
               cu_cached_input_tokens = add_u64 (cu_cached_input_tokens u) (u64_or_0 ''cached_input_tokens'' last_usage),
               cu_output_tokens = add_u64 (cu_output_tokens u) out,
               cu_reasoning_output_tokens =
                 add_u64 (cu_reasoning_output_tokens u) (u64_or_0 ''reasoning_output_tokens'' last_usage),
               cu_total_tokens = add_u64 (cu_total_tokens u) total_tokens,
               cu_model_calls = add_u64 (cu_model_calls u) 1,
               cu_model_context_window = coalesce (cu_model_context_window u) (json_u64 ''model_context_window'' info)\<rparr>))"

text \<open>Samples are sorted by their tokens, the largest first, stably, and five are kept.\<close>

definition largest_first :: "tool_output_sample \<Rightarrow> int" where
  "largest_first s = - int (ts_original_tokens s)"

definition add_tool_output_sample :: "tool_output_sample \<Rightarrow> tool_output_stats \<Rightarrow> tool_output_stats" where
  "add_tool_output_sample s st =
     (let n = ts_original_tokens s; large = (n \<ge> large_tool_output_token_threshold) in
      \<lparr>to_calls = add_u64 (to_calls st) 1, to_original_tokens = add_u64 (to_original_tokens st) n,
       to_large_calls = (if large then add_u64 (to_large_calls st) 1 else to_large_calls st),
       to_large_original_tokens =
         (if large then add_u64 (to_large_original_tokens st) n else to_large_original_tokens st),
       to_samples = take max_tool_output_samples (sort_key largest_first (to_samples st @ [s]))\<rparr>)"

definition original_token_count :: "string \<Rightarrow> nat option" where
  "original_token_count printed =
     Option.bind (split_once_str ''Original token count:'' printed) (\<lambda>(_, after).
       (case split_whitespace (hd (split_str ''Original token count:'' after)) of
          [] \<Rightarrow> None | w # _ \<Rightarrow> parse_u64 w))"

definition compact_text :: "string \<Rightarrow> nat \<Rightarrow> string" where
  "compact_text v max_chars = truncate_dots (join_with '' '' (split_whitespace v)) max_chars"

definition compact_function_call :: "json \<Rightarrow> string" where
  "compact_function_call payload =
     (let name = (case json_str ''name'' payload of None \<Rightarrow> ''function_call'' | Some n \<Rightarrow> n);
          arguments = (case json_str ''arguments'' payload of None \<Rightarrow> [] | Some a \<Rightarrow> a);
          words = split_whitespace (map (\<lambda>c. if c \<in> {CHR 0x0A, CHR 0x0D, CHR 0x09} then CHR '' '' else c) arguments)
      in compact_text (name @ '' '' @ join_with '' '' words) 180)"

text \<open>The calls of a session so far, and the statistics; only outputs inside the window count.\<close>

type_synonym session_scan = "(string \<Rightarrow> string option) \<times> codex_token_usage \<times> tool_output_stats"

definition collect_tool_output_stats ::
  "json \<Rightarrow> string \<Rightarrow> bool \<Rightarrow> (string \<Rightarrow> string option) \<Rightarrow> tool_output_stats \<Rightarrow>
   (string \<Rightarrow> string option) \<times> tool_output_stats" where
  "collect_tool_output_stats payload session_name count_output calls stats =
     (if json_str ''type'' payload = Some ''function_call'' then
        (case json_str ''call_id'' payload of
           None \<Rightarrow> (calls, stats)
         | Some call_id \<Rightarrow> (calls(call_id \<mapsto> compact_function_call payload), stats))
      else if json_str ''type'' payload = Some ''function_call_output'' \<and> count_output then
        (case Option.bind (json_str ''output'' payload) original_token_count of
           None \<Rightarrow> (calls, stats)
         | Some tokens \<Rightarrow>
             (let command = (case Option.bind (json_str ''call_id'' payload) calls of
                  None \<Rightarrow> ''unknown tool call'' | Some c \<Rightarrow> c)
              in (calls, add_tool_output_sample \<lparr>ts_original_tokens = tokens, ts_session = session_name, ts_command = command\<rparr> stats)))
      else (calls, stats))"

definition line_within_window :: "nat \<Rightarrow> nat \<Rightarrow> json \<Rightarrow> bool" where
  "line_within_window started_at finished_at v =
     (case Option.bind (json_str ''timestamp'' v) parse_rfc3339_unix of
        None \<Rightarrow> False | Some t \<Rightarrow> started_at \<le> t \<and> t \<le> finished_at)"

definition scan_session_line :: "string \<Rightarrow> nat \<Rightarrow> nat \<Rightarrow> json \<Rightarrow> session_scan \<Rightarrow> session_scan" where
  "scan_session_line session_name started_at finished_at v = (\<lambda>(calls, usage, stats).
     let within = line_within_window started_at finished_at v;
         kind = json_str ''type'' v; payload = json_get ''payload'' v;
         (calls', stats') = (case payload of
             Some p \<Rightarrow> if kind = Some ''response_item'' then collect_tool_output_stats p session_name within calls stats
                        else (calls, stats)
           | None \<Rightarrow> (calls, stats));
         usage' = (case payload of
             Some p \<Rightarrow>
               if within \<and> kind = Some ''event_msg'' \<and> json_str ''type'' p = Some ''token_count'' then
                 (case json_get ''info'' p of None \<Rightarrow> usage | Some info \<Rightarrow> add_last_usage info usage)
               else usage
           | None \<Rightarrow> usage)
     in (calls', usage', stats'))"

datatype session_match = SessionExplicit | SessionWorktree

definition add_once :: "string \<Rightarrow> string list \<Rightarrow> string list" where
  "add_once x xs = (if x \<in> set xs then xs else xs @ [x])"

definition session_file_name :: "string \<Rightarrow> string" where
  "session_file_name path =
     (case path_components path of
        (_, parts) \<Rightarrow> if parts = [] \<or> last parts \<in> {''.'', ''..''} then ''session.jsonl'' else last parts)"

definition collect_codex_task_telemetry_session ::
  "(string \<Rightarrow> json option) \<Rightarrow> string \<Rightarrow> string \<Rightarrow> string \<Rightarrow> session_match \<Rightarrow> string list \<Rightarrow> nat \<Rightarrow> nat \<Rightarrow>
   codex_task_telemetry \<Rightarrow> codex_task_telemetry" where
  "collect_codex_task_telemetry_session parse path content session_id kind task_terms started_at finished_at t =
     (let (calls, usage, stats) = fold (scan_session_line (session_file_name path) started_at finished_at)
            (session_values parse content) (\<lambda>_. None, ct_usage t, ct_tool_outputs t)
      in t\<lparr>ct_usage := usage, ct_tool_outputs := stats,
           ct_session_count := add_u64 (ct_session_count t) 1,
           ct_session_ids := add_once session_id (ct_session_ids t),
           ct_session_paths := add_once path (ct_session_paths t),
           ct_matched_by_explicit := (if kind = SessionExplicit then add_u64 (ct_matched_by_explicit t) 1 else ct_matched_by_explicit t),
           ct_matched_by_worktree := (if kind = SessionWorktree then add_u64 (ct_matched_by_worktree t) 1 else ct_matched_by_worktree t),
           ct_matched_by_task := (if list_ex (\<lambda>w. str_contains w content) task_terms
             then add_u64 (ct_matched_by_task t) 1 else ct_matched_by_task t)\<rparr>)"

section \<open>The telemetry of a task\<close>

text \<open>What is read from the file system.\<close>

record session_view =
  sv_parse :: "string \<Rightarrow> json option"
  sv_files :: "string \<Rightarrow> string + string list"
  sv_is_dir :: "string \<Rightarrow> bool"
  sv_is_file :: "string \<Rightarrow> bool"
  sv_read :: "string \<Rightarrow> string + string"
  sv_modified :: "string \<Rightarrow> nat option"

definition codex_telemetry_retention_hours :: "(string \<Rightarrow> string option) \<Rightarrow> nat" where
  "codex_telemetry_retention_hours env =
     (case Option.bind (env ''QCOLD_CODEX_TELEMETRY_RETENTION_HOURS'') parse_u64 of
        None \<Rightarrow> default_codex_telemetry_retention_hours
      | Some n \<Rightarrow> if n > 0 then n else default_codex_telemetry_retention_hours)"

definition codex_telemetry_retention_cutoff :: "(string \<Rightarrow> string option) \<Rightarrow> nat \<Rightarrow> nat" where
  "codex_telemetry_retention_cutoff env now = now - sat_mul_u64 (codex_telemetry_retention_hours env) (60 * 60)"

text \<open>\<open>for root in roots\<close>: the session files below the roots that are directories.\<close>

fun session_files_of :: "session_view \<Rightarrow> string list \<Rightarrow> string + string list" where
  "session_files_of V [] = Inr []"
| "session_files_of V (root # roots) =
     (if \<not> sv_is_dir V root then session_files_of V roots
      else (case sv_files V root of
          Inl e \<Rightarrow> Inl e
        | Inr files \<Rightarrow> (case session_files_of V roots of Inl e \<Rightarrow> Inl e | Inr others \<Rightarrow> Inr (files @ others))))"

definition explicit_session_paths :: "string list \<Rightarrow> string list \<Rightarrow> string option \<Rightarrow> string list" where
  "explicit_session_paths explicit_rollout_paths files explicit_thread_id =
     explicit_rollout_paths @
     (case nonblank explicit_thread_id of
        None \<Rightarrow> []
      | Some thread_id \<Rightarrow>
          filter (\<lambda>path. (case path_components path of (_, parts) \<Rightarrow>
              parts \<noteq> [] \<and> last parts \<notin> {''.'', ''..''} \<and> str_contains (trim thread_id) (last parts)) \<and>
            path \<notin> set explicit_rollout_paths) files)"

text \<open>The sessions that are named explicitly; the paths of those that match are remembered.\<close>

fun collect_explicit_sessions ::
  "session_view \<Rightarrow> string option \<Rightarrow> string list \<Rightarrow> nat \<Rightarrow> nat \<Rightarrow> string list \<Rightarrow>
   string list \<Rightarrow> codex_task_telemetry \<Rightarrow> string + string list \<times> codex_task_telemetry" where
  "collect_explicit_sessions V thread_id task_terms started_at finished_at [] seen t = Inr (seen, t)"
| "collect_explicit_sessions V thread_id task_terms started_at finished_at (path # paths) seen t =
     (if \<not> sv_is_file V path then collect_explicit_sessions V thread_id task_terms started_at finished_at paths seen t
      else (case sv_read V path of
        Inl e \<Rightarrow> Inl e
      | Inr content \<Rightarrow>
          (case codex_session_match_for_explicit_rollout (sv_parse V) path content thread_id of
             None \<Rightarrow> collect_explicit_sessions V thread_id task_terms started_at finished_at paths seen t
           | Some session_id \<Rightarrow>
               collect_explicit_sessions V thread_id task_terms started_at finished_at paths (path # seen)
                 (collect_codex_task_telemetry_session (sv_parse V) path content session_id SessionExplicit
                    task_terms started_at finished_at t))))"

text \<open>The other sessions, if they were written while the task ran and mention its worktree.\<close>

fun collect_worktree_sessions ::
  "session_view \<Rightarrow> string \<Rightarrow> string list \<Rightarrow> nat \<Rightarrow> nat \<Rightarrow> nat \<Rightarrow> string list \<Rightarrow> string list \<Rightarrow>
   codex_task_telemetry \<Rightarrow> string + codex_task_telemetry" where
  "collect_worktree_sessions V worktree task_terms scan_started_at started_at finished_at [] seen t = Inr t"
| "collect_worktree_sessions V worktree task_terms scan_started_at started_at finished_at (path # paths) seen t =
     (let go_on = collect_worktree_sessions V worktree task_terms scan_started_at started_at finished_at paths seen in
      if path \<in> set seen then go_on t
      else (case sv_modified V path of
        None \<Rightarrow> go_on t
      | Some modified \<Rightarrow>
          if modified < scan_started_at \<or> modified > sat_add_u64 finished_at 900 then go_on t
          else (case sv_read V path of
            Inl e \<Rightarrow> Inl e
          | Inr content \<Rightarrow>
              (case codex_session_match_for_worktree (sv_parse V) content worktree of
                 None \<Rightarrow> go_on t
               | Some session_id \<Rightarrow>
                   go_on (collect_codex_task_telemetry_session (sv_parse V) path content session_id SessionWorktree
                     task_terms started_at finished_at t)))))"

definition codex_task_telemetry_for_worktree_in_roots ::
  "session_view \<Rightarrow> nat \<Rightarrow> string \<Rightarrow> string option \<Rightarrow> nat \<Rightarrow> nat \<Rightarrow> string list \<Rightarrow> nat option \<Rightarrow> string list \<Rightarrow>
   string option \<Rightarrow> string + codex_task_telemetry option" where
  "codex_task_telemetry_for_worktree_in_roots V retention_hours worktree task_slug started_at finished_at roots
     retention_cutoff explicit_rollout_paths explicit_thread_id =
     (case session_files_of V roots of
        Inl e \<Rightarrow> Inl e
      | Inr files \<Rightarrow>
          (let task_terms = (case task_slug of None \<Rightarrow> [] | Some slug \<Rightarrow> [slug, ''task/'' @ slug]);
               scan_started_at = max (case retention_cutoff of None \<Rightarrow> 0 | Some c \<Rightarrow> c) (started_at - 300)
           in case collect_explicit_sessions V explicit_thread_id task_terms started_at finished_at
                     (explicit_session_paths explicit_rollout_paths files explicit_thread_id) []
                     (no_telemetry\<lparr>ct_retention_hours := retention_hours\<rparr>) of
                Inl e \<Rightarrow> Inl e
              | Inr (seen, t) \<Rightarrow>
                  (case collect_worktree_sessions V worktree task_terms scan_started_at started_at finished_at files seen t of
                     Inl e \<Rightarrow> Inl e
                   | Inr t' \<Rightarrow> Inr (if cu_model_calls (ct_usage t') > 0 \<or> to_calls (ct_tool_outputs t') > 0
                       then Some t' else None))))"


definition codex_task_telemetry_for_worktree ::
  "session_view \<Rightarrow> (string \<Rightarrow> string option) \<Rightarrow> nat \<Rightarrow> (string + string list) \<Rightarrow> string \<Rightarrow> string option \<Rightarrow> nat \<Rightarrow> nat \<Rightarrow>
   string list \<Rightarrow> string option \<Rightarrow> string + codex_task_telemetry option" where
  "codex_task_telemetry_for_worktree V env now roots worktree task_slug started_at finished_at explicit_rollout_paths
     explicit_thread_id =
     (case roots of
        Inl e \<Rightarrow> Inl e
      | Inr rs \<Rightarrow> codex_task_telemetry_for_worktree_in_roots V (codex_telemetry_retention_hours env) worktree task_slug
          started_at finished_at rs (Some (codex_telemetry_retention_cutoff env now)) explicit_rollout_paths
          explicit_thread_id)"

definition usage_as_json :: "codex_token_usage \<Rightarrow> json" where
  "usage_as_json u =
     (let non_cached_input = cu_input_tokens u - cu_cached_input_tokens u in
      json_object
       [(''input_tokens'', json_nat (cu_input_tokens u)), (''cached_input_tokens'', json_nat (cu_cached_input_tokens u)),
        (''non_cached_input_tokens'', json_nat non_cached_input), (''output_tokens'', json_nat (cu_output_tokens u)),
        (''reasoning_output_tokens'', json_nat (cu_reasoning_output_tokens u)),
        (''total_tokens'', json_nat (cu_total_tokens u)),
        (''displayed_total_tokens'', json_nat (add_u64 non_cached_input (cu_output_tokens u))),
        (''model_calls'', json_nat (cu_model_calls u)),
        (''model_context_window'', json_or_null json_nat (cu_model_context_window u)),
        (''source'', JString ''codex-session-window'')])"

definition sample_json :: "tool_output_sample \<Rightarrow> json" where
  "sample_json s = json_object [(''original_tokens'', json_nat (ts_original_tokens s)),
     (''session'', JString (ts_session s)), (''command'', JString (ts_command s))]"

definition efficiency_json :: "codex_task_telemetry \<Rightarrow> nat \<Rightarrow> nat \<Rightarrow> nat \<Rightarrow> json" where
  "efficiency_json t captured_at started_at finished_at =
     (let stats = ct_tool_outputs t in
      json_object
       [(''source'', JString ''codex-session-window''), (''schema_version'', JNumber 1),
        (''captured_at'', json_nat captured_at), (''window_started_at'', json_nat started_at),
        (''window_finished_at'', json_nat finished_at), (''retention_hours'', json_nat (ct_retention_hours t)),
        (''session_count'', json_nat (ct_session_count t)), (''matched_by_explicit'', json_nat (ct_matched_by_explicit t)),
        (''matched_by_worktree'', json_nat (ct_matched_by_worktree t)),
        (''matched_by_task'', json_nat (ct_matched_by_task t)), (''tool_output_calls'', json_nat (to_calls stats)),
        (''tool_output_original_tokens'', json_nat (to_original_tokens stats)),
        (''large_tool_output_threshold'', json_nat large_tool_output_token_threshold),
        (''large_tool_output_calls'', json_nat (to_large_calls stats)),
        (''large_tool_output_original_tokens'', json_nat (to_large_original_tokens stats)),
        (''top_tool_outputs'', JArray (map sample_json (to_samples stats)))])"

section \<open>The session of an agent\<close>

record codex_session_summary =
  cs_path :: string
  cs_thread_id :: "string option"
  cs_started_at :: "nat option"
  cs_cwd :: "string option"
  cs_prompt :: string
  cs_token_usage :: "json option"
  cs_rate_limits :: "json option"
  cs_task_complete :: bool

definition token_usage_summary :: "json \<Rightarrow> json option" where
  "token_usage_summary payload =
     Option.bind (json_get ''info'' payload) (\<lambda>info.
     Option.bind (json_get ''total_token_usage'' info) (\<lambda>used.
       let input = u64_or_0 ''input_tokens'' used; cached = u64_or_0 ''cached_input_tokens'' used;
           out = u64_or_0 ''output_tokens'' used; non_cached_input = input - cached
       in Some (json_object
         [(''input_tokens'', json_nat input), (''cached_input_tokens'', json_nat cached),
          (''non_cached_input_tokens'', json_nat non_cached_input), (''output_tokens'', json_nat out),
          (''reasoning_output_tokens'', json_nat (u64_or_0 ''reasoning_output_tokens'' used)),
          (''total_tokens'', json_nat (case json_u64 ''total_tokens'' used of None \<Rightarrow> add_u64 input out | Some n \<Rightarrow> n)),
          (''displayed_total_tokens'', json_nat (add_u64 non_cached_input out)),
          (''last_token_usage'', json_or_null (\<lambda>v. v) (json_get ''last_token_usage'' info)),
          (''model_context_window'', json_or_null (\<lambda>v. v) (json_get ''model_context_window'' info))])))"

definition response_item_text :: "json \<Rightarrow> string option" where
  "response_item_text payload =
     Option.bind (Option.bind (json_get ''content'' payload) json_as_array) (\<lambda>content.
       let t = join_with '' '' (filter (\<lambda>s. \<not> str_contains ''<environment_context>'' s)
                 (List.map_filter (json_str ''text'')
                   (filter (\<lambda>item. json_str ''type'' item = Some ''input_text'') content)))
       in if trim t = [] then None else Some (trim t))"

definition is_meaningful_task_prompt :: "string \<Rightarrow> bool" where
  "is_meaningful_task_prompt message =
     (let t = trim message in
      t \<noteq> [] \<and> length t \<ge> 5 \<and> \<not> starts_with ''/'' t \<and> \<not> starts_with ''Token usage:'' t \<and>
      \<not> starts_with ''To continue this session'' t)"

text \<open>What one line of a session adds to its summary.\<close>

record summary_scan =
  ss_thread_id :: "string option"
  ss_started_at :: "nat option"
  ss_cwd :: "string option"
  ss_prompt :: "string option"
  ss_fallback_prompt :: "string option"
  ss_token_usage :: "json option"
  ss_rate_limits :: "json option"
  ss_task_complete :: bool

definition no_summary :: summary_scan where
  "no_summary = \<lparr>ss_thread_id = None, ss_started_at = None, ss_cwd = None, ss_prompt = None, ss_fallback_prompt = None,
     ss_token_usage = None, ss_rate_limits = None, ss_task_complete = False\<rparr>"

definition meaningful :: "string option \<Rightarrow> string option" where
  "meaningful message = Option.bind message (\<lambda>m. if is_meaningful_task_prompt m then Some m else None)"

definition scan_event :: "json \<Rightarrow> summary_scan \<Rightarrow> summary_scan" where
  "scan_event p s =
     (if json_str ''type'' p = Some ''user_message'' \<and> ss_prompt s = None then
        s\<lparr>ss_prompt := map_option trim (meaningful (json_str ''message'' p))\<rparr>
      else if json_str ''type'' p = Some ''token_count'' then
        (case token_usage_summary p of
           None \<Rightarrow> s | Some usage \<Rightarrow> s\<lparr>ss_token_usage := Some usage, ss_rate_limits := json_get ''rate_limits'' p\<rparr>)
      else if json_str ''type'' p = Some ''task_complete'' then s\<lparr>ss_task_complete := True\<rparr>
      else s)"

definition scan_summary_line :: "json \<Rightarrow> summary_scan \<Rightarrow> summary_scan" where
  "scan_summary_line v s =
     (case json_get ''payload'' v of
        None \<Rightarrow> s
      | Some p \<Rightarrow>
          if json_str ''type'' v = Some ''session_meta'' then
            s\<lparr>ss_thread_id := coalesce (ss_thread_id s) (json_str ''id'' p),
              ss_started_at := coalesce (ss_started_at s) (Option.bind (json_str ''timestamp'' p) parse_rfc3339_unix),
              ss_cwd := coalesce (ss_cwd s) (json_str ''cwd'' p)\<rparr>
          else if json_str ''type'' v = Some ''event_msg'' then scan_event p s
          else if json_str ''type'' v = Some ''response_item'' \<and> ss_fallback_prompt s = None \<and>
                  json_str ''role'' p = Some ''user'' then
            s\<lparr>ss_fallback_prompt := meaningful (response_item_text p)\<rparr>
          else s)"

definition parse_codex_session_summary :: "session_view \<Rightarrow> string \<Rightarrow> string + codex_session_summary option" where
  "parse_codex_session_summary V path =
     (case sv_read V path of
        Inl e \<Rightarrow> Inl e
      | Inr content \<Rightarrow>
          (let s = fold scan_summary_line (session_values (sv_parse V) content) no_summary in
           Inr (map_option (\<lambda>prompt.
             \<lparr>cs_path = path, cs_thread_id = coalesce (ss_thread_id s) (codex_thread_id_from_path path),
              cs_started_at = ss_started_at s, cs_cwd = ss_cwd s, cs_prompt = prompt,
              cs_token_usage = ss_token_usage s, cs_rate_limits = ss_rate_limits s,
              cs_task_complete = ss_task_complete s\<rparr>) (coalesce (ss_prompt s) (ss_fallback_prompt s)))))"

definition codex_session_start_matches_agent :: "nat option \<Rightarrow> nat \<Rightarrow> bool" where
  "codex_session_start_matches_agent session_started_at agent_started_at =
     (case session_started_at of
        None \<Rightarrow> True
      | Some t \<Rightarrow> agent_started_at - 300 \<le> t \<and> t \<le> sat_add_u64 agent_started_at 900)"

definition codex_session_cwd_matches :: "string option \<Rightarrow> string option \<Rightarrow> bool" where
  "codex_session_cwd_matches session_cwd preferred_cwd =
     (case (preferred_cwd, session_cwd) of (Some p, Some s) \<Rightarrow> same_path s p | _ \<Rightarrow> True)"

text \<open>The recent session files that no other record claims, the newest first; at most a hundred.\<close>

definition session_candidate_files :: "session_view \<Rightarrow> nat \<Rightarrow> string set \<Rightarrow> string list \<Rightarrow> (string \<times> nat) list" where
  "session_candidate_files V agent_started_at claimed files =
     take 100 (sort_key (\<lambda>(path, modified). - int modified)
       (filter (\<lambda>(path, modified). path \<notin> claimed \<and> modified \<ge> agent_started_at - 300)
         (List.map_filter (\<lambda>path. map_option (\<lambda>m. (path, m)) (sv_modified V path)) files)))"

fun session_candidates ::
  "session_view \<Rightarrow> nat \<Rightarrow> string option \<Rightarrow> (string \<times> nat) list \<Rightarrow>
   string + (((bool \<times> nat) \<times> int) \<times> codex_session_summary) list" where
  "session_candidates V agent_started_at preferred_cwd [] = Inr []"
| "session_candidates V agent_started_at preferred_cwd ((path, modified) # files) =
     (case parse_codex_session_summary V path of
        Inl e \<Rightarrow> Inl e
      | Inr found \<Rightarrow> (case session_candidates V agent_started_at preferred_cwd files of
          Inl e \<Rightarrow> Inl e
        | Inr others \<Rightarrow> (case found of
            None \<Rightarrow> Inr others
          | Some s \<Rightarrow>
              if \<not> codex_session_start_matches_agent (cs_started_at s) agent_started_at then Inr others
              else (let distance = (case cs_started_at s of
                        None \<Rightarrow> u64_max
                      | Some t \<Rightarrow> if t \<ge> agent_started_at then t - agent_started_at else agent_started_at - t)
                in Inr ((((\<not> codex_session_cwd_matches (cs_cwd s) preferred_cwd, distance), - int modified), s) # others)))))"

definition find_codex_session_summary_in_root ::
  "session_view \<Rightarrow> (string \<Rightarrow> bool) \<Rightarrow> string \<Rightarrow> nat \<Rightarrow> string set \<Rightarrow> string option \<Rightarrow>
   string + codex_session_summary option" where
  "find_codex_session_summary_in_root V exists root agent_started_at claimed preferred_cwd =
     (if \<not> exists root then Inr None
      else (case sv_files V root of
        Inl e \<Rightarrow> Inl e
      | Inr files \<Rightarrow> (case session_candidates V agent_started_at preferred_cwd
            (session_candidate_files V agent_started_at claimed files) of
          Inl e \<Rightarrow> Inl e
        | Inr candidates \<Rightarrow> Inr (map_option snd (min_by_key fst candidates)))))"


section \<open>The largest outputs\<close>

fun insert_last :: "('a \<Rightarrow> 'k::linorder) \<Rightarrow> 'a \<Rightarrow> 'a list \<Rightarrow> 'a list" where
  "insert_last f x [] = [x]"
| "insert_last f x (y # ys) = (if f y \<le> f x then y # insert_last f x ys else x # y # ys)"

lemma insort_insert_last: "insort_key f a (insert_last f x ys) = insert_last f x (insort_key f a ys)"
  by (induction ys) auto

lemma sort_key_snoc: "sort_key f (xs @ [x]) = insert_last f x (sort_key f xs)"
  by (induction xs) (simp_all add: insort_insert_last)

lemma sort_key_sorted: "sorted (map f xs) \<Longrightarrow> sort_key f xs = xs"
  by (induction xs) (auto intro: insort_is_Cons)

lemma take_insert_last: "take k (insert_last f x (take k ys)) = take k (insert_last f x ys)"
proof (induction ys arbitrary: k)
  case (Cons y ys)
  then show ?case by (cases k) (auto simp: take_Cons')
qed simp

lemma keep_largest:
  "take k (sort_key f (take k (sort_key f xs) @ [x])) = take k (sort_key f (xs @ [x]))"
proof -
  have "sorted (map f (take k (sort_key f xs)))"
    using sorted_wrt_take [of "(\<le>)" "map f (sort_key f xs)" k] by (simp add: take_map)
  then show ?thesis by (simp add: sort_key_snoc sort_key_sorted take_insert_last)
qed

lemma add_u64_mod: "add_u64 (a mod 18446744073709551616) b = (a + b) mod 18446744073709551616"
  by (simp add: add_u64_def u64_max_def mod_add_left_eq)

text \<open>
  C40. The statistics of the tool outputs are those of all outputs. However many outputs a session
  adds one after the other, the five that are kept are the five with the most tokens, the largest
  first and outputs of the same size in the order they came, and the counts and sums are those of
  all outputs, up to the range of \<open>u64\<close>.
\<close>

theorem kept_outputs_are_the_largest:
  "let st = fold add_tool_output_sample ss no_tool_outputs;
       large = filter (\<lambda>s. ts_original_tokens s \<ge> 5000) ss
   in to_samples st = take 5 (sort_key (\<lambda>s. - int (ts_original_tokens s)) ss) \<and>
      to_calls st = length ss mod 2 ^ 64 \<and>
      to_original_tokens st = sum_list (map ts_original_tokens ss) mod 2 ^ 64 \<and>
      to_large_calls st = length large mod 2 ^ 64 \<and>
      to_large_original_tokens st = sum_list (map ts_original_tokens large) mod 2 ^ 64"
proof (induction ss rule: rev_induct)
  case Nil
  then show ?case by (simp add: no_tool_outputs_def)
next
  case (snoc s ss)
  define st where "st = fold add_tool_output_sample ss no_tool_outputs"
  have last_added: "fold add_tool_output_sample (ss @ [s]) no_tool_outputs = add_tool_output_sample s st" by (simp add: st_def)
  have samples: "to_samples st = take 5 (sort_key largest_first ss)"
    using snoc by (simp add: Let_def st_def largest_first_def [abs_def])
  have "to_samples (add_tool_output_sample s st) = take 5 (sort_key largest_first (ss @ [s]))"
    by (simp add: add_tool_output_sample_def samples keep_largest max_tool_output_samples_def Let_def del: sort_key_simps)
  moreover have "to_calls (add_tool_output_sample s st) = length (ss @ [s]) mod 2 ^ 64"
      "to_original_tokens (add_tool_output_sample s st) = sum_list (map ts_original_tokens (ss @ [s])) mod 2 ^ 64"
      "to_large_calls (add_tool_output_sample s st) = length (filter (\<lambda>s. ts_original_tokens s \<ge> 5000) (ss @ [s])) mod 2 ^ 64"
      "to_large_original_tokens (add_tool_output_sample s st) =
        sum_list (map ts_original_tokens (filter (\<lambda>s. ts_original_tokens s \<ge> 5000) (ss @ [s]))) mod 2 ^ 64"
    using snoc unfolding Let_def st_def [symmetric]
    by (simp_all add: add_tool_output_sample_def Let_def add_u64_mod large_tool_output_token_threshold_def)
  ultimately show ?case unfolding last_added Let_def by (simp add: largest_first_def [abs_def])
qed

section \<open>Days\<close>

definition leap_year :: "int \<Rightarrow> bool" where
  "leap_year y = ((4 dvd y \<and> \<not> 100 dvd y) \<or> 400 dvd y)"

definition month_days :: "int \<Rightarrow> int \<Rightarrow> int" where
  "month_days y m = (if m = 2 then (if leap_year y then 29 else 28) else if m \<in> {4, 6, 9, 11} then 30 else 31)"

text \<open>Counting years since 1970, the months of the year and the days of the month.\<close>

fun days_of_years :: "nat \<Rightarrow> int" where
  "days_of_years 0 = 0"
| "days_of_years (Suc n) = days_of_years n + (if leap_year (1970 + int n) then 366 else 365)"

definition days_of_months :: "int \<Rightarrow> int \<Rightarrow> int" where
  "days_of_months y m = sum_list (map (month_days y) [1 .. m - 1])"

definition calendar_days :: "int \<Rightarrow> int \<Rightarrow> int \<Rightarrow> int" where
  "calendar_days y m d = days_of_years (nat (y - 1970)) + days_of_months y m + (d - 1)"

text \<open>The days before March of a year, without eras.\<close>

definition march_days :: "int \<Rightarrow> int" where
  "march_days y = 365 * y + y div 4 - y div 100 + y div 400"

lemma era_days:
  assumes "0 \<le> y"
  shows "(y div 400) * 146097 + ((y - y div 400 * 400) * 365 + (y - y div 400 * 400) div 4 - (y - y div 400 * 400) div 100)
    = march_days y"
proof -
  define e r where "e = y div 400" and "r = y mod 400"
  have y: "y = 400 * e + r" by (simp add: e_def r_def)
  have "y div 4 = 100 * e + r div 4" "y div 100 = 4 * e + r div 100" unfolding y by simp_all
  moreover have "y - e * 400 = r" by (simp add: y)
  ultimately show ?thesis unfolding march_days_def e_def [symmetric] by (simp add: y)
qed

lemma days_by_march:
  assumes "1 \<le> year" and "1 \<le> m" and "m \<le> 12"
  shows "days_from_civil year m d =
    march_days (if m \<le> 2 then year - 1 else year) + (153 * (m + (if m > 2 then - 3 else 9)) + 2) div 5 + d - 1 - 719468"
proof -
  define y where "y = year - (if m \<le> 2 then 1 else 0)"
  have y: "0 \<le> y" "(if m \<le> 2 then year - 1 else year) = y" using assms by (simp_all add: y_def)
  then show ?thesis
    using era_days [of y] unfolding days_from_civil_def Let_def y_def [symmetric] y(2) by simp
qed

lemma next_quotient:
  assumes "0 < (k::int)"
  shows "(y + 1) div k = y div k + (if k dvd y + 1 then 1 else 0)"
proof (cases "y mod k + 1 = k")
  case True
  have "y + 1 = k * (y div k) + (y mod k + 1)" by simp
  then have "y + 1 = k * (y div k + 1)" unfolding True by (simp add: distrib_left)
  with assms show ?thesis by (metis dvd_triv_left nonzero_mult_div_cancel_left less_irrefl)
next
  case False
  have split: "y + 1 = k * (y div k) + (y mod k + 1)" by simp
  have range: "0 \<le> y mod k + 1" "y mod k + 1 < k"
    using pos_mod_bound [OF assms, of y] pos_mod_sign [OF assms, of y] False by linarith+
  from int_div_pos_eq [OF split range] int_mod_pos_eq [OF split range] range False
  show ?thesis using pos_mod_sign [OF assms, of y] by (simp add: dvd_eq_mod_eq_0)
qed

lemma march_days_step:
  "march_days (y + 1) = march_days y + 365 + (if leap_year (y + 1) then 1 else 0)"
proof -
  have "4 dvd y + 1" if "100 dvd y + 1" using dvd_trans [of 4 100 "y + 1"] that by simp
  moreover have "100 dvd y + 1" if "400 dvd y + 1" using dvd_trans [of 100 400 "y + 1"] that by simp
  ultimately show ?thesis by (auto simp: march_days_def leap_year_def next_quotient)
qed

lemma years_by_march: "march_days (1969 + int n) - 719468 + 306 = days_of_years n"
proof (induction n)
  case 0
  show ?case by (simp add: march_days_def)
next
  case (Suc n)
  have "march_days (1969 + int (Suc n)) = march_days (1969 + int n + 1)" by (simp add: add.assoc)
  with Suc march_days_step [of "1969 + int n"] show ?case by simp
qed

lemma month_cases:
  assumes "1 \<le> (m::int)" and "m \<le> 12"
  shows "m \<in> {1, 2, 3, 4, 5, 6, 7, 8, 9, 10, 11, 12}"
  using assms unfolding insert_iff empty_iff by presburger

text \<open>
  Days are counted by the calendar. For every month and day number of every year from 1970 on,
  \<open>days_from_civil\<close> is the number of days that counting the years with their leap days, the months
  with their lengths and the days gives.
\<close>

theorem days_follow_the_calendar:
  assumes "1970 \<le> y" and "1 \<le> m" and "m \<le> 12"
  shows "days_from_civil y m d = calendar_days y m d"
proof -
  define n where "n = nat (y - 1970)"
  have y: "y = 1970 + int n" using assms(1) by (simp add: n_def)
  have years: "march_days (y - 1) = days_of_years n + 719468 - 306" using years_by_march [of n] by (simp add: y)
  have march: "march_days y = march_days (y - 1) + 365 + (if leap_year y then 1 else 0)"
    using march_days_step [of "y - 1"] by simp
  from month_cases [OF assms(2,3)] show ?thesis
    unfolding days_by_march [OF order_trans [OF _ assms(1)] assms(2,3), simplified]
    by (auto simp: calendar_days_def days_of_months_def month_days_def n_def [symmetric] years march upto_rec1)
qed

theorem days_follow_the_calendar_witness: "days_from_civil 2024 3 1 = calendar_days 2024 3 1 \<and> days_from_civil 2024 3 1 = 19783"
  using days_follow_the_calendar [of 2024 3 1] by (simp add: days_from_civil_def)

end
