(* ===== verification/Task_Titles.thy ===== *)
theory Task_Titles
  imports Task_Records Codex_Sessions
begin

text \<open>
  Titles, descriptions and commands of task records (\<open>src/src/app/rendering.rs\<close>, and
  \<open>codex_account_from_agent_command\<close> of \<open>src/src/app/task_flow_sync.rs\<close>), and the line a record is
  printed as, which the remote synchronisation reads (\<open>src/src/app/remote_task_records.rs\<close>).

  On the modelled range of characters a text cannot contain the Cyrillic words that
  \<open>polish_task_text\<close> removes; and the capitals of two letters, micro and y with dots, lie beyond it:
  those two stay as they are.
\<close>

section \<open>Commands\<close>

text \<open>What runs in the session of a terminal; for any other command the command itself.\<close>

definition agent_command_payload :: "string list \<Rightarrow> string" where
  "agent_command_payload command =
     (case command of
        a # b # c # d # e # rest \<Rightarrow>
          if a = ''tmux'' \<and> b = ''new-session'' \<and> c = ''-s'' then e
          else (case rest of
              [] \<Rightarrow> join_with '' '' command
            | f # _ \<Rightarrow> if a = ''zellij'' \<and> b = ''--session'' \<and> d = ''pane'' then f else join_with '' '' command)
      | _ \<Rightarrow> join_with '' '' command)"

definition is_queue_agent_track :: "string \<Rightarrow> bool" where
  "is_queue_agent_track track =
     (case strip_prefix ''queue-'' track of
        None \<Rightarrow> False
      | Some suffix \<Rightarrow> suffix \<noteq> [] \<and>
          list_all (\<lambda>c. (is_ascii_alphabetic c \<and> to_ascii_lower_char c = c) \<or> is_ascii_digit c \<or> c = CHR ''-'') suffix)"

text \<open>The words so far, the word being read, an open quote and a pending backslash.\<close>

type_synonym word_scan = "string list \<times> string \<times> char option \<times> bool"

definition scan_shell_char :: "char \<Rightarrow> word_scan \<Rightarrow> word_scan" where
  "scan_shell_char c s =
     (case s of (words, current, quote, escape) \<Rightarrow>
        if escape then (words, current @ [c], quote, False)
        else if c = CHR 0x5C then (words, current, quote, True)
        else (case quote of
            Some q \<Rightarrow> if c = q then (words, current, None, False) else (words, current @ [c], quote, False)
          | None \<Rightarrow>
              if c = CHR 0x27 \<or> c = CHR 0x22 then (words, current, Some c, False)
              else if is_whitespace c then
                (if current \<noteq> [] then (words @ [current], [], None, False) else (words, current, None, False))
              else (words, current @ [c], None, False)))"

definition shell_words :: "string \<Rightarrow> string list" where
  "shell_words command =
     (case fold scan_shell_char command ([], [], None, False) of
        (words, current, _, _) \<Rightarrow> if current \<noteq> [] then words @ [current] else words)"

definition path_name :: "string \<Rightarrow> string option" where
  "path_name p =
     (case path_components p of
        (_, parts) \<Rightarrow> if parts = [] \<or> last parts \<in> {''.'', ''..''} then None else Some (last parts))"

definition digit_suffix :: "string \<Rightarrow> string \<Rightarrow> string option" where
  "digit_suffix before name =
     Option.bind (strip_prefix before name) (\<lambda>suffix.
       if suffix \<noteq> [] \<and> list_all is_ascii_digit suffix then Some suffix else None)"

definition account_of_word :: "string \<Rightarrow> string option" where
  "account_of_word name =
     (if name = ''c1'' \<or> name = ''cc1'' then Some ''1''
      else if name = ''c2'' \<or> name = ''cc2'' then Some ''2''
      else coalesce (digit_suffix ''codex'' name) (digit_suffix ''c'' name))"

definition codex_account_from_agent_command :: "string \<Rightarrow> string option" where
  "codex_account_from_agent_command command =
     (let lower = to_lowercase command in
      if \<not> list_ex (\<lambda>w. str_contains w lower) [''c1'', ''cc1'', ''c2'', ''cc2'', ''codex'', ''code''] then None
      else (case find_map (\<lambda>w. Option.bind (path_name w) account_of_word) (shell_words command) of
          Some account \<Rightarrow> Some account
        | None \<Rightarrow> if str_contains ''codex'' lower then Some ''2'' else None))"

definition is_codex_launcher_word :: "string \<Rightarrow> bool" where
  "is_codex_launcher_word w =
     (let name = (case path_name w of None \<Rightarrow> w | Some n \<Rightarrow> n) in
      name \<in> {''c1'', ''cc1'', ''c2'', ''cc2'', ''codex''} \<or> digit_suffix ''codex'' name \<noteq> None)"

definition prompt_from_agent_command :: "string \<Rightarrow> string option" where
  "prompt_from_agent_command command =
     (let lower = to_lowercase command in
      if \<not> list_ex (\<lambda>w. str_contains w lower) [''c1'', ''cc1'', ''c2'', ''cc2'', ''codex''] then None
      else find (\<lambda>w. let clean = trim w in
             sum_list (map utf8_width clean) \<ge> 3 \<and> \<not> starts_with ''-'' clean \<and> \<not> is_codex_launcher_word clean)
           (rev (shell_words command)))"

section \<open>Titles\<close>

text \<open>\<open>replace_case_insensitive\<close> for a needle that is not empty and has no capitals.\<close>

function replace_case_insensitive :: "string \<Rightarrow> string \<Rightarrow> string \<Rightarrow> string" where
  "replace_case_insensitive s needle new =
     (case split_once_str needle (to_lowercase s) of
        None \<Rightarrow> s
      | Some (before, _) \<Rightarrow>
          if needle = [] then s
          else take (length before) s @ new @
            replace_case_insensitive (drop (length before + length needle) s) needle new)"
  by pat_completeness auto
termination
proof (relation "measure (\<lambda>(s, needle, new). length s)")
  fix s needle :: string and a b x y
  assume "split_once_str needle (to_lowercase s) = Some a" "(x, y) = a" "needle \<noteq> []"
  then have "to_lowercase s = x @ needle @ y" using split_once_str_Some by metis
  then have "length s = length x + length needle + length y" by (metis length_append length_map to_lowercase_def add.assoc)
  with \<open>needle \<noteq> []\<close> show "((drop (length x + length needle) s, needle, b), s, needle, b) \<in> measure (\<lambda>(s, needle, new). length s)"
    by (cases needle) auto
qed simp

declare replace_case_insensitive.simps [simp del]

definition title_punctuation :: "char \<Rightarrow> bool" where
  "title_punctuation c = (c \<in> {CHR '','', CHR ''.'', CHR '';'', CHR '':''})"

definition polish_task_text :: "string \<Rightarrow> string" where
  "polish_task_text v =
     (let words = join_with '' '' (split_whitespace v);
          clean = fold (\<lambda>banned s. replace_case_insensitive s banned []) [''fuck'', ''fucking'', ''shit''] words;
          joined = join_with '' '' (split_whitespace clean);
          t = trim (trim_matches title_punctuation (str_replace '' ,'' '','' (str_replace '', ,'' '','' joined)))
      in if t = [] then ''Task requested through Q-COLD.'' else t)"

definition to_upper_first :: "char \<Rightarrow> string" where
  "to_upper_first c =
     (let n = of_char c :: nat in
      if n = 223 then ''SS''
      else if (97 \<le> n \<and> n \<le> 122) \<or> (224 \<le> n \<and> n \<le> 254 \<and> n \<noteq> 247) then [char_of (n - 32)]
      else [c])"

fun capitalized :: "string \<Rightarrow> string" where
  "capitalized [] = []"
| "capitalized (c # cs) = to_upper_first c @ cs"

definition title_from_slug :: "string \<Rightarrow> string" where
  "title_from_slug slug =
     (let title = join_with '' '' (map capitalized
            (filter (\<lambda>w. w \<noteq> []) (split_when (\<lambda>c. c \<in> {CHR ''-'', CHR ''_'', CHR ''/''}) slug)))
      in if title = [] then ''Q-COLD Task'' else title)"

definition title_from_description :: "string \<Rightarrow> string" where
  "title_from_description description =
     (let words = join_with '' '' (take 8 (split_whitespace description))
      in if words = [] then ''Q-COLD Task'' else trim_matches title_punctuation words)"

text \<open>Runs of other characters become one dash.\<close>

fun slug_chars :: "bool \<Rightarrow> string \<Rightarrow> string" where
  "slug_chars last_dash [] = []"
| "slug_chars last_dash (c # cs) =
     (if is_ascii_alphanumeric c then c # slug_chars False cs
      else if last_dash then slug_chars True cs
      else CHR ''-'' # slug_chars True cs)"

definition slug_from_title :: "string \<Rightarrow> string" where
  "slug_from_title title =
     (let slug = trim_matches (\<lambda>c. c = CHR ''-'') (slug_chars False (to_lowercase title))
      in if slug = [] then ''task'' else take 64 slug)"

section \<open>Records as lines\<close>

definition tab :: char where
  "tab = CHR 0x09"

definition text_or_empty :: "string option \<Rightarrow> string" where
  "text_or_empty v = (case v of None \<Rightarrow> [] | Some s \<Rightarrow> s)"

definition render_task_record :: "task_record_row \<Rightarrow> string" where
  "render_task_record t = join_with [tab]
     [''task-record'', tk_id t,
      ''sequence='' @ (case tk_sequence t of None \<Rightarrow> [] | Some n \<Rightarrow> show_nat n), ''status='' @ tk_status t,
      ''source='' @ tk_source t, ''title='' @ tk_title t, ''repo='' @ text_or_empty (tk_repo_root t),
      ''cwd='' @ text_or_empty (tk_cwd t), ''agent='' @ text_or_empty (tk_agent_id t),
      ''updated_at='' @ show_nat (tk_updated_at t)]"

text \<open>The fields of a line; of several with the same key the last one counts.\<close>

definition line_values :: "string list \<Rightarrow> string \<Rightarrow> string option" where
  "line_values cells = fold (\<lambda>field values. case split_once CHR ''='' field of
     None \<Rightarrow> values | Some (key, v) \<Rightarrow> values(key \<mapsto> v)) cells Map.empty"

definition parse_rendered_task_record_line :: "nat \<Rightarrow> string \<Rightarrow> task_record_row option" where
  "parse_rendered_task_record_line now line =
     (case split_when (\<lambda>c. c = tab) line of
        kind # task_id # cells \<Rightarrow>
          if kind \<noteq> ''task-record'' then None
          else (let values = line_values cells;
                    filled = (\<lambda>key. Option.bind (values key) (\<lambda>v. if v = [] then None else Some v));
                    updated_at = (case Option.bind (values ''updated_at'') parse_u64 of None \<Rightarrow> now | Some t \<Rightarrow> t)
            in (case (values ''status'', values ''source'') of
                  (Some status, Some source) \<Rightarrow> Some
                    \<lparr>tk_id = task_id, tk_source = source, tk_sequence = Option.bind (values ''sequence'') parse_u64,
                     tk_title = text_or_empty (values ''title''), tk_description = [], tk_status = status,
                     tk_created_at = updated_at, tk_updated_at = updated_at, tk_repo_root = filled ''repo'',
                     tk_cwd = filled ''cwd'', tk_agent_id = filled ''agent'', tk_metadata_json = None\<rparr>
                | _ \<Rightarrow> None))
      | _ \<Rightarrow> None)"


section \<open>A printed record is read back\<close>

definition printable_record :: "task_record_row \<Rightarrow> bool" where
  "printable_record t =
     ((\<forall>s \<in> {tk_id t, tk_status t, tk_source t, tk_title t, text_or_empty (tk_repo_root t), text_or_empty (tk_cwd t),
          text_or_empty (tk_agent_id t)}. tab \<notin> set s) \<and>
      tk_repo_root t \<noteq> Some [] \<and> tk_cwd t \<noteq> Some [] \<and> tk_agent_id t \<noteq> Some [] \<and>
      tk_updated_at t \<le> u64_max \<and> (case tk_sequence t of None \<Rightarrow> True | Some n \<Rightarrow> n \<le> u64_max))"

lemma show_nat_no_tab: "tab \<notin> set (show_nat n)"
  using show_nat_digits [of tab n] by (auto simp: tab_def is_ascii_digit_def)

lemma filled_text: "v \<noteq> Some [] \<Longrightarrow> (if text_or_empty v = [] then None else Some (text_or_empty v)) = v"
  by (cases v) (auto simp: text_or_empty_def)

text \<open>
  A task record is read back from the line it is printed as. When no field holds a tab and no
  optional field is present but empty, the reader of a remote list gets the record, without its
  description and metadata and with the time of its last change as its creation, at whatever time
  it reads.
\<close>

theorem printed_record_is_read_back:
  assumes "printable_record t"
  shows "parse_rendered_task_record_line now (render_task_record t) =
    Some (t\<lparr>tk_description := [], tk_created_at := tk_updated_at t, tk_metadata_json := None\<rparr>)"
proof -
  let ?seq = "case tk_sequence t of None \<Rightarrow> [] | Some n \<Rightarrow> show_nat n"
  let ?cells = "[''sequence='' @ ?seq, ''status='' @ tk_status t, ''source='' @ tk_source t, ''title='' @ tk_title t,
    ''repo='' @ text_or_empty (tk_repo_root t), ''cwd='' @ text_or_empty (tk_cwd t),
    ''agent='' @ text_or_empty (tk_agent_id t), ''updated_at='' @ show_nat (tk_updated_at t)]"
  have "tab \<notin> set ?seq" using show_nat_no_tab by (cases "tk_sequence t") auto
  then have clean: "\<forall>w \<in> set (''task-record'' # tk_id t # ?cells). tab \<notin> set w"
    using assms show_nat_no_tab by (simp add: printable_record_def) (simp add: tab_def)
  have cells: "split_when (\<lambda>c. c = tab) (render_task_record t) = ''task-record'' # tk_id t # ?cells"
    using split_joined [OF _ clean] by (simp add: render_task_record_def)
  have number: "Option.bind (Some ?seq) parse_u64 = tk_sequence t"
  proof (cases "tk_sequence t")
    case None
    then show ?thesis by (simp add: parse_u64_def parse_unsigned_def)
  next
    case (Some n)
    then show ?thesis using assms by (simp add: parse_u64_show printable_record_def)
  qed
  have keys: "CHR ''='' \<notin> set k \<Longrightarrow> split_once CHR ''='' (k @ ''='' @ v) = Some (k, v)" for k v
    using split_once_at by simp
  note at = keys [of "''sequence''", simplified] keys [of "''status''", simplified] keys [of "''source''", simplified]
    keys [of "''title''", simplified] keys [of "''repo''", simplified] keys [of "''cwd''", simplified]
    keys [of "''agent''", simplified] keys [of "''updated_at''", simplified]
  define m where "m = line_values ?cells"
  have "m = [''sequence'' \<mapsto> ?seq, ''status'' \<mapsto> tk_status t, ''source'' \<mapsto> tk_source t, ''title'' \<mapsto> tk_title t,
       ''repo'' \<mapsto> text_or_empty (tk_repo_root t), ''cwd'' \<mapsto> text_or_empty (tk_cwd t),
       ''agent'' \<mapsto> text_or_empty (tk_agent_id t), ''updated_at'' \<mapsto> show_nat (tk_updated_at t)]"
    unfolding m_def by (simp add: line_values_def at)
  then have got: "m ''sequence'' = Some ?seq" "m ''status'' = Some (tk_status t)" "m ''source'' = Some (tk_source t)"
    "m ''title'' = Some (tk_title t)" "m ''repo'' = Some (text_or_empty (tk_repo_root t))"
    "m ''cwd'' = Some (text_or_empty (tk_cwd t))" "m ''agent'' = Some (text_or_empty (tk_agent_id t))"
    "m ''updated_at'' = Some (show_nat (tk_updated_at t))"
    by simp_all
  have "parse_u64 (show_nat (tk_updated_at t)) = Some (tk_updated_at t)"
    using assms by (simp add: parse_u64_show printable_record_def)
  moreover have "text_or_empty (Some x) = x" for x by (simp add: text_or_empty_def)
  ultimately show ?thesis
    using number assms
    by (simp add: parse_rendered_task_record_line_def cells m_def [symmetric] got Let_def printable_record_def filled_text
        del: append.simps)
qed

definition sample_printed :: task_record_row where
  "sample_printed = \<lparr>tk_id = ''task/a'', tk_source = ''task-flow'', tk_sequence = Some 7, tk_title = ''Fix = it'',
     tk_description = ''long text'', tk_status = ''open'', tk_created_at = 3, tk_updated_at = 12, tk_repo_root = Some ''/r'',
     tk_cwd = None, tk_agent_id = Some ''c1'', tk_metadata_json = Some ''{}''\<rparr>"

lemma sample_is_printable: "printable_record sample_printed"
  by (simp add: printable_record_def sample_printed_def text_or_empty_def tab_def u64_max_def)

theorem printed_record_is_read_back_witness:
  "parse_rendered_task_record_line 99 (render_task_record sample_printed) =
     Some (sample_printed\<lparr>tk_description := [], tk_created_at := 12, tk_metadata_json := None\<rparr>)"
  using printed_record_is_read_back [OF sample_is_printable, of 99] by (simp add: sample_printed_def)

section \<open>Slugs of titles\<close>

definition slug_char :: "char \<Rightarrow> bool" where
  "slug_char c = (is_ascii_digit c \<or> is_ascii_alphabetic c \<and> to_lower_char c = c \<or> c = CHR ''-'')"

lemma to_lower_char_twice: "to_lower_char (to_lower_char c) = to_lower_char c"
proof -
  let ?n = "of_char c :: nat"
  consider "(65 \<le> ?n \<and> ?n \<le> 90) \<or> (192 \<le> ?n \<and> ?n \<le> 222 \<and> ?n \<noteq> 215)" | "to_lower_char c = c"
    by (cases "to_lower_char c = c") (auto simp: to_lower_char_def Let_def split: if_splits)
  then show ?thesis
  proof cases
    case 1
    then have "of_char (to_lower_char c) = ?n + 32" by (auto simp: to_lower_char_def Let_def)
    then show ?thesis using 1 by (auto simp: to_lower_char_def [of "to_lower_char c"])
  qed simp
qed

text \<open>
  The id of an ad hoc task is a proper slug. Whatever the title, its slug is not empty, has at
  most 64 characters, all of them lower case letters, digits or dashes, and does not begin with a
  dash.
\<close>

theorem title_slug_is_proper:
  "slug_from_title title \<noteq> [] \<and> length (slug_from_title title) \<le> 64 \<and>
   list_all slug_char (slug_from_title title) \<and> hd (slug_from_title title) \<noteq> CHR ''-''"
proof -
  note lower = to_lower_char_twice
  have letters: "slug_char c" if "c \<in> set (slug_chars b (to_lowercase s))" for c b s
    using that
  proof (induction s arbitrary: b)
    case (Cons d s)
    then show ?case
      using lower [of d]
      by (auto simp: to_lowercase_def slug_char_def is_ascii_alphanumeric_def is_ascii_alphabetic_def Let_def
          split: if_splits)
  qed (simp add: to_lowercase_def)
  let ?slug = "trim_matches (\<lambda>c. c = CHR ''-'') (slug_chars False (to_lowercase title))"
  have chars: "list_all slug_char ?slug" using letters trim_matches_subset by (fastforce simp: list_all_iff)
  have first: "hd ?slug \<noteq> CHR ''-''" if "?slug \<noteq> []"
  proof -
    let ?ds = "dropWhile (\<lambda>c. c = CHR ''-'') (slug_chars False (to_lowercase title))"
    have "?slug = rev (dropWhile (\<lambda>c. c = CHR ''-'') (rev ?ds))" by (simp add: trim_matches_def)
    then obtain rest where split: "?ds = ?slug @ rest"
      by (metis rev_append rev_rev_ident takeWhile_dropWhile_id)
    then have "hd ?slug = hd ?ds" "?ds \<noteq> []" using that by (metis hd_append2, metis append_is_Nil_conv)
    then show ?thesis using hd_dropWhile [of "\<lambda>c. c = CHR ''-''"] by metis
  qed
  show ?thesis
  proof (cases "?slug = []")
    case True
    moreover have "list_all slug_char ''task''" by code_simp
    ultimately show ?thesis by (simp add: slug_from_title_def)
  next
    case False
    then show ?thesis using chars first
      by (auto simp: slug_from_title_def list_all_iff dest: in_set_takeD)
  qed
qed

end
