(* ===== verification/Remote_Sync.thy ===== *)
theory Remote_Sync
  imports Task_Titles Task_Packet
begin

text \<open>
  Task records of a remote host (\<open>src/src/app/remote_task_records.rs\<close>) and the records that the
  command line opens (\<open>record_task_open\<close> and the functions after it in \<open>src/src/lib.rs\<close>): how records
  are exported and read back, how a remote record is merged into the local one, and the words of the
  remote commands.

  Reading and printing JSON, the environment, the resolution of paths and the child processes are
  arguments, collected in a record. The waits for a locked database belong to SQLite and are left
  out, as are the signals to a child that does not end.
\<close>

section \<open>Objects\<close>

text \<open>An object of \<open>serde_json\<close> is kept in the order of its keys.\<close>

definition obj_insert :: "string \<Rightarrow> json \<Rightarrow> (string \<times> json) list \<Rightarrow> (string \<times> json) list" where
  "obj_insert k v kvs = sort_key fst ((k, v) # filter (\<lambda>p. fst p \<noteq> k) kvs)"

definition obj_remove :: "string \<Rightarrow> (string \<times> json) list \<Rightarrow> (string \<times> json) list" where
  "obj_remove k kvs = filter (\<lambda>p. fst p \<noteq> k) kvs"

definition obj_insert_new :: "string \<times> json \<Rightarrow> (string \<times> json) list \<Rightarrow> (string \<times> json) list" where
  "obj_insert_new p kvs = (if map_of kvs (fst p) = None then obj_insert (fst p) (snd p) kvs else kvs)"

lemma map_of_filter_key: "map_of kvs k = map_of (filter (\<lambda>p. fst p = k) kvs) k"
  by (induction kvs) auto

lemma map_of_sort_key: "map_of (sort_key fst kvs) = map_of kvs"
proof
  fix k
  have "filter (\<lambda>p. fst p = k) (sort_key fst kvs) = filter (\<lambda>p. fst p = k) kvs"
    by (simp add: sort_key_stable)
  then show "map_of (sort_key fst kvs) k = map_of kvs k" by (metis map_of_filter_key)
qed

lemma map_of_obj_insert: "map_of (obj_insert k v kvs) = (map_of kvs)(k \<mapsto> v)"
proof
  fix x
  have "map_of (filter (\<lambda>p. fst p \<noteq> k) kvs) x = (if x = k then None else map_of kvs x)"
    by (induction kvs) auto
  then show "map_of (obj_insert k v kvs) x = ((map_of kvs)(k \<mapsto> v)) x"
    by (simp add: obj_insert_def map_of_sort_key del: sort_key_simps)
qed

lemma map_of_obj_remove: "map_of (obj_remove k kvs) = (map_of kvs)(k := None)"
proof
  fix x
  show "map_of (obj_remove k kvs) x = ((map_of kvs)(k := None)) x"
    unfolding obj_remove_def by (induction kvs) auto
qed

definition sorted_object :: "(string \<times> json) list \<Rightarrow> bool" where
  "sorted_object kvs = (sorted (map fst kvs) \<and> distinct (map fst kvs))"

lemma sorted_obj_insert: "sorted_object kvs \<Longrightarrow> sorted_object (obj_insert k v kvs)"
proof -
  assume "sorted_object kvs"
  then have "distinct (map fst ((k, v) # filter (\<lambda>p. fst p \<noteq> k) kvs))"
    by (auto simp: sorted_object_def distinct_map_filter)
  then have "distinct (map fst (obj_insert k v kvs))"
    unfolding obj_insert_def distinct_map distinct_sort set_sort .
  then show ?thesis by (simp add: sorted_object_def obj_insert_def del: sort_key_simps)
qed

lemma sorted_obj_remove: "sorted_object kvs \<Longrightarrow> sorted_object (obj_remove k kvs)"
  by (simp add: sorted_object_def obj_remove_def sorted_filter distinct_map_filter)

lemma keys_determine: "distinct (map fst kvs) \<Longrightarrow> map (\<lambda>k. (k, the (map_of kvs k))) (map fst kvs) = kvs"
  by (auto simp: comp_def intro!: map_idI)

lemma sorted_object_eqI:
  assumes "sorted_object a" and "sorted_object b" and "map_of a = map_of b" shows "a = b"
proof -
  have d: "distinct (map fst a)" "distinct (map fst b)" using assms(1,2) by (simp_all add: sorted_object_def)
  then have "set a = set b" using map_of_inject_set assms(3) by blast
  then have keys: "map fst a = map fst b"
    using assms(1,2) d by (intro sorted_distinct_set_unique) (simp_all add: sorted_object_def)
  have "map (\<lambda>k. (k, the (map_of b k))) (map fst b) = a"
    using keys_determine [OF d(1)] unfolding keys assms(3) .
  then show ?thesis using keys_determine [OF d(2)] by (rule trans [OF sym])
qed

section \<open>Arguments and observations\<close>

record remote_adapter_args =
  ra_via :: string
  ra_remote_adapter :: string
  ra_adapter_args :: "string list"
  ra_no_default_arg :: bool

record remote_open_env =
  re_sequence_vars :: "string list"
  re_prompt_names :: "string list"
  re_description_keys :: "string list"
  re_thread_targets :: "string list"
  re_rollout_targets :: "string list"

record remote_sync_args =
  rs_remote :: remote_adapter_args
  rs_local_repo_root :: "string option"
  rs_remote_repo_root :: "string option"
  rs_limit :: nat
  rs_legacy_remote_qcold :: bool

record remote_open_args =
  ro_remote :: remote_adapter_args
  ro_remote_env :: remote_open_env
  ro_task_slug :: string
  ro_profile :: "string option"

text \<open>
  What a child process comes to: it is not started, its time runs out with what it printed so far,
  or it ends with an exit status, as a text and whether it means success, and its output.
\<close>

datatype remote_process =
    NotStarted string
  | OutOfTime string string
  | Exited bool string string string

record remote_view =
  rv_now :: nat
  rv_parse :: "string \<Rightarrow> json option"
  rv_record_error :: "string \<Rightarrow> string"
  rv_print :: "json \<Rightarrow> string"
  rv_env :: "string \<Rightarrow> string option"
  rv_cwd :: "string option"
  rv_canonicalize :: "string \<Rightarrow> string option"
  rv_current_or_active_root :: "string + string"
  rv_task_flow_root :: "string + string"
  rv_rollout_path :: "string \<Rightarrow> string option"
  rv_process :: "string list \<Rightarrow> remote_process"
  rv_launch :: "string list \<Rightarrow> int option option"


definition object_of_text :: "remote_view \<Rightarrow> string option \<Rightarrow> (string \<times> json) list option" where
  "object_of_text V raw = Option.bind (Option.bind raw (rv_parse V)) json_as_object"

section \<open>Records as JSON\<close>

text \<open>What \<open>serde\<close> derives for \<open>TaskRecordRow\<close>.\<close>

definition task_record_json :: "task_record_row \<Rightarrow> json" where
  "task_record_json t = JObject
     [(''id'', JString (tk_id t)), (''source'', JString (tk_source t)),
      (''sequence'', json_or_null json_nat (tk_sequence t)), (''title'', JString (tk_title t)),
      (''description'', JString (tk_description t)), (''status'', JString (tk_status t)),
      (''created_at'', json_nat (tk_created_at t)), (''updated_at'', json_nat (tk_updated_at t)),
      (''repo_root'', json_or_null JString (tk_repo_root t)), (''cwd'', json_or_null JString (tk_cwd t)),
      (''agent_id'', json_or_null JString (tk_agent_id t)),
      (''metadata_json'', json_or_null JString (tk_metadata_json t))]"

text \<open>
  An optional field may be missing or null; \<open>None\<close> stands for a value of another type. The text of
  an error is an argument, and a record given as an array of its fields is left out.
\<close>

definition optional_field :: "(json \<Rightarrow> 'a option) \<Rightarrow> string \<Rightarrow> json \<Rightarrow> 'a option option" where
  "optional_field f key v =
     (case json_get key v of
        None \<Rightarrow> Some None
      | Some x \<Rightarrow> if x = JNull then Some None else map_option Some (f x))"

definition task_record_of_json :: "json \<Rightarrow> task_record_row option" where
  "task_record_of_json v =
     Option.bind (json_str ''id'' v) (\<lambda>task_id.
     Option.bind (json_str ''source'' v) (\<lambda>source.
     Option.bind (optional_field json_as_u64 ''sequence'' v) (\<lambda>sequence.
     Option.bind (json_str ''title'' v) (\<lambda>title.
     Option.bind (json_str ''description'' v) (\<lambda>description.
     Option.bind (json_str ''status'' v) (\<lambda>status.
     Option.bind (json_u64 ''created_at'' v) (\<lambda>created_at.
     Option.bind (json_u64 ''updated_at'' v) (\<lambda>updated_at.
     Option.bind (optional_field json_as_str ''repo_root'' v) (\<lambda>repo_root.
     Option.bind (optional_field json_as_str ''cwd'' v) (\<lambda>cwd.
     Option.bind (optional_field json_as_str ''agent_id'' v) (\<lambda>agent_id.
     Option.bind (optional_field json_as_str ''metadata_json'' v) (\<lambda>metadata_json. Some
       \<lparr>tk_id = task_id, tk_source = source, tk_sequence = sequence, tk_title = title,
        tk_description = description, tk_status = status, tk_created_at = created_at,
        tk_updated_at = updated_at, tk_repo_root = repo_root, tk_cwd = cwd, tk_agent_id = agent_id,
        tk_metadata_json = metadata_json\<rparr>))))))))))))"

definition task_record_json_prefix :: string where
  "task_record_json_prefix = ''task-record-json'' @ [tab]"

definition exported_lines :: "remote_view \<Rightarrow> task_record_row list \<Rightarrow> string list" where
  "exported_lines V records =
     (''task-record-export'' @ [tab] @ ''count='' @ show_nat (length records)) #
     map (\<lambda>t. task_record_json_prefix @ rv_print V (task_record_json t)) records"

fun read_record_lines :: "remote_view \<Rightarrow> string list \<Rightarrow> string + task_record_row list" where
  "read_record_lines V [] = Inr []"
| "read_record_lines V (line # rest) =
     (case strip_prefix task_record_json_prefix line of
        None \<Rightarrow> read_record_lines V rest
      | Some raw \<Rightarrow>
          (case Option.bind (rv_parse V raw) task_record_of_json of
             None \<Rightarrow> Inl (rv_record_error V raw)
           | Some t \<Rightarrow> (case read_record_lines V rest of
               Inl e \<Rightarrow> Inl e | Inr ts \<Rightarrow> Inr (t # ts))))"

definition parse_task_record_json_lines :: "remote_view \<Rightarrow> string \<Rightarrow> string + task_record_row list" where
  "parse_task_record_json_lines V printed = read_record_lines V (str_lines printed)"

section \<open>Remote commands\<close>

definition default_remote_task_record_sync_timeout_secs :: nat where
  "default_remote_task_record_sync_timeout_secs = 30"

definition remote_task_record_sync_timeout_env :: string where
  "remote_task_record_sync_timeout_env = ''QCOLD_REMOTE_TASK_RECORD_SYNC_TIMEOUT_SECONDS''"

definition remote_task_record_sync_timeout :: "remote_view \<Rightarrow> nat" where
  "remote_task_record_sync_timeout V =
     (case Option.bind (rv_env V remote_task_record_sync_timeout_env) (\<lambda>v. parse_u64 (trim v)) of
        Some seconds \<Rightarrow> if seconds > 0 then seconds else default_remote_task_record_sync_timeout_secs
      | None \<Rightarrow> default_remote_task_record_sync_timeout_secs)"

definition compact_remote_process_output :: "string \<Rightarrow> string \<Rightarrow> string" where
  "compact_remote_process_output stdout stderr =
     (let text = trim stdout @ trim stderr in
      if text = [] then ''<no output>''
      else if length text \<le> 1200 then text
      else take 1200 text @ ''...'')"

definition remote_command_output ::
  "remote_view \<Rightarrow> string list \<Rightarrow> string \<Rightarrow> string \<Rightarrow> string + bool \<times> string \<times> string \<times> string" where
  "remote_command_output V argv purpose via =
     (case rv_process V argv of
        NotStarted _ \<Rightarrow> Inl (''failed to run '' @ purpose @ '' through '' @ via)
      | OutOfTime stdout stderr \<Rightarrow> Inl (purpose @ '' through '' @ via @ '' timed out after '' @
          show_nat (remote_task_record_sync_timeout V) @ ''s: '' @ compact_remote_process_output stdout stderr)
      | Exited success status stdout stderr \<Rightarrow> Inr (success, status, stdout, stderr))"

definition successful_output :: "string \<Rightarrow> string + bool \<times> string \<times> string \<times> string \<Rightarrow> string + string" where
  "successful_output purpose r =
     (case r of
        Inl e \<Rightarrow> Inl e
      | Inr (success, status, stdout, stderr) \<Rightarrow>
          if success then Inr stdout
          else Inl (purpose @ '' exited with '' @ status @ '': '' @ trim stderr))"

definition remote_qcold_output :: "remote_view \<Rightarrow> string \<Rightarrow> string list \<Rightarrow> string + string" where
  "remote_qcold_output V via qcold_args =
     successful_output ''remote Q-COLD''
       (remote_command_output V (via # ''qcold'' # qcold_args) ''remote Q-COLD'' via)"

definition remote_adapter_prefix_args :: "remote_adapter_args \<Rightarrow> string list" where
  "remote_adapter_prefix_args R =
     (if ra_adapter_args R = [] \<and> \<not> ra_no_default_arg R then [''xtask''] else ra_adapter_args R)"

definition append_remote_adapter_words :: "string list \<Rightarrow> remote_adapter_args \<Rightarrow> string list \<Rightarrow> string list" where
  "append_remote_adapter_words argv R adapter_args =
     argv @ [ra_remote_adapter R] @ remote_adapter_prefix_args R @ adapter_args"

definition remote_adapter_label :: "remote_adapter_args \<Rightarrow> string" where
  "remote_adapter_label R = join_with '' '' (ra_remote_adapter R # remote_adapter_prefix_args R)"

definition remote_adapter_output :: "remote_view \<Rightarrow> remote_adapter_args \<Rightarrow> string list \<Rightarrow> string \<Rightarrow> string + string" where
  "remote_adapter_output V R adapter_args purpose =
     successful_output purpose
       (remote_command_output V (append_remote_adapter_words [ra_via R] R adapter_args) purpose (ra_via R))"

definition remote_task_record_export_words :: "nat \<Rightarrow> string list" where
  "remote_task_record_export_words limit = [''task'', ''export-records'', ''--limit'', show_nat limit]"

definition remote_adapter_task_record_export ::
  "remote_view \<Rightarrow> remote_adapter_args \<Rightarrow> nat \<Rightarrow> string + task_record_row list" where
  "remote_adapter_task_record_export V R limit =
     (case remote_adapter_output V R (remote_task_record_export_words limit)
        ''remote repository task-record export'' of
        Inl e \<Rightarrow> Inl e | Inr printed \<Rightarrow> parse_task_record_json_lines V printed)"

definition remote_qcold_task_record_export :: "remote_view \<Rightarrow> string \<Rightarrow> nat \<Rightarrow> string + task_record_row list" where
  "remote_qcold_task_record_export V via limit =
     (case remote_qcold_output V via [''task-record'', ''export'', ''--limit'', show_nat limit] of
        Inl e \<Rightarrow> Inl e | Inr printed \<Rightarrow> parse_task_record_json_lines V printed)"

definition remote_qcold_task_record_list :: "remote_view \<Rightarrow> string \<Rightarrow> nat \<Rightarrow> string + task_record_row list" where
  "remote_qcold_task_record_list V via limit =
     (case remote_qcold_output V via [''task-record'', ''list'', ''--limit'', show_nat limit] of
        Inl e \<Rightarrow> Inl e
      | Inr printed \<Rightarrow> Inr (List.map_filter (parse_rendered_task_record_line (rv_now V)) (str_lines printed)))"

section \<open>Merging a remote record\<close>

definition task_record_terminal_status :: "string \<Rightarrow> string option" where
  "task_record_terminal_status status = (if starts_with ''closed:'' status then Some status else None)"

definition preserve_existing_remote_status :: "task_record_row \<Rightarrow> task_record_row \<Rightarrow> bool" where
  "preserve_existing_remote_status existing remote =
     (if task_record_terminal_status (tk_status existing) = None then False
      else if task_record_terminal_status (tk_status remote) \<noteq> None
        then tk_updated_at existing > tk_updated_at remote
      else tk_created_at remote \<le> tk_updated_at existing)"

text \<open>The metadata of the remote record, completed from the local one, with what is known of the remote side.\<close>

definition remote_metadata ::
  "remote_view \<Rightarrow> task_record_row \<Rightarrow> task_record_row option \<Rightarrow> string \<Rightarrow> (string \<times> json) list" where
  "remote_metadata V remote existing local_repo_root =
     (let own = (case object_of_text V (tk_metadata_json remote) of None \<Rightarrow> [] | Some o1 \<Rightarrow> o1);
          old = (case object_of_text V (Option.bind existing tk_metadata_json) of None \<Rightarrow> [] | Some o2 \<Rightarrow> o2);
          m1 = fold obj_insert_new old own;
          m2 = (case tk_repo_root remote of None \<Rightarrow> m1 | Some r \<Rightarrow> obj_insert ''remote_repo_root'' (JString r) m1);
          m3 = (case tk_cwd remote of None \<Rightarrow> m2 | Some c \<Rightarrow> obj_insert ''remote_cwd'' (JString c) m2);
          m4 = (case tk_sequence remote of None \<Rightarrow> m3 | Some n \<Rightarrow> obj_insert ''remote_sequence'' (json_nat n) m3);
          m5 = obj_insert ''canonical_repo_root'' (JString local_repo_root) m4;
          m6 = obj_insert ''remote_status'' (JString (tk_status remote)) m5
      in obj_insert ''remote_synced_at'' (json_nat (rv_now V)) m6)"

definition canonical_remote_task_record ::
  "remote_view \<Rightarrow> task_record_row \<Rightarrow> task_record_row option \<Rightarrow> string \<Rightarrow> task_record_row" where
  "canonical_remote_task_record V remote existing local_repo_root =
     (let blank = (trim (tk_description remote) = []);
          base = (case existing of
            Some row \<Rightarrow> row
          | None \<Rightarrow> new_task_record (rv_now V) (tk_id remote) (tk_source remote) (tk_title remote)
              (if blank then ''Remote task-flow work for '' @ tk_title remote @ ''.'' else tk_description remote)
              (tk_status remote) (Some local_repo_root) (tk_cwd remote) (tk_agent_id remote) None);
          preserve = (case existing of None \<Rightarrow> False | Some row \<Rightarrow> preserve_existing_remote_status row remote)
      in base\<lparr>tk_source := tk_source remote, tk_title := tk_title remote,
           tk_description := (if blank then tk_description base else tk_description remote),
           tk_status := (if preserve then tk_status base else tk_status remote),
           tk_updated_at := (if preserve then tk_updated_at base else tk_updated_at remote),
           tk_repo_root := Some local_repo_root,
           tk_cwd := coalesce (tk_cwd remote) (tk_cwd base),
           tk_agent_id := coalesce (tk_agent_id remote) (tk_agent_id base),
           tk_metadata_json := Some (rv_print V (JObject (remote_metadata V remote existing local_repo_root))),
           tk_sequence := Option.bind existing (\<lambda>row.
             if tk_repo_root row = Some local_repo_root then tk_sequence row else None)\<rparr>)"

definition add_remote_adapter_metadata ::
  "remote_view \<Rightarrow> task_record_row \<Rightarrow> remote_adapter_args \<Rightarrow> bool \<Rightarrow> task_record_row" where
  "add_remote_adapter_metadata V t R legacy =
     (let metadata = (case object_of_text V (tk_metadata_json t) of None \<Rightarrow> [] | Some m \<Rightarrow> m)
      in t\<lparr>tk_metadata_json := Some (rv_print V (JObject
           (obj_insert ''remote_adapter_legacy_qcold'' (JBool legacy)
           (obj_insert ''remote_adapter'' (JString (if legacy then ''qcold'' else remote_adapter_label R))
           (obj_insert ''remote_launcher'' (JString (ra_via R)) metadata)))))\<rparr>)"

section \<open>Synchronisation\<close>

definition upsert_remote_task_record_with_lock_retry :: "task_record_row \<Rightarrow> (qdb, unit) prog" where
  "upsert_remote_task_record_with_lock_retry t = seq (upsert_task_record t) (ret ())"

definition imports_remote_record :: "remote_sync_args \<Rightarrow> task_record_row \<Rightarrow> bool" where
  "imports_remote_record A remote =
     ((case rs_remote_repo_root A of None \<Rightarrow> True | Some root \<Rightarrow> tk_repo_root remote = Some root) \<and>
      tk_source remote = ''task-flow'')"

definition merged_remote_record ::
  "remote_view \<Rightarrow> remote_sync_args \<Rightarrow> string \<Rightarrow> task_record_row \<Rightarrow> task_record_row option \<Rightarrow> task_record_row" where
  "merged_remote_record V A local_repo_root remote existing =
     add_remote_adapter_metadata V (canonical_remote_task_record V remote existing local_repo_root)
       (rs_remote A) (rs_legacy_remote_qcold A)"

definition import_remote_record ::
  "remote_view \<Rightarrow> remote_sync_args \<Rightarrow> string \<Rightarrow> task_record_row \<Rightarrow> (qdb, unit) prog" where
  "import_remote_record V A local_repo_root remote =
     bnd (get_task_record (tk_id remote)) (\<lambda>existing.
       upsert_remote_task_record_with_lock_retry (merged_remote_record V A local_repo_root remote existing))"

fun import_remote_records ::
  "remote_view \<Rightarrow> remote_sync_args \<Rightarrow> string \<Rightarrow> task_record_row list \<Rightarrow> nat \<Rightarrow> nat \<Rightarrow> (qdb, nat \<times> nat) prog" where
  "import_remote_records V A local_repo_root [] imported skipped = ret (imported, skipped)"
| "import_remote_records V A local_repo_root (remote # rest) imported skipped =
     (if \<not> imports_remote_record A remote
      then import_remote_records V A local_repo_root rest imported (skipped + 1)
      else seq (import_remote_record V A local_repo_root remote)
        (import_remote_records V A local_repo_root rest (imported + 1) skipped))"

record remote_sync_summary =
  su_via :: string
  su_remote_adapter :: string
  su_local_repo_root :: string
  su_remote_repo_root :: "string option"
  su_remote_records :: nat
  su_imported :: nat
  su_skipped :: nat

definition render_remote_sync_summary :: "remote_sync_summary \<Rightarrow> string" where
  "render_remote_sync_summary s = join_with [tab]
     [''task-record-remote-sync'', ''via='' @ su_via s, ''adapter='' @ su_remote_adapter s,
      ''local_repo='' @ su_local_repo_root s, ''remote_repo='' @ text_or_empty (su_remote_repo_root s),
      ''remote_records='' @ show_nat (su_remote_records s), ''imported='' @ show_nat (su_imported s),
      ''skipped='' @ show_nat (su_skipped s)]"

definition from_result :: "string + 'a \<Rightarrow> (qdb, 'a) prog" where
  "from_result r = (case r of Inl e \<Rightarrow> throw (Bail e) | Inr x \<Rightarrow> ret x)"

definition local_root_of_sync :: "remote_view \<Rightarrow> remote_sync_args \<Rightarrow> string + string" where
  "local_root_of_sync V A =
     (case rs_local_repo_root A of
        Some path \<Rightarrow> (case rv_canonicalize V path of
            None \<Rightarrow> Inl (''failed to resolve local repo root '' @ path) | Some p \<Rightarrow> Inr p)
      | None \<Rightarrow> rv_current_or_active_root V)"

definition remote_records_of :: "remote_view \<Rightarrow> remote_sync_args \<Rightarrow> string + task_record_row list" where
  "remote_records_of V A =
     (if rs_legacy_remote_qcold A then
        (case remote_qcold_task_record_export V (ra_via (rs_remote A)) (rs_limit A) of
           Inr ts \<Rightarrow> Inr ts
         | Inl _ \<Rightarrow> remote_qcold_task_record_list V (ra_via (rs_remote A)) (rs_limit A))
      else remote_adapter_task_record_export V (rs_remote A) (rs_limit A))"

definition sync_remote_task_records :: "remote_view \<Rightarrow> remote_sync_args \<Rightarrow> (qdb, remote_sync_summary) prog" where
  "sync_remote_task_records V A =
     bnd (from_result (local_root_of_sync V A)) (\<lambda>local_repo_root.
     bnd (from_result (remote_records_of V A)) (\<lambda>remote_records.
     bnd (import_remote_records V A local_repo_root remote_records 0 0) (\<lambda>(imported, skipped).
     ret \<lparr>su_via = ra_via (rs_remote A),
          su_remote_adapter = (if rs_legacy_remote_qcold A then ''qcold'' else remote_adapter_label (rs_remote A)),
          su_local_repo_root = local_repo_root, su_remote_repo_root = rs_remote_repo_root A,
          su_remote_records = length remote_records, su_imported = imported, su_skipped = skipped\<rparr>)))"

section \<open>Opening a task\<close>

definition env_prompt :: "remote_view \<Rightarrow> string \<Rightarrow> string option" where
  "env_prompt V name =
     Option.bind (rv_env V name) (\<lambda>v. if trim v = [] then None else Some (trim v))"

definition explicit_task_sequence_from_env :: "remote_view \<Rightarrow> nat option" where
  "explicit_task_sequence_from_env V = Option.bind (rv_env V ''QCOLD_TASK_SEQUENCE'') (\<lambda>v. parse_u64 (trim v))"

definition task_prompt_from_record :: "remote_view \<Rightarrow> task_record_row \<Rightarrow> string option" where
  "task_prompt_from_record V t =
     Option.bind (Option.bind (tk_metadata_json t) (rv_parse V)) (\<lambda>metadata.
     Option.bind (json_str ''operator_prompt'' metadata) (\<lambda>v. if trim v = [] then None else Some v))"

definition record_task_open :: "remote_view \<Rightarrow> string \<Rightarrow> string option \<Rightarrow> (qdb, task_record_row) prog" where
  "record_task_open V task_slug profile =
     bnd (from_result (rv_task_flow_root V)) (\<lambda>repo_root.
     let title = title_from_slug task_slug;
         original_prompt = env_prompt V ''QCOLD_TASKFLOW_PROMPT'';
         snippet = map_option prompt_snippet original_prompt;
         description = (case snippet of
             Some s \<Rightarrow> if s = [] then ''Open managed task-flow work for '' @ title @ ''.'' else s
           | None \<Rightarrow> ''Open managed task-flow work for '' @ title @ ''.'');
         metadata = json_object [(''task_slug'', JString task_slug), (''profile'', json_or_null JString profile),
           (''kind'', JString ''managed-task-flow''), (''operator_prompt'', json_or_null JString original_prompt),
           (''operator_prompt_snippet'', json_or_null JString snippet)];
         t = new_task_record (rv_now V) (''task/'' @ task_slug) ''task-flow'' title description ''open''
           (Some repo_root) (rv_cwd V) None (Some (rv_print V metadata))
     in upsert_task_record (case explicit_task_sequence_from_env V of
          None \<Rightarrow> t | Some n \<Rightarrow> t\<lparr>tk_sequence := Some n\<rparr>))"

definition env_word :: "string \<Rightarrow> string \<Rightarrow> string" where
  "env_word name v = name @ ''='' @ v"

definition append_env_words :: "string \<Rightarrow> string list \<Rightarrow> string \<Rightarrow> string list" where
  "append_env_words primary aliases v =
     map (\<lambda>name. env_word name v)
       (primary # filter (\<lambda>a. a \<noteq> [] \<and> a \<noteq> primary) (map trim aliases))"

definition remote_task_open_env_words ::
  "remote_view \<Rightarrow> task_record_row \<Rightarrow> remote_open_env \<Rightarrow> nat \<Rightarrow> string list" where
  "remote_task_open_env_words V t R sequence =
     append_env_words ''QCOLD_TASK_SEQUENCE'' (re_sequence_vars R) (show_nat sequence) @
     (case task_prompt_from_record V t of
        None \<Rightarrow> []
      | Some prompt \<Rightarrow> append_env_words ''QCOLD_TASKFLOW_PROMPT'' (re_prompt_names R) prompt) @
     (if trim (tk_description t) = [] then []
      else append_env_words ''QCOLD_TASKFLOW_DESCRIPTION'' (re_description_keys R) (tk_description t)) @
     (case env_prompt V ''CODEX_THREAD_ID'' of
        None \<Rightarrow> []
      | Some thread_id \<Rightarrow>
          append_env_words ''CODEX_THREAD_ID'' (re_thread_targets R) thread_id @
          (case rv_rollout_path V thread_id of
             None \<Rightarrow> []
           | Some path \<Rightarrow> append_env_words ''CODEX_ROLLOUT_PATH'' (re_rollout_targets R) path))"

definition remote_task_open_words :: "string \<Rightarrow> string list" where
  "remote_task_open_words task_slug = [''task'', ''open'', task_slug]"

definition mark_remote_task_record ::
  "remote_view \<Rightarrow> task_record_row \<Rightarrow> remote_adapter_args \<Rightarrow> bool \<Rightarrow> (qdb, task_record_row) prog" where
  "mark_remote_task_record V t R legacy = upsert_task_record (add_remote_adapter_metadata V t R legacy)"

definition remote_open_command ::
  "remote_view \<Rightarrow> remote_open_args \<Rightarrow> task_record_row \<Rightarrow> nat \<Rightarrow> string list" where
  "remote_open_command V A t sequence =
     append_remote_adapter_words
       ([ra_via (ro_remote A), ''env''] @ remote_task_open_env_words V t (ro_remote_env A) sequence)
       (ro_remote A) (remote_task_open_words (ro_task_slug A)) @
     (case ro_profile A of None \<Rightarrow> [] | Some p \<Rightarrow> [p])"

definition exit_code_u8 :: "int option \<Rightarrow> nat" where
  "exit_code_u8 code =
     (let c = (case code of None \<Rightarrow> 1 | Some c \<Rightarrow> c) in if 0 \<le> c \<and> c \<le> 255 then nat c else 1)"

definition open_remote_task :: "remote_view \<Rightarrow> remote_open_args \<Rightarrow> (qdb, nat) prog" where
  "open_remote_task V A =
     bnd (record_task_open V (ro_task_slug A) (ro_profile A)) (\<lambda>opened.
     bnd (mark_remote_task_record V opened (ro_remote A) False) (\<lambda>t.
     case tk_sequence t of
       None \<Rightarrow> throw (Bail (''task record '' @ tk_id t @ '' did not receive a local sequence''))
     | Some sequence \<Rightarrow>
         (case rv_launch V (remote_open_command V A t sequence) of
            None \<Rightarrow> throw (Bail (''failed to run remote task launcher '' @ ra_via (ro_remote A)))
          | Some code \<Rightarrow> ret (exit_code_u8 code))))"

section \<open>What a synchronisation leaves alone\<close>

definition same_but_tasks :: "qdb \<Rightarrow> qdb \<Rightarrow> bool" where
  "same_but_tasks db db' \<longleftrightarrow> db' = db\<lparr>db_tasks := db_tasks db', db_counters := db_counters db'\<rparr>"

lemma same_but_tasks_refl [simp]: "same_but_tasks db db"
  by (simp add: same_but_tasks_def)

lemma same_but_tasks_trans: "same_but_tasks a b \<Longrightarrow> same_but_tasks b c \<Longrightarrow> same_but_tasks a c"
  unfolding same_but_tasks_def by (cases a; cases b; cases c) simp

lemma upsert_stored:
  assumes inv: "task_inv db" and run: "upsert_task_record t db = (Inr stored, db')"
  shows "same_but_tasks db db'" and "tk_status stored = tk_status t" and "tk_updated_at stored = tk_updated_at t"
    and "tk_id stored = tk_id t"
    and "find_task (tk_id t) db = Some row \<Longrightarrow> tk_created_at stored = tk_created_at row"
    and "find_task (tk_id t) db = None \<Longrightarrow> tk_created_at stored = tk_created_at t"
    and "tk_cwd t = Some c \<Longrightarrow> tk_cwd stored = Some c"
    and "tk_metadata_json t = Some j \<Longrightarrow> tk_metadata_json stored = Some j"
proof -
  let ?ex = "find_task (tk_id t) db" and ?repo = "joined_repo t db"
  obtain sq d1 d2 where
    sq: "task_record_sequence_for_upsert t ?ex ?repo (moved t db) db = (Inr sq, d1)"
    and adv: "advance_task_sequence_counter_for_record ?repo sq d1 = (Inr (), d2)"
    and db': "db' = replace_task (upserted_record t ?ex ?repo sq) d2"
    and stored: "find_task (tk_id t) db' = Some stored"
    unfolding joined_repo_def moved_def by (rule upsert_task_cases [OF run])
  have only: "only_counters db d2"
    using only_counters_trans [OF sequence_result(2) [OF inv sq] advance_result(3) [OF sequence_result(1) [OF inv sq] adv]] .
  then show "same_but_tasks db db'"
    unfolding db' replace_task_def only_counters_def same_but_tasks_def by (cases db; cases d2) simp
  have "find_task (tk_id t) d2 = ?ex" using find_task_only_counters [OF only] .
  then have st: "stored = (case ?ex of None \<Rightarrow> upserted_record t ?ex ?repo sq
      | Some old \<Rightarrow> merge_task old (upserted_record t ?ex ?repo sq))"
    using stored by (simp add: db' find_replace_task)
  show "tk_status stored = tk_status t" "tk_updated_at stored = tk_updated_at t"
    unfolding st by (cases ?ex; simp add: merge_task_def upserted_record_def)+
  show "tk_id stored = tk_id t"
    using stored unfolding find_task_def by (auto dest: find_Some_set)
  show "tk_created_at stored = tk_created_at row" if "?ex = Some row" using that by (simp add: st merge_task_def)
  show "tk_created_at stored = tk_created_at t" if "?ex = None" using that by (simp add: st upserted_record_def)
  show "tk_cwd stored = Some c" if "tk_cwd t = Some c"
    using that unfolding st by (cases ?ex) (simp_all add: merge_task_def upserted_record_def coalesce_def)
  show "tk_metadata_json stored = Some j" if "tk_metadata_json t = Some j"
    using that unfolding st by (cases ?ex) (simp_all add: merge_task_def upserted_record_def coalesce_def)
qed

text \<open>What a remote record has to offer is older than the local row, by the clock of whoever ended the task.\<close>

definition older_than_local :: "task_record_row \<Rightarrow> task_record_row \<Rightarrow> bool" where
  "older_than_local t remote =
     (if starts_with ''closed:'' (tk_status remote) then tk_updated_at remote < tk_updated_at t
      else tk_created_at remote \<le> tk_updated_at t)"

lemma merged_record_fields:
  "tk_source (merged_remote_record V A root remote ex) = tk_source remote"
  "tk_repo_root (merged_remote_record V A root remote ex) = Some root"
  "ex = None \<or> (\<exists>t. ex = Some t \<and> tk_id t = tk_id remote) \<Longrightarrow>
     tk_id (merged_remote_record V A root remote ex) = tk_id remote"
  "starts_with ''closed:'' (tk_status t) \<Longrightarrow> older_than_local t remote \<Longrightarrow>
     tk_status (merged_remote_record V A root remote (Some t)) = tk_status t \<and>
     tk_updated_at (merged_remote_record V A root remote (Some t)) = tk_updated_at t"
  by (auto simp: merged_remote_record_def add_remote_adapter_metadata_def canonical_remote_task_record_def Let_def
      new_task_record_def preserve_existing_remote_status_def task_record_terminal_status_def older_than_local_def)

definition spared :: "string \<Rightarrow> task_record_row list \<Rightarrow> task_record_row \<Rightarrow> task_record_row \<Rightarrow> bool" where
  "spared root remotes t t' =
     ((starts_with ''closed:'' (tk_status t) \<and> list_all (older_than_local t) remotes \<longrightarrow>
         tk_status t' = tk_status t \<and> tk_updated_at t' = tk_updated_at t) \<and>
      (tk_repo_root t = Some root \<and> tk_sequence t \<noteq> None \<and> remotes \<noteq> [] \<longrightarrow>
         tk_repo_root t' = Some root \<and> tk_sequence t' = tk_sequence t))"

lemma import_remote_record_result:
  assumes inv: "task_inv db" and run: "import_remote_record V A root remote db = (Inr (), db')"
    and source: "tk_source remote = ''task-flow''"
  shows "task_inv db'" and "same_but_tasks db db'" and "a \<noteq> tk_id remote \<Longrightarrow> find_task a db' = find_task a db"
    and "find_task (tk_id remote) db = Some t \<Longrightarrow>
      \<exists>t'. find_task (tk_id remote) db' = Some t' \<and> spared root [remote] t t'"
proof -
  define ex where "ex = find_task (tk_id remote) db"
  define row where "row = merged_remote_record V A root remote ex"
  have ids: "tk_id row = tk_id remote"
    unfolding row_def ex_def
    by (rule merged_record_fields(3), cases "find_task (tk_id remote) db") (auto simp: find_task_def dest: find_Some_set)
  obtain stored where up: "upsert_task_record row db = (Inr stored, db')"
    using run
    by (auto simp: import_remote_record_def upsert_remote_task_record_with_lock_retry_def get_task_record_def run_bnd
        row_def ex_def split: prod.splits sum.splits)
  note r = upsert_task_result [OF inv up] and s = upsert_stored [OF inv up]
  show "task_inv db'" "same_but_tasks db db'" using r(1) s(1) .
  show "find_task a db' = find_task a db" if "a \<noteq> tk_id remote" using r(4) that ids by simp
  assume t: "find_task (tk_id remote) db = Some t"
  then have ex: "ex = Some t" by (simp add: ex_def)
  have "tk_sequence stored = tk_sequence t" if "tk_repo_root t = Some root" and "tk_sequence t \<noteq> None"
  proof -
    have "\<not> moved row db" using t that(1) by (simp add: moved_def ids) (simp add: row_def merged_record_fields)
    moreover have "source_uses_task_sequence (tk_source row)"
      using source by (simp add: row_def merged_record_fields source_uses_task_sequence_def)
    ultimately show ?thesis using upsert_numbers(2) [OF inv up _ _ _] t that(2) ids by fastforce
  qed
  moreover have "tk_repo_root stored = Some root"
    using r(6) by (simp add: joined_repo_def row_def merged_record_fields coalesce_def)
  moreover have "tk_status stored = tk_status t \<and> tk_updated_at stored = tk_updated_at t"
    if "starts_with ''closed:'' (tk_status t)" "older_than_local t remote"
    using merged_record_fields(4) [OF that] s(2,3) by (simp add: row_def ex)
  ultimately have "spared root [remote] t stored" by (simp add: spared_def)
  then show "\<exists>t'. find_task (tk_id remote) db' = Some t' \<and> spared root [remote] t t'" using r(3) ids by auto
qed

lemma spared_refl: "spared root [] t t"
  by (simp add: spared_def)

lemma spared_step:
  assumes "spared root [remote] t t1" and "spared root rest t1 t'" and "rest = [] \<Longrightarrow> t' = t1"
  shows "spared root (remote # rest) t t'"
proof -
  have same: "older_than_local t1 = older_than_local t" if "tk_updated_at t1 = tk_updated_at t"
    using that by (simp add: older_than_local_def fun_eq_iff)
  have "tk_status t' = tk_status t \<and> tk_updated_at t' = tk_updated_at t"
    if "starts_with ''closed:'' (tk_status t)" "list_all (older_than_local t) (remote # rest)"
    using assms(1,2) that same unfolding spared_def by simp
  moreover have "tk_repo_root t' = Some root \<and> tk_sequence t' = tk_sequence t"
    if "tk_repo_root t = Some root" "tk_sequence t \<noteq> None"
    using assms that unfolding spared_def by (cases "rest = []") auto
  ultimately show ?thesis by (simp add: spared_def)
qed

definition imported_for :: "remote_sync_args \<Rightarrow> string \<Rightarrow> task_record_row list \<Rightarrow> task_record_row list" where
  "imported_for A a remotes = filter (\<lambda>r. imports_remote_record A r \<and> tk_id r = a) remotes"

lemma import_remote_records_result:
  assumes "task_inv db" and "import_remote_records V A root remotes imported skipped db = (Inr (imported', skipped'), db')"
  shows "task_inv db' \<and> same_but_tasks db db' \<and> imported' + skipped' = imported + skipped + length remotes \<and>
    imported' = imported + length (filter (imports_remote_record A) remotes) \<and>
    (\<forall>a t. find_task a db = Some t \<longrightarrow>
      (\<exists>t'. find_task a db' = Some t' \<and> spared root (imported_for A a remotes) t t' \<and>
        (imported_for A a remotes = [] \<longrightarrow> t' = t)))"
  using assms
proof (induction remotes arbitrary: db imported skipped)
  case Nil
  then show ?case by (auto simp: imported_for_def spared_refl)
next
  case (Cons remote rest)
  show ?case
  proof (cases "imports_remote_record A remote")
    case False
    then have run: "import_remote_records V A root rest imported (skipped + 1) db = (Inr (imported', skipped'), db')"
      using Cons.prems(2) by simp
    have "imported_for A a (remote # rest) = imported_for A a rest" for a using False by (simp add: imported_for_def)
    then show ?thesis using Cons.IH [OF Cons.prems(1) run] False by simp
  next
    case True
    then obtain db1 where one: "import_remote_record V A root remote db = (Inr (), db1)"
      and run: "import_remote_records V A root rest (imported + 1) skipped db1 = (Inr (imported', skipped'), db')"
      using Cons.prems(2) by (auto simp: run_bnd split: prod.splits sum.splits)
    have "tk_source remote = ''task-flow''" using True by (simp add: imports_remote_record_def)
    note first = import_remote_record_result [OF Cons.prems(1) one this]
    note later = Cons.IH [OF first(1) run]
    have "\<exists>t'. find_task a db' = Some t' \<and> spared root (imported_for A a (remote # rest)) t t' \<and>
        (imported_for A a (remote # rest) = [] \<longrightarrow> t' = t)" if t: "find_task a db = Some t" for a t
    proof (cases "a = tk_id remote")
      case False
      then have "find_task a db1 = Some t" "imported_for A a (remote # rest) = imported_for A a rest"
        using first(3) t by (auto simp: imported_for_def)
      then show ?thesis using later by auto
    next
      case same: True
      obtain t1 where t1: "find_task a db1 = Some t1" "spared root [remote] t t1" using first(4) t same by blast
      then obtain t' where t': "find_task a db' = Some t'" "spared root (imported_for A a rest) t1 t'"
        "imported_for A a rest = [] \<longrightarrow> t' = t1" using later by blast
      have all: "imported_for A a (remote # rest) = remote # imported_for A a rest"
        using True same by (simp add: imported_for_def)
      have "spared root (imported_for A a (remote # rest)) t t'"
        unfolding all using spared_step [OF t1(2) t'(2)] t'(3) by blast
      then show ?thesis using t'(1) unfolding all by blast
    qed
    moreover have "same_but_tasks db db'" using first(2) later same_but_tasks_trans by blast
    ultimately show ?thesis using later True by simp
  qed
qed


definition sample_line :: string where
  "sample_line = join_with [tab] [''task-record'', ''task/a'', ''sequence=4'', ''status=paused'', ''source=task-flow'',
     ''title=Fix it'']"

definition sample_remote_view :: remote_view where
  "sample_remote_view =
     \<lparr>rv_now = 10, rv_parse = (\<lambda>_. None), rv_record_error = (\<lambda>_. ''expected value''), rv_print = (\<lambda>_. ''{}''),
      rv_env = (\<lambda>_. None), rv_cwd = None, rv_canonicalize = (\<lambda>p. Some p),
      rv_current_or_active_root = Inl ''no repository'', rv_task_flow_root = Inl ''no repository'',
      rv_rollout_path = (\<lambda>_. None),
      rv_process = (\<lambda>argv. if argv ! 3 = ''list'' then Exited True [] sample_line []
        else Exited False ''exit status: 2'' [] ''unknown command''),
      rv_launch = (\<lambda>_. None)\<rparr>"

definition sample_sync_args :: remote_sync_args where
  "sample_sync_args =
     \<lparr>rs_remote = \<lparr>ra_via = ''remote-dev-env'', ra_remote_adapter = ''cargo'', ra_adapter_args = [],
        ra_no_default_arg = False\<rparr>,
      rs_local_repo_root = Some ''/repo'', rs_remote_repo_root = None, rs_limit = 200, rs_legacy_remote_qcold = True\<rparr>"

definition sample_closed_task :: task_record_row where
  "sample_closed_task = (new_task_record 7 ''task/a'' ''task-flow'' ''title'' ''text'' ''open'' (Some ''/repo'') None None None)\<lparr>
     tk_status := ''closed:success'', tk_updated_at := 20, tk_sequence := Some 3\<rparr>"

definition sample_sync_db :: qdb where
  "sample_sync_db = empty_db\<lparr>db_tasks := [sample_closed_task], db_counters := [(''/repo'', 4)]\<rparr>"

definition sample_remote_task :: task_record_row where
  "sample_remote_task =
     \<lparr>tk_id = ''task/a'', tk_source = ''task-flow'', tk_sequence = Some 4, tk_title = ''Fix it'', tk_description = [],
      tk_status = ''paused'', tk_created_at = 10, tk_updated_at = 10, tk_repo_root = None, tk_cwd = None,
      tk_agent_id = None, tk_metadata_json = None\<rparr>"

lemma sample_sync_inv: "task_inv sample_sync_db"
  unfolding task_inv_def
proof (intro conjI)
  show "schema_ok sample_sync_db"
    using schema_ok_empty_db by (simp add: sample_sync_db_def schema_parts empty_db_def tab_run_ok_def)
  show "numbers_ahead sample_sync_db"
    by (simp add: numbers_ahead_def sample_sync_db_def sample_closed_task_def new_task_record_def
        counter_of_def)
  show "counters_range sample_sync_db"
    by (simp add: counters_range_def sample_sync_db_def counter_of_def i64_max_def)
qed

lemma sample_remote_records: "remote_records_of sample_remote_view sample_sync_args = Inr [sample_remote_task]"
proof -
  have "str_lines sample_line = [sample_line]" "split_when (\<lambda>c. c = tab) sample_line =
      [''task-record'', ''task/a'', ''sequence=4'', ''status=paused'', ''source=task-flow'', ''title=Fix it'']"
    by code_simp+
  moreover have "show_nat 4 = ''4''" by code_simp
  then have "parse_u64 ''4'' = Some 4" using parse_u64_show [of 4] by (simp add: u64_max_def)
  ultimately have "List.map_filter (parse_rendered_task_record_line 10) (str_lines sample_line) = [sample_remote_task]"
    by (simp add: parse_rendered_task_record_line_def line_values_def sample_remote_task_def text_or_empty_def
        map_filter_def Let_def parse_u64_def parse_unsigned_def)
  then show ?thesis
    by (simp add: remote_records_of_def sample_sync_args_def sample_remote_view_def remote_qcold_task_record_export_def
        remote_qcold_task_record_list_def remote_qcold_output_def successful_output_def remote_command_output_def)
qed

definition sample_merged_task :: task_record_row where
  "sample_merged_task = sample_closed_task\<lparr>tk_title := ''Fix it'', tk_metadata_json := Some ''{}''\<rparr>"

lemma sample_closed: "starts_with ''closed:'' ''closed:success''" "\<not> starts_with ''closed:'' ''paused''"
  by code_simp+

lemma sample_merged:
  "merged_remote_record sample_remote_view sample_sync_args ''/repo'' sample_remote_task (Some sample_closed_task) =
     sample_merged_task"
  by (simp add: merged_remote_record_def add_remote_adapter_metadata_def canonical_remote_task_record_def Let_def
      preserve_existing_remote_status_def task_record_terminal_status_def sample_merged_task_def sample_closed_task_def
      new_task_record_def sample_remote_task_def sample_remote_view_def coalesce_def trim_def trim_matches_def sample_closed)

lemma sample_upsert: "fst (upsert_task_record sample_merged_task sample_sync_db) \<in> range Inr"
proof -
  let ?row = "upserted_record sample_merged_task (Some sample_closed_task) (Some ''/repo'') (Some 3)"
  have ex: "find_task (tk_id sample_merged_task) sample_sync_db = Some sample_closed_task"
    by (simp add: find_task_def sample_sync_db_def sample_merged_task_def sample_closed_task_def new_task_record_def)
  have fields: "tk_repo_root sample_merged_task = Some ''/repo''" "tk_repo_root sample_closed_task = Some ''/repo''"
    "tk_sequence sample_closed_task = Some 3" "tk_sequence sample_merged_task = Some 3" "source_uses_task_sequence (tk_source sample_merged_task)"
    by (simp_all add: sample_merged_task_def sample_closed_task_def new_task_record_def source_uses_task_sequence_def)
  have "raise_counter ''/repo'' (i64_of_u64 (sat_add_u64 3 1)) sample_sync_db = sample_sync_db"
    by (simp add: raise_counter_def set_counter_def counter_of_def sample_sync_db_def i64_of_u64_def sat_add_u64_def
        u64_max_def i64_max_def)
  moreover have "storable_numbers ?row"
    by (simp add: storable_numbers_def upserted_record_def sample_closed_task_def sample_merged_task_def
        new_task_record_def i64_max_def)
  moreover have "db_tasks (replace_task ?row sample_sync_db) = [sample_merged_task]"
    by (simp add: replace_task_def sample_sync_db_def upsert_by_def update_where_def upserted_record_def sample_merged_task_def
        sample_closed_task_def new_task_record_def merge_task_def coalesce_def)
  then have "schema_ok (replace_task ?row sample_sync_db)" "find_task (tk_id sample_merged_task) (replace_task ?row sample_sync_db) =
      Some sample_merged_task"
    using sample_sync_inv
    by (simp_all add: task_inv_def schema_parts find_task_def) (simp add: replace_task_def sample_sync_db_def)
  ultimately show ?thesis
    using sample_sync_inv
    by (simp add: upsert_task_record_def ex fields Let_def run_bnd transaction_def coalesce_def
        task_record_sequence_for_upsert_def advance_task_sequence_counter_for_record_def
        advance_task_sequence_counter_def store_task_def run_sql_exec replace_task_def task_inv_def trim_def
        trim_matches_def)
qed

lemma sample_sync_succeeds:
  "\<exists>s db'. sync_remote_task_records sample_remote_view sample_sync_args sample_sync_db = (Inr s, db')"
proof -
  obtain stored db' where up: "upsert_task_record sample_merged_task sample_sync_db = (Inr stored, db')"
    using sample_upsert by (cases "upsert_task_record sample_merged_task sample_sync_db") auto
  have "find_task ''task/a'' sample_sync_db = Some sample_closed_task"
    by (simp add: find_task_def sample_sync_db_def sample_closed_task_def new_task_record_def)
  moreover have "tk_id sample_remote_task = ''task/a''" "imports_remote_record sample_sync_args sample_remote_task"
    by (simp_all add: sample_remote_task_def imports_remote_record_def sample_sync_args_def)
  moreover have "local_root_of_sync sample_remote_view sample_sync_args = Inr ''/repo''"
    by (simp add: local_root_of_sync_def sample_sync_args_def sample_remote_view_def)
  ultimately show ?thesis
    using up
    by (simp add: sync_remote_task_records_def from_result_def run_bnd sample_remote_records import_remote_record_def
        get_task_record_def upsert_remote_task_record_with_lock_retry_def sample_merged)
qed


section \<open>Exported records\<close>

definition u64_fields :: "task_record_row \<Rightarrow> bool" where
  "u64_fields t =
     (tk_created_at t \<le> u64_max \<and> tk_updated_at t \<le> u64_max \<and>
      (case tk_sequence t of None \<Rightarrow> True | Some n \<Rightarrow> n \<le> u64_max))"

text \<open>What \<open>serde_json\<close> promises of a value it prints: one line, which it reads as the same value.\<close>

definition prints_faithfully :: "remote_view \<Rightarrow> json \<Rightarrow> bool" where
  "prints_faithfully V v =
     (rv_parse V (rv_print V v) = Some v \<and> CHR 0x0A \<notin> set (rv_print V v) \<and> CHR 0x0D \<notin> set (rv_print V v))"

lemma json_nat_read: "n \<le> u64_max \<Longrightarrow> json_as_u64 (json_nat n) = Some n"
  by (simp add: json_as_u64_def json_nat_def)

lemma optional_read:
  "json_get key v = Some (json_or_null g x) \<Longrightarrow> (\<And>y. x = Some y \<Longrightarrow> f (g y) = Some y \<and> g y \<noteq> JNull) \<Longrightarrow>
     optional_field f key v = Some x"
  by (cases x) (auto simp: optional_field_def json_or_null_def)

lemma task_record_json_read:
  assumes "u64_fields t" shows "task_record_of_json (task_record_json t) = Some t"
proof -
  let ?v = "task_record_json t"
  have read_text: "optional_field json_as_str key ?v = Some x" if "json_get key ?v = Some (json_or_null JString x)" for key x
    using optional_read [OF that] by (simp add: json_as_str_def)
  have "optional_field json_as_u64 ''sequence'' ?v = Some (tk_sequence t)"
  proof (rule optional_read)
    show "json_get ''sequence'' ?v = Some (json_or_null json_nat (tk_sequence t))"
      by (simp add: task_record_json_def json_get_def)
  qed (use assms in \<open>auto simp: u64_fields_def json_nat_read\<close>, simp add: json_nat_def)
  moreover have "optional_field json_as_str ''repo_root'' ?v = Some (tk_repo_root t)"
    "optional_field json_as_str ''cwd'' ?v = Some (tk_cwd t)"
    "optional_field json_as_str ''agent_id'' ?v = Some (tk_agent_id t)"
    "optional_field json_as_str ''metadata_json'' ?v = Some (tk_metadata_json t)"
    by (rule read_text; simp add: task_record_json_def json_get_def)+
  moreover have "json_str ''id'' ?v = Some (tk_id t)" "json_str ''source'' ?v = Some (tk_source t)"
    "json_str ''title'' ?v = Some (tk_title t)" "json_str ''description'' ?v = Some (tk_description t)"
    "json_str ''status'' ?v = Some (tk_status t)"
    by (simp_all add: json_str_def task_record_json_def json_get_def json_as_str_def)
  moreover have "json_u64 ''created_at'' ?v = Some (tk_created_at t)" "json_u64 ''updated_at'' ?v = Some (tk_updated_at t)"
    using assms by (simp_all add: json_u64_def task_record_json_def json_get_def json_nat_read u64_fields_def)
  ultimately show ?thesis by (simp add: task_record_of_json_def)
qed

lemma read_exported:
  "\<forall>t \<in> set records. prints_faithfully V (task_record_json t) \<and> u64_fields t \<Longrightarrow>
   read_record_lines V (map (\<lambda>t. task_record_json_prefix @ rv_print V (task_record_json t)) records) = Inr records"
  by (induction records) (simp_all add: prints_faithfully_def task_record_json_read)



end
