(* ===== verification/Task_Flow_Sync.thy ===== *)
theory Task_Flow_Sync
  imports Remote_Sync Task_Env "HOL-Library.Countable"
begin

text \<open>
  Keeping task records in step with the worktrees, the bundles of ended tasks and the sessions of
  agents (\<open>src/src/app/task_flow_sync.rs\<close>, \<open>src/src/app/codex_metadata.rs\<close>), and the agents table
  (\<open>src/src/state/agent_records.rs\<close>).

  Files, directories, archives and the environment are arguments, collected in a record; they do not
  change while a synchronisation runs, and its clock stands still. Paths are canonical, as
  everywhere in the model. The import of agents from the registry file of an older version is left
  out.
\<close>

section \<open>Observations\<close>

text \<open>A directory that is not there, that cannot be read, or its entries; an entry may fail.\<close>

datatype directory = DirMissing | DirFailed | DirEntries "string option list"

record sync_view =
  fv_store :: store_env
  fv_print :: "json \<Rightarrow> string"
  fv_env :: "string \<Rightarrow> string option"
  fv_session :: session_view
  fv_session_roots :: "string + string list"
  fv_account_root :: "string \<Rightarrow> string + string"
  fv_exists :: "string \<Rightarrow> bool"
  fv_dir :: "string \<Rightarrow> directory"
  fv_unzip :: "string \<Rightarrow> string \<Rightarrow> string option"
  fv_bundle_modified :: "string \<Rightarrow> nat"
  fv_active_root :: "string option"
  fv_current_dir :: "string option"
  fv_canonicalize :: "string \<Rightarrow> string option"
  fv_repositories :: "string list"
  fv_process_running :: "nat \<Rightarrow> bool"

definition fv_now :: "sync_view \<Rightarrow> nat" where
  "fv_now V = se_now (fv_store V)"

definition fv_parse :: "sync_view \<Rightarrow> string \<Rightarrow> json option" where
  "fv_parse V = se_parse_json (fv_store V)"

definition metadata_object :: "sync_view \<Rightarrow> task_record_row \<Rightarrow> (string \<times> json) list" where
  "metadata_object V t =
     (case Option.bind (Option.bind (tk_metadata_json t) (fv_parse V)) json_as_object of None \<Rightarrow> [] | Some m \<Rightarrow> m)"

section \<open>The file of a worktree\<close>

definition task_env_path :: "string \<Rightarrow> string" where
  "task_env_path worktree = path_join worktree ''.task/task.env''"

definition parse_task_env_file :: "sync_view \<Rightarrow> string \<Rightarrow> string + (string \<Rightarrow> string option)" where
  "parse_task_env_file V path =
     (case sv_read (fv_session V) path of
        Inl _ \<Rightarrow> Inl (''failed to read '' @ path)
      | Inr content \<Rightarrow> Inr (parse_task_env_content content))"

definition task_record_id_from_worktree :: "sync_view \<Rightarrow> string \<Rightarrow> string option" where
  "task_record_id_from_worktree V worktree =
     (case parse_task_env_file V (task_env_path worktree) of Inl _ \<Rightarrow> None | Inr env \<Rightarrow> env ''TASK_ID'')"

definition managed_root_for :: "string \<Rightarrow> string" where
  "managed_root_for primary_root =
     (case path_parent primary_root of
        None \<Rightarrow> path_join primary_root ''WT''
      | Some parent \<Rightarrow>
          path_join (path_join parent ''WT'') (case path_file_name primary_root of None \<Rightarrow> [] | Some n \<Rightarrow> n))"

definition terminal_closeout_code :: "string \<Rightarrow> nat \<Rightarrow> bool" where
  "terminal_closeout_code outcome code =
     ((outcome = ''success'' \<and> code = 0) \<or> (outcome = ''blocked'' \<and> code = 10) \<or> (outcome = ''failed'' \<and> code = 11))"

definition task_record_status_from_task_flow_status :: "string \<Rightarrow> string" where
  "task_record_status_from_task_flow_status status =
     (if status \<in> {''success'', ''blocked'', ''failed''} then ''closed:'' @ status else status)"

definition task_flow_record_needs_terminal_sync :: "task_record_row \<Rightarrow> bool" where
  "task_flow_record_needs_terminal_sync t =
     (tk_source t = ''task-flow'' \<and> task_record_terminal_status (tk_status t) = None)"

definition live_web_queue_item_slug :: "sync_view \<Rightarrow> string \<Rightarrow> (qdb, bool) prog" where
  "live_web_queue_item_slug V task_slug db =
     (case load_web_queue_items (fv_store V) db of
        (Inl _, db') \<Rightarrow> (Inr False, db')
      | (Inr items, db') \<Rightarrow> (Inr (list_ex (\<lambda>i. qi_slug i = task_slug \<and> qi_status i \<noteq> ItemSuccess) items), db'))"

definition live_web_queue_task ::
  "sync_view \<Rightarrow> (string \<times> json) list \<Rightarrow> bool \<Rightarrow> string option \<Rightarrow> (qdb, bool) prog" where
  "live_web_queue_task V metadata task_is_live task_slug =
     (if \<not> task_is_live then ret False
      else if Option.bind (map_of metadata ''opened_by'') json_as_str = Some ''web-queue'' then ret True
      else (case task_slug of None \<Rightarrow> ret False | Some slug \<Rightarrow> live_web_queue_item_slug V slug))"

definition explicit_codex_rollout_paths_from_env :: "(string \<Rightarrow> string option) \<Rightarrow> string list" where
  "explicit_codex_rollout_paths_from_env env =
     (case env ''CODEX_ROLLOUT_PATH'' of
        None \<Rightarrow> [] | Some v \<Rightarrow> if trim v = [] then [] else [trim v])"

section \<open>Metadata\<close>

definition remove_task_flow_capture_timestamp :: "json \<Rightarrow> json" where
  "remove_task_flow_capture_timestamp v =
     (case v of
        JObject kvs \<Rightarrow> JObject (map (\<lambda>(k, x).
          if k = ''token_efficiency'' then (case x of JObject e \<Rightarrow> (k, JObject (obj_remove ''captured_at'' e)) | _ \<Rightarrow> (k, x))
          else (k, x)) kvs)
      | _ \<Rightarrow> v)"

definition task_flow_metadata_equivalent :: "json \<Rightarrow> json \<Rightarrow> bool" where
  "task_flow_metadata_equivalent a b =
     (remove_task_flow_capture_timestamp a = remove_task_flow_capture_timestamp b)"

definition remove_codex_task_metadata :: "(string \<times> json) list \<Rightarrow> (string \<times> json) list" where
  "remove_codex_task_metadata m =
     fold obj_remove [''session_path'', ''session_paths'', ''session_ids'', ''token_usage'', ''token_efficiency''] m"

definition metadata_session_path_matches_worktree :: "sync_view \<Rightarrow> (string \<times> json) list \<Rightarrow> string \<Rightarrow> bool" where
  "metadata_session_path_matches_worktree V m worktree =
     (case Option.bind (map_of m ''session_path'') json_as_str of
        None \<Rightarrow> False
      | Some path \<Rightarrow> (case sv_read (fv_session V) path of
          Inl _ \<Rightarrow> False
        | Inr content \<Rightarrow> codex_session_match_for_worktree (sv_parse (fv_session V)) content worktree \<noteq> None))"

definition telemetry_metadata ::
  "sync_view \<Rightarrow> codex_task_telemetry \<Rightarrow> nat \<Rightarrow> nat \<Rightarrow> (string \<times> json) list \<Rightarrow> (string \<times> json) list" where
  "telemetry_metadata V t start finish m =
     (let m1 = (case ct_session_paths t of
            [] \<Rightarrow> m
          | path # _ \<Rightarrow> obj_insert ''session_paths'' (JArray (map JString (ct_session_paths t)))
              (obj_insert ''session_path'' (JString path) m))
      in obj_insert ''token_efficiency'' (efficiency_json t (fv_now V) start finish)
         (obj_insert ''token_usage'' (usage_as_json (ct_usage t))
         (obj_insert ''session_ids'' (JArray (map JString (ct_session_ids t))) m1)))"

section \<open>A worktree\<close>

fun trim_start_text :: "nat \<Rightarrow> string \<Rightarrow> string \<Rightarrow> string" where
  "trim_start_text 0 before s = s"
| "trim_start_text (Suc n) before s =
     (case strip_prefix before s of None \<Rightarrow> s | Some rest \<Rightarrow> trim_start_text n before rest)"

text \<open>The record of a task that has none yet, from the file of its worktree.\<close>

definition record_from_task_env :: "sync_view \<Rightarrow> string \<Rightarrow> (string \<Rightarrow> string option) \<Rightarrow> string \<Rightarrow> task_record_row" where
  "record_from_task_env V worktree env record_id =
     (let task_name = (case env ''TASK_NAME'' of
            Some n \<Rightarrow> n | None \<Rightarrow> trim_start_text (length record_id) ''task/'' record_id)
      in (new_task_record (fv_now V) record_id ''task-flow'' (title_from_slug task_name)
            (case env ''TASK_DESCRIPTION'' of
               Some d \<Rightarrow> d | None \<Rightarrow> ''Managed task-flow work for '' @ task_name @ ''.'')
            ''open'' (env ''PRIMARY_REPO_PATH'') (Some worktree) None None)
           \<lparr>tk_sequence := Option.bind (coalesce (env ''TASK_SEQUENCE'') (env ''TASK_EXECUTION_ANCHOR'')) parse_u64\<rparr>)"

definition env_task_is_live :: "(string \<Rightarrow> string option) \<Rightarrow> bool" where
  "env_task_is_live env =
     (case env ''STATUS'' of None \<Rightarrow> True | Some s \<Rightarrow> s \<in> {''open'', ''paused'', ''failed-closeout''})"

definition flow_metadata ::
  "string \<Rightarrow> string option \<Rightarrow> bool \<Rightarrow> nat \<Rightarrow> nat \<Rightarrow> bool \<Rightarrow> (string \<times> json) list \<Rightarrow> (string \<times> json) list" where
  "flow_metadata worktree task_slug is_live start finish suppress m0 =
     (let m1 = (if suppress then obj_insert ''opened_by'' (JString ''web-queue'') m0 else m0);
          m2 = obj_insert ''kind'' (JString ''managed-task-flow'') m1;
          m3 = (case task_slug of None \<Rightarrow> m2 | Some slug \<Rightarrow> obj_insert ''task_slug'' (JString slug) m2);
          m4 = obj_insert ''task_worktree'' (JString worktree) m3;
          m5 = obj_insert ''task_started_at'' (json_nat start) m4
      in if is_live then obj_remove ''task_finished_at'' m5
         else obj_insert ''task_finished_at'' (json_nat finish) m5)"

definition task_metadata ::
  "sync_view \<Rightarrow> string \<Rightarrow> string option \<Rightarrow> bool \<Rightarrow> nat \<Rightarrow> nat \<Rightarrow> bool \<Rightarrow> codex_task_telemetry option \<Rightarrow>
   (string \<times> json) list \<Rightarrow> (string \<times> json) list" where
  "task_metadata V worktree task_slug is_live start finish suppress telemetry m0 =
     (let m = flow_metadata worktree task_slug is_live start finish suppress m0
      in case telemetry of
           Some t \<Rightarrow> telemetry_metadata V t start finish m
         | None \<Rightarrow>
             if suppress \<or> \<not> metadata_session_path_matches_worktree V m worktree
             then remove_codex_task_metadata m else m)"

text \<open>The record with what the worktree says, and whether it differs from the stored one.\<close>

definition record_of_worktree ::
  "string \<Rightarrow> (string \<Rightarrow> string option) \<Rightarrow> string option \<Rightarrow> task_record_row \<Rightarrow> task_record_row" where
  "record_of_worktree worktree env status_override t =
     t\<lparr>tk_cwd := Some worktree,
       tk_repo_root := coalesce (env ''PRIMARY_REPO_PATH'') (tk_repo_root t),
       tk_status := (case status_override of
           Some s \<Rightarrow> s
         | None \<Rightarrow> (case env ''STATUS'' of
             None \<Rightarrow> tk_status t | Some s \<Rightarrow> task_record_status_from_task_flow_status s))\<rparr>"

definition record_unchanged ::
  "sync_view \<Rightarrow> task_record_row \<Rightarrow> task_record_row \<Rightarrow> (string \<times> json) list \<Rightarrow> bool" where
  "record_unchanged V original t m =
     (tk_status original = tk_status t \<and> tk_repo_root original = tk_repo_root t \<and> tk_cwd original = tk_cwd t \<and>
      (case Option.bind (tk_metadata_json original) (fv_parse V) of
         None \<Rightarrow> False | Some existing \<Rightarrow> task_flow_metadata_equivalent existing (JObject m)))"

definition task_start :: "(string \<Rightarrow> string option) \<Rightarrow> task_record_row \<Rightarrow> nat" where
  "task_start env t = (case Option.bind (env ''STARTED_AT'') parse_u64 of Some n \<Rightarrow> n | None \<Rightarrow> tk_created_at t)"

definition task_finish :: "sync_view \<Rightarrow> (string \<Rightarrow> string option) \<Rightarrow> nat" where
  "task_finish V env =
     (if env_task_is_live env then fv_now V
      else (case Option.bind (env ''UPDATED_AT'') parse_u64 of Some n \<Rightarrow> n | None \<Rightarrow> fv_now V))"

definition task_telemetry ::
  "sync_view \<Rightarrow> string \<Rightarrow> (string \<Rightarrow> string option) \<Rightarrow> string \<Rightarrow> task_record_row \<Rightarrow> bool \<Rightarrow>
   string + codex_task_telemetry option" where
  "task_telemetry V worktree env record_id t suppress =
     (if suppress then Inr None
      else codex_task_telemetry_for_worktree (fv_session V) (fv_env V) (fv_now V) (fv_session_roots V) worktree
        (strip_prefix ''task/'' record_id) (task_start env t) (task_finish V env)
        (explicit_codex_rollout_paths_from_env env)
        (Option.bind (env ''CODEX_THREAD_ID'') (\<lambda>v. if trim v = [] then None else Some (trim v))))"

definition write_worktree_record ::
  "sync_view \<Rightarrow> string \<Rightarrow> (string \<Rightarrow> string option) \<Rightarrow> string \<Rightarrow> string option \<Rightarrow> task_record_row \<Rightarrow> bool \<Rightarrow>
   codex_task_telemetry option \<Rightarrow> (qdb, bool) prog" where
  "write_worktree_record V worktree env record_id status_override t suppress telemetry =
     (let m = task_metadata V worktree (strip_prefix ''task/'' record_id) (env_task_is_live env) (task_start env t)
            (task_finish V env) suppress telemetry (metadata_object V t);
          t' = record_of_worktree worktree env status_override t
      in if record_unchanged V t t' m then ret False
         else seq (upsert_task_record
                (t'\<lparr>tk_metadata_json := Some (fv_print V (JObject m)), tk_updated_at := fv_now V\<rparr>))
              (ret True))"

definition sync_task_flow_record_for_worktree ::
  "sync_view \<Rightarrow> string \<Rightarrow> string option \<Rightarrow> (qdb, bool) prog" where
  "sync_task_flow_record_for_worktree V worktree status_override =
     bnd (from_result (parse_task_env_file V (task_env_path worktree))) (\<lambda>env.
     case env ''TASK_ID'' of None \<Rightarrow> ret False | Some record_id \<Rightarrow>
     bnd (get_task_record record_id) (\<lambda>found.
     let t = (case found of None \<Rightarrow> record_from_task_env V worktree env record_id | Some row \<Rightarrow> row) in
     bnd (live_web_queue_task V (metadata_object V t) (env_task_is_live env) (strip_prefix ''task/'' record_id)) (\<lambda>suppress.
     bnd (from_result (task_telemetry V worktree env record_id t suppress)) (\<lambda>telemetry.
     write_worktree_record V worktree env record_id status_override t suppress telemetry))))"

section \<open>Worktrees of a repository\<close>

text \<open>A map whose keys are paths: its entries in the order of the paths.\<close>

definition put_path :: "bool \<Rightarrow> string \<Rightarrow> 'a \<Rightarrow> (string \<times> 'a) list \<Rightarrow> (string \<times> 'a) list" where
  "put_path replace path v kvs =
     (if list_ex (\<lambda>(p, _). same_path p path) kvs
      then (if replace then map (\<lambda>(p, x). (p, if same_path p path then v else x)) kvs else kvs)
      else sort_key (\<lambda>(p, _). path_components p) ((path, v) # kvs))"

definition task_flow_scan_roots :: "sync_view \<Rightarrow> task_record_row list \<Rightarrow> string list" where
  "task_flow_scan_roots V records =
     map fst (fold (\<lambda>root. put_path False root ())
       ((case fv_active_root V of None \<Rightarrow> [] | Some r \<Rightarrow> [r]) @ List.map_filter tk_repo_root records) [])"

fun readable_entries :: "string option list \<Rightarrow> string list option" where
  "readable_entries [] = Some []"
| "readable_entries (None # rest) = None"
| "readable_entries (Some p # rest) = map_option ((#) p) (readable_entries rest)"

definition task_flow_worktrees_for_repo :: "sync_view \<Rightarrow> string \<Rightarrow> string + string list" where
  "task_flow_worktrees_for_repo V repo_root =
     (let managed_root = managed_root_for repo_root in
      case fv_dir V managed_root of
        DirMissing \<Rightarrow> Inr []
      | DirFailed \<Rightarrow> Inl (''failed to read '' @ managed_root)
      | DirEntries entries \<Rightarrow>
          (case readable_entries entries of
             None \<Rightarrow> Inl (''failed to read entry in '' @ managed_root)
           | Some paths \<Rightarrow> Inr (sort_key path_components
               (filter (\<lambda>w. sv_is_file (fv_session V) (task_env_path w)) paths))))"

definition worktree_of_task :: "sync_view \<Rightarrow> string \<Rightarrow> string \<Rightarrow> bool" where
  "worktree_of_task V task_slug worktree =
     (case parse_task_env_file V (task_env_path worktree) of
        Inl _ \<Rightarrow> False
      | Inr env \<Rightarrow> env ''TASK_NAME'' = Some task_slug \<or> env ''TASK_ID'' = Some (''task/'' @ task_slug))"

definition task_flow_worktree_for_record :: "sync_view \<Rightarrow> task_record_row \<Rightarrow> string option" where
  "task_flow_worktree_for_record V t =
     (let metadata = Option.bind (tk_metadata_json t) (fv_parse V) in
      case Option.bind (Option.bind metadata (json_str ''task_worktree''))
             (\<lambda>w. if sv_is_file (fv_session V) (task_env_path w) then Some w else None) of
        Some worktree \<Rightarrow> Some worktree
      | None \<Rightarrow>
          Option.bind (coalesce (Option.bind metadata (json_str ''task_slug'')) (strip_prefix ''task/'' (tk_id t)))
            (\<lambda>task_slug. Option.bind (tk_repo_root t) (\<lambda>repo_root.
              case fv_dir V (managed_root_for repo_root) of
                DirEntries entries \<Rightarrow> find (worktree_of_task V task_slug) (List.map_filter id entries)
              | _ \<Rightarrow> None)))"

section \<open>Bundles of ended tasks\<close>

record terminal_bundle =
  tb_status :: string
  tb_duration_seconds :: "nat option"
  tb_bundle_path :: string

definition terminal_bundle_scan_limit :: nat where
  "terminal_bundle_scan_limit = 250"

definition has_zip_extension :: "string \<Rightarrow> bool" where
  "has_zip_extension path =
     (case path_name path of
        None \<Rightarrow> False
      | Some name \<Rightarrow> (case rsplit_once CHR ''.'' name of
          None \<Rightarrow> False | Some (before, extension) \<Rightarrow> before \<noteq> [] \<and> extension = ''zip''))"

definition terminal_bundle_candidates :: "sync_view \<Rightarrow> string \<Rightarrow> string + string list" where
  "terminal_bundle_candidates V root =
     (let bundles_dir = path_join root ''bundles'' in
      case fv_dir V bundles_dir of
        DirMissing \<Rightarrow> Inr []
      | DirFailed \<Rightarrow> Inl (''failed to read '' @ bundles_dir)
      | DirEntries entries \<Rightarrow>
          (case readable_entries entries of
             None \<Rightarrow> Inl (''failed to read entry in '' @ bundles_dir)
           | Some paths \<Rightarrow> Inr (take terminal_bundle_scan_limit
               (sort_key (\<lambda>p. - int (fv_bundle_modified V p)) (filter has_zip_extension paths)))))"

definition unzip_env_entry :: "sync_view \<Rightarrow> string \<Rightarrow> string \<Rightarrow> (string \<Rightarrow> string option) option" where
  "unzip_env_entry V bundle entry = map_option parse_task_env_content (fv_unzip V bundle entry)"

text \<open>The task a bundle ends, if it is one of those looked for and not found yet.\<close>

definition bundle_of :: "sync_view \<Rightarrow> string list \<Rightarrow> (string \<times> terminal_bundle) list \<Rightarrow> string \<Rightarrow> (string \<times> terminal_bundle) option" where
  "bundle_of V wanted found bundle =
     Option.bind (unzip_env_entry V bundle ''metadata/terminal-receipt.env'') (\<lambda>receipt.
     Option.bind (receipt ''TASK_ID'') (\<lambda>task_id.
     if task_id \<notin> set wanted \<or> map_of found task_id \<noteq> None then None
     else Option.bind (receipt ''OUTCOME'') (\<lambda>outcome.
       let status = task_record_status_from_task_flow_status outcome;
           bundle_env = (case unzip_env_entry V bundle ''metadata/bundle.env'' of None \<Rightarrow> Map.empty | Some e \<Rightarrow> e)
       in if task_record_terminal_status status = None then None
          else Some (task_id, \<lparr>tb_status = status,
            tb_duration_seconds = Option.bind (bundle_env ''TASK_DURATION_SECONDS'') parse_u64,
            tb_bundle_path = bundle\<rparr>))))"

fun scan_bundles ::
  "sync_view \<Rightarrow> string list \<Rightarrow> string list \<Rightarrow> (string \<times> terminal_bundle) list \<Rightarrow> (string \<times> terminal_bundle) list" where
  "scan_bundles V wanted [] found = found"
| "scan_bundles V wanted (bundle # rest) found =
     (if length found = length wanted then found
      else scan_bundles V wanted rest
        (case bundle_of V wanted found bundle of None \<Rightarrow> found | Some p \<Rightarrow> p # found))"

definition terminal_task_bundles_for_root ::
  "sync_view \<Rightarrow> string \<Rightarrow> string list \<Rightarrow> string + (string \<times> terminal_bundle) list" where
  "terminal_task_bundles_for_root V root wanted =
     (case terminal_bundle_candidates V root of
        Inl e \<Rightarrow> Inl e | Inr bundles \<Rightarrow> Inr (scan_bundles V wanted bundles []))"

definition wanted_by_root :: "task_record_row list \<Rightarrow> string list \<Rightarrow> (string \<times> string list) list" where
  "wanted_by_root records roots =
     (let needed = filter task_flow_record_needs_terminal_sync records;
          keys = map fst (fold (\<lambda>root. put_path False root ()) (List.map_filter tk_repo_root needed @ roots) [])
      in map (\<lambda>root. (root, remdups (map tk_id
           (filter (\<lambda>t. case tk_repo_root t of None \<Rightarrow> False | Some r \<Rightarrow> same_path r root) needed)))) keys)"

fun bundles_of_roots ::
  "sync_view \<Rightarrow> (string \<times> string list) list \<Rightarrow> (string \<times> terminal_bundle) list \<Rightarrow>
   string + (string \<times> terminal_bundle) list" where
  "bundles_of_roots V [] found = Inr found"
| "bundles_of_roots V ((root, wanted) # rest) found =
     (if wanted = [] then bundles_of_roots V rest found
      else (case terminal_task_bundles_for_root V root wanted of
          Inl e \<Rightarrow> Inl e | Inr here \<Rightarrow> bundles_of_roots V rest (here @ found)))"

definition terminal_task_bundles_for_records ::
  "sync_view \<Rightarrow> task_record_row list \<Rightarrow> string list \<Rightarrow> string + (string \<times> terminal_bundle) list" where
  "terminal_task_bundles_for_records V records roots = bundles_of_roots V (wanted_by_root records roots) []"

definition bundle_metadata ::
  "task_record_row \<Rightarrow> terminal_bundle \<Rightarrow> (string \<times> json) list \<Rightarrow> (string \<times> json) list \<times> nat" where
  "bundle_metadata t b m0 =
     (let m1 = (case strip_prefix ''task/'' (tk_id t) of
            None \<Rightarrow> m0 | Some slug \<Rightarrow> obj_insert ''task_slug'' (JString slug) m0);
          m2 = obj_insert ''kind'' (JString ''managed-task-flow'') m1;
          m3 = obj_insert ''task_terminal_bundle'' (JString (tb_bundle_path b)) m2;
          m4 = (case tb_duration_seconds b of
            None \<Rightarrow> m3 | Some d \<Rightarrow> obj_insert ''task_duration_seconds'' (json_nat d) m3);
          start = (case Option.bind (map_of m4 ''task_started_at'') json_as_u64 of
            None \<Rightarrow> tk_created_at t | Some n \<Rightarrow> n);
          m5 = obj_insert ''task_started_at'' (json_nat start) m4;
          finish = (case tb_duration_seconds b of
            None \<Rightarrow> max (tk_updated_at t) (tk_created_at t) | Some d \<Rightarrow> sat_add_u64 start d)
      in (obj_insert ''task_finished_at'' (json_nat finish) m5, finish))"

definition sync_task_flow_record_from_terminal_bundle ::
  "sync_view \<Rightarrow> task_record_row \<Rightarrow> terminal_bundle \<Rightarrow> (qdb, bool) prog" where
  "sync_task_flow_record_from_terminal_bundle V t b =
     (let (m, finish) = bundle_metadata t b (metadata_object V t) in
      if tk_status t = tb_status b \<and>
         (case Option.bind (tk_metadata_json t) (fv_parse V) of
            None \<Rightarrow> False | Some existing \<Rightarrow> task_flow_metadata_equivalent existing (JObject m))
      then ret False
      else seq (upsert_task_record (t\<lparr>tk_status := tb_status b, tk_updated_at := finish,
               tk_metadata_json := Some (fv_print V (JObject m))\<rparr>))
             (ret True))"

section \<open>All records\<close>

fun found_worktrees :: "sync_view \<Rightarrow> string list \<Rightarrow> (string \<times> string option) list \<Rightarrow> string + (string \<times> string option) list" where
  "found_worktrees V [] found = Inr found"
| "found_worktrees V (root # roots) found =
     (case task_flow_worktrees_for_repo V root of
        Inl e \<Rightarrow> Inl e
      | Inr worktrees \<Rightarrow> found_worktrees V roots (fold (\<lambda>w. put_path False w None) worktrees found))"

definition recorded_worktrees ::
  "sync_view \<Rightarrow> task_record_row list \<Rightarrow> (string \<times> string option) list \<Rightarrow> (string \<times> string option) list" where
  "recorded_worktrees V records found =
     fold (\<lambda>t found. if tk_source t \<noteq> ''task-flow'' then found
         else (case task_flow_worktree_for_record V t of
             None \<Rightarrow> found
           | Some worktree \<Rightarrow> put_path True worktree (task_record_terminal_status (tk_status t)) found))
       records found"

fun count_done :: "('a \<Rightarrow> (qdb, bool) prog) \<Rightarrow> 'a list \<Rightarrow> nat \<Rightarrow> (qdb, nat) prog" where
  "count_done f [] n = ret n"
| "count_done f (x # xs) n = bnd (f x) (\<lambda>b. count_done f xs (if b then n + 1 else n))"

definition sync_from_bundles ::
  "sync_view \<Rightarrow> (string \<times> terminal_bundle) list \<Rightarrow> task_record_row \<Rightarrow> (qdb, bool) prog" where
  "sync_from_bundles V bundles t =
     (if \<not> task_flow_record_needs_terminal_sync t then ret False
      else (case map_of bundles (tk_id t) of
          None \<Rightarrow> ret False
        | Some b \<Rightarrow> sync_task_flow_record_from_terminal_bundle V t b))"

definition sync_task_flow_records :: "sync_view \<Rightarrow> task_record_row list \<Rightarrow> (qdb, nat) prog" where
  "sync_task_flow_records V records =
     (let roots = task_flow_scan_roots V records in
      bnd (from_result (found_worktrees V roots [])) (\<lambda>found.
      bnd (count_done (\<lambda>(worktree, status_override). sync_task_flow_record_for_worktree V worktree status_override)
            (recorded_worktrees V records found) 0) (\<lambda>synced.
      bnd (from_result (terminal_task_bundles_for_records V records roots)) (\<lambda>bundles.
      count_done (sync_from_bundles V bundles) records synced))))"

section \<open>The agents table\<close>

definition load_agents :: "(qdb, agent_row list) prog" where
  "load_agents = query (\<lambda>db. sort_key (\<lambda>a. (ag_started_at a, ag_id a)) (db_agents db))"

definition insert_agent :: "agent_row \<Rightarrow> (qdb, unit) prog" where
  "insert_agent a = seq (sql_exec ''failed to insert agent'' (\<lambda>_. 1) (\<lambda>db. db\<lparr>db_agents := db_agents db @ [a]\<rparr>)) (ret ())"

section \<open>Sessions of agents without a task\<close>

definition codex_session_path_from_task_record :: "sync_view \<Rightarrow> task_record_row \<Rightarrow> string option" where
  "codex_session_path_from_task_record V t =
     Option.bind (Option.bind (tk_metadata_json t) (fv_parse V)) (json_str ''session_path'')"

definition claimed_codex_session_paths :: "sync_view \<Rightarrow> task_record_row list \<Rightarrow> string set" where
  "claimed_codex_session_paths V records = set (List.map_filter (codex_session_path_from_task_record V) records)"

definition should_skip_stale_codex_agent_import :: "task_record_row option \<Rightarrow> nat \<Rightarrow> nat \<Rightarrow> bool" where
  "should_skip_stale_codex_agent_import existing agent_started_at import_cutoff =
     (existing = None \<and> agent_started_at < import_cutoff)"

definition codex_record_cwd :: "string option \<Rightarrow> string option \<Rightarrow> string option" where
  "codex_record_cwd agent_cwd summary_cwd =
     coalesce agent_cwd (Option.bind summary_cwd (\<lambda>c. if trim c = [] then None else Some c))"

definition codex_import_matches_existing :: "task_record_row \<Rightarrow> task_record_row \<Rightarrow> bool" where
  "codex_import_matches_existing a b =
     (tk_source a = tk_source b \<and> tk_title a = tk_title b \<and> tk_description a = tk_description b \<and>
      tk_status a = tk_status b \<and> tk_repo_root a = tk_repo_root b \<and> tk_cwd a = tk_cwd b \<and>
      tk_agent_id a = tk_agent_id b \<and> tk_metadata_json a = tk_metadata_json b)"

text \<open>\<open>Path::starts_with\<close>: whole components.\<close>

definition path_starts_with :: "string \<Rightarrow> string \<Rightarrow> bool" where
  "path_starts_with path base =
     (let (a, ps) = path_components path; (b, bs) = path_components base in a = b \<and> take (length bs) ps = bs)"

definition repo_root_for_agent_cwd_from_repositories ::
  "sync_view \<Rightarrow> string option \<Rightarrow> string list \<Rightarrow> string option" where
  "repo_root_for_agent_cwd_from_repositories V cwd repos =
     Option.bind cwd (\<lambda>c0.
       let real = (\<lambda>p. case fv_canonicalize V p of None \<Rightarrow> p | Some q \<Rightarrow> q); c = real c0
       in find_map (\<lambda>repo. let root = real repo in
            if path_starts_with c root \<or> path_starts_with c (managed_root_for root) then Some root else None) repos)"

definition repo_root_for_agent_cwd :: "sync_view \<Rightarrow> string option \<Rightarrow> string option" where
  "repo_root_for_agent_cwd V cwd = repo_root_for_agent_cwd_from_repositories V cwd (fv_repositories V)"

definition find_codex_session_summary ::
  "sync_view \<Rightarrow> string \<Rightarrow> nat \<Rightarrow> string set \<Rightarrow> string option \<Rightarrow> string + codex_session_summary option" where
  "find_codex_session_summary V account agent_started_at claimed preferred_cwd =
     (case fv_account_root V account of
        Inl e \<Rightarrow> Inl e
      | Inr root \<Rightarrow> find_codex_session_summary_in_root (fv_session V) (fv_exists V) root agent_started_at claimed
          preferred_cwd)"

text \<open>The record for the session of an agent.\<close>

definition imported_agent_record ::
  "sync_view \<Rightarrow> agent_row \<Rightarrow> string \<Rightarrow> string \<Rightarrow> task_record_row option \<Rightarrow> codex_session_summary \<Rightarrow> task_record_row" where
  "imported_agent_record V a command account existing s =
     (let description = polish_task_text (cs_prompt s);
          title = (case existing of None \<Rightarrow> title_from_description description | Some t \<Rightarrow> tk_title t);
          record_id = (case existing of
            None \<Rightarrow> ''adhoc/'' @ show_nat (ag_started_at a) @ ''-'' @ slug_from_title title | Some t \<Rightarrow> tk_id t);
          status = (case existing of
            Some t \<Rightarrow> tk_status t
          | None \<Rightarrow> if cs_task_complete s \<or> \<not> fv_process_running V (ag_pid a) then ''closed:unknown'' else ''open'');
          source = (case existing of None \<Rightarrow> ''codex-session'' | Some t \<Rightarrow> tk_source t);
          cwd = codex_record_cwd (ag_cwd a) (cs_cwd s);
          repo_root = coalesce (repo_root_for_agent_cwd V cwd)
            (coalesce (Option.bind existing tk_repo_root) (fv_active_root V));
          metadata = json_object
            [(''kind'', JString ''codex-session-import''), (''agent_id'', JString (ag_id a)),
             (''track'', JString (ag_track a)), (''command'', JString command), (''codex_account'', JString account),
             (''session_path'', JString (cs_path s)), (''codex_thread_id'', json_or_null JString (cs_thread_id s)),
             (''codex_started_at'', json_or_null json_nat (cs_started_at s)),
             (''codex_cwd'', json_or_null JString (cs_cwd s)), (''token_usage'', json_or_null id (cs_token_usage s)),
             (''rate_limits'', json_or_null id (cs_rate_limits s)), (''task_complete'', JBool (cs_task_complete s))]
      in new_task_record (fv_now V) record_id source title
           (case existing of None \<Rightarrow> description | Some t \<Rightarrow> tk_description t) status repo_root cwd (Some (ag_id a))
           (Some (fv_print V metadata)))"

definition session_of_agent ::
  "sync_view \<Rightarrow> agent_row \<Rightarrow> string \<Rightarrow> task_record_row option \<Rightarrow> string set \<Rightarrow> string + codex_session_summary option" where
  "session_of_agent V a account existing claimed =
     (case Option.bind existing (codex_session_path_from_task_record V) of
        Some path \<Rightarrow> parse_codex_session_summary (fv_session V) path
      | None \<Rightarrow> find_codex_session_summary V account (ag_started_at a) claimed
          (coalesce (ag_cwd a) (coalesce (fv_active_root V) (fv_current_dir V))))"

text \<open>One agent: whether a record was written, and the sessions that are taken afterwards.\<close>

definition import_agent_session ::
  "sync_view \<Rightarrow> task_record_row list \<Rightarrow> nat \<Rightarrow> agent_row \<Rightarrow> string set \<Rightarrow> (qdb, bool \<times> string set) prog" where
  "import_agent_session V existing import_cutoff a claimed =
     (if is_queue_agent_track (ag_track a) then ret (False, claimed)
      else let command = agent_command_payload (ag_command a) in
        case codex_account_from_agent_command command of
          None \<Rightarrow> ret (False, claimed)
        | Some account \<Rightarrow>
            let mine = find (\<lambda>t. tk_agent_id t = Some (ag_id a)) existing in
            if should_skip_stale_codex_agent_import mine (ag_started_at a) import_cutoff then ret (False, claimed)
            else bnd (from_result (session_of_agent V a account mine claimed)) (\<lambda>summary. case summary of
                None \<Rightarrow> ret (False, claimed)
              | Some s \<Rightarrow>
                  if polish_task_text (cs_prompt s) = [] then ret (False, claimed)
                  else let t = imported_agent_record V a command account mine s in
                    if (case mine of None \<Rightarrow> False | Some row \<Rightarrow> codex_import_matches_existing row t)
                    then ret (False, claimed)
                    else bnd (upsert_task_record t) (\<lambda>stored. ret (True,
                      case codex_session_path_from_task_record V stored of
                        None \<Rightarrow> claimed | Some path \<Rightarrow> insert path claimed))))"

fun import_agent_sessions ::
  "sync_view \<Rightarrow> task_record_row list \<Rightarrow> nat \<Rightarrow> agent_row list \<Rightarrow> string set \<Rightarrow> nat \<Rightarrow> (qdb, nat) prog" where
  "import_agent_sessions V existing import_cutoff [] claimed synced = ret synced"
| "import_agent_sessions V existing import_cutoff (a # agents) claimed synced =
     bnd (import_agent_session V existing import_cutoff a claimed) (\<lambda>(written, claimed').
       import_agent_sessions V existing import_cutoff agents claimed' (if written then synced + 1 else synced))"

definition sync_codex_task_records :: "sync_view \<Rightarrow> (qdb, nat) prog" where
  "sync_codex_task_records V =
     bnd load_agents (\<lambda>agents.
     bnd (load_task_records None 1000) (\<lambda>before.
     bnd (sync_task_flow_records V before) (\<lambda>synced.
     bnd (load_task_records None 1000) (\<lambda>existing.
     import_agent_sessions V existing (codex_telemetry_retention_cutoff (fv_env V) (fv_now V)) agents
       (claimed_codex_session_paths V existing) synced))))"

section \<open>What a synchronisation may touch\<close>

text \<open>No task disappears, and the time of its creation stays.\<close>

definition tasks_kept :: "qdb \<Rightarrow> qdb \<Rightarrow> bool" where
  "tasks_kept db db' \<longleftrightarrow> (\<forall>a t. find_task a db = Some t \<longrightarrow>
     (\<exists>t'. find_task a db' = Some t' \<and> tk_created_at t' = tk_created_at t))"

definition synced :: "qdb \<Rightarrow> qdb \<Rightarrow> bool" where
  "synced db db' \<longleftrightarrow> task_inv db' \<and> same_but_tasks db db' \<and> tasks_kept db db'"

definition syncs_tasks :: "(qdb, 'a) prog \<Rightarrow> bool" where
  "syncs_tasks m \<longleftrightarrow> (\<forall>db. tabs_inv db \<and> task_inv db \<longrightarrow> synced db (snd (m db)))"

named_theorems syncs_intros

lemma tabs_inv_same_but_tasks:
  assumes "same_but_tasks db db'" and "tabs_inv db" and "schema_ok db'" shows "tabs_inv db'"
proof -
  have "db_tabs db' = db_tabs db"
    using arg_cong [OF assms(1) [unfolded same_but_tasks_def], of db_tabs] by simp
  then show ?thesis using tabs_inv_same_tabs [OF assms(2,3)] by blast
qed

lemma synced_refl: "task_inv db \<Longrightarrow> synced db db"
  by (simp add: synced_def tasks_kept_def)

lemma synced_trans: "synced a b \<Longrightarrow> synced b c \<Longrightarrow> synced a c"
  unfolding synced_def using same_but_tasks_trans by (fastforce simp: tasks_kept_def)

lemma syncs_ret [syncs_intros]: "syncs_tasks (ret x)"
  and syncs_throw [syncs_intros]: "syncs_tasks (throw e)"
  and syncs_query [syncs_intros]: "syncs_tasks (query f)"
  by (simp_all add: syncs_tasks_def synced_refl)

lemma syncs_bnd [syncs_intros]:
  assumes "syncs_tasks m" and "\<And>x. syncs_tasks (k x)" shows "syncs_tasks (bnd m k)"
  unfolding syncs_tasks_def
proof (intro allI impI)
  fix db assume inv: "tabs_inv db \<and> task_inv db"
  obtain res db1 where m: "m db = (res, db1)" by fastforce
  have one: "synced db db1" using assms(1) inv m unfolding syncs_tasks_def by (metis snd_conv)
  show "synced db (snd (bnd m k db))"
  proof (cases res)
    case (Inl e)
    then show ?thesis using one m by (simp add: run_bnd)
  next
    case (Inr x)
    have "tabs_inv db1"
      using one inv tabs_inv_same_but_tasks unfolding synced_def task_inv_def by blast
    then have "synced db1 (snd (k x db1))" using assms(2) one unfolding syncs_tasks_def synced_def by blast
    then show ?thesis using synced_trans [OF one] m Inr by (simp add: run_bnd)
  qed
qed

lemma syncs_from_result [syncs_intros]: "syncs_tasks (from_result r)"
  by (cases r) (simp_all add: from_result_def syncs_intros)

lemma syncs_upsert [syncs_intros]: "syncs_tasks (upsert_task_record t)"
  unfolding syncs_tasks_def
proof (intro allI impI, elim conjE)
  fix db assume "tabs_inv db" and inv: "task_inv db"
  obtain res db' where run: "upsert_task_record t db = (res, db')" by fastforce
  show "synced db (snd (upsert_task_record t db))"
  proof (cases res)
    case (Inl e)
    then have "db' = db" using run unfolding upsert_task_record_def by (auto dest: transaction_Inl)
    then show ?thesis using run inv by (simp add: synced_refl)
  next
    case (Inr stored)
    note run' = run [unfolded Inr]
    have "tk_created_at stored = tk_created_at row" if "find_task (tk_id t) db = Some row" for row
      using upsert_stored(5) [OF inv run' that] .
    then have "tasks_kept db db'"
      using upsert_task_result(3,4) [OF inv run'] unfolding tasks_kept_def by metis
    then show ?thesis using run upsert_task_result(1) [OF inv run'] upsert_stored(1) [OF inv run'] by (simp add: synced_def)
  qed
qed

lemma syncs_if [syncs_intros]: "syncs_tasks m \<Longrightarrow> syncs_tasks k \<Longrightarrow> syncs_tasks (if c then m else k)"
  and syncs_option [syncs_intros]:
    "syncs_tasks m \<Longrightarrow> (\<And>y. syncs_tasks (g y)) \<Longrightarrow> syncs_tasks (case v of None \<Rightarrow> m | Some y \<Rightarrow> g y)"
  and syncs_pair [syncs_intros]: "(\<And>y z. syncs_tasks (h y z)) \<Longrightarrow> syncs_tasks (case p of (y, z) \<Rightarrow> h y z)"
  by (auto split: option.splits prod.splits)

lemma syncs_live_slug [syncs_intros]: "syncs_tasks (live_web_queue_item_slug V slug)"
  unfolding syncs_tasks_def live_web_queue_item_slug_def load_web_queue_items_def
  by (auto simp: run_bnd ensure_noop synced_refl)

lemma syncs_worktree [syncs_intros]: "syncs_tasks (sync_task_flow_record_for_worktree V worktree status_override)"
  unfolding sync_task_flow_record_for_worktree_def Let_def live_web_queue_task_def get_task_record_def
    write_worktree_record_def
  by (intro syncs_intros)

lemma syncs_bundle [syncs_intros]: "syncs_tasks (sync_from_bundles V bundles t)"
  unfolding sync_from_bundles_def sync_task_flow_record_from_terminal_bundle_def Let_def
  by (intro syncs_intros)

lemma syncs_count [syncs_intros]: "(\<And>x. syncs_tasks (f x)) \<Longrightarrow> syncs_tasks (count_done f xs n)"
  by (induction xs arbitrary: n) (simp_all add: syncs_intros)

lemma syncs_records [syncs_intros]: "syncs_tasks (sync_task_flow_records V records)"
  unfolding sync_task_flow_records_def Let_def by (intro syncs_intros)

lemma syncs_agent [syncs_intros]: "syncs_tasks (import_agent_session V existing cutoff a claimed)"
  unfolding import_agent_session_def Let_def by (intro syncs_intros)

lemma syncs_agents [syncs_intros]: "syncs_tasks (import_agent_sessions V existing cutoff agents claimed n)"
  by (induction agents arbitrary: claimed n) (auto intro!: syncs_intros split: prod.splits)


definition sample_worktree_env :: string where
  "sample_worktree_env = join_with [CHR 0x0A] [''TASK_ID=task/slug-a'', ''TASK_NAME=slug-a'', ''STATUS=open'']"

definition sample_sync_view :: sync_view where
  "sample_sync_view =
     \<lparr>fv_store = sample_env, fv_print = (\<lambda>_. ''{}''), fv_env = (\<lambda>_. None),
      fv_session = \<lparr>sv_parse = (\<lambda>_. None), sv_files = (\<lambda>_. Inr []), sv_is_dir = (\<lambda>_. False),
        sv_is_file = (\<lambda>p. p = ''/WT/repo/a/.task/task.env''),
        sv_read = (\<lambda>p. if p = ''/WT/repo/a/.task/task.env'' then Inr sample_worktree_env else Inl ''not found''),
        sv_modified = (\<lambda>_. None)\<rparr>,
      fv_session_roots = Inr [], fv_account_root = (\<lambda>_. Inl ''no home''), fv_exists = (\<lambda>_. False),
      fv_dir = (\<lambda>p. if p = ''/WT/repo'' then DirEntries [Some ''/WT/repo/a''] else DirMissing),
      fv_unzip = (\<lambda>_ _. None), fv_bundle_modified = (\<lambda>_. 0), fv_active_root = Some ''/repo'',
      fv_current_dir = None, fv_canonicalize = (\<lambda>p. Some p), fv_repositories = [], fv_process_running = (\<lambda>_. False)\<rparr>"

lemma sample_db_task_inv: "task_inv sample_db"
  using sample_db_ok
  by (simp add: task_inv_def numbers_ahead_def counters_range_def counter_of_def sample_db_def empty_db_def)


section \<open>A second synchronisation\<close>

text \<open>Changes of an object that set some keys to values and remove others, whatever the object.\<close>

definition patch :: "(string \<Rightarrow> json option option) \<Rightarrow> (string \<Rightarrow> json option) \<Rightarrow> string \<Rightarrow> json option" where
  "patch p \<mu> k = (case p k of None \<Rightarrow> \<mu> k | Some v \<Rightarrow> v)"

definition patches :: "((string \<times> json) list \<Rightarrow> (string \<times> json) list) \<Rightarrow> bool" where
  "patches f \<longleftrightarrow> (\<exists>p. \<forall>m. map_of (f m) = patch p (map_of m))"

named_theorems patches_intros

lemma patches_id [patches_intros]: "patches (\<lambda>m. m)"
  unfolding patches_def by (rule exI [of _ "\<lambda>_. None"]) (simp add: patch_def fun_eq_iff)

lemma patches_insert [patches_intros]: "patches f \<Longrightarrow> patches (\<lambda>m. obj_insert k v (f m))"
  unfolding patches_def map_of_obj_insert
proof (elim exE)
  fix p assume "\<forall>m. map_of (f m) = patch p (map_of m)"
  then show "\<exists>q. \<forall>m. (map_of (f m))(k \<mapsto> v) = patch q (map_of m)"
    by (intro exI [of _ "p(k \<mapsto> Some v)"]) (simp add: patch_def fun_eq_iff)
qed

lemma patches_remove [patches_intros]: "patches f \<Longrightarrow> patches (\<lambda>m. obj_remove k (f m))"
  unfolding patches_def map_of_obj_remove
proof (elim exE)
  fix p assume "\<forall>m. map_of (f m) = patch p (map_of m)"
  then show "\<exists>q. \<forall>m. (map_of (f m))(k := None) = patch q (map_of m)"
    by (intro exI [of _ "p(k \<mapsto> None)"]) (simp add: patch_def fun_eq_iff)
qed

lemma patches_if [patches_intros]: "patches f \<Longrightarrow> patches g \<Longrightarrow> patches (\<lambda>m. if c then f m else g m)"
  by (cases c) simp_all

lemma patches_option [patches_intros]:
  "patches f \<Longrightarrow> (\<And>y. patches (g y)) \<Longrightarrow> patches (\<lambda>m. case v of None \<Rightarrow> f m | Some y \<Rightarrow> g y m)"
  by (cases v) simp_all

lemma patches_twice: "patches f \<Longrightarrow> map_of (f (f m)) = map_of (f m)"
proof -
  assume "patches f"
  then obtain p where p: "\<And>m. map_of (f m) = patch p (map_of m)" unfolding patches_def by blast
  have "patch p (patch p \<mu>) = patch p \<mu>" for \<mu> by (simp add: patch_def fun_eq_iff split: option.splits)
  then show ?thesis by (simp add: p)
qed

lemma patches_flow: "patches (flow_metadata worktree slug is_live start finish suppress)"
  unfolding flow_metadata_def Let_def by (intro patches_intros)

lemma patches_after_flow:
  "patches (\<lambda>m. telemetry_metadata V t start finish (flow_metadata worktree slug is_live start finish suppress m))"
  "patches (\<lambda>m. remove_codex_task_metadata (flow_metadata worktree slug is_live start finish suppress m))"
  using patches_flow unfolding telemetry_metadata_def remove_codex_task_metadata_def Let_def
  by (cases "ct_session_paths t"; simp; intro patches_intros; assumption)+

lemma sorted_task_metadata:
  assumes "sorted_object m0"
  shows "sorted_object (task_metadata V worktree slug is_live start finish suppress telemetry m0)"
proof -
  have "sorted_object (flow_metadata worktree slug is_live start finish suppress m0)"
    using assms by (simp add: flow_metadata_def Let_def sorted_obj_insert sorted_obj_remove split: option.splits)
  then show ?thesis
    by (cases telemetry; cases suppress;
        simp add: task_metadata_def telemetry_metadata_def remove_codex_task_metadata_def Let_def sorted_obj_insert
          sorted_obj_remove split: list.splits)
qed

lemma session_path_cases:
  "map_of (flow_metadata worktree slug is_live start finish suppress m) ''session_path'' = map_of m ''session_path''"
  "map_of (remove_codex_task_metadata m) ''session_path'' = None"
  by (simp_all add: flow_metadata_def remove_codex_task_metadata_def Let_def map_of_obj_insert map_of_obj_remove
      split: option.splits)

lemma matches_by_path:
  "map_of a ''session_path'' = map_of b ''session_path'' \<Longrightarrow>
     metadata_session_path_matches_worktree V a worktree = metadata_session_path_matches_worktree V b worktree"
  "map_of a ''session_path'' = None \<Longrightarrow> \<not> metadata_session_path_matches_worktree V a worktree"
  by (simp_all add: metadata_session_path_matches_worktree_def)

lemma metadata_again:
  assumes "sorted_object m0" and f_def: "f = task_metadata V worktree slug is_live start finish suppress telemetry"
  shows "f (f m0) = f m0"
proof (rule sorted_object_eqI)
  show "sorted_object (f m0)" "sorted_object (f (f m0))"
    using assms(1) by (simp_all add: f_def sorted_task_metadata)
  let ?flow = "flow_metadata worktree slug is_live start finish suppress"
  show "map_of (f (f m0)) = map_of (f m0)"
  proof (cases telemetry)
    case (Some t)
    then show ?thesis using patches_twice [OF patches_after_flow(1)] by (simp add: f_def task_metadata_def Let_def)
  next
    case none: None
    show ?thesis
    proof (cases "suppress \<or> \<not> metadata_session_path_matches_worktree V (?flow m0) worktree")
      case True
      then have one: "f m0 = remove_codex_task_metadata (?flow m0)"
        by (auto simp: f_def task_metadata_def none Let_def)
      have "\<not> metadata_session_path_matches_worktree V (?flow (f m0)) worktree"
        by (rule matches_by_path(2)) (simp add: session_path_cases one)
      then have "f (f m0) = remove_codex_task_metadata (?flow (f m0))" by (simp add: f_def task_metadata_def none Let_def)
      then show ?thesis using patches_twice [OF patches_after_flow(2)] unfolding one by simp
    next
      case False
      then have one: "f m0 = ?flow m0" by (cases suppress) (simp_all add: f_def task_metadata_def none Let_def)
      have "metadata_session_path_matches_worktree V (?flow (f m0)) worktree"
        using False matches_by_path(1) [of "?flow (f m0)" "?flow m0"] unfolding one session_path_cases by blast
      then have "f (f m0) = ?flow (f m0)"
        using False by (cases suppress) (simp_all add: f_def task_metadata_def none Let_def)
      then show ?thesis using patches_twice [OF patches_flow] unfolding one by simp
    qed
  qed
qed

text \<open>
  What \<open>serde_json\<close> promises: an object it prints is read back as it was, and the keys of an object
  it reads are in order.
\<close>

definition json_texts_ok :: "sync_view \<Rightarrow> bool" where
  "json_texts_ok V \<longleftrightarrow>
     (\<forall>m. sorted_object m \<longrightarrow> fv_parse V (fv_print V (JObject m)) = Some (JObject m)) \<and>
     (\<forall>s m. fv_parse V s = Some (JObject m) \<longrightarrow> sorted_object m)"

definition queue_owned :: "sync_view \<Rightarrow> (string \<times> json) list \<Rightarrow> bool \<Rightarrow> string option \<Rightarrow> qdb \<Rightarrow> bool" where
  "queue_owned V metadata task_is_live task_slug db =
     (task_is_live \<and> (Option.bind (map_of metadata ''opened_by'') json_as_str = Some ''web-queue'' \<or>
       (case task_slug of None \<Rightarrow> False
        | Some slug \<Rightarrow> list_ex (\<lambda>i. qi_slug i = slug \<and> qi_status i \<noteq> ItemSuccess) (shown_items db))))"

lemma run_live_task:
  "tabs_inv db \<Longrightarrow>
     live_web_queue_task V metadata is_live slug db = (Inr (queue_owned V metadata is_live slug db), db)"
  by (auto simp: live_web_queue_task_def queue_owned_def live_web_queue_item_slug_def run_load_items
      split: option.splits)

lemma sorted_metadata_object:
  assumes "json_texts_ok V" shows "sorted_object (metadata_object V t)"
proof (cases "Option.bind (tk_metadata_json t) (fv_parse V)")
  case None
  then show ?thesis by (simp add: metadata_object_def sorted_object_def)
next
  case (Some v)
  then obtain s where s: "fv_parse V s = Some v" by (cases "tk_metadata_json t") auto
  have "sorted_object m" if "v = JObject m" for m
    using assms s that unfolding json_texts_ok_def by blast
  then show ?thesis
    by (cases v) (simp_all add: metadata_object_def Some json_as_object_def sorted_object_def)
qed

lemma run_sync_worktree:
  assumes "tabs_inv db" and "parse_task_env_file V (task_env_path worktree) = Inr env" and "env ''TASK_ID'' = Some record_id"
    and "t = (case find_task record_id db of None \<Rightarrow> record_from_task_env V worktree env record_id | Some row \<Rightarrow> row)"
    and "s = queue_owned V (metadata_object V t) (env_task_is_live env) (strip_prefix ''task/'' record_id) db"
  shows "sync_task_flow_record_for_worktree V worktree status_override db =
    (case task_telemetry V worktree env record_id t s of
       Inl e \<Rightarrow> (Inl (Bail e), db)
     | Inr telemetry \<Rightarrow> write_worktree_record V worktree env record_id status_override t s telemetry db)"
  using assms(1-3)
  by (simp add: sync_task_flow_record_for_worktree_def from_result_def run_bnd get_task_record_def run_live_task
      assms(4,5) Let_def split: sum.splits)

lemma queue_owned_again:
  assumes "shown_items db' = shown_items db"
    and "map_of m ''opened_by'' = (if queue_owned V m0 is_live slug db then Some (JString ''web-queue'') else map_of m0 ''opened_by'')"
  shows "queue_owned V m is_live slug db' = queue_owned V m0 is_live slug db"
proof (cases "queue_owned V m0 is_live slug db")
  case True
  then show ?thesis using assms(2) by (simp add: queue_owned_def json_as_str_def)
next
  case False
  then have "map_of m ''opened_by'' = map_of m0 ''opened_by''" using assms(2) by simp
  then show ?thesis by (simp only: queue_owned_def assms(1))
qed

lemma opened_by_kept:
  "map_of (task_metadata V worktree slug is_live start finish suppress telemetry m0) ''opened_by'' =
     (if suppress then Some (JString ''web-queue'') else map_of m0 ''opened_by'')"
proof -
  have "map_of (flow_metadata worktree slug is_live start finish suppress m0) ''opened_by'' =
      (if suppress then Some (JString ''web-queue'') else map_of m0 ''opened_by'')"
    by (simp add: flow_metadata_def Let_def map_of_obj_insert map_of_obj_remove split: option.splits)
  then show ?thesis
    by (cases telemetry; cases suppress)
       (simp_all add: task_metadata_def telemetry_metadata_def remove_codex_task_metadata_def Let_def map_of_obj_insert
        map_of_obj_remove split: list.splits)
qed

lemma shown_items_same: "same_but_tasks db db' \<Longrightarrow> shown_items db' = shown_items db"
proof -
  assume same: "same_but_tasks db db'"
  have "db_items db' = db_items db" "db_tabs db' = db_tabs db"
    using arg_cong [OF same [unfolded same_but_tasks_def], of db_items]
      arg_cong [OF same [unfolded same_but_tasks_def], of db_tabs] by simp_all
  then show ?thesis by (simp add: shown_items_def)
qed

text \<open>What a record that was written for a worktree looks like.\<close>

lemma written_worktree_record:
  assumes inv: "task_inv db"
    and t: "t = (case find_task record_id db of None \<Rightarrow> record_from_task_env V worktree env record_id | Some row \<Rightarrow> row)"
    and new: "t' = record_of_worktree worktree env status_override t"
    and run: "upsert_task_record (t'\<lparr>tk_metadata_json := Some j, tk_updated_at := now\<rparr>) db = (Inr stored, db')"
  shows "find_task record_id db' = Some stored" and "tk_metadata_json stored = Some j"
    and "tk_created_at stored = tk_created_at t"
    and "record_of_worktree worktree env status_override stored = stored"
proof -
  let ?r = "t'\<lparr>tk_metadata_json := Some j, tk_updated_at := now\<rparr>"
  have "tk_id t = record_id"
    unfolding t by (auto simp: record_from_task_env_def new_task_record_def Let_def find_task_def
        dest: find_Some_set split: option.splits)
  then have id: "tk_id ?r = record_id" by (simp add: new record_of_worktree_def)
  note s = upsert_stored [OF inv run]
  show "find_task record_id db' = Some stored" using upsert_task_result(3) [OF inv run] id by simp
  show "tk_metadata_json stored = Some j" by (rule s(8)) simp
  show "tk_created_at stored = tk_created_at t"
    using s(5,6) id by (cases "find_task record_id db") (simp_all add: t new record_of_worktree_def)
  have cwd: "tk_cwd stored = Some worktree" by (rule s(7)) (simp add: new record_of_worktree_def)
  have "joined_repo ?r db = tk_repo_root t'"
    using id unfolding joined_repo_def
    by (cases "find_task record_id db")
       (simp_all add: new record_of_worktree_def t coalesce_def split: option.splits)
  then have "tk_repo_root stored = coalesce (env ''PRIMARY_REPO_PATH'') (tk_repo_root t)"
    using upsert_task_result(6) [OF inv run] by (simp add: new record_of_worktree_def)
  moreover have "tk_status stored = tk_status t'" using s(2) by simp
  ultimately show "record_of_worktree worktree env status_override stored = stored"
    using cwd by (cases stored) (auto simp: record_of_worktree_def new coalesce_def split: option.splits)
qed

lemma sync_after_write:
  assumes inv: "tabs_inv db" "task_inv db" and json: "json_texts_ok V"
    and env: "parse_task_env_file V (task_env_path worktree) = Inr env" "env ''TASK_ID'' = Some record_id"
    and t: "t = (case find_task record_id db of None \<Rightarrow> record_from_task_env V worktree env record_id | Some row \<Rightarrow> row)"
    and s: "s = queue_owned V (metadata_object V t) (env_task_is_live env) (strip_prefix ''task/'' record_id) db"
    and tel: "task_telemetry V worktree env record_id t s = Inr telemetry"
    and f: "f = task_metadata V worktree (strip_prefix ''task/'' record_id) (env_task_is_live env) (task_start env t)
      (task_finish V env) s telemetry"
    and m: "m = f (metadata_object V t)"
    and up: "upsert_task_record ((record_of_worktree worktree env status_override t)
      \<lparr>tk_metadata_json := Some (fv_print V (JObject m)), tk_updated_at := now\<rparr>) db = (Inr stored, db')"
  shows "sync_task_flow_record_for_worktree V worktree status_override db' = (Inr False, db')"
proof -
  note st = written_worktree_record [OF inv(2) t refl up]
  have same: "same_but_tasks db db'" by (rule upsert_stored(1) [OF inv(2) up])
  have inv': "tabs_inv db'"
    using tabs_inv_same_but_tasks [OF same inv(1)] upsert_task_result(1) [OF inv(2) up] by (simp add: task_inv_def)
  have sorted: "sorted_object (metadata_object V t)" by (rule sorted_metadata_object [OF json])
  then have "sorted_object m" by (simp add: m f sorted_task_metadata)
  then have parsed: "fv_parse V (fv_print V (JObject m)) = Some (JObject m)" using json by (simp add: json_texts_ok_def)
  then have meta: "metadata_object V stored = m" by (simp add: metadata_object_def st(2) json_as_object_def)
  have again: "f m = m" unfolding m by (rule metadata_again [OF sorted f])
  have start: "task_start env stored = task_start env t" by (simp only: task_start_def st(3))
  have owned: "queue_owned V (metadata_object V stored) (env_task_is_live env) (strip_prefix ''task/'' record_id) db' = s"
    unfolding s meta
    by (rule queue_owned_again [OF shown_items_same [OF same]]) (simp add: m f opened_by_kept s)
  have "task_telemetry V worktree env record_id stored s = Inr telemetry"
    using tel unfolding task_telemetry_def start .
  moreover have "record_unchanged V stored stored m"
    by (simp add: record_unchanged_def st(2) parsed task_flow_metadata_equivalent_def)
  then have "write_worktree_record V worktree env record_id status_override stored s telemetry db' = (Inr False, db')"
    using again by (simp add: write_worktree_record_def st(4) meta start f)
  ultimately show ?thesis
    using run_sync_worktree [OF inv' env, of stored s] st(1) owned by simp
qed


text \<open>A text for every value, and the reader that belongs to it.\<close>

instance json :: countable
  by countable_datatype

definition sample_print :: "json \<Rightarrow> string" where
  "sample_print v = replicate (to_nat v) (CHR ''x'')"

definition sample_parse :: "string \<Rightarrow> json option" where
  "sample_parse s = (case from_nat (length s) of
     JObject m \<Rightarrow> if sorted_object m then Some (JObject m) else None | v \<Rightarrow> Some v)"

definition sample_json_view :: sync_view where
  "sample_json_view = sample_sync_view\<lparr>fv_store := \<lparr>se_now = 50, se_parse_json = sample_parse\<rparr>, fv_print := sample_print\<rparr>"

lemma sample_json_ok: "json_texts_ok sample_json_view"
  unfolding json_texts_ok_def
  by (auto simp: sample_json_view_def fv_parse_def sample_parse_def sample_print_def split: json.splits if_splits)

lemma sample_env_values:
  "parse_task_env_file sample_json_view (task_env_path ''/WT/repo/a'') = Inr (parse_task_env_content sample_worktree_env)"
  "parse_task_env_content sample_worktree_env ''TASK_ID'' = Some ''task/slug-a''"
  "parse_task_env_content sample_worktree_env ''STATUS'' = Some ''open''"
  "parse_task_env_content sample_worktree_env ''PRIMARY_REPO_PATH'' = None"
  "parse_task_env_content sample_worktree_env ''TASK_SEQUENCE'' = None"
  "parse_task_env_content sample_worktree_env ''TASK_EXECUTION_ANCHOR'' = None"
proof -
  have "task_env_path ''/WT/repo/a'' = ''/WT/repo/a/.task/task.env''" by code_simp
  then show "parse_task_env_file sample_json_view (task_env_path ''/WT/repo/a'') = Inr (parse_task_env_content sample_worktree_env)"
    by (simp add: parse_task_env_file_def sample_json_view_def sample_sync_view_def)
qed (code_simp+)

definition sample_env_record :: task_record_row where
  "sample_env_record = record_from_task_env sample_json_view ''/WT/repo/a'' (parse_task_env_content sample_worktree_env) ''task/slug-a''"

lemma sample_first_write:
  "\<exists>stored db'. upsert_task_record (sample_env_record\<lparr>tk_metadata_json := j, tk_updated_at := 50\<rparr>) sample_db = (Inr stored, db')"
proof -
  let ?t = "sample_env_record\<lparr>tk_metadata_json := j, tk_updated_at := 50\<rparr>"
  have fields: "tk_id ?t = ''task/slug-a''" "tk_repo_root ?t = None" "tk_sequence ?t = None" "tk_source ?t = ''task-flow''"
    "tk_created_at ?t = 50"
    by (simp_all add: sample_env_record_def record_from_task_env_def new_task_record_def Let_def sample_env_values
        coalesce_def fv_now_def sample_json_view_def)
  have none: "find_task ''task/slug-a'' sample_db = None" by (simp add: find_task_def sample_db_def empty_db_def)
  have row: "upserted_record ?t None None None = ?t"
    using fields by (simp add: upserted_record_def coalesce_def split: option.splits)
  have tasks: "db_tasks sample_db = []" by (simp add: sample_db_def empty_db_def)
  have "schema_ok (sample_db\<lparr>db_tasks := [?t]\<rparr>)"
    using sample_db_ok by (simp add: schema_parts sample_db_def empty_db_def task_sequence_key_def fields tab_run_ok_def)
  moreover have "storable_numbers ?t" using fields by (simp add: storable_numbers_def i64_max_def)
  moreover have "upsert_by tk_id merge_task ?t [] = [?t]" by (simp add: upsert_by_def)
  moreover have "find_task ''task/slug-a'' (sample_db\<lparr>db_tasks := [?t]\<rparr>) = Some ?t" using fields by (simp add: find_task_def)
  ultimately show ?thesis
    by (simp add: upsert_task_record_def fields none Let_def run_bnd transaction_def coalesce_def row tasks
        task_record_sequence_for_upsert_def source_uses_task_sequence_def advance_task_sequence_counter_for_record_def
        store_task_def run_sql_exec)
qed

lemma sample_sync_writes:
  "\<exists>db'. sync_task_flow_record_for_worktree sample_json_view ''/WT/repo/a'' None sample_db = (Inr True, db')"
proof -
  let ?env = "parse_task_env_content sample_worktree_env" and ?V = sample_json_view
  have none: "find_task ''task/slug-a'' sample_db = None" by (simp add: find_task_def sample_db_def empty_db_def)
  have fresh: "tk_metadata_json sample_env_record = None"
    by (simp add: sample_env_record_def record_from_task_env_def new_task_record_def Let_def)
  have live: "env_task_is_live ?env" by (simp add: env_task_is_live_def sample_env_values)
  have "shown_items sample_db = [sample_item ''a'' 0, sample_item ''b'' 1]"
    by (simp add: shown_items_def sample_db_def sample_item_def)
  then have owned: "queue_owned ?V (metadata_object ?V sample_env_record) True (Some ''slug-a'') sample_db"
    by (simp add: queue_owned_def sample_item_def)
  have new: "record_of_worktree ''/WT/repo/a'' ?env None sample_env_record = sample_env_record"
    by (simp add: record_of_worktree_def sample_env_values sample_env_record_def record_from_task_env_def
        new_task_record_def Let_def coalesce_def task_record_status_from_task_flow_status_def)
  obtain j where j: "j = Some (fv_print ?V (JObject (task_metadata ?V ''/WT/repo/a'' (Some ''slug-a'') True
      (task_start ?env sample_env_record) (task_finish ?V ?env) True None (metadata_object ?V sample_env_record))))"
    by blast
  obtain stored db' where up: "upsert_task_record (sample_env_record\<lparr>tk_metadata_json := j, tk_updated_at := 50\<rparr>) sample_db =
      (Inr stored, db')"
    using sample_first_write by blast
  have now: "fv_now ?V = 50" by (simp add: fv_now_def sample_json_view_def)
  have "write_worktree_record ?V ''/WT/repo/a'' ?env ''task/slug-a'' None sample_env_record True None sample_db = (Inr True, db')"
    using up by (simp add: write_worktree_record_def new live record_unchanged_def fresh run_bnd j now)
  moreover have "task_telemetry ?V ''/WT/repo/a'' ?env ''task/slug-a'' sample_env_record True = Inr None"
    by (simp add: task_telemetry_def)
  ultimately show ?thesis
    using run_sync_worktree [OF sample_db_inv sample_env_values(1,2), of sample_env_record True] none owned live
    by (simp add: sample_env_record_def)
qed


end
