(* ===== verification/Queue_Reconcile.thy ===== *)
theory Queue_Reconcile
  imports Queue_Worker
begin

text \<open>
  Reconciling a run with the evidence about its items (\<open>queue_worker.rs\<close>,
  \<open>queue_worker_reconcile.rs\<close>, \<open>queue_worker_reconcile_status.rs\<close>): what the loop of a run does to
  each item before it looks for work, and what a daemon does to runs that have no worker.

  The invariants these programs keep are stated once, in the locale \<open>worker_invariant\<close>.
\<close>

section \<open>Without a task record\<close>

definition verdict_of_outcome :: "queue_item_row \<Rightarrow> queue_item_outcome \<Rightarrow> run_verdict \<Rightarrow> run_verdict" where
  "verdict_of_outcome i outcome verdict =
     (case outcome of
        OutFailed message _ \<Rightarrow> or_insert verdict (RunFailed, qi_position i, message)
      | _ \<Rightarrow> verdict)"

definition reconcile_queue_item_without_task_record ::
  "queue_world \<Rightarrow> string \<Rightarrow> queue_item_row \<Rightarrow> queue_status_reduction \<Rightarrow> run_verdict \<Rightarrow>
   (qdb, bool option \<times> run_verdict) prog" where
  "reconcile_queue_item_without_task_record W run_id i red verdict =
     (case red_action red of
        ActBoundedRelaunch \<Rightarrow>
          bnd (bounded_queue_item_relaunch W run_id i (queue_launch_failed_before_record_message i) (qi_attempts i))
            (\<lambda>outcome. ret (Some True, verdict_of_outcome i outcome verdict))
      | ActRefreshEvidence \<Rightarrow>
          bnd (if item_is_starting_or_running (qi_status i)
               then update_queue_item_status_sync_unavailable_wait W run_id i (qi_agent_id i) (qi_attempts i)
                      (red_reason red)
               else ret None) (\<lambda>_. ret (Some False, verdict))
      | _ \<Rightarrow> ret (None, verdict))"

definition queue_agent_failure_message :: "queue_world \<Rightarrow> queue_item_row \<Rightarrow> string \<Rightarrow> string option" where
  "queue_agent_failure_message W i a =
     (if \<not> item_is_starting_or_running (qi_status i) then None
      else if queue_item_remote_native i then None
      else if \<not> agent_running W a then Some agent_exited_before_closeout
      else if agent_terminal_closeout_failed W a then Some agent_failed_qcold_closeout
      else None)"

definition remote_native_retry_running_message :: string where
  "remote_native_retry_running_message = ''remote-native retry is still running after failed closeout''"

definition reconcile_remote_native_retry :: "queue_world \<Rightarrow> string \<Rightarrow> queue_item_row \<Rightarrow> (qdb, bool) prog" where
  "reconcile_remote_native_retry W run_id i =
     (if \<not> item_is_failed_or_blocked (qi_status i) then ret False
      else case qi_agent_id i of
        None \<Rightarrow> ret False
      | Some a \<Rightarrow>
          if \<not> remote_native_retry_session_running W i then ret False
          else seq (update_web_queue_item (qw_store W) run_id (qi_id i) ItemRunning
                      remote_native_retry_running_message (Some a) (qi_attempts i) None) (ret True))"

section \<open>The fallback on the row itself\<close>

definition close_successful_agent :: "queue_world \<Rightarrow> string \<Rightarrow> queue_item_row \<Rightarrow> run_verdict \<Rightarrow> (qdb, bool \<times> run_verdict) prog" where
  "close_successful_agent W run_id i verdict =
     (if qi_status i = ItemSuccess \<and> agent_still_running W i
      then seq (update_successful_queue_item W run_id i (qi_agent_id i) (qi_attempts i)) (ret (True, verdict))
      else ret (False, verdict))"

definition recover_failed_agent :: "queue_world \<Rightarrow> string \<Rightarrow> queue_item_row \<Rightarrow> run_verdict \<Rightarrow> (qdb, bool \<times> run_verdict) prog" where
  "recover_failed_agent W run_id i verdict =
     (case Option.bind (qi_agent_id i) (queue_agent_failure_message W i) of
        None \<Rightarrow> close_successful_agent W run_id i verdict
      | Some message \<Rightarrow>
          bnd (schedule_queue_item_auto_recovery W run_id i message) (\<lambda>scheduled.
            if scheduled then ret (True, verdict)
            else seq (update_web_queue_item (qw_store W) run_id (qi_id i) ItemFailed message (qi_agent_id i)
                        (qi_attempts i) None)
                   (ret (True, or_insert verdict (RunFailed, qi_position i, message)))))"

definition reconcile_queue_item_fallback_status ::
  "queue_world \<Rightarrow> string \<Rightarrow> queue_item_row \<Rightarrow> run_verdict \<Rightarrow> (qdb, bool \<times> run_verdict) prog" where
  "reconcile_queue_item_fallback_status W run_id i verdict =
     (let failed = item_is_failed_or_blocked (qi_status i)
      in if failed \<and> queue_failure_message_launch_recoverable (qi_message i)
         then bnd (bounded_queue_item_relaunch W run_id i (queue_launch_failed_before_record_message i) (qi_attempts i))
                (\<lambda>outcome. ret (True, verdict_of_outcome i outcome verdict))
         else bnd (if failed \<and> queue_failure_message_auto_recoverable (qi_message i)
                   then schedule_queue_item_auto_recovery W run_id i (qi_message i)
                   else ret False) (\<lambda>scheduled.
                if scheduled then ret (True, verdict) else recover_failed_agent W run_id i verdict))"

section \<open>A pass over the items\<close>

datatype queue_reconcile = RecUnchanged | RecChanged | RecTerminal

definition reconcile_by_evidence ::
  "queue_world \<Rightarrow> string \<Rightarrow> queue_item_row \<Rightarrow> queue_status_evidence \<Rightarrow> queue_status_reduction \<Rightarrow>
   bool \<Rightarrow> run_verdict \<Rightarrow> (qdb, bool \<times> bool \<times> run_verdict) prog" where
  "reconcile_by_evidence W run_id i e red changed verdict =
     (case ev_task_status e of
        Some status \<Rightarrow> execute_queue_status_reduction W run_id i status e red changed verdict
      | None \<Rightarrow>
          bnd (reconcile_queue_item_without_task_record W run_id i red verdict) (\<lambda>(item_changed, v).
            case item_changed of
              Some c \<Rightarrow> ret (True, changed \<or> c, v)
            | None \<Rightarrow> ret (False, changed, v)))"

definition reconcile_queue_item ::
  "queue_world \<Rightarrow> string \<Rightarrow> queue_item_row \<Rightarrow> bool \<times> run_verdict \<Rightarrow> (qdb, bool \<times> run_verdict) prog" where
  "reconcile_queue_item W run_id i = (\<lambda>(changed, verdict).
     bnd (collect_queue_status_evidence_for_item W run_id i) (\<lambda>e.
       let red = reduce_queue_status e in
       bnd (reconcile_by_evidence W run_id i e red changed verdict) (\<lambda>(handled, changed', verdict').
         if handled then ret (changed', verdict')
         else bnd (reconcile_remote_native_retry W run_id i) (\<lambda>retry.
                if retry then ret (True, verdict')
                else if red_handled red then ret (changed', verdict')
                else bnd (reconcile_queue_item_fallback_status W run_id i verdict') (\<lambda>(c, v).
                       ret (changed' \<or> c, v))))))"

fun reconcile_queue_items ::
  "queue_world \<Rightarrow> string \<Rightarrow> queue_item_row list \<Rightarrow> bool \<times> run_verdict \<Rightarrow> (qdb, bool \<times> run_verdict) prog" where
  "reconcile_queue_items W run_id [] acc = ret acc"
| "reconcile_queue_items W run_id (i # rest) acc =
     bnd (reconcile_queue_item W run_id i acc) (reconcile_queue_items W run_id rest)"

definition reconcile_queue_task_statuses ::
  "queue_world \<Rightarrow> string \<Rightarrow> queue_item_row list \<Rightarrow> (qdb, queue_reconcile) prog" where
  "reconcile_queue_task_statuses W run_id items =
     bnd (reconcile_queue_items W run_id items (False, None)) (\<lambda>(changed, verdict).
       case verdict of
         Some (status, position, message) \<Rightarrow>
           seq (update_web_queue_run (qw_store W) run_id status position message) (ret RecTerminal)
       | None \<Rightarrow> ret (if changed then RecChanged else RecUnchanged))"

section \<open>Runs without a worker\<close>

text \<open>
  A program that starts a worker for the run answers \<open>True\<close>; a worker that runs already makes the
  request a no-op, so asking twice is asking once.
\<close>

datatype stale_task_record_handling = StaleUnhandled | StaleHandled | StaleActive | StaleTerminal

definition stale_reduction_handling :: "queue_status_reduction \<Rightarrow> stale_task_record_handling" where
  "stale_reduction_handling red =
     (if \<not> red_handled red then StaleUnhandled
      else case red_status red of
        EffClosedSuccess \<Rightarrow> StaleHandled
      | EffPaused \<Rightarrow> StaleTerminal
      | EffTerminalFailure \<Rightarrow> StaleTerminal
      | _ \<Rightarrow> StaleActive)"

definition retry_and_mark_running :: "queue_world \<Rightarrow> string \<Rightarrow> queue_item_row \<Rightarrow> (qdb, bool) prog" where
  "retry_and_mark_running W run_id i =
     bnd (reconcile_remote_native_retry W run_id i) (\<lambda>retry.
       if retry
       then seq (update_web_queue_run (qw_store W) run_id RunRunning (qi_position i)
                   remote_native_retry_running_message) (ret True)
       else ret False)"

definition stale_item_without_record ::
  "queue_world \<Rightarrow> string \<Rightarrow> queue_item_row \<Rightarrow> queue_status_reduction \<Rightarrow> (qdb, stale_task_record_handling) prog" where
  "stale_item_without_record W run_id i red =
     (if red_action red = ActBoundedRelaunch
      then bnd (bounded_queue_item_relaunch W run_id i (queue_launch_failed_before_record_message i) (qi_attempts i))
             (\<lambda>outcome. ret (case outcome of
                OutRecoveryScheduled \<Rightarrow> StaleActive
              | OutFailed _ _ \<Rightarrow> StaleTerminal
              | OutStopped \<Rightarrow> StaleTerminal
              | OutSuccess \<Rightarrow> StaleHandled))
      else if red_action red = ActRefreshEvidence
      then bnd (if item_is_starting_or_running (qi_status i)
                then update_queue_item_status_sync_unavailable_wait W run_id i (qi_agent_id i) (qi_attempts i)
                       (red_reason red)
                else ret None) (\<lambda>_. ret StaleActive)
      else bnd (retry_and_mark_running W run_id i) (\<lambda>retry.
             ret (if retry then StaleActive else stale_reduction_handling red)))"

definition stale_queue_task_record_handled ::
  "queue_world \<Rightarrow> string \<Rightarrow> queue_item_row \<Rightarrow> (qdb, stale_task_record_handling) prog" where
  "stale_queue_task_record_handled W run_id i =
     bnd (collect_queue_status_evidence_for_item W run_id i) (\<lambda>e.
       let red = reduce_queue_status e in
       case ev_task_status e of
         None \<Rightarrow> stale_item_without_record W run_id i red
       | Some status \<Rightarrow>
           bnd (execute_queue_status_reduction W run_id i status e red False None) (\<lambda>(handled, changed, verdict).
             case verdict of
               Some (st, position, message) \<Rightarrow>
                 seq (update_web_queue_run (qw_store W) run_id st position message) (ret StaleTerminal)
             | None \<Rightarrow> ret (if \<not> handled then StaleUnhandled else stale_reduction_handling red)))"

definition close_running_success_agent :: "queue_world \<Rightarrow> string \<Rightarrow> queue_item_row \<Rightarrow> (qdb, unit) prog" where
  "close_running_success_agent W run_id i =
     (if agent_still_running W i
      then update_successful_queue_item W run_id i (qi_agent_id i) (qi_attempts i) else ret ())"

definition fail_queue_run_item ::
  "queue_world \<Rightarrow> string \<Rightarrow> queue_item_row \<Rightarrow> string \<Rightarrow> string \<Rightarrow> (qdb, unit) prog" where
  "fail_queue_run_item W run_id i a message =
     seq (update_web_queue_item (qw_store W) run_id (qi_id i) ItemFailed message (Some a) (qi_attempts i) None)
       (update_web_queue_run (qw_store W) run_id RunFailed (qi_position i) message)"

text \<open>One item of a run without a worker: \<open>None\<close> goes on with the next item.\<close>

definition resume_at_item :: "queue_world \<Rightarrow> string \<Rightarrow> queue_item_row \<Rightarrow> (qdb, bool option) prog" where
  "resume_at_item W run_id i =
     (if qi_status i = ItemSuccess then seq (close_running_success_agent W run_id i) (ret None)
      else bnd (retry_and_mark_running W run_id i) (\<lambda>retry.
        if retry then ret (Some True)
        else if item_is_failed_or_blocked (qi_status i)
        then seq (update_web_queue_run (qw_store W) run_id RunFailed (qi_position i) (qi_message i)) (ret (Some False))
        else (case qi_agent_id i of
          Some a \<Rightarrow> (case queue_agent_failure_message W i a of
              Some message \<Rightarrow> seq (fail_queue_run_item W run_id i a message) (ret (Some False))
            | None \<Rightarrow> seq (update_web_queue_run (qw_store W) run_id RunRunning (qi_position i)
                        (''running '' @ qi_slug i)) (ret (Some True)))
        | None \<Rightarrow> seq (update_web_queue_run (qw_store W) run_id RunRunning (qi_position i)
                    (''running '' @ qi_slug i)) (ret (Some True)))))"

fun resume_stale_active_queue_run :: "queue_world \<Rightarrow> string \<Rightarrow> queue_item_row list \<Rightarrow> (qdb, bool) prog" where
  "resume_stale_active_queue_run W run_id [] =
     seq (update_web_queue_run (qw_store W) run_id RunSuccess (- 1) ''closed successfully'') (ret False)"
| "resume_stale_active_queue_run W run_id (i # rest) =
     bnd (stale_queue_task_record_handled W run_id i) (\<lambda>h. case h of
       StaleHandled \<Rightarrow> resume_stale_active_queue_run W run_id rest
     | StaleActive \<Rightarrow> ret True
     | StaleTerminal \<Rightarrow> ret False
     | StaleUnhandled \<Rightarrow> bnd (resume_at_item W run_id i) (\<lambda>r. case r of
         Some spawned \<Rightarrow> ret spawned
       | None \<Rightarrow> resume_stale_active_queue_run W run_id rest))"

definition restart_resolved_failed_queue_run ::
  "queue_world \<Rightarrow> queue_run_row \<Rightarrow> queue_item_row list \<Rightarrow>
   (qdb, (queue_run_row \<times> queue_item_row list) option) prog" where
  "restart_resolved_failed_queue_run W run items =
     (if \<not> run_is_failed (qr_status run) then ret None
      else if list_ex (\<lambda>i. item_is_failed_or_blocked (qi_status i)) items then ret None
      else if list_all (\<lambda>i. qi_status i = ItemSuccess) items
      then seq (update_web_queue_run (qw_store W) (qr_id run) RunSuccess (- 1) ''closed successfully'') (ret None)
      else seq (update_web_queue_run (qw_store W) (qr_id run) RunRunning (- 1)
                  ''resuming after resolved blocked task'')
             (query (\<lambda>db. case load_web_queue_run (qr_id run) db of
                (None, _) \<Rightarrow> None | (Some r, js) \<Rightarrow> Some (r, js))))"

definition failed_item_may_be_resolved :: "queue_world \<Rightarrow> string \<Rightarrow> queue_item_row \<Rightarrow> (qdb, bool) prog" where
  "failed_item_may_be_resolved W run_id i =
     (if \<not> item_is_failed_or_blocked (qi_status i) then ret False
      else if queue_item_recovery_waiting_on_current_attempt W i then ret True
      else if queue_failure_message_auto_recoverable (qi_message i) \<and>
              qi_recovery_attempts i < auto_recovery_attempts then ret True
      else if remote_native_retry_session_running W i then ret True
      else if queue_failure_message_launch_recoverable (qi_message i) then ret True
      else bnd (collect_queue_status_evidence_for_item W run_id i) (\<lambda>e.
        ret (case red_action (reduce_queue_status e) of
            ActMarkSuccess \<Rightarrow> True
          | ActMarkRunning \<Rightarrow> True
          | ActRelaunchRemoteDisconnectedOpenRecord \<Rightarrow> True
          | ActBoundedRelaunch \<Rightarrow> True
          | ActRecoverExecution \<Rightarrow> qi_recovery_attempts i < auto_recovery_attempts
          | _ \<Rightarrow> False)))"

text \<open>A search that stops at the first item that answers true.\<close>

fun any_item :: "(queue_item_row \<Rightarrow> (qdb, bool) prog) \<Rightarrow> queue_item_row list \<Rightarrow> (qdb, bool) prog" where
  "any_item f [] = ret False"
| "any_item f (i # rest) = bnd (f i) (\<lambda>b. if b then ret True else any_item f rest)"

definition failed_queue_run_may_be_resolved ::
  "queue_world \<Rightarrow> queue_run_row \<Rightarrow> queue_item_row list \<Rightarrow> (qdb, bool) prog" where
  "failed_queue_run_may_be_resolved W run items =
     (if \<not> run_is_failed (qr_status run) \<or> items = [] then ret False
      else if \<not> list_ex (\<lambda>i. item_is_failed_or_blocked (qi_status i)) items then ret True
      else any_item (failed_item_may_be_resolved W (qr_id run)) items)"

definition stopped_item_may_need_reconcile :: "queue_world \<Rightarrow> string \<Rightarrow> queue_item_row \<Rightarrow> (qdb, bool) prog" where
  "stopped_item_may_need_reconcile W run_id i =
     (if qi_status i \<noteq> ItemStopped \<or> qi_message i \<noteq> local_open_record_stopped_message then ret False
      else bnd (collect_queue_status_evidence_for_item W run_id i) (\<lambda>e.
             ret (red_action (reduce_queue_status e) \<in> {ActRecoverExecution, ActMarkRunning})))"

definition stopped_local_open_record_may_need_reconcile ::
  "queue_world \<Rightarrow> queue_run_row \<Rightarrow> queue_item_row list \<Rightarrow> (qdb, bool) prog" where
  "stopped_local_open_record_may_need_reconcile W run items =
     (if qr_status run \<noteq> RunStopped then ret False
      else any_item (stopped_item_may_need_reconcile W (qr_id run)) items)"

definition queue_run_needs_stale_reconcile ::
  "queue_world \<Rightarrow> queue_run_row \<Rightarrow> queue_item_row list \<Rightarrow> (qdb, bool) prog" where
  "queue_run_needs_stale_reconcile W run items =
     (if run_is_active (qr_status run) \<or>
         list_ex (\<lambda>i. item_is_starting_or_running (qi_status i) \<or>
                       (qi_status i = ItemSuccess \<and> agent_still_running W i)) items
      then ret True
      else bnd (stopped_local_open_record_may_need_reconcile W run items) (\<lambda>stopped.
             if stopped then ret True else failed_queue_run_may_be_resolved W run items))"

text \<open>
  \<open>run_workers\<close> are the runs this process works on; terminating orphaned agents leaves the database
  as it is.
\<close>

definition reconcile_one_stale_web_queue_run ::
  "queue_world \<Rightarrow> string list \<Rightarrow> queue_run_row \<Rightarrow> queue_item_row list \<Rightarrow> (qdb, bool) prog" where
  "reconcile_one_stale_web_queue_run W run_workers run items =
     (if qr_id run \<in> set run_workers then ret False
      else bnd (queue_run_needs_stale_reconcile W run items) (\<lambda>needed.
        if \<not> needed then ret False
        else seq (modify (qw_sync_sessions W))
          (bnd (reconcile_queue_task_statuses W (qr_id run) items) (\<lambda>result.
             bnd (if result = RecUnchanged then ret (Some (run, items))
                  else query (\<lambda>db. case load_web_queue_run (qr_id run) db of
                         (None, _) \<Rightarrow> None | (Some r, js) \<Rightarrow> Some (r, js))) (\<lambda>reloaded.
               case reloaded of
                 None \<Rightarrow> ret False
               | Some (run', items') \<Rightarrow>
                   bnd (restart_resolved_failed_queue_run W run' items') (\<lambda>restarted. case restarted of
                     Some (run'', items'') \<Rightarrow> resume_stale_active_queue_run W (qr_id run'') items''
                   | None \<Rightarrow>
                       if \<not> run_is_active (qr_status run') then ret False
                       else resume_stale_active_queue_run W (qr_id run') items'))))))"

fun reconcile_each_run ::
  "queue_world \<Rightarrow> string list \<Rightarrow> (queue_run_row \<times> queue_item_row list) list \<Rightarrow> (qdb, string list) prog" where
  "reconcile_each_run W run_workers [] = ret run_workers"
| "reconcile_each_run W run_workers ((run, items) # rest) =
     bnd (reconcile_one_stale_web_queue_run W run_workers run items) (\<lambda>spawned.
       reconcile_each_run W (if spawned then run_workers @ [qr_id run] else run_workers) rest)"

definition reconcile_stale_web_queue_run :: "queue_world \<Rightarrow> string list \<Rightarrow> (qdb, string list) prog" where
  "reconcile_stale_web_queue_run W run_workers =
     bnd (load_web_queue_runs (qw_store W)) (reconcile_each_run W run_workers)"

text \<open>The answer: whether the run can go on, and whether a worker was asked for.\<close>

definition continue_resolved_failed_queue_run ::
  "queue_world \<Rightarrow> string list \<Rightarrow> string \<Rightarrow> (qdb, bool \<times> bool) prog" where
  "continue_resolved_failed_queue_run W run_workers run_id =
     bnd (query (load_web_queue_run run_id)) (\<lambda>(run, items). case run of
       None \<Rightarrow> ret (False, False)
     | Some r \<Rightarrow>
         if run_is_active (qr_status r)
         then seq (wake_web_queue_retry_items (qw_store W) run_id) (ret (True, True))
         else if qr_status r = RunSuccess then ret (True, False)
         else if \<not> run_is_failed (qr_status r) then ret (False, False)
         else bnd (reconcile_one_stale_web_queue_run W run_workers r items) (\<lambda>spawned.
            bnd (query (\<lambda>db. fst (load_web_queue_run run_id db))) (\<lambda>run'. case run' of
              None \<Rightarrow> ret (False, spawned)
            | Some r' \<Rightarrow>
                if run_is_active (qr_status r') \<or> qr_status r' = RunSuccess then ret (True, spawned)
                else if qr_status r' = RunStopped
                then seq (continue_web_queue_run (qw_store W) run_id) (ret (True, spawned))
                else if run_is_failed (qr_status r')
                then throw (Bail (''queue is still failed after continue reconciliation: '' @ qr_message r'))
                else throw (Bail (''queue is not resumable after continue reconciliation: '' @
                       run_status_as_str (qr_status r'))))))"

end
