(* ===== verification/Worker_Invariants.thy ===== *)
theory Worker_Invariants
  imports Queue_Reconcile Queue_Graph
begin

text \<open>
  What the worker's programs keep. A program of the worker writes items without touching their key
  columns, marks its run as running, failed or stopped, and writes attempts, agents and samples; it
  never writes a lease or a tab. The locale \<open>worker_invariant\<close> names these writes as its assumptions
  and proves once that every program of the worker keeps an invariant that allows them. It is
  interpreted on the schema, the invariant of the tabs, the invariant of the leases, the leases
  themselves, the verdict of a run, and the absence of cycles among the dependencies.
\<close>

section \<open>Programs and the values they return\<close>

text \<open>\<open>gives P m\<close>: a value that \<open>m\<close> returns satisfies \<open>P\<close>.\<close>

definition gives :: "('a \<Rightarrow> bool) \<Rightarrow> ('s, 'a) prog \<Rightarrow> bool" where
  "gives P m \<longleftrightarrow> (\<forall>s x t. m s = (Inr x, t) \<longrightarrow> P x)"

lemma gives_ret: "P x \<Longrightarrow> gives P (ret x)"
  by (simp add: gives_def)

lemma gives_throw: "gives P (throw e)"
  by (simp add: gives_def)

lemma gives_bnd:
  assumes "\<And>x. gives P (k x)"
  shows "gives P (bnd m k)"
  using assms unfolding gives_def by (metis bnd_InrE)

lemma gives_bnd_of:
  assumes "gives Q m" and "\<And>x. Q x \<Longrightarrow> gives P (k x)"
  shows "gives P (bnd m k)"
  using assms unfolding gives_def by (metis bnd_InrE)

lemma gives_if: "(b \<Longrightarrow> gives P m) \<Longrightarrow> (\<not> b \<Longrightarrow> gives P n) \<Longrightarrow> gives P (if b then m else n)"
  by simp

lemma gives_option:
  "(y = None \<Longrightarrow> gives P m) \<Longrightarrow> (\<And>x. y = Some x \<Longrightarrow> gives P (k x)) \<Longrightarrow>
   gives P (case y of None \<Rightarrow> m | Some x \<Rightarrow> k x)"
  by (cases y) auto

lemma gives_prod: "(\<And>x y. p = (x, y) \<Longrightarrow> gives P (k x y)) \<Longrightarrow> gives P (case p of (x, y) \<Rightarrow> k x y)"
  by (cases p) auto

lemmas gives_intro = gives_if gives_option gives_prod gives_throw gives_bnd

lemma keeps_bnd_of:
  assumes "keeps I m" and "gives P m" and "\<And>x. P x \<Longrightarrow> keeps I (k x)"
  shows "keeps I (bnd m k)"
  unfolding keeps_def
proof (intro allI impI)
  fix s assume "I s"
  obtain r t where m: "m s = (r, t)" by (cases "m s")
  with assms(1) \<open>I s\<close> have "I t" by (metis keeps_def snd_conv)
  show "I (snd (bnd m k s))"
  proof (cases r)
    case (Inl e)
    with m \<open>I t\<close> show ?thesis by (simp add: run_bnd)
  next
    case (Inr x)
    with m assms(2) have "P x" unfolding gives_def by blast
    from assms(3) [OF this] \<open>I t\<close> m Inr show ?thesis by (simp add: run_bnd keeps_def)
  qed
qed

lemma keeps_sql: "(\<And>db. I db \<Longrightarrow> schema_ok (f db) \<Longrightarrow> I (f db)) \<Longrightarrow> keeps I (sql_exec ctx n f)"
  by (simp add: keeps_def run_sql_exec)

lemma keeps_case_process [keeps_intro]:
  "(\<And>e. keeps I (f e)) \<Longrightarrow> (\<And>a b c d. keeps I (g a b c d)) \<Longrightarrow>
   keeps I (case y of ProcNotStarted e \<Rightarrow> f e | ProcExited a b c d \<Rightarrow> g a b c d)"
  by (cases y) auto

lemma keeps_case_action [keeps_intro]:
  assumes "keeps I a" "keeps I b" "keeps I c" "keeps I d" "keeps I e" "keeps I f" "keeps I g" "keeps I h" "keeps I j"
  shows "keeps I (case y of ActNone \<Rightarrow> a | ActRefreshEvidence \<Rightarrow> b | ActMarkSuccess \<Rightarrow> c | ActMarkPaused \<Rightarrow> d
    | ActMarkRunning \<Rightarrow> e | ActRelaunchRemoteDisconnectedOpenRecord \<Rightarrow> f | ActRecoverExecution \<Rightarrow> g
    | ActBoundedRelaunch \<Rightarrow> h | ActMarkFailed \<Rightarrow> j)"
  using assms by (cases y) simp_all

lemma keeps_case_handling [keeps_intro]:
  "keeps I a \<Longrightarrow> keeps I b \<Longrightarrow> keeps I c \<Longrightarrow> keeps I d \<Longrightarrow>
   keeps I (case y of StaleUnhandled \<Rightarrow> a | StaleHandled \<Rightarrow> b | StaleActive \<Rightarrow> c | StaleTerminal \<Rightarrow> d)"
  by (cases y) simp_all

section \<open>Verdicts\<close>

text \<open>A pass over the items ends a run as failed or stopped, never as successful.\<close>

definition ends_badly :: "run_verdict \<Rightarrow> bool" where
  "ends_badly v = (case v of None \<Rightarrow> True | Some (s, _, _) \<Rightarrow> s \<in> {RunFailed, RunStopped})"

lemma ends_badly_insert [simp]:
  "ends_badly (or_insert v (s, p, m)) \<longleftrightarrow> (if v = None then s \<in> {RunFailed, RunStopped} else ends_badly v)"
  by (cases v) (auto simp: ends_badly_def or_insert_def)

lemma ends_badly_None [simp]: "ends_badly None"
  by (simp add: ends_badly_def)

lemma ends_badly_outcome [simp]: "ends_badly v \<Longrightarrow> ends_badly (verdict_of_outcome i out v)"
  by (cases out) (auto simp: verdict_of_outcome_def)

abbreviation same_run_verdict :: "bool \<times> run_verdict \<Rightarrow> bool" where
  "same_run_verdict \<equiv> \<lambda>(c, v). ends_badly v"

lemma gives_execute:
  assumes "ends_badly v"
  shows "gives (\<lambda>(h, c, v). ends_badly v) (execute_queue_status_reduction W r i st e red c v)"
proof -
  have [intro]: "gives (\<lambda>(c, v). ends_badly v) (mark_queue_status_paused W r i st c v)"
      "gives (\<lambda>(c, v). ends_badly v) (recover_queue_status_execution W r i st e c v)"
      "gives (\<lambda>(c, v). ends_badly v) (mark_queue_status_failed W r i st c v)"
    using assms
    unfolding mark_queue_status_paused_def recover_queue_status_execution_def mark_queue_status_failed_def Let_def
    by (intro gives_intro gives_ret; simp)+
  have wrap: "gives (\<lambda>(h, c, v). ends_badly v) (bnd m (\<lambda>x. ret (True, x)))" if "gives same_run_verdict m"
    for m :: "(qdb, bool \<times> run_verdict) prog"
    by (rule gives_bnd_of [OF that]) (auto intro: gives_ret)
  show ?thesis
    unfolding execute_queue_status_reduction_def
    by (cases "red_action red"; simp only: queue_allowed_action.case)
       ((rule wrap, blast) | (intro gives_bnd gives_ret; simp add: assms))+
qed

lemma gives_reconcile_item:
  assumes "ends_badly v"
  shows "gives (\<lambda>(c, v). ends_badly v) (reconcile_queue_item W r i (c, v))"
proof -
  have without: "gives (\<lambda>(h, v). ends_badly v) (reconcile_queue_item_without_task_record W r i red v)" for red
    unfolding reconcile_queue_item_without_task_record_def
    by (cases "red_action red"; simp only: queue_allowed_action.case; intro gives_bnd gives_ret; simp add: assms)
  have fallback: "gives (\<lambda>(c, v). ends_badly v) (reconcile_queue_item_fallback_status W r i v)" if "ends_badly v" for v
    using that
    unfolding reconcile_queue_item_fallback_status_def recover_failed_agent_def close_successful_agent_def Let_def
    by (intro gives_intro gives_ret; simp)
  have evidence: "gives (\<lambda>(h, c, v). ends_badly v) (reconcile_by_evidence W r i e red c v)" for e red
    unfolding reconcile_by_evidence_def
    by (intro gives_option gives_execute [OF assms] gives_bnd_of [OF without] gives_prod)
       (auto intro!: gives_ret split: option.split)
  have rest: "gives (\<lambda>(c, v). ends_badly v)
      (bnd (reconcile_queue_item_fallback_status W r i v) (\<lambda>(c', v). ret (c \<or> c', v)))" if "ends_badly v" for c v
    by (rule gives_bnd_of [OF fallback [OF that]]) (auto intro: gives_ret)
  show ?thesis
    unfolding reconcile_queue_item_def Let_def prod.case
    by (rule gives_bnd, rule gives_bnd_of [OF evidence], clarsimp, intro conjI impI gives_bnd gives_if rest)
       (auto intro: gives_ret)
qed

lemma gives_reconcile_items:
  "ends_badly v \<Longrightarrow> gives (\<lambda>(c, v). ends_badly v) (reconcile_queue_items W r items (c, v))"
proof (induction items arbitrary: c v)
  case (Cons i rest)
  show ?case
    unfolding reconcile_queue_items.simps
    by (rule gives_bnd_of [OF gives_reconcile_item [OF Cons.prems]]) (use Cons.IH in auto)
qed (simp add: gives_ret)

section \<open>Invariants of the worker\<close>

text \<open>The statuses the worker gives to a run before it knows that every item is done.\<close>

definition open_verdict :: "queue_run_status \<Rightarrow> bool" where
  "open_verdict s = (s \<in> {RunRunning, RunFailed, RunStopped})"

locale worker_invariant =
  fixes I :: "qdb \<Rightarrow> bool"
  assumes items: "(\<And>i. item_keys (f i) = item_keys i \<and> qi_depends_on (f i) = qi_depends_on i) \<Longrightarrow> I db \<Longrightarrow>
      schema_ok (db\<lparr>db_items := update_where p f (db_items db)\<rparr>) \<Longrightarrow>
      I (db\<lparr>db_items := update_where p f (db_items db)\<rparr>)"
    and runs: "(\<And>x. qr_id (g x) = qr_id x \<and> open_verdict (qr_status (g x))) \<Longrightarrow> I db \<Longrightarrow>
      schema_ok (db\<lparr>db_runs := update_where q g (db_runs db)\<rparr>) \<Longrightarrow>
      I (db\<lparr>db_runs := update_where q g (db_runs db)\<rparr>)"
    and attempts: "I db \<Longrightarrow> schema_ok (db\<lparr>db_attempts := as\<rparr>) \<Longrightarrow> I (db\<lparr>db_attempts := as\<rparr>)"
    and agents: "I db \<Longrightarrow> schema_ok (db\<lparr>db_agents := gs\<rparr>) \<Longrightarrow> I (db\<lparr>db_agents := gs\<rparr>)"
    and samples: "I db \<Longrightarrow> schema_ok (db\<lparr>db_samples := ss\<rparr>) \<Longrightarrow> I (db\<lparr>db_samples := ss\<rparr>)"
    and tabs_ready: "keeps I (ensure_default_web_queue_tab now)"
begin

lemma keeps_items:
  "(\<And>i. item_keys (f i) = item_keys i \<and> qi_depends_on (f i) = qi_depends_on i) \<Longrightarrow> keeps I (update_items ctx p f)"
  unfolding update_items_def by (rule keeps_sql) (rule items)

lemma keeps_runs:
  "(\<And>x. qr_id (g x) = qr_id x \<and> open_verdict (qr_status (g x))) \<Longrightarrow> keeps I (update_runs ctx q g)"
  unfolding update_runs_def by (rule keeps_sql) (rule runs)

lemma keeps_projection [keeps_intro]: "keeps I (sync_web_queue_item_attempt_projection E i)"
  unfolding sync_web_queue_item_attempt_projection_def
  by (intro keeps_intro keeps_sql attempts)

lemma keeps_for_key [keeps_intro]: "keeps I (sync_web_queue_item_attempt_for_key E r a)"
  unfolding sync_web_queue_item_attempt_for_key_def by (intro keeps_intro)

lemma keeps_finish [keeps_intro]: "keeps I (finish_web_queue_item_attempt E i s m a)"
  unfolding finish_web_queue_item_attempt_def by (intro keeps_intro keeps_sql attempts)

lemma keeps_update_item [keeps_intro]: "keeps I (update_web_queue_item E r a st m agent n nx)"
  unfolding update_web_queue_item_def by (intro keeps_intro keeps_items) (simp add: item_keys_def)

lemma keeps_recovery [keeps_intro]: "keeps I (schedule_web_queue_item_recovery E r a m f n)"
  unfolding schedule_web_queue_item_recovery_def by (intro keeps_intro keeps_items) (simp add: item_keys_def)

lemma keeps_reset [keeps_intro]: "keeps I (reset_web_queue_item_for_relaunch E r a m n)"
  unfolding reset_web_queue_item_for_relaunch_def by (intro keeps_intro keeps_items) (simp add: item_keys_def)

lemma keeps_relaunch [keeps_intro]: "keeps I (schedule_web_queue_item_relaunch E r a m n nx)"
  unfolding schedule_web_queue_item_relaunch_def by (intro keeps_intro keeps_items) (simp add: item_keys_def)

lemma keeps_iterations [keeps_intro]: "keeps I (web_queue_item_semantic_iterations_started E i)"
  unfolding web_queue_item_semantic_iterations_started_def by (intro keeps_intro)

lemma keeps_mark_run: "open_verdict st \<Longrightarrow> keeps I (update_web_queue_run E r st p m)"
  unfolding update_web_queue_run_def
  by (intro keeps_intro keeps_runs) (auto simp: open_verdict_def)

lemmas keeps_verdict [keeps_intro] =
  keeps_mark_run [where st = RunRunning, unfolded open_verdict_def, simplified]
  keeps_mark_run [where st = RunFailed, unfolded open_verdict_def, simplified]
  keeps_mark_run [where st = RunStopped, unfolded open_verdict_def, simplified]

lemma keeps_delete_agent [keeps_intro]: "keeps I (delete_agent_record a)"
  unfolding delete_agent_record_def by (intro keeps_intro keeps_sql agents)

lemma keeps_cleanup [keeps_intro]: "keeps I (cleanup_queue_executor W i a)"
  unfolding cleanup_queue_executor_def cleanup_queue_agent_def run_remote_agent_contract_def Let_def
  by (intro keeps_intro)

lemma keeps_success [keeps_intro]: "keeps I (update_successful_queue_item W r i a n)"
  unfolding update_successful_queue_item_def by (intro keeps_intro)

lemma keeps_fail_item_and_run [keeps_intro]: "keeps I (fail_item_and_run W r i m n)"
  unfolding fail_item_and_run_def by (intro keeps_intro)

lemma keeps_bounded_relaunch [keeps_intro]: "keeps I (bounded_queue_item_relaunch W r i m n)"
  unfolding bounded_queue_item_relaunch_def Let_def by (intro keeps_intro)

lemma keeps_terminal_outcome [keeps_intro]: "keeps I (latest_queue_item_terminal_outcome r a)"
  unfolding latest_queue_item_terminal_outcome_def by (intro keeps_intro)

lemma keeps_sync_wait [keeps_intro]: "keeps I (update_queue_item_status_sync_unavailable_wait W r i a n m)"
  unfolding update_queue_item_status_sync_unavailable_wait_def update_queue_item_unless_terminal_def
  by (intro keeps_intro)

lemma keeps_auto_recovery [keeps_intro]: "keeps I (schedule_queue_item_auto_recovery W r i m)"
  unfolding schedule_queue_item_auto_recovery_def Let_def by (intro keeps_intro)

lemma keeps_exhausted [keeps_intro]: "keeps I (exhausted_queue_item_failure_message W i m)"
  unfolding exhausted_queue_item_failure_message_def by (intro keeps_intro)

lemma keeps_disconnected [keeps_intro]: "keeps I (relaunch_remote_native_disconnected_item W r i n)"
  unfolding relaunch_remote_native_disconnected_item_def by (intro keeps_intro)

lemma keeps_execute [keeps_intro]: "keeps I (execute_queue_status_reduction W r i st e red c v)"
  unfolding execute_queue_status_reduction_def mark_queue_status_success_def mark_queue_status_paused_def
    mark_queue_status_running_def recover_queue_status_execution_def mark_queue_status_failed_def Let_def
  by (intro keeps_intro)

lemma keeps_without_record [keeps_intro]: "keeps I (reconcile_queue_item_without_task_record W r i red v)"
  unfolding reconcile_queue_item_without_task_record_def by (intro keeps_intro)

lemma keeps_retry [keeps_intro]: "keeps I (reconcile_remote_native_retry W r i)"
  unfolding reconcile_remote_native_retry_def by (intro keeps_intro)

lemma keeps_fallback_status [keeps_intro]: "keeps I (reconcile_queue_item_fallback_status W r i v)"
  unfolding reconcile_queue_item_fallback_status_def recover_failed_agent_def close_successful_agent_def Let_def
  by (intro keeps_intro)

lemma keeps_by_evidence [keeps_intro]: "keeps I (reconcile_by_evidence W r i e red c v)"
  unfolding reconcile_by_evidence_def by (intro keeps_intro)

lemma keeps_reconcile_item: "sync_keeps I W \<Longrightarrow> keeps I (reconcile_queue_item W r i acc)"
  unfolding reconcile_queue_item_def Let_def by (cases acc) (simp, intro keeps_intro keeps_evidence)

lemma keeps_reconcile_items: "sync_keeps I W \<Longrightarrow> keeps I (reconcile_queue_items W r is acc)"
  by (induction "is" arbitrary: acc) (auto intro!: keeps_intro keeps_reconcile_item)

lemma keeps_reconcile_statuses: "sync_keeps I W \<Longrightarrow> keeps I (reconcile_queue_task_statuses W r is)"
  unfolding reconcile_queue_task_statuses_def
proof (rule keeps_bnd_of [OF keeps_reconcile_items gives_reconcile_items [OF ends_badly_None]], assumption, goal_cases)
  case (1 x)
  show ?case
  proof (cases "snd x")
    case None
    then show ?thesis by (cases x) (simp add: keeps_ret)
  next
    case (Some v)
    with 1 show ?thesis
      by (cases x; cases v) (auto simp: ends_badly_def open_verdict_def intro!: keeps_bnd keeps_ret keeps_mark_run)
  qed
qed

lemma keeps_load_items [keeps_intro]: "keeps I (load_web_queue_items E)"
  unfolding load_web_queue_items_def by (intro keeps_intro tabs_ready)

lemma keeps_load_runs [keeps_intro]: "keeps I (load_web_queue_runs E)"
  unfolding load_web_queue_runs_def by (intro keeps_intro tabs_ready)

lemma keeps_sample [keeps_intro]: "keeps I (record_queue_resource_sample s n)"
  unfolding record_queue_resource_sample_def by (intro keeps_intro keeps_sql samples)

lemma keeps_context [keeps_intro]: "keeps I (queue_admission_context E scope all_items)"
proof -
  have "keeps I (seq (record_queue_resource_sample s n) (query f))" for s n and f :: "qdb \<Rightarrow> string + admission_context"
    by (intro keeps_intro)
  then show ?thesis
    unfolding queue_admission_context_def keeps_def Let_def by (cases scope) simp_all
qed

lemma keeps_plan_scopes [keeps_intro]: "keeps I (plan_scopes E all_items scopes plan)"
proof (induction scopes arbitrary: plan)
  case (Cons x rest)
  then show ?case by (cases x) (auto intro!: keeps_intro)
qed (simp add: keeps_ret)

lemma keeps_admission [keeps_intro]: "keeps I (apply_queue_admission E ready)"
  unfolding apply_queue_admission_def update_queue_admission_waiting_def by (intro keeps_intro)

end

text \<open>An invariant that does not look at the tabs needs no case for them.\<close>

locale row_invariant =
  fixes I :: "qdb \<Rightarrow> bool"
  assumes item_rows: "(\<And>i. item_keys (f i) = item_keys i \<and> qi_depends_on (f i) = qi_depends_on i) \<Longrightarrow> I db \<Longrightarrow>
      schema_ok (db\<lparr>db_items := update_where p f (db_items db)\<rparr>) \<Longrightarrow>
      I (db\<lparr>db_items := update_where p f (db_items db)\<rparr>)"
    and run_rows: "(\<And>x. qr_id (g x) = qr_id x \<and> open_verdict (qr_status (g x))) \<Longrightarrow> I db \<Longrightarrow>
      schema_ok (db\<lparr>db_runs := update_where q g (db_runs db)\<rparr>) \<Longrightarrow>
      I (db\<lparr>db_runs := update_where q g (db_runs db)\<rparr>)"
    and attempt_rows: "I db \<Longrightarrow> schema_ok (db\<lparr>db_attempts := as\<rparr>) \<Longrightarrow> I (db\<lparr>db_attempts := as\<rparr>)"
    and agent_rows: "I db \<Longrightarrow> schema_ok (db\<lparr>db_agents := gs\<rparr>) \<Longrightarrow> I (db\<lparr>db_agents := gs\<rparr>)"
    and sample_rows: "I db \<Longrightarrow> schema_ok (db\<lparr>db_samples := ss\<rparr>) \<Longrightarrow> I (db\<lparr>db_samples := ss\<rparr>)"
    and tab_rows: "I db \<Longrightarrow> schema_ok (db\<lparr>db_tabs := ts\<rparr>) \<Longrightarrow> I (db\<lparr>db_tabs := ts\<rparr>)"
begin

lemma keeps_tab_repair: "keeps I (ensure_default_web_queue_tab now)"
  unfolding ensure_default_web_queue_tab_def ensure_default_tab_exists_def ensure_active_tab_exists_def
    deduplicate_web_queue_tab_runs_def clear_tab_run_def activate_tab_row_def active_fallback_queue_tab_id_def
    update_tabs_def insert_tab_def
  by (intro keeps_intro keeps_sql tab_rows; (assumption | simp split: list.split add: keeps_def))

end

sublocale row_invariant \<subseteq> worker_invariant I
  by unfold_locales (rule item_rows run_rows attempt_rows agent_rows sample_rows keeps_tab_repair; assumption | rule keeps_tab_repair)+

section \<open>What the worker keeps\<close>

text \<open>The run \<open>r\<close> is not successful; the leases are \<open>L\<close>; the items have the key columns \<open>K\<close>.\<close>

definition run_open :: "string \<Rightarrow> qdb \<Rightarrow> bool" where
  "run_open r db = (schema_ok db \<and> (case find_run r db of None \<Rightarrow> True | Some x \<Rightarrow> qr_status x \<noteq> RunSuccess))"

definition leases_are :: "queue_lease_row list \<Rightarrow> qdb \<Rightarrow> bool" where
  "leases_are L db = (db_leases db = L)"

definition item_keys_are :: "(string \<times> string \<times> int \<times> string) list \<Rightarrow> qdb \<Rightarrow> bool" where
  "item_keys_are K db = (map item_keys (db_items db) = K)"

interpretation kept_schema: row_invariant schema_ok
  by unfold_locales

interpretation kept_leases: row_invariant "leases_are L" for L
  by unfold_locales (simp_all add: leases_are_def)

interpretation kept_items: row_invariant "item_keys_are K" for K
  by unfold_locales (simp_all add: item_keys_are_def map_update_where)

text \<open>No run has a cycle among the dependencies of its items.\<close>

definition items_of_run :: "string \<Rightarrow> qdb \<Rightarrow> queue_item_row list" where
  "items_of_run r db = filter (\<lambda>i. qi_run_id i = r) (db_items db)"

definition graphs_acyclic :: "qdb \<Rightarrow> bool" where
  "graphs_acyclic db = (schema_ok db \<and> (\<forall>r. acyclic (graph_edges (items_of_run r db))))"

lemma graph_edges_update:
  assumes "\<And>i. item_keys (f i) = item_keys i \<and> qi_depends_on (f i) = qi_depends_on i"
  shows "graph_edges (items_of_run r (db\<lparr>db_items := update_where p f (db_items db)\<rparr>)) = graph_edges (items_of_run r db)"
proof -
  have id: "qi_id (f i) = qi_id i" and run: "qi_run_id (f i) = qi_run_id i" and deps: "qi_depends_on (f i) = qi_depends_on i" for i
    using assms [of i] by (auto simp: item_keys_def)
  have "filter (\<lambda>i. qi_run_id i = r) (update_where p f is) = update_where p f (filter (\<lambda>i. qi_run_id i = r) is)" for "is"
    by (induction "is") (auto simp: update_where_def run)
  moreover have "graph_edges (update_where p f is) = graph_edges is" for "is"
    by (induction "is") (simp_all add: update_where_def graph_edges_Cons id deps)
  ultimately show ?thesis by (simp add: items_of_run_def)
qed

interpretation kept_graphs: row_invariant graphs_acyclic
proof (unfold_locales, goal_cases)
  case (1 f db p)
  then have "graph_edges (items_of_run r (db\<lparr>db_items := update_where p f (db_items db)\<rparr>)) =
      graph_edges (items_of_run r db)" for r
    by (intro graph_edges_update) blast
  with 1 show ?case by (simp add: graphs_acyclic_def)
qed (simp_all add: graphs_acyclic_def items_of_run_def)

lemma run_open_update:
  assumes "\<And>x. qr_id (g x) = qr_id x \<and> open_verdict (qr_status (g x))" and "run_open r db"
    and "schema_ok (db\<lparr>db_runs := update_where q g (db_runs db)\<rparr>)"
  shows "run_open r (db\<lparr>db_runs := update_where q g (db_runs db)\<rparr>)"
proof -
  have "qr_status (g x) \<noteq> RunSuccess" for x
    using assms(1) [of x] by (auto simp: open_verdict_def)
  then show ?thesis
    using assms find_run_update [of q g r db] by (auto simp: run_open_def split: option.splits)
qed

interpretation kept_open: row_invariant "run_open r" for r
proof (unfold_locales, goal_cases)
  case (2 g db q)
  then show ?case by (intro run_open_update) auto
qed (simp_all add: run_open_def find_run_def)

lemma lease_inv_item_rows:
  assumes "\<And>i. item_keys (f i) = item_keys i" and "lease_inv db"
    and "schema_ok (db\<lparr>db_items := update_where p f (db_items db)\<rparr>)"
  shows "lease_inv (db\<lparr>db_items := update_where p f (db_items db)\<rparr>)"
proof -
  have "find_item r a (db\<lparr>db_items := update_where p f (db_items db)\<rparr>) = None \<longleftrightarrow> find_item r a db = None" for r a
    using assms(1) by (subst find_item_update) auto
  then show ?thesis
    using assms(2,3) leases_match_items [of "db\<lparr>db_items := update_where p f (db_items db)\<rparr>" db]
    by (simp add: lease_inv_def)
qed

lemma lease_inv_other:
  "lease_inv db \<Longrightarrow> schema_ok db' \<Longrightarrow> db_items db' = db_items db \<Longrightarrow> db_leases db' = db_leases db \<Longrightarrow> lease_inv db'"
  using leases_match_items [of db' db] by (simp add: lease_inv_def find_item_def)

interpretation kept_lease_inv: row_invariant lease_inv
proof (unfold_locales, goal_cases)
  case (1 f db p)
  then show ?case by (intro lease_inv_item_rows) auto
qed (erule lease_inv_other; simp)+

lemma tabs_inv_other: "tabs_inv db \<Longrightarrow> schema_ok db' \<Longrightarrow> db_tabs db' = db_tabs db \<Longrightarrow> tabs_inv db'"
  by (simp add: tabs_inv_def tabs_wf_def)

interpretation kept_tabs: worker_invariant tabs_inv
proof (unfold_locales, goal_cases)
  case 6
  then show ?case by (simp add: keeps_def ensure_noop)
qed (erule tabs_inv_other; simp)+

end
