(* ===== verification/Queue_Runner.thy ===== *)
theory Queue_Runner
  imports Worker_Invariants Queue_Graph
begin

text \<open>
  The loop that runs a queue (\<open>queue_worker.rs\<close>): which items are ready, how a worker for an item
  is started under a lease, one iteration of the loop, and the thread around it.

  An iteration works on the items it loaded at its start; what the workers, the daemon and the
  operator write meanwhile enters between two iterations. The set of items this process works on
  (\<open>WEB_QUEUE_ITEM_WORKERS\<close>) is observed at the start of the iteration and returned at its end.
\<close>

section \<open>Ready items\<close>

definition queue_dependencies_satisfied :: "queue_item_row list \<Rightarrow> queue_item_row \<Rightarrow> bool" where
  "queue_dependencies_satisfied items i =
     list_all (\<lambda>d. case find (\<lambda>c. qi_id c = d) items of
        None \<Rightarrow> True
      | Some c \<Rightarrow> qi_status c = ItemSuccess) (qi_depends_on i)"

definition remote_session_alive :: "queue_world \<Rightarrow> queue_item_row \<Rightarrow> bool" where
  "remote_session_alive W i =
     (queue_item_remote_native i \<and> item_is_starting_or_running (qi_status i) \<and>
      (case qi_agent_id i of None \<Rightarrow> False | Some a \<Rightarrow> remote_native_session_running W i a))"

definition queue_item_is_ready_to_spawn ::
  "queue_world \<Rightarrow> queue_item_row list \<Rightarrow> activity_snapshot \<Rightarrow> queue_item_row \<Rightarrow> bool" where
  "queue_item_is_ready_to_spawn W items activity i =
     (if remote_session_alive W i then False
      else \<not> item_is_terminal (qi_status i) \<and>
           \<not> worker_active_in_snapshot (qi_id i) activity \<and>
           (\<not> item_is_starting_or_running (qi_status i) \<or>
            (case qi_agent_id i of None \<Rightarrow> True | Some a \<Rightarrow> \<not> agent_running W a)) \<and>
           retry_due (qw_now W) (qi_next_attempt_at i) \<and>
           queue_dependencies_satisfied items i)"

definition item_order :: "queue_item_row \<Rightarrow> int \<times> string" where
  "item_order i = (qi_position i, qi_id i)"

definition queue_ready_items_with_activity ::
  "queue_world \<Rightarrow> queue_run_row \<Rightarrow> queue_item_row list \<Rightarrow> activity_snapshot \<Rightarrow> queue_item_row list" where
  "queue_ready_items_with_activity W run items activity =
     (if qr_execution_mode run \<noteq> ModeGraph
      then (case min_by_key item_order
                   (filter (\<lambda>i. \<not> item_is_terminal (qi_status i)) items) of
              None \<Rightarrow> []
            | Some i \<Rightarrow> if queue_item_is_ready_to_spawn W items activity i then [i] else [])
      else sort_key item_order
             (filter (queue_item_is_ready_to_spawn W items activity) items))"

definition queue_active_item_count_with_activity :: "queue_item_row list \<Rightarrow> activity_snapshot \<Rightarrow> nat" where
  "queue_active_item_count_with_activity items activity =
     length (filter (\<lambda>i. worker_active_in_snapshot (qi_id i) activity \<or> item_is_active (qi_status i)) items)"

section \<open>Starting a worker\<close>

definition queue_item_worker_owner_id :: "queue_world \<Rightarrow> string \<Rightarrow> string" where
  "queue_item_worker_owner_id W key = ''pid:'' @ show_nat (qw_pid W) @ '':'' @ key"

text \<open>
  The lease first, then the entry in the set of this process; an item the process works on already
  gives the lease back. Returns whether a worker was started, and the set.
\<close>

definition spawn_web_queue_item_worker ::
  "queue_world \<Rightarrow> string \<Rightarrow> string list \<Rightarrow> queue_item_row \<Rightarrow> (qdb, bool \<times> string list) prog" where
  "spawn_web_queue_item_worker W run_id workers i =
     (let key = queue_item_worker_key run_id (qi_id i) in
      bnd (caught (acquire_web_queue_item_worker_lease_at run_id (qi_id i) (queue_item_worker_owner_id W key)
             (qw_now W) web_queue_worker_lease_ttl)) (\<lambda>result.
        case result of
          Inr (Acquired lease) \<Rightarrow>
            if key \<in> set workers
            then bnd (caught (release_web_queue_item_worker_lease (qw_now W) lease)) (\<lambda>_. ret (False, workers))
            else ret (True, workers @ [key])
        | _ \<Rightarrow> ret (False, workers)))"

fun spawn_each ::
  "queue_world \<Rightarrow> string \<Rightarrow> queue_item_row list \<Rightarrow> nat \<times> string list \<Rightarrow> (qdb, nat \<times> string list) prog" where
  "spawn_each W run_id [] acc = ret acc"
| "spawn_each W run_id (i # rest) (spawned, workers) =
     bnd (spawn_web_queue_item_worker W run_id workers i) (\<lambda>(started, workers').
       spawn_each W run_id rest (if started then spawned + 1 else spawned, workers'))"

section \<open>One iteration\<close>

datatype loop_step = LoopDone | LoopAgain | LoopSleep

definition queue_run_message :: "nat \<Rightarrow> (queue_item_row \<times> admission_wait) list \<Rightarrow> nat \<Rightarrow> nat \<Rightarrow> string" where
  "queue_run_message spawned waiting active runnable =
     (if spawned > 0
      then ''started '' @ show_nat spawned @ '' ready task(s); '' @ show_nat runnable @ '' active or waiting''
      else case waiting of
        (_, w) # _ \<Rightarrow> ''waiting for resource admission: '' @ aw_reason w @ ''; retry_at='' @
          show_nat (aw_next_retry_at w)
      | [] \<Rightarrow>
          if active > 0
          then ''running '' @ show_nat active @ '' task(s); '' @ show_nat runnable @ '' active or waiting''
          else ''waiting for dependencies'')"

definition stop_queue_run :: "queue_world \<Rightarrow> string \<Rightarrow> queue_item_row list \<Rightarrow> (qdb, unit) prog" where
  "stop_queue_run W run_id items =
     bnd (query (queue_activity_snapshot (qw_workers W) (qw_now W) run_id)) (\<lambda>activity.
       seq (for_each (\<lambda>i. if worker_active_in_snapshot (qi_id i) activity then ret ()
                           else pause_web_queue_item W run_id i (qi_agent_id i) (qi_attempts i))
              (filter (\<lambda>i. \<not> item_is_terminal (qi_status i)) items))
         (update_web_queue_run (qw_store W) run_id RunStopped (- 1) ''stopped by operator''))"

definition dispatch_queue_run ::
  "queue_world \<Rightarrow> queue_run_row \<Rightarrow> queue_item_row list \<Rightarrow> (qdb, string list) prog" where
  "dispatch_queue_run W run items =
     bnd (query (queue_activity_snapshot (qw_workers W) (qw_now W) (qr_id run))) (\<lambda>activity.
     bnd (apply_queue_admission (qw_admission W (qw_store W))
            (queue_ready_items_with_activity W run items activity)) (\<lambda>plan.
     bnd (spawn_each W (qr_id run) (pl_admitted plan) (0, qw_workers W)) (\<lambda>(spawned, workers).
       seq (update_web_queue_run (qw_store W) (qr_id run) RunRunning (- 1)
              (queue_run_message spawned (pl_waiting plan) (queue_active_item_count_with_activity items activity)
                 (length (filter (\<lambda>i. \<not> item_is_terminal (qi_status i)) items))))
         (ret workers))))"

definition finish_or_dispatch ::
  "queue_world \<Rightarrow> queue_run_row \<Rightarrow> queue_item_row list \<Rightarrow> (qdb, loop_step \<times> string list) prog" where
  "finish_or_dispatch W run items =
     (let run_id = qr_id run in
      case find (\<lambda>i. item_is_failed_or_blocked (qi_status i)) items of
        Some i \<Rightarrow>
          seq (update_web_queue_run (qw_store W) run_id RunFailed (qi_position i) (qi_message i))
            (ret (LoopDone, qw_workers W))
      | None \<Rightarrow>
          if list_all (\<lambda>i. item_is_terminal (qi_status i)) items
          then seq (update_web_queue_run (qw_store W) run_id RunSuccess (- 1) ''closed successfully'')
                 (ret (LoopDone, qw_workers W))
          else bnd (query (web_queue_stop_requested run_id)) (\<lambda>stop.
            if stop then seq (stop_queue_run W run_id items) (ret (LoopDone, qw_workers W))
            else bnd (dispatch_queue_run W run items) (\<lambda>workers. ret (LoopSleep, workers))))"

definition run_web_queue_step :: "queue_world \<Rightarrow> string \<Rightarrow> (qdb, loop_step \<times> string list) prog" where
  "run_web_queue_step W run_id =
     bnd (query (load_web_queue_run run_id)) (\<lambda>(run, items). case run of
       None \<Rightarrow> ret (LoopDone, qw_workers W)
     | Some r \<Rightarrow>
         if items = []
         then seq (update_web_queue_run (qw_store W) run_id RunFailed (- 1) ''queue has no items'')
                (ret (LoopDone, qw_workers W))
         else seq (modify (qw_sync_sessions W))
           (seq (recover_stale_web_queue_item_worker_leases_at run_id (qw_now W))
             (bnd (reconcile_queue_task_statuses W run_id items) (\<lambda>result. case result of
                RecChanged \<Rightarrow> ret (LoopAgain, qw_workers W)
              | RecTerminal \<Rightarrow> ret (LoopDone, qw_workers W)
              | RecUnchanged \<Rightarrow> finish_or_dispatch W r items))))"

section \<open>The thread of a run\<close>

text \<open>
  Each round is one iteration, with what the thread observes in it and what the rest of the system
  has written to the database since the last one. The rounds run out when the thread is still at
  work: the answer is \<open>False\<close> then.
\<close>

type_synonym round = "queue_world \<times> (qdb \<Rightarrow> qdb)"

fun queue_rounds :: "round list \<Rightarrow> string \<Rightarrow> (qdb, bool) prog" where
  "queue_rounds [] run_id = ret False"
| "queue_rounds ((W, others) # rest) run_id =
     seq (modify others) (bnd (run_web_queue_step W run_id) (\<lambda>(step, workers).
       if step = LoopDone then ret True else queue_rounds rest run_id))"

definition run_web_queue :: "queue_world \<Rightarrow> round list \<Rightarrow> string \<Rightarrow> (qdb, bool) prog" where
  "run_web_queue W rounds run_id =
     seq (update_web_queue_run (qw_store W) run_id RunRunning (- 1) ''running'') (queue_rounds rounds run_id)"

definition worker_thread_message :: "qerror \<Rightarrow> string" where
  "worker_thread_message e = (case e of Panic p \<Rightarrow> ''queue worker panicked: '' @ p | _ \<Rightarrow> error_text e)"

text \<open>The thread: an error or a panic of the loop fails the run.\<close>

definition web_queue_worker_thread :: "queue_world \<Rightarrow> round list \<Rightarrow> string \<Rightarrow> (qdb, bool) prog" where
  "web_queue_worker_thread W rounds run_id = (\<lambda>db.
     case run_web_queue W rounds run_id db of
       (Inr ended, db') \<Rightarrow> (Inr ended, db')
     | (Inl e, db') \<Rightarrow>
         (Inr True, snd (update_web_queue_run (qw_store W) run_id RunFailed (- 1) (worker_thread_message e) db')))"

section \<open>Ready items are safe, and there is one\<close>

text \<open>Nothing executes the item: no session, no worker, no agent, and no retry time ahead.\<close>

definition executor_idle :: "queue_world \<Rightarrow> activity_snapshot \<Rightarrow> queue_item_row \<Rightarrow> bool" where
  "executor_idle W activity i =
     (\<not> remote_session_alive W i \<and> \<not> worker_active_in_snapshot (qi_id i) activity \<and>
      (item_is_starting_or_running (qi_status i) \<longrightarrow>
         (case qi_agent_id i of None \<Rightarrow> True | Some a \<Rightarrow> \<not> agent_running W a)) \<and>
      retry_due (qw_now W) (qi_next_attempt_at i))"

definition dependencies_done :: "queue_item_row list \<Rightarrow> queue_item_row \<Rightarrow> bool" where
  "dependencies_done items i = (\<forall>c \<in> set items. qi_id c \<in> set (qi_depends_on i) \<longrightarrow> qi_status c = ItemSuccess)"

lemma dependencies_satisfied_iff:
  assumes "distinct (map qi_id items)"
  shows "queue_dependencies_satisfied items i \<longleftrightarrow> dependencies_done items i"
proof -
  have found: "find (\<lambda>c. qi_id c = d) items = Some c \<longleftrightarrow> c \<in> set items \<and> qi_id c = d" for d c
    using item_table.lookup_iff [of items d c] assms by simp
  have "(case find (\<lambda>c. qi_id c = d) items of None \<Rightarrow> True | Some c \<Rightarrow> qi_status c = ItemSuccess) \<longleftrightarrow>
      (\<forall>c \<in> set items. qi_id c = d \<longrightarrow> qi_status c = ItemSuccess)" for d
  proof (cases "find (\<lambda>c. qi_id c = d) items")
    case None
    with found [of d] show ?thesis by auto
  next
    case (Some a)
    have same: "c = a" if "c \<in> set items" "qi_id c = d" for c using found [of d c] that Some by simp
    have "a \<in> set items" "qi_id a = d" using found [of d a] Some by simp_all
    then have "(\<forall>c \<in> set items. qi_id c = d \<longrightarrow> qi_status c = ItemSuccess) \<longleftrightarrow> qi_status a = ItemSuccess"
      using same by blast
    with Some show ?thesis by simp
  qed
  then show ?thesis
    by (auto simp: queue_dependencies_satisfied_def dependencies_done_def list_all_iff)
qed

lemma ready_iff:
  assumes "distinct (map qi_id items)"
  shows "queue_item_is_ready_to_spawn W items activity i \<longleftrightarrow>
    \<not> item_is_terminal (qi_status i) \<and> executor_idle W activity i \<and> dependencies_done items i"
  unfolding queue_item_is_ready_to_spawn_def executor_idle_def dependencies_satisfied_iff [OF assms] by auto

text \<open>
  C32. The items an iteration may start are safe to start, and none is missed. Each is an item of
  the run that is not terminal, that no session, worker or agent executes, whose retry time has
  come and whose dependencies have all succeeded. They come in the order of the queue. In graph
  mode every such item is among them; in any other mode there is at most one, and every item before
  it is terminal.
\<close>

theorem ready_items_are_safe:
  fixes W :: queue_world and run :: queue_run_row and items :: "queue_item_row list" and activity :: activity_snapshot
  assumes "distinct (map qi_id items)"
  defines "ready \<equiv> queue_ready_items_with_activity W run items activity"
  shows "(\<forall>i \<in> set ready. i \<in> set items \<and> \<not> item_is_terminal (qi_status i) \<and> executor_idle W activity i \<and>
      dependencies_done items i) \<and> sorted (map item_order ready) \<and>
    (if qr_execution_mode run = ModeGraph
     then \<forall>i \<in> set items. \<not> item_is_terminal (qi_status i) \<and> executor_idle W activity i \<and>
       dependencies_done items i \<longrightarrow> i \<in> set ready
     else length ready \<le> 1 \<and>
       (\<forall>i \<in> set ready. \<forall>j \<in> set items. item_order j < item_order i \<longrightarrow> item_is_terminal (qi_status j)))"
proof (cases "qr_execution_mode run = ModeGraph")
  case True
  then show ?thesis
    by (auto simp: ready_def queue_ready_items_with_activity_def ready_iff [OF assms(1)])
next
  case False
  let ?todo = "filter (\<lambda>i. \<not> item_is_terminal (qi_status i)) items"
  show ?thesis
  proof (cases "min_by_key item_order ?todo")
    case None
    with False show ?thesis by (simp add: ready_def queue_ready_items_with_activity_def)
  next
    case (Some m)
    have m: "m \<in> set ?todo" "\<forall>x \<in> set ?todo. item_order m \<le> item_order x"
      using min_by_key_Some [OF Some] by auto
    have before: "item_is_terminal (qi_status j)" if "j \<in> set items" "item_order j < item_order m" for j
    proof (rule ccontr)
      assume "\<not> item_is_terminal (qi_status j)"
      with that(1) m(2) have "item_order m \<le> item_order j" by auto
      with that(2) show False by simp
    qed
    have "ready = (if queue_item_is_ready_to_spawn W items activity m then [m] else [])"
      using False Some by (simp add: ready_def queue_ready_items_with_activity_def)
    moreover have "m \<in> set items" "\<not> item_is_terminal (qi_status m)" using m(1) by auto
    ultimately show ?thesis
      unfolding if_not_P [OF False] using before ready_iff [OF assms(1), of W activity m] by simp
  qed
qed

theorem ready_items_are_safe_witness:
  "let ready = queue_ready_items_with_activity sample_world (sample_run\<lparr>qr_execution_mode := ModeSequence\<rparr>)
       [sample_item ''b'' 1, sample_item ''a'' 0] (queue_activity_snapshot [] 50 ''r1'' sample_db)
   in length ready \<le> 1 \<and> (\<forall>i \<in> set ready. i = sample_item ''a'' 0)"
proof -
  let ?items = "[sample_item ''b'' 1, sample_item ''a'' 0]"
  have d: "distinct (map qi_id ?items)" by (simp add: sample_item_def)
  have seq: "qr_execution_mode (sample_run\<lparr>qr_execution_mode := ModeSequence\<rparr>) \<noteq> ModeGraph" by simp
  have open': "\<not> item_is_terminal (qi_status (sample_item ''a'' 0))"
      "item_order (sample_item ''a'' 0) < item_order (sample_item ''b'' 1)"
    by (simp_all add: sample_item_def item_is_terminal_def item_order_def)
  note safe = ready_items_are_safe [OF d, of sample_world "sample_run\<lparr>qr_execution_mode := ModeSequence\<rparr>"
      "queue_activity_snapshot [] 50 ''r1'' sample_db", unfolded if_not_P [OF seq]]
  have "i = sample_item ''a'' 0" if "i = sample_item ''a'' 0 \<or> i = sample_item ''b'' 1"
    "\<forall>j \<in> set ?items. item_order j < item_order i \<longrightarrow> item_is_terminal (qi_status j)" for i
  proof (rule ccontr)
    assume "i \<noteq> sample_item ''a'' 0"
    with that(1) have "i = sample_item ''b'' 1" by blast
    with that(2) open' show False by auto
  qed
  with safe show ?thesis unfolding Let_def by auto
qed

section \<open>A queue is never stuck\<close>

lemma lowest_open_item:
  assumes "acyclic (graph_edges items)" and "\<exists>i \<in> set items. P i"
  shows "\<exists>i \<in> set items. P i \<and> (\<forall>c \<in> set items. qi_id c \<in> set (qi_depends_on i) \<longrightarrow> \<not> P c)"
proof -
  from finite_graph_edges have wf: "wf ((graph_edges items)\<inverse>)" using assms(1) by (rule finite_acyclic_wf_converse)
  let ?A = "qi_id ` {i \<in> set items. P i}"
  from assms(2) obtain a where a: "a \<in> ?A" by blast
  from wf [unfolded wf_eq_minimal, THEN spec, THEN spec, THEN mp, OF a]
  obtain z where z: "z \<in> ?A" "\<forall>y. (y, z) \<in> (graph_edges items)\<inverse> \<longrightarrow> y \<notin> ?A" by (elim bexE) (rule that)
  then obtain i where i: "i \<in> set items" "P i" "z = qi_id i" by blast
  have "\<not> P c" if "c \<in> set items" "qi_id c \<in> set (qi_depends_on i)" for c
  proof
    assume "P c"
    with that have "qi_id c \<in> ?A" by blast
    moreover have "(qi_id c, z) \<in> (graph_edges items)\<inverse>" using that i by (auto simp: graph_edges_def)
    ultimately show False using z(2) by blast
  qed
  with i show ?thesis by blast
qed

text \<open>
  C33. A queue whose executors are all idle is never stuck. When no item has failed, some item is
  not terminal, every such item is idle and due, and the dependencies have no cycle (which the
  graph validation guarantees; outside graph mode the items have none), then an iteration has an
  item to start.
\<close>

theorem idle_queue_has_work:
  fixes W :: queue_world and run :: queue_run_row and items :: "queue_item_row list" and activity :: activity_snapshot
  assumes "distinct (map qi_id items)" and "acyclic (graph_edges items)"
    and "qr_execution_mode run = ModeGraph \<or> graph_edges items = {}"
    and "\<forall>i \<in> set items. \<not> item_is_failed_or_blocked (qi_status i)"
    and "\<exists>i \<in> set items. \<not> item_is_terminal (qi_status i)"
    and "\<forall>i \<in> set items. \<not> item_is_terminal (qi_status i) \<longrightarrow> executor_idle W activity i"
  shows "queue_ready_items_with_activity W run items activity \<noteq> []"
proof -
  have done': "qi_status c = ItemSuccess" if "c \<in> set items" "item_is_terminal (qi_status c)" for c
    using assms(4) that by (auto simp: item_is_terminal_def item_is_failed_or_blocked_def)
  have ready: "queue_item_is_ready_to_spawn W items activity i"
    if "i \<in> set items" "\<not> item_is_terminal (qi_status i)"
      "\<forall>c \<in> set items. qi_id c \<in> set (qi_depends_on i) \<longrightarrow> item_is_terminal (qi_status c)" for i
    using that assms(6) done' unfolding ready_iff [OF assms(1)] dependencies_done_def by blast
  show ?thesis
  proof (cases "qr_execution_mode run = ModeGraph")
    case True
    from lowest_open_item [OF assms(2,5)] obtain i where "i \<in> set items" "\<not> item_is_terminal (qi_status i)"
        "\<forall>c \<in> set items. qi_id c \<in> set (qi_depends_on i) \<longrightarrow> item_is_terminal (qi_status c)" by auto
    with ready have "i \<in> set (filter (queue_item_is_ready_to_spawn W items activity) items)" by simp
    then have "i \<in> set (queue_ready_items_with_activity W run items activity)"
      using True by (simp add: queue_ready_items_with_activity_def)
    then show ?thesis by auto
  next
    case False
    with assms(3) have free: "qi_depends_on i = []" if "i \<in> set items" for i
      using that by (cases "qi_depends_on i") (force simp: graph_edges_def)+
    let ?todo = "filter (\<lambda>i. \<not> item_is_terminal (qi_status i)) items"
    have "?todo \<noteq> []" using assms(5) by (auto simp: filter_empty_conv)
    then obtain m where m: "min_by_key item_order ?todo = Some m"
      using min_by_key_None [of item_order ?todo] by (cases "min_by_key item_order ?todo") auto
    then have "m \<in> set ?todo" by (rule min_by_key_Some [THEN conjunct1])
    with ready free have "queue_item_is_ready_to_spawn W items activity m" by auto
    with False m show ?thesis by (simp add: queue_ready_items_with_activity_def)
  qed
qed

theorem idle_queue_has_work_witness:
  "queue_ready_items_with_activity sample_world sample_run [sample_item ''b'' 1, sample_item ''a'' 0]
     \<lparr>as_local = [], as_leased = []\<rparr> \<noteq> []"
proof -
  let ?items = "[sample_item ''b'' 1, sample_item ''a'' 0]"
  have "qi_depends_on (sample_item a p) = []" for a p by (simp add: sample_item_def)
  then have free: "graph_edges ?items = {}" by (auto simp: graph_edges_def)
  then have "acyclic (graph_edges ?items)" by (simp add: acyclic_def)
  moreover have "distinct (map qi_id ?items)" by (simp add: sample_item_def)
  moreover have "\<forall>i \<in> set ?items. qi_status i = ItemPending \<and> qi_next_attempt_at i = None \<and>
      \<not> queue_item_remote_native i"
    by (simp add: sample_item_def)
  moreover have "qr_execution_mode sample_run = ModeGraph" by (simp add: sample_run_def)
  ultimately show ?thesis
    by (intro idle_queue_has_work)
       (auto simp: executor_idle_def remote_session_alive_def worker_active_in_snapshot_def retry_due_def
          item_is_starting_or_running_def item_is_terminal_def item_is_failed_or_blocked_def)
qed

section \<open>One worker for an item\<close>

abbreviation spawn_key :: "string \<Rightarrow> queue_item_row \<Rightarrow> string" where
  "spawn_key r i \<equiv> queue_item_worker_key r (qi_id i)"

abbreviation spawn_owner :: "queue_world \<Rightarrow> string \<Rightarrow> queue_item_row \<Rightarrow> string" where
  "spawn_owner W r i \<equiv> queue_item_worker_owner_id W (spawn_key r i)"

text \<open>The row of the item is open, due, and nobody holds its lease.\<close>

definition startable :: "queue_world \<Rightarrow> string \<Rightarrow> string \<Rightarrow> qdb \<Rightarrow> bool" where
  "startable W r a db =
     ((case find_item r a db of None \<Rightarrow> False
       | Some j \<Rightarrow> \<not> item_is_terminal (qi_status j) \<and> retry_in_future (qw_now W) (qi_next_attempt_at j) = None) \<and>
      \<not> held (qw_now W) (lease_abs r a db))"

lemma spawn_owner_nonblank: "trim (queue_item_worker_owner_id W key) \<noteq> []"
proof -
  have "CHR ''p'' \<in> set (queue_item_worker_owner_id W key)" "\<not> is_whitespace (CHR ''p'')"
    by (simp_all add: queue_item_worker_owner_id_def is_whitespace_def)
  then show ?thesis unfolding trim_def trim_matches_Nil_iff by blast
qed

lemma run_acquire_startable:
  assumes "lease_inv db" and "trim owner \<noteq> []"
  shows "if startable W r a db
    then acquire_web_queue_item_worker_lease_at r a owner (qw_now W) ttl db =
      (Inr (Acquired (granted_token r a owner (qw_now W) ttl db)), grant_db r a owner (qw_now W) ttl db)
    else \<exists>x. acquire_web_queue_item_worker_lease_at r a owner (qw_now W) ttl db = (Inr x, db) \<and> (\<forall>t. x \<noteq> Acquired t)"
  using active_iff_held [OF assms(1), of r a "qw_now W"] assms(2)
  unfolding run_acquire [OF lease_inv_schema [OF assms(1)]] startable_def
  by (auto split: option.split)

lemma run_spawn:
  assumes "lease_inv db"
  shows "spawn_web_queue_item_worker W r workers i db =
    (if \<not> startable W r (qi_id i) db then (Inr (False, workers), db)
     else let db' = grant_db r (qi_id i) (spawn_owner W r i) (qw_now W) web_queue_worker_lease_ttl db;
              t = granted_token r (qi_id i) (spawn_owner W r i) (qw_now W) web_queue_worker_lease_ttl db
       in if spawn_key r i \<in> set workers
          then (Inr (False, workers), snd (release_web_queue_item_worker_lease (qw_now W) t db'))
          else (Inr (True, workers @ [spawn_key r i]), db'))"
proof (cases "startable W r (qi_id i) db")
  case False
  with run_acquire_startable [OF assms spawn_owner_nonblank, of W r "qi_id i" W "spawn_key r i" web_queue_worker_lease_ttl]
  obtain x where "acquire_web_queue_item_worker_lease_at r (qi_id i) (spawn_owner W r i) (qw_now W)
      web_queue_worker_lease_ttl db = (Inr x, db)" "\<forall>t. x \<noteq> Acquired t" by auto
  with False show ?thesis
    by (cases x) (simp_all add: spawn_web_queue_item_worker_def Let_def run_bnd caught_def)
next
  case True
  let ?db = "grant_db r (qi_id i) (spawn_owner W r i) (qw_now W) web_queue_worker_lease_ttl db"
  let ?t = "granted_token r (qi_id i) (spawn_owner W r i) (qw_now W) web_queue_worker_lease_ttl db"
  have acq: "acquire_web_queue_item_worker_lease_at r (qi_id i) (spawn_owner W r i) (qw_now W)
      web_queue_worker_lease_ttl db = (Inr (Acquired ?t), ?db)"
    using run_acquire_startable [OF assms spawn_owner_nonblank, of W r "qi_id i" W "spawn_key r i"] True by simp
  obtain j where "find_item r (qi_id i) db = Some j" using True by (auto simp: startable_def split: option.splits)
  then have "schema_ok ?db" using schema_ok_grant [OF lease_inv_schema [OF assms]] by blast
  then have "\<exists>b d. release_web_queue_item_worker_lease (qw_now W) ?t ?db = (Inr b, d)"
    by (simp add: run_release)
  with acq True show ?thesis
    by (auto simp: spawn_web_queue_item_worker_def Let_def run_bnd caught_def)
qed

text \<open>
  C34. A worker is started for an item exactly when its row is open and due, nobody holds its
  lease and this process does not work on it; then this process holds the lease, in a new epoch,
  for the time of a lease, and until then no process starts another worker for the item. Otherwise
  the set of workers is as it was and nobody holds a lease who did not before. The items and the
  runs never change.
\<close>

theorem spawn_is_exclusive:
  assumes "lease_inv db"
  shows "\<exists>started ws db'. spawn_web_queue_item_worker W r workers i db = (Inr (started, ws), db') \<and>
    lease_inv db' \<and> db_items db' = db_items db \<and> db_runs db' = db_runs db \<and>
    started = (startable W r (qi_id i) db \<and> spawn_key r i \<notin> set workers) \<and>
    ws = (if started then workers @ [spawn_key r i] else workers) \<and>
    (if started
     then (let expiry = sat_add_u64 (qw_now W) 120 in
       lease_abs r (qi_id i) db' = Some (next_lease_epoch (find_lease r (qi_id i) db), Some (spawn_owner W r i, expiry)) \<and>
       (\<forall>W' ws'. qw_now W' < expiry \<longrightarrow>
          spawn_web_queue_item_worker W' r ws' i db' = (Inr (False, ws'), db')))
     else \<forall>now b. held now (lease_abs r b db') \<longrightarrow> held now (lease_abs r b db))"
proof -
  let ?a = "qi_id i" and ?o = "spawn_owner W r i" and ?now = "qw_now W"
  let ?g = "grant_db r ?a ?o ?now web_queue_worker_lease_ttl db"
  let ?t = "granted_token r ?a ?o ?now web_queue_worker_lease_ttl db"
  show ?thesis
  proof (cases "startable W r ?a db")
    case False
    then show ?thesis using assms by (intro exI [of _ False] exI [of _ workers] exI [of _ db]) (simp add: run_spawn)
  next
    case True
    then obtain j where j: "find_item r ?a db = Some j" by (auto simp: startable_def split: option.splits)
    have inv: "lease_inv ?g" by (rule lease_inv_grant [OF assms j])
    obtain l where l: "find_lease r ?a ?g = Some l" "ql_owner_id l = Some ?o"
        "ql_lease_epoch l = next_lease_epoch (find_lease r ?a db)"
        "ql_expires_at l = Some (sat_add_u64 ?now web_queue_worker_lease_ttl)"
      by (rule find_lease_grant [OF assms j])
    have abs: "lease_abs r ?a ?g = Some (next_lease_epoch (find_lease r ?a db),
        Some (?o, sat_add_u64 ?now web_queue_worker_lease_ttl))"
      using l by (simp add: lease_abs_def [of r ?a ?g])
    have same: "db_items ?g = db_items db" "db_runs ?g = db_runs db" by (simp_all add: grant_db_def)
    show ?thesis
    proof (cases "spawn_key r i \<in> set workers")
      case False
      have "\<not> startable W' r ?a ?g" if "qw_now W' < sat_add_u64 ?now 120" for W'
        using that abs by (simp add: startable_def held_def web_queue_worker_lease_ttl_def)
      then show ?thesis
        using True False abs inv same
        by (intro exI [of _ True] exI [of _ "workers @ [spawn_key r i]"] exI [of _ ?g])
           (simp add: run_spawn assms Let_def web_queue_worker_lease_ttl_def)
    next
      case held': True
      let ?d = "snd (release_web_queue_item_worker_lease ?now ?t ?g)"
      have t: "lease_run_id ?t = r" "lease_item_id ?t = ?a" "lease_owner_id ?t = ?o"
          "lease_lease_epoch ?t = next_lease_epoch (find_lease r ?a db)"
        by (simp_all add: granted_token_def)
      have d: "?d = ?g\<lparr>db_leases := update_where (\<lambda>l. token_key ?t l \<and> ql_owner_id l = Some (lease_owner_id ?t))
          (\<lambda>l. l\<lparr>ql_owner_id := None, ql_expires_at := None, ql_released_at := Some ?now, ql_updated_at := ?now\<rparr>)
          (db_leases ?g)\<rparr>"
        by (simp add: run_release [OF lease_inv_schema [OF inv]])
      have "lease_inv ?d" unfolding d by (rule lease_inv_update [OF inv]) (simp_all add: lease_keys_def)
      moreover have "db_items ?d = db_items db" "db_runs ?d = db_runs db" using same unfolding d by simp_all
      moreover have "\<not> held now (lease_abs r ?a ?d)" for now
        using refine_release [OF inv, of ?t ?now] abs unfolding t by (simp add: spec_release_def held_def)
      moreover have "lease_abs r b ?d = lease_abs r b db" if "b \<noteq> ?a" for b
      proof -
        have "lease_abs r b ?d = lease_abs r b ?g"
          by (rule lease_abs_other_token(2) [OF inv]) (use that t in simp)
        also have "\<dots> = lease_abs r b (snd (acquire_web_queue_item_worker_lease_at r ?a ?o ?now web_queue_worker_lease_ttl db))"
          using run_acquire_startable [OF assms spawn_owner_nonblank, of W r ?a W "spawn_key r i"] True by simp
        also have "\<dots> = lease_abs r b db" by (rule lease_abs_other [OF assms j]) (use that in simp)
        finally show ?thesis .
      qed
      ultimately show ?thesis
        using True held'
        by (intro exI [of _ False] exI [of _ workers] exI [of _ ?d]) (simp add: run_spawn assms Let_def, metis)
    qed
  qed
qed

theorem spawn_is_exclusive_witness:
  "\<exists>ws db'. spawn_web_queue_item_worker sample_world ''r1'' [] (sample_item ''a'' 0) sample_db = (Inr (True, ws), db') \<and>
     ws = [''r1:a''] \<and>
     spawn_web_queue_item_worker (sample_world\<lparr>qw_pid := 2\<rparr>) ''r1'' [] (sample_item ''a'' 0) db' = (Inr (False, []), db')"
proof -
  have "\<not> item_is_terminal (qi_status (sample_item ''a'' 0))" "qi_next_attempt_at (sample_item ''a'' 0) = None"
      and a: "qi_id (sample_item ''a'' 0) = ''a''"
    by (simp_all add: sample_item_def item_is_terminal_def)
  moreover have "lease_abs ''r1'' ''a'' sample_db = None"
    by (simp add: lease_abs_def find_lease_def sample_db_def empty_db_def)
  ultimately have start: "startable sample_world ''r1'' ''a'' sample_db"
    using sample_db_find(1) by (simp add: startable_def held_def retry_in_future_def)
  have now: "qw_now (sample_world\<lparr>qw_pid := 2\<rparr>) < sat_add_u64 (qw_now sample_world) 120"
    by (simp add: sample_world_def sample_env_def sat_add_u64_def u64_max_def)
  from spawn_is_exclusive [OF sample_db_lease_inv, of sample_world "''r1''" "[]" "sample_item ''a'' 0"]
  obtain started ws db' where run: "spawn_web_queue_item_worker sample_world ''r1'' [] (sample_item ''a'' 0) sample_db =
      (Inr (started, ws), db')" and st: "started" "ws = [''r1:a'']"
    and other: "\<forall>W' ws'. qw_now W' < sat_add_u64 (qw_now sample_world) 120 \<longrightarrow>
      spawn_web_queue_item_worker W' ''r1'' ws' (sample_item ''a'' 0) db' = (Inr (False, ws'), db')"
    using start unfolding a by (auto simp: Let_def queue_item_worker_key_def)
  from other [THEN spec, THEN spec, THEN mp, OF now] run st show ?thesis by auto
qed

section \<open>What an iteration keeps\<close>

text \<open>
  The loop also works on leases. An invariant that allows this is a \<open>loop_invariant\<close>; one that
  allows the last write of a successful run as well is a \<open>closing_invariant\<close>.
\<close>

definition world_keeps :: "(qdb \<Rightarrow> bool) \<Rightarrow> queue_world \<Rightarrow> bool" where
  "world_keeps I W = (sync_keeps I W \<and> (\<forall>db. I db \<longrightarrow> I (qw_sync_sessions W db)))"

lemma world_keeps_sessions: "world_keeps I W \<Longrightarrow> keeps I (modify (qw_sync_sessions W))"
  by (simp add: world_keeps_def keeps_def)

lemma world_keeps_sync: "world_keeps I W \<Longrightarrow> sync_keeps I W"
  by (simp add: world_keeps_def)

lemma keeps_case_acquire [keeps_intro]:
  "(\<And>t. keeps I (a t)) \<Longrightarrow> (\<And>o' e x. keeps I (b o' e x)) \<Longrightarrow> (\<And>n. keeps I (c n)) \<Longrightarrow> (\<And>s. keeps I (d s)) \<Longrightarrow>
   keeps I m \<Longrightarrow>
   keeps I (case y of Acquired t \<Rightarrow> a t | Busy o' e x \<Rightarrow> b o' e x | Retryable n \<Rightarrow> c n | Terminal s \<Rightarrow> d s | Missing \<Rightarrow> m)"
  by (cases y) auto

locale loop_invariant = worker_invariant +
  assumes acquires: "keeps I (acquire_web_queue_item_worker_lease_at r a owner now ttl)"
    and releases: "keeps I (release_web_queue_item_worker_lease now t)"
    and recovers: "keeps I (recover_stale_web_queue_item_worker_leases_at r now)"
begin

lemma keeps_spawn [keeps_intro]: "keeps I (spawn_web_queue_item_worker W r workers i)"
  unfolding spawn_web_queue_item_worker_def Let_def by (intro keeps_intro acquires releases)

lemma keeps_spawn_each [keeps_intro]: "keeps I (spawn_each W r is acc)"
proof (induction "is" arbitrary: acc)
  case (Cons i rest)
  then show ?case by (cases acc) (auto intro!: keeps_intro)
qed (simp add: keeps_ret)

lemma keeps_stop [keeps_intro]: "keeps I (stop_queue_run W r is)"
  unfolding stop_queue_run_def pause_web_queue_item_def by (intro keeps_intro)

lemma keeps_dispatch [keeps_intro]: "keeps I (dispatch_queue_run W run is)"
  unfolding dispatch_queue_run_def by (intro keeps_intro)

end

locale closing_invariant = loop_invariant +
  assumes closes: "keeps I (update_web_queue_run E r RunSuccess p m)"
begin

lemma keeps_case_reconcile:
  "keeps I a \<Longrightarrow> keeps I b \<Longrightarrow> keeps I c \<Longrightarrow>
   keeps I (case y of RecUnchanged \<Rightarrow> a | RecChanged \<Rightarrow> b | RecTerminal \<Rightarrow> c)"
  by (cases y) auto

lemma keeps_step:
  assumes "world_keeps I W"
  shows "keeps I (run_web_queue_step W r)"
  unfolding run_web_queue_step_def finish_or_dispatch_def Let_def
  by (intro keeps_intro keeps_case_reconcile closes recovers world_keeps_sessions [OF assms]
      keeps_reconcile_statuses [OF world_keeps_sync [OF assms]])

lemma keeps_rounds:
  "\<forall>(W, others) \<in> set rounds. world_keeps I W \<and> (\<forall>db. I db \<longrightarrow> I (others db)) \<Longrightarrow> keeps I (queue_rounds rounds r)"
proof (induction rounds)
  case (Cons x rest)
  obtain W others where x: "x = (W, others)" by (cases x)
  with Cons have "world_keeps I W" "keeps I (modify others)" "keeps I (queue_rounds rest r)"
    by (auto simp: keeps_def)
  then show ?case unfolding x queue_rounds.simps by (intro keeps_intro keeps_step)
qed (simp add: keeps_ret)

lemma keeps_thread:
  assumes "\<forall>(W, others) \<in> set rounds. world_keeps I W \<and> (\<forall>db. I db \<longrightarrow> I (others db))"
  shows "keeps I (web_queue_worker_thread W rounds r)"
proof -
  have run: "keeps I (run_web_queue W rounds r)"
    unfolding run_web_queue_def by (intro keeps_intro keeps_rounds assms)
  have last': "keeps I (update_web_queue_run (qw_store W) r RunFailed (- 1) m)" for m by (intro keeps_intro)
  show ?thesis
    unfolding keeps_def web_queue_worker_thread_def
    using run last' by (auto simp: keeps_def split: prod.split sum.split)
qed

end

text \<open>The lease operations change lease rows only.\<close>

lemma keeps_lease_operations:
  assumes "\<And>db ls. I db \<Longrightarrow> schema_ok (db\<lparr>db_leases := ls\<rparr>) \<Longrightarrow> I (db\<lparr>db_leases := ls\<rparr>)"
  shows "keeps I (acquire_web_queue_item_worker_lease_at r a owner now ttl)"
    and "keeps I (release_web_queue_item_worker_lease now t)"
    and "keeps I (recover_stale_web_queue_item_worker_leases_at r now)"
proof -
  have upd: "keeps I (update_leases ctx p f)" for ctx p f
    unfolding update_leases_def by (intro keeps_sql assms)
  show "keeps I (acquire_web_queue_item_worker_lease_at r a owner now ttl)"
    unfolding acquire_web_queue_item_worker_lease_at_def Let_def
    by (intro keeps_intro keeps_sql assms)
  show "keeps I (release_web_queue_item_worker_lease now t)"
    unfolding release_web_queue_item_worker_lease_def by (intro keeps_intro upd)
  show "keeps I (recover_stale_web_queue_item_worker_leases_at r now)"
    using upd unfolding keeps_def recover_stale_web_queue_item_worker_leases_at_def by blast
qed

lemma keeps_success_write:
  assumes "\<And>db q g. (\<And>x. qr_id (g x) = qr_id x) \<Longrightarrow> I db \<Longrightarrow> schema_ok (db\<lparr>db_runs := update_where q g (db_runs db)\<rparr>) \<Longrightarrow>
      I (db\<lparr>db_runs := update_where q g (db_runs db)\<rparr>)"
  shows "keeps I (update_web_queue_run E r RunSuccess p m)"
  unfolding update_web_queue_run_def update_runs_def by (intro keeps_intro keeps_sql assms) simp_all

lemma lease_inv_operations:
  "keeps lease_inv (acquire_web_queue_item_worker_lease_at r a owner now ttl)"
  "keeps lease_inv (release_web_queue_item_worker_lease now t)"
  "keeps lease_inv (recover_stale_web_queue_item_worker_leases_at r now)"
proof -
  show "keeps lease_inv (acquire_web_queue_item_worker_lease_at r a owner now ttl)"
    by (rule keepsI) (auto simp: run_acquire lease_inv_schema lease_inv_grant split: option.split)
  show "keeps lease_inv (release_web_queue_item_worker_lease now t)"
    by (rule keepsI) (simp add: run_release lease_inv_schema lease_inv_update lease_keys_def)
  show "keeps lease_inv (recover_stale_web_queue_item_worker_leases_at r now)"
    by (rule keepsI) (simp add: run_recover lease_inv_schema lease_inv_update lease_keys_def)
qed

interpretation loop_open: loop_invariant "run_open r" for r
  by unfold_locales (intro keeps_lease_operations; simp add: run_open_def)+

interpretation loop_schema: closing_invariant schema_ok
  by unfold_locales (intro keeps_lease_operations keeps_success_write; simp)+

interpretation loop_items: closing_invariant "item_keys_are K" for K
  by unfold_locales (intro keeps_lease_operations keeps_success_write; simp add: item_keys_are_def)+

interpretation loop_tabs: closing_invariant tabs_inv
  by unfold_locales (intro keeps_lease_operations keeps_success_write; erule tabs_inv_other; simp)+

interpretation loop_leases: closing_invariant lease_inv
  by unfold_locales
     (rule lease_inv_operations | intro keeps_success_write; erule lease_inv_other; simp)+

section \<open>The verdict of a run\<close>

definition verdict_justified :: "queue_item_row list \<Rightarrow> queue_run_status \<Rightarrow> bool" where
  "verdict_justified items st =
     (st = RunFailed \<or> st = RunStopped \<or>
      (st = RunSuccess \<and> items \<noteq> [] \<and> (\<forall>i \<in> set items. qi_status i = ItemSuccess)))"

text \<open>An iteration that ends the loop leaves a justified verdict, any other no success.\<close>

definition ends_justified :: "string \<Rightarrow> queue_item_row list \<Rightarrow> (qdb, loop_step \<times> string list) prog \<Rightarrow> qdb \<Rightarrow> bool" where
  "ends_justified r items m db =
     (case m db of
        (Inr (LoopDone, ws), db') \<Rightarrow>
          schema_ok db' \<and> (\<forall>x. find_run r db' = Some x \<longrightarrow> verdict_justified items (qr_status x))
      | (_, db') \<Rightarrow> run_open r db')"

lemma ends_justified_bnd:
  assumes "keeps (run_open r) m" and "gives P m" and "run_open r db"
    and "\<And>x d. run_open r d \<Longrightarrow> P x \<Longrightarrow> ends_justified r items (k x) d"
  shows "ends_justified r items (bnd m k) db"
proof (cases "m db")
  case (Pair y d)
  have d: "run_open r d" using keepsD [OF assms(1,3) Pair] .
  show ?thesis
  proof (cases y)
    case (Inl e)
    with Pair d show ?thesis by (simp add: ends_justified_def run_bnd)
  next
    case (Inr x)
    with Pair assms(2) have "P x" unfolding gives_def by blast
    with assms(4) [OF d] Pair Inr show ?thesis by (simp add: ends_justified_def run_bnd)
  qed
qed

lemma gives_any: "gives (\<lambda>_. True) m"
  by (simp add: gives_def)

lemmas ends_justified_then = ends_justified_bnd [OF _ gives_any]

lemma ends_justified_on: "run_open r db \<Longrightarrow> s \<noteq> LoopDone \<Longrightarrow> ends_justified r items (ret (s, ws)) db"
  by (cases s) (simp_all add: ends_justified_def)

lemma run_open_schema: "run_open r db \<Longrightarrow> schema_ok db"
  by (simp add: run_open_def)

lemma status_after_mark:
  fixes W :: queue_world
  assumes "schema_ok db"
  shows "\<exists>d. update_web_queue_run (qw_store W) r st p m db = (Inr (), d) \<and> schema_ok d \<and>
    (\<forall>x. find_run r d = Some x \<longrightarrow> qr_status x = stored_run_status st)"
proof -
  obtain d where d: "update_web_queue_run (qw_store W) r st p m db = (Inr (), d)" "touches r [] id (mark_run W st p m) db d"
    using run_mark_run_touches [OF assms] by blast
  then have "find_run r d = map_option (mark_run W st p m) (find_run r db)" by (simp add: touches_def)
  with d touches_schema [OF d(2)] show ?thesis by (auto simp: mark_run_def)
qed

lemma ends_justified_verdict:
  fixes W :: queue_world
  assumes "run_open r db" and "verdict_justified items (stored_run_status st)"
  shows "ends_justified r items (seq (update_web_queue_run (qw_store W) r st p m) (ret (LoopDone, ws))) db"
  using status_after_mark [OF run_open_schema [OF assms(1)], of W r st p m] assms(2)
  by (auto simp: ends_justified_def run_bnd)

lemma ends_justified_finish:
  assumes "run_open r db" and "items \<noteq> []" and "qr_id run = r"
  shows "ends_justified r items (finish_or_dispatch W run items) db"
proof (cases "find (\<lambda>i. item_is_failed_or_blocked (qi_status i)) items")
  case (Some i)
  then show ?thesis
    by (simp add: finish_or_dispatch_def assms ends_justified_verdict verdict_justified_def)
next
  case None
  then have none: "\<forall>i \<in> set items. \<not> item_is_failed_or_blocked (qi_status i)" by (simp add: find_None_iff)
  show ?thesis
  proof (cases "list_all (\<lambda>i. item_is_terminal (qi_status i)) items")
    case True
    with none have "\<forall>i \<in> set items. qi_status i = ItemSuccess"
      by (auto simp: list_all_iff item_is_terminal_def item_is_failed_or_blocked_def)
    with None True assms show ?thesis
      by (simp add: finish_or_dispatch_def ends_justified_verdict verdict_justified_def)
  next
    case False
    have stop: "ends_justified r items (seq (stop_queue_run W r items) (ret (LoopDone, ws))) db" for ws
      unfolding stop_queue_run_def bnd_assoc pause_web_queue_item_def
      by (intro ends_justified_then [OF _ assms(1)] ends_justified_then ends_justified_verdict keeps_intro
          kept_open.keeps_update_item; (assumption | simp add: verdict_justified_def))
    have go: "ends_justified r items (bnd (dispatch_queue_run W run items) (\<lambda>workers. ret (LoopSleep, workers))) db"
      by (intro ends_justified_then [OF _ assms(1)] loop_open.keeps_dispatch ends_justified_on; simp)
    show ?thesis
      using None False stop go
      by (simp add: finish_or_dispatch_def assms(3) ends_justified_def run_bnd split: if_split)
  qed
qed

lemma step_ends_justified:
  assumes "run_open r db" and "world_keeps (run_open r) W"
  shows "ends_justified r (snd (load_web_queue_run r db)) (run_web_queue_step W r) db"
proof (cases "find_run r db")
  case None
  then show ?thesis
    using assms(1) by (simp add: run_web_queue_step_def load_web_queue_run_def ends_justified_def run_open_def)
next
  case (Some run)
  let ?items = "run_items (qr_id run) db"
  have id: "qr_id run = r" using Some find_run_Some_iff [OF run_open_schema [OF assms(1)]] by simp
  note go = ends_justified_then [where r = r]
  have reconcile: "ends_justified r ?items (bnd (reconcile_queue_task_statuses W r ?items) (\<lambda>result. case result of
      RecChanged \<Rightarrow> ret (LoopAgain, qw_workers W) | RecTerminal \<Rightarrow> ret (LoopDone, qw_workers W)
    | RecUnchanged \<Rightarrow> finish_or_dispatch W run ?items)) d" if d: "run_open r d" and ne: "?items \<noteq> []" for d
    unfolding reconcile_queue_task_statuses_def bnd_assoc
  proof (rule ends_justified_bnd [OF kept_open.keeps_reconcile_items [OF world_keeps_sync [OF assms(2)]]
          gives_reconcile_items [OF ends_badly_None] d], goal_cases)
    case (1 acc d')
    obtain changed verdict where acc: "acc = (changed, verdict)" by (cases acc)
    show ?case
    proof (cases verdict)
      case None
      with 1 ne id show ?thesis by (simp add: acc ends_justified_on ends_justified_finish)
    next
      case (Some v)
      obtain st p m where v: "v = (st, p, m)" by (cases v)
      with 1 Some acc have "verdict_justified ?items (stored_run_status st)"
        by (auto simp: ends_badly_def verdict_justified_def)
      with 1(1) show ?thesis
        unfolding acc Some v prod.case option.case bnd_assoc bnd_ret queue_reconcile.case
        by (rule ends_justified_verdict)
    qed
  qed
  have failed: "ends_justified r ?items (seq (update_web_queue_run (qw_store W) r RunFailed (- 1) m) (ret (LoopDone, ws))) db" for m ws
    by (rule ends_justified_verdict [OF assms(1)]) (simp add: verdict_justified_def)
  have rest: "ends_justified r ?items (seq (modify (qw_sync_sessions W))
      (seq (recover_stale_web_queue_item_worker_leases_at r (qw_now W)) k)) db"
    if "\<And>d. run_open r d \<Longrightarrow> ends_justified r ?items k d" for k
    by (rule ends_justified_then [OF world_keeps_sessions [OF assms(2)] assms(1)],
        rule ends_justified_then [OF loop_open.recovers], assumption, rule that)
  have "snd (load_web_queue_run r db) = ?items" "load_web_queue_run r db = (Some run, ?items)"
    using Some by (simp_all add: load_web_queue_run_def)
  then show ?thesis
    using failed rest [OF reconcile] 
    by (cases "?items = []") (simp_all add: run_web_queue_step_def ends_justified_def)
qed

text \<open>
  C35. The verdict of a run is justified. When an iteration of an unsuccessful run ends the loop,
  the run is failed or stopped, or it is successful, and then the iteration had loaded at least one
  item and every item it had loaded was successful. An iteration that goes on, or that ends with an
  error or a panic, leaves the run without a success. What the child process and the session files
  write must not itself make the run successful.
\<close>

theorem run_verdict_is_justified:
  assumes "run_open r db" and "world_keeps (run_open r) W"
  shows "ends_justified r (snd (load_web_queue_run r db)) (run_web_queue_step W r) db"
  by (rule step_ends_justified [OF assms])

lemma sample_world_keeps: "world_keeps I sample_world"
  by (simp add: world_keeps_def sync_keeps_def sample_world_def)

theorem run_verdict_is_justified_witness:
  "ends_justified ''r1'' [sample_item ''a'' 0, sample_item ''b'' 1] (run_web_queue_step sample_world ''r1'') sample_db"
proof -
  have "run_open ''r1'' sample_db"
    using sample_db_ok sample_db_find(3) by (simp add: run_open_def sample_run_def)
  moreover have "snd (load_web_queue_run ''r1'' sample_db) = [sample_item ''a'' 0, sample_item ''b'' 1]"
    using sample_db_find(3)
    by (simp add: load_web_queue_run_def run_items_def sample_run_def sample_db_def sample_item_def empty_db_def)
  ultimately show ?thesis
    using run_verdict_is_justified [OF _ sample_world_keeps, of "''r1''" sample_db] by simp
qed

section \<open>The thread\<close>

abbreviation settled :: "queue_run_status \<Rightarrow> bool" where
  "settled s \<equiv> s \<in> {RunFailed, RunStopped, RunSuccess}"

definition rounds_keep :: "(qdb \<Rightarrow> bool) \<Rightarrow> round list \<Rightarrow> bool" where
  "rounds_keep I rounds = (\<forall>(W, others) \<in> set rounds. world_keeps I W \<and> (\<forall>db. I db \<longrightarrow> I (others db)))"

definition run_settled :: "string \<Rightarrow> qdb \<Rightarrow> bool" where
  "run_settled r db = (case find_run r db of None \<Rightarrow> True | Some x \<Rightarrow> settled (qr_status x))"

lemma justified_settled: "verdict_justified items s \<Longrightarrow> settled s"
  by (auto simp: verdict_justified_def)

text \<open>The step lemma in the form the induction over the rounds needs.\<close>

lemma step_outcome:
  assumes "run_open r db" and "world_keeps (run_open r) W"
  shows "case run_web_queue_step W r db of
      (Inr (LoopDone, ws), db') \<Rightarrow> run_settled r db'
    | (_, db') \<Rightarrow> run_open r db'"
  using step_ends_justified [OF assms] justified_settled
  unfolding ends_justified_def run_settled_def
  by (auto split: prod.splits sum.splits loop_step.splits option.split)

lemma rounds_outcome:
  "run_open r db \<Longrightarrow> rounds_keep (run_open r) rounds \<Longrightarrow>
   (case queue_rounds rounds r db of (Inr True, db') \<Rightarrow> run_settled r db' | (_, db') \<Rightarrow> run_open r db')"
proof (induction rounds arbitrary: db)
  case (Cons x rest)
  obtain W others where x: "x = (W, others)" by (cases x)
  have W: "world_keeps (run_open r) W" "run_open r (others db)" and rest: "rounds_keep (run_open r) rest"
    using Cons.prems by (auto simp: rounds_keep_def x)
  obtain y d where step: "run_web_queue_step W r (others db) = (y, d)" by fastforce
  note out = step_outcome [OF W(2,1), unfolded step prod.case]
  show ?case
  proof (cases y)
    case (Inl e)
    with step out show ?thesis by (simp add: x run_bnd)
  next
    case (Inr p)
    obtain s ws where p: "p = (s, ws)" by (cases p)
    show ?thesis
    proof (cases "s = LoopDone")
      case True
      with step out Inr p show ?thesis by (simp add: x run_bnd)
    next
      case False
      with out Inr p have "run_open r d" by (cases s) simp_all
      from Cons.IH [OF this rest] show ?thesis using step Inr p False by (simp add: x run_bnd)
    qed
  qed
qed simp

text \<open>
  C36. The thread of a run never leaves it without an end. Whatever it meets, errors and panics
  included, the thread itself does not fail; when it ends, the run is failed, stopped or successful,
  and while it is at work the run is not successful. This holds from any state of the database,
  whatever the other threads write between the iterations, as long as they do not make the run
  successful themselves.
\<close>

theorem worker_thread_settles_run:
  assumes "schema_ok db" and "rounds_keep (run_open r) rounds"
  shows "\<exists>ended db'. web_queue_worker_thread W rounds r db = (Inr ended, db') \<and>
    (if ended then run_settled r db' else run_open r db')"
proof -
  obtain d where d: "update_web_queue_run (qw_store W) r RunRunning (- 1) ''running'' db = (Inr (), d)" "schema_ok d"
      "\<forall>x. find_run r d = Some x \<longrightarrow> qr_status x = RunRunning"
    using status_after_mark [OF assms(1), of W r RunRunning "- 1" "''running''"] by auto
  then have "run_open r d" by (auto simp: run_open_def split: option.split)
  note out = rounds_outcome [OF this assms(2)]
  have run: "run_web_queue W rounds r db = queue_rounds rounds r d"
    using d(1) by (simp add: run_web_queue_def run_bnd)
  obtain y d' where y: "queue_rounds rounds r d = (y, d')" by fastforce
  show ?thesis
  proof (cases y)
    case (Inr ended)
    then show ?thesis
      using run y out
      by (intro exI [of _ ended] exI [of _ d']; cases ended) (simp_all add: web_queue_worker_thread_def)
  next
    case (Inl e)
    with y out have "schema_ok d'" by (simp add: run_open_def)
    from status_after_mark [OF this, of W r RunFailed "- 1" "worker_thread_message e"]
    obtain d'' where "update_web_queue_run (qw_store W) r RunFailed (- 1) (worker_thread_message e) d' = (Inr (), d'')"
        "\<forall>x. find_run r d'' = Some x \<longrightarrow> qr_status x = RunFailed" by auto
    then show ?thesis
      using run y Inl
      by (intro exI [of _ True] exI [of _ d'']) (simp add: web_queue_worker_thread_def run_settled_def split: option.split)
  qed
qed

theorem worker_thread_settles_run_witness:
  "\<exists>ended db'. web_queue_worker_thread sample_world [(sample_world, id), (sample_world, id)] ''r1'' sample_db = (Inr ended, db') \<and>
     (if ended then run_settled ''r1'' db' else run_open ''r1'' db')"
  by (rule worker_thread_settles_run [OF sample_db_ok]) (simp add: rounds_keep_def sample_world_keeps)

text \<open>
  The thread of a run keeps the invariants of the queue. Whatever happens in its iterations,
  the schema and the rules of the tabs hold, every lease belongs to an item and has an owner exactly
  when it has an expiry, and no item appears, disappears or moves; provided that the child process,
  the session files and the other threads keep them too.
\<close>

theorem worker_thread_keeps_invariants:
  assumes "rounds_keep tabs_inv rounds" and "rounds_keep lease_inv rounds" and "rounds_keep (item_keys_are K) rounds"
    and "tabs_inv db" and "lease_inv db" and "item_keys_are K db"
  shows "tabs_inv (snd (web_queue_worker_thread W rounds r db)) \<and>
    lease_inv (snd (web_queue_worker_thread W rounds r db)) \<and>
    item_keys_are K (snd (web_queue_worker_thread W rounds r db))"
  using loop_tabs.keeps_thread [of rounds W r] loop_leases.keeps_thread [of rounds W r]
    loop_items.keeps_thread [of rounds K W r] assms
  unfolding rounds_keep_def keeps_def by blast

theorem worker_thread_keeps_invariants_witness:
  "tabs_inv (snd (web_queue_worker_thread sample_world [(sample_world, id)] ''r1'' sample_db)) \<and>
   map item_keys (db_items (snd (web_queue_worker_thread sample_world [(sample_world, id)] ''r1'' sample_db))) =
     [(''a'', ''r1'', 0, ''slug-a''), (''b'', ''r1'', 1, ''slug-b'')]"
proof -
  have keep: "rounds_keep I [(sample_world, id)]" for I
    by (simp add: rounds_keep_def sample_world_keeps)
  have "item_keys_are [(''a'', ''r1'', 0, ''slug-a''), (''b'', ''r1'', 1, ''slug-b'')] sample_db"
    by (simp add: item_keys_are_def sample_db_def sample_item_def item_keys_def)
  from worker_thread_keeps_invariants [OF keep keep keep sample_db_inv sample_db_lease_inv this]
  show ?thesis unfolding item_keys_are_def by blast
qed

end
