(* ===== verification/Queue_Api.thy ===== *)
theory Queue_Api
  imports Queue_Runner Queue_Requests
begin

text \<open>
  The handlers of the queue interface (\<open>src/src/webapp/queue_api.rs\<close>,
  \<open>src/src/webapp/queue_api_cleanup.rs\<close>): starting, extending, editing, stopping, continuing,
  trimming and clearing a queue, and its tabs. Each handler answers with a response; the requests to
  start the thread of a run are the change of the set of runs that have one.

  A handler may reject a dependency graph with its diagnostics, and it may never return, when the
  search for a free slug does not end. The cleanup a handler leaves to a background thread is run
  after its other work.
\<close>

datatype 'a api_answer = Answered 'a | GraphRejected graph_validation_error | NeverReturns

type_synonym run_workers = "string list"

section \<open>Starting the thread of a run\<close>

text \<open>Whether a thread is started, and the runs that have one.\<close>

definition spawn_web_queue_worker :: "run_workers \<Rightarrow> string \<Rightarrow> bool \<times> run_workers" where
  "spawn_web_queue_worker workers run_id =
     (if run_id \<in> set workers then (False, workers) else (True, workers @ [run_id]))"

abbreviation with_worker :: "api_world \<Rightarrow> string \<Rightarrow> run_workers" where
  "with_worker A run_id \<equiv> snd (spawn_web_queue_worker (aw_run_workers A) run_id)"

section \<open>A new queue\<close>

definition with_graph ::
  "queue_execution_mode \<Rightarrow> queue_item_row list \<Rightarrow> graph_item_metadata list \<Rightarrow>
   (graph_diagnostics \<Rightarrow> queue_item_row list \<Rightarrow> (qdb, 'a api_answer) prog) \<Rightarrow> (qdb, 'a api_answer) prog" where
  "with_graph mode items metadata k =
     (case normalize_queue_dependencies_with_metadata mode items metadata of
        None \<Rightarrow> ret NeverReturns
      | Some (Inl e, _) \<Rightarrow> ret (GraphRejected e)
      | Some (Inr g, items') \<Rightarrow> k g items')"

definition request_run_id :: "api_world \<Rightarrow> queue_run_request \<Rightarrow> string" where
  "request_run_id A payload =
     clean_queue_run_id (case nonblank (rr_run_id payload) of
       Some r \<Rightarrow> r | None \<Rightarrow> base36_time_id (aw_now A))"

definition request_tab_id :: "queue_run_request \<Rightarrow> string option" where
  "request_tab_id payload = Option.bind (rr_tab_id payload) (\<lambda>t. non_empty (clean_queue_tab_id t))"

definition request_run :: "api_world \<Rightarrow> queue_run_request \<Rightarrow> queue_run_row" where
  "request_run A payload =
     queue_run_from_request (aw_world A) (request_run_id A payload) payload (trim (rr_agent_command payload))
       (clean_queue_execution_mode (rr_execution_mode payload)) (aw_now A)"

definition request_has_local_item :: "api_world \<Rightarrow> queue_run_request \<Rightarrow> bool" where
  "request_has_local_item A payload =
     list_ex (\<lambda>i. trim (ri_prompt i) \<noteq> [] \<and>
        resolve_queue_item_execution_host (ri_execution_host i) None
          (resolve_queue_execution_host (aw_world A) (rr_execution_host payload)) = HostLocal) (rr_items payload)"

definition handle_queue_run_result ::
  "api_world \<Rightarrow> queue_run_request \<Rightarrow> (qdb, (string \<times> graph_diagnostics \<times> run_workers) api_answer) prog" where
  "handle_queue_run_result A payload =
     seq (check_write_token A)
       (let command = trim (rr_agent_command payload);
            run = request_run A payload;
            prompts = runnable_requests (rr_items payload)
        in if command = [] then throw (Bail ''queue agent command is empty'')
           else if request_has_local_item A payload \<and> command \<notin> set (aw_commands A)
           then throw (Bail (''unknown queue agent command: '' @ command))
           else if prompts = [] then throw (Bail ''queue has no runnable items'')
           else (case queue_items_from_requests run prompts 0 {} (aw_now A) of
             None \<Rightarrow> ret NeverReturns
           | Some items \<Rightarrow>
               seq (validate_queue_execution_hosts run items)
                 (with_graph (qr_execution_mode run) items (map metadata_of_run_request prompts) (\<lambda>g items'.
                    seq (ensure_queue_run_conflict_free (aw_store A) run items')
                      (seq (replace_web_queue_with_assignment (aw_store A) run items' (request_tab_id payload))
                        (ret (Answered (qr_id run, g, with_worker A (qr_id run)))))))))"

section \<open>More items\<close>

definition no_metadata :: graph_item_metadata where
  "no_metadata = \<lparr>gm_wave_id = None, gm_wave_index = None\<rparr>"

definition append_position :: "queue_item_row list \<Rightarrow> int" where
  "append_position existing =
     sat_add_i64 (if existing = [] then - 1 else Max (qi_position ` set existing)) 1"

definition handle_queue_append_result ::
  "api_world \<Rightarrow> string \<Rightarrow> queue_run_item_request list \<Rightarrow>
   (qdb, (nat \<times> graph_diagnostics \<times> run_workers) api_answer) prog" where
  "handle_queue_append_result A payload_run_id payload_items =
     seq (check_write_token A)
       (let run_id = clean_queue_run_id payload_run_id in
        bnd (query (load_web_queue_run run_id)) (\<lambda>(run, existing). case run of
          None \<Rightarrow> throw (Bail (''unknown queue run: '' @ run_id))
        | Some run \<Rightarrow>
            if \<not> run_is_appendable (qr_status run) then throw (Bail ''queue is not appendable'')
            else
              (let prompts = runnable_requests payload_items in
               if prompts = [] then throw (Bail ''queue append has no runnable items'')
               else (case queue_items_from_requests run prompts (append_position existing)
                            (qi_slug ` set existing) (aw_now A) of
                 None \<Rightarrow> ret NeverReturns
               | Some items \<Rightarrow>
                   seq (validate_queue_execution_hosts run items)
                     (with_graph (qr_execution_mode run) (existing @ items)
                        (replicate (length existing) no_metadata @ map metadata_of_run_request prompts)
                        (\<lambda>g all_items.
                           let items' = filter (\<lambda>i. qi_id i \<in> qi_id ` set items) all_items
                           in seq (append_web_queue_items (aw_store A) run_id items')
                                (ret (Answered (length items', g, with_worker A run_id)))))))))"

section \<open>Editing items\<close>

definition queue_item_editable_while_running ::
  "queue_world \<Rightarrow> queue_run_row \<Rightarrow> queue_item_row \<Rightarrow> (qdb, bool) prog" where
  "queue_item_editable_while_running W run i =
     (if \<not> item_is_pending_or_waiting (qi_status i) then ret False
      else bnd (query (queue_item_worker_active (qw_workers W) (qw_now W) (qr_id run) (qi_id i))) (\<lambda>active.
        if qi_agent_id i \<noteq> None \<or> active then ret False
        else if qi_position i \<le> qr_current_index run then ret False
        else bnd (collect_queue_status_evidence_for_item W (qr_id run) i) (\<lambda>e.
          if red_status (reduce_queue_status e) = EffStaleUnknown then ret False
          else ret (case ev_task_status e of
              None \<Rightarrow> True
            | Some s \<Rightarrow> \<not> (s = ''paused'' \<or> queue_task_status_terminal s)))))"

definition updated_plan ::
  "queue_run_row \<Rightarrow> queue_item_row \<Rightarrow> queue_update_item_request \<Rightarrow> queue_item_row" where
  "updated_plan run i req =
     i\<lparr>qi_prompt := trim (ui_prompt req),
       qi_position := (case ui_position req of None \<Rightarrow> qi_position i | Some p \<Rightarrow> p),
       qi_depends_on := (case ui_depends_on req of None \<Rightarrow> [] | Some ds \<Rightarrow> ds),
       qi_repo_root := nonblank (coalesce (ui_repo_root req) (qr_selected_repo_root run)),
       qi_repo_name := nonblank (coalesce (ui_repo_name req) (qr_selected_repo_name run)),
       qi_agent_command := (case nonblank (ui_agent_command req) of
          Some c \<Rightarrow> c | None \<Rightarrow> qr_selected_agent_command run),
       qi_execution_host := resolve_queue_item_execution_host (ui_execution_host req)
          (Some (qi_execution_host i)) (qr_execution_host run),
       qi_task_class := (case ui_task_class req of
          None \<Rightarrow> qi_task_class i | Some c \<Rightarrow> class_from_setting (Some c)),
       qi_remote_launcher := update_queue_item_remote_launcher (ui_remote_launcher req)
          (qi_remote_launcher i) (qr_remote_launcher run),
       qi_local_proxy := resolve_queue_item_optional_setting (ui_local_proxy req)
          (qi_local_proxy i) (qr_local_proxy run),
       qi_remote_proxy := resolve_queue_item_optional_setting (ui_remote_proxy req)
          (qi_remote_proxy i) (qr_remote_proxy run)\<rparr>"

definition apply_queue_update_item ::
  "queue_world \<Rightarrow> queue_run_row \<Rightarrow> queue_item_row \<Rightarrow> queue_update_item_request \<Rightarrow> (qdb, queue_item_row) prog" where
  "apply_queue_update_item W run i req =
     bnd (queue_item_editable_while_running W run i) (\<lambda>editable.
       if \<not> editable then throw (Bail (''queue item is already active: '' @ qi_id i))
       else if (case ui_position req of None \<Rightarrow> False | Some p \<Rightarrow> p \<le> qr_current_index run)
       then throw (Bail (''queue item cannot move before the active cursor: '' @ qi_id i))
       else if trim (ui_prompt req) = [] then throw (Bail (''queue item prompt is empty: '' @ qi_id i))
       else ret (updated_plan run i req))"

text \<open>The items in order; an item without a request stays as it is.\<close>

fun apply_queue_updates ::
  "queue_world \<Rightarrow> queue_run_row \<Rightarrow> (string \<Rightarrow> queue_update_item_request option) \<Rightarrow> queue_item_row list \<Rightarrow>
   (qdb, queue_item_row list) prog" where
  "apply_queue_updates W run requested [] = ret []"
| "apply_queue_updates W run requested (i # rest) =
     bnd (case requested (qi_id i) of None \<Rightarrow> ret i | Some req \<Rightarrow> apply_queue_update_item W run i req) (\<lambda>i'.
       bnd (apply_queue_updates W run requested rest) (\<lambda>rest'. ret (i' # rest')))"

text \<open>The last request for an id counts.\<close>

definition requested_updates :: "queue_update_item_request list \<Rightarrow> string \<Rightarrow> queue_update_item_request option" where
  "requested_updates reqs = map_of (rev (map (\<lambda>r. (ui_id r, r)) (filter (\<lambda>r. trim (ui_id r) \<noteq> []) reqs)))"

definition requested_ids :: "queue_update_item_request list \<Rightarrow> string set" where
  "requested_ids reqs = ui_id ` set (filter (\<lambda>r. trim (ui_id r) \<noteq> []) reqs)"

definition handle_queue_update_result ::
  "api_world \<Rightarrow> string \<Rightarrow> queue_update_item_request list \<Rightarrow>
   (qdb, (nat \<times> graph_diagnostics \<times> run_workers) api_answer) prog" where
  "handle_queue_update_result A payload_run_id payload_items =
     seq (check_write_token A)
       (let run_id = clean_queue_run_id payload_run_id in
        bnd (query (load_web_queue_run run_id)) (\<lambda>(run, existing). case run of
          None \<Rightarrow> throw (Bail (''unknown queue run: '' @ run_id))
        | Some run \<Rightarrow>
            if \<not> run_is_editable (qr_status run) then throw (Bail ''queue is not editable'')
            else
              (let requested = requested_updates payload_items; ids = requested_ids payload_items in
               if ids = {} then throw (Bail ''queue update has no items'')
               else bnd (apply_queue_updates (aw_world A) run requested existing) (\<lambda>all_items.
                 if card (qi_id ` set existing \<inter> ids) \<noteq> card ids
                 then throw (Bail ''queue update references unknown item'')
                 else seq (validate_queue_execution_hosts run all_items)
                   (with_graph (qr_execution_mode run) all_items
                      (map (\<lambda>i. case requested (qi_id i) of
                         None \<Rightarrow> no_metadata | Some r \<Rightarrow> metadata_of_update_request r) all_items)
                      (\<lambda>g all_items'.
                         let updates = filter (\<lambda>i. qi_id i \<in> ids) all_items'
                         in seq (update_web_queue_item_plans (aw_store A) run_id updates)
                              (ret (Answered (length updates, g, with_worker A run_id)))))))))"

section \<open>Stopping and continuing\<close>

definition handle_queue_stop_result :: "api_world \<Rightarrow> string option \<Rightarrow> (qdb, unit) prog" where
  "handle_queue_stop_result A payload_run_id =
     seq (check_write_token A)
       (request_web_queue_stop (aw_store A) (Option.bind payload_run_id (\<lambda>r. non_empty (clean_queue_run_id r))))"

definition queue_run_active :: "string \<Rightarrow> qdb \<Rightarrow> bool" where
  "queue_run_active run_id db =
     (case fst (load_web_queue_run run_id db) of None \<Rightarrow> False | Some r \<Rightarrow> run_is_active (qr_status r))"

definition handle_queue_continue_result :: "api_world \<Rightarrow> string \<Rightarrow> (qdb, run_workers) prog" where
  "handle_queue_continue_result A payload_run_id =
     seq (check_write_token A)
       (let run_id = clean_queue_run_id payload_run_id in
        bnd (caught (continue_web_queue_run (aw_store A) run_id)) (\<lambda>result. case result of
          Inr _ \<Rightarrow> ret (with_worker A run_id)
        | Inl e \<Rightarrow>
            bnd (continue_resolved_failed_queue_run (aw_world A) (aw_run_workers A) run_id) (\<lambda>(resumable, spawned).
              if \<not> resumable then throw e
              else bnd (query (queue_run_active run_id)) (\<lambda>active.
                ret (if spawned \<or> active then with_worker A run_id else aw_run_workers A)))))"

section \<open>Tabs\<close>

definition unique_queue_tab_id :: "api_world \<Rightarrow> string \<Rightarrow> (qdb, string) prog" where
  "unique_queue_tab_id A prefix =
     (let base = clean_queue_tab_id prefix in
      if base = [] then throw (Bail ''invalid queue tab id'')
      else bnd (load_web_queue_tabs (aw_now A)) (\<lambda>tabs.
        let existing = qt_id ` set tabs in
        if base \<notin> existing then ret base
        else (case find (\<lambda>c. c \<notin> existing) (map (\<lambda>n. base @ ''-'' @ show_nat n) [2..<100]) of
            Some candidate \<Rightarrow> ret candidate
          | None \<Rightarrow> throw (Bail ''failed to allocate queue tab id''))))"

definition handle_queue_tab_create_result :: "api_world \<Rightarrow> string option \<Rightarrow> (qdb, string) prog" where
  "handle_queue_tab_create_result A label =
     seq (check_write_token A)
       (bnd (unique_queue_tab_id A (''queue-'' @ base36_time_id (aw_now A))) (\<lambda>tab_id.
          seq (create_and_activate_web_queue_tab (aw_now A) tab_id
                 (clean_queue_tab_label (case Option.bind label (\<lambda>l. non_empty (trim l)) of
                    Some l \<Rightarrow> l | None \<Rightarrow> ''Queue'')))
            (ret tab_id)))"

definition handle_queue_tab_switch_result :: "api_world \<Rightarrow> string \<Rightarrow> (qdb, unit) prog" where
  "handle_queue_tab_switch_result A payload_tab_id =
     seq (check_write_token A)
       (let tab_id = clean_queue_tab_id payload_tab_id in
        if tab_id = [] then throw (Bail ''invalid queue tab id'')
        else activate_web_queue_tab (aw_now A) tab_id)"

definition queue_run_has_live_work_with_agents ::
  "queue_run_row \<Rightarrow> queue_item_row list \<Rightarrow> string list \<Rightarrow> bool" where
  "queue_run_has_live_work_with_agents run items running_agents =
     (run_is_active (qr_status run) \<or>
      list_ex (\<lambda>i. item_is_active (qi_status i) \<or>
        (case qi_agent_id i of None \<Rightarrow> False | Some a \<Rightarrow> a \<in> set running_agents)) items)"

section \<open>Cleaning up after deleted items\<close>

text \<open>Terminating an agent is an effect on processes; its result is ignored here.\<close>

definition cleanup_existing_task_agent_artifacts :: "string \<Rightarrow> task_record_row option \<Rightarrow> (qdb, unit) prog" where
  "cleanup_existing_task_agent_artifacts task_id task =
     (if task = None then ret () else delete_task_record task_id)"

definition cleanup_queue_item_artifacts ::
  "queue_world \<Rightarrow> queue_item_row \<Rightarrow> string option \<Rightarrow> string option \<Rightarrow> (qdb, unit) prog" where
  "cleanup_queue_item_artifacts W i payload_task_id payload_agent_id =
     (let task_id = (case nonblank payload_task_id of Some t \<Rightarrow> t | None \<Rightarrow> ''task/'' @ qi_slug i) in
      bnd (get_task_record task_id) (\<lambda>found.
        let task = Option.bind found (\<lambda>t. if queue_task_record_matches_item W i t then Some t else None);
            agent_id = coalesce (nonblank payload_agent_id)
              (coalesce (qi_agent_id i) (Option.bind task tk_agent_id))
        in if queue_item_remote_native i
           then seq (if task = None then ret () else delete_task_record task_id)
             (case agent_id of
                None \<Rightarrow> ret ()
              | Some a \<Rightarrow> bnd (cleanup_queue_executor W i a) (\<lambda>_. ret ()))
           else cleanup_existing_task_agent_artifacts task_id task))"

definition cleanup_queue_items_artifacts_best_effort :: "queue_world \<Rightarrow> queue_item_row list \<Rightarrow> (qdb, unit) prog" where
  "cleanup_queue_items_artifacts_best_effort W items =
     for_each (\<lambda>i. bnd (caught (cleanup_queue_item_artifacts W i None None)) (\<lambda>_. ret ())) items"

text \<open>A background thread: what it writes stays, its end is not waited for, and a panic is its own.\<close>

definition detached :: "('s, unit) prog \<Rightarrow> ('s, unit) prog" where
  "detached m = (\<lambda>s. (Inr (), snd (m s)))"

definition cleanup_queue_items_artifacts_deferred :: "queue_world \<Rightarrow> queue_item_row list \<Rightarrow> (qdb, unit) prog" where
  "cleanup_queue_items_artifacts_deferred W items =
     (if items = [] then ret () else detached (cleanup_queue_items_artifacts_best_effort W items))"

definition cleanup_task_agent_artifacts :: "string option \<Rightarrow> (qdb, unit) prog" where
  "cleanup_task_agent_artifacts payload_task_id =
     (case nonblank payload_task_id of
        None \<Rightarrow> ret ()
      | Some task_id \<Rightarrow> bnd (get_task_record task_id) (cleanup_existing_task_agent_artifacts task_id))"

definition handle_queue_tab_delete_result :: "api_world \<Rightarrow> string \<Rightarrow> (qdb, unit) prog" where
  "handle_queue_tab_delete_result A payload_tab_id =
     seq (check_write_token A)
       (let tab_id = clean_queue_tab_id payload_tab_id; W = aw_world A in
        bnd (load_web_queue_tab (aw_now A) tab_id) (\<lambda>tab. case tab of
          None \<Rightarrow> throw (Bail (''unknown queue tab: '' @ tab_id))
        | Some tab \<Rightarrow>
            if qt_is_default tab then throw (Bail ''cannot delete the default queue tab'')
            else (case qt_run_id tab of
                None \<Rightarrow> delete_web_queue_tab (aw_now A) tab_id
              | Some run_id \<Rightarrow>
                  bnd (query (load_web_queue_run run_id)) (\<lambda>(run, items). case run of
                    None \<Rightarrow> delete_web_queue_tab (aw_now A) tab_id
                  | Some run \<Rightarrow>
                      if queue_run_has_live_work_with_agents run items (running_agent_ids W)
                      then throw (Bail ''cannot delete a queue tab while it has running work'')
                      else bnd (delete_web_queue_run_items (aw_now A) (qr_id run)) (\<lambda>cleanup_items.
                        seq (delete_web_queue_tab (aw_now A) tab_id)
                          (cleanup_queue_items_artifacts_deferred W cleanup_items))))))"

section \<open>Removing items and clearing queues\<close>

definition queue_item_removable_while_running ::
  "queue_world \<Rightarrow> queue_run_row \<Rightarrow> queue_item_row \<Rightarrow> (qdb, bool) prog" where
  "queue_item_removable_while_running W run i =
     (if item_is_terminal (qi_status i) then ret True
      else if item_is_pending_or_waiting (qi_status i) \<and> qi_agent_id i = None \<and>
              qi_position i > qr_current_index run then ret True
      else bnd (collect_queue_status_evidence_for_item W (qr_id run) i) (\<lambda>e.
        ret (case ev_task_status e of None \<Rightarrow> False | Some s \<Rightarrow> queue_task_status_terminal s)))"

text \<open>The item of an active run must be removable; \<open>None\<close>: there is nothing to remove.\<close>

definition removal_allowed ::
  "queue_world \<Rightarrow> queue_run_row option \<Rightarrow> queue_item_row option \<Rightarrow> (qdb, bool) prog" where
  "removal_allowed W run item =
     (case run of
        None \<Rightarrow> ret True
      | Some run \<Rightarrow>
          if \<not> run_is_active (qr_status run) then ret True
          else (case item of
              None \<Rightarrow> ret False
            | Some i \<Rightarrow> bnd (queue_item_removable_while_running W run i) (\<lambda>removable.
                if removable then ret True
                else throw (Bail ''cannot remove active queue items while the queue is running''))))"

definition handle_queue_remove_result :: "api_world \<Rightarrow> queue_remove_request \<Rightarrow> (qdb, unit) prog" where
  "handle_queue_remove_result A payload =
     seq (check_write_token A)
       (let run_id = clean_queue_run_id (rm_run_id payload); item_id = trim (rm_item_id payload); W = aw_world A in
        if item_id = [] \<or> list_ex is_control item_id then throw (Bail ''invalid queue item id'')
        else bnd (query (load_web_queue_run run_id)) (\<lambda>(run, items).
          bnd (removal_allowed W run (find (\<lambda>i. qi_id i = item_id) items)) (\<lambda>allowed.
            if \<not> allowed then ret ()
            else bnd (delete_web_queue_item_if_exists (aw_now A) run_id item_id) (\<lambda>deleted. case deleted of
              Some i \<Rightarrow> cleanup_queue_item_artifacts W i (nonblank (rm_task_id payload)) (nonblank (rm_agent_id payload))
            | None \<Rightarrow> cleanup_task_agent_artifacts (nonblank (rm_task_id payload))))))"

definition handle_queue_clear_result :: "api_world \<Rightarrow> string option \<Rightarrow> (qdb, nat) prog" where
  "handle_queue_clear_result A payload_run_id =
     seq (check_write_token A)
       (bnd (case Option.bind payload_run_id (\<lambda>r. non_empty (clean_queue_run_id r)) of
               Some run_id \<Rightarrow> query (load_web_queue_run run_id)
             | None \<Rightarrow> load_web_queue (aw_store A)) (\<lambda>(run, items). case run of
          None \<Rightarrow> ret 0
        | Some run \<Rightarrow>
            seq (if run_is_active (qr_status run) then request_web_queue_stop (aw_store A) (Some (qr_id run))
                 else ret ())
              (bnd (delete_web_queue_run_items (aw_now A) (qr_id run)) (\<lambda>cleanup_items.
                 seq (cleanup_queue_items_artifacts_deferred (aw_world A) cleanup_items)
                   (ret (length cleanup_items))))))"

section \<open>Responses\<close>

record terminal_send_response =
  ts_ok :: bool
  ts_output :: string
  ts_queue_graph :: "graph_diagnostics option"

definition success :: "string \<Rightarrow> terminal_send_response" where
  "success output = \<lparr>ts_ok = True, ts_output = output, ts_queue_graph = None\<rparr>"

definition success_with_queue_graph :: "string \<Rightarrow> graph_diagnostics \<Rightarrow> terminal_send_response" where
  "success_with_queue_graph output g = \<lparr>ts_ok = True, ts_output = output, ts_queue_graph = Some g\<rparr>"

definition failure :: "string \<Rightarrow> terminal_send_response" where
  "failure output = \<lparr>ts_ok = False, ts_output = output, ts_queue_graph = None\<rparr>"

definition failure_with_queue_graph :: "string \<Rightarrow> graph_diagnostics \<Rightarrow> terminal_send_response" where
  "failure_with_queue_graph output g = \<lparr>ts_ok = False, ts_output = output, ts_queue_graph = Some g\<rparr>"

text \<open>The response of a handler and the runs with a worker; \<open>None\<close> when the handler never returns.\<close>

type_synonym api_response = "(terminal_send_response \<times> run_workers) option"

definition respond ::
  "run_workers \<Rightarrow> (qdb, 'a) prog \<Rightarrow> ('a \<Rightarrow> terminal_send_response \<times> run_workers) \<Rightarrow> (qdb, api_response) prog" where
  "respond workers m f =
     bnd (caught m) (\<lambda>result. ret (Some (case result of
       Inr x \<Rightarrow> f x
     | Inl e \<Rightarrow> (failure (error_text e), workers))))"

definition respond_with_graph ::
  "run_workers \<Rightarrow> (qdb, 'a api_answer) prog \<Rightarrow> ('a \<Rightarrow> terminal_send_response \<times> run_workers) \<Rightarrow>
   (qdb, api_response) prog" where
  "respond_with_graph workers m f =
     bnd (caught m) (\<lambda>result. ret (case result of
       Inr (Answered x) \<Rightarrow> Some (f x)
     | Inr (GraphRejected e) \<Rightarrow> Some (failure_with_queue_graph (ge_message e) (ge_diagnostics e), workers)
     | Inr NeverReturns \<Rightarrow> None
     | Inl e \<Rightarrow> Some (failure (error_text e), workers)))"

definition handle_queue_run :: "api_world \<Rightarrow> queue_run_request \<Rightarrow> (qdb, api_response) prog" where
  "handle_queue_run A payload =
     respond_with_graph (aw_run_workers A) (handle_queue_run_result A payload) (\<lambda>(run_id, g, workers).
       (success_with_queue_graph (''queue-run'' @ [CHR 0x09] @ run_id) g, workers))"

definition handle_queue_append :: "api_world \<Rightarrow> string \<Rightarrow> queue_run_item_request list \<Rightarrow> (qdb, api_response) prog" where
  "handle_queue_append A run_id items =
     respond_with_graph (aw_run_workers A) (handle_queue_append_result A run_id items) (\<lambda>(n, g, workers).
       (success_with_queue_graph (''appended '' @ show_nat n @ '' queue item(s)'') g, workers))"

definition handle_queue_update :: "api_world \<Rightarrow> string \<Rightarrow> queue_update_item_request list \<Rightarrow> (qdb, api_response) prog" where
  "handle_queue_update A run_id items =
     respond_with_graph (aw_run_workers A) (handle_queue_update_result A run_id items) (\<lambda>(n, g, workers).
       (success_with_queue_graph (''updated '' @ show_nat n @ '' queue item(s)'') g, workers))"

definition handle_queue_stop :: "api_world \<Rightarrow> string option \<Rightarrow> (qdb, api_response) prog" where
  "handle_queue_stop A run_id =
     respond (aw_run_workers A) (handle_queue_stop_result A run_id)
       (\<lambda>_. (success ''queue stop requested'', aw_run_workers A))"

definition handle_queue_continue :: "api_world \<Rightarrow> string \<Rightarrow> (qdb, api_response) prog" where
  "handle_queue_continue A run_id =
     respond (aw_run_workers A) (handle_queue_continue_result A run_id)
       (\<lambda>workers. (success ''queue continued'', workers))"

definition handle_queue_tab_create :: "api_world \<Rightarrow> string option \<Rightarrow> (qdb, api_response) prog" where
  "handle_queue_tab_create A label =
     respond (aw_run_workers A) (handle_queue_tab_create_result A label)
       (\<lambda>tab_id. (success (''queue-tab'' @ [CHR 0x09] @ tab_id), aw_run_workers A))"

definition handle_queue_tab_switch :: "api_world \<Rightarrow> string \<Rightarrow> (qdb, api_response) prog" where
  "handle_queue_tab_switch A tab_id =
     respond (aw_run_workers A) (handle_queue_tab_switch_result A tab_id)
       (\<lambda>_. (success ''queue tab switched'', aw_run_workers A))"

definition handle_queue_tab_delete :: "api_world \<Rightarrow> string \<Rightarrow> (qdb, api_response) prog" where
  "handle_queue_tab_delete A tab_id =
     respond (aw_run_workers A) (handle_queue_tab_delete_result A tab_id)
       (\<lambda>_. (success ''queue tab deleted'', aw_run_workers A))"

definition handle_queue_remove :: "api_world \<Rightarrow> queue_remove_request \<Rightarrow> (qdb, api_response) prog" where
  "handle_queue_remove A payload =
     respond (aw_run_workers A) (handle_queue_remove_result A payload) (\<lambda>_. (success ''removed'', aw_run_workers A))"

definition handle_queue_clear :: "api_world \<Rightarrow> string option \<Rightarrow> (qdb, api_response) prog" where
  "handle_queue_clear A run_id =
     respond (aw_run_workers A) (handle_queue_clear_result A run_id)
       (\<lambda>n. (success (''cleared '' @ show_nat n @ '' queue item(s)''), aw_run_workers A))"

section \<open>The interface\<close>

datatype api_request =
    ApiRun queue_run_request
  | ApiAppend string "queue_run_item_request list"
  | ApiUpdate string "queue_update_item_request list"
  | ApiRemove queue_remove_request
  | ApiClear "string option"
  | ApiStop "string option"
  | ApiContinue string
  | ApiTabCreate "string option"
  | ApiTabSwitch string
  | ApiTabDelete string

text \<open>The route of each request.\<close>

fun serve_queue_api :: "api_world \<Rightarrow> api_request \<Rightarrow> (qdb, api_response) prog" where
  "serve_queue_api A (ApiRun p) = handle_queue_run A p"
| "serve_queue_api A (ApiAppend r is) = handle_queue_append A r is"
| "serve_queue_api A (ApiUpdate r is) = handle_queue_update A r is"
| "serve_queue_api A (ApiRemove p) = handle_queue_remove A p"
| "serve_queue_api A (ApiClear r) = handle_queue_clear A r"
| "serve_queue_api A (ApiStop r) = handle_queue_stop A r"
| "serve_queue_api A (ApiContinue r) = handle_queue_continue A r"
| "serve_queue_api A (ApiTabCreate l) = handle_queue_tab_create A l"
| "serve_queue_api A (ApiTabSwitch t) = handle_queue_tab_switch A t"
| "serve_queue_api A (ApiTabDelete t) = handle_queue_tab_delete A t"

end
