(* ===== verification/Queue_System.thy ===== *)
theory Queue_System
  imports Queue_Api Queue_Launch
begin

text \<open>
  The queue as a whole: requests of the operator, the threads of the runs and the treatment of runs
  without a worker act on one database. The locales \<open>queue_rows\<close> and \<open>queue_invariant\<close> extend those
  of the worker by what the operator's requests write; they are interpreted on the rules of the tabs,
  the rules of the leases and the absence of dependency cycles, and every execution of the system
  keeps them.
\<close>

section \<open>Dependencies within bounds\<close>

type_synonym dep_bounds = "string \<Rightarrow> string \<Rightarrow> string set"

definition deps_within :: "dep_bounds \<Rightarrow> qdb \<Rightarrow> bool" where
  "deps_within D db = (\<forall>i \<in> set (db_items db). set (qi_depends_on i) \<subseteq> D (qi_run_id i) (qi_id i))"

definition deps_of :: "qdb \<Rightarrow> dep_bounds" where
  "deps_of db r a = {b. \<exists>i \<in> set (db_items db). qi_run_id i = r \<and> qi_id i = a \<and> b \<in> set (qi_depends_on i)}"

definition bound_edges :: "dep_bounds \<Rightarrow> string \<Rightarrow> (string \<times> string) set" where
  "bound_edges D r = {(a, b). b \<in> D r a}"

lemma deps_within_self: "deps_within (deps_of db) db"
  by (auto simp: deps_within_def deps_of_def)

lemma edges_of_deps: "bound_edges (deps_of db) r = graph_edges (items_of_run r db)"
  by (auto simp: bound_edges_def deps_of_def graph_edges_def items_of_run_def)

lemma edges_within: "deps_within D db \<Longrightarrow> graph_edges (items_of_run r db) \<subseteq> bound_edges D r"
  by (auto simp: bound_edges_def deps_within_def graph_edges_def items_of_run_def)

lemma acyclic_within:
  assumes "schema_ok db" and "deps_within D db" and "\<And>r. acyclic (bound_edges D r)"
  shows "graphs_acyclic db"
  unfolding graphs_acyclic_def
  using assms(1) acyclic_subset [OF assms(3) edges_within [OF assms(2)]] by blast

lemma graphs_acyclic_bounds: "graphs_acyclic db \<Longrightarrow> acyclic (bound_edges (deps_of db) r)"
  by (simp add: edges_of_deps graphs_acyclic_def)

text \<open>What keeps every bound on the dependencies brings no cycle.\<close>

lemma keeps_graphs:
  assumes "\<And>D. keeps (\<lambda>db. schema_ok db \<and> deps_within D db) m"
  shows "keeps graphs_acyclic m"
  unfolding keeps_def
proof (intro allI impI)
  fix db assume I: "graphs_acyclic db"
  then have "schema_ok (snd (m db)) \<and> deps_within (deps_of db) (snd (m db))"
    using assms [of "deps_of db"] deps_within_self [of db] by (simp add: keeps_def graphs_acyclic_def)
  then show "graphs_acyclic (snd (m db))"
    using graphs_acyclic_bounds [OF I] by (intro acyclic_within [of _ "deps_of db"]) blast+
qed

text \<open>Edges out of a set of nodes make a cycle only inside it.\<close>

lemma acyclic_with_sinks:
  assumes "acyclic M" and "E \<subseteq> M \<union> {(a, b). b \<notin> A}" and "\<And>a b. (a, b) \<in> E \<Longrightarrow> a \<in> A"
  shows "acyclic E"
proof -
  have "(x, y) \<in> M\<^sup>+" if "(x, y) \<in> E\<^sup>+" "y \<in> A" for x y
    using that
  proof (induction rule: trancl_induct)
    case (base y)
    then show ?case using assms(2) by blast
  next
    case (step y z)
    have "y \<in> A" using step(2) assms(3) by blast
    moreover have "(y, z) \<in> M" using step(2,4) assms(2) by blast
    ultimately show ?case using step(3) by (meson trancl_into_trancl)
  qed
  moreover have "x \<in> A" if "(x, y) \<in> E\<^sup>+" for x y
    using that by (induction rule: trancl_induct) (use assms(3) in blast)+
  ultimately show ?thesis using assms(1) unfolding acyclic_def by blast
qed

section \<open>Invariants of the rows\<close>

text \<open>
  What the operator's requests write: runs of any status, items that are inserted, replanned or lose
  dependencies, and deletions. \<open>good\<close> says which items may be stored.
\<close>

locale queue_rows =
  fixes I :: "qdb \<Rightarrow> bool" and good :: "queue_item_row \<Rightarrow> bool"
  assumes schema: "I db \<Longrightarrow> schema_ok db"
    and drops: "(\<And>i. item_keys (f i) = item_keys i \<and> set (qi_depends_on (f i)) \<subseteq> set (qi_depends_on i)) \<Longrightarrow> I db \<Longrightarrow>
      schema_ok (db\<lparr>db_items := update_where p f (db_items db)\<rparr>) \<Longrightarrow>
      I (db\<lparr>db_items := update_where p f (db_items db)\<rparr>)"
    and inserts: "good i \<Longrightarrow> I db \<Longrightarrow> schema_ok (db\<lparr>db_items := db_items db @ [stored_item i]\<rparr>) \<Longrightarrow>
      I (db\<lparr>db_items := db_items db @ [stored_item i]\<rparr>)"
    and deletes: "I db \<Longrightarrow> schema_ok (delete_items_db q db) \<Longrightarrow> I (delete_items_db q db)"
    and run_deletes: "I db \<Longrightarrow> schema_ok (delete_runs_db q' db) \<Longrightarrow> I (delete_runs_db q' db)"
    and run_table: "I db \<Longrightarrow> schema_ok (db\<lparr>db_runs := rs\<rparr>) \<Longrightarrow> I (db\<lparr>db_runs := rs\<rparr>)"
    and tab_table: "I db \<Longrightarrow> schema_ok (db\<lparr>db_tabs := ts\<rparr>) \<Longrightarrow> I (db\<lparr>db_tabs := ts\<rparr>)"
    and attempt_table: "I db \<Longrightarrow> schema_ok (db\<lparr>db_attempts := as\<rparr>) \<Longrightarrow> I (db\<lparr>db_attempts := as\<rparr>)"
    and agent_table: "I db \<Longrightarrow> schema_ok (db\<lparr>db_agents := gs\<rparr>) \<Longrightarrow> I (db\<lparr>db_agents := gs\<rparr>)"
    and sample_table: "I db \<Longrightarrow> schema_ok (db\<lparr>db_samples := ss\<rparr>) \<Longrightarrow> I (db\<lparr>db_samples := ss\<rparr>)"
    and task_table: "I db \<Longrightarrow> schema_ok (db\<lparr>db_tasks := ks\<rparr>) \<Longrightarrow> I (db\<lparr>db_tasks := ks\<rparr>)"
begin

lemma keeps_insert_item: "good i \<Longrightarrow> keeps I (insert_item ctx i)"
  unfolding insert_item_def by (rule keeps_sql) (simp only: inserts [unfolded stored_item_def])

lemma keeps_delete_items [keeps_intro]: "keeps I (delete_items ctx q)"
  unfolding delete_items_def by (rule keeps_sql) (rule deletes)

lemma keeps_delete_runs [keeps_intro]: "keeps I (delete_runs ctx q)"
  unfolding delete_runs_def by (rule keeps_sql) (rule run_deletes)

lemma keeps_update_tabs [keeps_intro]: "keeps I (update_tabs ctx q f)"
  unfolding update_tabs_def by (rule keeps_sql) (rule tab_table)

lemma keeps_delete_tabs [keeps_intro]: "keeps I (delete_tabs ctx q)"
  unfolding delete_tabs_def by (rule keeps_sql) (rule tab_table)

lemma keeps_insert_tab [keeps_intro]: "keeps I (insert_tab ctx t)"
  unfolding insert_tab_def by (rule keeps_sql) (rule tab_table)

lemma keeps_update_runs [keeps_intro]: "keeps I (update_runs ctx q f)"
  unfolding update_runs_def by (rule keeps_sql) (rule run_table)

lemma keeps_delete_item [keeps_intro]: "keeps I (delete_web_queue_item_if_exists now r a)"
proof (rule keepsI)
  fix db assume I: "I db"
  note ok = schema [OF I]
  have empty: "I (delete_run_if_empty_db r d)" if "I d" for d
    using that run_deletes schema_ok_delete_runs [OF schema [OF that]] by (simp add: delete_run_if_empty_db_def)
  let ?d = "delete_items_db (\<lambda>j. qi_run_id j = r \<and> qi_id j = a) db"
  have "I ?d" using I schema_ok_delete_items [OF ok] by (rule deletes)
  moreover have "schema_ok (?d\<lparr>db_items := update_where (\<lambda>_. True) (drop_dependency now r a) (db_items ?d)\<rparr>)"
    using schema_ok_drop_dependency [OF schema [OF \<open>I ?d\<close>]] by (simp add: update_where_def)
  ultimately have "I (?d\<lparr>db_items := update_where (\<lambda>_. True) (drop_dependency now r a) (db_items ?d)\<rparr>)"
    by (intro drops) (auto simp: drop_dependency_def item_keys_def)
  then have "I (without_item now r a db)"
    using empty by (simp add: without_item_def Let_def update_where_def)
  then show "I (snd (delete_web_queue_item_if_exists now r a db))"
    using empty [OF I] by (simp add: run_delete_item [OF ok] split: option.split)
qed

end

sublocale queue_rows \<subseteq> row_invariant I
  by unfold_locales (rule drops run_table attempt_table agent_table sample_table tab_table; simp)+

section \<open>The store's operations over such an invariant\<close>

text \<open>Replacing a queue: what follows the deletion of the old items.\<close>

definition replace_rest ::
  "store_env \<Rightarrow> queue_run_row \<Rightarrow> queue_item_row list \<Rightarrow> string option \<Rightarrow> string option \<Rightarrow> (qdb, unit) prog" where
  "replace_rest E run items tab_id previous =
     seq (upsert_web_queue_run run)
       (seq (for_each (insert_with_attempt E ''failed to insert web queue item'') items)
         (seq (case tab_id of
                 Some t \<Rightarrow> assign_web_queue_run_to_tab (se_now E) t (qr_id run)
               | None \<Rightarrow> assign_web_queue_run_to_active_tab (se_now E) (qr_id run))
           (seq (case previous of
                   Some p \<Rightarrow> if p \<noteq> qr_id run then delete_unreferenced_web_queue_run p else ret ()
                 | None \<Rightarrow> ret ())
             delete_unreferenced_web_queue_runs)))"

lemma replace_by_rest:
  "replace_web_queue_with_assignment E run items tab_id =
     transaction (seq (ensure_default_web_queue_tab (se_now E))
       (bnd (case tab_id of Some t \<Rightarrow> web_queue_tab_run_id (se_now E) t | None \<Rightarrow> active_web_queue_run_id (se_now E))
         (\<lambda>previous. seq (delete_items ''failed to clear web queue items'' (\<lambda>i. qi_run_id i = qr_id run))
            (replace_rest E run items tab_id previous))))"
  unfolding replace_web_queue_with_assignment_def replace_rest_def insert_with_attempt_def [abs_def] ..

context queue_rows
begin

lemma keeps_any_status [keeps_intro]: "keeps I (update_web_queue_run E r st p m)"
  unfolding update_web_queue_run_def by (intro keeps_intro)

lemma keeps_request_stop [keeps_intro]: "keeps I (request_web_queue_stop E r)"
  unfolding request_web_queue_stop_def active_web_queue_run_id_def by (intro keeps_intro tabs_ready)

lemma keeps_continue [keeps_intro]: "keeps I (continue_web_queue_run E r)"
  unfolding continue_web_queue_run_def by (intro keeps_intro keeps_items) (simp add: item_keys_def)

lemma keeps_wake [keeps_intro]: "keeps I (wake_web_queue_retry_items E r)"
proof -
  have "keeps I (bnd (update_items c p (\<lambda>i. i\<lparr>qi_next_attempt_at := None, qi_message := m, qi_updated_at := u\<rparr>))
      (\<lambda>updated. if updated > 0 then seq (update_runs c' q g) (ret updated) else ret updated))" for c p m u c' q g
    by (intro keeps_intro keeps_items) (simp add: item_keys_def)
  then show ?thesis unfolding wake_web_queue_retry_items_def keeps_def by blast
qed

lemma keeps_create_tab [keeps_intro]: "keeps I (create_and_activate_web_queue_tab now t l)"
  unfolding create_and_activate_web_queue_tab_def clear_active_tab_def activate_tab_row_def
  by (intro keeps_intro tabs_ready)

lemma keeps_activate_tab [keeps_intro]: "keeps I (activate_web_queue_tab now t)"
  unfolding activate_web_queue_tab_def clear_active_tab_def activate_tab_row_def by (intro keeps_intro tabs_ready)

lemma keeps_delete_tab [keeps_intro]: "keeps I (delete_web_queue_tab now t)"
  unfolding delete_web_queue_tab_def clear_active_tab_def activate_tab_row_def active_fallback_queue_tab_id_def
  by (intro keeps_intro tabs_ready) (simp add: keeps_def split: list.split)

lemma keeps_delete_run_items [keeps_intro]: "keeps I (delete_web_queue_run_items now r)"
  unfolding delete_web_queue_run_items_def by (intro keeps_intro)

lemma keeps_delete_task [keeps_intro]: "keeps I (delete_task_record t)"
  unfolding delete_task_record_def by (intro keeps_intro keeps_sql task_table)

lemma keeps_insert [keeps_intro]: "good i \<Longrightarrow> keeps I (insert_with_attempt E ctx i)"
  unfolding insert_with_attempt_def by (intro keeps_intro keeps_insert_item)

lemma keeps_insert_all: "list_all good items \<Longrightarrow> keeps I (for_each (insert_with_attempt E ctx) items)"
  by (induction items) (auto intro!: keeps_intro)

lemma keeps_assign [keeps_intro]:
  "keeps I (assign_web_queue_run_to_tab now t r)" "keeps I (assign_web_queue_run_to_active_tab now r)"
  unfolding assign_web_queue_run_to_tab_def assign_web_queue_run_to_active_tab_def by (intro keeps_intro tabs_ready)+

lemma keeps_delete_unreferenced [keeps_intro]:
  "keeps I (delete_unreferenced_web_queue_run p)" "keeps I delete_unreferenced_web_queue_runs"
proof -
  show "keeps I (delete_unreferenced_web_queue_run p)"
    unfolding delete_unreferenced_web_queue_run_def delete_web_queue_run_def by (intro keeps_intro)
  have "keeps I (seq (delete_items c q) (seq (delete_runs c' q') (ret ())))" for c c' q q'
    by (intro keeps_intro)
  then show "keeps I delete_unreferenced_web_queue_runs"
    unfolding delete_unreferenced_web_queue_runs_def keeps_def by blast
qed

lemma keeps_replace_rest: "list_all good items \<Longrightarrow> keeps I (replace_rest E run items tab_id previous)"
  unfolding replace_rest_def upsert_web_queue_run_def
  by (intro keeps_intro keeps_sql run_table keeps_insert_all)

lemma keeps_replace:
  "(\<And>i. good i) \<Longrightarrow> keeps I (replace_web_queue_with_assignment E run items tab)"
  unfolding replace_by_rest web_queue_tab_run_id_def active_web_queue_run_id_def
  by (intro keeps_intro tabs_ready keeps_replace_rest) (simp_all add: list_all_iff)

lemma keeps_append: "list_all good items \<Longrightarrow> keeps I (append_web_queue_items E r items)"
  unfolding append_web_queue_items_def insert_with_attempt_def [symmetric]
  by (intro keeps_intro keeps_insert_all)

end

section \<open>Interpretations\<close>

lemma deps_within_update:
  assumes "\<And>i. item_keys (f i) = item_keys i \<and> set (qi_depends_on (f i)) \<subseteq> set (qi_depends_on i)"
    and "deps_within D db"
  shows "deps_within D (db\<lparr>db_items := update_where p f (db_items db)\<rparr>)"
proof -
  have "qi_run_id (f i) = qi_run_id i \<and> qi_id (f i) = qi_id i" for i
    using assms(1) [of i] by (simp add: item_keys_def)
  then show ?thesis
    using assms unfolding deps_within_def by (fastforce simp: set_update_where)
qed

lemma delete_items_columns [simp]: "db_items (delete_items_db p db) = delete_where p (db_items db)"
  by (simp add: delete_items_db_def Let_def)

lemma deps_within_fewer:
  "set (db_items db') \<subseteq> set (db_items db) \<Longrightarrow> deps_within D db \<Longrightarrow> deps_within D db'"
  by (auto simp: deps_within_def)

interpretation bound_rows: queue_rows "\<lambda>db. schema_ok db \<and> deps_within D db"
  "\<lambda>i. set (qi_depends_on i) \<subseteq> D (qi_run_id i) (qi_id i)" for D
proof (unfold_locales, goal_cases)
  case (2 f db p)
  then show ?case by (intro conjI deps_within_update) auto
next
  case (3 i db)
  then show ?case by (simp add: deps_within_def stored_item_def)
next
  case (4 db q)
  then show ?case using deps_within_fewer [of "delete_items_db q db" db] by auto
next
  case (5 db q')
  then show ?case using deps_within_fewer [of "delete_runs_db q' db" db]
    by (auto simp: delete_runs_db_def Let_def)
qed (simp_all add: deps_within_def)

lemma lease_inv_rows:
  assumes "lease_inv db" and "schema_ok db'" and "set (db_leases db') \<subseteq> set (db_leases db)"
    and "\<And>l i. l \<in> set (db_leases db') \<Longrightarrow> i \<in> set (db_items db) \<Longrightarrow> qi_run_id i = ql_run_id l \<Longrightarrow> qi_id i = ql_item_id l \<Longrightarrow>
      (ql_run_id l, ql_item_id l) \<in> (\<lambda>i. (qi_run_id i, qi_id i)) ` set (db_items db')"
  shows "lease_inv db'"
proof -
  have found: "find_item r a d \<noteq> None \<longleftrightarrow> (r, a) \<in> (\<lambda>i. (qi_run_id i, qi_id i)) ` set (db_items d)" for r a d
    by (force simp: find_item_def find_None_iff)
  have "lease_row_ok db' l" if l: "l \<in> set (db_leases db')" for l
  proof -
    have "lease_row_ok db l" using assms(1,3) l by (auto simp: lease_inv_def leases_match_def list_all_iff)
    moreover then obtain i where "i \<in> set (db_items db)" "qi_run_id i = ql_run_id l" "qi_id i = ql_item_id l"
      unfolding lease_row_ok_def found by auto
    ultimately show ?thesis using assms(4) [OF l] unfolding lease_row_ok_def found by blast
  qed
  with assms(2) show ?thesis by (simp add: lease_inv_def leases_match_def list_all_iff)
qed

interpretation lease_rows: queue_rows lease_inv "\<lambda>_. True"
proof (unfold_locales, goal_cases)
  case (2 f db p)
  have "item_keys (f i) = item_keys i" for i using 2(1) [of i] by blast
  then show ?case using 2(2,3) by (rule lease_inv_item_rows)
next
  case (3 i db)
  show ?case
  proof (rule lease_inv_rows [OF 3(2,3)])
    fix l j assume "j \<in> set (db_items db)" and key: "qi_run_id j = ql_run_id l" "qi_id j = ql_item_id l"
    then have "j \<in> set (db_items (db\<lparr>db_items := db_items db @ [stored_item i]\<rparr>))" by simp
    then show "(ql_run_id l, ql_item_id l) \<in>
        (\<lambda>i. (qi_run_id i, qi_id i)) ` set (db_items (db\<lparr>db_items := db_items db @ [stored_item i]\<rparr>))"
      by (rule rev_image_eqI) (simp add: key)
  qed simp
next
  case (4 db q)
  show ?case
  proof (rule lease_inv_rows [OF 4(1,2)])
    fix l i assume l: "l \<in> set (db_leases (delete_items_db q db))" and i: "i \<in> set (db_items db)"
      and key: "qi_run_id i = ql_run_id l" "qi_id i = ql_item_id l"
    have "\<not> q i" using l i key(2) [symmetric] by (auto simp: delete_items_db_def Let_def)
    then have "i \<in> set (db_items (delete_items_db q db))" using i by simp
    then show "(ql_run_id l, ql_item_id l) \<in> (\<lambda>i. (qi_run_id i, qi_id i)) ` set (db_items (delete_items_db q db))"
      by (rule rev_image_eqI) (simp add: key)
  qed (auto simp: delete_items_db_def Let_def)
next
  case (5 db q')
  show ?case
  proof (rule lease_inv_rows [OF 5(1,2)])
    fix l i assume l: "l \<in> set (db_leases (delete_runs_db q' db))" and i: "i \<in> set (db_items db)"
      and key: "qi_run_id i = ql_run_id l" "qi_id i = ql_item_id l"
    have "qi_run_id i \<notin> set (map qr_id (filter q' (db_runs db)))"
      using l unfolding key(1) by (simp add: delete_runs_db_def Let_def)
    then have "i \<in> set (db_items (delete_runs_db q' db))" using i by (simp add: delete_runs_db_def Let_def)
    then show "(ql_run_id l, ql_item_id l) \<in> (\<lambda>i. (qi_run_id i, qi_id i)) ` set (db_items (delete_runs_db q' db))"
      by (rule rev_image_eqI) (simp add: key)
  qed (auto simp: delete_items_db_def delete_runs_db_def Let_def)
qed ((erule lease_inv_other; simp) | simp add: lease_inv_def)+

section \<open>Checks change nothing\<close>

lemma keeps_token [keeps_intro]: "keeps P (check_write_token A)"
  unfolding check_write_token_def require_write_token_def by (intro keeps_intro)

lemma keeps_validate [keeps_intro]: "keeps P (validate_queue_execution_hosts run items)"
  unfolding validate_queue_execution_hosts_def validate_queue_execution_host_value_def by (intro keeps_intro)

text \<open>From a state on: the first program keeps \<open>J\<close> and returns a \<open>P\<close>, the rest leads to \<open>I\<close>.\<close>

lemma bnd_leads:
  assumes "J db" and "keeps J m" and "gives P m" and "\<And>s. J s \<Longrightarrow> I s"
    and "\<And>x s. P x \<Longrightarrow> J s \<Longrightarrow> I (snd (k x s))"
  shows "I (snd (bnd m k db))"
proof (cases "m db")
  case (Pair r s)
  then have "J s" using assms(1,2) by (metis keepsD)
  show ?thesis
  proof (cases r)
    case (Inl e)
    with Pair \<open>J s\<close> assms(4) show ?thesis by (simp add: run_bnd)
  next
    case (Inr x)
    with Pair assms(3) have "P x" unfolding gives_def by blast
    with Pair Inr \<open>J s\<close> assms(5) show ?thesis by (simp add: run_bnd)
  qed
qed

lemma keeps_option_eq:
  "(y = None \<Longrightarrow> keeps I m) \<Longrightarrow> (\<And>x. y = Some x \<Longrightarrow> keeps I (k x)) \<Longrightarrow>
   keeps I (case y of None \<Rightarrow> m | Some x \<Rightarrow> k x)"
  by (cases y) auto

lemma keepsD': "keeps I m \<Longrightarrow> I s \<Longrightarrow> I (snd (m s))"
  by (simp add: keeps_def)

lemma keeps_query_at: "(\<And>db. I db \<Longrightarrow> I (snd (k (f db) db))) \<Longrightarrow> keeps I (bnd (query f) k)"
  by (simp add: keeps_def)

lemma then_ret: "I (snd (m db)) \<Longrightarrow> I (snd (seq m (ret x) db))"
  by (cases "m db"; cases "fst (m db)") (auto simp: run_bnd)

lemma gives_True: "gives (\<lambda>_. True) m"
  by (simp add: gives_def)

section \<open>Invariants of the queue\<close>

text \<open>
  The operations of the store as a client sees them. An insertion or a replanning may assume that
  no cycle arises from it when there was none before.
\<close>

definition plan_deps :: "string \<Rightarrow> queue_item_row list \<Rightarrow> dep_bounds \<Rightarrow> dep_bounds" where
  "plan_deps r items D = (\<lambda>r' a. if r' = r \<and> a \<in> qi_id ` set items
     then {b. \<exists>i \<in> set items. qi_id i = a \<and> b \<in> set (qi_depends_on i)} else D r' a)"

locale queue_invariant = closing_invariant +
  assumes settles: "keeps I (update_web_queue_run E r st p m)"
    and stops: "keeps I (request_web_queue_stop E sr)"
    and continues: "keeps I (continue_web_queue_run E r)"
    and wakes: "keeps I (wake_web_queue_retry_items E r)"
    and creates: "keeps I (create_and_activate_web_queue_tab now t l)"
    and activates: "keeps I (activate_web_queue_tab now t)"
    and drops_tab: "keeps I (delete_web_queue_tab now t)"
    and clears: "keeps I (delete_web_queue_run_items now r)"
    and removes: "keeps I (delete_web_queue_item_if_exists now r a)"
    and forgets: "keeps I (delete_task_record tk)"
    and replaces: "\<forall>i \<in> set items. qi_run_id i = qr_id run \<Longrightarrow> acyclic (graph_edges items) \<Longrightarrow>
      keeps I (replace_web_queue_with_assignment E run items tab)"
    and appends: "I db \<Longrightarrow> \<forall>i \<in> set items. qi_run_id i = r \<Longrightarrow>
      (graphs_acyclic db \<Longrightarrow> acyclic (graph_edges (items_of_run r db) \<union> graph_edges items)) \<Longrightarrow>
      I (snd (append_web_queue_items E r items db))"
    and replans: "I db \<Longrightarrow> (graphs_acyclic db \<Longrightarrow> acyclic (bound_edges (plan_deps r items (deps_of db)) r)) \<Longrightarrow>
      I (snd (update_web_queue_item_plans E r items db))"
begin

lemma keeps_conflict_free [keeps_intro]: "keeps I (ensure_queue_run_conflict_free E run items)"
  unfolding ensure_queue_run_conflict_free_def Let_def by (intro keeps_intro)

lemma keeps_load_tabs [keeps_intro]: "keeps I (load_web_queue_tabs now)" "keeps I (load_web_queue_tab now t)"
  unfolding load_web_queue_tabs_def load_web_queue_tab_def by (intro keeps_intro tabs_ready)+

lemma keeps_load_queue [keeps_intro]: "keeps I (load_web_queue E)"
  unfolding load_web_queue_def active_web_queue_run_id_def by (intro keeps_intro tabs_ready)

lemma keeps_detached [keeps_intro]: "keeps I m \<Longrightarrow> keeps I (detached m)"
  by (simp add: keeps_def detached_def)

lemma keeps_artifacts [keeps_intro]: "keeps I (cleanup_queue_item_artifacts W i t a)"
  unfolding cleanup_queue_item_artifacts_def cleanup_existing_task_agent_artifacts_def Let_def
  by (intro keeps_intro forgets)

lemma keeps_artifacts_deferred [keeps_intro]: "keeps I (cleanup_queue_items_artifacts_deferred W items)"
  unfolding cleanup_queue_items_artifacts_deferred_def cleanup_queue_items_artifacts_best_effort_def
  by (intro keeps_intro)

lemma keeps_task_artifacts [keeps_intro]: "keeps I (cleanup_task_agent_artifacts t)"
  unfolding cleanup_task_agent_artifacts_def cleanup_existing_task_agent_artifacts_def by (intro keeps_intro forgets)

text \<open>Runs without a worker.\<close>

lemma keeps_sessions: "world_keeps I W \<Longrightarrow> keeps I (modify (qw_sync_sessions W))"
  by (simp add: world_keeps_def keeps_def)

lemma keeps_any_item [keeps_intro]: "(\<And>i. keeps I (f i)) \<Longrightarrow> keeps I (any_item f items)"
  by (induction items) (auto intro!: keeps_intro)

lemma keeps_stale_record [keeps_intro]: "sync_keeps I W \<Longrightarrow> keeps I (stale_queue_task_record_handled W r i)"
  unfolding stale_queue_task_record_handled_def stale_item_without_record_def retry_and_mark_running_def Let_def
  by (intro keeps_intro keeps_evidence settles)

lemma keeps_resume_at [keeps_intro]: "keeps I (resume_at_item W r i)"
  unfolding resume_at_item_def close_running_success_agent_def retry_and_mark_running_def fail_queue_run_item_def
  by (intro keeps_intro)

lemma keeps_resume: "sync_keeps I W \<Longrightarrow> keeps I (resume_stale_active_queue_run W r items)"
proof (induction items)
  case (Cons i rest)
  then show ?case unfolding resume_stale_active_queue_run.simps by (intro keeps_intro) blast+
qed (simp, intro keeps_intro settles)

lemma keeps_restart [keeps_intro]: "keeps I (restart_resolved_failed_queue_run W run items)"
  unfolding restart_resolved_failed_queue_run_def by (intro keeps_intro settles)

lemma keeps_needs_reconcile: "sync_keeps I W \<Longrightarrow> keeps I (queue_run_needs_stale_reconcile W run items)"
  unfolding queue_run_needs_stale_reconcile_def stopped_local_open_record_may_need_reconcile_def
    failed_queue_run_may_be_resolved_def stopped_item_may_need_reconcile_def failed_item_may_be_resolved_def
  by (intro keeps_intro keeps_evidence)

lemma keeps_reconcile_one: "world_keeps I W \<Longrightarrow> keeps I (reconcile_one_stale_web_queue_run W ws run items)"
  unfolding reconcile_one_stale_web_queue_run_def
  by (intro keeps_intro keeps_sessions keeps_needs_reconcile keeps_reconcile_statuses keeps_resume world_keeps_sync)

lemma keeps_reconcile_each: "world_keeps I W \<Longrightarrow> keeps I (reconcile_each_run W ws runs)"
proof (induction runs arbitrary: ws)
  case (Cons x rest)
  then show ?case by (cases x) (auto intro!: keeps_intro keeps_reconcile_one)
qed (simp add: keeps_ret)

lemma keeps_reconcile_stale: "world_keeps I W \<Longrightarrow> keeps I (reconcile_stale_web_queue_run W ws)"
  unfolding reconcile_stale_web_queue_run_def by (intro keeps_intro keeps_reconcile_each)

lemma keeps_continue_failed [keeps_intro]: "world_keeps I W \<Longrightarrow> keeps I (continue_resolved_failed_queue_run W ws r)"
  unfolding continue_resolved_failed_queue_run_def Let_def
  by (intro keeps_intro keeps_needs_reconcile keeps_reconcile_one world_keeps_sync wakes continues)

end

section \<open>What an accepted graph promises\<close>

lemma accepted_graph:
  assumes "normalize_queue_dependencies_with_metadata mode items metadata = Some (Inr g, js)"
  shows "list_all2 same_but_deps items js" and "acyclic (graph_edges js)"
    and "mode = ModeGraph \<Longrightarrow> ids_ok items \<and> graph_edges js = meant_edges items"
    and "mode \<noteq> ModeGraph \<Longrightarrow> graph_edges js = {}"
proof -
  have "list_all2 same_but_deps items js \<and> acyclic (graph_edges js) \<and>
    (mode = ModeGraph \<longrightarrow> ids_ok items \<and> graph_edges js = meant_edges items) \<and>
    (mode \<noteq> ModeGraph \<longrightarrow> graph_edges js = {})"
  proof (cases "mode = ModeGraph")
    case True
    with assms obtain ws waves where n: "ids_ok items" "normalize_graph_dependencies items = (js, ws)"
        "queue_dependency_graph_cycle js = None"
      using normalize_accepted_cases [of items metadata g js] by blast
    note f = normalized_items [OF n(1,2)]
    have "acyclic (graph_edges js)"
      using n(3) cycle_iff [of js] f(2) by (simp add: ids_ok_def)
    with True n(1) f(1,3) show ?thesis by simp
  next
    case False
    then have "js = map (\<lambda>i. i\<lparr>qi_depends_on := []\<rparr>) items"
      using assms by (simp add: normalize_queue_dependencies_with_metadata_def Let_def)
    moreover from this have "graph_edges js = {}" by (auto simp: graph_edges_def)
    ultimately show ?thesis using False by (simp add: list_all2_conv_all_nth acyclic_def)
  qed
  then show "list_all2 same_but_deps items js" "acyclic (graph_edges js)"
    "mode = ModeGraph \<Longrightarrow> ids_ok items \<and> graph_edges js = meant_edges items"
    "mode \<noteq> ModeGraph \<Longrightarrow> graph_edges js = {}" by auto
qed

lemma same_but_deps_columns:
  "same_but_deps i j \<Longrightarrow> qi_run_id j = qi_run_id i \<and> qi_id j = qi_id i \<and> qi_status j = qi_status i \<and>
     qi_slug j = qi_slug i \<and> qi_prompt j = qi_prompt i \<and> qi_position j = qi_position i \<and>
     qi_execution_host j = qi_execution_host i"
  by (cases i; cases j) (simp add: same_but_deps_def)

lemma accepted_columns:
  assumes "list_all2 same_but_deps xs js"
  shows "map qi_run_id js = map qi_run_id xs" and "map qi_id js = map qi_id xs" and "map qi_status js = map qi_status xs"
    and "map qi_slug js = map qi_slug xs" and "map qi_prompt js = map qi_prompt xs"
    and "map qi_position js = map qi_position xs" and "map qi_execution_host js = map qi_execution_host xs"
  using assms by (induction xs js rule: list_all2_induct) (simp_all add: same_but_deps_columns)

text \<open>Stored dependencies on items of the run are among the meant ones.\<close>

lemma stored_edges_meant:
  assumes "ids_ok all" and "acyclic (graph_edges stored)" and "set stored \<subseteq> set all"
    and "(a, b) \<in> graph_edges stored" and "b \<in> qi_id ` set all"
  shows "(a, b) \<in> meant_edges all"
proof -
  obtain i where i: "i \<in> set all" "a = qi_id i" "b \<in> set (qi_depends_on i)"
    using assms(3,4) by (auto simp: graph_edges_def)
  have "b \<noteq> a" using assms(2,4) by (auto simp: acyclic_def)
  moreover have "trim b \<noteq> []" using assms(1,5) by (auto simp: ids_ok_def)
  moreover have "dependency_references all b = Some b" using assms(5) by (rule dependency_references_id)
  ultimately have "b \<in> meant_dependencies all i" using i(2,3) by (auto simp: meant_dependencies_def)
  with i(1,2) show ?thesis unfolding meant_edges_def by blast
qed

section \<open>Items from requests\<close>

lemma clean_slug_fresh: "clean_queue_slug v r n used = Some (s, used') \<Longrightarrow> s \<notin> used \<and> used' = insert s used"
  unfolding slug_cases Let_def by (auto split: if_splits)

lemma item_from_request:
  assumes "queue_item_from_request run req position used now = Some (i, used')"
  shows "qi_run_id i = qr_id run" and "qi_status i = ItemPending" and "qi_prompt i = trim (ri_prompt req)"
    and "qi_agent_id i = None" and "qi_slug i \<notin> used" and "used' = insert (qi_slug i) used"
    and "qi_position i = position"
  using assms unfolding queue_item_from_request_def Let_def
  by (auto split: option.splits prod.splits dest!: clean_slug_fresh)

lemma items_from_requests:
  "queue_items_from run reqs start offset used now = Some items \<Longrightarrow>
     map qi_prompt items = map (\<lambda>r. trim (ri_prompt r)) reqs \<and> distinct (map qi_slug items) \<and>
     (\<forall>i \<in> set items. qi_run_id i = qr_id run \<and> qi_status i = ItemPending \<and> qi_agent_id i = None \<and> qi_slug i \<notin> used)"
proof (induction reqs arbitrary: offset used items)
  case (Cons req reqs)
  then obtain i used' rest where i: "queue_item_from_request run req
      (sat_add_i64 start (if int offset \<le> i64_max then int offset else 0)) used now = Some (i, used')"
    and rest: "queue_items_from run reqs start (Suc offset) used' now = Some rest" and items: "items = i # rest"
    by (auto simp: Let_def split: option.splits)
  note f = item_from_request [OF i]
  from Cons.IH [OF rest] f show ?case unfolding items by auto
qed simp

section \<open>Appending and replanning bring no cycle\<close>

lemma set_run_items [simp]: "set (run_items r db) = set (items_of_run r db)"
  by (simp add: run_items_def items_of_run_def)

lemma graph_edges_set: "set xs \<subseteq> set ys \<Longrightarrow> graph_edges xs \<subseteq> graph_edges ys"
  by (auto simp: graph_edges_def)

lemma append_acyclic:
  assumes old: "graphs_acyclic db"
    and js: "normalize_queue_dependencies_with_metadata mode (run_items r db @ items) metadata = Some (Inr g, js)"
    and new: "set items' \<subseteq> set js"
  shows "acyclic (graph_edges (items_of_run r db) \<union> graph_edges items')"
proof -
  note n = accepted_graph [OF js]
  have stored: "acyclic (graph_edges (items_of_run r db))" using old by (simp add: graphs_acyclic_def)
  have sub: "graph_edges items' \<subseteq> graph_edges js" using new by (rule graph_edges_set)
  show ?thesis
  proof (cases "mode = ModeGraph")
    case False
    then have "graph_edges items' = {}" using n(4) sub by blast
    with stored show ?thesis by simp
  next
    case True
    let ?all = "run_items r db @ items" and ?E = "graph_edges (items_of_run r db) \<union> graph_edges items'"
    note m = n(3) [OF True]
    have js_ids: "qi_id ` set js = qi_id ` set ?all"
      using arg_cong [OF accepted_columns(2) [OF n(1)], of set] by (simp add: image_Un)
    show ?thesis
    proof (rule acyclic_with_sinks [of "graph_edges js" ?E "qi_id ` set ?all"])
      show "acyclic (graph_edges js)" by (rule n(2))
      show "?E \<subseteq> graph_edges js \<union> {(a, b). b \<notin> qi_id ` set ?all}"
      proof
        fix e assume "e \<in> ?E"
        moreover obtain a b where e: "e = (a, b)" by (cases e)
        moreover have "(a, b) \<in> meant_edges ?all" if "(a, b) \<in> graph_edges (items_of_run r db)" "b \<in> qi_id ` set ?all"
          by (rule stored_edges_meant [OF _ stored _ that]) (use m in auto)
        ultimately show "e \<in> graph_edges js \<union> {(a, b). b \<notin> qi_id ` set ?all}" using m sub by blast
      qed
      show "a \<in> qi_id ` set ?all" if "(a, b) \<in> ?E" for a b
      proof -
        from that consider i where "i \<in> set js" "a = qi_id i" | i where "i \<in> set ?all" "a = qi_id i"
          using new by (auto simp: graph_edges_def)
        then show ?thesis by cases (use js_ids in blast)+
      qed
    qed
  qed
qed

lemma replan_acyclic:
  assumes old: "graphs_acyclic db"
    and plans: "list_all2 (\<lambda>i j. qi_id j = qi_id i \<and> (qi_id i \<notin> ids \<longrightarrow> j = i)) (run_items r db) all"
    and js: "normalize_queue_dependencies_with_metadata mode all metadata = Some (Inr g, js)"
  shows "acyclic (bound_edges (plan_deps r (filter (\<lambda>i. qi_id i \<in> ids) js) (deps_of db)) r)"
proof -
  let ?E = "bound_edges (plan_deps r (filter (\<lambda>i. qi_id i \<in> ids) js) (deps_of db)) r"
  note n = accepted_graph [OF js]
  have stored: "acyclic (graph_edges (items_of_run r db))" using old by (simp add: graphs_acyclic_def)
  have "map qi_id all = map qi_id (run_items r db)"
    using plans by (induction rule: list_all2_induct) auto
  then have "set (map qi_id all) = set (map qi_id (run_items r db))" by simp
  then have ids_all: "qi_id ` set all = qi_id ` set (items_of_run r db)" by simp
  have js_ids: "qi_id ` set js = qi_id ` set all"
    using arg_cong [OF accepted_columns(2) [OF n(1)], of set] by simp
  have cases: "(a, b) \<in> graph_edges js \<or> (a, b) \<in> graph_edges (filter (\<lambda>i. qi_id i \<notin> ids) (items_of_run r db))"
    if e: "(a, b) \<in> ?E" for a b
  proof (cases "a \<in> qi_id ` set (filter (\<lambda>i. qi_id i \<in> ids) js)")
    case True
    then have "\<exists>i \<in> set js. qi_id i = a \<and> b \<in> set (qi_depends_on i)"
      using e by (auto simp: bound_edges_def plan_deps_def)
    then show ?thesis by (auto simp: graph_edges_def)
  next
    case False
    then have "b \<in> deps_of db r a" using e unfolding bound_edges_def plan_deps_def by simp
    then obtain i where i: "i \<in> set (items_of_run r db)" "qi_id i = a" "b \<in> set (qi_depends_on i)"
      by (auto simp: deps_of_def items_of_run_def)
    have "a \<in> qi_id ` set js" using i(1,2) unfolding js_ids ids_all by blast
    with False have "a \<notin> ids" by auto
    with i show ?thesis by (auto simp: graph_edges_def)
  qed
  show ?thesis
  proof (cases "mode = ModeGraph")
    case False
    then have "?E \<subseteq> graph_edges (items_of_run r db)"
      using n(4) cases graph_edges_set [of "filter (\<lambda>i. qi_id i \<notin> ids) (items_of_run r db)" "items_of_run r db"] by auto
    with stored show ?thesis by (rule acyclic_subset)
  next
    case True
    note m = n(3) [OF True]
    let ?kept = "filter (\<lambda>i. qi_id i \<notin> ids) (items_of_run r db)"
    have kept: "set ?kept \<subseteq> set all"
    proof
      fix i assume "i \<in> set ?kept"
      then have "i \<in> set (run_items r db)" "qi_id i \<notin> ids" by auto
      with list_all2_left [OF plans] show "i \<in> set all" by fastforce
    qed
    have acyc: "acyclic (graph_edges ?kept)"
      using stored by (rule acyclic_subset) (rule graph_edges_set, auto)
    show ?thesis
    proof (rule acyclic_with_sinks [of "graph_edges js" ?E "qi_id ` set all"])
      show "acyclic (graph_edges js)" by (rule n(2))
      show "?E \<subseteq> graph_edges js \<union> {(a, b). b \<notin> qi_id ` set all}"
        using cases stored_edges_meant [OF _ acyc kept] m by blast
      show "a \<in> qi_id ` set all" if "(a, b) \<in> ?E" for a b
        using cases [OF that] js_ids ids_all by (auto simp: graph_edges_def)
    qed
  qed
qed

section \<open>The requests keep the invariants\<close>

definition sync_spares_items :: "queue_world \<Rightarrow> bool" where
  "sync_spares_items W = (\<forall>items. sync_keeps (\<lambda>db. db_items db = items) W)"

lemma sync_keeps_conj: "sync_keeps I W \<Longrightarrow> sync_keeps J W \<Longrightarrow> sync_keeps (\<lambda>db. I db \<and> J db) W"
  by (auto simp: sync_keeps_def)

lemma load_run_Some:
  "load_web_queue_run r db = (Some run, items) \<Longrightarrow> qr_id run = r \<and> items = run_items r db"
  by (auto simp: load_web_queue_run_def find_run_def dest!: find_Some_set split: option.splits)

lemma keeps_editable: "sync_keeps J W \<Longrightarrow> keeps J (queue_item_editable_while_running W run i)"
  unfolding queue_item_editable_while_running_def by (intro keeps_intro keeps_evidence)

lemma keeps_apply_updates: "sync_keeps J W \<Longrightarrow> keeps J (apply_queue_updates W run requested items)"
  by (induction items) (auto simp: apply_queue_update_item_def intro!: keeps_intro keeps_editable)

text \<open>Editing changes the requested items only, and never their keys.\<close>

lemma gives_apply_updates:
  "gives (list_all2 (\<lambda>i j. qi_id j = qi_id i \<and> qi_run_id j = qi_run_id i \<and> (requested (qi_id i) = None \<longrightarrow> j = i)) items)
     (apply_queue_updates W run requested items)"
proof (induction items)
  case (Cons i rest)
  have one: "gives (\<lambda>j. qi_id j = qi_id i \<and> qi_run_id j = qi_run_id i \<and> (requested (qi_id i) = None \<longrightarrow> j = i))
      (case requested (qi_id i) of None \<Rightarrow> ret i | Some req \<Rightarrow> apply_queue_update_item W run i req)"
    unfolding apply_queue_update_item_def
    by (intro gives_intro gives_ret) (simp_all add: updated_plan_def)
  show ?case
    unfolding apply_queue_updates.simps
    by (rule gives_bnd_of [OF one], rule gives_bnd_of [OF Cons.IH]) (auto intro: gives_ret)
qed (simp add: gives_def)

lemma requested_None: "requested_updates reqs a = None \<longleftrightarrow> a \<notin> requested_ids reqs"
  by (auto simp: requested_updates_def requested_ids_def map_of_eq_None_iff image_iff)

context queue_invariant
begin

lemma keeps_with_graph:
  "(\<And>g js. normalize_queue_dependencies_with_metadata mode items metadata = Some (Inr g, js) \<Longrightarrow> keeps I (k g js)) \<Longrightarrow>
   keeps I (with_graph mode items metadata k)"
  unfolding with_graph_def by (auto intro!: keeps_intro split: option.split sum.split)

lemma keeps_run_request [keeps_intro]: "keeps I (handle_queue_run_result A payload)"
proof -
  have "keeps I (with_graph (qr_execution_mode run) items metadata (\<lambda>g items'.
      seq (ensure_queue_run_conflict_free E run items')
        (seq (replace_web_queue_with_assignment E run items' tab) (ret (x g)))))"
    if "queue_items_from_requests run reqs 0 {} now = Some items" for run reqs now items metadata E tab and x :: "_ \<Rightarrow> 'b api_answer"
  proof (intro keeps_with_graph keeps_intro replaces)
    fix g js assume n: "normalize_queue_dependencies_with_metadata (qr_execution_mode run) items metadata = Some (Inr g, js)"
    note a = accepted_graph [OF n]
    show "acyclic (graph_edges js)" by (rule a(2))
    have "\<forall>i \<in> set items. qi_run_id i = qr_id run"
      using that items_from_requests unfolding queue_items_from_requests_def by blast
    then have "set (map qi_run_id items) \<subseteq> {qr_id run}" by auto
    then show "\<forall>i \<in> set js. qi_run_id i = qr_id run"
      unfolding accepted_columns(1) [OF a(1), symmetric] by auto
  qed
  note keeps_graph = this
  show ?thesis
    unfolding handle_queue_run_result_def Let_def
    by (intro keeps_token keeps_bnd keeps_if keeps_throw keeps_option_eq keeps_ret keeps_validate keeps_graph)
qed

end

context queue_invariant
begin

lemma graph_leads:
  assumes "I db" and "\<And>g js. normalize_queue_dependencies_with_metadata mode items metadata = Some (Inr g, js) \<Longrightarrow>
      I (snd (k g js db))"
  shows "I (snd (with_graph mode items metadata k db))"
  using assms by (auto simp: with_graph_def split: option.split sum.split prod.split)

lemma append_leads:
  assumes "I db" and "load_web_queue_run r db = (Some run, existing)"
    and "queue_items_from_requests run reqs p used now = Some items"
  shows "I (snd (with_graph mode (existing @ items) metadata
      (\<lambda>g all_items. let items' = filter (\<lambda>i. qi_id i \<in> qi_id ` set items) all_items
         in seq (append_web_queue_items E r items') (ret (x g items'))) db))"
proof (rule graph_leads [OF assms(1)])
  fix g js assume n: "normalize_queue_dependencies_with_metadata mode (existing @ items) metadata = Some (Inr g, js)"
  have run: "qr_id run = r" and existing: "existing = run_items r db" using load_run_Some [OF assms(2)] by auto
  have "\<forall>i \<in> set items. qi_run_id i = r"
    using assms(3) items_from_requests run unfolding queue_items_from_requests_def by blast
  then have "set (map qi_run_id (existing @ items)) \<subseteq> {r}" by (auto simp: existing items_of_run_def)
  then have own: "\<forall>i \<in> set js. qi_run_id i = r"
    unfolding accepted_columns(1) [OF accepted_graph(1) [OF n], symmetric] by auto
  have acyc: "acyclic (graph_edges (items_of_run r db) \<union> graph_edges (filter (\<lambda>i. qi_id i \<in> qi_id ` set items) js))"
    if "graphs_acyclic db"
    using that n unfolding existing by (rule append_acyclic) auto
  have "I (snd (append_web_queue_items E r (filter (\<lambda>i. qi_id i \<in> qi_id ` set items) js) db))"
    by (rule appends [OF assms(1) _ acyc]) (use own in simp)
  then show "I (snd ((let items' = filter (\<lambda>i. qi_id i \<in> qi_id ` set items) js
      in seq (append_web_queue_items E r items') (ret (x g items'))) db))"
    unfolding Let_def by (rule then_ret)
qed

lemma keeps_append_request [keeps_intro]: "keeps I (handle_queue_append_result A r reqs)"
  unfolding handle_queue_append_result_def Let_def [of "clean_queue_run_id r"]
proof (intro keeps_bnd [OF keeps_token] keeps_query_at, goal_cases)
  case (1 u db)
  let ?r = "clean_queue_run_id r"
  obtain run existing where load: "load_web_queue_run ?r db = (run, existing)" by fastforce
  show ?case
  proof (cases run)
    case None
    with 1 load show ?thesis by simp
  next
    case (Some run')
    have main: "I (snd (seq (validate_queue_execution_hosts run' items)
        (with_graph (qr_execution_mode run') (existing @ items) metadata
          (\<lambda>g all_items. let items' = filter (\<lambda>i. qi_id i \<in> qi_id ` set items) all_items
             in seq (append_web_queue_items (aw_store A) ?r items')
                  (ret (Answered (length items', g, with_worker A ?r))))) db))"
      if "queue_items_from_requests run' prompts p used now = Some items" for items metadata prompts p used now
    proof (rule bnd_leads [where J = "\<lambda>s. s = db" and P = "\<lambda>_. True", OF refl keeps_validate gives_True])
      fix s assume "s = db"
      then show "I s" using 1 by simp
    next
      fix x :: unit and s assume "s = db"
      then show "I (snd (with_graph (qr_execution_mode run') (existing @ items) metadata
          (\<lambda>g all_items. let items' = filter (\<lambda>i. qi_id i \<in> qi_id ` set items) all_items
             in seq (append_web_queue_items (aw_store A) ?r items')
                  (ret (Answered (length items', g, with_worker A ?r)))) s))"
        using append_leads [OF _ load [unfolded Some] that, of "qr_execution_mode run'" metadata "aw_store A" "\<lambda>g items'. Answered (length items', g, with_worker A ?r)"] 1 by simp
    qed
    show ?thesis
      unfolding load Some prod.case option.case
      using 1 main by (simp only: Let_def run_throw run_ret snd_conv split: if_split option.split) simp
  qed
qed

end

context queue_invariant
begin

lemma replan_leads:
  assumes "I s" and "db_items s = db_items db"
    and "list_all2 (\<lambda>i j. qi_id j = qi_id i \<and> (qi_id i \<notin> ids \<longrightarrow> j = i)) (run_items r db) all"
  shows "I (snd (with_graph mode all metadata
      (\<lambda>g js. let updates = filter (\<lambda>i. qi_id i \<in> ids) js
         in seq (update_web_queue_item_plans E r updates) (ret (x g updates))) s))"
proof (rule graph_leads [OF assms(1)])
  fix g js assume n: "normalize_queue_dependencies_with_metadata mode all metadata = Some (Inr g, js)"
  have items: "run_items r s = run_items r db" by (simp add: run_items_def assms(2))
  have "I (snd (update_web_queue_item_plans E r (filter (\<lambda>i. qi_id i \<in> ids) js) s))"
    by (rule replans [OF assms(1)], rule replan_acyclic [OF _ _ n]) (simp_all only: items assms(3))
  then show "I (snd ((let updates = filter (\<lambda>i. qi_id i \<in> ids) js
      in seq (update_web_queue_item_plans E r updates) (ret (x g updates))) s))"
    unfolding Let_def by (rule then_ret)
qed

lemma keeps_update_request:
  assumes "sync_keeps I (aw_world A)" and "sync_spares_items (aw_world A)"
  shows "keeps I (handle_queue_update_result A r reqs)"
  unfolding handle_queue_update_result_def Let_def [of "clean_queue_run_id r"]
proof (intro keeps_bnd [OF keeps_token] keeps_query_at, goal_cases)
  case (1 u db)
  let ?r = "clean_queue_run_id r" and ?ids = "requested_ids reqs" and ?req = "requested_updates reqs"
  let ?J = "\<lambda>s. I s \<and> db_items s = db_items db"
  obtain run existing where load: "load_web_queue_run ?r db = (run, existing)" by fastforce
  show ?case
  proof (cases run)
    case None
    with 1 load show ?thesis by simp
  next
    case (Some run')
    have existing: "existing = run_items ?r db" using load_run_Some [OF load [unfolded Some]] by simp
    have sync: "sync_keeps ?J (aw_world A)"
      using assms by (auto simp: sync_spares_items_def intro: sync_keeps_conj)
    let ?plans = "list_all2 (\<lambda>i j. qi_id j = qi_id i \<and> qi_run_id j = qi_run_id i \<and> (?req (qi_id i) = None \<longrightarrow> j = i)) existing"
    let ?rest = "\<lambda>all. if card (qi_id ` set existing \<inter> ?ids) \<noteq> card ?ids
        then throw (Bail ''queue update references unknown item'')
        else seq (validate_queue_execution_hosts run' all)
          (with_graph (qr_execution_mode run') all
            (map (\<lambda>i. case ?req (qi_id i) of None \<Rightarrow> no_metadata | Some r \<Rightarrow> metadata_of_update_request r) all)
            (\<lambda>g js. let updates = filter (\<lambda>i. qi_id i \<in> ?ids) js
               in seq (update_web_queue_item_plans (aw_store A) ?r updates)
                    (ret (Answered (length updates, g, with_worker A ?r)))))"
    have rest: "I (snd (?rest all s))" if all: "?plans all" and s: "?J s" for all s
    proof -
      have "list_all2 (\<lambda>i j. qi_id j = qi_id i \<and> (qi_id i \<notin> ?ids \<longrightarrow> j = i)) (run_items ?r db) all"
        using all unfolding existing by (rule list_all2_mono) (simp add: requested_None)
      note graph = replan_leads [OF _ _ this, of _ "qr_execution_mode run'" _ "aw_store A"
          "\<lambda>g updates. Answered (length updates, g, with_worker A ?r)"]
      have "I (snd (seq (validate_queue_execution_hosts run' all)
          (with_graph (qr_execution_mode run') all metadata
            (\<lambda>g js. let updates = filter (\<lambda>i. qi_id i \<in> ?ids) js
               in seq (update_web_queue_item_plans (aw_store A) ?r updates)
                    (ret (Answered (length updates, g, with_worker A ?r))))) s))" for metadata
        by (rule bnd_leads [where J = "\<lambda>t. t = s" and P = "\<lambda>_. True", OF refl keeps_validate gives_True])
           (use s graph in auto)
      then show ?thesis using s by simp
    qed
    have main: "I (snd (bnd (apply_queue_updates (aw_world A) run' ?req existing) ?rest db))"
    proof (rule bnd_leads [where J = ?J and I = I and P = ?plans])
      show "?J db" using 1 by simp
      show "keeps ?J (apply_queue_updates (aw_world A) run' ?req existing)" by (rule keeps_apply_updates [OF sync])
      show "gives ?plans (apply_queue_updates (aw_world A) run' ?req existing)" by (rule gives_apply_updates)
      show "I (snd (?rest all s))" if "?plans all" "?J s" for all s using that by (rule rest)
    qed simp
    show ?thesis
      unfolding load Some prod.case option.case
      using 1 main by (simp only: Let_def run_throw run_ret snd_conv split: if_split) simp
  qed
qed

lemma keeps_other_requests [keeps_intro]:
  "keeps I (handle_queue_stop_result A sr)"
  "keeps I (handle_queue_tab_create_result A l)"
  "keeps I (handle_queue_tab_switch_result A t)"
  "keeps I (handle_queue_tab_delete_result A t)"
  "keeps I (handle_queue_clear_result A sr)"
  unfolding handle_queue_stop_result_def handle_queue_tab_create_result_def unique_queue_tab_id_def
    handle_queue_tab_switch_result_def handle_queue_tab_delete_result_def handle_queue_clear_result_def Let_def
  by (intro keeps_intro stops creates activates drops_tab clears)+

lemma keeps_continue_request:
  "world_keeps I (aw_world A) \<Longrightarrow> keeps I (handle_queue_continue_result A r)"
  unfolding handle_queue_continue_result_def Let_def
  by (intro keeps_intro continues)

lemma keeps_remove_request:
  "sync_keeps I (aw_world A) \<Longrightarrow> keeps I (handle_queue_remove_result A payload)"
  unfolding handle_queue_remove_result_def removal_allowed_def queue_item_removable_while_running_def Let_def
  by (intro keeps_intro removes keeps_evidence)

lemma keeps_respond [keeps_intro]:
  "keeps I m \<Longrightarrow> keeps I (respond ws m f)" "keeps I n \<Longrightarrow> keeps I (respond_with_graph ws n g)"
  unfolding respond_def respond_with_graph_def by (intro keeps_intro; assumption)+

text \<open>Every request of the interface keeps the invariant.\<close>

lemma keeps_api:
  assumes "world_keeps I (aw_world A)" and "sync_spares_items (aw_world A)"
  shows "keeps I (serve_queue_api A req)"
proof -
  note w = world_keeps_sync [OF assms(1)]
  show ?thesis
    by (cases req; simp only: serve_queue_api.simps handle_queue_run_def handle_queue_append_def handle_queue_update_def
        handle_queue_stop_def handle_queue_continue_def handle_queue_tab_create_def handle_queue_tab_switch_def
        handle_queue_tab_delete_def handle_queue_remove_def handle_queue_clear_def;
        intro keeps_intro keeps_update_request keeps_continue_request keeps_remove_request w assms)
qed

end

section \<open>The invariants of the queue\<close>

text \<open>Replanning writes the columns of the plan.\<close>

lemma keeps_plans:
  assumes "\<And>db p i. I db \<Longrightarrow> schema_ok (db\<lparr>db_items := update_where p (planned E i) (db_items db)\<rparr>) \<Longrightarrow>
      I (db\<lparr>db_items := update_where p (planned E i) (db_items db)\<rparr>)"
    and "\<And>db q g. I db \<Longrightarrow> schema_ok (db\<lparr>db_runs := update_where q g (db_runs db)\<rparr>) \<Longrightarrow>
      I (db\<lparr>db_runs := update_where q g (db_runs db)\<rparr>)"
  shows "keeps I (update_web_queue_item_plans E r items)"
  unfolding update_web_queue_item_plans_def update_item_plan_planned update_items_def update_runs_def
  by (intro keeps_intro keeps_sql assms)

text \<open>Replacing a queue drops the bounds of the old items and takes those of the new ones.\<close>

lemma replace_keeps_graphs:
  assumes own: "\<forall>i \<in> set items. qi_run_id i = qr_id run" and acyc: "acyclic (graph_edges items)"
  shows "keeps graphs_acyclic (replace_web_queue_with_assignment E run items tab)"
proof (rule keepsI)
  fix db assume I: "graphs_acyclic db"
  let ?r = "qr_id run"
  let ?D = "plan_deps ?r items (\<lambda>r a. if r = ?r then {} else deps_of db r a)"
  let ?K = "\<lambda>s. schema_ok s \<and> deps_within (deps_of db) s" and ?J = "\<lambda>s. schema_ok s \<and> deps_within ?D s"
  let ?prev = "case tab of Some t \<Rightarrow> web_queue_tab_run_id (se_now E) t | None \<Rightarrow> active_web_queue_run_id (se_now E)"
  obtain res db' where res: "replace_web_queue_with_assignment E run items tab db = (res, db')" by fastforce
  show "graphs_acyclic (snd (replace_web_queue_with_assignment E run items tab db))"
  proof (cases res)
    case (Inl e)
    then show ?thesis
      using res I unfolding replace_by_rest by (auto dest: transaction_Inl)
  next
    case (Inr u)
    have "seq (ensure_default_web_queue_tab (se_now E)) (bnd ?prev (\<lambda>p.
        seq (delete_items ''failed to clear web queue items'' (\<lambda>i. qi_run_id i = ?r)) (replace_rest E run items tab p))) db =
        (Inr u, db')"
      using res unfolding replace_by_rest Inr by (rule transaction_InrD)
    then obtain w0 d0 where d0: "ensure_default_web_queue_tab (se_now E) db = (Inr w0, d0)"
        and s1: "bnd ?prev (\<lambda>p. seq (delete_items ''failed to clear web queue items'' (\<lambda>i. qi_run_id i = ?r))
          (replace_rest E run items tab p)) d0 = (Inr u, db')"
      by (rule bnd_InrE)
    from s1 obtain w1 d1 where d1: "?prev d0 = (Inr w1, d1)"
        and s2: "seq (delete_items ''failed to clear web queue items'' (\<lambda>i. qi_run_id i = ?r))
          (replace_rest E run items tab w1) d1 = (Inr u, db')"
      by (rule bnd_InrE)
    from s2 obtain w2 d2 where d2: "delete_items ''failed to clear web queue items'' (\<lambda>i. qi_run_id i = ?r) d1 = (Inr w2, d2)"
        and rest: "replace_rest E run items tab w1 d2 = (Inr u, db')"
      by (rule bnd_InrE)
    have "keeps ?K ?prev"
      unfolding web_queue_tab_run_id_def active_web_queue_run_id_def
      by (intro keeps_intro bound_rows.tabs_ready)
    moreover have "?K d0" using bound_rows.tabs_ready d0 I deps_within_self [of db] by (auto simp: graphs_acyclic_def dest: keepsD)
    ultimately have K1: "?K d1" using d1 by (rule keepsD)
    have "d2 = delete_items_db (\<lambda>i. qi_run_id i = ?r) d1" "schema_ok d2"
      using d2 by (auto simp: delete_items_def run_sql_exec split: if_splits)
    then have J2: "?J d2"
      using K1 by (auto simp: deps_within_def plan_deps_def)
    have "keeps ?J (replace_rest E run items tab w1)"
      by (rule bound_rows.keeps_replace_rest) (use own in \<open>auto simp: list_all_iff plan_deps_def\<close>)
    from keepsD [OF this J2 rest] have J: "?J db'" .
    have "acyclic (bound_edges ?D r)" for r
    proof (cases "r = ?r")
      case True
      have "bound_edges ?D ?r \<subseteq> graph_edges items"
        unfolding bound_edges_def plan_deps_def graph_edges_def by (auto split: if_splits) metis
      with True acyc show ?thesis by (auto intro: acyclic_subset)
    next
      case False
      then have "bound_edges ?D r = bound_edges (deps_of db) r" by (auto simp: bound_edges_def plan_deps_def)
      then show ?thesis using graphs_acyclic_bounds [OF I] by simp
    qed
    then show ?thesis using J acyclic_within [of db' ?D] res by simp
  qed
qed

lemma graph_edges_stored [simp]: "graph_edges (map stored_item items) = graph_edges items"
  by (induction items) (simp_all add: graph_edges_Cons stored_item_def)

lemma append_keeps_graphs:
  assumes I: "graphs_acyclic db" and own: "\<forall>i \<in> set items. qi_run_id i = r"
    and acyc: "acyclic (graph_edges (items_of_run r db) \<union> graph_edges items)"
  shows "graphs_acyclic (snd (append_web_queue_items E r items db))"
proof (cases "items = []")
  case True
  with I show ?thesis by (simp add: append_web_queue_items_def)
next
  case False
  obtain res db' where res: "append_web_queue_items E r items db = (res, db')" by fastforce
  have ok: "schema_ok db" using I by (simp add: graphs_acyclic_def)
  note eff = append_effect [OF ok False, of r E, unfolded res prod.case]
  show ?thesis
  proof (cases res)
    case (Inl e)
    with eff res I show ?thesis by simp
  next
    case (Inr u)
    with eff have db': "schema_ok db'" "db_items db' = db_items db @ map stored_item items" by auto
    have "items_of_run r' db' = items_of_run r' db @ (if r' = r then map stored_item items else [])" for r'
    proof -
      have "filter (\<lambda>i. qi_run_id i = r') (map stored_item items) = (if r' = r then map stored_item items else [])"
        using own by (auto simp: stored_item_def intro: filter_True filter_False)
      then show ?thesis by (simp add: items_of_run_def db'(2))
    qed
    then have "acyclic (graph_edges (items_of_run r' db'))" for r'
      using acyc I by (simp add: graph_edges_append graphs_acyclic_def)
    with db'(1) res show ?thesis by (simp add: graphs_acyclic_def)
  qed
qed

text \<open>After some of the plans: the rows written so far have planned dependencies.\<close>

definition row_within :: "string \<Rightarrow> queue_item_row list \<Rightarrow> string set \<Rightarrow> dep_bounds \<Rightarrow> queue_item_row \<Rightarrow> bool" where
  "row_within r items S D j =
     (if qi_run_id j = r \<and> qi_id j \<in> S
      then \<exists>i \<in> set items. qi_id i = qi_id j \<and> qi_depends_on j = qi_depends_on i
      else set (qi_depends_on j) \<subseteq> D (qi_run_id j) (qi_id j))"

definition planned_within :: "string \<Rightarrow> queue_item_row list \<Rightarrow> string set \<Rightarrow> dep_bounds \<Rightarrow> qdb \<Rightarrow> bool" where
  "planned_within r items S D db = (schema_ok db \<and> (\<forall>j \<in> set (db_items db). row_within r items S D j))"

lemma row_within_plan:
  assumes "row_within r items S D j" and "i \<in> set items"
  shows "row_within r items (insert (qi_id i) S) D (if item_key r (qi_id i) j then planned E i j else j)"
proof (cases "item_key r (qi_id i) j")
  case True
  then show ?thesis using assms(2) by (auto simp: row_within_def item_key_def)
next
  case False
  then have "row_within r items (insert (qi_id i) S) D j = row_within r items S D j"
    by (auto simp: row_within_def item_key_def)
  with False assms(1) show ?thesis by simp
qed

lemma row_within_bound:
  assumes "row_within r items (qi_id ` set items) D j"
  shows "set (qi_depends_on j) \<subseteq> plan_deps r items D (qi_run_id j) (qi_id j)"
proof (cases "qi_run_id j = r \<and> qi_id j \<in> qi_id ` set items")
  case True
  with assms obtain i where "i \<in> set items" "qi_id i = qi_id j" "qi_depends_on j = qi_depends_on i"
    unfolding row_within_def by auto
  with True show ?thesis by (auto simp: plan_deps_def)
next
  case False
  with assms show ?thesis unfolding row_within_def plan_deps_def by auto
qed

lemma plan_each:
  "for_each (update_item_plan E r) xs db = (Inr u, db') \<Longrightarrow> set xs \<subseteq> set items \<Longrightarrow> planned_within r items S D db \<Longrightarrow>
   planned_within r items (S \<union> qi_id ` set xs) D db'"
proof (induction xs arbitrary: db S)
  case (Cons i xs)
  from Cons.prems(1) obtain w d where d: "update_item_plan E r i db = (Inr w, d)"
      "for_each (update_item_plan E r) xs d = (Inr u, db')"
    by (auto elim: bnd_InrE)
  have "d = db\<lparr>db_items := update_where (item_key r (qi_id i)) (planned E i) (db_items db)\<rparr>" and ok: "schema_ok d"
    using d(1) by (auto simp: update_item_plan_planned update_items_def run_bnd run_sql_exec split: if_splits)
  note d' = this
  have items': "db_items d = update_where (item_key r (qi_id i)) (planned E i) (db_items db)" by (simp add: d'(1))
  have i: "i \<in> set items" using Cons.prems(2) by simp
  have rows: "\<forall>j \<in> set (db_items db). row_within r items S D j" using Cons.prems(3) by (simp add: planned_within_def)
  have "\<forall>j \<in> set (db_items d). row_within r items (insert (qi_id i) S) D j"
  proof
    fix j' assume "j' \<in> set (db_items d)"
    then have "j' \<in> (\<lambda>j. if item_key r (qi_id i) j then planned E i j else j) ` set (db_items db)"
      unfolding items' set_update_where .
    then obtain j where j: "j \<in> set (db_items db)" "j' = (if item_key r (qi_id i) j then planned E i j else j)" ..
    have "row_within r items S D j" using rows j(1) by blast
    from row_within_plan [OF this i] show "row_within r items (insert (qi_id i) S) D j'" unfolding j(2) .
  qed
  with d'(2) have "planned_within r items (insert (qi_id i) S) D d" by (simp add: planned_within_def)
  from Cons.IH [OF d(2) _ this] Cons.prems(2) show ?case by simp
qed simp

lemma replan_keeps_graphs:
  assumes I: "graphs_acyclic db" and acyc: "acyclic (bound_edges (plan_deps r items (deps_of db)) r)"
  shows "graphs_acyclic (snd (update_web_queue_item_plans E r items db))"
proof (cases "items = []")
  case True
  with I show ?thesis by (simp add: update_web_queue_item_plans_def)
next
  case False
  let ?D = "plan_deps r items (deps_of db)"
  obtain res db' where res: "update_web_queue_item_plans E r items db = (res, db')" by fastforce
  show ?thesis
  proof (cases res)
    case (Inl e)
    with res False I show ?thesis by (auto simp: update_web_queue_item_plans_def dest: transaction_Inl)
  next
    case (Inr u)
    let ?runs = "seq (update_runs ''failed to update web queue run after item plan update'' (\<lambda>x. qr_id x = r)
        (\<lambda>x. x\<lparr>qr_message := ''updated '' @ show_nat (length items) @ '' queue item(s)'', qr_updated_at := se_now E\<rparr>)) (ret ())"
    have "transaction (seq (for_each (update_item_plan E r) items) ?runs) db = (Inr u, db')"
      using res False Inr by (simp add: update_web_queue_item_plans_def)
    then have "seq (for_each (update_item_plan E r) items) ?runs db = (Inr u, db')" by (rule transaction_InrD)
    then obtain w d where d: "for_each (update_item_plan E r) items db = (Inr w, d)" and rest: "?runs d = (Inr u, db')"
      by (rule bnd_InrE)
    have "planned_within r items {} (deps_of db) db"
      using I deps_within_self [of db] by (simp add: planned_within_def row_within_def graphs_acyclic_def deps_within_def)
    from plan_each [OF d subset_refl this] have "planned_within r items (qi_id ` set items) (deps_of db) d" by simp
    then have J: "schema_ok d \<and> deps_within ?D d"
      unfolding planned_within_def deps_within_def using row_within_bound by blast
    have "keeps (\<lambda>s. schema_ok s \<and> deps_within ?D s) ?runs" by (intro keeps_bnd keeps_ret bound_rows.keeps_update_runs)
    from keepsD [OF this J rest] have "schema_ok db' \<and> deps_within ?D db'" .
    moreover have "acyclic (bound_edges ?D r')" for r'
    proof (cases "r' = r")
      case False
      then have "bound_edges ?D r' = bound_edges (deps_of db) r'" by (simp add: bound_edges_def plan_deps_def)
      then show ?thesis using graphs_acyclic_bounds [OF I] by simp
    qed (use acyc in simp)
    ultimately have "graphs_acyclic db'" using acyclic_within [of db' ?D] by blast
    then show ?thesis unfolding res by simp
  qed
qed

lemma tabs_inv_columns:
  "tabs_inv db \<Longrightarrow> schema_ok (db\<lparr>db_items := is\<rparr>) \<Longrightarrow> tabs_inv (db\<lparr>db_items := is\<rparr>)"
  "tabs_inv db \<Longrightarrow> schema_ok (db\<lparr>db_runs := rs\<rparr>) \<Longrightarrow> tabs_inv (db\<lparr>db_runs := rs\<rparr>)"
  "tabs_inv db \<Longrightarrow> schema_ok (db\<lparr>db_tasks := ks\<rparr>) \<Longrightarrow> tabs_inv (db\<lparr>db_tasks := ks\<rparr>)"
  by (erule tabs_inv_other; simp)+

lemma lease_inv_planned:
  assumes "lease_inv db" and "schema_ok (db\<lparr>db_items := update_where p (planned E i) (db_items db)\<rparr>)"
  shows "lease_inv (db\<lparr>db_items := update_where p (planned E i) (db_items db)\<rparr>)"
proof (rule lease_inv_rows [OF assms])
  fix l j assume j: "j \<in> set (db_items db)" and key: "qi_run_id j = ql_run_id l" "qi_id j = ql_item_id l"
  have "(if p j then planned E i j else j) \<in> set (db_items (db\<lparr>db_items := update_where p (planned E i) (db_items db)\<rparr>))"
    using j by (simp add: set_update_where)
  then show "(ql_run_id l, ql_item_id l) \<in>
      (\<lambda>i. (qi_run_id i, qi_id i)) ` set (db_items (db\<lparr>db_items := update_where p (planned E i) (db_items db)\<rparr>))"
    by (rule rev_image_eqI) (simp add: key)
qed simp

lemma tabs_inv_store:
  "keeps tabs_inv (update_web_queue_run E r st p m)"
  "keeps tabs_inv (request_web_queue_stop E sr)"
  "keeps tabs_inv (continue_web_queue_run E r)"
  "keeps tabs_inv (wake_web_queue_retry_items E r)"
  "keeps tabs_inv (delete_task_record tk)"
  "keeps tabs_inv (update_web_queue_item_plans E r items)"
proof -
  have runs: "keeps tabs_inv (update_runs c q g)" and rows: "keeps tabs_inv (update_items c p f)" for c q g p f
    unfolding update_runs_def update_items_def by (rule keeps_sql, erule (1) tabs_inv_columns)+
  show "keeps tabs_inv (update_web_queue_run E r st p m)"
    unfolding update_web_queue_run_def by (intro keeps_intro runs)
  show "keeps tabs_inv (request_web_queue_stop E sr)"
    unfolding request_web_queue_stop_def active_web_queue_run_id_def by (intro keeps_intro runs kept_tabs.tabs_ready)
  show "keeps tabs_inv (continue_web_queue_run E r)"
    unfolding continue_web_queue_run_def by (intro keeps_intro runs rows)
  have "keeps tabs_inv (bnd (update_items c p f) (\<lambda>n. if n > 0 then seq (update_runs c' q g) (ret n) else ret n))" for c p f c' q g
    by (intro keeps_intro runs rows)
  then show "keeps tabs_inv (wake_web_queue_retry_items E r)"
    unfolding wake_web_queue_retry_items_def keeps_def by blast
  show "keeps tabs_inv (delete_task_record tk)"
    unfolding delete_task_record_def by (intro keeps_intro keeps_sql tabs_inv_columns)
  show "keeps tabs_inv (update_web_queue_item_plans E r items)"
    by (intro keeps_plans tabs_inv_columns)
qed

lemma tabs_inv_replace:
  assumes "\<forall>i \<in> set items. qi_run_id i = qr_id run"
  shows "keeps tabs_inv (replace_web_queue_with_assignment E run items tab)"
proof (rule keepsI)
  fix db assume inv: "tabs_inv db"
  from replace_effect [OF inv, of items run tab E] inv assms
  show "tabs_inv (snd (replace_web_queue_with_assignment E run items tab db))"
    by (cases "replace_web_queue_with_assignment E run items tab db") (auto split: sum.splits)
qed

lemma tabs_inv_append:
  assumes "tabs_inv db"
  shows "tabs_inv (snd (append_web_queue_items E r items db))"
proof (cases "items = []")
  case False
  from append_effect [OF tabs_inv_schema [OF assms] False, of r E] assms tabs_inv_other [OF assms] show ?thesis
    by (cases "append_web_queue_items E r items db") (auto split: sum.splits)
qed (use assms in \<open>simp add: append_web_queue_items_def\<close>)

interpretation queue_tabs: queue_invariant tabs_inv
  by unfold_locales
     (simp_all add: tabs_inv_store tabs_inv_create tabs_inv_activate tabs_inv_delete_tab tabs_inv_delete_run_items
        tabs_inv_delete_item tabs_inv_replace tabs_inv_append keepsD' [OF tabs_inv_store(6)])

interpretation queue_leases: queue_invariant lease_inv
proof (unfold_locales, goal_cases)
  case (11 items run E tab)
  then show ?case by (intro lease_rows.keeps_replace) simp
next
  case (12 db items r E)
  then show ?case using lease_rows.keeps_append [of items E r] by (simp add: keeps_def list_all_iff)
next
  case (13 db r items E)
  have "keeps lease_inv (update_web_queue_item_plans E r items)"
    by (intro keeps_plans lease_inv_planned lease_rows.run_table)
  with 13(1) show ?case by (simp add: keeps_def)
qed (intro lease_rows.keeps_any_status lease_rows.keeps_request_stop lease_rows.keeps_continue lease_rows.keeps_wake
       lease_rows.keeps_create_tab lease_rows.keeps_activate_tab lease_rows.keeps_delete_tab lease_rows.keeps_delete_run_items
       lease_rows.keeps_delete_item lease_rows.keeps_delete_task)+

interpretation queue_graphs: queue_invariant graphs_acyclic
proof (unfold_locales, goal_cases)
  case (15 items run E tab)
  then show ?case by (rule replace_keeps_graphs)
next
  case (16 db items r E)
  then show ?case by (intro append_keeps_graphs) auto
next
  case (17 db r items E)
  then show ?case by (intro replan_keeps_graphs) auto
qed (intro keeps_graphs bound_rows.keeps_any_status bound_rows.keeps_request_stop bound_rows.keeps_continue
       bound_rows.keeps_wake bound_rows.keeps_create_tab bound_rows.keeps_activate_tab bound_rows.keeps_delete_tab
       bound_rows.keeps_delete_run_items bound_rows.keeps_delete_item bound_rows.keeps_delete_task keeps_lease_operations;
     simp add: graphs_acyclic_def items_of_run_def)+

end
