(* ===== verification/Queue_Item_Worker.thy ===== *)
theory Queue_Item_Worker
  imports Task_Packet Queue_Runner
begin

text \<open>
  The thread that works on one item (\<open>queue_worker.rs\<close>): what it finds when it starts, the launch of
  an agent with its retries, and the wait for the task to close
  (\<open>queue_worker_closeout.rs\<close>, \<open>queue_worker_taskflow.rs\<close>, \<open>queue_worker_cleanup.rs\<close>,
  \<open>queue_worker_record_status.rs\<close>).

  A thread runs against a clock: what it observes now, and for each time it sleeps what the rest of
  the system writes meanwhile and what it observes afterwards. When the sleeps run out the thread is
  still at work; its value is \<open>None\<close> then. Removing a prompt file and pasting into a terminal
  change nothing that the model observes.
\<close>

section \<open>Threads\<close>

type_synonym clock = "queue_world \<times> round list"

type_synonym 'a thread = "(clock \<times> qdb, 'a option) prog"

definition finish :: "'a \<Rightarrow> 'a thread" where
  "finish x = ret (Some x)"

definition still_at_work :: "'a thread" where
  "still_at_work = ret None"

definition act :: "(queue_world \<Rightarrow> (qdb, 'a) prog) \<Rightarrow> 'a thread" where
  "act m = (\<lambda>((W, ts), db). case m W db of
     (Inl e, db') \<Rightarrow> (Inl e, ((W, ts), db'))
   | (Inr x, db') \<Rightarrow> (Inr (Some x), ((W, ts), db')))"

definition and_then :: "'a thread \<Rightarrow> ('a \<Rightarrow> 'b thread) \<Rightarrow> 'b thread" where
  "and_then t k = bnd t (\<lambda>r. case r of None \<Rightarrow> still_at_work | Some x \<Rightarrow> k x)"

text \<open>\<open>thread::sleep\<close>.\<close>

definition nap :: "unit thread" where
  "nap = (\<lambda>((W, ts), db). case ts of
     [] \<Rightarrow> (Inr None, ((W, []), db))
   | (W', others) # rest \<Rightarrow> (Inr (Some ()), ((W', rest), others db)))"

definition sleeps_left :: "clock \<Rightarrow> nat" where
  "sleeps_left c = length (snd c)"

section \<open>What the thread finds\<close>

definition mark_queue_item_paused ::
  "queue_world \<Rightarrow> string \<Rightarrow> queue_item_row \<Rightarrow> string option \<Rightarrow> int \<Rightarrow> string \<Rightarrow> (qdb, queue_item_outcome) prog" where
  "mark_queue_item_paused W run_id i agent_id attempts status =
     seq (update_web_queue_item (qw_store W) run_id (qi_id i) ItemPaused status agent_id attempts None)
       (seq (update_web_queue_run (qw_store W) run_id RunStopped (qi_position i) status) (ret OutStopped))"

definition fail_queue_item_from_task_status ::
  "queue_world \<Rightarrow> string \<Rightarrow> queue_item_row \<Rightarrow> string option \<Rightarrow> int \<Rightarrow> string \<Rightarrow> (qdb, queue_item_outcome) prog" where
  "fail_queue_item_from_task_status W run_id i agent_id attempts status =
     seq (update_web_queue_item (qw_store W) run_id (qi_id i) ItemFailed status agent_id attempts None)
       (ret (OutFailed status False))"

text \<open>The outcome if the thread is done, and the item as it is then.\<close>

definition queue_item_preflight_outcome_from_reduction ::
  "queue_world \<Rightarrow> string \<Rightarrow> queue_item_row \<Rightarrow> string \<Rightarrow> queue_status_evidence \<Rightarrow> queue_status_reduction \<Rightarrow>
   (qdb, queue_item_outcome option \<times> queue_item_row) prog" where
  "queue_item_preflight_outcome_from_reduction W run_id i status e red =
     (let ends = (\<lambda>m. bnd m (\<lambda>r. ret (Some r, i))) in case red_action red of
        ActNone \<Rightarrow> ret (None, i)
      | ActRefreshEvidence \<Rightarrow> ret (None, i)
      | ActMarkSuccess \<Rightarrow>
          ends (seq (update_successful_queue_item W run_id i (qi_agent_id i) (qi_attempts i)) (ret OutSuccess))
      | ActMarkPaused \<Rightarrow> ends (mark_queue_item_paused W run_id i (qi_agent_id i) (qi_attempts i) status)
      | ActMarkRunning \<Rightarrow>
          (let agent_id = running_agent_of i e;
               message = queue_status_running_message i agent_id e
           in seq (update_web_queue_item (qw_store W) run_id (qi_id i) ItemRunning message agent_id (qi_attempts i) None)
                (seq (update_web_queue_run (qw_store W) run_id RunRunning (qi_position i)
                        (queue_status_running_run_message i e message))
                  (ret (None, i\<lparr>qi_status := ItemRunning, qi_message := message, qi_agent_id := agent_id\<rparr>))))
      | ActRelaunchRemoteDisconnectedOpenRecord \<Rightarrow>
          ends (relaunch_remote_native_disconnected_item W run_id i (qi_attempts i))
      | ActRecoverExecution \<Rightarrow>
          if ev_recovery_live_agent_id e \<noteq> None \<or> ev_recovery_waiting e then ret (None, i)
          else ends (fail_or_schedule_queue_item_recovery W run_id i (queue_status_recovery_failure_message status e)
                  (qi_agent_id i) (qi_attempts i))
      | ActMarkFailed \<Rightarrow> ends (fail_queue_item_from_task_status W run_id i (qi_agent_id i) (qi_attempts i) status)
      | ActBoundedRelaunch \<Rightarrow>
          ends (bounded_queue_item_relaunch W run_id i (queue_launch_failed_before_record_message i) (qi_attempts i)))"

definition queue_item_preflight ::
  "queue_world \<Rightarrow> string \<Rightarrow> queue_item_row \<Rightarrow> (qdb, queue_item_outcome option \<times> queue_item_row) prog" where
  "queue_item_preflight W run_id i =
     bnd (collect_queue_status_evidence_for_item W run_id i) (\<lambda>e.
       let red = reduce_queue_status e in
       case ev_task_status e of
         Some status \<Rightarrow> queue_item_preflight_outcome_from_reduction W run_id i status e red
       | None \<Rightarrow>
           if red_action red = ActBoundedRelaunch then
             bnd (bounded_queue_item_relaunch W run_id i (queue_launch_failed_before_record_message i) (qi_attempts i))
               (\<lambda>r. ret (Some r, i))
           else if red_action red = ActRefreshEvidence \<and> item_is_starting_or_running (qi_status i) then
             seq (update_queue_item_status_sync_unavailable_wait W run_id i (qi_agent_id i) (qi_attempts i)
                    (red_reason red))
               (ret (None, i))
           else ret (None, i))"

definition remote_native_running_wait_item :: "queue_item_row \<Rightarrow> string \<Rightarrow> queue_item_row" where
  "remote_native_running_wait_item i agent_id = i\<lparr>qi_status := ItemRunning, qi_agent_id := Some agent_id\<rparr>"

text \<open>An item with an agent is waited for, ended or launched anew.\<close>

datatype resumption = ResumeEnds queue_item_outcome | ResumeWaits queue_item_row string | ResumeLaunches

definition resume_running_item :: "queue_world \<Rightarrow> string \<Rightarrow> queue_item_row \<Rightarrow> string \<Rightarrow> (qdb, resumption) prog" where
  "resume_running_item W run_id i agent_id =
     (let ends = (\<lambda>message. bnd (fail_or_schedule_queue_item_recovery W run_id i message (Some agent_id) (qi_attempts i))
            (\<lambda>r. ret (ResumeEnds r)))
      in if queue_item_remote_native i then ret (ResumeWaits i agent_id)
         else if agent_running W agent_id then
           (if agent_terminal_closeout_failed W agent_id then ends agent_failed_qcold_closeout
            else ret (ResumeWaits i agent_id))
         else ends agent_exited_before_closeout)"

definition resume_stopped_item :: "queue_world \<Rightarrow> string \<Rightarrow> queue_item_row \<Rightarrow> string \<Rightarrow> (qdb, resumption) prog" where
  "resume_stopped_item W run_id i agent_id =
     (let mark = (\<lambda>message. update_web_queue_item (qw_store W) run_id (qi_id i) ItemRunning message (Some agent_id)
            (qi_attempts i) None)
      in if queue_item_remote_native i then
           seq (mark (''resumed remote-native agent '' @ agent_id))
             (ret (ResumeWaits (remote_native_running_wait_item i agent_id) agent_id))
         else if agent_running W agent_id then
           seq (mark (''resumed agent '' @ agent_id)) (ret (ResumeWaits i agent_id))
         else ret ResumeLaunches)"

definition queue_item_resume :: "queue_world \<Rightarrow> string \<Rightarrow> queue_item_row \<Rightarrow> (qdb, resumption) prog" where
  "queue_item_resume W run_id i =
     (case qi_agent_id i of
        None \<Rightarrow> ret ResumeLaunches
      | Some a \<Rightarrow>
          if item_is_starting_or_running (qi_status i) then resume_running_item W run_id i a
          else if item_is_stopped_or_paused (qi_status i) then resume_stopped_item W run_id i a
          else ret ResumeLaunches)"

section \<open>Waiting for the task to close\<close>

definition queue_item_closeout_outcome_from_reduction ::
  "queue_world \<Rightarrow> string \<Rightarrow> queue_item_row \<Rightarrow> string \<Rightarrow> int \<Rightarrow> string \<Rightarrow> queue_status_evidence \<Rightarrow>
   queue_status_reduction \<Rightarrow> (qdb, queue_item_outcome option) prog" where
  "queue_item_closeout_outcome_from_reduction W run_id i agent_id attempts status e red =
     (let ends = (\<lambda>m. bnd m (\<lambda>r. ret (Some r))) in case red_action red of
        ActNone \<Rightarrow> ret None
      | ActRefreshEvidence \<Rightarrow> ret None
      | ActMarkSuccess \<Rightarrow>
          ends (seq (update_successful_queue_item W run_id i (Some agent_id) attempts) (ret OutSuccess))
      | ActMarkPaused \<Rightarrow> ends (mark_queue_item_paused W run_id i (Some agent_id) attempts status)
      | ActMarkRunning \<Rightarrow>
          (let live = (case coalesce (ev_remote_live_agent_id e) (ev_recovery_live_agent_id e) of
                 None \<Rightarrow> agent_id | Some a \<Rightarrow> a);
               message = queue_status_running_message i (Some live) e
           in seq (update_web_queue_item (qw_store W) run_id (qi_id i) ItemRunning message (Some live) attempts None)
                (seq (update_web_queue_run (qw_store W) run_id RunRunning (qi_position i)
                        (queue_status_running_run_message i e message))
                  (ret None)))
      | ActRelaunchRemoteDisconnectedOpenRecord \<Rightarrow> ends (relaunch_remote_native_disconnected_item W run_id i attempts)
      | ActRecoverExecution \<Rightarrow>
          if ev_recovery_live_agent_id e \<noteq> None \<or> ev_recovery_waiting e then ret None
          else ends (fail_or_schedule_queue_item_recovery W run_id i (queue_status_recovery_failure_message status e)
                  (Some agent_id) attempts)
      | ActMarkFailed \<Rightarrow> ends (fail_queue_item_from_task_status W run_id i (Some agent_id) attempts status)
      | ActBoundedRelaunch \<Rightarrow> ret None)"

definition queue_item_closeout_check ::
  "queue_world \<Rightarrow> string \<Rightarrow> queue_item_row \<Rightarrow> string \<Rightarrow> int \<Rightarrow> (qdb, queue_item_outcome option) prog" where
  "queue_item_closeout_check W run_id i agent_id attempts =
     seq (modify (qw_sync_sessions W)) (bnd (collect_queue_status_evidence_for_item W run_id i) (\<lambda>e.
       let red = reduce_queue_status e in
       case ev_task_status e of
         Some status \<Rightarrow> queue_item_closeout_outcome_from_reduction W run_id i agent_id attempts status e red
       | None \<Rightarrow>
           if red_action red = ActBoundedRelaunch then
             (if queue_item_remote_native i then missing_queue_task_record_outcome W run_id i agent_id attempts
              else bnd (bounded_queue_item_relaunch W run_id i (queue_launch_failed_before_record_message i) attempts)
                     (\<lambda>r. ret (Some r)))
           else if red_action red = ActRefreshEvidence then
             seq (update_queue_item_status_sync_unavailable_wait W run_id i (Some agent_id) attempts (red_reason red))
               (ret None)
           else missing_queue_task_record_outcome W run_id i agent_id attempts))"

primrec closeout_rounds ::
  "nat \<Rightarrow> string \<Rightarrow> queue_item_row \<Rightarrow> string \<Rightarrow> int \<Rightarrow> queue_worker_lease option \<Rightarrow> queue_item_outcome thread" where
  "closeout_rounds 0 run_id i agent_id attempts lease = still_at_work"
| "closeout_rounds (Suc n) run_id i agent_id attempts lease =
     and_then (act (\<lambda>W. query (web_queue_stop_requested run_id))) (\<lambda>stop.
       if stop then
         and_then (act (\<lambda>W. pause_web_queue_item W run_id i (Some agent_id) attempts)) (\<lambda>_. finish OutStopped)
       else
         and_then (act (\<lambda>W. heartbeat_queue_item_worker_lease W lease)) (\<lambda>_.
         and_then nap (\<lambda>_.
         and_then (act (\<lambda>W. queue_item_closeout_check W run_id i agent_id attempts)) (\<lambda>outcome. case outcome of
             Some r \<Rightarrow> finish r
           | None \<Rightarrow> closeout_rounds n run_id i agent_id attempts lease))))"

text \<open>Each round sleeps once, so that one round more than there are sleeps is enough.\<close>

definition wait_for_queue_item_closeout ::
  "string \<Rightarrow> queue_item_row \<Rightarrow> string \<Rightarrow> int \<Rightarrow> queue_worker_lease option \<Rightarrow> queue_item_outcome thread" where
  "wait_for_queue_item_closeout run_id i agent_id attempts lease = (\<lambda>(c, db).
     closeout_rounds (Suc (sleeps_left c)) run_id i agent_id attempts lease (c, db))"

section \<open>Waiting for a retry and for a terminal\<close>

text \<open>Whether to go on; sleeps at most five seconds at a time.\<close>

fun sleep_queue_retry :: "string \<Rightarrow> string \<Rightarrow> nat \<Rightarrow> bool thread" where
  "sleep_queue_retry run_id item_id remaining =
     (if remaining = 0 then finish True
      else and_then (act (\<lambda>W. query (web_queue_stop_requested run_id))) (\<lambda>stop.
        if stop then finish False
        else and_then (act (\<lambda>W. query (web_queue_item_retry_awakened run_id item_id))) (\<lambda>awakened.
          if awakened then finish True
          else and_then nap (\<lambda>_. sleep_queue_retry run_id item_id (remaining - min remaining 5)))))"

declare sleep_queue_retry.simps [simp del]

primrec await_terminal_target :: "nat \<Rightarrow> string \<Rightarrow> string option thread" where
  "await_terminal_target 0 agent_id = finish None"
| "await_terminal_target (Suc n) agent_id =
     and_then (act (\<lambda>W. ret (lv_terminals (qw_launch W)))) (\<lambda>contexts. case contexts of
         None \<Rightarrow> finish None
       | Some cs \<Rightarrow> (case map_of cs agent_id of
           Some target \<Rightarrow> finish (Some target)
         | None \<Rightarrow> and_then nap (\<lambda>_. await_terminal_target n agent_id)))"

definition wait_for_agent_terminal_target :: "string \<Rightarrow> string option thread" where
  "wait_for_agent_terminal_target agent_id = await_terminal_target 20 agent_id"

section \<open>Starting an agent on this host\<close>

definition queue_launch_cwd_is_managed_task :: "queue_world \<Rightarrow> string \<Rightarrow> string + bool" where
  "queue_launch_cwd_is_managed_task W launch_cwd =
     (case lv_git_root (qw_launch W) launch_cwd of
        Inl e \<Rightarrow> Inl (''failed to inspect git root for '' @ launch_cwd @ '': '' @ e)
      | Inr None \<Rightarrow> Inr False
      | Inr (Some output) \<Rightarrow> Inr (lv_is_file (qw_launch W) (path_join (trim output) ''.task/task.env'')))"

definition queue_agent_tmux_session_exists :: "queue_world \<Rightarrow> string \<Rightarrow> string + bool" where
  "queue_agent_tmux_session_exists W agent_id =
     (let session = ''qcold-'' @ agent_id in
      case lv_tmux_session (qw_launch W) session of
        Inr success \<Rightarrow> Inr success
      | Inl None \<Rightarrow> Inr False
      | Inl (Some e) \<Rightarrow> Inl (''failed to inspect tmux session '' @ session @ '': '' @ e))"

text \<open>A process that must succeed; its output if it does.\<close>

definition require_process :: "string \<Rightarrow> process_result \<Rightarrow> (qdb, string) prog" where
  "require_process context p =
     (case p of
        ProcNotStarted e \<Rightarrow> throw (Bail (context @ '': '' @ e))
      | ProcExited success status stdout stderr \<Rightarrow>
          if success then ret stdout
          else (case compact_process_output stdout stderr of
              None \<Rightarrow> throw (Panic ''assertion failed: self.is_char_boundary(new_len)'')
            | Some output \<Rightarrow> throw (Bail (context @ '': '' @ output))))"

definition remove_clean_queue_agent_worktree :: "queue_world \<Rightarrow> string \<Rightarrow> string \<Rightarrow> (qdb, unit) prog" where
  "remove_clean_queue_agent_worktree W worktree launch_cwd =
     bnd (require_process (''failed to inspect queue agent worktree '' @ worktree)
            (lv_worktree_status (qw_launch W) worktree)) (\<lambda>changes.
       if changes \<noteq> [] then
         throw (Bail (''queue agent worktree '' @ worktree @ '' has local changes; refusing stale cleanup''))
       else seq (require_process (''failed to remove queue agent worktree '' @ worktree)
                   (lv_worktree_remove (qw_launch W) worktree launch_cwd)) (ret ()))"

definition try_result :: "string + 'a \<Rightarrow> ('s, 'a) prog" where
  "try_result r = (case r of Inl e \<Rightarrow> throw (Bail e) | Inr x \<Rightarrow> ret x)"

definition cleanup_stale_queue_agent_launch_artifacts ::
  "queue_world \<Rightarrow> queue_item_row \<Rightarrow> string \<Rightarrow> (qdb, unit) prog" where
  "cleanup_stale_queue_agent_launch_artifacts W i launch_cwd =
     (let agent_id = queue_agent_id i; L = qw_launch W in
      if queue_item_remote_native i \<or> agent_running W agent_id then ret ()
      else bnd (try_result (queue_agent_tmux_session_exists W agent_id)) (\<lambda>session.
        if session then
          throw (Bail (''queue agent terminal session qcold-'' @ agent_id @ '' still exists; refusing stale cleanup''))
        else bnd (try_result (queue_launch_cwd_is_managed_task W launch_cwd)) (\<lambda>managed.
          seq (if managed then ret ()
               else (case lv_agent_worktree L agent_id (queue_track (qi_run_id i)) launch_cwd of
                   Inl e \<Rightarrow> throw (Bail (''failed to resolve queue agent worktree for '' @ agent_id @ '': '' @ e))
                 | Inr worktree \<Rightarrow>
                     if lv_exists L worktree then remove_clean_queue_agent_worktree W worktree launch_cwd else ret ()))
            (seq (delete_agent_record agent_id) (ret ())))))"

definition write_queue_task_packet_text_file :: "queue_world \<Rightarrow> queue_item_row \<Rightarrow> string \<Rightarrow> string + string" where
  "write_queue_task_packet_text_file W i packet =
     (case lv_state_dir (qw_launch W) of
        Inl e \<Rightarrow> Inl e
      | Inr dir \<Rightarrow>
          (let path = path_join (path_join dir ''queue-task-packets'') (queue_task_packet_file_name i)
           in case lv_write_packet (qw_launch W) path packet of None \<Rightarrow> Inr path | Some e \<Rightarrow> Inl e))"

definition item_attempts :: "queue_item_row \<Rightarrow> qdb \<Rightarrow> loaded_attempts" where
  "item_attempts i db = Inr (load_web_queue_item_attempts (qi_run_id i) (qi_id i) db)"

definition write_queue_task_packet_file ::
  "queue_world \<Rightarrow> queue_item_row \<Rightarrow> launch_workspace \<Rightarrow> (qdb, string + string) prog" where
  "write_queue_task_packet_file W i w =
     query (\<lambda>db. write_queue_task_packet_text_file W i (queue_task_instruction_with_task (item_attempts i db) i w))"

definition write_remote_native_task_packet_file :: "queue_world \<Rightarrow> queue_item_row \<Rightarrow> (qdb, string + string) prog" where
  "write_remote_native_task_packet_file W i =
     query (\<lambda>db. write_queue_task_packet_text_file W i (queue_remote_native_task_instruction (item_attempts i db) i))"

definition remember_queue_task_agent :: "queue_world \<Rightarrow> queue_item_row \<Rightarrow> string \<Rightarrow> (qdb, unit) prog" where
  "remember_queue_task_agent W i agent_id =
     bnd (get_task_record (''task/'' @ qi_slug i)) (\<lambda>found. case found of
       None \<Rightarrow> ret ()
     | Some t \<Rightarrow>
         if \<not> queue_task_record_matches_item W i t then ret ()
         else seq (upsert_task_record (t\<lparr>tk_agent_id := Some agent_id\<rparr>)) (ret ()))"

definition queue_terminal_scope :: "queue_item_row \<Rightarrow> string" where
  "queue_terminal_scope i = ''task/'' @ qi_slug i"

definition set_queue_terminal_scope :: "queue_world \<Rightarrow> string \<Rightarrow> queue_item_row \<Rightarrow> (qdb, unit) prog" where
  "set_queue_terminal_scope W target i =
     (case lv_save_terminal (qw_launch W) target (queue_display_label i) (queue_terminal_scope i) of
        None \<Rightarrow> ret () | Some e \<Rightarrow> throw (Bail e))"

definition retry_after_queue_agent_launch_failure ::
  "queue_world \<Rightarrow> string \<Rightarrow> string \<Rightarrow> (qdb, queue_item_outcome) prog" where
  "retry_after_queue_agent_launch_failure W agent_id message =
     bnd (cleanup_queue_agent W agent_id) (\<lambda>c. ret (OutFailed (message @ ''; '' @ c) True))"

definition fail_start ::
  "queue_world \<Rightarrow> string \<Rightarrow> queue_item_row \<Rightarrow> string option \<Rightarrow> int \<Rightarrow> string \<Rightarrow> (qdb, queue_item_outcome) prog" where
  "fail_start W run_id i agent_id attempts message =
     seq (update_web_queue_item (qw_store W) run_id (qi_id i) ItemFailed message agent_id attempts None)
       (ret (OutFailed message False))"

text \<open>What happens before the agent is awaited: its id, or the outcome.\<close>

definition launch_queue_agent ::
  "queue_world \<Rightarrow> string \<Rightarrow> queue_item_row \<Rightarrow> int \<Rightarrow> (qdb, queue_item_outcome + string) prog" where
  "launch_queue_agent W run_id i attempts =
     (let failed = (\<lambda>agent message. bnd (fail_start W run_id i agent attempts message) (\<lambda>r. ret (Inl r))) in
      bnd (caught (queue_launch_workspace W i)) (\<lambda>workspace. case workspace of
        Inl e \<Rightarrow> failed None (error_text e)
      | Inr task \<Rightarrow>
          bnd (caught (cleanup_stale_queue_agent_launch_artifacts W i (lw_worktree task))) (\<lambda>cleaned. case cleaned of
            Inl e \<Rightarrow> failed (Some (queue_agent_id i)) (error_text e)
          | Inr _ \<Rightarrow>
              bnd (write_queue_task_packet_file W i task) (\<lambda>written. case written of
                Inl e \<Rightarrow> failed None e
              | Inr prompt_file \<Rightarrow>
                  bnd (\<lambda>db. case lv_start_agent (qw_launch W) (queue_agent_id i) (lw_worktree task) (queue_track run_id)
                         (queue_agent_launch_command i task prompt_file) db of (r, db') \<Rightarrow> (Inr r, db')) (\<lambda>started.
                    case started of
                      Inl e \<Rightarrow> ret (Inl (OutFailed e True))
                    | Inr agent_id \<Rightarrow>
                        seq (update_web_queue_item (qw_store W) run_id (qi_id i) ItemStarting
                               ''waiting for agent terminal'' (Some agent_id) attempts None)
                          (seq (remember_queue_task_agent W i agent_id) (ret (Inr agent_id))))))))"

definition agent_terminal_appeared ::
  "queue_world \<Rightarrow> string \<Rightarrow> queue_item_row \<Rightarrow> int \<Rightarrow> string \<Rightarrow> string \<Rightarrow> (qdb, unit) prog" where
  "agent_terminal_appeared W run_id i attempts agent_id target =
     seq (set_queue_terminal_scope W target i)
       (seq (update_web_queue_item (qw_store W) run_id (qi_id i) ItemRunning
               (queue_display_label i @ '' ('' @ agent_id @ '')'') (Some agent_id) attempts None)
         (set_web_queue_item_attempt_terminal (qw_store W) run_id (qi_id i) (queue_item_semantic_iteration i) target))"

definition start_web_queue_item ::
  "string \<Rightarrow> queue_item_row \<Rightarrow> int \<Rightarrow> queue_worker_lease option \<Rightarrow> queue_item_outcome thread" where
  "start_web_queue_item run_id i attempts lease =
     and_then (act (\<lambda>W. launch_queue_agent W run_id i attempts)) (\<lambda>launched. case launched of
       Inl r \<Rightarrow> finish r
     | Inr agent_id \<Rightarrow>
         and_then (wait_for_agent_terminal_target agent_id) (\<lambda>target. case target of
           None \<Rightarrow> act (\<lambda>W. retry_after_queue_agent_launch_failure W agent_id ''agent terminal did not appear'')
         | Some t \<Rightarrow>
             and_then (act (\<lambda>W. agent_terminal_appeared W run_id i attempts agent_id t)) (\<lambda>_.
               wait_for_queue_item_closeout run_id i agent_id attempts lease)))"

section \<open>Starting an agent on the remote host\<close>

definition remote_agent_existing_session_prompt_file_refusal :: "string \<Rightarrow> bool" where
  "remote_agent_existing_session_prompt_file_refusal message =
     str_contains ''remote-agent: refusing to reuse existing session with --prompt-file'' message"

definition remote_native_terminal_target :: "string \<Rightarrow> string" where
  "remote_native_terminal_target agent_id = ''remote-tmux:'' @ agent_id @ '':0.0''"

text \<open>A write that another terminal status of the item overtakes.\<close>

definition unless_terminal ::
  "queue_world \<Rightarrow> string \<Rightarrow> queue_item_row \<Rightarrow> queue_item_status \<Rightarrow> string \<Rightarrow> int \<Rightarrow>
   (qdb, queue_item_outcome option) prog \<Rightarrow> (qdb, queue_item_outcome option) prog" where
  "unless_terminal W run_id i status message attempts k =
     bnd (update_queue_item_unless_terminal W run_id (qi_id i) status message (Some (queue_agent_id i)) attempts None)
       (\<lambda>outcome. case outcome of Some r \<Rightarrow> ret (Some r) | None \<Rightarrow> k)"

definition open_remote_native_agent ::
  "queue_world \<Rightarrow> string \<Rightarrow> queue_item_row \<Rightarrow> int \<Rightarrow> string \<Rightarrow> string \<Rightarrow> (qdb, queue_item_outcome option) prog" where
  "open_remote_native_agent W run_id i attempts repo_root prompt_file =
     unless_terminal W run_id i ItemStarting ''opening remote-native agent with prompt file'' attempts
       (bnd (run_remote_agent_contract W i repo_root ''open'' (remote_native_queue_session (queue_agent_id i))
               (Some (qi_slug i)) (Some prompt_file)) (\<lambda>opened. case opened of
          Some e \<Rightarrow>
            if remote_agent_existing_session_prompt_file_refusal e then ret None else ret (Some (OutFailed e True))
        | None \<Rightarrow> ret None))"

text \<open>The item may have another proxy afterwards.\<close>

definition launch_remote_native_agent ::
  "queue_world \<Rightarrow> string \<Rightarrow> queue_item_row \<Rightarrow> int \<Rightarrow> (qdb, queue_item_outcome option \<times> queue_item_row) prog" where
  "launch_remote_native_agent W run_id item attempts =
     bnd (try_result (queue_item_repo_root W item)) (\<lambda>repo_root.
     seq (ensure_queue_item_slug_available W item)
       (seq (ensure_queue_task_record_scope_available W item)
         (seq (if nonblank (qi_remote_launcher item) = None
               then throw (Bail ''remote-native queue item requires remote_launcher or selected_remote_launcher'')
               else ret ())
           (bnd (reserve_remote_native_proxy W item) (\<lambda>(i, rotated).
             bnd (unless_terminal W run_id i ItemStarting
                    (case rotated of None \<Rightarrow> ''checking remote-agent prerequisites''
                     | Some proxy \<Rightarrow> ''checking remote-agent prerequisites via '' @ proxy) attempts
               (bnd (run_remote_agent_contract W i repo_root ''doctor''
                       (remote_native_queue_session (queue_agent_id i)) None None) (\<lambda>doctor. case doctor of
                  Some e \<Rightarrow> ret (Some (OutFailed e True))
                | None \<Rightarrow>
                    bnd (write_remote_native_task_packet_file W i) (\<lambda>written. case written of
                      Inl e \<Rightarrow> ret (Some (OutFailed e True))
                    | Inr prompt_file \<Rightarrow>
                        bnd (open_remote_native_agent W run_id i attempts repo_root prompt_file) (\<lambda>opened.
                          case opened of
                            Some r \<Rightarrow> ret (Some r)
                          | None \<Rightarrow>
                              unless_terminal W run_id i ItemRunning
                                (queue_display_label i @ '' ('' @ queue_agent_id i @ '')'') attempts
                                (seq (set_web_queue_item_attempt_terminal (qw_store W) run_id (qi_id i)
                                        (queue_item_semantic_iteration i)
                                        (remote_native_terminal_target (queue_agent_id i)))
                                  (ret None)))))))
               (\<lambda>outcome. ret (outcome, i)))))))"

definition start_remote_native_queue_item ::
  "string \<Rightarrow> queue_item_row \<Rightarrow> int \<Rightarrow> queue_worker_lease option \<Rightarrow> (queue_item_outcome \<times> queue_item_row) thread" where
  "start_remote_native_queue_item run_id item attempts lease =
     and_then (act (\<lambda>W. launch_remote_native_agent W run_id item attempts)) (\<lambda>(outcome, i). case outcome of
       Some r \<Rightarrow> finish (r, i)
     | None \<Rightarrow>
         (let agent_id = queue_agent_id i
          in and_then (wait_for_queue_item_closeout run_id (remote_native_running_wait_item i agent_id) agent_id
                 attempts lease) (\<lambda>r. finish (r, i))))"

section \<open>Retries of a launch\<close>

text \<open>What a launch attempt leads to: the end of the thread or another attempt.\<close>

datatype launch_decision = LaunchEnds queue_item_outcome | LaunchAgain queue_item_row int

definition retry_count_text :: "int \<Rightarrow> string" where
  "retry_count_text retries = ''; retry '' @ show_int retries @ ''/'' @ show_nat (length web_queue_retry_delays)"

definition retry_launch_now ::
  "queue_world \<Rightarrow> string \<Rightarrow> queue_item_row \<Rightarrow> int \<Rightarrow> string \<Rightarrow> (qdb, launch_decision) prog" where
  "retry_launch_now W run_id i retries message =
     seq (update_web_queue_item (qw_store W) run_id (qi_id i) ItemWaiting
            (message @ retry_count_text (retries + 1) @ '' now'') (queue_launch_failure_agent_id i) (retries + 1) None)
       (ret (LaunchAgain i (retries + 1)))"

text \<open>The delay, and the item with the proxy it may have been given.\<close>

definition schedule_launch_retry ::
  "queue_world \<Rightarrow> string \<Rightarrow> queue_item_row \<Rightarrow> int \<Rightarrow> string \<Rightarrow> (qdb, nat \<times> queue_item_row) prog" where
  "schedule_launch_retry W run_id item retries message =
     bnd (cleanup_remote_native_port_forward_failure W item message) (\<lambda>cleanup.
     bnd (maybe_rotate_remote_native_proxy_after_failure W item message) (\<lambda>(i, proxy).
       let delay = web_queue_retry_delays ! retry_index retries;
           text = message @
             (case proxy of None \<Rightarrow> [] | Some p \<Rightarrow> ''; switched remote proxy to '' @ p) @
             (case cleanup of None \<Rightarrow> [] | Some c \<Rightarrow> ''; '' @ c)
       in seq (update_web_queue_item (qw_store W) run_id (qi_id i) ItemWaiting
                 (text @ retry_count_text (retries + 1) @ '' in '' @ show_nat delay @ ''s'')
                 (queue_launch_failure_agent_id i) (retries + 1) (Some (sat_add_u64 (qw_now W) delay)))
            (ret (delay, i))))"

definition handle_queue_launch_outcome ::
  "string \<Rightarrow> queue_item_row \<Rightarrow> int \<Rightarrow> queue_item_outcome \<Rightarrow> launch_decision thread" where
  "handle_queue_launch_outcome run_id i retries outcome =
     (case outcome of
        OutFailed message True \<Rightarrow>
          if retry_index retries < length web_queue_retry_delays then
            (if queue_failure_retries_immediately message
             then act (\<lambda>W. retry_launch_now W run_id i retries message)
             else and_then (act (\<lambda>W. schedule_launch_retry W run_id i retries message)) (\<lambda>(delay, j).
               and_then (sleep_queue_retry run_id (qi_id j) delay) (\<lambda>go_on.
                 finish (if go_on then LaunchAgain j (retries + 1) else LaunchEnds OutStopped))))
          else act (\<lambda>W. seq (update_web_queue_item (qw_store W) run_id (qi_id i) ItemFailed message
                               (queue_launch_failure_agent_id i) retries None)
                          (ret (LaunchEnds (OutFailed message False))))
      | _ \<Rightarrow> finish (LaunchEnds outcome))"

section \<open>The command of a local item\<close>

text \<open>An item may be launched, has to wait, or names a command that does not exist.\<close>

datatype command_choice = CommandReady queue_item_row | CommandWaits queue_item_row nat | CommandUnknown queue_item_outcome

definition wait_for_agent ::
  "queue_world \<Rightarrow> string \<Rightarrow> queue_item_row \<Rightarrow> int \<Rightarrow> string \<Rightarrow> nat \<Rightarrow> (qdb, command_choice) prog" where
  "wait_for_agent W run_id i retries message until =
     seq (update_web_queue_item (qw_store W) run_id (qi_id i) ItemWaiting message None retries (Some until))
       (ret (CommandWaits i (max (sat_sub_u64 until (qw_now W)) 1)))"

definition choose_queue_agent_command ::
  "queue_world \<Rightarrow> string \<Rightarrow> queue_item_row \<Rightarrow> int \<Rightarrow> (qdb, command_choice) prog" where
  "choose_queue_agent_command W run_id item retries =
     (if queue_agent_selector_command (qi_agent_command item) then
        (case select_queue_agent_for_launch W of
           Selected command record \<Rightarrow>
             (let i = item\<lparr>qi_agent_command := command\<rparr> in
              seq (if qi_agent_command item \<noteq> command
                   then set_web_queue_item_agent_command (qw_store W) run_id (qi_id item) command else ret ())
                (if al_state record \<noteq> ''ok'' then
                   wait_for_agent W run_id i retries
                     (al_command record @ '' is '' @ al_state record @ '': '' @ al_summary record) (al_expires_at record)
                 else ret (CommandReady i)))
         | SelectionWaiting message next_retry_at \<Rightarrow> wait_for_agent W run_id item retries message next_retry_at)
      else if qi_agent_command item \<notin> set (lv_commands (qw_launch W)) then
        bnd (fail_start W run_id item None retries (''unknown queue agent command: '' @ qi_agent_command item))
          (\<lambda>r. ret (CommandUnknown r))
      else ret (CommandReady item))"

section \<open>The launch loop\<close>

definition announce_start :: "queue_world \<Rightarrow> string \<Rightarrow> queue_item_row \<Rightarrow> int \<Rightarrow> string \<Rightarrow> (qdb, unit) prog" where
  "announce_start W run_id i retries message =
     update_web_queue_item (qw_store W) run_id (qi_id i) ItemStarting message None retries None"

text \<open>One round: an attempt to launch, or a wait for an agent that may be used.\<close>

definition launch_round ::
  "string \<Rightarrow> queue_item_row \<Rightarrow> int \<Rightarrow> queue_worker_lease option \<Rightarrow> launch_decision thread" where
  "launch_round run_id item retries lease =
     and_then (act (\<lambda>W. query (web_queue_stop_requested run_id))) (\<lambda>stop.
       if stop then
         and_then (act (\<lambda>W. pause_web_queue_item W run_id item None retries)) (\<lambda>_. finish (LaunchEnds OutStopped))
       else
         and_then (act (\<lambda>W. heartbeat_queue_item_worker_lease W lease)) (\<lambda>_.
           if queue_item_remote_native item then
             and_then (act (\<lambda>W. announce_start W run_id item retries ''starting remote-native agent context'')) (\<lambda>_.
             and_then (start_remote_native_queue_item run_id item retries lease) (\<lambda>(outcome, i).
               handle_queue_launch_outcome run_id i retries outcome))
           else
             and_then (act (\<lambda>W. choose_queue_agent_command W run_id item retries)) (\<lambda>choice. case choice of
               CommandUnknown r \<Rightarrow> finish (LaunchEnds r)
             | CommandWaits i delay \<Rightarrow>
                 and_then (sleep_queue_retry run_id (qi_id i) delay) (\<lambda>go_on.
                   if go_on then finish (LaunchAgain i retries)
                   else and_then (act (\<lambda>W. pause_web_queue_item W run_id i None retries))
                          (\<lambda>_. finish (LaunchEnds OutStopped)))
             | CommandReady i \<Rightarrow>
                 and_then (act (\<lambda>W. announce_start W run_id i retries ''starting clean agent context'')) (\<lambda>_.
                 and_then (start_web_queue_item run_id i retries lease) (\<lambda>outcome.
                   handle_queue_launch_outcome run_id i retries outcome)))))"

primrec launch_loop ::
  "nat \<Rightarrow> string \<Rightarrow> queue_item_row \<Rightarrow> int \<Rightarrow> queue_worker_lease option \<Rightarrow> queue_item_outcome thread" where
  "launch_loop 0 run_id i retries lease = still_at_work"
| "launch_loop (Suc n) run_id i retries lease =
     and_then (launch_round run_id i retries lease) (\<lambda>decision. case decision of
       LaunchEnds r \<Rightarrow> finish r
     | LaunchAgain j retries' \<Rightarrow> launch_loop n run_id j retries' lease)"

text \<open>
  A round that ends with another one has slept or counted a retry, of which there are three; so this
  many rounds are enough.
\<close>

definition launch_fuel :: "clock \<Rightarrow> nat" where
  "launch_fuel c = sleeps_left c + length web_queue_retry_delays + 1"

definition launch_queue_item :: "string \<Rightarrow> queue_item_row \<Rightarrow> queue_worker_lease option \<Rightarrow> queue_item_outcome thread" where
  "launch_queue_item run_id i lease = (\<lambda>(c, db).
     launch_loop (launch_fuel c) run_id i (max (qi_attempts i) 0) lease (c, db))"

section \<open>The thread\<close>

definition run_web_queue_item_with_lease ::
  "string \<Rightarrow> queue_item_row \<Rightarrow> queue_worker_lease option \<Rightarrow> queue_item_outcome thread" where
  "run_web_queue_item_with_lease run_id item lease =
     and_then (act (\<lambda>W. queue_item_preflight W run_id item)) (\<lambda>(outcome, i). case outcome of
       Some r \<Rightarrow> finish r
     | None \<Rightarrow>
         and_then (act (\<lambda>W. queue_item_resume W run_id i)) (\<lambda>resumption. case resumption of
           ResumeEnds r \<Rightarrow> finish r
         | ResumeWaits j agent_id \<Rightarrow> wait_for_queue_item_closeout run_id j agent_id (qi_attempts i) lease
         | ResumeLaunches \<Rightarrow> launch_queue_item run_id i lease))"

definition item_worker_failure :: "qerror \<Rightarrow> string" where
  "item_worker_failure e = (case e of Panic p \<Rightarrow> ''queue item worker panicked: '' @ p | _ \<Rightarrow> error_text e)"

definition give_back_lease :: "queue_worker_lease \<Rightarrow> unit thread" where
  "give_back_lease lease =
     and_then (act (\<lambda>W. caught (release_web_queue_item_worker_lease (qw_now W) lease))) (\<lambda>_. finish ())"

definition record_worker_failure :: "string \<Rightarrow> queue_item_row \<Rightarrow> qerror \<Rightarrow> unit thread" where
  "record_worker_failure run_id item e =
     and_then (act (\<lambda>W. caught (update_web_queue_item (qw_store W) run_id (qi_id item) ItemFailed
       (item_worker_failure e) (qi_agent_id item) (qi_attempts item) None))) (\<lambda>_. finish ())"

text \<open>The thread: an error or a panic fails the item, and the lease is given back in any case.\<close>

definition queue_item_worker_thread :: "string \<Rightarrow> queue_item_row \<Rightarrow> queue_worker_lease \<Rightarrow> unit thread" where
  "queue_item_worker_thread run_id item lease = (\<lambda>s.
     case run_web_queue_item_with_lease run_id item (Some lease) s of
       (Inr None, s') \<Rightarrow> (Inr None, s')
     | (Inr (Some outcome), s') \<Rightarrow> give_back_lease lease s'
     | (Inl e, s') \<Rightarrow> and_then (record_worker_failure run_id item e) (\<lambda>_. give_back_lease lease) s')"

section \<open>What a thread keeps\<close>

text \<open>The clock: every world and all that others write keep the invariant.\<close>

definition starts_keep :: "(qdb \<Rightarrow> bool) \<Rightarrow> queue_world \<Rightarrow> bool" where
  "starts_keep I W = (\<forall>a cwd track cmd db. I db \<longrightarrow> I (snd (lv_start_agent (qw_launch W) a cwd track cmd db)))"

definition item_world_keeps :: "(qdb \<Rightarrow> bool) \<Rightarrow> queue_world \<Rightarrow> bool" where
  "item_world_keeps I W = (world_keeps I W \<and> starts_keep I W)"

fun clock_keeps :: "(qdb \<Rightarrow> bool) \<Rightarrow> clock \<Rightarrow> bool" where
  "clock_keeps I (W, ts) =
     (item_world_keeps I W \<and> (\<forall>(W', others) \<in> set ts. item_world_keeps I W' \<and> (\<forall>db. I db \<longrightarrow> I (others db))))"

fun on_clock :: "(qdb \<Rightarrow> bool) \<Rightarrow> clock \<times> qdb \<Rightarrow> bool" where
  "on_clock I (c, db) = (clock_keeps I c \<and> I db)"

lemma keeps_finished [keeps_intro]: "keeps T (finish x)"
  by (simp add: finish_def keeps_ret)

lemma keeps_still [keeps_intro]: "keeps T still_at_work"
  by (simp add: still_at_work_def keeps_ret)

lemma keeps_and_then [keeps_intro]: "keeps T t \<Longrightarrow> (\<And>x. keeps T (k x)) \<Longrightarrow> keeps T (and_then t k)"
  unfolding and_then_def by (intro keeps_intro)

lemma keeps_nap [keeps_intro]: "keeps (on_clock I) nap"
proof -
  have "on_clock I (snd (nap ((W, ts), db)))" if "on_clock I ((W, ts), db)" for W ts db
    using that by (cases ts) (auto simp: nap_def split: prod.split)
  then show ?thesis by (auto simp: keeps_def)
qed

lemma keeps_act: "(\<And>W. item_world_keeps I W \<Longrightarrow> keeps I (m W)) \<Longrightarrow> keeps (on_clock I) (act m)"
  by (auto simp: keeps_def act_def split: prod.splits sum.splits) (metis snd_conv)+

lemma keeps_act_plain [keeps_intro]: "(\<And>W. keeps I (m W)) \<Longrightarrow> keeps (on_clock I) (act m)"
  by (rule keeps_act)

lemma keeps_case_bool [keeps_intro]: "keeps I m \<Longrightarrow> keeps I n \<Longrightarrow> keeps I (case b of True \<Rightarrow> m | False \<Rightarrow> n)"
  by (cases b) auto

lemma keeps_case_selection [keeps_intro]:
  "(\<And>c r. keeps I (f c r)) \<Longrightarrow> (\<And>m t. keeps I (g m t)) \<Longrightarrow>
   keeps I (case y of Selected c r \<Rightarrow> f c r | SelectionWaiting m t \<Rightarrow> g m t)"
  by (cases y) auto

lemma keeps_case_resumption [keeps_intro]:
  "(\<And>r. keeps I (f r)) \<Longrightarrow> (\<And>j a. keeps I (g j a)) \<Longrightarrow> keeps I h \<Longrightarrow>
   keeps I (case y of ResumeEnds r \<Rightarrow> f r | ResumeWaits j a \<Rightarrow> g j a | ResumeLaunches \<Rightarrow> h)"
  by (cases y) auto

lemma keeps_case_command [keeps_intro]:
  "(\<And>i. keeps I (f i)) \<Longrightarrow> (\<And>i d. keeps I (g i d)) \<Longrightarrow> (\<And>r. keeps I (h r)) \<Longrightarrow>
   keeps I (case y of CommandReady i \<Rightarrow> f i | CommandWaits i d \<Rightarrow> g i d | CommandUnknown r \<Rightarrow> h r)"
  by (cases y) auto

lemma keeps_case_decision [keeps_intro]:
  "(\<And>r. keeps I (f r)) \<Longrightarrow> (\<And>i n. keeps I (g i n)) \<Longrightarrow>
   keeps I (case y of LaunchEnds r \<Rightarrow> f r | LaunchAgain i n \<Rightarrow> g i n)"
  by (cases y) auto

lemma keeps_case_outcome [keeps_intro]:
  "keeps I a \<Longrightarrow> keeps I b \<Longrightarrow> keeps I c \<Longrightarrow> (\<And>m n. keeps I (f m n)) \<Longrightarrow>
   keeps I (case y of OutSuccess \<Rightarrow> a | OutStopped \<Rightarrow> b | OutRecoveryScheduled \<Rightarrow> c | OutFailed m n \<Rightarrow> f m n)"
  by (cases y) auto

lemma keeps_case_lease_state [keeps_intro]:
  "keeps I a \<Longrightarrow> (\<And>s. keeps I (b s)) \<Longrightarrow> (\<And>n. keeps I (c n)) \<Longrightarrow> (\<And>e. keeps I (d e)) \<Longrightarrow>
   (\<And>w e n. keeps I (f w e n)) \<Longrightarrow> (\<And>w e n. keeps I (g w e n)) \<Longrightarrow>
   keeps I (case y of StateMissing \<Rightarrow> a | StateTerminal s \<Rightarrow> b s | StateRetryable n \<Rightarrow> c n | StateUnowned e \<Rightarrow> d e
     | StateActive w e n \<Rightarrow> f w e n | StateStale w e n \<Rightarrow> g w e n)"
  by (cases y) auto

lemma keeps_sleep [keeps_intro]: "keeps (on_clock I) (sleep_queue_retry r a n)"
proof (induction r a n rule: sleep_queue_retry.induct)
  case (1 r a n)
  show ?case
  proof (cases "n = 0")
    case False
    then show ?thesis
      by (subst sleep_queue_retry.simps, simp only: if_False) (intro keeps_intro "1.IH"; assumption)
  qed (simp add: sleep_queue_retry.simps keeps_finished)
qed

lemma keeps_await [keeps_intro]: "keeps (on_clock I) (await_terminal_target n a)"
  by (induction n) (auto intro!: keeps_intro)

locale item_worker_invariant = loop_invariant +
  assumes beats: "keeps I (heartbeat_web_queue_item_worker_lease_at lease now ttl)"
    and remembers: "keeps I (upsert_task_record tk)"
begin

lemma keeps_heartbeat [keeps_intro]: "keeps I (heartbeat_queue_item_worker_lease W lease)"
  unfolding heartbeat_queue_item_worker_lease_def by (intro keeps_intro beats)

lemma keeps_give_up [keeps_intro]:
  "keeps I (fail_or_schedule_queue_item_recovery W r i m agent n)"
  "keeps I (missing_queue_task_record_outcome W r i a n)"
  "keeps I (mark_queue_item_paused W r i agent n st)"
  "keeps I (fail_queue_item_from_task_status W r i agent n st)"
  "keeps I (fail_start W r i agent n st)"
  "keeps I (pause_web_queue_item W r i agent n)"
  unfolding fail_or_schedule_queue_item_recovery_def missing_queue_task_record_outcome_def
    update_remote_native_missing_record_wait_def update_queue_item_unless_terminal_def
    fail_remote_native_missing_task_record_def mark_queue_item_paused_def fail_queue_item_from_task_status_def
    fail_start_def pause_web_queue_item_def
  by (intro keeps_intro)+

lemma keeps_preflight: "sync_keeps I W \<Longrightarrow> keeps I (queue_item_preflight W r i)"
  unfolding queue_item_preflight_def queue_item_preflight_outcome_from_reduction_def Let_def
  by (intro keeps_intro keeps_evidence)

lemma keeps_item_resume [keeps_intro]: "keeps I (queue_item_resume W r i)"
  unfolding queue_item_resume_def resume_running_item_def resume_stopped_item_def Let_def by (intro keeps_intro)

lemma keeps_closeout_check: "world_keeps I W \<Longrightarrow> keeps I (queue_item_closeout_check W r i a n)"
  unfolding queue_item_closeout_check_def queue_item_closeout_outcome_from_reduction_def Let_def
  by (intro keeps_intro keeps_evidence world_keeps_sync world_keeps_sessions)

lemma keeps_closeout_rounds [keeps_intro]: "keeps (on_clock I) (closeout_rounds k r i a n lease)"
  by (induction k)
     (auto simp: item_world_keeps_def intro!: keeps_intro keeps_act [OF keeps_closeout_check])

lemma keeps_wait [keeps_intro]: "keeps (on_clock I) (wait_for_queue_item_closeout r i a n lease)"
  using keeps_closeout_rounds unfolding wait_for_queue_item_closeout_def keeps_def
  by (auto simp del: closeout_rounds.simps)

lemma keeps_columns [keeps_intro]:
  "keeps I (set_web_queue_item_agent_command E r a c)"
  "keeps I (set_web_queue_item_remote_proxy E r a p)"
  "keeps I (set_web_queue_item_attempt_terminal E r a n t)"
  unfolding set_web_queue_item_agent_command_def set_web_queue_item_remote_proxy_def
    set_web_queue_item_attempt_terminal_def update_attempts_def
  by (intro keeps_intro keeps_items keeps_sql attempts; simp add: item_keys_def)+

lemma keeps_proxies [keeps_intro]:
  "keeps I (reserve_remote_native_proxy W i)"
  "keeps I (maybe_rotate_remote_native_proxy_after_failure W i m)"
  "keeps I (cleanup_remote_native_port_forward_failure W i m)"
  unfolding reserve_remote_native_proxy_def maybe_rotate_remote_native_proxy_after_failure_def
    rotate_remote_native_proxy_def cleanup_remote_native_port_forward_failure_def Let_def
  by (intro keeps_intro)+

lemma keeps_workspace [keeps_intro]:
  "keeps I (ensure_queue_item_slug_available W i)"
  "keeps I (ensure_queue_task_record_scope_available W i)"
  "keeps I (queue_launch_workspace W i)"
  unfolding queue_launch_workspace_def ensure_queue_item_slug_available_def
    ensure_queue_task_record_scope_available_def existing_remote_queue_task_def existing_queue_task_worktree_def
  by (intro keeps_intro)+

lemma keeps_stale_cleanup [keeps_intro]: "keeps I (cleanup_stale_queue_agent_launch_artifacts W i cwd)"
  unfolding cleanup_stale_queue_agent_launch_artifacts_def try_result_def remove_clean_queue_agent_worktree_def
    require_process_def Let_def
  by (intro keeps_intro keeps_case_process)

lemma keeps_launch_agent:
  assumes "starts_keep I W"
  shows "keeps I (launch_queue_agent W r i n)"
proof -
  have start: "keeps I (\<lambda>db. case lv_start_agent (qw_launch W) a cwd track cmd db of (x, db') \<Rightarrow> (Inr x, db'))"
    for a cwd track cmd
    using assms by (auto simp: keeps_def starts_keep_def split: prod.split) (metis snd_conv)
  show ?thesis
    unfolding launch_queue_agent_def write_queue_task_packet_file_def remember_queue_task_agent_def Let_def
    by (intro keeps_intro start remembers)
qed

lemma keeps_start [keeps_intro]: "keeps (on_clock I) (start_web_queue_item r i n lease)"
  unfolding start_web_queue_item_def wait_for_agent_terminal_target_def retry_after_queue_agent_launch_failure_def
    agent_terminal_appeared_def set_queue_terminal_scope_def cleanup_queue_agent_def Let_def
  by (intro keeps_intro keeps_act [OF keeps_launch_agent]) (simp add: item_world_keeps_def)

lemma keeps_remote_start [keeps_intro]: "keeps (on_clock I) (start_remote_native_queue_item r i n lease)"
  unfolding start_remote_native_queue_item_def launch_remote_native_agent_def unless_terminal_def
    open_remote_native_agent_def write_remote_native_task_packet_file_def try_result_def
    update_queue_item_unless_terminal_def run_remote_agent_contract_def Let_def
  by (intro keeps_intro keeps_case_process)

lemma keeps_launch_outcome [keeps_intro]: "keeps (on_clock I) (handle_queue_launch_outcome r i n out)"
  unfolding handle_queue_launch_outcome_def retry_launch_now_def schedule_launch_retry_def Let_def
  by (intro keeps_intro)

lemma keeps_launch_round [keeps_intro]: "keeps (on_clock I) (launch_round r i n lease)"
  unfolding launch_round_def announce_start_def choose_queue_agent_command_def wait_for_agent_def Let_def
  by (intro keeps_intro)

lemma keeps_launch_loop [keeps_intro]: "keeps (on_clock I) (launch_loop k r i n lease)"
  by (induction k arbitrary: i n) (auto intro!: keeps_intro)

lemma keeps_launch_item [keeps_intro]: "keeps (on_clock I) (launch_queue_item r i lease)"
  using keeps_launch_loop unfolding launch_queue_item_def keeps_def by (auto simp del: launch_loop.simps)

lemma keeps_run_item [keeps_intro]: "keeps (on_clock I) (run_web_queue_item_with_lease r i lease)"
  unfolding run_web_queue_item_with_lease_def
  by (intro keeps_intro keeps_act [OF keeps_preflight]) (simp add: item_world_keeps_def world_keeps_def)

lemma keeps_give_back [keeps_intro]: "keeps (on_clock I) (give_back_lease lease)"
  unfolding give_back_lease_def by (intro keeps_intro releases)

lemma keeps_item_thread: "keeps (on_clock I) (queue_item_worker_thread r i lease)"
proof -
  have failure: "keeps (on_clock I) (and_then (record_worker_failure r i e) (\<lambda>_. give_back_lease lease))" for e
    unfolding record_worker_failure_def by (intro keeps_intro)
  show ?thesis
    unfolding keeps_def
  proof (intro allI impI)
    fix s assume s: "on_clock I s"
    obtain y s' where run: "run_web_queue_item_with_lease r i (Some lease) s = (y, s')"
      by (cases "run_web_queue_item_with_lease r i (Some lease) s")
    have s': "on_clock I s'" by (rule keepsD [OF keeps_run_item s run])
    have "on_clock I (snd (give_back_lease lease s'))"
        "on_clock I (snd (and_then (record_worker_failure r i e) (\<lambda>_. give_back_lease lease) s'))" for e
      using s' keeps_give_back [of lease] failure [of e] unfolding keeps_def by blast+
    with s' show "on_clock I (snd (queue_item_worker_thread r i lease s))"
      by (auto simp: queue_item_worker_thread_def run split: sum.split option.split)
  qed
qed

end

text \<open>Storing a task record writes task rows and number counters.\<close>

lemma keeps_upsert:
  assumes "\<And>db ts. I db \<Longrightarrow> schema_ok (db\<lparr>db_tasks := ts\<rparr>) \<Longrightarrow> I (db\<lparr>db_tasks := ts\<rparr>)"
    and "\<And>db cs. I db \<Longrightarrow> schema_ok (db\<lparr>db_counters := cs\<rparr>) \<Longrightarrow> I (db\<lparr>db_counters := cs\<rparr>)"
    and "\<And>db. I db \<Longrightarrow> schema_ok db"
  shows "keeps I (upsert_task_record tk)"
proof -
  have counter: "I (set_counter repo n db)" "I (init_counter repo n db)" "I (raise_counter repo n db)"
    if "I db" for repo n db
  proof -
    have set: "I (set_counter repo n db)" for repo n
      using assms(2) [OF that] schema_ok_set_counter [OF assms(3) [OF that]] by (simp add: set_counter_def)
    then show "I (set_counter repo n db)" "I (init_counter repo n db)" "I (raise_counter repo n db)"
      using that by (simp_all add: init_counter_def raise_counter_def)
  qed
  have store: "keeps I (store_task t)" for t
    unfolding store_task_def by (intro keeps_intro keeps_sql assms(1))
  have "keeps I (advance_task_sequence_counter_for_record repo n)" for repo n
    unfolding advance_task_sequence_counter_for_record_def advance_task_sequence_counter_def
    by (intro keeps_intro keeps_modify counter)
  moreover have "keeps I (task_record_sequence_for_upsert t existing repo changed)" for t existing repo changed
    unfolding task_record_sequence_for_upsert_def allocate_task_sequence_def take_number_def Let_def
    by (intro keeps_intro keeps_modify counter)
  ultimately show ?thesis
    unfolding upsert_task_record_def Let_def by (intro keeps_intro store)
qed

lemma keeps_heartbeat_at:
  assumes "\<And>db ls. I db \<Longrightarrow> schema_ok (db\<lparr>db_leases := ls\<rparr>) \<Longrightarrow> I (db\<lparr>db_leases := ls\<rparr>)"
  shows "keeps I (heartbeat_web_queue_item_worker_lease_at lease now ttl)"
proof -
  have "keeps I (bnd (update_leases ctx p f) (\<lambda>n. ret (0 < n)))" for ctx p f
    unfolding update_leases_def by (intro keeps_intro keeps_sql assms)
  then show ?thesis by (simp add: keeps_def heartbeat_web_queue_item_worker_lease_at_def)
qed


interpretation item_schema: item_worker_invariant schema_ok
  by unfold_locales (intro keeps_heartbeat_at keeps_upsert; simp)+

interpretation item_tabs: item_worker_invariant tabs_inv
  by unfold_locales (intro keeps_heartbeat_at keeps_upsert; (erule tabs_inv_schema | erule tabs_inv_other; simp))+

lemma lease_inv_heartbeat: "keeps lease_inv (heartbeat_web_queue_item_worker_lease_at lease now ttl)"
  by (rule keepsI) (simp add: run_heartbeat lease_inv_schema lease_inv_update lease_keys_def)

interpretation item_leases: item_worker_invariant lease_inv
  by unfold_locales
     (rule lease_inv_heartbeat | intro keeps_upsert; (erule lease_inv_schema | erule lease_inv_other; simp))+

end
