(* ===== verification/Item_Worker_End.thy ===== *)
theory Item_Worker_End
  imports Queue_Item_Worker
begin

text \<open>
  How the thread of an item ends. Whatever it writes, it uses its clock up sleep by sleep; every
  program that ends it leaves its item at rest, neither starting nor running; the rounds of the
  launch loop are bounded by the retries and the sleeps. Together: the thread comes to an end, gives
  its lease back and leaves no item that looks executed but is not.
\<close>

section \<open>What a thread does to its clock\<close>

text \<open>A property of the clock that sleeping keeps is kept by every thread, whatever it writes.\<close>

locale clock_property =
  fixes C :: "clock \<Rightarrow> bool"
  assumes ticks: "C (W, (W', others) # ts) \<Longrightarrow> C (W', ts)"
begin

abbreviation C_holds :: "clock \<times> qdb \<Rightarrow> bool" where
  "C_holds \<equiv> \<lambda>s. C (fst s)"

lemma timed_nap: "keeps C_holds nap"
proof -
  have "C (fst (snd (nap ((W, ts), db))))" if "C (W, ts)" for W ts db
    using that ticks by (cases ts) (auto simp: nap_def split: prod.split)
  then show ?thesis by (auto simp: keeps_def)
qed

lemma timed_act: "keeps C_holds (act m)"
  by (auto simp: keeps_def act_def split: prod.split sum.split)

lemma timed_sleep: "keeps C_holds (sleep_queue_retry r a n)"
proof (induction r a n rule: sleep_queue_retry.induct)
  case (1 r a n)
  show ?case
  proof (cases "n = 0")
    case False
    then show ?thesis
      by (subst sleep_queue_retry.simps, simp only: if_False) (intro keeps_intro timed_nap timed_act "1.IH"; assumption)
  qed (simp add: sleep_queue_retry.simps keeps_finished)
qed

lemma timed_await: "keeps C_holds (await_terminal_target n a)"
  by (induction n) (auto intro!: keeps_intro timed_nap timed_act)

lemma timed_rounds: "keeps C_holds (closeout_rounds k r i a n lease)"
  by (induction k) (auto intro!: keeps_intro timed_nap timed_act)

lemma timed_wait: "keeps C_holds (wait_for_queue_item_closeout r i a n lease)"
  using timed_rounds unfolding wait_for_queue_item_closeout_def keeps_def by (auto simp del: closeout_rounds.simps)

lemma timed_start: "keeps C_holds (start_web_queue_item r i n lease)"
  unfolding start_web_queue_item_def wait_for_agent_terminal_target_def
  by (intro keeps_intro timed_act timed_await timed_wait)

lemma timed_remote_start: "keeps C_holds (start_remote_native_queue_item r i n lease)"
  unfolding start_remote_native_queue_item_def Let_def by (intro keeps_intro timed_act timed_wait)

lemma timed_outcome: "keeps C_holds (handle_queue_launch_outcome r i n out)"
  unfolding handle_queue_launch_outcome_def by (intro keeps_intro timed_act timed_sleep)

lemma timed_round: "keeps C_holds (launch_round r i n lease)"
  unfolding launch_round_def
  by (intro keeps_intro timed_act timed_sleep timed_start timed_remote_start timed_outcome)

lemma timed_loop: "keeps C_holds (launch_loop k r i n lease)"
  by (induction k arbitrary: i n) (auto intro!: keeps_intro timed_round)

lemma timed_run: "keeps C_holds (run_web_queue_item_with_lease r i lease)"
proof -
  have "keeps C_holds (launch_queue_item r i lease)" for i
    using timed_loop unfolding launch_queue_item_def keeps_def by (auto simp del: launch_loop.simps)
  then show ?thesis
    unfolding run_web_queue_item_with_lease_def by (intro keeps_intro timed_act timed_wait)
qed

end

interpretation clock_worlds: clock_property "clock_keeps I" for I
  by unfold_locales simp

interpretation clock_time: clock_property "\<lambda>c. sleeps_left c \<le> k" for k
  by unfold_locales (simp add: sleeps_left_def)

section \<open>The item at rest\<close>

text \<open>No one executes the item: its row is gone, or neither starting nor running.\<close>

definition item_at_rest :: "string \<Rightarrow> string \<Rightarrow> qdb \<Rightarrow> bool" where
  "item_at_rest r a db =
     (schema_ok db \<and> (case find_item r a db of None \<Rightarrow> True | Some i \<Rightarrow> \<not> item_is_starting_or_running (qi_status i)))"

text \<open>
  From a state with \<open>I\<close> and \<open>P\<close> a program that returns \<open>x\<close> ends in a state with \<open>I\<close> and \<open>Q x\<close>.
\<close>

definition achieves :: "('s \<Rightarrow> bool) \<Rightarrow> ('s \<Rightarrow> bool) \<Rightarrow> ('s, 'a) prog \<Rightarrow> ('a \<Rightarrow> 's \<Rightarrow> bool) \<Rightarrow> bool" where
  "achieves I P m Q \<longleftrightarrow> (\<forall>s x t. I s \<longrightarrow> P s \<longrightarrow> m s = (Inr x, t) \<longrightarrow> I t \<and> Q x t)"

lemma achieves_bnd:
  assumes "achieves I P m M" and "\<And>x. achieves I (M x) (k x) Q"
  shows "achieves I P (bnd m k) Q"
  using assms unfolding achieves_def by (metis bnd_InrE)

lemma achieves_ret: "(\<And>s. I s \<Longrightarrow> P s \<Longrightarrow> Q x s) \<Longrightarrow> achieves I P (ret x) Q"
  by (simp add: achieves_def)

lemma achieves_throw: "achieves I P (throw e) Q"
  by (simp add: achieves_def)

lemma achieves_any: "keeps I m \<Longrightarrow> achieves I P m (\<lambda>_ _. True)"
  unfolding achieves_def by (metis keepsD)

lemma achieves_mono:
  "achieves I P m M \<Longrightarrow> (\<And>s. I s \<Longrightarrow> P' s \<Longrightarrow> P s) \<Longrightarrow> (\<And>x s. I s \<Longrightarrow> M x s \<Longrightarrow> Q x s) \<Longrightarrow> achieves I P' m Q"
  unfolding achieves_def by blast

lemma achieves_keeping: "keeps I m \<Longrightarrow> keeps R m \<Longrightarrow> achieves I R m (\<lambda>_. R)"
  unfolding achieves_def by (metis keepsD)

lemma achieves_if: "(b \<Longrightarrow> achieves I P m Q) \<Longrightarrow> (\<not> b \<Longrightarrow> achieves I P n Q) \<Longrightarrow> achieves I P (if b then m else n) Q"
  by simp

lemma achieves_option:
  "(y = None \<Longrightarrow> achieves I P m Q) \<Longrightarrow> (\<And>x. y = Some x \<Longrightarrow> achieves I P (k x) Q) \<Longrightarrow>
   achieves I P (case y of None \<Rightarrow> m | Some x \<Rightarrow> k x) Q"
  by (cases y) auto

lemma achieves_after:
  assumes "keeps I m" and "\<And>x. achieves I (\<lambda>_. True) (k x) Q"
  shows "achieves I (\<lambda>_. True) (bnd m k) Q"
  by (rule achieves_bnd [OF achieves_any [OF assms(1)] assms(2)])

text \<open>Programs that leave the item at rest, and those that do when they return an outcome.\<close>

abbreviation rests :: "string \<Rightarrow> string \<Rightarrow> (qdb, 'a) prog \<Rightarrow> bool" where
  "rests r a m \<equiv> achieves schema_ok (\<lambda>_. True) m (\<lambda>_. item_at_rest r a)"

abbreviation rests_if_done :: "string \<Rightarrow> string \<Rightarrow> (qdb, 'a option) prog \<Rightarrow> bool" where
  "rests_if_done r a m \<equiv> achieves schema_ok (\<lambda>_. True) m (\<lambda>x db. x \<noteq> None \<longrightarrow> item_at_rest r a db)"

lemma rests_by_touch:
  assumes "\<And>db. schema_ok db \<Longrightarrow> \<exists>db'. m db = (Inr x, db') \<and> touches r a g h db db'"
    and "\<And>i. \<not> item_is_starting_or_running (qi_status (g i))"
  shows "rests r a m"
  unfolding achieves_def
proof (intro allI impI)
  fix db y t assume "schema_ok db" "m db = (Inr y, t)"
  with assms(1) [of db] have "touches r a g h db t" by auto
  with assms(2) show "schema_ok t \<and> item_at_rest r a t"
    by (auto simp: item_at_rest_def touches_def split: option.split)
qed

lemma rests_write:
  fixes W :: queue_world
  assumes "\<not> item_is_starting_or_running (stored_item_status st)"
  shows "rests r a (update_web_queue_item (qw_store W) r a st m agent n nx)"
  by (rule rests_by_touch, rule run_update_item_touches, assumption) (simp add: assms)

lemma rests_reschedule:
  fixes W :: queue_world
  shows "rests r a (schedule_web_queue_item_recovery (qw_store W) r a m f n)"
    and "rests r a (schedule_web_queue_item_relaunch (qw_store W) r a m n' nx)"
    and "rests r a (reset_web_queue_item_for_relaunch (qw_store W) r a m n')"
  by (rule rests_by_touch, rule run_recovery_touches run_relaunch_touches, assumption,
      simp add: item_is_starting_or_running_def)+

text \<open>Marking the run leaves the items alone.\<close>

lemma keeps_rest_mark [keeps_intro]:
  fixes W :: queue_world
  shows "keeps (item_at_rest r a) (update_web_queue_run (qw_store W) r' st p m)"
  unfolding keeps_def
proof (intro allI impI)
  fix db assume I: "item_at_rest r a db"
  then have "schema_ok db" by (simp add: item_at_rest_def)
  from run_mark_run_touches [OF this, of W r' st p m a] obtain db' where
    "update_web_queue_run (qw_store W) r' st p m db = (Inr (), db')" "touches r' a id (mark_run W st p m) db db'"
    by blast
  with I show "item_at_rest r a (snd (update_web_queue_run (qw_store W) r' st p m db))"
    by (auto simp: item_at_rest_def touches_def option.map_id split: option.splits)
qed

lemma item_at_rest_schema: "item_at_rest r a db \<Longrightarrow> schema_ok db"
  by (simp add: item_at_rest_def)

lemma rests_then:
  assumes "rests r a m" and "\<And>x. keeps (item_at_rest r a) (k x)"
  shows "rests r a (bnd m k)"
  by (rule achieves_bnd [OF assms(1)])
     (use assms(2) item_at_rest_schema in \<open>unfold achieves_def, metis keepsD\<close>)

lemma rests_after: "keeps schema_ok m \<Longrightarrow> (\<And>x. rests r a (k x)) \<Longrightarrow> rests r a (bnd m k)"
  by (rule achieves_after)

lemma rests_done: "rests r a m \<Longrightarrow> rests_if_done r a (bnd m (\<lambda>r. ret (Some r)))"
  by (erule achieves_bnd, rule achieves_ret) simp

lemma rests_not_done: "keeps schema_ok m \<Longrightarrow> rests_if_done r a (seq m (ret None))"
  by (rule achieves_after, assumption, rule achieves_ret) simp

section \<open>What ends a thread leaves the item at rest\<close>

lemma rests_writes:
  fixes W :: queue_world
  shows "rests r a (update_web_queue_item (qw_store W) r a ItemFailed m agent n nx)"
    and "rests r a (update_web_queue_item (qw_store W) r a ItemPaused m agent n nx)"
    and "rests r a (update_web_queue_item (qw_store W) r a ItemStopped m agent n nx)"
    and "rests r a (update_web_queue_item (qw_store W) r a ItemSuccess m agent n nx)"
    and "rests r a (update_web_queue_item (qw_store W) r a ItemWaiting m agent n nx)"
  by (rule rests_write; simp add: item_is_starting_or_running_def stored_item_status_def item_status_from_db_value_def)+

lemma rests_paused: "rests r (qi_id i) (pause_web_queue_item W r i agent n)"
  unfolding pause_web_queue_item_def by (rule rests_writes)

lemma rests_failed:
  "rests r (qi_id i) (fail_item_and_run W r i m n)"
  "rests r (qi_id i) (mark_queue_item_paused W r i agent n st)"
  "rests r (qi_id i) (fail_queue_item_from_task_status W r i agent n st)"
  "rests r (qi_id i) (fail_start W r i agent n st)"
  "rests r (qi_id i) (relaunch_remote_native_disconnected_item W r i n)"
  unfolding fail_item_and_run_def mark_queue_item_paused_def fail_queue_item_from_task_status_def fail_start_def
    relaunch_remote_native_disconnected_item_def
  by (rule rests_then, rule rests_writes rests_reschedule, intro keeps_intro)+

lemma rests_relaunch: "rests r (qi_id i) (bounded_queue_item_relaunch W r i m n)"
  unfolding bounded_queue_item_relaunch_def Let_def
  by (intro achieves_if rests_failed; rule rests_then, rule rests_reschedule, intro keeps_intro)

lemma rests_recovery: "rests r (qi_id i) (fail_or_schedule_queue_item_recovery W r i m agent n)"
proof -
  have scheduled: "achieves schema_ok (\<lambda>_. True) (schedule_queue_item_auto_recovery W r i m)
      (\<lambda>b db. b \<longrightarrow> item_at_rest r (qi_id i) db)"
    unfolding schedule_queue_item_auto_recovery_def Let_def
  proof (rule achieves_after, intro keeps_intro, rule achieves_if)
    fix x
    have "rests r (qi_id i) (seq (schedule_web_queue_item_recovery (qw_store W) r (qi_id i)
        (''auto-recovery scheduled after failed task: '' @ m) m x)
        (seq (update_web_queue_run (qw_store W) r RunRunning (qi_position i)
          (''auto-recovery scheduled after failed task: '' @ m)) (ret True)))"
      by (intro rests_then [OF rests_reschedule(1)] keeps_intro)
    then show "achieves schema_ok (\<lambda>_. True) (seq (schedule_web_queue_item_recovery (qw_store W) r (qi_id i)
        (''auto-recovery scheduled after failed task: '' @ m) m x)
        (seq (update_web_queue_run (qw_store W) r RunRunning (qi_position i)
          (''auto-recovery scheduled after failed task: '' @ m)) (ret True))) (\<lambda>b db. b \<longrightarrow> item_at_rest r (qi_id i) db)"
      by (rule achieves_mono) simp_all
  qed (rule achieves_ret, simp)
  show ?thesis
    unfolding fail_or_schedule_queue_item_recovery_def
  proof (rule achieves_bnd [OF scheduled])
    fix b
    have "rests r (qi_id i) (bnd (exhausted_queue_item_failure_message W i m) (\<lambda>text.
        seq (update_web_queue_item (qw_store W) r (qi_id i) ItemFailed text agent n None) (ret (OutFailed text False))))"
      by (intro rests_after rests_then [OF rests_writes(1)] keeps_intro)
    then show "achieves schema_ok (\<lambda>db. b \<longrightarrow> item_at_rest r (qi_id i) db) (if b then ret OutRecoveryScheduled
        else bnd (exhausted_queue_item_failure_message W i m) (\<lambda>text.
          seq (update_web_queue_item (qw_store W) r (qi_id i) ItemFailed text agent n None)
            (ret (OutFailed text False)))) (\<lambda>_. item_at_rest r (qi_id i))"
      by (cases b) (auto simp: achieves_def)
  qed
qed

lemma rests_success: "rests r (qi_id i) (update_successful_queue_item W r i agent n)"
  unfolding update_successful_queue_item_def by (intro rests_after keeps_intro rests_writes)

text \<open>A terminal status of the row.\<close>

lemma run_items_find:
  assumes "find (\<lambda>i. qi_id i = a) (snd (load_web_queue_run r db)) = Some i" and "schema_ok db"
  shows "find_item r a db = Some i"
proof -
  from assms(1) have i: "i \<in> set (snd (load_web_queue_run r db))" "qi_id i = a" by (auto dest: find_Some_set)
  then have "i \<in> set (db_items db)" "qi_run_id i = r"
    by (auto simp: load_web_queue_run_def run_items_def find_run_def split: option.splits dest: find_Some_set)
  with i(2) assms(2) show ?thesis by (simp add: find_item_Some_iff)
qed

lemma rests_latest: "rests_if_done r a (latest_queue_item_terminal_outcome r a)"
proof -
  have "item_at_rest r a db"
    if "fst (latest_queue_item_terminal_outcome r a db) \<noteq> Inr None" "schema_ok db" for db
    using that run_items_find [of a r db]
    by (auto simp: latest_queue_item_terminal_outcome_def item_at_rest_def item_is_terminal_def
        item_is_starting_or_running_def split: option.splits if_splits)
  then show ?thesis
    by (auto simp: achieves_def latest_queue_item_terminal_outcome_def)
qed

text \<open>An outcome that is passed on; any other value goes on with \<open>k\<close>.\<close>

lemma rests_pass:
  assumes "rests_if_done r a m" and "rests_if_done r a k"
  shows "rests_if_done r a (bnd m (\<lambda>x. case x of None \<Rightarrow> k | Some y \<Rightarrow> ret (Some y)))"
proof (rule achieves_bnd [OF assms(1)])
  fix x
  show "achieves schema_ok (\<lambda>db. x \<noteq> None \<longrightarrow> item_at_rest r a db) (case x of None \<Rightarrow> k | Some y \<Rightarrow> ret (Some y))
      (\<lambda>x db. x \<noteq> None \<longrightarrow> item_at_rest r a db)"
    using assms(2) by (cases x) (auto simp: achieves_def)
qed

lemma rests_unless_terminal: "rests_if_done r a (update_queue_item_unless_terminal W r a st m agent n nx)"
  unfolding update_queue_item_unless_terminal_def by (intro rests_pass rests_latest rests_not_done keeps_intro)

lemma rests_missing: "rests_if_done r (qi_id i) (missing_queue_task_record_outcome W r i a n)"
  unfolding missing_queue_task_record_outcome_def update_remote_native_missing_record_wait_def
    fail_remote_native_missing_task_record_def
  by (intro achieves_if rests_pass rests_latest rests_unless_terminal rests_done rests_relaunch achieves_ret) simp

lemma rests_nothing: "rests_if_done r a (ret None)"
  by (rule achieves_ret) simp

lemma rests_retry_closeout:
  "rests_if_done r (qi_id i) (queue_item_closeout_outcome_from_reduction W r i a n st e red)"
proof -
  have success: "rests_if_done r (qi_id i)
      (bnd (seq (update_successful_queue_item W r i (Some a) n) (ret OutSuccess)) (\<lambda>r. ret (Some r)))"
    by (intro rests_done rests_then [OF rests_success] keeps_intro)
  show ?thesis
    unfolding queue_item_closeout_outcome_from_reduction_def Let_def
    by (cases "red_action red"; simp only: queue_allowed_action.case;
        (rule rests_nothing success | rule achieves_if | rule rests_done, rule rests_failed rests_recovery
         | rule achieves_after | intro keeps_intro)+)
qed

lemma rests_closeout_check:
  assumes "world_keeps schema_ok W"
  shows "rests_if_done r (qi_id i) (queue_item_closeout_check W r i a n)"
  unfolding queue_item_closeout_check_def Let_def
  by (rule rests_nothing rests_retry_closeout rests_missing | rule rests_done, rule rests_relaunch
      | rule achieves_if | rule achieves_option | rule achieves_after
      | intro keeps_intro world_keeps_sessions [OF assms] keeps_evidence world_keeps_sync [OF assms])+

text \<open>The same, with the item the program returns beside the outcome.\<close>

abbreviation rests_with_item :: "string \<Rightarrow> queue_item_row \<Rightarrow> (qdb, queue_item_outcome option \<times> queue_item_row) prog \<Rightarrow> bool" where
  "rests_with_item r i m \<equiv> achieves schema_ok (\<lambda>_. True) m
     (\<lambda>(out, j) db. qi_id j = qi_id i \<and> (out \<noteq> None \<longrightarrow> item_at_rest r (qi_id i) db))"

lemma rests_ends: "rests r (qi_id i) m \<Longrightarrow> rests_with_item r i (bnd m (\<lambda>out. ret (Some out, i)))"
  by (erule achieves_bnd, rule achieves_ret) simp

lemma rests_same_item: "qi_id j = qi_id i \<Longrightarrow> rests_with_item r i (ret (None, j))"
  by (rule achieves_ret) simp

lemma rests_preflight:
  assumes "world_keeps schema_ok W"
  shows "rests_with_item r i (queue_item_preflight W r i)"
proof -
  have success: "rests_with_item r i
      (bnd (seq (update_successful_queue_item W r i agent n) (ret OutSuccess)) (\<lambda>out. ret (Some out, i)))" for agent n
    by (intro rests_ends rests_then [OF rests_success] keeps_intro)
  have reduced: "rests_with_item r i (queue_item_preflight_outcome_from_reduction W r i st e red)" for st e red
    unfolding queue_item_preflight_outcome_from_reduction_def Let_def
    by (cases "red_action red"; simp only: queue_allowed_action.case;
        (rule success | rule rests_same_item, simp | rule achieves_if
         | rule rests_ends, rule rests_failed rests_recovery rests_relaunch | rule achieves_after | intro keeps_intro)+)
  show ?thesis
    unfolding queue_item_preflight_def Let_def
    by (rule reduced | rule rests_same_item, simp | rule rests_ends, rule rests_relaunch
        | rule achieves_if | rule achieves_option | rule achieves_after
        | intro keeps_intro keeps_evidence world_keeps_sync [OF assms])+
qed

abbreviation resumption_rests :: "string \<Rightarrow> string \<Rightarrow> resumption \<Rightarrow> qdb \<Rightarrow> bool" where
  "resumption_rests r a p db \<equiv> (case p of
     ResumeEnds out \<Rightarrow> item_at_rest r a db | ResumeWaits j agent \<Rightarrow> qi_id j = a | ResumeLaunches \<Rightarrow> True)"

lemma rests_resume: "achieves schema_ok (\<lambda>_. True) (queue_item_resume W r i) (resumption_rests r (qi_id i))"
proof -
  have ends: "achieves schema_ok (\<lambda>_. True) (bnd m (\<lambda>out. ret (ResumeEnds out))) (resumption_rests r (qi_id i))"
    if "rests r (qi_id i) m" for m
    using that by (rule achieves_bnd) (rule achieves_ret, simp)
  show ?thesis
    unfolding queue_item_resume_def resume_running_item_def resume_stopped_item_def Let_def
    by (rule ends, rule rests_recovery | rule achieves_ret, simp add: remote_native_running_wait_item_def
        | rule achieves_option | rule achieves_if | rule achieves_after | intro keeps_intro)+
qed

text \<open>A launch ends for good with the item at rest, or it may be retried.\<close>

definition retryable :: "queue_item_outcome \<Rightarrow> bool" where
  "retryable out = (\<exists>m. out = OutFailed m True)"

abbreviation launch_rests :: "string \<Rightarrow> string \<Rightarrow> queue_item_outcome \<Rightarrow> qdb \<Rightarrow> bool" where
  "launch_rests r a out db \<equiv> retryable out \<or> item_at_rest r a db"

abbreviation launched_rests :: "string \<Rightarrow> string \<Rightarrow> queue_item_outcome + string \<Rightarrow> qdb \<Rightarrow> bool" where
  "launched_rests r a x db \<equiv> (case x of Inl out \<Rightarrow> launch_rests r a out db | Inr agent \<Rightarrow> True)"

abbreviation opened_rests :: "string \<Rightarrow> string \<Rightarrow> queue_item_outcome option \<Rightarrow> qdb \<Rightarrow> bool" where
  "opened_rests r a x db \<equiv> (case x of None \<Rightarrow> True | Some out \<Rightarrow> launch_rests r a out db)"

lemma achieves_sum:
  "(\<And>x. y = Inl x \<Longrightarrow> achieves I P (f x) Q) \<Longrightarrow> (\<And>x. y = Inr x \<Longrightarrow> achieves I P (k x) Q) \<Longrightarrow>
   achieves I P (case y of Inl x \<Rightarrow> f x | Inr x \<Rightarrow> k x) Q"
  by (cases y) auto

lemma rests_launch_agent:
  assumes "starts_keep schema_ok W"
  shows "achieves schema_ok (\<lambda>_. True) (launch_queue_agent W r i n) (launched_rests r (qi_id i))"
proof -
  have failed: "achieves schema_ok (\<lambda>_. True) (bnd (fail_start W r i agent n m) (\<lambda>out. ret (Inl out)))
      (launched_rests r (qi_id i))" for agent m
    by (rule achieves_bnd, rule rests_failed) (rule achieves_ret, simp)
  have start: "keeps schema_ok (\<lambda>db. case lv_start_agent (qw_launch W) a cwd track cmd db of (x, db') \<Rightarrow> (Inr x, db'))"
    for a cwd track cmd
    using assms by (auto simp: keeps_def starts_keep_def split: prod.split) (metis snd_conv)
  have packet: "keeps schema_ok (write_queue_task_packet_file W i task)" "keeps schema_ok (remember_queue_task_agent W i a)"
    for task a
    unfolding write_queue_task_packet_file_def remember_queue_task_agent_def
    by (intro keeps_intro item_schema.remembers)+
  show ?thesis
    unfolding launch_queue_agent_def Let_def
    by (rule failed | rule achieves_ret, simp add: retryable_def | rule achieves_sum | rule achieves_after
        | intro keeps_intro packet start)+
qed

lemma opened_step:
  assumes "achieves schema_ok (\<lambda>_. True) m (opened_rests r a)" and "achieves schema_ok (\<lambda>_. True) k (opened_rests r a)"
  shows "achieves schema_ok (\<lambda>_. True) (bnd m (\<lambda>x. case x of None \<Rightarrow> k | Some out \<Rightarrow> ret (Some out))) (opened_rests r a)"
proof (rule achieves_bnd [OF assms(1)])
  fix x
  show "achieves schema_ok (opened_rests r a x) (case x of None \<Rightarrow> k | Some out \<Rightarrow> ret (Some out)) (opened_rests r a)"
    using assms(2) by (cases x) (auto simp: achieves_def)
qed

lemma opened_unless_terminal:
  assumes "achieves schema_ok (\<lambda>_. True) k (opened_rests r (qi_id i))"
  shows "achieves schema_ok (\<lambda>_. True) (unless_terminal W r i st m n k) (opened_rests r (qi_id i))"
proof -
  have "achieves schema_ok (\<lambda>_. True)
      (update_queue_item_unless_terminal W r (qi_id i) st m agent n None) (opened_rests r (qi_id i))" for agent
    by (rule achieves_mono [OF rests_unless_terminal]) (auto split: option.split)
  then show ?thesis unfolding unless_terminal_def by (rule opened_step [OF _ assms])
qed

lemma keeps_contract: "keeps I (run_remote_agent_contract W i root sub session slug file)"
  unfolding run_remote_agent_contract_def by (intro keeps_intro keeps_case_process)

lemma opened_agent: "achieves schema_ok (\<lambda>_. True) (open_remote_native_agent W r i n root file) (opened_rests r (qi_id i))"
  unfolding open_remote_native_agent_def
  by (rule opened_unless_terminal | rule achieves_ret, simp add: retryable_def | rule achieves_option | rule achieves_if
      | rule achieves_after | rule keeps_contract)+

lemma reserved_same_id:
  "gives (\<lambda>(j, p). qi_id j = qi_id i) (reserve_remote_native_proxy W i)"
  "gives (\<lambda>(j, p). qi_id j = qi_id i) (maybe_rotate_remote_native_proxy_after_failure W i m)"
proof -
  have rotate: "gives (\<lambda>(j, p). qi_id j = qi_id i) (rotate_remote_native_proxy W i host current)" for host current
    unfolding rotate_remote_native_proxy_def Let_def by (intro gives_intro gives_ret; simp)
  show "gives (\<lambda>(j, p). qi_id j = qi_id i) (reserve_remote_native_proxy W i)"
    "gives (\<lambda>(j, p). qi_id j = qi_id i) (maybe_rotate_remote_native_proxy_after_failure W i m)"
    unfolding reserve_remote_native_proxy_def maybe_rotate_remote_native_proxy_after_failure_def
    by (intro gives_intro rotate; rule gives_ret, simp)+
qed

lemma achieves_gives: "keeps I m \<Longrightarrow> gives P m \<Longrightarrow> achieves I (\<lambda>_. True) m (\<lambda>x _. P x)"
  unfolding achieves_def gives_def by (metis keepsD)

text \<open>A condition on the value that does not depend on the state can be carried along.\<close>

lemma achieves_pure: "(B \<Longrightarrow> achieves I (\<lambda>_. True) m Q) \<Longrightarrow> achieves I (\<lambda>_. B) m Q"
  by (auto simp: achieves_def)

abbreviation remote_rests ::
  "string \<Rightarrow> string \<Rightarrow> queue_item_outcome option \<times> queue_item_row \<Rightarrow> qdb \<Rightarrow> bool" where
  "remote_rests r a x db \<equiv> (case x of (out, j) \<Rightarrow> qi_id j = a \<and> opened_rests r a out db)"

lemma rests_remote_launch:
  "achieves schema_ok (\<lambda>_. True) (launch_remote_native_agent W r item n) (remote_rests r (qi_id item))"
proof -
  have after_open: "achieves schema_ok (opened_rests r (qi_id i) x)
      (case x of Some out \<Rightarrow> ret (Some out) | None \<Rightarrow> unless_terminal W r i ItemRunning m n
         (seq (set_web_queue_item_attempt_terminal (qw_store W) r (qi_id i) k t) (ret None)))
      (opened_rests r (qi_id i))" for x i m k t
  proof (cases x)
    case None
    have "achieves schema_ok (\<lambda>_. True) (unless_terminal W r i ItemRunning m n
        (seq (set_web_queue_item_attempt_terminal (qw_store W) r (qi_id i) k t) (ret None))) (opened_rests r (qi_id i))"
      by (rule opened_unless_terminal, rule achieves_after, intro keeps_intro, rule achieves_ret) simp
    with None show ?thesis by (simp add: achieves_def)
  qed (auto simp: achieves_def)
  have contract: "achieves schema_ok (\<lambda>_. True)
      (bnd (run_remote_agent_contract W i root ''doctor'' session None None) (\<lambda>doctor. case doctor of
         Some e \<Rightarrow> ret (Some (OutFailed e True))
       | None \<Rightarrow> bnd (write_remote_native_task_packet_file W i) (\<lambda>written. case written of
             Inl e \<Rightarrow> ret (Some (OutFailed e True))
           | Inr file \<Rightarrow> bnd (open_remote_native_agent W r i n root file) (\<lambda>opened. case opened of
                 Some out \<Rightarrow> ret (Some out)
               | None \<Rightarrow> unless_terminal W r i ItemRunning m n
                   (seq (set_web_queue_item_attempt_terminal (qw_store W) r (qi_id i) k t) (ret None))))))
      (opened_rests r (qi_id i))" for i root session m k t
    unfolding write_remote_native_task_packet_file_def
    by (rule achieves_ret, simp add: retryable_def | rule achieves_bnd, rule opened_agent, rule after_open
        | rule achieves_option | rule achieves_sum | rule achieves_after | rule keeps_contract | intro keeps_intro)+
  have finish: "achieves schema_ok (opened_rests r a out) (ret (out, j)) (remote_rests r a)" if "qi_id j = a" for a out j
    by (rule achieves_ret) (simp add: that)
  have body: "achieves schema_ok (\<lambda>_. True) (bnd m (\<lambda>out. ret (out, j))) (remote_rests r (qi_id item))"
    if "achieves schema_ok (\<lambda>_. True) m (opened_rests r (qi_id j))" "qi_id j = qi_id item" for m j
    using that(1) unfolding that(2) by (rule achieves_bnd) (rule finish [OF that(2)])
  have reserve: "achieves schema_ok (\<lambda>_. True) (bnd (reserve_remote_native_proxy W item) (\<lambda>(j, rotated). k j rotated))
      (remote_rests r (qi_id item))"
    if "\<And>j rotated. qi_id j = qi_id item \<Longrightarrow> achieves schema_ok (\<lambda>_. True) (k j rotated) (remote_rests r (qi_id item))"
    for k
  proof (rule achieves_bnd [OF achieves_gives [OF _ reserved_same_id(1)]], intro keeps_intro)
    fix x
    show "achieves schema_ok (\<lambda>_. case x of (j, p) \<Rightarrow> qi_id j = qi_id item)
        (case x of (j, rotated) \<Rightarrow> k j rotated) (remote_rests r (qi_id item))"
      by (cases x) (simp, rule achieves_pure, rule that)
  qed
  show ?thesis
    unfolding launch_remote_native_agent_def try_result_def
    by (rule reserve, rule body, rule opened_unless_terminal, rule contract, assumption
        | rule achieves_after, (intro keeps_intro; fail)?)+
qed

lemma not_awakened:
  fixes W :: queue_world
  assumes "schema_ok db"
  shows "\<not> web_queue_item_retry_awakened r a (snd (update_web_queue_item (qw_store W) r a ItemWaiting m agent n (Some t) db))"
proof -
  obtain db' where run: "update_web_queue_item (qw_store W) r a ItemWaiting m agent n (Some t) db = (Inr (), db')"
    and t: "touches r a (set_item W (stored_item_status ItemWaiting) m agent n (Some t)) id db db'"
    using run_update_item_touches [OF assms] by blast
  have "qi_next_attempt_at i = Some t" if "i \<in> set (db_items db')" "item_key r a i" for i
  proof -
    have "find_item r a db' = Some i"
      using that touches_schema [OF t] by (simp add: find_item_Some_iff item_key_def)
    with t show ?thesis by (auto simp: touches_def)
  qed
  then show ?thesis by (auto simp: run web_queue_item_retry_awakened_def exists_where_def)
qed

abbreviation choice_rests :: "string \<Rightarrow> string \<Rightarrow> command_choice \<Rightarrow> qdb \<Rightarrow> bool" where
  "choice_rests r a c db \<equiv> (case c of
     CommandReady j \<Rightarrow> qi_id j = a
   | CommandWaits j delay \<Rightarrow> qi_id j = a \<and> 0 < delay \<and> item_at_rest r a db \<and> \<not> web_queue_item_retry_awakened r a db
   | CommandUnknown out \<Rightarrow> item_at_rest r a db)"

lemma rests_wait_for_agent:
  assumes "qi_id i = a"
  shows "achieves schema_ok (\<lambda>_. True) (wait_for_agent W r i n m until) (choice_rests r a)"
proof -
  let ?waits = "update_web_queue_item (qw_store W) r (qi_id i) ItemWaiting m None n (Some until)"
  have "rests r (qi_id i) ?waits" by (rule rests_writes)
  then have "achieves schema_ok (\<lambda>_. True) ?waits
      (\<lambda>_ db. item_at_rest r a db \<and> \<not> web_queue_item_retry_awakened r a db)"
    using not_awakened assms unfolding achieves_def by (metis snd_conv)
  then show ?thesis
    unfolding wait_for_agent_def by (rule achieves_bnd) (rule achieves_ret, simp add: assms)
qed

lemma rests_choose: "achieves schema_ok (\<lambda>_. True) (choose_queue_agent_command W r item n) (choice_rests r (qi_id item))"
proof -
  have unknown: "achieves schema_ok (\<lambda>_. True) (bnd (fail_start W r item None n m) (\<lambda>out. ret (CommandUnknown out)))
      (choice_rests r (qi_id item))" for m
    by (rule achieves_bnd, rule rests_failed) (rule achieves_ret, simp)
  have choices: "achieves schema_ok (\<lambda>_. True) (case y of Selected c rec \<Rightarrow> f c rec | SelectionWaiting m t \<Rightarrow> g m t) Q"
    if "\<And>c rec. achieves schema_ok (\<lambda>_. True) (f c rec) Q" "\<And>m t. achieves schema_ok (\<lambda>_. True) (g m t) Q"
    for y f g and Q :: "command_choice \<Rightarrow> qdb \<Rightarrow> bool"
    using that by (cases y) auto
  show ?thesis
    unfolding choose_queue_agent_command_def Let_def
    by (rule unknown | rule rests_wait_for_agent, simp | rule achieves_ret, simp | rule choices | rule achieves_if
        | rule achieves_after | intro keeps_intro item_schema.keeps_columns)+
qed

lemma again_now: "achieves schema_ok (\<lambda>_. True) (retry_launch_now W r i n m) (\<lambda>d db. d = LaunchAgain i (n + 1))"
  unfolding retry_launch_now_def by (rule achieves_after, intro keeps_intro, rule achieves_ret) simp

lemma rests_schedule_retry:
  "achieves schema_ok (\<lambda>_. True) (schedule_launch_retry W r item n m)
     (\<lambda>(delay, j) db. qi_id j = qi_id item \<and> item_at_rest r (qi_id item) db)"
proof -
  have waits: "achieves schema_ok (\<lambda>_. True)
      (seq (update_web_queue_item (qw_store W) r (qi_id j) ItemWaiting msg agent k nx) (ret (delay, j)))
      (\<lambda>(delay, j) db. qi_id j = qi_id item \<and> item_at_rest r (qi_id item) db)"
    if "qi_id j = qi_id item" for j msg agent k nx delay
    unfolding that by (rule achieves_bnd, rule rests_writes, rule achieves_ret) (simp add: that)
  show ?thesis
    unfolding schedule_launch_retry_def Let_def
  proof (rule achieves_after, intro keeps_intro, rule achieves_bnd [OF achieves_gives [OF _ reserved_same_id(2)]],
      intro keeps_intro)
    fix cleanup :: "string option" and x :: "queue_item_row \<times> string option"
    obtain j proxy where x: "x = (j, proxy)" by (cases x)
    show "achieves schema_ok (\<lambda>_. case x of (j, p) \<Rightarrow> qi_id j = qi_id item) (case x of (i, proxy) \<Rightarrow>
        seq (update_web_queue_item (qw_store W) r (qi_id i) ItemWaiting
          ((m @ (case proxy of None \<Rightarrow> [] | Some p \<Rightarrow> ''; switched remote proxy to '' @ p) @
             (case cleanup of None \<Rightarrow> [] | Some c \<Rightarrow> ''; '' @ c)) @
            retry_count_text (n + 1) @ '' in '' @ show_nat (web_queue_retry_delays ! retry_index n) @ ''s'')
          (queue_launch_failure_agent_id i) (n + 1)
          (Some (sat_add_u64 (qw_now W) (web_queue_retry_delays ! retry_index n))))
        (ret (web_queue_retry_delays ! retry_index n, i)))
      (\<lambda>(delay, j) db. qi_id j = qi_id item \<and> item_at_rest r (qi_id item) db)"
      unfolding x prod.case by (rule achieves_pure, rule waits)
  qed
qed

section \<open>The thread ends with its item at rest\<close>

definition watch :: "string \<Rightarrow> string \<Rightarrow> clock \<times> qdb \<Rightarrow> bool" where
  "watch r a s = (on_clock schema_ok s \<and> clock_keeps (item_at_rest r a) (fst s))"

text \<open>A thread is still at work only when its clock has run out.\<close>

definition landing :: "('a \<Rightarrow> clock \<times> qdb \<Rightarrow> bool) \<Rightarrow> 'a option \<Rightarrow> clock \<times> qdb \<Rightarrow> bool" where
  "landing N o' s = (case o' of None \<Rightarrow> snd (fst s) = [] | Some x \<Rightarrow> N x s)"

lemma land_and_then:
  assumes "achieves I P t (landing N)" and "\<And>x. achieves I (N x) (k x) (landing M)"
  shows "achieves I P (and_then t k) (landing M)"
  unfolding and_then_def
proof (rule achieves_bnd [OF assms(1)])
  fix x
  show "achieves I (landing N x) (case x of None \<Rightarrow> still_at_work | Some y \<Rightarrow> k y) (landing M)"
    using assms(2) by (cases x) (auto simp: achieves_def landing_def still_at_work_def)
qed

lemma land_finish: "(\<And>s. I s \<Longrightarrow> P s \<Longrightarrow> N x s) \<Longrightarrow> achieves I P (finish x) (landing N)"
  by (simp add: finish_def achieves_ret landing_def)

lemma land_act:
  assumes "\<And>W. item_world_keeps schema_ok W \<Longrightarrow> achieves schema_ok (\<lambda>db. P db) (m W) N"
  shows "achieves (watch r a) (\<lambda>s. C (fst s) \<and> P (snd s)) (act m) (landing (\<lambda>x s. C (fst s) \<and> N x (snd s)))"
  unfolding achieves_def
proof (intro allI impI)
  fix s x t
  assume s: "watch r a s" "C (fst s) \<and> P (snd s)" and run: "act m s = (Inr x, t)"
  obtain W ts db where st: "s = ((W, ts), db)" by (cases s) auto
  from run obtain y db' where y: "m W db = (Inr y, db')" "x = Some y" "t = ((W, ts), db')"
    by (auto simp: act_def st split: prod.splits sum.splits)
  have "item_world_keeps schema_ok W" "schema_ok db" using s(1) by (simp_all add: watch_def st)
  with assms [of W] s(2) y(1) have "schema_ok db' \<and> N y db'" by (auto simp: achieves_def st)
  with s y show "watch r a t \<and> landing (\<lambda>x s. C (fst s) \<and> N x (snd s)) x t"
    by (simp add: watch_def landing_def st)
qed

lemma land_act_True:
  assumes "\<And>W. item_world_keeps schema_ok W \<Longrightarrow> achieves schema_ok (\<lambda>_. True) (m W) N"
  shows "achieves (watch r a) (\<lambda>s. C (fst s)) (act m) (landing (\<lambda>x s. C (fst s) \<and> N x (snd s)))"
  using land_act [where P = "\<lambda>_. True", OF assms] by simp

lemma land_mono:
  "achieves I P t (landing N) \<Longrightarrow> (\<And>s. I s \<Longrightarrow> P' s \<Longrightarrow> P s) \<Longrightarrow> (\<And>x s. I s \<Longrightarrow> N x s \<Longrightarrow> M x s) \<Longrightarrow>
   achieves I P' t (landing M)"
  by (erule achieves_mono) (auto simp: landing_def split: option.splits)

lemma land_act_keeps:
  assumes "\<And>W. item_world_keeps schema_ok W \<Longrightarrow> keeps schema_ok (m W)"
  shows "achieves (watch r a) (\<lambda>s. C (fst s)) (act m) (landing (\<lambda>_ s. C (fst s)))"
  by (rule land_mono [OF land_act_True [OF achieves_any [OF assms]]]) simp_all

lemma land_nap:
  "achieves (watch r a) (\<lambda>s. sleeps_left (fst s) \<le> k \<and> P (snd s)) nap
     (landing (\<lambda>_ s. sleeps_left (fst s) < k))"
  by (auto simp: achieves_def nap_def landing_def watch_def sleeps_left_def split: list.splits prod.splits)

lemma land_nap_rest:
  "achieves (watch r a) (\<lambda>s. sleeps_left (fst s) \<le> k \<and> item_at_rest r a (snd s)) nap
     (landing (\<lambda>_ s. sleeps_left (fst s) < k \<and> item_at_rest r a (snd s)))"
  by (auto simp: achieves_def nap_def landing_def watch_def sleeps_left_def item_at_rest_def
      split: list.splits prod.splits)

lemma land_keeping:
  assumes "achieves I P t (landing N)" and "keeps (\<lambda>s. C (fst s)) t" and "\<And>s. P s \<Longrightarrow> C (fst s)"
  shows "achieves I P t (landing (\<lambda>x s. N x s \<and> C (fst s)))"
  unfolding achieves_def
proof (intro allI impI)
  fix s x t' assume s: "I s" "P s" and run: "t s = (Inr x, t')"
  have "C (fst t')" by (rule keepsD [OF assms(2) _ run]) (rule assms(3) [OF s(2)])
  moreover have "I t'" "landing N x t'" using assms(1) s run unfolding achieves_def by blast+
  ultimately show "I t' \<and> landing (\<lambda>x s. N x s \<and> C (fst s)) x t'"
    by (auto simp: landing_def split: option.splits)
qed

lemma land_pure: "(B \<Longrightarrow> achieves I P t Q) \<Longrightarrow> achieves I (\<lambda>s. P s \<and> B) t Q"
  by (auto simp: achieves_def)

lemma rounds_rest:
  "achieves (watch r (qi_id i)) (\<lambda>s. sleeps_left (fst s) < n) (closeout_rounds n r i agent m lease)
     (landing (\<lambda>_ s. item_at_rest r (qi_id i) (snd s)))"
proof (induction n)
  case 0
  show ?case by (simp add: achieves_def)
next
  case (Suc n)
  let ?I = "watch r (qi_id i)" and ?rest = "item_at_rest r (qi_id i)"
  let ?N = "landing (\<lambda>_ s. ?rest (snd s))"
  have pause: "achieves ?I (\<lambda>s. sleeps_left (fst s) < Suc n)
      (and_then (act (\<lambda>W. pause_web_queue_item W r i (Some agent) m)) (\<lambda>_. finish OutStopped)) ?N"
    by (rule land_and_then, rule land_act_True, rule rests_paused, rule land_finish) simp
  have check: "achieves ?I (\<lambda>s. sleeps_left (fst s) < n)
      (and_then (act (\<lambda>W. queue_item_closeout_check W r i agent m)) (\<lambda>out. case out of
         Some o' \<Rightarrow> finish o' | None \<Rightarrow> closeout_rounds n r i agent m lease)) ?N"
  proof (rule land_and_then, rule land_act_True, rule rests_closeout_check, simp add: item_world_keeps_def)
    fix out
    show "achieves ?I (\<lambda>s. sleeps_left (fst s) < n \<and> (out \<noteq> None \<longrightarrow> ?rest (snd s)))
        (case out of Some o' \<Rightarrow> finish o' | None \<Rightarrow> closeout_rounds n r i agent m lease) ?N"
    proof (cases out)
      case None
      then show ?thesis using Suc by simp
    next
      case (Some o')
      then show ?thesis by (auto intro: land_finish)
    qed
  qed
  have nap_check: "achieves ?I (\<lambda>s. sleeps_left (fst s) < Suc n)
      (and_then nap (\<lambda>_. and_then (act (\<lambda>W. queue_item_closeout_check W r i agent m)) (\<lambda>out. case out of
         Some o' \<Rightarrow> finish o' | None \<Rightarrow> closeout_rounds n r i agent m lease))) ?N"
    by (rule land_and_then [OF land_mono [OF land_nap [where P = "\<lambda>_. True" and k = n]] check]) auto
  show ?case
    unfolding closeout_rounds.simps
    by (rule land_and_then, rule land_act_keeps, intro keeps_intro, rule achieves_if, rule pause,
        rule land_and_then, rule land_act_keeps, intro keeps_intro, rule nap_check)
qed

lemma wait_rest:
  "achieves (watch r (qi_id i)) (\<lambda>s. sleeps_left (fst s) \<le> k) (wait_for_queue_item_closeout r i agent m lease)
     (landing (\<lambda>_ s. item_at_rest r (qi_id i) (snd s) \<and> sleeps_left (fst s) \<le> k))"
proof (rule land_keeping [OF _ clock_time.timed_wait])
  have "wait_for_queue_item_closeout r i agent m lease s =
      closeout_rounds (Suc (sleeps_left (fst s))) r i agent m lease s" for s
    by (cases s) (simp add: wait_for_queue_item_closeout_def del: closeout_rounds.simps)
  then show "achieves (watch r (qi_id i)) (\<lambda>s. sleeps_left (fst s) \<le> k) (wait_for_queue_item_closeout r i agent m lease)
      (landing (\<lambda>_ s. item_at_rest r (qi_id i) (snd s)))"
    using rounds_rest [of r i _ agent m lease] unfolding achieves_def by (metis lessI)
qed simp

lemma sleep_rest:
  "achieves (watch r a) (\<lambda>s. sleeps_left (fst s) \<le> k \<and> item_at_rest r a (snd s)) (sleep_queue_retry r a n)
     (landing (\<lambda>_ s. sleeps_left (fst s) \<le> k \<and> item_at_rest r a (snd s)))"
proof (induction r a n arbitrary: k rule: sleep_queue_retry.induct)
  case (1 r a n)
  let ?I = "watch r a" and ?P = "\<lambda>s. sleeps_left (fst s) \<le> k \<and> item_at_rest r a (snd s)"
  have look: "achieves ?I ?P (act (\<lambda>W. query (f W))) (landing (\<lambda>_. ?P))" for f :: "queue_world \<Rightarrow> qdb \<Rightarrow> bool"
    by (rule land_act [where C = "\<lambda>c. sleeps_left c \<le> k" and P = "item_at_rest r a"]) (auto simp: achieves_def)
  have ends: "achieves ?I ?P (finish b) (landing (\<lambda>_. ?P))" for b :: bool
    by (rule land_finish)
  show ?case
  proof (cases "n = 0")
    case True
    then show ?thesis using ends by (simp add: sleep_queue_retry.simps)
  next
    case False
    have nap: "achieves ?I ?P (and_then nap (\<lambda>_. sleep_queue_retry r a (n - min n 5))) (landing (\<lambda>_. ?P))"
    proof (rule land_and_then [OF land_nap_rest])
      fix x :: unit
      have "achieves ?I ?P (sleep_queue_retry r a (n - min n 5)) (landing (\<lambda>_. ?P))"
        using "1.IH" [OF False] by blast
      then show "achieves ?I (\<lambda>s. sleeps_left (fst s) < k \<and> item_at_rest r a (snd s)) (sleep_queue_retry r a (n - min n 5))
          (landing (\<lambda>_. ?P))" by (rule land_mono) auto
    qed
    show ?thesis
      by (subst sleep_queue_retry.simps, simp only: False if_False)
         (rule land_and_then [OF look], rule achieves_if, rule ends, rule land_and_then [OF look], rule achieves_if,
          rule ends, rule nap)
  qed
qed

text \<open>A wait that nobody has cut short sleeps before it goes on.\<close>

lemma sleep_first:
  assumes "0 < n"
  shows "achieves (watch r a)
     (\<lambda>s. sleeps_left (fst s) \<le> k \<and> item_at_rest r a (snd s) \<and> \<not> web_queue_item_retry_awakened r a (snd s))
     (sleep_queue_retry r a n)
     (landing (\<lambda>go_on s. item_at_rest r a (snd s) \<and> sleeps_left (fst s) \<le> k \<and> (go_on \<longrightarrow> sleeps_left (fst s) < k)))"
proof -
  let ?I = "watch r a" and ?at = "\<lambda>db. item_at_rest r a db \<and> \<not> web_queue_item_retry_awakened r a db"
  let ?P = "\<lambda>s. sleeps_left (fst s) \<le> k \<and> ?at (snd s)"
  let ?N = "landing (\<lambda>go_on s. item_at_rest r a (snd s) \<and> sleeps_left (fst s) \<le> k \<and> (go_on \<longrightarrow> sleeps_left (fst s) < k))"
  have stop: "achieves ?I ?P (act (\<lambda>W. query (web_queue_stop_requested r))) (landing (\<lambda>_. ?P))"
    by (rule land_act [where C = "\<lambda>c. sleeps_left c \<le> k" and P = ?at]) (auto simp: achieves_def)
  have awake: "achieves ?I ?P (act (\<lambda>W. query (web_queue_item_retry_awakened r a))) (landing (\<lambda>b s. ?P s \<and> \<not> b))"
    by (rule land_act [where C = "\<lambda>c. sleeps_left c \<le> k" and P = ?at and N = "\<lambda>b db. ?at db \<and> \<not> b", THEN land_mono])
       (auto simp: achieves_def)
  have nap: "achieves ?I ?P (and_then nap (\<lambda>_. sleep_queue_retry r a (n - min n 5))) ?N"
  proof (rule land_and_then)
    show "achieves ?I ?P nap (landing (\<lambda>_ s. sleeps_left (fst s) < k \<and> item_at_rest r a (snd s)))"
      by (rule land_mono [OF land_nap_rest]) auto
    fix x :: unit
    show "achieves ?I (\<lambda>s. sleeps_left (fst s) < k \<and> item_at_rest r a (snd s)) (sleep_queue_retry r a (n - min n 5)) ?N"
    proof (cases k)
      case (Suc k')
      then show ?thesis by (intro land_mono [OF sleep_rest [where k = k']]) auto
    qed (simp add: achieves_def)
  qed
  show ?thesis
    using assms
    by (subst sleep_queue_retry.simps)
       (simp, rule land_and_then [OF stop], rule achieves_if, rule land_finish, simp,
        rule land_and_then [OF awake], rule achieves_if, rule land_pure, simp,
        rule land_mono [OF nap], simp_all)
qed

lemma await_kept:
  "achieves (watch r a) (\<lambda>s. sleeps_left (fst s) \<le> k) (await_terminal_target n agent)
     (landing (\<lambda>_ s. sleeps_left (fst s) \<le> k))"
proof (induction n)
  case (Suc n)
  let ?N = "landing (\<lambda>_ s. sleeps_left (fst s) \<le> k)"
  have nap: "achieves (watch r a) (\<lambda>s. sleeps_left (fst s) \<le> k) (and_then nap (\<lambda>_. await_terminal_target n agent)) ?N"
    by (rule land_and_then [OF land_mono [OF land_nap [where P = "\<lambda>_. True"]] Suc]) auto
  show ?case
    unfolding await_terminal_target.simps
    by (rule land_and_then, rule land_act_keeps, intro keeps_intro)
       (rule achieves_option | rule nap | rule land_finish, assumption)+
qed (auto intro: land_finish)

lemma start_rest:
  "achieves (watch r (qi_id i)) (\<lambda>s. sleeps_left (fst s) \<le> k) (start_web_queue_item r i n lease)
     (landing (\<lambda>out s. launch_rests r (qi_id i) out (snd s) \<and> sleeps_left (fst s) \<le> k))"
proof -
  let ?I = "watch r (qi_id i)" and ?T = "\<lambda>s :: clock \<times> qdb. sleeps_left (fst s) \<le> k"
  let ?N = "landing (\<lambda>out s. launch_rests r (qi_id i) out (snd s) \<and> sleeps_left (fst s) \<le> k)"
  have retry: "achieves ?I ?T (act (\<lambda>W. retry_after_queue_agent_launch_failure W agent m)) ?N" for agent m
  proof (rule land_mono [OF land_act_True [where C = "\<lambda>c. sleeps_left c \<le> k" and N = "\<lambda>out _. retryable out"]])
    show "achieves schema_ok (\<lambda>_. True) (retry_after_queue_agent_launch_failure W agent m) (\<lambda>out _. retryable out)" for W
      unfolding retry_after_queue_agent_launch_failure_def cleanup_queue_agent_def Let_def
      by (rule achieves_after, intro keeps_intro, rule achieves_ret) (simp add: retryable_def)
  qed simp_all
  have appeared: "keeps schema_ok (agent_terminal_appeared W r i n agent t)" for W agent t
    unfolding agent_terminal_appeared_def set_queue_terminal_scope_def by (intro keeps_intro item_schema.keeps_columns)
  have waits: "achieves ?I ?T (wait_for_queue_item_closeout r i agent n lease) ?N" for agent
    by (rule land_mono [OF wait_rest]) auto
  have launched: "achieves ?I ?T (act (\<lambda>W. launch_queue_agent W r i n))
      (landing (\<lambda>x s. ?T s \<and> launched_rests r (qi_id i) x (snd s)))"
    by (rule land_act_True, rule rests_launch_agent) (simp add: item_world_keeps_def)
  have target: "achieves ?I ?T (case t of None \<Rightarrow> act (\<lambda>W. retry_after_queue_agent_launch_failure W agent m)
      | Some u \<Rightarrow> and_then (act (\<lambda>W. agent_terminal_appeared W r i n agent u))
          (\<lambda>_. wait_for_queue_item_closeout r i agent n lease)) ?N" for t agent m
    by (rule achieves_option, rule retry, rule land_and_then, rule land_act_keeps, rule appeared, rule waits)
  show ?thesis
    unfolding start_web_queue_item_def wait_for_agent_terminal_target_def
  proof (rule land_and_then [OF launched])
    fix x
    show "achieves ?I (\<lambda>s. ?T s \<and> launched_rests r (qi_id i) x (snd s)) (case x of Inl out \<Rightarrow> finish out
      | Inr agent \<Rightarrow> and_then (await_terminal_target 20 agent) (\<lambda>t. case t of
          None \<Rightarrow> act (\<lambda>W. retry_after_queue_agent_launch_failure W agent ''agent terminal did not appear'')
        | Some u \<Rightarrow> and_then (act (\<lambda>W. agent_terminal_appeared W r i n agent u))
            (\<lambda>_. wait_for_queue_item_closeout r i agent n lease))) ?N"
    proof (cases x)
      case (Inr agent)
      have "achieves ?I ?T (and_then (await_terminal_target 20 agent) (\<lambda>t. case t of
          None \<Rightarrow> act (\<lambda>W. retry_after_queue_agent_launch_failure W agent ''agent terminal did not appear'')
        | Some u \<Rightarrow> and_then (act (\<lambda>W. agent_terminal_appeared W r i n agent u))
            (\<lambda>_. wait_for_queue_item_closeout r i agent n lease))) ?N"
        by (rule land_and_then [OF await_kept target])
      with Inr show ?thesis by simp
    qed (auto intro: land_finish)
  qed
qed

lemma remote_start_rest:
  assumes "qi_id item = a"
  shows "achieves (watch r a) (\<lambda>s. sleeps_left (fst s) \<le> k) (start_remote_native_queue_item r item n lease)
     (landing (\<lambda>(out, i) s. qi_id i = a \<and> launch_rests r a out (snd s) \<and> sleeps_left (fst s) \<le> k))"
proof -
  let ?I = "watch r a" and ?T = "\<lambda>s :: clock \<times> qdb. sleeps_left (fst s) \<le> k"
  let ?N = "landing (\<lambda>(out, i) s. qi_id i = a \<and> launch_rests r a out (snd s) \<and> sleeps_left (fst s) \<le> k)"
  have launched: "achieves ?I ?T (act (\<lambda>W. launch_remote_native_agent W r item n))
      (landing (\<lambda>x s. ?T s \<and> remote_rests r a x (snd s)))"
    by (rule land_act_True, unfold assms [symmetric], rule rests_remote_launch)
  have waits: "achieves ?I ?T (and_then (wait_for_queue_item_closeout r (remote_native_running_wait_item i agent) agent
        n lease) (\<lambda>out. finish (out, i))) ?N" if "qi_id i = a" for i agent
  proof (rule land_and_then)
    have id: "qi_id (remote_native_running_wait_item i agent) = a"
      by (simp add: remote_native_running_wait_item_def that)
    show "achieves ?I ?T (wait_for_queue_item_closeout r (remote_native_running_wait_item i agent) agent n lease)
        (landing (\<lambda>_ s. item_at_rest r a (snd s) \<and> ?T s))"
      by (rule wait_rest [of r "remote_native_running_wait_item i agent", unfolded id])
  qed (rule land_finish, simp add: that)
  show ?thesis
    unfolding start_remote_native_queue_item_def Let_def
  proof (rule land_and_then [OF launched])
    fix x :: "queue_item_outcome option \<times> queue_item_row"
    obtain out i where x: "x = (out, i)" by (cases x)
    show "achieves ?I (\<lambda>s. ?T s \<and> remote_rests r a x (snd s)) (case x of (outcome, i) \<Rightarrow> case outcome of
        None \<Rightarrow> and_then (wait_for_queue_item_closeout r (remote_native_running_wait_item i (queue_agent_id i))
          (queue_agent_id i) n lease) (\<lambda>r. finish (r, i))
      | Some r \<Rightarrow> finish (r, i)) ?N"
    proof (cases out)
      case None
      have "achieves ?I (\<lambda>s. ?T s \<and> qi_id i = a) (and_then (wait_for_queue_item_closeout r
          (remote_native_running_wait_item i (queue_agent_id i)) (queue_agent_id i) n lease) (\<lambda>r. finish (r, i))) ?N"
        by (rule land_pure, rule waits)
      with None show ?thesis by (simp add: x)
    qed (auto simp: x intro: land_finish)
  qed
qed

text \<open>
  How many retries are left, and what a round of the launch loop promises: its end leaves the item
  at rest, and its repetition has used up a retry or a sleep.
\<close>

definition retries_left :: "int \<Rightarrow> nat" where
  "retries_left n = nat (3 - n)"

abbreviation round_rests :: "string \<Rightarrow> string \<Rightarrow> nat \<Rightarrow> launch_decision \<Rightarrow> clock \<times> qdb \<Rightarrow> bool" where
  "round_rests r a k d s \<equiv> (case d of
     LaunchEnds out \<Rightarrow> item_at_rest r a (snd s)
   | LaunchAgain j n \<Rightarrow> qi_id j = a \<and> 0 \<le> n \<and> sleeps_left (fst s) + retries_left n < k)"

lemma retry_index_small: "0 \<le> n \<Longrightarrow> retry_index n < length web_queue_retry_delays \<Longrightarrow> retries_left (n + 1) < retries_left n"
  by (auto simp: retry_index_def web_queue_retry_delays_def retries_left_def)

lemma outcome_rest:
  assumes "qi_id i = a" and "0 \<le> n"
  shows "achieves (watch r a)
     (\<lambda>s. launch_rests r a out (snd s) \<and> sleeps_left (fst s) + retries_left n \<le> k)
     (handle_queue_launch_outcome r i n out) (landing (round_rests r a k))"
proof -
  let ?I = "watch r a" and ?T = "\<lambda>s :: clock \<times> qdb. sleeps_left (fst s) + retries_left n \<le> k"
  let ?N = "landing (round_rests r a k)"
  have now: "achieves ?I ?T (act (\<lambda>W. retry_launch_now W r i n m)) ?N"
    if "retry_index n < length web_queue_retry_delays" for m
    by (rule land_mono [OF land_act_True [where C = "\<lambda>c. sleeps_left c + retries_left n \<le> k", OF again_now]])
       (use assms retry_index_small [OF assms(2) that] in auto)
  have later: "achieves ?I ?T (and_then (act (\<lambda>W. schedule_launch_retry W r i n m)) (\<lambda>(delay, j).
      and_then (sleep_queue_retry r (qi_id j) delay) (\<lambda>go_on.
        finish (if go_on then LaunchAgain j (n + 1) else LaunchEnds OutStopped)))) ?N"
    if small: "retry_index n < length web_queue_retry_delays" for m
  proof (rule land_and_then, rule land_act_True, rule rests_schedule_retry)
    fix x :: "nat \<times> queue_item_row"
    obtain delay j where x: "x = (delay, j)" by (cases x)
    have "achieves ?I (\<lambda>s. (?T s \<and> item_at_rest r a (snd s)) \<and> qi_id j = a)
        (and_then (sleep_queue_retry r (qi_id j) delay) (\<lambda>go_on.
          finish (if go_on then LaunchAgain j (n + 1) else LaunchEnds OutStopped))) ?N"
    proof (rule land_pure)
      assume j: "qi_id j = a"
      have "achieves ?I (\<lambda>s. ?T s \<and> item_at_rest r a (snd s)) (sleep_queue_retry r a delay)
          (landing (\<lambda>_ s. sleeps_left (fst s) \<le> k - retries_left n \<and> item_at_rest r a (snd s) \<and> retries_left n \<le> k))"
        by (cases "retries_left n \<le> k")
           (rule land_mono [OF sleep_rest [where k = "k - retries_left n"]], auto simp: achieves_def)
      then show "achieves ?I (\<lambda>s. ?T s \<and> item_at_rest r a (snd s)) (and_then (sleep_queue_retry r (qi_id j) delay)
          (\<lambda>go_on. finish (if go_on then LaunchAgain j (n + 1) else LaunchEnds OutStopped))) ?N"
        unfolding j
        by (rule land_and_then) (rule land_finish, use assms retry_index_small [OF assms(2) small] j in auto)
    qed
    then show "achieves ?I (\<lambda>s. ?T s \<and> (case x of (delay, j) \<Rightarrow> \<lambda>db. qi_id j = qi_id i \<and> item_at_rest r (qi_id i) db) (snd s))
        (case x of (delay, j) \<Rightarrow> and_then (sleep_queue_retry r (qi_id j) delay) (\<lambda>go_on.
          finish (if go_on then LaunchAgain j (n + 1) else LaunchEnds OutStopped))) ?N"
      by (simp add: x assms(1)) (erule land_mono, auto)
  qed
  have give_up: "achieves ?I ?T (act (\<lambda>W. seq (update_web_queue_item (qw_store W) r (qi_id i) ItemFailed m agent n None)
      (ret (LaunchEnds (OutFailed m False))))) ?N" for m agent
  proof (rule land_mono [OF land_act_True [where C = "\<lambda>c. sleeps_left c + retries_left n \<le> k"]])
    show "achieves schema_ok (\<lambda>_. True) (seq (update_web_queue_item (qw_store W) r (qi_id i) ItemFailed m agent n None)
        (ret (LaunchEnds (OutFailed m False)))) (\<lambda>d db. (\<exists>o'. d = LaunchEnds o') \<and> item_at_rest r a db)" for W :: queue_world
      by (rule achieves_bnd, rule rests_writes, rule achieves_ret) (simp add: assms(1))
  qed auto
  show ?thesis
  proof (cases "retryable out")
    case True
    then obtain m where out: "out = OutFailed m True" by (auto simp: retryable_def)
    have "achieves ?I ?T (handle_queue_launch_outcome r i n out) ?N"
      unfolding handle_queue_launch_outcome_def out queue_item_outcome.case bool.case
      by (rule achieves_if, rule achieves_if, rule now, assumption, rule later, assumption, rule give_up)
    then show ?thesis by (rule land_mono) auto
  next
    case False
    then have "handle_queue_launch_outcome r i n out = finish (LaunchEnds out)"
      by (cases out) (auto simp: handle_queue_launch_outcome_def retryable_def split: bool.split)
    then show ?thesis using False by (auto intro: land_finish)
  qed
qed

lemma launch_round_rest:
  assumes "qi_id item = a" and "0 \<le> n"
  shows "achieves (watch r a) (\<lambda>s. sleeps_left (fst s) + retries_left n \<le> k) (launch_round r item n lease)
     (landing (round_rests r a k))"
proof -
  let ?I = "watch r a" and ?T = "\<lambda>s :: clock \<times> qdb. sleeps_left (fst s) + retries_left n \<le> k"
  let ?N = "landing (round_rests r a k)" and ?k = "k - retries_left n"
  have pause: "achieves ?I P (and_then (act (\<lambda>W. pause_web_queue_item W r i None m)) (\<lambda>_. finish (LaunchEnds OutStopped))) ?N"
    if "qi_id i = a" for i m P
  proof (rule land_and_then)
    show "achieves ?I P (act (\<lambda>W. pause_web_queue_item W r i None m)) (landing (\<lambda>_ s. item_at_rest r a (snd s)))"
      by (rule land_mono [OF land_act_True [where C = "\<lambda>_. True", OF rests_paused [where i = i]]]) (simp_all add: that)
  qed (rule land_finish, simp)
  have ready: "achieves ?I ?T (and_then (act (\<lambda>W. announce_start W r i n m)) (\<lambda>_.
      and_then (start_web_queue_item r i n lease) (\<lambda>out. handle_queue_launch_outcome r i n out))) ?N"
    if i: "qi_id i = a" for i m
  proof (rule land_and_then, rule land_act_keeps, unfold announce_start_def, intro keeps_intro, rule land_and_then)
    show "achieves ?I ?T (start_web_queue_item r i n lease)
        (landing (\<lambda>out s. launch_rests r a out (snd s) \<and> ?T s))"
      unfolding i [symmetric]
      by (cases "retries_left n \<le> k") (rule land_mono [OF start_rest [where k = ?k]], auto simp: achieves_def)
  qed (rule outcome_rest [OF i assms(2)])
  have remote: "achieves ?I ?T (and_then (act (\<lambda>W. announce_start W r item n m)) (\<lambda>_.
      and_then (start_remote_native_queue_item r item n lease) (\<lambda>(out, i). handle_queue_launch_outcome r i n out))) ?N" for m
  proof (rule land_and_then, rule land_act_keeps, unfold announce_start_def, intro keeps_intro, rule land_and_then)
    show "achieves ?I ?T (start_remote_native_queue_item r item n lease)
        (landing (\<lambda>x s. (launch_rests r a (fst x) (snd s) \<and> ?T s) \<and> qi_id (snd x) = a))"
      by (cases "retries_left n \<le> k")
         (rule land_mono [OF remote_start_rest [OF assms(1), where k = ?k]], auto simp: achieves_def)
    fix x :: "queue_item_outcome \<times> queue_item_row"
    show "achieves ?I (\<lambda>s. (launch_rests r a (fst x) (snd s) \<and> ?T s) \<and> qi_id (snd x) = a)
        (case x of (out, i) \<Rightarrow> handle_queue_launch_outcome r i n out) ?N"
      by (cases x) (simp only: prod.case fst_conv snd_conv, rule land_pure, rule outcome_rest [OF _ assms(2)])
  qed
  have waits: "achieves ?I (\<lambda>s. ?T s \<and> item_at_rest r a (snd s) \<and> \<not> web_queue_item_retry_awakened r a (snd s))
      (and_then (sleep_queue_retry r (qi_id i) delay) (\<lambda>go_on. if go_on then finish (LaunchAgain i n)
         else and_then (act (\<lambda>W. pause_web_queue_item W r i None n)) (\<lambda>_. finish (LaunchEnds OutStopped)))) ?N"
    if i: "qi_id i = a" "0 < delay" for i delay
  proof (rule land_and_then)
    show "achieves ?I (\<lambda>s. ?T s \<and> item_at_rest r a (snd s) \<and> \<not> web_queue_item_retry_awakened r a (snd s))
        (sleep_queue_retry r (qi_id i) delay) (landing (\<lambda>go_on s. go_on \<longrightarrow> sleeps_left (fst s) + retries_left n < k))"
      unfolding i(1)
      by (cases "retries_left n \<le> k") (rule land_mono [OF sleep_first [OF i(2), where k = ?k]], auto simp: achieves_def)
  qed (rule achieves_if, rule land_finish, simp add: i assms(2), rule pause [OF i(1)])
  have choice: "achieves ?I (\<lambda>s. ?T s \<and> choice_rests r a c (snd s)) (case c of
      CommandUnknown out \<Rightarrow> finish (LaunchEnds out)
    | CommandWaits i delay \<Rightarrow> and_then (sleep_queue_retry r (qi_id i) delay) (\<lambda>go_on. if go_on then finish (LaunchAgain i n)
         else and_then (act (\<lambda>W. pause_web_queue_item W r i None n)) (\<lambda>_. finish (LaunchEnds OutStopped)))
    | CommandReady i \<Rightarrow> and_then (act (\<lambda>W. announce_start W r i n ''starting clean agent context'')) (\<lambda>_.
         and_then (start_web_queue_item r i n lease) (\<lambda>out. handle_queue_launch_outcome r i n out))) ?N" for c
  proof (cases c)
    case (CommandReady i)
    show ?thesis unfolding CommandReady command_choice.case by (rule land_pure, rule ready)
  next
    case (CommandWaits i delay)
    show ?thesis
      unfolding CommandWaits command_choice.case
      by (cases "qi_id i = a \<and> 0 < delay") (rule land_mono [OF waits], auto simp: achieves_def)
  qed (auto intro: land_finish)
  show ?thesis
    unfolding launch_round_def
    by (rule land_and_then, rule land_act_keeps, intro keeps_intro, rule achieves_if, rule pause [OF assms(1)],
        rule land_and_then, rule land_act_keeps, intro keeps_intro, rule achieves_if, rule remote,
        rule land_and_then, rule land_act_True, rule rests_choose [where item = item, unfolded assms(1)], rule choice)
qed

lemma launch_loop_rest:
  assumes "qi_id i = a" and "0 \<le> n"
  shows "achieves (watch r a) (\<lambda>s. sleeps_left (fst s) + retries_left n < m) (launch_loop m r i n lease)
     (landing (\<lambda>_ s. item_at_rest r a (snd s)))"
  using assms
proof (induction m arbitrary: i n)
  case (Suc m)
  show ?case
    unfolding launch_loop.simps
  proof (rule land_and_then)
    show "achieves (watch r a) (\<lambda>s. sleeps_left (fst s) + retries_left n < Suc m) (launch_round r i n lease)
        (landing (round_rests r a m))"
      by (rule land_mono [OF launch_round_rest [OF Suc.prems, where k = m]]) auto
    fix d
    show "achieves (watch r a) (round_rests r a m d) (case d of
        LaunchEnds out \<Rightarrow> finish out | LaunchAgain j n' \<Rightarrow> launch_loop m r j n' lease)
        (landing (\<lambda>_ s. item_at_rest r a (snd s)))"
    proof (cases d)
      case (LaunchAgain j n')
      have "achieves (watch r a) (\<lambda>s. sleeps_left (fst s) + retries_left n' < m \<and> (qi_id j = a \<and> 0 \<le> n'))
          (launch_loop m r j n' lease) (landing (\<lambda>_ s. item_at_rest r a (snd s)))"
        by (rule land_pure, rule Suc.IH) simp_all
      then show ?thesis unfolding LaunchAgain launch_decision.case by (rule land_mono) auto
    qed (auto intro: land_finish)
  qed
qed (simp add: achieves_def)

lemma launch_item_rest:
  "achieves (watch r (qi_id i)) (\<lambda>_. True) (launch_queue_item r i lease) (landing (\<lambda>_ s. item_at_rest r (qi_id i) (snd s)))"
proof -
  let ?n = "max (qi_attempts i) 0"
  have "launch_queue_item r i lease s = launch_loop (launch_fuel (fst s)) r i ?n lease s" for s
    by (cases s) (simp add: launch_queue_item_def del: launch_loop.simps)
  moreover have "sleeps_left (fst s) + retries_left ?n < launch_fuel (fst s)" for s :: "clock \<times> qdb"
    by (simp add: launch_fuel_def retries_left_def web_queue_retry_delays_def)
  ultimately show ?thesis
    using launch_loop_rest [OF refl, of ?n r i _ lease] unfolding achieves_def by (metis max.cobounded2)
qed

lemma run_item_rest:
  "achieves (watch r (qi_id item)) (\<lambda>_. True) (run_web_queue_item_with_lease r item lease)
     (landing (\<lambda>_ s. item_at_rest r (qi_id item) (snd s)))"
proof -
  let ?a = "qi_id item" and ?I = "watch r (qi_id item)"
  let ?N = "landing (\<lambda>_ s. item_at_rest r ?a (snd s))"
  have resumed: "achieves ?I (\<lambda>_. True) (and_then (act (\<lambda>W. queue_item_resume W r i)) (\<lambda>p. case p of
      ResumeEnds out \<Rightarrow> finish out
    | ResumeWaits j agent \<Rightarrow> wait_for_queue_item_closeout r j agent (qi_attempts i) lease
    | ResumeLaunches \<Rightarrow> launch_queue_item r i lease)) ?N" if i: "qi_id i = ?a" for i
  proof (rule land_and_then)
    show "achieves ?I (\<lambda>_. True) (act (\<lambda>W. queue_item_resume W r i)) (landing (\<lambda>p s. resumption_rests r ?a p (snd s)))"
      by (rule land_mono [OF land_act_True [where C = "\<lambda>_. True", OF rests_resume [where i = i, unfolded i]]]) simp_all
    fix p
    show "achieves ?I (\<lambda>s. resumption_rests r ?a p (snd s)) (case p of ResumeEnds out \<Rightarrow> finish out
      | ResumeWaits j agent \<Rightarrow> wait_for_queue_item_closeout r j agent (qi_attempts i) lease
      | ResumeLaunches \<Rightarrow> launch_queue_item r i lease) ?N"
    proof (cases p)
      case (ResumeWaits j agent)
      have "achieves ?I (\<lambda>s. True \<and> qi_id j = ?a) (wait_for_queue_item_closeout r j agent (qi_attempts i) lease) ?N"
      proof (rule land_pure)
        assume j: "qi_id j = ?a"
        show "achieves ?I (\<lambda>_. True) (wait_for_queue_item_closeout r j agent (qi_attempts i) lease) ?N"
          using wait_rest [of r j _ agent "qi_attempts i" lease] unfolding j achieves_def landing_def
          by (metis (no_types, lifting) option.case_eq_if order_refl)
      qed
      with ResumeWaits show ?thesis by simp
    qed (use launch_item_rest [of r i lease] in \<open>auto simp: i intro: land_finish\<close>)
  qed
  show ?thesis
    unfolding run_web_queue_item_with_lease_def
  proof (rule land_and_then)
    show "achieves ?I (\<lambda>_. True) (act (\<lambda>W. queue_item_preflight W r item))
        (landing (\<lambda>x s. (fst x \<noteq> None \<longrightarrow> item_at_rest r ?a (snd s)) \<and> qi_id (snd x) = ?a))"
      by (rule land_mono [OF land_act_True [where C = "\<lambda>_. True", OF rests_preflight]])
         (auto simp: item_world_keeps_def)
    fix x :: "queue_item_outcome option \<times> queue_item_row"
    obtain out i where x: "x = (out, i)" by (cases x)
    show "achieves ?I (\<lambda>s. (fst x \<noteq> None \<longrightarrow> item_at_rest r ?a (snd s)) \<and> qi_id (snd x) = ?a)
        (case x of (outcome, i) \<Rightarrow> case outcome of
          None \<Rightarrow> and_then (act (\<lambda>W. queue_item_resume W r i)) (\<lambda>resumption. case resumption of
              ResumeEnds r \<Rightarrow> finish r
            | ResumeWaits j agent_id \<Rightarrow> wait_for_queue_item_closeout r j agent_id (qi_attempts i) lease
            | ResumeLaunches \<Rightarrow> launch_queue_item r i lease)
        | Some r \<Rightarrow> finish r) ?N"
    proof (rule land_pure)
      assume "qi_id (snd x) = ?a"
      then show "achieves ?I (\<lambda>s. fst x \<noteq> None \<longrightarrow> item_at_rest r ?a (snd s))
        (case x of (outcome, i) \<Rightarrow> case outcome of
          None \<Rightarrow> and_then (act (\<lambda>W. queue_item_resume W r i)) (\<lambda>resumption. case resumption of
              ResumeEnds r \<Rightarrow> finish r
            | ResumeWaits j agent_id \<Rightarrow> wait_for_queue_item_closeout r j agent_id (qi_attempts i) lease
            | ResumeLaunches \<Rightarrow> launch_queue_item r i lease)
        | Some r \<Rightarrow> finish r) ?N"
        using resumed [of i] by (cases out) (auto simp: x intro: land_finish)
    qed
  qed
qed

definition lease_given_back :: "queue_worker_lease \<Rightarrow> qdb \<Rightarrow> bool" where
  "lease_given_back lease db =
     (\<forall>l \<in> set (db_leases db). token_key lease l \<longrightarrow> ql_owner_id l \<noteq> Some (lease_owner_id lease))"

lemma keeps_rest_release: "keeps (item_at_rest r a) (release_web_queue_item_worker_lease now t)"
  by (rule keeps_lease_operations) (simp add: item_at_rest_def find_item_def)

lemma run_give_back:
  assumes "schema_ok db"
  shows "\<exists>db'. give_back_lease lease ((W, ts), db) = (Inr (Some ()), ((W, ts), db')) \<and> lease_given_back lease db' \<and>
    (item_at_rest r a db \<longrightarrow> item_at_rest r a db')"
proof -
  let ?db = "snd (release_web_queue_item_worker_lease (qw_now W) lease db)"
  have "give_back_lease lease ((W, ts), db) = (Inr (Some ()), ((W, ts), ?db))"
    using assms by (simp add: give_back_lease_def and_then_def run_bnd act_def caught_def run_release finish_def)
  moreover have "lease_given_back lease ?db"
    using assms by (auto simp: lease_given_back_def run_release update_where_def token_key_def split: if_splits)
  moreover have "item_at_rest r a ?db" if "item_at_rest r a db"
    using keeps_rest_release that unfolding keeps_def by blast
  ultimately show ?thesis by blast
qed


definition sample_lease :: queue_worker_lease where
  "sample_lease = \<lparr>lease_run_id = ''r1'', lease_item_id = ''a'', lease_owner_id = ''pid:1:r1:a'', lease_lease_epoch = 1,
     lease_acquired_at = 50, lease_heartbeat_at = 50, lease_expires_at = 170, lease_recovered_stale = False\<rparr>"

lemma sample_clock_keeps: "clock_keeps I (sample_world, [(sample_world, id), (sample_world, id)])"
  by (simp add: item_world_keeps_def sample_world_keeps starts_keep_def) (simp add: sample_world_def sample_launch_def)


end
