(* ===== verification/Queue_Execution.thy ===== *)
theory Queue_Execution
  imports Queue_System Item_Worker_End
begin

text \<open>
  Executions of the queue: requests of the operator, reconciliations, the threads of the runs and the
  threads of the items, in any order and interleaved at every sleep. A thread is kept with what it has
  seen so far: where it started and, for each sleep, the world and the database it woke up to. Its
  next part is what it writes with one more such entry. Starting a thread is possible at any time,
  so that the executions include those in which a lease or the set of running threads prevents it.
\<close>

section \<open>The state of an execution\<close>

record run_thread =
  rt_run :: string
  rt_world :: queue_world
  rt_start :: qdb
  rt_rounds :: "round list"

record item_thread =
  it_run :: string
  it_item :: queue_item_row
  it_lease :: queue_worker_lease
  it_world :: queue_world
  it_start :: qdb
  it_ticks :: "round list"

record queue_system =
  sy_db :: qdb
  sy_runs :: "run_thread list"
  sy_items :: "item_thread list"

definition woken :: "queue_world \<Rightarrow> qdb \<Rightarrow> round" where
  "woken W db = (W, \<lambda>_. db)"

text \<open>What the database is after the last part of a thread.\<close>

definition run_thread_writes :: "run_thread \<Rightarrow> qdb" where
  "run_thread_writes t = snd (web_queue_worker_thread (rt_world t) (rt_rounds t) (rt_run t) (rt_start t))"

definition item_thread_writes :: "item_thread \<Rightarrow> qdb" where
  "item_thread_writes t = snd (snd (queue_item_worker_thread (it_run t) (it_item t) (it_lease t)
     ((it_world t, it_ticks t), it_start t)))"

definition run_thread_at_work :: "run_thread \<Rightarrow> bool" where
  "run_thread_at_work t =
     (fst (web_queue_worker_thread (rt_world t) (rt_rounds t) (rt_run t) (rt_start t)) = Inr False)"

definition item_thread_at_work :: "item_thread \<Rightarrow> bool" where
  "item_thread_at_work t =
     (fst (queue_item_worker_thread (it_run t) (it_item t) (it_lease t) ((it_world t, it_ticks t), it_start t)) = Inr None)"

text \<open>
  The processes and files a thread observes do not write the tables of the queue: synchronising task
  records and starting agents writes task records, their counters and agent records.
\<close>

definition spares_queue :: "(qdb \<Rightarrow> qdb) \<Rightarrow> bool" where
  "spares_queue f = (\<forall>db. (schema_ok db \<longrightarrow> schema_ok (f db)) \<and>
     (\<exists>ts cs gs. f db = db\<lparr>db_tasks := ts, db_counters := cs, db_agents := gs\<rparr>))"

definition proper_world :: "queue_world \<Rightarrow> bool" where
  "proper_world W = (spares_queue (qw_sync_sessions W) \<and>
     (\<forall>repo launcher legacy. spares_queue (\<lambda>db. snd (qw_sync_process W repo launcher legacy db))) \<and>
     (\<forall>a cwd track cmd. spares_queue (\<lambda>db. snd (lv_start_agent (qw_launch W) a cwd track cmd db))))"

section \<open>Steps\<close>

inductive system_step :: "queue_system \<Rightarrow> queue_system \<Rightarrow> bool" where
  request: "proper_world (aw_world A) \<Longrightarrow>
    system_step S (S\<lparr>sy_db := snd (serve_queue_api A req (sy_db S))\<rparr>)"
| reconcile: "proper_world W \<Longrightarrow>
    system_step S (S\<lparr>sy_db := snd (reconcile_stale_web_queue_run W ws (sy_db S))\<rparr>)"
| run_starts: "proper_world W \<Longrightarrow> t = \<lparr>rt_run = r, rt_world = W, rt_start = sy_db S, rt_rounds = []\<rparr> \<Longrightarrow>
    system_step S (S\<lparr>sy_db := run_thread_writes t, sy_runs := t # sy_runs S\<rparr>)"
| run_goes_on: "proper_world W \<Longrightarrow> sy_runs S = before @ t # after \<Longrightarrow> run_thread_at_work t \<Longrightarrow>
    t' = t\<lparr>rt_rounds := rt_rounds t @ [woken W (sy_db S)]\<rparr> \<Longrightarrow>
    system_step S (S\<lparr>sy_db := run_thread_writes t', sy_runs := before @ t' # after\<rparr>)"
| item_starts: "proper_world W \<Longrightarrow>
    t = \<lparr>it_run = r, it_item = i, it_lease = lease, it_world = W, it_start = sy_db S, it_ticks = []\<rparr> \<Longrightarrow>
    system_step S (S\<lparr>sy_db := item_thread_writes t, sy_items := t # sy_items S\<rparr>)"
| item_goes_on: "proper_world W \<Longrightarrow> sy_items S = before @ t # after \<Longrightarrow> item_thread_at_work t \<Longrightarrow>
    t' = t\<lparr>it_ticks := it_ticks t @ [woken W (sy_db S)]\<rparr> \<Longrightarrow>
    system_step S (S\<lparr>sy_db := item_thread_writes t', sy_items := before @ t' # after\<rparr>)"

definition initial_system :: "nat \<Rightarrow> queue_system" where
  "initial_system now = \<lparr>sy_db = snd (ensure_default_web_queue_tab now empty_db), sy_runs = [], sy_items = []\<rparr>"

inductive reachable_system :: "queue_system \<Rightarrow> bool" where
  opened: "reachable_system (initial_system now)"
| stepped: "reachable_system S \<Longrightarrow> system_step S S' \<Longrightarrow> reachable_system S'"

inductive_cases system_stepE: "system_step S S'"

section \<open>Invariants of executions\<close>

text \<open>What a thread has seen satisfies the invariant, and so does the database.\<close>

definition seen :: "(qdb \<Rightarrow> bool) \<Rightarrow> round list \<Rightarrow> bool" where
  "seen I ts = (\<forall>(W, others) \<in> set ts. proper_world W \<and> (\<forall>db. I db \<longrightarrow> I (others db)))"

definition threads_fine :: "(qdb \<Rightarrow> bool) \<Rightarrow> queue_system \<Rightarrow> bool" where
  "threads_fine I S = (I (sy_db S) \<and>
     (\<forall>t \<in> set (sy_runs S). I (rt_start t) \<and> seen I (rt_rounds t)) \<and>
     (\<forall>t \<in> set (sy_items S). proper_world (it_world t) \<and> I (it_start t) \<and> seen I (it_ticks t)))"

lemma seen_woken: "seen I ts \<Longrightarrow> proper_world W \<Longrightarrow> I db \<Longrightarrow> seen I (ts @ [woken W db])"
  by (auto simp: seen_def woken_def)

lemma proper_spares_items:
  assumes "proper_world W"
  shows "sync_spares_items W"
proof -
  have "db_items (snd (qw_sync_process W repo launcher legacy db)) = db_items db" for repo launcher legacy db
  proof -
    have "spares_queue (\<lambda>db. snd (qw_sync_process W repo launcher legacy db))"
      using assms by (simp add: proper_world_def)
    then obtain ts cs gs where "snd (qw_sync_process W repo launcher legacy db) =
        db\<lparr>db_tasks := ts, db_counters := cs, db_agents := gs\<rparr>"
      unfolding spares_queue_def by blast
    then show ?thesis by simp
  qed
  then show ?thesis by (simp add: sync_spares_items_def sync_keeps_def)
qed

lemma on_clock_second: "on_clock I s \<Longrightarrow> I (snd s)"
  by (cases s) simp

locale system_invariant = queue_invariant I + item_worker_invariant I for I :: "qdb \<Rightarrow> bool" +
  assumes ignores: "I db \<Longrightarrow> schema_ok (db\<lparr>db_tasks := ts, db_counters := cs, db_agents := gs\<rparr>) \<Longrightarrow>
      I (db\<lparr>db_tasks := ts, db_counters := cs, db_agents := gs\<rparr>)"
    and valid: "I db \<Longrightarrow> schema_ok db"
    and holds_first: "I (snd (ensure_default_web_queue_tab now empty_db))"
begin

lemma spares_keeps: "spares_queue f \<Longrightarrow> I db \<Longrightarrow> I (f db)"
  unfolding spares_queue_def using ignores valid by metis

lemma proper_keeps:
  assumes "proper_world W"
  shows "item_world_keeps I W"
proof -
  have "I (qw_sync_sessions W db)" "I (snd (qw_sync_process W repo launcher legacy db))"
      "I (snd (lv_start_agent (qw_launch W) a cwd track cmd db))" if "I db" for db repo launcher legacy a cwd track cmd
    using assms spares_keeps [OF _ that, of "qw_sync_sessions W"]
      spares_keeps [OF _ that, of "\<lambda>db. snd (qw_sync_process W repo launcher legacy db)"]
      spares_keeps [OF _ that, of "\<lambda>db. snd (lv_start_agent (qw_launch W) a cwd track cmd db)"]
    by (simp_all add: proper_world_def)
  then show ?thesis
    by (simp add: item_world_keeps_def world_keeps_def sync_keeps_def starts_keep_def)
qed

lemma proper_world_keeps: "proper_world W \<Longrightarrow> world_keeps I W"
  using proper_keeps by (simp add: item_world_keeps_def)

lemma run_writes_fine:
  assumes "I (rt_start t)" and "seen I (rt_rounds t)"
  shows "I (run_thread_writes t)"
proof -
  have "\<forall>(W, others) \<in> set (rt_rounds t). world_keeps I W \<and> (\<forall>db. I db \<longrightarrow> I (others db))"
    using assms(2) proper_world_keeps by (auto simp: seen_def)
  from keeps_thread [OF this] assms(1) show ?thesis by (simp add: run_thread_writes_def keeps_def)
qed

lemma item_writes_fine:
  assumes "proper_world (it_world t)" and "I (it_start t)" and "seen I (it_ticks t)"
  shows "I (item_thread_writes t)"
proof -
  have "on_clock I ((it_world t, it_ticks t), it_start t)"
    using assms proper_keeps by (auto simp: seen_def)
  then have "on_clock I (snd (queue_item_worker_thread (it_run t) (it_item t) (it_lease t)
      ((it_world t, it_ticks t), it_start t)))"
    using keeps_item_thread [of "it_run t" "it_item t" "it_lease t"] unfolding keeps_def by blast
  then show ?thesis unfolding item_thread_writes_def by (rule on_clock_second)
qed

lemma step_fine:
  assumes "system_step S S'" and "threads_fine I S"
  shows "threads_fine I S'"
  using assms
proof (induction rule: system_step.induct)
  case (request A S req)
  then have "keeps I (serve_queue_api A req)"
    by (intro keeps_api proper_world_keeps proper_spares_items)
  with request.prems show ?case by (simp add: threads_fine_def keeps_def)
next
  case (reconcile W S ws)
  then have "keeps I (reconcile_stale_web_queue_run W ws)"
    by (intro keeps_reconcile_stale proper_world_keeps)
  with reconcile.prems show ?case by (simp add: threads_fine_def keeps_def)
next
  case (run_starts W t r S)
  then have "I (run_thread_writes t)" by (intro run_writes_fine) (simp_all add: threads_fine_def seen_def)
  with run_starts show ?case by (simp add: threads_fine_def seen_def)
next
  case (run_goes_on W S before t after t')
  then have "I (rt_start t')" "seen I (rt_rounds t')"
    by (simp_all add: threads_fine_def seen_woken)
  moreover from this have "I (run_thread_writes t')" by (rule run_writes_fine)
  ultimately show ?case using run_goes_on.prems run_goes_on.hyps(2) by (simp add: threads_fine_def)
next
  case (item_starts W t r i lease S)
  then have "I (item_thread_writes t)" by (intro item_writes_fine) (simp_all add: threads_fine_def seen_def)
  with item_starts show ?case by (simp add: threads_fine_def seen_def)
next
  case (item_goes_on W S before t after t')
  then have "proper_world (it_world t')" "I (it_start t')" "seen I (it_ticks t')"
    by (simp_all add: threads_fine_def seen_woken)
  moreover from this have "I (item_thread_writes t')" by (rule item_writes_fine)
  ultimately show ?case using item_goes_on.prems item_goes_on.hyps(2) by (simp add: threads_fine_def)
qed

lemma reachable_fine: "reachable_system S \<Longrightarrow> threads_fine I S"
proof (induction rule: reachable_system.induct)
  case (opened now)
  show ?case using holds_first by (simp add: initial_system_def threads_fine_def)
qed (rule step_fine)

lemma reachable_keeps: "reachable_system S \<Longrightarrow> I (sy_db S)"
  using reachable_fine by (simp add: threads_fine_def)

end

section \<open>The queue stays consistent\<close>

lemma tabs_start_empty: "tabs_start empty_db"
  by (simp add: tabs_start_def empty_db_def)

lemma first_database:
  "tabs_inv (snd (ensure_default_web_queue_tab now empty_db))"
  "lease_inv (snd (ensure_default_web_queue_tab now empty_db))"
  "graphs_acyclic (snd (ensure_default_web_queue_tab now empty_db))"
proof -
  obtain db where "ensure_default_web_queue_tab now empty_db = (Inr (), db)" "tabs_inv db"
    using ensure_default_web_queue_tab_repairs [OF schema_ok_empty_db tabs_start_empty] by blast
  then show "tabs_inv (snd (ensure_default_web_queue_tab now empty_db))" by simp
  have "lease_inv empty_db" "graphs_acyclic empty_db"
    using schema_ok_empty_db
    by (simp_all add: lease_inv_def leases_match_def graphs_acyclic_def items_of_run_def empty_db_def
        graph_edges_def acyclic_def)
  with kept_lease_inv.tabs_ready kept_graphs.tabs_ready
  show "lease_inv (snd (ensure_default_web_queue_tab now empty_db))"
    "graphs_acyclic (snd (ensure_default_web_queue_tab now empty_db))"
    by (simp_all add: keeps_def)
qed

interpretation system_tabs: system_invariant tabs_inv
  by unfold_locales (rule first_database | erule tabs_inv_schema | erule tabs_inv_other; simp)+

interpretation system_leases: system_invariant lease_inv
  by unfold_locales (rule first_database | erule lease_inv_schema | erule lease_inv_other; simp)+

lemma graphs_acyclic_other:
  "graphs_acyclic db \<Longrightarrow> schema_ok db' \<Longrightarrow> db_items db' = db_items db \<Longrightarrow> graphs_acyclic db'"
  by (simp add: graphs_acyclic_def items_of_run_def)

lemma graphs_acyclic_schema: "graphs_acyclic db \<Longrightarrow> schema_ok db"
  by (simp add: graphs_acyclic_def)

interpretation system_graphs: system_invariant graphs_acyclic
  by unfold_locales
     (rule first_database | erule graphs_acyclic_schema | erule graphs_acyclic_other; simp
      | intro keeps_heartbeat_at keeps_upsert; (erule graphs_acyclic_schema | erule graphs_acyclic_other; simp))+


lemma spares_nothing: "spares_queue (\<lambda>db. db)"
  unfolding spares_queue_def
proof (intro allI conjI impI)
  fix db :: qdb
  show "\<exists>ts cs gs. db = db\<lparr>db_tasks := ts, db_counters := cs, db_agents := gs\<rparr>"
    by (intro exI [of _ "db_tasks db"] exI [of _ "db_counters db"] exI [of _ "db_agents db"]) simp
qed

lemma sample_world_proper: "proper_world sample_world"
  by (simp add: proper_world_def sample_world_def sample_launch_def spares_nothing id_def)

text \<open>An execution: a database is opened, a thread of a run starts, and one of an item.\<close>

definition sample_run_thread :: run_thread where
  "sample_run_thread = \<lparr>rt_run = ''r1'', rt_world = sample_world, rt_start = sy_db (initial_system 1), rt_rounds = []\<rparr>"

definition sample_item_thread :: item_thread where
  "sample_item_thread = \<lparr>it_run = ''r1'', it_item = sample_item ''a'' 0, it_lease = sample_lease,
     it_world = sample_world, it_start = run_thread_writes sample_run_thread, it_ticks = []\<rparr>"

definition sample_execution :: queue_system where
  "sample_execution = \<lparr>sy_db = item_thread_writes sample_item_thread, sy_runs = [sample_run_thread],
     sy_items = [sample_item_thread]\<rparr>"

lemma sample_execution_reachable: "reachable_system sample_execution"
proof -
  let ?S = "\<lparr>sy_db = run_thread_writes sample_run_thread, sy_runs = [sample_run_thread], sy_items = []\<rparr>"
  have "system_step (initial_system 1) ?S"
    using system_step.run_starts [OF sample_world_proper sample_run_thread_def]
    by (simp add: initial_system_def)
  then have "reachable_system ?S" by (rule reachable_system.stepped [OF reachable_system.opened])
  moreover have "system_step ?S sample_execution"
    using system_step.item_starts [OF sample_world_proper, of sample_item_thread "''r1''" "sample_item ''a'' 0" sample_lease ?S]
    by (simp add: sample_item_thread_def sample_execution_def)
  ultimately show ?thesis by (rule reachable_system.stepped)
qed


end
