(* ===== verification/Output_Guard.thy ===== *)
theory Output_Guard
  imports Queue_Launch Text_Scan
begin

text \<open>
  The output guard: commands such as \<open>grep\<close> that an agent runs go through a wrapper that withholds
  their output when it is too long. \<open>src/src/output_guard.rs\<close> prepares the wrappers and the
  environment of an agent, \<open>guard_command\<close> of \<open>src/src/lib.rs\<close> is what a wrapper runs.

  Starting the command, the file system and the environment are arguments. The two readers of a
  command are given by the chunks they read.
\<close>

section \<open>Guarded commands\<close>

record guarded_command =
  gc_command :: string
  gc_env_name :: string
  gc_real_path :: string

record output_guard_launch =
  og_bin_dir :: string
  og_qcold_path :: string
  og_real_commands :: "guarded_command list"

definition default_agent_output_guard_commands :: string where
  "default_agent_output_guard_commands = ''rg,grep,find,cat,git,unzip,zcat,jq''"

definition output_guard_disable_env :: string where
  "output_guard_disable_env = ''QCOLD_AGENT_OUTPUT_GUARD''"

definition output_guard_commands_env :: string where
  "output_guard_commands_env = ''QCOLD_AGENT_OUTPUT_GUARD_COMMANDS''"

definition output_guard_enabled_env :: string where
  "output_guard_enabled_env = ''QCOLD_OUTPUT_GUARD_ENABLED''"

definition output_guard_bin_env :: string where
  "output_guard_bin_env = ''QCOLD_OUTPUT_GUARD_BIN''"

definition output_guard_command_list_env :: string where
  "output_guard_command_list_env = ''QCOLD_OUTPUT_GUARD_COMMANDS''"

definition output_guard_qcold_env :: string where
  "output_guard_qcold_env = ''QCOLD_GUARD_QCOLD''"

definition output_guard_real_prefix :: string where
  "output_guard_real_prefix = ''QCOLD_GUARD_REAL_''"

definition name_char :: "char \<Rightarrow> bool" where
  "name_char c = (is_ascii_alphanumeric c \<or> c = CHR ''-'' \<or> c = CHR ''_'')"

definition validate_guard_command_name :: "string \<Rightarrow> string + unit" where
  "validate_guard_command_name command =
     (if command \<noteq> [] \<and> list_all name_char command then Inr ()
      else Inl (''invalid QCOLD_AGENT_OUTPUT_GUARD_COMMANDS entry '' @ debug_text command @
        ''; use bare command names containing only ASCII letters, digits, '' @
        quote_char # ''-'' @ quote_char # '' or '' @ quote_char # ''_'' @ [quote_char]))"

definition to_ascii_upper_char :: "char \<Rightarrow> char" where
  "to_ascii_upper_char c = (let n = of_char c :: nat in if 97 \<le> n \<and> n \<le> 122 then char_of (n - 32) else c)"

definition guard_real_env_name :: "nat \<Rightarrow> string \<Rightarrow> string" where
  "guard_real_env_name index command =
     ''QCOLD_GUARD_REAL_'' @ show_nat index @ ''_'' @
     map (\<lambda>c. if is_ascii_alphanumeric c then to_ascii_upper_char c else CHR ''_'') command"

definition sanitize_id :: "string \<Rightarrow> string" where
  "sanitize_id v = map (\<lambda>c. if name_char c then c else CHR ''-'') v"

definition guard_shell_quote :: "string \<Rightarrow> string" where
  "guard_shell_quote v = (if v = [] then [quote_char, quote_char] else single_quoted v)"

text \<open>The commands of a list, each once; the first invalid name is an error.\<close>

fun collect_guard_commands :: "string list \<Rightarrow> string set \<Rightarrow> string + string list" where
  "collect_guard_commands [] seen = Inr []"
| "collect_guard_commands (command # rest) seen =
     (if command = [] then collect_guard_commands rest seen
      else (case validate_guard_command_name command of
          Inl e \<Rightarrow> Inl e
        | Inr _ \<Rightarrow>
            if command \<in> seen then collect_guard_commands rest seen
            else (case collect_guard_commands rest (insert command seen) of
                Inl e \<Rightarrow> Inl e | Inr commands \<Rightarrow> Inr (command # commands))))"

definition parse_output_guard_commands :: "string \<Rightarrow> string + string list" where
  "parse_output_guard_commands raw =
     collect_guard_commands (map trim (split_when (\<lambda>c. c = CHR '','') raw)) {}"

definition output_guard_commands :: "(string \<Rightarrow> string option) \<Rightarrow> string + string list" where
  "output_guard_commands env =
     parse_output_guard_commands (case env output_guard_commands_env of
       None \<Rightarrow> default_agent_output_guard_commands | Some raw \<Rightarrow> raw)"

definition output_guard_disabled :: "(string \<Rightarrow> string option) \<Rightarrow> bool" where
  "output_guard_disabled env =
     (case env output_guard_disable_env of
        None \<Rightarrow> False
      | Some v \<Rightarrow> to_ascii_lowercase (trim v) \<in> {''0'', ''false'', ''no'', ''off''})"

definition guarded_command_list :: "output_guard_launch \<Rightarrow> string" where
  "guarded_command_list g = join_with '','' (map gc_command (og_real_commands g))"

section \<open>Preparing a launch\<close>

record guard_world =
  gw_executable :: "string \<Rightarrow> bool"
  gw_state_dir :: "string + string"
  gw_create_dir :: "string \<Rightarrow> string option"
  gw_write :: "string \<Rightarrow> string \<Rightarrow> string option"
  gw_current_exe :: "string + string"

definition inherited_dir :: "string option \<Rightarrow> string \<Rightarrow> bool" where
  "inherited_dir inherited dir = (case inherited of None \<Rightarrow> False | Some b \<Rightarrow> same_path b dir)"

definition command_path_skipping_guard_dirs ::
  "guard_world \<Rightarrow> string \<Rightarrow> string list \<Rightarrow> string option \<Rightarrow> string option" where
  "command_path_skipping_guard_dirs W command path_dirs inherited =
     find (gw_executable W) (map (\<lambda>dir. path_join dir command)
       (filter (\<lambda>dir. \<not> inherited_dir inherited dir) path_dirs))"

fun resolve_guarded_commands ::
  "guard_world \<Rightarrow> string list \<Rightarrow> string option \<Rightarrow> nat \<Rightarrow> string list \<Rightarrow> string + guarded_command list" where
  "resolve_guarded_commands W path_dirs inherited index [] = Inr []"
| "resolve_guarded_commands W path_dirs inherited index (command # rest) =
     (case validate_guard_command_name command of
        Inl e \<Rightarrow> Inl e
      | Inr _ \<Rightarrow> (case resolve_guarded_commands W path_dirs inherited (Suc index) rest of
          Inl e \<Rightarrow> Inl e
        | Inr found \<Rightarrow> (case command_path_skipping_guard_dirs W command path_dirs inherited of
            None \<Rightarrow> Inr found
          | Some real_path \<Rightarrow>
              Inr (\<lparr>gc_command = command, gc_env_name = guard_real_env_name index command,
                    gc_real_path = real_path\<rparr> # found))))"

definition wrapper_script :: "guarded_command \<Rightarrow> string" where
  "wrapper_script guarded =
     ''#!/bin/sh'' @ [CHR 0x0A] @ ''exec '' @ [CHR 0x22] @ ''$QCOLD_GUARD_QCOLD'' @ [CHR 0x22] @ '' guard -- '' @
     [CHR 0x22] @ ''$'' @ gc_env_name guarded @ [CHR 0x22] @ '' '' @ [CHR 0x22] @ ''$@'' @ [CHR 0x22, CHR 0x0A]"

definition write_output_guard_wrapper :: "guard_world \<Rightarrow> string \<Rightarrow> guarded_command \<Rightarrow> string option" where
  "write_output_guard_wrapper W bin_dir guarded =
     gw_write W (path_join bin_dir (gc_command guarded)) (wrapper_script guarded)"

definition prepare_output_guard_launch_with_paths ::
  "guard_world \<Rightarrow> string \<Rightarrow> nat \<Rightarrow> string list \<Rightarrow> string list \<Rightarrow> string option \<Rightarrow> string + output_guard_launch option" where
  "prepare_output_guard_launch_with_paths W launch_id started_at commands path_dirs inherited =
     (if commands = [] then Inr None
      else (case resolve_guarded_commands W path_dirs inherited 0 commands of
        Inl e \<Rightarrow> Inl e
      | Inr [] \<Rightarrow> Inr None
      | Inr (first # others) \<Rightarrow> (case gw_state_dir W of
          Inl e \<Rightarrow> Inl e
        | Inr dir \<Rightarrow>
            (let real_commands = first # others;
                 bin_dir = path_join (path_join dir ''guard-bin'') (sanitize_id launch_id @ ''-'' @ show_nat started_at)
             in case gw_create_dir W bin_dir of
                  Some e \<Rightarrow> Inl (''failed to create output guard bin '' @ bin_dir @ '': '' @ e)
                | None \<Rightarrow> (case find_map (write_output_guard_wrapper W bin_dir) real_commands of
                    Some e \<Rightarrow> Inl e
                  | None \<Rightarrow> (case gw_current_exe W of
                      Inl e \<Rightarrow> Inl (''failed to resolve current qcold executable: '' @ e)
                    | Inr qcold \<Rightarrow> Inr (Some \<lparr>og_bin_dir = bin_dir, og_qcold_path = qcold,
                        og_real_commands = real_commands\<rparr>)))))))"

definition prepare_output_guard_launch ::
  "guard_world \<Rightarrow> (string \<Rightarrow> string option) \<Rightarrow> string \<Rightarrow> nat \<Rightarrow> string + output_guard_launch option" where
  "prepare_output_guard_launch W env launch_id started_at =
     (if output_guard_disabled env then Inr None
      else (case output_guard_commands env of
        Inl e \<Rightarrow> Inl e
      | Inr commands \<Rightarrow> prepare_output_guard_launch_with_paths W launch_id started_at commands
          (case env ''PATH'' of None \<Rightarrow> [] | Some p \<Rightarrow> split_paths p) (env output_guard_bin_env)))"


section \<open>The environment of an agent\<close>

text \<open>What a \<open>Command\<close> is told about variables, in order; the last word about a variable counts.\<close>

datatype env_change = EnvSet string string | EnvRemove string

fun change_env :: "env_change \<Rightarrow> (string \<Rightarrow> string option) \<Rightarrow> (string \<Rightarrow> string option)" where
  "change_env (EnvSet name v) env = env(name \<mapsto> v)"
| "change_env (EnvRemove name) env = env(name := None)"

definition changed_env :: "env_change list \<Rightarrow> (string \<Rightarrow> string option) \<Rightarrow> (string \<Rightarrow> string option)" where
  "changed_env changes env = fold change_env changes env"

definition path_without_output_guard_bin :: "string \<Rightarrow> string option \<Rightarrow> string" where
  "path_without_output_guard_bin path inherited =
     (case inherited of
        None \<Rightarrow> path
      | Some b \<Rightarrow> join_paths (filter (\<lambda>dir. \<not> same_path dir b) (split_paths path)))"

definition guarded_path_value :: "string \<Rightarrow> string \<Rightarrow> string" where
  "guarded_path_value guard_bin path = (if path = [] then guard_bin else guard_bin @ '':'' @ path)"

text \<open>The variables of this process as a list of names and values.\<close>

type_synonym process_env = "(string \<times> string) list"

definition env_of :: "process_env \<Rightarrow> string \<Rightarrow> string option" where
  "env_of vars = map_of vars"

definition var_or_empty :: "process_env \<Rightarrow> string \<Rightarrow> string" where
  "var_or_empty vars name = (case env_of vars name of None \<Rightarrow> [] | Some v \<Rightarrow> v)"

definition scrub_inherited_output_guard :: "process_env \<Rightarrow> env_change list" where
  "scrub_inherited_output_guard vars =
     map EnvRemove [output_guard_enabled_env, output_guard_bin_env, output_guard_command_list_env, output_guard_qcold_env] @
     map (\<lambda>(k, _). EnvRemove k) (filter (\<lambda>(k, _). starts_with output_guard_real_prefix k) vars) @
     (case env_of vars output_guard_bin_env of
        None \<Rightarrow> []
      | Some b \<Rightarrow>
          (let path = var_or_empty vars ''PATH''; cleaned = path_without_output_guard_bin path (Some b)
           in if cleaned \<noteq> path then [EnvSet ''PATH'' cleaned] else []))"

definition guard_variables :: "output_guard_launch \<Rightarrow> env_change list" where
  "guard_variables g =
     [EnvSet output_guard_bin_env (og_bin_dir g), EnvSet output_guard_command_list_env (guarded_command_list g),
      EnvSet output_guard_qcold_env (og_qcold_path g)] @
     map (\<lambda>c. EnvSet (gc_env_name c) (gc_real_path c)) (og_real_commands g)"

definition apply_output_guard_to_command :: "process_env \<Rightarrow> output_guard_launch option \<Rightarrow> env_change list" where
  "apply_output_guard_to_command vars guard =
     scrub_inherited_output_guard vars @
     (case guard of
        None \<Rightarrow> []
      | Some g \<Rightarrow>
          EnvSet output_guard_enabled_env ''yes'' # guard_variables g @
          [EnvSet ''PATH'' (guarded_path_value (og_bin_dir g)
             (path_without_output_guard_bin (var_or_empty vars ''PATH'') (env_of vars output_guard_bin_env)))])"

definition apply_output_guard_metadata_to_command :: "output_guard_launch option \<Rightarrow> env_change list" where
  "apply_output_guard_metadata_to_command guard =
     EnvSet output_guard_enabled_env (if guard \<noteq> None then ''yes'' else ''no'') #
     (case guard of None \<Rightarrow> [] | Some g \<Rightarrow> guard_variables g)"

definition export_text :: "string \<Rightarrow> string \<Rightarrow> string" where
  "export_text name v = ''export '' @ name @ ''='' @ v @ ''; ''"

text \<open>The same for an agent in a terminal, as shell commands.\<close>

definition terminal_output_guard_env_prefix_with_path ::
  "process_env \<Rightarrow> output_guard_launch option \<Rightarrow> string option \<Rightarrow> string" where
  "terminal_output_guard_env_prefix_with_path vars guard path =
     (let inherited = env_of vars output_guard_bin_env;
          unsets = (if inherited \<noteq> None \<or> guard \<noteq> None then
              ''unset QCOLD_OUTPUT_GUARD_ENABLED QCOLD_OUTPUT_GUARD_BIN QCOLD_OUTPUT_GUARD_COMMANDS QCOLD_GUARD_QCOLD; '' @
              concat (map (\<lambda>(k, _). ''unset '' @ k @ ''; '')
                (filter (\<lambda>(k, _). starts_with output_guard_real_prefix k) vars))
            else []);
          path = (case path of None \<Rightarrow> [] | Some p \<Rightarrow> p);
          cleaned = path_without_output_guard_bin path inherited
      in unsets @
         (case guard of
            Some g \<Rightarrow>
              export_text output_guard_enabled_env ''yes'' @
              export_text output_guard_bin_env (guard_shell_quote (og_bin_dir g)) @
              export_text output_guard_command_list_env (guard_shell_quote (guarded_command_list g)) @
              export_text output_guard_qcold_env (guard_shell_quote (og_qcold_path g)) @
              concat (map (\<lambda>c. export_text (gc_env_name c) (guard_shell_quote (gc_real_path c))) (og_real_commands g)) @
              export_text ''PATH'' (guard_shell_quote (guarded_path_value (og_bin_dir g) cleaned))
          | None \<Rightarrow>
              if inherited \<noteq> None \<and> cleaned \<noteq> path then export_text ''PATH'' (guard_shell_quote cleaned) else []))"

section \<open>Running a guarded command\<close>

type_synonym byte = "8 word"

definition counted_output_lines :: "nat \<Rightarrow> nat \<Rightarrow> byte option \<Rightarrow> nat" where
  "counted_output_lines bytes newline_count last_byte =
     (if bytes = 0 then 0 else if last_byte = Some 10 then newline_count else newline_count + 1)"

record guarded_output =
  go_output :: "byte list"
  go_bytes :: nat
  go_lines :: nat

text \<open>
  A reader is given what it reads, chunk by chunk; none of them is empty. It answers what it kept and
  whether it raised the flag that the output is too long.
\<close>

fun read_chunks ::
  "nat \<Rightarrow> nat \<Rightarrow> byte list list \<Rightarrow> byte list \<Rightarrow> nat \<Rightarrow> nat \<Rightarrow> byte option \<Rightarrow> guarded_output \<times> bool" where
  "read_chunks max_bytes max_lines [] kept bytes newline_count last_byte =
     (\<lparr>go_output = kept, go_bytes = bytes, go_lines = counted_output_lines bytes newline_count last_byte\<rparr>, False)"
| "read_chunks max_bytes max_lines (chunk # rest) kept bytes newline_count last_byte =
     (let bytes = bytes + length chunk;
          newline_count = newline_count + length (filter (\<lambda>b. b = 10) chunk);
          last_byte = (if chunk = [] then None else Some (last chunk));
          kept = kept @ take (max_bytes - length kept) chunk;
          lines = counted_output_lines bytes newline_count last_byte
      in if bytes > max_bytes \<or> lines > max_lines
         then (\<lparr>go_output = kept, go_bytes = bytes, go_lines = lines\<rparr>, True)
         else read_chunks max_bytes max_lines rest kept bytes newline_count last_byte)"

definition read_guarded_output :: "nat \<Rightarrow> nat \<Rightarrow> byte list list \<Rightarrow> guarded_output \<times> bool" where
  "read_guarded_output max_bytes max_lines chunks = read_chunks max_bytes max_lines chunks [] 0 0 None"

text \<open>The numbers of the message when the output is withheld, or what is printed.\<close>

datatype guard_verdict = GuardBlocked nat nat | GuardPassed "byte list" "byte list"

definition guard_command :: "nat \<Rightarrow> nat \<Rightarrow> byte list list \<Rightarrow> byte list list \<Rightarrow> guard_verdict" where
  "guard_command max_bytes max_lines stdout_chunks stderr_chunks =
     (let (out, long_out) = read_guarded_output max_bytes max_lines stdout_chunks;
          (err, long_err) = read_guarded_output max_bytes max_lines stderr_chunks;
          bytes = go_bytes out + go_bytes err;
          lines = go_lines out + go_lines err
      in if long_out \<or> long_err \<or> bytes > max_bytes \<or> lines > max_lines then GuardBlocked bytes lines
         else GuardPassed (go_output out) (go_output err))"


section \<open>The guard withholds exactly what is too long\<close>

definition line_count :: "byte list \<Rightarrow> nat" where
  "line_count bs = counted_output_lines (length bs) (length (filter (\<lambda>b. b = 10) bs))
     (if bs = [] then None else Some (last bs))"

definition within_limits :: "nat \<Rightarrow> nat \<Rightarrow> byte list \<Rightarrow> bool" where
  "within_limits max_bytes max_lines bs = (length bs \<le> max_bytes \<and> line_count bs \<le> max_lines)"

lemma line_count_mono: "line_count p \<le> line_count (p @ q)"
proof (cases "q = []")
  case False
  then have "last q = 10 \<Longrightarrow> 1 \<le> length (filter (\<lambda>b. b = 10) q)"
    using last_in_set [OF False] by (metis (full_types) One_nat_def Suc_leI filter_empty_conv length_greater_0_conv)
  with False show ?thesis by (auto simp: line_count_def counted_output_lines_def)
qed simp

lemma within_prefix: "within_limits mb ml (p @ q) \<Longrightarrow> within_limits mb ml p"
  using line_count_mono [of p q] by (auto simp: within_limits_def)

lemma read_chunks_exact:
  assumes "[] \<notin> set chunks" and "within_limits mb ml p"
  shows "let w = p @ concat chunks; (r, long) = read_chunks mb ml chunks p (length p)
      (length (filter (\<lambda>b. b = 10) p)) (if p = [] then None else Some (last p))
    in if within_limits mb ml w then r = \<lparr>go_output = w, go_bytes = length w, go_lines = line_count w\<rparr> \<and> \<not> long
       else long \<and> (mb < go_bytes r \<or> ml < go_lines r)"
  using assms
proof (induction chunks arbitrary: p)
  case Nil
  then show ?case by (simp add: Let_def line_count_def)
next
  case (Cons chunk rest)
  let ?p = "p @ chunk"
  have chunk: "chunk \<noteq> []" "[] \<notin> set rest" using Cons.prems(1) by auto
  have last: "(if chunk = [] then None else Some (last chunk)) = (if ?p = [] then None else Some (last ?p))"
    using chunk(1) by simp
  have count: "counted_output_lines (length p + length chunk)
      (length (filter (\<lambda>b. b = 10) p) + length (filter (\<lambda>b. b = 10) chunk)) (Some (last chunk)) = line_count ?p"
    using chunk(1) by (simp add: line_count_def)
  show ?case
  proof (cases "within_limits mb ml ?p")
    case True
    then have "length chunk \<le> mb - length p" by (auto simp: within_limits_def)
    then have "take (mb - length p) chunk = chunk" by simp
    with True Cons.IH [OF chunk(2) True] count chunk(1) show ?thesis
      by (simp add: Let_def within_limits_def)
  next
    case False
    then have "\<not> within_limits mb ml (?p @ concat rest)" using within_prefix by blast
    with False count chunk(1) show ?thesis by (auto simp: Let_def within_limits_def)
  qed
qed

lemma reader_exact:
  assumes "[] \<notin> set chunks" and "read_guarded_output mb ml chunks = (r, long)"
  shows "if within_limits mb ml (concat chunks)
    then r = \<lparr>go_output = concat chunks, go_bytes = length (concat chunks), go_lines = line_count (concat chunks)\<rparr> \<and> \<not> long
    else long \<and> (mb < go_bytes r \<or> ml < go_lines r)"
proof -
  have "within_limits mb ml []" by (simp add: within_limits_def line_count_def counted_output_lines_def)
  from read_chunks_exact [OF assms(1) this] assms(2) show ?thesis
    by (simp add: read_guarded_output_def Let_def split: if_splits)
qed




section \<open>The wrapped commands\<close>

lemma collect_guard_commands_ok:
  "collect_guard_commands cs seen = Inr found \<Longrightarrow>
   set found = set cs - {[]} - seen \<and> distinct found \<and>
   (\<forall>c \<in> set found. validate_guard_command_name c = Inr ())"
proof (induction cs arbitrary: seen found)
  case Nil
  then show ?case by simp
next
  case (Cons c cs)
  show ?case
  proof (cases "c = [] \<or> c \<in> seen")
    case True
    with Cons.prems have "collect_guard_commands cs seen = Inr found"
      by (auto split: sum.splits if_splits)
    from Cons.IH [OF this] True show ?thesis by auto
  next
    case False
    with Cons.prems obtain more where valid: "validate_guard_command_name c = Inr ()"
        and rest: "collect_guard_commands cs (insert c seen) = Inr more" and found: "found = c # more"
      by (auto split: sum.splits)
    from Cons.IH [OF rest] valid False show ?thesis unfolding found by auto
  qed
qed

definition env_index :: "string \<Rightarrow> nat option" where
  "env_index name = Option.bind (strip_prefix output_guard_real_prefix name) (\<lambda>rest. Option.bind (split_once CHR ''_'' rest)
     (\<lambda>(digits, _). parse_unsigned u64_max digits))"

lemma env_name_prefix: "starts_with output_guard_real_prefix (guard_real_env_name n c)"
  by (simp add: starts_with_iff guard_real_env_name_def output_guard_real_prefix_def)

lemma underscore_no_digit: "CHR ''_'' \<notin> set (show_nat n)"
  using show_nat_digits [of "CHR ''_''" n] by (auto simp: is_ascii_digit_def)

lemma env_name_inj:
  assumes "guard_real_env_name m c = guard_real_env_name n d"
  shows "m = n"
proof -
  have "split_once CHR ''_'' (show_nat k @ CHR ''_'' # rest) = Some (show_nat k, rest)" for k rest
    by (rule split_once_at) (rule underscore_no_digit)
  moreover have "show_nat m @ CHR ''_'' # map (\<lambda>c. if is_ascii_alphanumeric c then to_ascii_upper_char c else CHR ''_'') c =
      show_nat n @ CHR ''_'' # map (\<lambda>c. if is_ascii_alphanumeric c then to_ascii_upper_char c else CHR ''_'') d"
    using assms by (simp add: guard_real_env_name_def)
  ultimately have "show_nat m = show_nat n" by (metis option.inject prod.inject)
  then show ?thesis by (simp add: show_nat_inj)
qed

lemma resolved_commands:
  assumes "resolve_guarded_commands W path_dirs inherited index cs = Inr found"
  shows "distinct (map gc_env_name found)" and "\<forall>g \<in> set found. \<exists>n \<ge> index. gc_env_name g = guard_real_env_name n (gc_command g)"
    and "\<forall>g \<in> set found. gc_command g \<in> set cs \<and>
      command_path_skipping_guard_dirs W (gc_command g) path_dirs inherited = Some (gc_real_path g)"
  using assms
proof (induction cs arbitrary: index found)
  case (Cons c cs)
  {
    case 1
    then obtain rest where rest: "resolve_guarded_commands W path_dirs inherited (Suc index) cs = Inr rest"
      by (auto split: sum.splits)
    with 1 have found: "found = rest \<or> (\<exists>p. found = \<lparr>gc_command = c, gc_env_name = guard_real_env_name index c, gc_real_path = p\<rparr> # rest)"
      by (auto split: sum.splits option.splits)
    have "guard_real_env_name index c \<notin> gc_env_name ` set rest"
      using Cons.IH(2) [OF rest] env_name_inj by fastforce
    with found Cons.IH(1) [OF rest] show ?case by auto
  next
    case 2
    then obtain rest where rest: "resolve_guarded_commands W path_dirs inherited (Suc index) cs = Inr rest"
      by (auto split: sum.splits)
    have later: "\<exists>n \<ge> index. gc_env_name g = guard_real_env_name n (gc_command g)" if "g \<in> set rest" for g
      using Cons.IH(2) [OF rest] that by (meson Suc_leD)
    from 2 rest have "found = rest \<or> (\<exists>p. found = \<lparr>gc_command = c, gc_env_name = guard_real_env_name index c, gc_real_path = p\<rparr> # rest)"
      by (auto split: sum.splits option.splits)
    then show ?case
    proof
      assume "\<exists>p. found = \<lparr>gc_command = c, gc_env_name = guard_real_env_name index c, gc_real_path = p\<rparr> # rest"
      then obtain p where found: "found = \<lparr>gc_command = c, gc_env_name = guard_real_env_name index c, gc_real_path = p\<rparr> # rest" ..
      show ?case unfolding found using later by (simp, blast)
    qed (use later in blast)
  next
    case 3
    then obtain rest where rest: "resolve_guarded_commands W path_dirs inherited (Suc index) cs = Inr rest"
      by (auto split: sum.splits)
    from 3 rest have "found = rest \<or> (\<exists>p. command_path_skipping_guard_dirs W c path_dirs inherited = Some p \<and>
        found = \<lparr>gc_command = c, gc_env_name = guard_real_env_name index c, gc_real_path = p\<rparr> # rest)"
      by (auto split: sum.splits option.splits)
    with Cons.IH(3) [OF rest] show ?case by auto
  }
qed simp_all

lemma skipped_path:
  assumes "command_path_skipping_guard_dirs W c path_dirs inherited = Some p"
  shows "gw_executable W p \<and> (\<exists>dir \<in> set path_dirs. p = path_join dir c \<and> \<not> inherited_dir inherited dir)"
  using find_Some_set [OF assms [unfolded command_path_skipping_guard_dirs_def]] by auto

lemma prepared_launch:
  assumes "prepare_output_guard_launch W env launch_id started_at = Inr (Some g)"
  obtains commands path_dirs where "output_guard_commands env = Inr commands"
    and "path_dirs = (case env ''PATH'' of None \<Rightarrow> [] | Some p \<Rightarrow> split_paths p)"
    and "resolve_guarded_commands W path_dirs (env output_guard_bin_env) 0 commands = Inr (og_real_commands g)"
  using assms
  by (auto simp: prepare_output_guard_launch_def prepare_output_guard_launch_with_paths_def Let_def
      split: if_splits sum.splits list.splits option.splits)

subsection \<open>The environment after the changes\<close>

fun changed_name :: "env_change \<Rightarrow> string" where
  "changed_name (EnvSet name v) = name"
| "changed_name (EnvRemove name) = name"

lemma changed_env_append: "changed_env (a @ b) env = changed_env b (changed_env a env)"
  by (simp add: changed_env_def)

lemma changed_env_other: "name \<notin> changed_name ` set changes \<Longrightarrow> changed_env changes env name = env name"
proof (induction changes arbitrary: env)
  case Nil
  then show ?case by (simp add: changed_env_def)
next
  case (Cons change changes)
  then show ?case by (cases change) (auto simp: changed_env_def)
qed

lemma changed_env_last: "changed_env (changes @ [EnvSet name v]) env = (changed_env changes env)(name \<mapsto> v)"
  by (simp add: changed_env_def)

lemma changed_env_commands:
  "distinct (map gc_env_name cs) \<Longrightarrow> c \<in> set cs \<Longrightarrow>
   changed_env (map (\<lambda>c. EnvSet (gc_env_name c) (gc_real_path c)) cs) env (gc_env_name c) = Some (gc_real_path c)"
proof (induction cs arbitrary: env)
  case (Cons d cs)
  show ?case
  proof (cases "c = d")
    case True
    with Cons.prems have "gc_env_name c \<notin> changed_name ` set (map (\<lambda>c. EnvSet (gc_env_name c) (gc_real_path c)) cs)"
      by (auto simp: image_image)
    then have "changed_env (map (\<lambda>c. EnvSet (gc_env_name c) (gc_real_path c)) cs) (env(gc_env_name c \<mapsto> gc_real_path c))
        (gc_env_name c) = Some (gc_real_path c)"
      by (subst changed_env_other) simp_all
    with True show ?thesis by (simp add: changed_env_def)
  next
    case False
    with Cons show ?thesis by (simp add: changed_env_def)
  qed
qed simp

lemma removed_everywhere:
  "env name = None \<or> EnvRemove name \<in> set changes \<Longrightarrow> \<forall>v. EnvSet name v \<notin> set changes \<Longrightarrow>
   changed_env changes env name = None"
proof (induction changes arbitrary: env)
  case Nil
  then show ?case by (simp add: changed_env_def)
next
  case (Cons change changes)
  then show ?case by (cases change) (auto simp: changed_env_def)
qed

definition fixed_variables :: "output_guard_launch \<Rightarrow> env_change list" where
  "fixed_variables g = [EnvSet output_guard_enabled_env ''yes'', EnvSet output_guard_bin_env (og_bin_dir g),
    EnvSet output_guard_command_list_env (guarded_command_list g), EnvSet output_guard_qcold_env (og_qcold_path g)]"

lemma no_real_prefix: "\<not> starts_with output_guard_real_prefix ''PATH''"
    "\<not> starts_with output_guard_real_prefix output_guard_enabled_env"
    "\<not> starts_with output_guard_real_prefix output_guard_bin_env"
    "\<not> starts_with output_guard_real_prefix output_guard_command_list_env"
    "\<not> starts_with output_guard_real_prefix output_guard_qcold_env"
  by code_simp+

lemma scrubbed_name:
  assumes "starts_with output_guard_real_prefix name"
  shows "changed_env (scrub_inherited_output_guard vars @ fixed_variables g) (env_of vars) name = None"
proof (rule removed_everywhere)
  show "env_of vars name = None \<or> EnvRemove name \<in> set (scrub_inherited_output_guard vars @ fixed_variables g)"
  proof (cases "env_of vars name")
    case (Some v)
    then have "(name, v) \<in> set vars" by (simp add: env_of_def map_of_SomeD)
    with assms show ?thesis by (force simp: scrub_inherited_output_guard_def)
  qed simp
  show "\<forall>v. EnvSet name v \<notin> set (scrub_inherited_output_guard vars @ fixed_variables g)"
    using assms no_real_prefix
    by (auto simp: scrub_inherited_output_guard_def fixed_variables_def Let_def split: option.splits if_splits)
qed

lemma guarded_env:
  "changed_env (apply_output_guard_to_command vars (Some g)) (env_of vars) =
   (changed_env (map (\<lambda>c. EnvSet (gc_env_name c) (gc_real_path c)) (og_real_commands g))
     (changed_env (scrub_inherited_output_guard vars @ fixed_variables g) (env_of vars)))
   (''PATH'' \<mapsto> guarded_path_value (og_bin_dir g)
     (path_without_output_guard_bin (var_or_empty vars ''PATH'') (env_of vars output_guard_bin_env)))"
proof -
  have "apply_output_guard_to_command vars (Some g) =
      ((scrub_inherited_output_guard vars @ fixed_variables g) @
       map (\<lambda>c. EnvSet (gc_env_name c) (gc_real_path c)) (og_real_commands g)) @
      [EnvSet ''PATH'' (guarded_path_value (og_bin_dir g)
        (path_without_output_guard_bin (var_or_empty vars ''PATH'') (env_of vars output_guard_bin_env)))]"
    by (simp add: apply_output_guard_to_command_def guard_variables_def fixed_variables_def)
  then show ?thesis by (simp only: changed_env_last) (simp only: changed_env_append)
qed


definition sample_guard_world :: guard_world where
  "sample_guard_world = \<lparr>gw_executable = (\<lambda>p. p = ''/bin/rg'' \<or> p = ''/g/rg''), gw_state_dir = Inr ''/s'',
     gw_create_dir = (\<lambda>_. None), gw_write = (\<lambda>_ _. None), gw_current_exe = Inr ''/bin/qcold''\<rparr>"

definition sample_vars :: process_env where
  "sample_vars = [(''PATH'', ''/g:/bin''), (output_guard_bin_env, ''/g/''), (''QCOLD_GUARD_REAL_7_RG'', ''/old''),
     (output_guard_commands_env, ''rg,jq'')]"


text \<open>
  The list of guarded commands is read exactly: if every name in it is made of letters, digits,
  dashes and underscores, the commands are its names without repetition; otherwise it is an error.
\<close>

theorem guard_commands_read_exactly:
  "let names = {trim w | w. w \<in> set (split_when (\<lambda>c. c = CHR '','') raw)} - {[]} in
   case parse_output_guard_commands raw of
     Inr commands \<Rightarrow> set commands = names \<and> distinct commands \<and> (\<forall>c \<in> names. list_all name_char c)
   | Inl e \<Rightarrow> \<exists>c \<in> names. \<not> list_all name_char c"
proof -
  have fails: "\<exists>c \<in> set cs. c \<noteq> [] \<and> \<not> list_all name_char c" if "collect_guard_commands cs seen = Inl e" for cs seen e
    using that
    by (induction cs arbitrary: seen e)
       (auto simp: validate_guard_command_name_def split: if_splits sum.splits)
  show ?thesis
  proof (cases "parse_output_guard_commands raw")
    case (Inl e)
    then have "collect_guard_commands (map trim (split_when (\<lambda>c. c = CHR '','') raw)) {} = Inl e"
      by (simp add: parse_output_guard_commands_def)
    from fails [OF this] obtain w where "w \<in> set (split_when (\<lambda>c. c = CHR '','') raw)" "trim w \<noteq> []"
        "\<not> list_all name_char (trim w)" by auto
    with Inl show ?thesis by (auto simp: Let_def)
  next
    case (Inr commands)
    then have "collect_guard_commands (map trim (split_when (\<lambda>c. c = CHR '','') raw)) {} = Inr commands"
      by (simp add: parse_output_guard_commands_def)
    from collect_guard_commands_ok [OF this] Inr show ?thesis
      by (auto simp: Let_def validate_guard_command_name_def split: if_splits)
  qed
qed

end
