(* ===== verification/Spec2Isabelle.thy ===== *)
theory Spec2Isabelle
  imports Task_Flow_Sync Queue_Execution Output_Guard Task_Titles Queue_Launch Task_Env Queue_Api Queue_Runner Queue_Graph Queue_Ids Status_Reducer Task_Records
begin

text \<open>
  This development models the task queue of qcold, the part of the program that decides what runs:
  the queue database and its operations (\<open>src/src/state.rs\<close>, \<open>src/src/state/\<close>) and the queue worker
  of the daemon (\<open>src/src/webapp/\<close>).

  \<^bold>\<open>The program.\<close> An operator collects prompts into a queue, called a run. A run has items, a tab
  shows a run. The daemon works a run off: a loop per run reconciles every item with the evidence
  about it, asks which items are ready, asks admission which of them the hosts can bear, and starts
  a worker per admitted item under a lease. A worker launches an agent in a terminal and waits until
  the task record of the item is closed. Several processes may serve one database, so everything
  that matters is a row in SQLite, and the leases say who works on what.

  \<^bold>\<open>How the code is written down.\<close> An operation of the database is a program in the
  state-and-error monad of \<open>Qcold_Prelude\<close>: it maps a database to a result or an error and the
  database it leaves. An error is \<open>Bail\<close> (the code's \<open>bail!\<close> and \<open>context\<close>), \<open>Constraint\<close> (SQLite
  refuses the statement) or \<open>Panic\<close>. A transaction that fails leaves the database as it was; a
  statement outside one does not undo its predecessors, as in the code. Functions keep the names of
  the Rust functions, rows and enums the names of the structs with a prefix for the field. Status
  texts are decoded values. What a function reads outside the database is an argument: the clock
  (one reading per operation), environment variables, terminal snapshots, remote sessions, child
  processes, the JSON parser (\<open>store_env\<close>, \<open>admission_env\<close>, \<open>queue_world\<close>).

  \<^bold>\<open>The theories.\<close>

  \<^item> \<open>Qcold_Prelude\<close>: saturating integers, Rust's string functions, the monad, tables as row lists
    and their laws (locale \<open>keyed_table\<close>), programs that keep an invariant (\<open>keeps\<close>).
  \<^item> \<open>Queue_Types\<close> (\<open>state/queue_types.rs\<close>): the status enums and their texts; the codecs are
    interpretations of \<open>db_codec\<close> and \<open>lossless_codec\<close>.
  \<^item> \<open>Queue_Db\<close> (\<open>state.rs\<close>, \<open>state/db.rs\<close>): rows, tables, constraints, statements with cascades.
  \<^item> \<open>Queue_Tabs\<close> (\<open>state/queue_tabs.rs\<close>, \<open>state/db.rs\<close>): tabs, their repair, deletions; the
    invariant \<open>tabs_inv\<close> that every tab operation keeps.
  \<^item> \<open>Queue_Store\<close> (\<open>state.rs\<close>, \<open>state/queue_attempts.rs\<close>): runs and items, stop and continue,
    the ledger of attempts.
  \<^item> \<open>Worker_Lease\<close> (\<open>state/queue_worker_leases.rs\<close>): leases with epochs, their refinement of an
    abstract lease, fencing over every trace (locale \<open>fenced_lease\<close>).
  \<^item> \<open>Task_Records\<close> (\<open>state/task_records.rs\<close> and the numbering of \<open>state/db.rs\<close>).
  \<^item> \<open>Queue_Graph\<close> (\<open>webapp/queue_graph.rs\<close>), \<open>Queue_Ids\<close> (\<open>queue_worker_ids.rs\<close>,
    \<open>queue_api_dedupe.rs\<close>), \<open>Status_Reducer\<close> (\<open>queue_worker_status_reducer.rs\<close>): pure parts.
  \<^item> \<open>Queue_Admission\<close> (\<open>queue_admission.rs\<close>, \<open>queue_worker_activity.rs\<close>): limits and plans.
  \<^item> \<open>Queue_Evidence\<close> (\<open>queue_worker_taskflow.rs\<close>, \<open>queue_worker_status.rs\<close>): which task record
    speaks for an item, synchronisation with a remote host, the evidence record.
  \<^item> \<open>Queue_Worker\<close> (\<open>queue_worker_closeout.rs\<close>, \<open>queue_worker_recovery.rs\<close>,
    \<open>queue_worker_record_status.rs\<close>, \<open>queue_worker_cleanup.rs\<close>): what is written for one item.
  \<^item> \<open>Queue_Reconcile\<close> (\<open>queue_worker_reconcile.rs\<close>, \<open>queue_worker_reconcile_status.rs\<close>): a pass
    over a run, runs without a worker.
  \<^item> \<open>Worker_Invariants\<close>: the locales \<open>worker_invariant\<close> and \<open>row_invariant\<close> for what the worker's
    writes allow, interpreted on the schema, the tabs, the leases, the items and the run status.
  \<^item> \<open>Queue_Runner\<close> (\<open>queue_worker.rs\<close>): ready items, starting workers, the loop and its thread.
  \<^item> \<open>Queue_Requests\<close>, \<open>Queue_Api\<close> (\<open>queue_api.rs\<close>, \<open>queue_api_cleanup.rs\<close>): the requests of an
    operator, the rows built from them, the handlers and their answers. Starting the thread of a run
    is recorded in the list of runs with a worker.
  \<^item> \<open>Queue_Launch\<close> (\<open>queue_worker_agent_selection.rs\<close>, \<open>queue_worker_cleanup.rs\<close>,
    \<open>queue_worker_taskflow.rs\<close>): the choice of an agent command, proxy ports, the worktree of a launch.
  \<^item> \<open>Task_Env\<close> (\<open>xtask/src/task/env_io.rs\<close>, \<open>app/task_flow_sync.rs\<close>): the file by which the build
    helper tells the daemon about a task, and the quoting it rests on.
  \<^item> \<open>Queue_System\<close>: every request of the interface and every pass of the worker keeps the schema, the
    tab and lease rules and the dependencies of each run acyclic (locale \<open>queue_invariant\<close>).
  \<^item> \<open>Task_Packet\<close> (\<open>queue_worker_task_packet.rs\<close>, \<open>prompt.rs\<close>): the text an agent is started with, and
    that the request can be read back from it whatever it contains.
  \<^item> \<open>Queue_Item_Worker\<close> (\<open>queue_worker.rs\<close>, \<open>queue_worker_closeout.rs\<close>, \<open>queue_worker_cleanup.rs\<close>,
    \<open>queue_worker_taskflow.rs\<close>): the thread of an item, from what it finds through the launch of an
    agent and its retries to the end of the task; \<open>Item_Worker_End\<close>: that it always ends.
  \<^item> \<open>Text_Scan\<close>: what these modules use of the standard library on texts and paths.
  \<^item> \<open>Agent_Limits\<close> (\<open>agent_limits.rs\<close>): what the status command of an account says about its
    limits, the attempts of a probe, and the cache that the choice of a command reads.
  \<^item> \<open>Output_Guard\<close> (\<open>output_guard.rs\<close>, \<open>guard_command\<close> of \<open>lib.rs\<close>): the wrappers around the commands
    of an agent, the environment that puts them first, and the verdict on an output.
  \<^item> \<open>Codex_Sessions\<close> (\<open>app/codex_sessions.rs\<close>, \<open>app/codex_metadata.rs\<close>): the sessions of an agent that
    belong to a task, what they say about it, and the statistics added up over them.
  \<^item> \<open>Task_Titles\<close> (\<open>app/rendering.rs\<close>, \<open>app/remote_task_records.rs\<close>): titles, slugs and prompts taken
    from commands, and the line a record is printed as.
  \<^item> \<open>Remote_Sync\<close> (\<open>app/remote_task_records.rs\<close>, \<open>lib.rs\<close>): opening a task on a remote host, the
    records a host exports as JSON lines, and their merge into the local records.
  \<^item> \<open>Task_Flow_Sync\<close> (\<open>app/task_flow_sync.rs\<close>, \<open>app/codex_metadata.rs\<close>, \<open>state/agent_records.rs\<close>):
    task records kept in step with the worktrees of tasks, the bundles of ended tasks and the
    sessions of agents without a task.
  \<^item> \<open>Queue_Execution\<close>: executions of the whole queue as a step relation: requests, reconciliations and
    the threads of runs and items, interleaved at every sleep.

  \<^bold>\<open>What is shown.\<close> Of the store: operations keep the schema, the tab invariant and the lease
  invariant, are all-or-nothing where they are transactions, and do to the rows what their callers
  rely on. Of leases: at most one worker at a time, a stale token is never accepted. Of the graph:
  accepted exactly when acyclic. Of the reducer, the recovery budgets and the retries: a live
  executor is left alone, and nothing is retried for ever. Of admission: the plan respects every
  limit and is maximal. Of the loop: ready items are safe to start, an idle queue always has one,
  one worker per item, a justified verdict, and a thread that always settles its run; a thread of an
  item that always ends with the item settled and the lease given back. Of the whole: the invariants
  hold in every execution of requests, reconciliations and threads. Of the agents: an account that is
  chosen was ready; the output guard withholds exactly what is too long, and an agent under it runs
  the real commands. Of the task records: exported records are read back as they were, a remote
  synchronisation spares closed local work and the numbers of tasks, a synchronisation writes task
  records and nothing else, and a second one of a worktree finds nothing to write.

  \<^bold>\<open>Bounds.\<close> Text is Latin-1: a \<open>char\<close> is a Unicode scalar value below 256, with its UTF-8 width
  where bytes are counted. \<open>u64\<close> and \<open>usize\<close> values are naturals and \<open>i64\<close> values integers with
  the code's saturation written out; hashes and ports are words. The wave recursion of the graph
  runs on fuel, one unit more than there are items, proved enough. The search for a free slug is a
  partial function, since it may not end. The loop of a run is a list of rounds: each has its own
  observations and what the other threads wrote before it, so that every interleaving at the
  granularity of an iteration is a list; a loop still at work when the list ends answers that. The
  thread of an item runs against a list of sleeps in the same way; its loops run on fuel, one round
  more than there are sleeps and retries left, which is proved enough: the thread is still at work
  only when the list has run out.

  \<^bold>\<open>Not modelled.\<close> Sockets, the HTML page and its JSON, terminals and transcripts, tmux and zellij
  sessions, git worktrees, ssh and adapters, the node agent, Telegram, the command line, the build
  helper apart from what is listed above: their code is input and output around processes and
  services. Parsing JSON text is an argument of the definitions that read it. A query for the running
  agents also prunes stale agent rows and imports session records; the worker takes its answer as an
  observation, and the import is \<open>sync_codex_task_records\<close>. The retries of a statement on a locked
  database, the import of agents from the registry file of an older version, and the audit report of
  task records are left out. Threads within an iteration, a poisoned mutex, the float of a load average and the size limits of SQLite are left out.
\<close>

end
